(* ===== verification/Prelude.thy ===== *)
theory Prelude
  imports Main "HOL-Library.Word"
begin

unbundle bit_operations_syntax

text \<open>
  Shared vocabulary of the development: the machine types the C++ code uses, the exceptions it
  throws, the result type of operations that may throw, the little-endian byte images of the
  integer types (the host is little-endian, so the \<open>LESWAP\<close> macros of
  \<open>src/core/Sys/Platform.h\<close> are the identity and the \<open>BESWAP\<close> macros swap), and generic
  lemmas on lists and words that the component theories share.
\<close>

section \<open>Machine types\<close>

type_synonym u8 = "8 word"
type_synonym u16 = "16 word"
type_synonym u32 = "32 word"
type_synonym u64 = "64 word"
type_synonym bytes = "u8 list"

text \<open>
  The exceptions of \<open>src/core/Debug/hsExceptions.hpp\<close>, \<open>hsStream.h\<close> and
  \<open>pfPrcParser.h\<close>, with \<open>std::out_of_range\<close> for \<open>vector::at\<close>
  and the string library's \<open>ST::unicode_error\<close>.  \<open>UndefinedBehaviour\<close> is not an exception: it
  marks the inputs on which the C++ dereferences a null pointer or reads outside an array.  The message text an
  exception carries is not modelled.
\<close>

datatype hs_exn =
    FileReadException
  | FileWriteException
  | BadParamException
  | BadVersionException
  | NotImplementedException
  | OutOfBoundsException
  | PrcParseException
  | PrcTagException
  | StdOutOfRange
  | StUnicodeError
  | UndefinedBehaviour
  | VersionMismatchException
  | StdLengthError

type_synonym 'a result = "hs_exn + 'a"

definition rbind :: "'a result \<Rightarrow> ('a \<Rightarrow> 'b result) \<Rightarrow> 'b result" where
  "rbind r f = (case r of Inl e \<Rightarrow> Inl e | Inr x \<Rightarrow> f x)"

lemma rbind_simps [simp]:
  "rbind (Inl e) f = Inl e"
  "rbind (Inr x) f = f x"
  by (simp_all add: rbind_def)

lemma rbind_cong [fundef_cong]:
  "r = r' \<Longrightarrow> (\<And>x. r' = Inr x \<Longrightarrow> f x = g x) \<Longrightarrow> rbind r f = rbind r' g"
  by (cases r') auto

lemma rbind_eq_Inr: "rbind r f = Inr y \<longleftrightarrow> (\<exists>x. r = Inr x \<and> f x = Inr y)"
  by (cases r) auto

lemma rbind_eq_Inl: "rbind r f = Inl e \<longleftrightarrow> r = Inl e \<or> (\<exists>x. r = Inr x \<and> f x = Inl e)"
  by (cases r) auto

section \<open>Byte images of the integer types\<close>

definition le16 :: "u16 \<Rightarrow> bytes" where
  "le16 v = [ucast v, ucast (drop_bit 8 v)]"

definition le32 :: "u32 \<Rightarrow> bytes" where
  "le32 v = [ucast v, ucast (drop_bit 8 v), ucast (drop_bit 16 v), ucast (drop_bit 24 v)]"

definition le64 :: "u64 \<Rightarrow> bytes" where
  "le64 v = [ucast v, ucast (drop_bit 8 v), ucast (drop_bit 16 v), ucast (drop_bit 24 v),
             ucast (drop_bit 32 v), ucast (drop_bit 40 v), ucast (drop_bit 48 v),
             ucast (drop_bit 56 v)]"

fun un_le16 :: "bytes \<Rightarrow> u16" where
  "un_le16 [a, b] = ucast a OR push_bit 8 (ucast b)"
| "un_le16 _ = 0"

fun un_le32 :: "bytes \<Rightarrow> u32" where
  "un_le32 [a, b, c, d] =
     ucast a OR push_bit 8 (ucast b) OR push_bit 16 (ucast c) OR push_bit 24 (ucast d)"
| "un_le32 _ = 0"

fun un_le64 :: "bytes \<Rightarrow> u64" where
  "un_le64 [a, b, c, d, e, f, g, h] =
     ucast a OR push_bit 8 (ucast b) OR push_bit 16 (ucast c) OR push_bit 24 (ucast d) OR
     push_bit 32 (ucast e) OR push_bit 40 (ucast f) OR push_bit 48 (ucast g) OR
     push_bit 56 (ucast h)"
| "un_le64 _ = 0"

lemma length_le [simp]: "length (le16 a) = 2" "length (le32 b) = 4" "length (le64 c) = 8"
  by (simp_all add: le16_def le32_def le64_def)

lemma le_not_Nil [simp]: "le16 a \<noteq> []" "le32 b \<noteq> []" "le64 c \<noteq> []"
  by (simp_all add: le16_def le32_def le64_def)

lemma ucast_byte: "(ucast (ucast w :: u8) :: 'a::len word) = take_bit 8 (ucast (w :: 'a word))"
  by (rule bit_word_eqI) (auto simp: bit_simps)

lemma take_bit_join:
  "take_bit m w OR push_bit m (take_bit n (drop_bit m w)) = take_bit (m + n) (w :: 'a::len word)"
proof (rule bit_word_eqI)
  fix k
  assume "k < LENGTH('a)"
  then show "bit (take_bit m w OR push_bit m (take_bit n (drop_bit m w))) k
             = bit (take_bit (m + n) w) k"
    by (cases "k < m") (auto simp: bit_simps)
qed

lemmas take_bit_joins =
  take_bit_join [of 8 _ 8, simplified] take_bit_join [of 16 _ 8, simplified]
  take_bit_join [of 24 _ 8, simplified] take_bit_join [of 32 _ 8, simplified]
  take_bit_join [of 40 _ 8, simplified] take_bit_join [of 48 _ 8, simplified]
  take_bit_join [of 56 _ 8, simplified]

lemma un_le16_le16 [simp]: "un_le16 (le16 v) = v"
  by (simp add: le16_def ucast_byte take_bit_joins take_bit_length_eq [where 'a = 16, simplified])

lemma un_le32_le32 [simp]: "un_le32 (le32 v) = v"
  by (simp add: le32_def ucast_byte take_bit_joins or.assoc [symmetric]
      take_bit_length_eq [where 'a = 32, simplified])

lemma un_le64_le64 [simp]: "un_le64 (le64 v) = v"
  by (simp add: le64_def ucast_byte take_bit_joins or.assoc [symmetric]
      take_bit_length_eq [where 'a = 64, simplified])

lemma bit_u8_beyond [simp]: "8 \<le> n \<Longrightarrow> \<not> bit (a :: u8) n"
  using bit_imp_le_length [of a n] by auto

lemma top_bit_u8: "(a :: u8) AND 0x80 = 0 \<longleftrightarrow> \<not> bit a 7"
  using and_exp_eq_0_iff_not_bit [of a 7] by simp

lemma top_bit_NOT: "NOT (a :: u8) AND 0x80 = 0 \<longleftrightarrow> a AND 0x80 \<noteq> 0"
  unfolding top_bit_u8 by (simp add: bit_simps)

lemma length_2_conv: "length xs = 2 \<longleftrightarrow> (\<exists>a b. xs = [a, b])"
  by (auto simp: numeral_eq_Suc length_Suc_conv)

lemma length_4_conv: "length xs = 4 \<longleftrightarrow> (\<exists>a b c d. xs = [a, b, c, d])"
  by (auto simp: numeral_eq_Suc length_Suc_conv)

lemma le16_un_le16 [simp]: "length bs = 2 \<Longrightarrow> le16 (un_le16 bs) = bs"
  unfolding length_2_conv le16_def
  by (auto intro!: bit_word_eqI simp: bit_simps)

lemma le32_un_le32 [simp]: "length bs = 4 \<Longrightarrow> le32 (un_le32 bs) = bs"
  unfolding length_4_conv le32_def
  by (auto intro!: bit_word_eqI simp: bit_simps)

section \<open>Lists\<close>

lemma take_append_exact [simp]: "n = length xs \<Longrightarrow> take n (xs @ ys) = xs"
  by simp

lemma drop_append_exact [simp]: "n = length xs \<Longrightarrow> drop n (xs @ ys) = ys"
  by simp

end
