(* ===== verification/PlasmaVersions.thy ===== *)
theory PlasmaVersions
  imports Prelude
begin

text \<open>
  The version numbers of the Plasma engine, \<open>src/core/Util/PlasmaVersions.h\<close> and
  \<open>PlasmaVersions.cpp\<close>.  A \<open>PlasmaVer\<close> holds an \<open>int\<close>; the class's unnamed enum has both
  \<open>-1\<close> and \<open>0xF0000000\<close> among its enumerators, so its underlying type is a 64-bit integer and
  the masks act on the sign-extended value.  A version is therefore an \<^typ>\<open>int\<close> here, and the
  masks are \<open>AND\<close> on \<^typ>\<open>int\<close>, which is two's complement of unbounded width.
\<close>

section \<open>Versions and their predicates\<close>

type_synonym plasma_ver = int

text \<open>The macro computes in \<open>int\<close>, so a result outside the type wraps to 32 bits.\<close>

definition MAKE_VERSION :: "int \<Rightarrow> int \<Rightarrow> int \<Rightarrow> int \<Rightarrow> plasma_ver" where
  "MAKE_VERSION plsMaj plsMin revMaj revMin =
     signed_take_bit 31
       (push_bit 28 plsMaj OR push_bit 24 plsMin OR push_bit 12 revMaj OR revMin)"

definition pvUnknown :: plasma_ver where "pvUnknown = 0"
definition pvPrime :: plasma_ver where "pvPrime = MAKE_VERSION 2 0 63 11"
definition pvPots :: plasma_ver where "pvPots = MAKE_VERSION 2 0 63 12"
definition pvMoul :: plasma_ver where "pvMoul = MAKE_VERSION 2 0 70 0"
definition pvEoa :: plasma_ver where "pvEoa = MAKE_VERSION 2 1 6 10"
definition pvHex :: plasma_ver where "pvHex = MAKE_VERSION 3 0 0 0"
definition pvUniversal :: plasma_ver where "pvUniversal = -1"

definition plsMajor :: "plasma_ver \<Rightarrow> int" where "plsMajor v = drop_bit 28 v AND 0xF"
definition plsMinor :: "plasma_ver \<Rightarrow> int" where "plsMinor v = drop_bit 24 v AND 0xF"
definition revMajor :: "plasma_ver \<Rightarrow> int" where "revMajor v = drop_bit 12 v AND 0xFFF"
definition revMinor :: "plasma_ver \<Rightarrow> int" where "revMinor v = v AND 0xFFF"

definition isValid :: "plasma_ver \<Rightarrow> bool" where "isValid v \<longleftrightarrow> v \<noteq> pvUnknown"
definition isUniversal :: "plasma_ver \<Rightarrow> bool" where "isUniversal v \<longleftrightarrow> v = pvUniversal"
definition isPrime :: "plasma_ver \<Rightarrow> bool" where "isPrime v \<longleftrightarrow> v = pvPrime"
definition isPots :: "plasma_ver \<Rightarrow> bool" where "isPots v \<longleftrightarrow> v = pvPots"
definition isMoul :: "plasma_ver \<Rightarrow> bool" where "isMoul v \<longleftrightarrow> v = pvMoul"
definition isEoa :: "plasma_ver \<Rightarrow> bool" where "isEoa v \<longleftrightarrow> v = pvEoa"
definition isHexIsle :: "plasma_ver \<Rightarrow> bool" where "isHexIsle v \<longleftrightarrow> v = pvHex"

definition isUru :: "plasma_ver \<Rightarrow> bool" where
  "isUru v \<longleftrightarrow> v AND 0xFF000000 = MAKE_VERSION 2 0 0 0"

definition isUruSP :: "plasma_ver \<Rightarrow> bool" where
  "isUruSP v \<longleftrightarrow> v AND 0xFFFFF000 \<le> MAKE_VERSION 2 0 63 0 \<and> isValid v"

definition isLive :: "plasma_ver \<Rightarrow> bool" where "isLive v \<longleftrightarrow> isUru v \<and> \<not> isUruSP v"

definition isNewPlasma :: "plasma_ver \<Rightarrow> bool" where
  "isNewPlasma v \<longleftrightarrow> MAKE_VERSION 2 1 0 0 \<le> v \<and> \<not> isUniversal v"

definition isSafeVer :: "plasma_ver \<Rightarrow> bool" where
  "isSafeVer v \<longleftrightarrow> v = pvPrime \<or> v = pvPots \<or> v = pvMoul \<or> v = pvEoa \<or> v = pvHex"

definition GetSafestVersion :: "plasma_ver \<Rightarrow> plasma_ver" where
  "GetSafestVersion v =
     (if v \<le> pvPrime then pvPrime
      else if v = pvPots then pvPots
      else if v \<le> pvMoul then pvMoul
      else if v = pvEoa then pvEoa
      else if v = pvHex then pvHex
      else pvUniversal)"

definition GetVersionName :: "plasma_ver \<Rightarrow> string" where
  "GetVersionName v =
     (if v = pvPrime then ''Prime/UU''
      else if v = pvPots then ''PotS/CC''
      else if v = pvMoul then ''MOUL/MQO''
      else if v = pvEoa then ''Myst V/Crowthistle''
      else if v = pvHex then ''Hex Isle''
      else if v = pvUniversal then ''Universal''
      else if v < pvPrime then ''Choru''
      else if v > pvPots \<and> v < pvMoul then ''MOUL Beta''
      else ''Unknown'')"

section \<open>Evaluation on the named versions\<close>

text \<open>
  The release versions are constants, so every predicate on them, and every comparison with a
  \<open>MAKE_VERSION\<close> of numerals, is decided by evaluation.
\<close>

lemmas ver_consts = pvUnknown_def pvPrime_def pvPots_def pvMoul_def pvEoa_def pvHex_def
  pvUniversal_def MAKE_VERSION_def

lemmas ver_preds = isValid_def isUniversal_def isPrime_def isPots_def isMoul_def isEoa_def
  isHexIsle_def isUru_def isUruSP_def isLive_def isNewPlasma_def isSafeVer_def

lemmas ver_eval = ver_preds ver_consts

lemma ver_values:
  "pvPrime = 537128971" "pvPots = 537128972" "pvMoul = 537157632" "pvEoa = 553672714"
  "pvHex = 805306368" "pvUniversal = -1" "pvUnknown = 0"
  by (simp_all add: ver_consts)

lemma safe_cases:
  assumes "isSafeVer v"
  obtains (Prime) "v = pvPrime" | (Pots) "v = pvPots" | (Moul) "v = pvMoul"
    | (Eoa) "v = pvEoa" | (Hex) "v = pvHex"
  using assms by (auto simp: isSafeVer_def)

section \<open>The safest version\<close>

lemma isSafe_values: "isSafeVer pvPrime" "isSafeVer pvPots" "isSafeVer pvMoul" "isSafeVer pvEoa" "isSafeVer pvHex"
  by (simp_all add: isSafeVer_def)

lemma safest_universal: "GetSafestVersion pvUniversal = pvPrime"
  by (simp add: GetSafestVersion_def ver_values)

lemma isSafe_universal: "\<not> isSafeVer pvUniversal"
  by (simp add: ver_values isSafeVer_def)

text \<open>The version an unsafe stream is switched to is a release version or none of the engine's, a
  release version is its own, and the universal one, which files of the library itself use, becomes
  the oldest engine version.\<close>

theorem safest_version:
  "(isSafeVer (GetSafestVersion v) \<or> GetSafestVersion v = pvUniversal) \<and>
   (isSafeVer v \<longrightarrow> GetSafestVersion v = v) \<and>
   GetSafestVersion pvUniversal = pvPrime \<and> \<not> isSafeVer pvUniversal"
  by (auto simp: GetSafestVersion_def isSafe_values ver_values isSafeVer_def)

theorem safest_version_witness: "GetSafestVersion pvMoul = pvMoul"
  using safest_version [of pvMoul] by (simp add: isSafe_values)

text \<open>Every valid version an engine can have belongs to exactly one of the families the code
  branches on: single-player Uru, Uru Live, or new Plasma, which all release versions are.\<close>

theorem version_families:
  "isSafeVer v \<longrightarrow> (isUruSP v \<longleftrightarrow> v = pvPrime \<or> v = pvPots) \<and> (isLive v \<longleftrightarrow> v = pvMoul) \<and>
     (isNewPlasma v \<longleftrightarrow> v = pvEoa \<or> v = pvHex) \<and> (isUru v \<longleftrightarrow> \<not> isNewPlasma v)"
  by (auto simp: ver_eval)

theorem version_families_witness: "isLive pvMoul"
  using version_families [of pvMoul] by (simp add: isSafe_values)

end
