(* ===== verification/HsStream.thy ===== *)
theory HsStream
  imports PlasmaVersions
begin

text \<open>
  The stream base class \<open>hsStream\<close> (\<open>src/core/Stream/hsStream.h\<close>, \<open>hsStream.cpp\<close>).
  Its pure virtual operations are given here by their contract: a stream is its bytes, a
  position and the Plasma version it carries.  \<open>RAMStream\<close> proves that the program's
  in-memory stream implements that contract.  Every non-virtual operation of the base class
  is a definition over it, in the state-passing type \<open>'a io\<close>, where \<open>Inl\<close> is a
  C++ exception.

  The calculus \<open>emits\<close>/\<open>parses\<close> at the end relates a writer and a reader to the bytes
  they put on and take off the wire; the locale \<open>codec\<close> is the contract every serialised
  class of the program is expected to meet.
\<close>

section \<open>The stream contract\<close>

record hs_stream =
  s_ver :: plasma_ver
  s_data :: bytes
  s_pos :: nat

type_synonym 'a io = "hs_stream \<Rightarrow> ('a \<times> hs_stream) result"

definition io_return :: "'a \<Rightarrow> 'a io" where "io_return x s = Inr (x, s)"
definition io_throw :: "hs_exn \<Rightarrow> 'a io" where "io_throw e s = Inl e"
definition io_bind :: "'a io \<Rightarrow> ('a \<Rightarrow> 'b io) \<Rightarrow> 'b io" where
  "io_bind m f s = rbind (m s) (\<lambda>(x, s'). f x s')"
definition io_then :: "'a io \<Rightarrow> 'b io \<Rightarrow> 'b io" where
  "io_then m k = io_bind m (\<lambda>_. k)"

definition io_lift :: "'a result \<Rightarrow> 'a io" where
  "io_lift r s = rbind r (\<lambda>x. Inr (x, s))"

definition io_when :: "bool \<Rightarrow> unit io \<Rightarrow> unit io" where
  "io_when c m = (if c then m else io_return ())"

definition io_opt :: "bool \<Rightarrow> 'a io \<Rightarrow> 'a \<Rightarrow> 'a io" where
  "io_opt c m d = (if c then m else io_return d)"

definition getVer :: "plasma_ver io" where "getVer s = Inr (s_ver s, s)"
definition setVer :: "plasma_ver \<Rightarrow> unit io" where "setVer v s = Inr ((), s\<lparr>s_ver := v\<rparr>)"

definition s_size :: "hs_stream \<Rightarrow> nat" where "s_size s = length (s_data s)"
definition s_eof :: "hs_stream \<Rightarrow> bool" where "s_eof s \<longleftrightarrow> length (s_data s) \<le> s_pos s"

text \<open>
  Positions are \<open>uint32_t\<close>: \<open>skip\<close> adds a signed count modulo \<open>2 ^ 32\<close>.  A read needs all its
  bytes to be there; a write overwrites, and fills a gap before its position with zeros.
\<close>

definition st_tell :: "nat io" where "st_tell s = Inr (s_pos s, s)"

definition st_seek :: "nat \<Rightarrow> unit io" where "st_seek p s = Inr ((), s\<lparr>s_pos := p\<rparr>)"

definition st_skip :: "int \<Rightarrow> unit io" where
  "st_skip c s = Inr ((), s\<lparr>s_pos := nat ((int (s_pos s) + c) mod 2 ^ 32)\<rparr>)"

definition st_read :: "nat \<Rightarrow> bytes io" where
  "st_read n s =
     (if s_pos s + n > length (s_data s) then Inl FileReadException
      else Inr (take n (drop (s_pos s) (s_data s)), s\<lparr>s_pos := s_pos s + n\<rparr>))"

definition overwrite :: "bytes \<Rightarrow> nat \<Rightarrow> bytes \<Rightarrow> bytes" where
  "overwrite d p bs =
     take p d @ replicate (p - length d) 0 @ bs @ drop (p + length bs) d"

definition st_write :: "bytes \<Rightarrow> unit io" where
  "st_write bs s = Inr ((), s\<lparr>s_data := overwrite (s_data s) (s_pos s) bs,
                              s_pos := s_pos s + length bs\<rparr>)"

lemma io_simps:
  "io_return x s = Inr (x, s)"
  "io_throw e s = Inl e"
  "io_bind m f s = (case m s of Inl e \<Rightarrow> Inl e | Inr (x, s') \<Rightarrow> f x s')"
  "io_then m k s = (case m s of Inl e \<Rightarrow> Inl e | Inr (x, s') \<Rightarrow> k s')"
  "getVer s = Inr (s_ver s, s)"
  "setVer v s = Inr ((), s\<lparr>s_ver := v\<rparr>)"
  by (simp_all add: io_return_def io_throw_def io_bind_def io_then_def getVer_def setVer_def
      rbind_def split: sum.split)

lemma io_monad_laws [simp]:
  "io_bind (io_return x) f = f x"
  "io_then (io_return x) k = k"
  by (auto simp: fun_eq_iff io_simps)

text \<open>The two loop shapes of the readers and writers: \<open>for\<close> with a count, and over a vector.\<close>

fun io_repeat :: "nat \<Rightarrow> 'a io \<Rightarrow> 'a list io" where
  "io_repeat 0 m = io_return []"
| "io_repeat (Suc n) m = io_bind m (\<lambda>x. io_bind (io_repeat n m) (\<lambda>xs. io_return (x # xs)))"

fun io_each :: "('a \<Rightarrow> unit io) \<Rightarrow> 'a list \<Rightarrow> unit io" where
  "io_each f [] = io_return ()"
| "io_each f (x # xs) = io_then (f x) (io_each f xs)"

section \<open>Primitive values\<close>

definition readByte :: "u8 io" where
  "readByte = io_bind (st_read 1) (\<lambda>b. io_return (hd b))"

definition readShort :: "u16 io" where
  "readShort = io_bind (st_read 2) (\<lambda>b. io_return (un_le16 b))"

definition readInt :: "u32 io" where
  "readInt = io_bind (st_read 4) (\<lambda>b. io_return (un_le32 b))"

definition readIntSwap :: "u32 io" where
  "readIntSwap = io_bind (st_read 4) (\<lambda>b. io_return (un_le32 (rev b)))"

text \<open>A float or double is carried as its bit pattern; the code only moves it.\<close>

definition readFloat :: "u32 io" where
  "readFloat = io_bind (st_read 4) (\<lambda>b. io_return (un_le32 b))"

definition readDouble :: "u64 io" where
  "readDouble = io_bind (st_read 8) (\<lambda>b. io_return (un_le64 b))"

definition readBool :: "bool io" where
  "readBool = io_bind readByte (\<lambda>b. io_return (b \<noteq> 0))"

fun shorts_of :: "bytes \<Rightarrow> u16 list" where
  "shorts_of (a # b # bs) = un_le16 [a, b] # shorts_of bs"
| "shorts_of _ = []"

fun ints_of :: "bytes \<Rightarrow> u32 list" where
  "ints_of (a # b # c # d # bs) = un_le32 [a, b, c, d] # ints_of bs"
| "ints_of _ = []"

definition readShorts :: "nat \<Rightarrow> u16 list io" where
  "readShorts count = io_bind (st_read (2 * count)) (\<lambda>b. io_return (shorts_of b))"

definition readInts :: "nat \<Rightarrow> u32 list io" where
  "readInts count = io_bind (st_read (4 * count)) (\<lambda>b. io_return (ints_of b))"

definition writeByte :: "u8 \<Rightarrow> unit io" where "writeByte v = st_write [v]"
definition writeShort :: "u16 \<Rightarrow> unit io" where "writeShort v = st_write (le16 v)"
definition writeInt :: "u32 \<Rightarrow> unit io" where "writeInt v = st_write (le32 v)"
definition writeIntSwap :: "u32 \<Rightarrow> unit io" where "writeIntSwap v = st_write (rev (le32 v))"
definition writeFloat :: "u32 \<Rightarrow> unit io" where "writeFloat v = st_write (le32 v)"
definition writeDouble :: "u64 \<Rightarrow> unit io" where "writeDouble v = st_write (le64 v)"
definition writeBool :: "bool \<Rightarrow> unit io" where "writeBool v = st_write [if v then 1 else 0]"
definition writeShorts :: "u16 list \<Rightarrow> unit io" where
  "writeShorts vs = st_write (concat (map le16 vs))"
definition writeInts :: "u32 list \<Rightarrow> unit io" where
  "writeInts vs = st_write (concat (map le32 vs))"

text \<open>
  \<open>writeFrom\<close> copies another stream block by block; it reads \<open>size() / 4096\<close> whole blocks and
  then the remainder from the source's current position.
\<close>

definition BLOCKSIZE :: nat where "BLOCKSIZE = 4096"

fun copy_blocks :: "nat \<Rightarrow> hs_stream \<Rightarrow> hs_stream \<Rightarrow> (hs_stream \<times> hs_stream) result" where
  "copy_blocks 0 src dst = Inr (src, dst)"
| "copy_blocks (Suc n) src dst =
     rbind (st_read BLOCKSIZE src) (\<lambda>(b, src').
     rbind (st_write b dst) (\<lambda>(_, dst').
     copy_blocks n src' dst'))"

definition writeFrom :: "hs_stream \<Rightarrow> hs_stream \<Rightarrow> (hs_stream \<times> hs_stream) result" where
  "writeFrom src dst =
     rbind (copy_blocks (s_size src div BLOCKSIZE) src dst) (\<lambda>(src1, dst1).
     rbind (st_read (s_size src mod BLOCKSIZE) src1) (\<lambda>(b, src2).
     rbind (st_write b dst1) (\<lambda>(_, dst2). Inr (src2, dst2))))"

section \<open>What a writer emits and a reader parses\<close>

text \<open>
  \<open>emits m v bs x v'\<close>: at the end of any stream of version \<open>v\<close>, the writer \<open>m\<close> appends exactly
  \<open>bs\<close>, returns \<open>x\<close> and leaves the version \<open>v'\<close>.  \<open>parses m v bs x v'\<close>: wherever \<open>bs\<close> stands
  in a stream of version \<open>v\<close>, the reader \<open>m\<close> positioned at it consumes exactly \<open>bs\<close> and returns
  \<open>x\<close>.  Stream lengths stay below \<open>2 ^ 32\<close>, the range of the \<open>uint32_t\<close> positions.
\<close>

definition emits :: "'a io \<Rightarrow> plasma_ver \<Rightarrow> bytes \<Rightarrow> 'a \<Rightarrow> plasma_ver \<Rightarrow> bool" where
  "emits m v bs x v' \<longleftrightarrow>
     (\<forall>pre. m \<lparr>s_ver = v, s_data = pre, s_pos = length pre\<rparr>
          = Inr (x, \<lparr>s_ver = v', s_data = pre @ bs, s_pos = length pre + length bs\<rparr>))"

definition parses :: "'a io \<Rightarrow> plasma_ver \<Rightarrow> bytes \<Rightarrow> 'a \<Rightarrow> plasma_ver \<Rightarrow> bool" where
  "parses m v bs x v' \<longleftrightarrow>
     (\<forall>pre post. length pre + length bs + length post < 2 ^ 32 \<longrightarrow>
        m \<lparr>s_ver = v, s_data = pre @ bs @ post, s_pos = length pre\<rparr>
          = Inr (x, \<lparr>s_ver = v', s_data = pre @ bs @ post, s_pos = length pre + length bs\<rparr>))"

named_theorems wire \<open>introduction rules of the emits/parses calculus\<close>

lemma emitsD:
  "emits m v bs x v' \<Longrightarrow>
   m \<lparr>s_ver = v, s_data = pre, s_pos = length pre\<rparr>
     = Inr (x, \<lparr>s_ver = v', s_data = pre @ bs, s_pos = length pre + length bs\<rparr>)"
  by (simp add: emits_def)

lemma parsesD:
  "parses m v bs x v' \<Longrightarrow> length pre + length bs + length post < 2 ^ 32 \<Longrightarrow>
   m \<lparr>s_ver = v, s_data = pre @ bs @ post, s_pos = length pre\<rparr>
     = Inr (x, \<lparr>s_ver = v', s_data = pre @ bs @ post, s_pos = length pre + length bs\<rparr>)"
  by (simp add: parses_def)

lemma overwrite_end [simp]: "overwrite d (length d) bs = d @ bs"
  by (simp add: overwrite_def)

lemma emits_return [wire]: "emits (io_return x) v [] x v"
  by (simp add: emits_def io_simps)

lemma emits_getVer [wire]: "emits getVer v [] v v"
  by (simp add: emits_def io_simps)

lemma emits_setVer [wire]: "emits (setVer w) v [] () w"
  by (simp add: emits_def io_simps)

lemma emits_bind [wire]:
  assumes "emits m v bs x w" "emits (f x) w cs y u"
  shows "emits (io_bind m f) v (bs @ cs) y u"
  unfolding emits_def
proof
  fix pre
  show "io_bind m f \<lparr>s_ver = v, s_data = pre, s_pos = length pre\<rparr>
      = Inr (y, \<lparr>s_ver = u, s_data = pre @ bs @ cs, s_pos = length pre + length (bs @ cs)\<rparr>)"
    using emitsD [OF assms(1), of pre] emitsD [OF assms(2), of "pre @ bs"]
    by (simp add: add.assoc io_simps)
qed

lemma emits_then [wire]:
  "emits m v bs x w \<Longrightarrow> emits k w cs y u \<Longrightarrow> emits (io_then m k) v (bs @ cs) y u"
  unfolding io_then_def by (rule emits_bind)

lemma emits_if [wire]:
  "(c \<Longrightarrow> emits m v b x w) \<Longrightarrow> (\<not> c \<Longrightarrow> emits m' v b' x w) \<Longrightarrow>
   emits (if c then m else m') v (if c then b else b') x w"
  by simp

lemma emits_st_write [wire]: "emits (st_write bs) v bs () v"
  by (simp add: emits_def st_write_def)

lemma parses_return [wire]: "parses (io_return x) v [] x v"
  by (simp add: parses_def io_simps)

lemma parses_getVer [wire]: "parses getVer v [] v v"
  by (simp add: parses_def io_simps)

lemma parses_setVer [wire]: "parses (setVer w) v [] () w"
  by (simp add: parses_def io_simps)

lemma parses_bind [wire]:
  assumes "parses m v bs x w" "parses (f x) w cs y u"
  shows "parses (io_bind m f) v (bs @ cs) y u"
  unfolding parses_def
proof (intro allI impI)
  fix pre post :: bytes
  assume "length pre + length (bs @ cs) + length post < 2 ^ 32"
  then show "io_bind m f \<lparr>s_ver = v, s_data = pre @ (bs @ cs) @ post, s_pos = length pre\<rparr>
      = Inr (y, \<lparr>s_ver = u, s_data = pre @ (bs @ cs) @ post,
                 s_pos = length pre + length (bs @ cs)\<rparr>)"
    using parsesD [OF assms(1), of pre "cs @ post"] parsesD [OF assms(2), of "pre @ bs" post]
    by (simp add: add.assoc io_simps)
qed

lemma parses_then [wire]:
  "parses m v bs x w \<Longrightarrow> parses k w cs y u \<Longrightarrow> parses (io_then m k) v (bs @ cs) y u"
  unfolding io_then_def by (rule parses_bind)

lemma parses_if [wire]:
  "(c \<Longrightarrow> parses m v b x w) \<Longrightarrow> (\<not> c \<Longrightarrow> parses m' v b' x' w) \<Longrightarrow>
   parses (if c then m else m') v (if c then b else b') (if c then x else x') w"
  by simp

lemma parses_st_read [wire]: "n = length bs \<Longrightarrow> parses (st_read n) v bs bs v"
  by (simp add: parses_def st_read_def)

text \<open>Asking the version and lifting a result write and read nothing.\<close>

lemma emits_ver: "emits (f v) v bs x w \<Longrightarrow> emits (io_bind getVer f) v bs x w"
  using emits_bind [OF emits_getVer, of f v bs x w] by simp

lemma parses_ver: "parses (f v) v bs x w \<Longrightarrow> parses (io_bind getVer f) v bs x w"
  using parses_bind [OF parses_getVer, of f v bs x w] by simp

lemma emits_lift: "r = Inr x \<Longrightarrow> emits (f x) v bs y w \<Longrightarrow> emits (io_bind (io_lift r) f) v bs y w"
  by (simp add: emits_def io_lift_def io_simps)

lemma parses_lift: "r = Inr x \<Longrightarrow> parses (f x) v bs y w \<Longrightarrow> parses (io_bind (io_lift r) f) v bs y w"
  by (simp add: parses_def io_lift_def io_simps)

text \<open>A part of the format that is there on a condition.\<close>

lemma emits_when:
  "(c \<Longrightarrow> emits m v bs () v) \<Longrightarrow> emits (io_when c m) v (if c then bs else []) () v"
  by (simp add: io_when_def emits_return)

lemma parses_then_nil: "parses m v [] x w \<Longrightarrow> parses k w cs y u \<Longrightarrow> parses (io_then m k) v cs y u"
  using parses_then [of m v "[]" x w k cs y u] by simp

lemma parses_when:
  "(c \<Longrightarrow> parses m v [] () w) \<Longrightarrow> (\<not> c \<Longrightarrow> w = v) \<Longrightarrow> parses (io_when c m) v [] () w"
  by (auto simp: io_when_def parses_return)

lemma parses_opt:
  "(c \<Longrightarrow> parses m v bs x v) \<Longrightarrow> (\<not> c \<Longrightarrow> d = x) \<Longrightarrow>
   parses (io_opt c m d) v (if c then bs else []) x v"
  by (simp add: io_opt_def parses_return)

text \<open>A reader whose last step only builds the object from what was read.\<close>

lemma parses_bind_return:
  "parses m v bs x w \<Longrightarrow> parses (io_bind m (\<lambda>x. io_return (f x))) v bs (f x) w"
proof -
  assume m: "parses m v bs x w"
  have "parses (io_bind m (\<lambda>x. io_return (f x))) v (bs @ []) (f x) w"
    by (rule parses_bind [OF m parses_return])
  then show ?thesis by simp
qed

lemma parses_cong:
  "parses m v bs x w \<Longrightarrow> bs = bs' \<Longrightarrow> x = x' \<Longrightarrow> parses m v bs' x' w"
  by simp

lemma parses_eq: "parses m v bs x w \<Longrightarrow> x = x' \<Longrightarrow> parses m v bs x' w"
  by simp

lemma emits_cong:
  "emits m v bs x w \<Longrightarrow> bs = bs' \<Longrightarrow> x = x' \<Longrightarrow> emits m v bs' x' w"
  by simp

lemma emits_prims [wire]:
  "emits (writeByte b) v [b] () v"
  "emits (writeShort h) v (le16 h) () v"
  "emits (writeInt i) v (le32 i) () v"
  "emits (writeIntSwap i) v (rev (le32 i)) () v"
  "emits (writeFloat i) v (le32 i) () v"
  "emits (writeDouble d) v (le64 d) () v"
  "emits (writeBool t) v [if t then 1 else 0] () v"
  "emits (writeShorts hs) v (concat (map le16 hs)) () v"
  "emits (writeInts is) v (concat (map le32 is)) () v"
  by (simp_all add: writeByte_def writeShort_def writeInt_def writeIntSwap_def writeFloat_def
      writeDouble_def writeBool_def writeShorts_def writeInts_def emits_st_write)

lemma shorts_of_le16 [simp]: "shorts_of (concat (map le16 hs)) = hs"
proof (induction hs)
  case (Cons h hs)
  have "un_le16 [ucast h, ucast (drop_bit 8 h)] = h"
    using un_le16_le16 [of h] by (simp only: le16_def)
  with Cons show ?case by (simp add: le16_def)
qed simp

lemma ints_of_le32 [simp]: "ints_of (concat (map le32 is)) = is"
proof (induction "is")
  case (Cons i "is")
  have "un_le32 [ucast i, ucast (drop_bit 8 i), ucast (drop_bit 16 i), ucast (drop_bit 24 i)] = i"
    using un_le32_le32 [of i] by (simp only: le32_def)
  with Cons show ?case by (simp add: le32_def)
qed simp

lemma length_concat_le [simp]:
  "length (concat (map le16 hs)) = 2 * length hs"
  "length (concat (map le32 is)) = 4 * length is"
  by (induction hs, simp_all) (induction "is", simp_all)

lemma parses_read_map:
  "f bs = x \<Longrightarrow> n = length bs \<Longrightarrow> parses (io_bind (st_read n) (\<lambda>b. io_return (f b))) v bs x v"
  using parses_bind_return [OF parses_st_read [of n bs v], of f] by simp

lemma parses_prims [wire]:
  "parses readByte v [b] b v"
  "parses readShort v (le16 h) h v"
  "parses readInt v (le32 i) i v"
  "parses readIntSwap v (rev (le32 i)) i v"
  "parses readFloat v (le32 i) i v"
  "parses readDouble v (le64 d) d v"
  "n = length hs \<Longrightarrow> parses (readShorts n) v (concat (map le16 hs)) hs v"
  "k = length is \<Longrightarrow> parses (readInts k) v (concat (map le32 is)) is v"
  by (auto simp: readByte_def readShort_def readInt_def readIntSwap_def readFloat_def
      readDouble_def readShorts_def readInts_def intro!: parses_read_map)

lemma parses_readBool [wire]: "parses readBool v [if t then 1 else 0] t v"
  unfolding readBool_def
  using parses_bind_return [OF parses_prims(1) [where b = "if t then 1 else 0" and v = v],
      where f = "\<lambda>b. b \<noteq> 0"]
  by (cases t) simp_all

lemma emits_each [wire]:
  "(\<And>x. x \<in> set xs \<Longrightarrow> emits (f x) v (e x) () v) \<Longrightarrow>
   emits (io_each f xs) v (concat (map e xs)) () v"
proof (induction xs)
  case Nil
  then show ?case by (simp add: emits_return)
next
  case (Cons x xs)
  have "emits (io_then (f x) (io_each f xs)) v (e x @ concat (map e xs)) () v"
    by (rule emits_then [OF Cons.prems Cons.IH]) (simp_all add: Cons.prems)
  then show ?case by simp
qed

lemma parses_repeat:
  "n = length xs \<Longrightarrow> (\<And>x. x \<in> set xs \<Longrightarrow> parses m v (e x) (g x) v) \<Longrightarrow>
   parses (io_repeat n m) v (concat (map e xs)) (map g xs) v"
proof (induction xs arbitrary: n)
  case Nil
  then show ?case by (simp add: parses_return)
next
  case (Cons x xs)
  have "parses (io_bind m (\<lambda>x. io_bind (io_repeat (length xs) m) (\<lambda>xs. io_return (x # xs)))) v
         (e x @ concat (map e xs)) (g x # map g xs) v"
    by (rule parses_bind [OF Cons.prems(2) parses_bind_return])
      (simp_all add: Cons.prems(2) Cons.IH)
  with Cons.prems(1) show ?case by simp
qed

lemma parses_repeat_id [wire]:
  "n = length xs \<Longrightarrow> (\<And>x. x \<in> set xs \<Longrightarrow> parses m v (e x) x v) \<Longrightarrow>
   parses (io_repeat n m) v (concat (map e xs)) xs v"
  using parses_repeat [of n xs m v e "\<lambda>x. x"] by simp

section \<open>The codec contract\<close>

text \<open>
  A serialised class has a writer \<open>wr\<close>, a reader \<open>rd\<close> that updates an object (\<open>this\<close>), a
  condition \<open>ok\<close> under which an object can be written for a version, its wire image \<open>enc\<close>, and
  what reading that image into an object makes of it (\<open>upd\<close>, which is the written object but for
  the fields the format does not carry).
\<close>

locale codec =
  fixes wr :: "'a \<Rightarrow> 'b io"
    and rd :: "'a \<Rightarrow> 'a io"
    and ok :: "plasma_ver \<Rightarrow> 'a \<Rightarrow> bool"
    and enc :: "plasma_ver \<Rightarrow> 'a \<Rightarrow> bytes"
    and upd :: "plasma_ver \<Rightarrow> 'a \<Rightarrow> 'a \<Rightarrow> 'a"
  assumes wr_emits: "ok v x \<Longrightarrow> \<exists>r. emits (wr x) v (enc v x) r v"
    and rd_parses: "ok v x \<Longrightarrow> parses (rd old) v (enc v x) (upd v old x) v"
begin

text \<open>Write to an empty stream, rewind, read: the object comes back and nothing is left over.\<close>

lemma roundtrip:
  assumes "ok v x" and "length (enc v x) < 2 ^ 32"
  shows "\<exists>r s. wr x \<lparr>s_ver = v, s_data = [], s_pos = 0\<rparr> = Inr (r, s) \<and>
           rd old (s\<lparr>s_pos := 0\<rparr>) = Inr (upd v old x, s) \<and> s_eof s"
proof -
  obtain r where "emits (wr x) v (enc v x) r v"
    using wr_emits [OF assms(1)] by blast
  from emitsD [OF this, of "[]"] parsesD [OF rd_parses [OF assms(1)], of "[]" "[]" old] assms(2)
  show ?thesis by (simp add: s_eof_def)
qed

text \<open>A counted sequence of objects, written one after the other and read by a counted loop.\<close>

lemma seq_emits:
  "list_all (ok v) xs \<Longrightarrow>
   emits (io_each (\<lambda>x. io_then (wr x) (io_return ())) xs) v (concat (map (enc v) xs)) () v"
proof (rule emits_each)
  fix x
  assume "list_all (ok v) xs" "x \<in> set xs"
  then have "ok v x" by (auto simp: list_all_iff)
  then obtain r where "emits (wr x) v (enc v x) r v"
    using wr_emits by blast
  from emits_then [OF this emits_return]
  show "emits (io_then (wr x) (io_return ())) v (enc v x) () v" by simp
qed

lemma seq_parses:
  "list_all (ok v) xs \<Longrightarrow> n = length xs \<Longrightarrow>
   parses (io_repeat n (rd old)) v (concat (map (enc v) xs)) (map (upd v old) xs) v"
  by (rule parses_repeat) (auto simp: list_all_iff rd_parses)

end

end
