(* ===== verification/HsStrings.thy ===== *)
theory HsStrings
  imports HsStream
begin

text \<open>
  The string operations of \<open>hsStream\<close>: counted strings, the obfuscated ``safe'' strings and
  wide strings, and text lines (\<open>src/core/Stream/hsStream.cpp\<close>).

  An \<open>ST::string\<close> of the string\_theory package is its UTF-8 bytes.  That package is not part of
  the repository, so what the code uses of it is the parameter \<open>st_lib\<close>: the checked
  construction from a byte buffer (\<open>None\<close> where it throws \<open>ST::unicode_error\<close>), the conversion
  from Latin-1, and the two UTF-16 conversions.
\<close>

record st_lib =
  from_buffer :: "bytes \<Rightarrow> bytes option"
  from_latin_1 :: "bytes \<Rightarrow> bytes"
  to_utf16 :: "bytes \<Rightarrow> u16 list"
  from_utf16 :: "u16 list \<Rightarrow> bytes option"

text \<open>A valid string is one the checked construction accepts unchanged.\<close>

definition st_valid :: "st_lib \<Rightarrow> bytes \<Rightarrow> bool" where
  "st_valid L s \<longleftrightarrow> from_buffer L s = Some s"

text \<open>Documented behaviour: a valid string survives the way to UTF-16 and back.\<close>

definition st_utf16_ok :: "st_lib \<Rightarrow> bytes \<Rightarrow> bool" where
  "st_utf16_ok L s \<longleftrightarrow> from_utf16 L (to_utf16 L s) = Some s"

text \<open>The \<open>try\<close>/\<open>catch\<close> that falls back to Latin-1 (with a warning on stderr).\<close>

definition decode_or_latin1 :: "st_lib \<Rightarrow> bytes \<Rightarrow> bytes" where
  "decode_or_latin1 L b = (case from_buffer L b of Some s \<Rightarrow> s | None \<Rightarrow> from_latin_1 L b)"

lemma decode_valid [simp]: "st_valid L s \<Longrightarrow> decode_or_latin1 L s = s"
  by (simp add: st_valid_def decode_or_latin1_def)

section \<open>Counted strings\<close>

definition readStr :: "st_lib \<Rightarrow> nat \<Rightarrow> bytes io" where
  "readStr L len = io_bind (st_read len) (\<lambda>b. io_return (decode_or_latin1 L b))"

definition writeStr :: "bytes \<Rightarrow> unit io" where
  "writeStr str = st_write str"

section \<open>Safe strings\<close>

text \<open>The key ``mystnerd'', and the masking of byte \<open>i\<close> with \<open>key[i % 8]\<close>.\<close>

definition eoaStrKey :: bytes where
  "eoaStrKey = [0x6D, 0x79, 0x73, 0x74, 0x6E, 0x65, 0x72, 0x64]"

definition key_at :: "nat \<Rightarrow> u8" where
  "key_at i = eoaStrKey ! (i mod 8)"

definition xor_key :: "bytes \<Rightarrow> bytes" where
  "xor_key bs = map (\<lambda>i. (bs ! i) XOR key_at i) [0..<length bs]"

definition xor_key16 :: "u16 list \<Rightarrow> u16 list" where
  "xor_key16 hs = map (\<lambda>i. (hs ! i) XOR ucast (key_at i)) [0..<length hs]"

definition readSafeStr :: "st_lib \<Rightarrow> bytes io" where
  "readSafeStr L =
     io_bind readShort (\<lambda>ssInfo. io_bind getVer (\<lambda>ver.
     if ssInfo = 0 then
       if ver < MAKE_VERSION 2 0 63 5
       then io_bind readShort (\<lambda>x.
              if x \<noteq> 0 then io_then (st_skip (-2)) (io_return []) else io_return [])
       else io_return []
     else if isUniversal ver then
       io_bind (st_read (unat ssInfo)) (\<lambda>b. io_return (decode_or_latin1 L b))
     else if isNewPlasma ver then
       io_bind (st_read (unat ssInfo)) (\<lambda>b. io_return (decode_or_latin1 L (xor_key b)))
     else
       io_then (if ssInfo AND 0xF000 = 0 then io_then readShort (io_return ()) else io_return ())
         (io_bind (st_read (unat (ssInfo AND 0x0FFF))) (\<lambda>b.
            io_return (decode_or_latin1 L
              (if b \<noteq> [] \<and> hd b AND 0x80 \<noteq> 0 then map NOT b else b))))))"

definition writeSafeStr :: "bytes \<Rightarrow> unit io" where
  "writeSafeStr str =
     io_bind getVer (\<lambda>ver0.
     io_then (if \<not> isSafeVer ver0 then setVer (GetSafestVersion ver0) else io_return ())
     (io_bind getVer (\<lambda>ver.
      let ssInfo = (word_of_nat (length str) :: u16) in
      if isUniversal ver then
        io_then (writeShort ssInfo) (st_write (take (unat ssInfo) str))
      else if isNewPlasma ver then
        io_then (writeShort ssInfo) (st_write (xor_key (take (unat ssInfo) str)))
      else
        let ssInfo = ssInfo AND 0x0FFF in
        io_then (writeShort (ssInfo OR 0xF000)) (st_write (map NOT (take (unat ssInfo) str))))))"

section \<open>Safe wide strings\<close>

definition from_utf16_io :: "st_lib \<Rightarrow> u16 list \<Rightarrow> bytes io" where
  "from_utf16_io L hs =
     (case from_utf16 L hs of Some s \<Rightarrow> io_return s | None \<Rightarrow> io_throw StUnicodeError)"

definition readSafeWStr :: "st_lib \<Rightarrow> bytes io" where
  "readSafeWStr L =
     io_bind readShort (\<lambda>ssInfo. io_bind getVer (\<lambda>ver.
     if isUniversal ver then
       io_bind (io_repeat (unat ssInfo) readShort) (\<lambda>hs. io_then readShort (from_utf16_io L hs))
     else if isNewPlasma ver then
       io_bind (io_repeat (unat ssInfo) readShort) (\<lambda>hs.
         io_then readShort (from_utf16_io L (xor_key16 hs)))
     else
       io_bind (io_repeat (unat (ssInfo AND 0x0FFF)) readShort) (\<lambda>hs.
         io_then readShort (from_utf16_io L (map NOT hs)))))"

definition writeSafeWStr :: "st_lib \<Rightarrow> bytes \<Rightarrow> unit io" where
  "writeSafeWStr L str =
     (let buf = to_utf16 L str; ssInfo = (word_of_nat (length buf) :: u16) in
      io_bind getVer (\<lambda>ver.
      if isUniversal ver then
        io_then (writeShort ssInfo)
          (io_then (io_each writeShort (take (unat ssInfo) buf)) (writeShort 0))
      else if isNewPlasma ver then
        io_then (writeShort ssInfo)
          (io_then (io_each writeShort (xor_key16 (take (unat ssInfo) buf))) (writeShort 0))
      else
        let ssInfo = ssInfo AND 0x0FFF in
        io_then (writeShort (ssInfo OR 0xF000))
          (io_then (io_each writeShort (map NOT (take (unat ssInfo) buf))) (writeShort 0))))"

section \<open>Lines\<close>

text \<open>
  \<open>readLine\<close>'s loop: \<open>c\<close> is the character in hand, \<open>acc\<close> the line so far.  Each turn reads a byte
  that is there, because it first checks \<open>eof\<close>.
\<close>

lemma readByte_advances:
  "readByte s = Inr (c, s') \<Longrightarrow>
   s_data s' = s_data s \<and> s_ver s' = s_ver s \<and> s_pos s' = s_pos s + 1 \<and> s_pos s < length (s_data s)"
  by (auto simp: readByte_def io_simps st_read_def split: sum.splits if_splits)

function readLine_loop :: "u8 \<Rightarrow> bytes \<Rightarrow> (u8 \<times> bytes) io" where
  "readLine_loop c acc s =
     (if c \<noteq> 10 \<and> c \<noteq> 13 \<and> \<not> s_eof s
      then (case readByte s of
              Inl e \<Rightarrow> Inl e
            | Inr (c', s') \<Rightarrow> readLine_loop c' (acc @ [c]) s')
      else Inr ((c, acc), s))"
  by pat_completeness auto
termination
  by (relation "measure (\<lambda>(c, acc, s). length (s_data s) - s_pos s)")
    (auto dest!: readByte_advances)

definition readLine :: "st_lib \<Rightarrow> bytes io" where
  "readLine L =
     io_bind readByte (\<lambda>c0.
     io_bind (readLine_loop c0 []) (\<lambda>(c, acc).
     let line = (if c \<noteq> 10 \<and> c \<noteq> 13 then acc @ [c] else acc) in
     io_then
       (\<lambda>s. (if c = 13 \<and> \<not> s_eof s
              then io_bind readByte (\<lambda>nextChar.
                     if nextChar \<noteq> 10 then st_skip (-1) else io_return ()) s
              else Inr ((), s)))
       (case from_buffer L line of
          Some str \<Rightarrow> io_return str
        | None \<Rightarrow> io_throw StUnicodeError)))"

definition writeLine :: "bytes \<Rightarrow> bool \<Rightarrow> unit io" where
  "writeLine ln winEOL =
     io_then (writeStr ln)
       (io_then (if winEOL then writeByte 13 else io_return ()) (writeByte 10))"

section \<open>Wire images of strings\<close>

lemma length_xor_key [simp]: "length (xor_key bs) = length bs" "length (xor_key16 hs) = length hs"
  by (simp_all add: xor_key_def xor_key16_def)

lemma xor_key_xor_key [simp]: "xor_key (xor_key bs) = bs" "xor_key16 (xor_key16 hs) = hs"
  by (auto intro!: nth_equalityI simp: xor_key_def xor_key16_def xor.assoc)

lemma xor_key_Nil [simp]: "xor_key [] = []" "xor_key16 [] = []"
  by (simp_all add: xor_key_def xor_key16_def)

lemma map_NOT_NOT [simp]: "map (NOT \<circ> NOT) bs = (bs :: 'a::len word list)"
  by (simp add: comp_def)

lemma map_NOT_twice: "map NOT (map NOT bs) = (bs :: 'a::len word list)"
  by simp

lemma safe_not_universal: "isSafeVer v \<Longrightarrow> \<not> isUniversal v"
  by (auto simp: ver_eval)

lemma safe_new_plasma:
  "isSafeVer v \<Longrightarrow> isNewPlasma v \<longleftrightarrow> v = pvEoa \<or> v = pvHex"
  by (auto simp: ver_eval)

lemma safe_recent: "isSafeVer v \<Longrightarrow> \<not> v < MAKE_VERSION 2 0 63 5"
  by (auto simp: ver_eval)

text \<open>The length field of the Uru format: twelve bits of length under a tag nibble.\<close>

lemma unat_mask12: "n < 4096 \<Longrightarrow> unat ((word_of_nat n :: u16) AND 0xFFF) = n"
proof -
  assume n: "n < 4096"
  have "(word_of_nat n :: u16) AND 0xFFF = take_bit 12 (word_of_nat n)"
    by (simp add: take_bit_eq_mask mask_eq_exp_minus_1)
  with n show ?thesis by (simp add: unsigned_take_bit_eq take_bit_nat_def unat_of_nat)
qed

lemma tag12:
  fixes w :: u16
  shows "(w AND 0xFFF OR 0xF000) AND 0xFFF = w AND 0xFFF"
    and "(w AND 0xFFF OR 0xF000) AND 0xF000 = 0xF000"
    and "w AND 0xFFF OR 0xF000 \<noteq> 0"
proof -
  show "(w AND 0xFFF OR 0xF000) AND 0xFFF = w AND 0xFFF"
    by (simp add: bit.conj_disj_distrib2 and.assoc)
  show *: "(w AND 0xFFF OR 0xF000) AND 0xF000 = 0xF000"
    by (simp add: bit.conj_disj_distrib2 and.assoc)
  show "w AND 0xFFF OR 0xF000 \<noteq> 0"
  proof
    assume z: "w AND 0xFFF OR 0xF000 = 0"
    from * show False unfolding z by simp
  qed
qed

lemma unat_len16: "n < 65536 \<Longrightarrow> unat (word_of_nat n :: u16) = n"
  by (simp add: unat_of_nat)

lemma len16_zero: "n < 65536 \<Longrightarrow> (word_of_nat n :: u16) = 0 \<longleftrightarrow> n = 0"
  using unat_len16 [of n] by (auto simp: unat_eq_0)

definition safe_str_image :: "plasma_ver \<Rightarrow> bytes \<Rightarrow> bytes" where
  "safe_str_image v s =
     (if isNewPlasma v then le16 (word_of_nat (length s)) @ xor_key s
      else le16 (word_of_nat (length s) AND 0xFFF OR 0xF000) @ map NOT s)"

text \<open>
  What survives: for Myst V and Hex Isle any valid string of up to 65535 bytes; for the Uru
  versions up to 4095 bytes, not starting with a byte above \<open>0x7F\<close>, because the reader takes a
  set top bit of the first stored byte as the sign that the string is complemented.
\<close>

definition safe_str_ok :: "st_lib \<Rightarrow> plasma_ver \<Rightarrow> bytes \<Rightarrow> bool" where
  "safe_str_ok L v s \<longleftrightarrow> isSafeVer v \<and> st_valid L s \<and>
     (if isNewPlasma v then length s < 65536
      else length s < 4096 \<and> (s \<noteq> [] \<longrightarrow> hd s AND 0x80 = 0))"

lemma emits_writeSafeStr [wire]:
  assumes "isSafeVer v" "length s < (if isNewPlasma v then 65536 else 4096)"
  shows "emits (writeSafeStr s) v (safe_str_image v s) () v"
proof (cases "isNewPlasma v")
  case True
  have "emits (io_then (writeShort (word_of_nat (length s))) (st_write (xor_key s))) v
          (le16 (word_of_nat (length s)) @ xor_key s) () v"
    by (rule wire)+
  with True assms show ?thesis
    by (simp add: emits_def writeSafeStr_def io_simps safe_str_image_def safe_not_universal
        unat_len16)
next
  case False
  have "emits (io_then (writeShort (word_of_nat (length s) AND 0xFFF OR 0xF000))
            (st_write (map NOT s))) v
          (le16 (word_of_nat (length s) AND 0xFFF OR 0xF000) @ map NOT s) () v"
    by (rule wire)+
  with False assms show ?thesis
    by (simp add: emits_def writeSafeStr_def io_simps safe_str_image_def safe_not_universal
        unat_mask12 Let_def)
qed

lemma parses_readSafeStr [wire]:
  assumes ok: "safe_str_ok L v s"
  shows "parses (readSafeStr L) v (safe_str_image v s) s v"
proof (cases "isNewPlasma v")
  case True
  have *: "\<not> isUniversal v" "\<not> v < MAKE_VERSION 2 0 63 5" "length s < 65536" "st_valid L s"
    using ok True by (auto simp: safe_str_ok_def safe_not_universal safe_recent)
  show ?thesis
  proof (cases "s = []")
    case True
    have "parses (readSafeStr L) v (le16 0 @ [] @ []) [] v"
      unfolding readSafeStr_def
      by (rule parses_bind [OF parses_prims(2) parses_bind [OF parses_getVer]])
        (simp add: * parses_return)
    with True \<open>isNewPlasma v\<close> show ?thesis by (simp add: safe_str_image_def)
  next
    case False
    have "parses (readSafeStr L) v (le16 (word_of_nat (length s)) @ [] @ xor_key s) s v"
      unfolding readSafeStr_def
      by (rule parses_bind [OF parses_prims(2) parses_bind [OF parses_getVer]])
        (use * True False in \<open>auto simp: len16_zero unat_len16 intro!: parses_read_map\<close>)
    with True show ?thesis by (simp add: safe_str_image_def)
  qed
next
  case False
  have *: "\<not> isUniversal v" "length s < 4096" "st_valid L s" "s \<noteq> [] \<longrightarrow> hd s AND 0x80 = 0"
    using ok False by (auto simp: safe_str_ok_def safe_not_universal)
  let ?h = "word_of_nat (length s) AND 0xFFF OR 0xF000 :: u16"
  have top: "s \<noteq> [] \<Longrightarrow> hd (map NOT s) AND 0x80 \<noteq> 0"
    using * by (simp add: hd_map top_bit_NOT)
  have "parses (readSafeStr L) v (le16 ?h @ [] @ map NOT s) s v"
    unfolding readSafeStr_def
    by (rule parses_bind [OF parses_prims(2) parses_bind [OF parses_getVer]])
      (cases "s = []"; use * False top in \<open>auto simp: tag12 unat_mask12 intro!: parses_read_map\<close>)
  then show ?thesis
    using False by (simp add: safe_str_image_def)
qed

text \<open>
  The other side of the Uru condition: a string that starts with a byte above \<open>0x7F\<close> (any
  non-ASCII first character) is written complemented, read back as it stands, and so comes back
  as its own complement.
\<close>

lemma parses_readSafeStr_top_bit:
  assumes "isSafeVer v" "\<not> isNewPlasma v" "s \<noteq> []" "hd s AND 0x80 \<noteq> 0" "length s < 4096"
  shows "parses (readSafeStr L) v (safe_str_image v s) (decode_or_latin1 L (map NOT s)) v"
proof -
  let ?h = "word_of_nat (length s) AND 0xFFF OR 0xF000 :: u16"
  have top: "hd (map NOT s) AND 0x80 = 0"
    using assms by (simp add: hd_map top_bit_NOT)
  have "parses (readSafeStr L) v (le16 ?h @ [] @ map NOT s) (decode_or_latin1 L (map NOT s)) v"
    unfolding readSafeStr_def
    by (rule parses_bind [OF parses_prims(2) parses_bind [OF parses_getVer]])
      (use assms top in \<open>auto simp: tag12 unat_mask12 safe_not_universal intro!: parses_read_map\<close>)
  then show ?thesis
    using assms by (simp add: safe_str_image_def)
qed

section \<open>Wide strings and lines on the wire\<close>

definition safe_wstr_image :: "st_lib \<Rightarrow> plasma_ver \<Rightarrow> bytes \<Rightarrow> bytes" where
  "safe_wstr_image L v s =
     (let hs = to_utf16 L s; n = word_of_nat (length hs) in
      if isUniversal v then le16 n @ concat (map le16 hs) @ le16 0
      else if isNewPlasma v then le16 n @ concat (map le16 (xor_key16 hs)) @ le16 0
      else le16 (n AND 0xFFF OR 0xF000) @ concat (map le16 (map NOT hs)) @ le16 0)"

definition safe_wstr_ok :: "st_lib \<Rightarrow> plasma_ver \<Rightarrow> bytes \<Rightarrow> bool" where
  "safe_wstr_ok L v s \<longleftrightarrow> st_utf16_ok L s \<and>
     length (to_utf16 L s) < (if isUniversal v \<or> isNewPlasma v then 65536 else 4096)"

lemma emits_shorts: "emits (io_each writeShort hs) v (concat (map le16 hs)) () v"
  by (rule emits_each) (rule wire)

lemma parses_shorts: "n = length hs \<Longrightarrow> parses (io_repeat n readShort) v (concat (map le16 hs)) hs v"
  by (rule parses_repeat_id) (simp, rule wire)

lemma emits_writeSafeWStr [wire]:
  assumes "safe_wstr_ok L v s"
  shows "emits (writeSafeWStr L s) v (safe_wstr_image L v s) () v"
proof -
  have wr: "emits (io_then (writeShort n) (io_then (io_each writeShort hs) (writeShort 0))) v
          (le16 n @ concat (map le16 hs) @ le16 0) () v" for n hs
    by (rule emits_then [OF emits_prims(2) emits_then [OF emits_shorts emits_prims(2)]])
  have "emits (writeSafeWStr L s) v ([] @ safe_wstr_image L v s) () v"
    unfolding writeSafeWStr_def Let_def
    by (rule emits_bind [OF emits_getVer])
      (use assms wr in \<open>auto simp: safe_wstr_ok_def safe_wstr_image_def Let_def unat_len16
          unat_mask12 simp del: map_map\<close>)
  then show ?thesis by simp
qed

lemma parses_readSafeWStr [wire]:
  assumes "safe_wstr_ok L v s"
  shows "parses (readSafeWStr L) v (safe_wstr_image L v s) s v"
proof -
  have rd: "parses (io_bind (io_repeat k readShort) (\<lambda>hs. io_then readShort (from_utf16_io L (f hs)))) v
        (concat (map le16 hs) @ le16 0) s v"
    if "k = length hs" "f hs = to_utf16 L s" for k hs f
  proof -
    have "parses (io_then readShort (from_utf16_io L (f hs))) v (le16 0 @ []) s v"
      by (rule parses_then [OF parses_prims(2)])
        (use assms that in \<open>simp add: from_utf16_io_def safe_wstr_ok_def st_utf16_ok_def
            parses_return\<close>)
    then have "parses (io_then readShort (from_utf16_io L (f hs))) v (le16 0) s v" by simp
    then show ?thesis by (rule parses_bind [OF parses_shorts [OF that(1)]])
  qed
  let ?n = "word_of_nat (length (to_utf16 L s)) :: u16"
  let ?h = "if isUniversal v \<or> isNewPlasma v then ?n else ?n AND 0xFFF OR 0xF000"
  let ?body = "if isUniversal v then to_utf16 L s
     else if isNewPlasma v then xor_key16 (to_utf16 L s) else map NOT (to_utf16 L s)"
  have "parses (readSafeWStr L) v (le16 ?h @ [] @ concat (map le16 ?body) @ le16 0) s v"
    unfolding readSafeWStr_def
    by (rule parses_bind [OF parses_prims(2) parses_bind [OF parses_getVer]])
      (use assms in \<open>auto simp: safe_wstr_ok_def unat_len16 unat_mask12 tag12 map_NOT_twice
          simp del: map_map intro!: rd\<close>)
  then show ?thesis
    by (simp add: safe_wstr_image_def Let_def split: if_splits)
qed

text \<open>
  The line loop: with the first character in hand, it runs to the first end-of-line byte, which
  it consumes, and returns what stood before it.
\<close>

lemma readByte_at:
  "p < length d \<Longrightarrow>
   readByte \<lparr>s_ver = v, s_data = d, s_pos = p\<rparr> = Inr (d ! p, \<lparr>s_ver = v, s_data = d, s_pos = p + 1\<rparr>)"
  by (simp add: readByte_def io_simps st_read_def hd_drop_conv_nth)

declare readLine_loop.simps [simp del]

lemma readLine_loop_run:
  assumes "10 \<notin> set ln" "13 \<notin> set ln" "e = 10 \<or> e = 13"
  shows "readLine_loop (hd (ln @ [e])) acc
           \<lparr>s_ver = v, s_data = pre @ ln @ e # post, s_pos = length pre + 1\<rparr>
         = Inr ((e, acc @ ln),
             \<lparr>s_ver = v, s_data = pre @ ln @ e # post, s_pos = length pre + length ln + 1\<rparr>)"
  using assms(1,2)
proof (induction ln arbitrary: pre acc)
  case Nil
  then show ?case
    using assms(3) by (auto simp: readLine_loop.simps)
next
  case (Cons a ln)
  have nxt: "(pre @ a # ln @ e # post) ! Suc (length pre) = hd (ln @ [e])"
    by (cases ln) (auto simp: nth_append)
  show ?case
    using Cons.prems Cons.IH [of "acc @ [a]" "pre @ [a]"]
    by (subst readLine_loop.simps) (simp add: s_eof_def readByte_at nxt)
qed

definition line_ok :: "st_lib \<Rightarrow> bytes \<Rightarrow> bool" where
  "line_ok L ln \<longleftrightarrow> 10 \<notin> set ln \<and> 13 \<notin> set ln \<and> st_valid L ln"

definition line_image :: "bytes \<Rightarrow> bool \<Rightarrow> bytes" where
  "line_image ln winEOL = ln @ (if winEOL then [13, 10] else [10])"

lemma emits_writeLine [wire]: "emits (writeLine ln winEOL) v (line_image ln winEOL) () v"
proof -
  have "emits (writeLine ln winEOL) v (ln @ (if winEOL then [13] else []) @ [10]) () v"
    unfolding writeLine_def writeStr_def
    by (rule emits_then [OF emits_st_write emits_then [OF emits_if]]) (rule wire)+
  then show ?thesis by (simp add: line_image_def split: if_splits)
qed

lemma parses_readLine [wire]:
  assumes "line_ok L ln"
  shows "parses (readLine L) v (line_image ln winEOL) ln v"
  unfolding parses_def
proof (intro allI impI)
  fix pre post :: bytes
  define e where "e = (if winEOL then 13 else 10 :: u8)"
  define rest where "rest = (if winEOL then [10] else []) @ post"
  define d where "d = pre @ line_image ln winEOL @ post"
  let ?p = "length pre" and ?n = "length ln"
  assume "?p + length (line_image ln winEOL) + length post < 2 ^ 32"
  have d: "d = pre @ ln @ e # rest"
    by (simp add: d_def line_image_def e_def rest_def)
  have c0: "d ! ?p = hd (ln @ [e])"
    unfolding d by (cases ln) (simp_all add: nth_append)
  have len: "?p < length d" "winEOL \<Longrightarrow> ?p + ?n + 1 < length d" by (simp_all add: d rest_def)
  have loop: "readLine_loop (hd (ln @ [e])) [] \<lparr>s_ver = v, s_data = d, s_pos = ?p + 1\<rparr>
    = Inr ((e, ln), \<lparr>s_ver = v, s_data = d, s_pos = ?p + ?n + 1\<rparr>)"
    using readLine_loop_run [of ln e "[]" v pre rest] assms by (simp add: d line_ok_def e_def)
  have nl: "winEOL \<Longrightarrow> d ! (?p + ?n + 1) = 10"
    unfolding d by (simp add: nth_append rest_def)
  have "readLine L \<lparr>s_ver = v, s_data = d, s_pos = ?p\<rparr>
     = Inr (ln, \<lparr>s_ver = v, s_data = d, s_pos = ?p + length (line_image ln winEOL)\<rparr>)"
  proof (cases winEOL)
    case True
    then show ?thesis
      using assms nl len loop c0
      by (simp add: readLine_def io_simps readByte_at line_ok_def st_valid_def s_eof_def e_def
          line_image_def)
  next
    case False
    then show ?thesis
      using assms len loop c0
      by (simp add: readLine_def io_simps readByte_at line_ok_def st_valid_def s_eof_def e_def
          line_image_def)
  qed
  then show "readLine L \<lparr>s_ver = v, s_data = pre @ line_image ln winEOL @ post, s_pos = ?p\<rparr>
     = Inr (ln, \<lparr>s_ver = v, s_data = pre @ line_image ln winEOL @ post,
                 s_pos = ?p + length (line_image ln winEOL)\<rparr>)"
    by (simp add: d_def)
qed

section \<open>Properties\<close>

text \<open>A string library that only knows ASCII, for the witnesses.\<close>

definition ascii_lib :: st_lib where
  "ascii_lib = \<lparr>from_buffer = (\<lambda>b. if list_all (\<lambda>c. c < 0x80) b then Some b else None),
     from_latin_1 = (\<lambda>b. b), to_utf16 = map ucast, from_utf16 = (\<lambda>h. Some (map ucast h))\<rparr>"

interpretation safe_str: codec writeSafeStr "\<lambda>_. readSafeStr L" "safe_str_ok L" safe_str_image "\<lambda>v old s. s" for L
  by unfold_locales (auto intro!: emits_writeSafeStr parses_readSafeStr exI simp: safe_str_ok_def)

interpretation line: codec "\<lambda>ln. writeLine ln win" "\<lambda>_. readLine L" "\<lambda>v. line_ok L"
  "\<lambda>v ln. line_image ln win" "\<lambda>v old ln. ln" for L win
  by unfold_locales (auto intro: emits_writeLine parses_readLine)

lemma length_safe_str_image:
  "safe_str_ok L v s \<Longrightarrow> length (safe_str_image v s) < 2 ^ 32"
  by (auto simp: safe_str_ok_def safe_str_image_def split: if_splits)

text \<open>C22: A safe string written to a stream of one of the five versions reads back as itself: up to
  65535 bytes for Myst V and Hex Isle, and for the Uru versions up to 4095 bytes of which the first
  is ASCII.\<close>

theorem safe_str_roundtrip:
  assumes "safe_str_ok L v s"
  shows "\<exists>S. writeSafeStr s \<lparr>s_ver = v, s_data = [], s_pos = 0\<rparr> = Inr ((), S) \<and>
     readSafeStr L (S\<lparr>s_pos := 0\<rparr>) = Inr (s, S) \<and> s_eof S"
  using safe_str.roundtrip [OF assms length_safe_str_image [OF assms]] by simp

theorem safe_str_roundtrip_witness:
  "\<exists>S. writeSafeStr [0x41, 0x42] \<lparr>s_ver = pvMoul, s_data = [], s_pos = 0\<rparr> = Inr ((), S) \<and>
     readSafeStr ascii_lib (S\<lparr>s_pos := 0\<rparr>) = Inr ([0x41, 0x42], S) \<and> s_eof S"
  by (rule safe_str_roundtrip) (simp add: safe_str_ok_def ascii_lib_def st_valid_def ver_eval)

text \<open>C31: In the Uru versions a string whose first byte is above \<open>0x7F\<close> does not come back: the
  reader takes the written complement for the plain text.\<close>

theorem safe_str_high_first_byte:
  assumes "isSafeVer v" "\<not> isNewPlasma v" "s \<noteq> []" "hd s AND 0x80 \<noteq> 0" "length s < 4096"
  shows "\<exists>S. writeSafeStr s \<lparr>s_ver = v, s_data = [], s_pos = 0\<rparr> = Inr ((), S) \<and>
     readSafeStr L (S\<lparr>s_pos := 0\<rparr>) = Inr (decode_or_latin1 L (map NOT s), S)"
proof -
  have len: "length (safe_str_image v s) < 2 ^ 32" using assms by (simp add: safe_str_image_def)
  have "emits (writeSafeStr s) v (safe_str_image v s) () v"
    by (rule emits_writeSafeStr) (use assms in simp_all)
  from emitsD [OF this, of "[]"] parsesD [OF parses_readSafeStr_top_bit [OF assms], of "[]" "[]" L] len
  show ?thesis by simp
qed

theorem safe_str_high_first_byte_witness:
  "\<exists>S. writeSafeStr [0xC3, 0xA9] \<lparr>s_ver = pvPots, s_data = [], s_pos = 0\<rparr> = Inr ((), S) \<and>
     readSafeStr ascii_lib (S\<lparr>s_pos := 0\<rparr>) = Inr ([0x3C, 0x56], S)"
proof -
  have "decode_or_latin1 ascii_lib (map NOT [0xC3, 0xA9]) = [0x3C, 0x56]" by code_simp
  moreover have "isSafeVer pvPots" "\<not> isNewPlasma pvPots" by (simp_all add: ver_eval)
  ultimately show ?thesis using safe_str_high_first_byte [of pvPots "[0xC3, 0xA9]" ascii_lib] by simp
qed

text \<open>A wide safe string reads back as itself when its UTF-16 form has a length the format can
  hold, in every version including universal files.\<close>

theorem safe_wstr_roundtrip:
  assumes "safe_wstr_ok L v s"
  shows "\<exists>S. writeSafeWStr L s \<lparr>s_ver = v, s_data = [], s_pos = 0\<rparr> = Inr ((), S) \<and>
     readSafeWStr L (S\<lparr>s_pos := 0\<rparr>) = Inr (s, S)"
proof -
  have e: "emits (writeSafeWStr L s) v (safe_wstr_image L v s) () v"
    by (rule emits_writeSafeWStr) (use assms in \<open>simp add: safe_wstr_ok_def split: if_splits\<close>)
  have "length (concat (map (le16 \<circ> NOT) hs)) = 2 * length hs" for hs
    using length_concat_le(1) [of "map NOT hs"] by simp
  then have len: "length (safe_wstr_image L v s) < 2 ^ 32"
    using assms by (auto simp: safe_wstr_ok_def safe_wstr_image_def Let_def split: if_splits)
  from emitsD [OF e, of "[]"] parsesD [OF parses_readSafeWStr [OF assms], of "[]" "[]"] len
  show ?thesis by simp
qed

theorem safe_wstr_roundtrip_witness:
  "\<exists>S. writeSafeWStr ascii_lib [0x41] \<lparr>s_ver = pvHex, s_data = [], s_pos = 0\<rparr> = Inr ((), S) \<and>
     readSafeWStr ascii_lib (S\<lparr>s_pos := 0\<rparr>) = Inr ([0x41], S)"
  by (rule safe_wstr_roundtrip) (simp add: safe_wstr_ok_def ascii_lib_def st_utf16_ok_def ver_eval)

text \<open>Text lines without line breaks in them, written with either line ending, are read back in
  order as the lines they were.\<close>

theorem lines_roundtrip:
  assumes "list_all (line_ok L) lns" "length (concat (map (\<lambda>ln. line_image ln win) lns)) < 2 ^ 32"
  shows "\<exists>S. io_each (\<lambda>ln. writeLine ln win) lns \<lparr>s_ver = v, s_data = [], s_pos = 0\<rparr> = Inr ((), S) \<and>
     io_repeat (length lns) (readLine L) (S\<lparr>s_pos := 0\<rparr>) = Inr (lns, S) \<and> s_eof S"
proof -
  have "emits (io_each (\<lambda>ln. writeLine ln win) lns) v (concat (map (\<lambda>ln. line_image ln win) lns)) () v"
    by (rule emits_each) (rule emits_writeLine)
  moreover have "parses (io_repeat (length lns) (readLine L)) v (concat (map (\<lambda>ln. line_image ln win) lns)) lns v"
    using assms(1) by (intro parses_repeat_id) (auto simp: list_all_iff intro: parses_readLine)
  ultimately show ?thesis
    using emitsD [of _ v _ _ _ "[]"] parsesD [of _ v _ _ _ "[]" "[]"] assms(2)
    by (fastforce simp: s_eof_def)
qed

theorem lines_roundtrip_witness:
  "\<exists>S. io_each (\<lambda>ln. writeLine ln True) [[0x41], []] \<lparr>s_ver = pvMoul, s_data = [], s_pos = 0\<rparr> = Inr ((), S) \<and>
     io_repeat (length [[0x41 :: u8], []]) (readLine ascii_lib) (S\<lparr>s_pos := 0\<rparr>) = Inr ([[0x41], []], S) \<and> s_eof S"
proof -
  have "line_ok ascii_lib [0x41]" "line_ok ascii_lib []"
    by (simp_all add: line_ok_def st_valid_def ascii_lib_def)
  then have "list_all (line_ok ascii_lib) [[0x41], []]" by simp
  then show ?thesis by (rule lines_roundtrip) (simp add: line_image_def)
qed

end
