(* ===== verification/RAMStream.thy ===== *)
theory RAMStream
  imports HsStream
begin

text \<open>
  The in-memory stream \<open>hsRAMStream\<close> (\<open>src/core/Stream/hsRAMStream.cpp\<close>): a heap block of
  \<open>fMax\<close> bytes, of which the first \<open>fSize\<close> are the stream, and a position.  The three counters
  are \<open>uint32_t\<close>; they are natural numbers here, reduced modulo \<open>2 ^ 32\<close> where the code
  assigns to them.  The main result is that, under its invariant, every operation simulates the
  stream contract of \<open>HsStream\<close>, growth of the block included.
\<close>

section \<open>Implementations of the stream contract\<close>

text \<open>
  \<open>wr\<close> returns an option: \<open>None\<close> is a call that does not return.  \<open>room s n\<close> says that \<open>n\<close>
  bytes may be written.
\<close>

locale stream_impl =
  fixes abs :: "'s \<Rightarrow> hs_stream"
    and inv :: "'s \<Rightarrow> bool"
    and room :: "'s \<Rightarrow> nat \<Rightarrow> bool"
    and rd :: "nat \<Rightarrow> 's \<Rightarrow> (bytes \<times> 's) result"
    and wr :: "bytes \<Rightarrow> 's \<Rightarrow> ((unit \<times> 's) result) option"
    and sk :: "nat \<Rightarrow> 's \<Rightarrow> 's"
  assumes rd_fail: "inv s \<Longrightarrow> st_read n (abs s) = Inl e \<Longrightarrow> rd n s = Inl e"
    and rd_ok: "inv s \<Longrightarrow> st_read n (abs s) = Inr (b, t) \<Longrightarrow>
      \<exists>s'. rd n s = Inr (b, s') \<and> inv s' \<and> abs s' = t"
    and wr_ok: "inv s \<Longrightarrow> room s (length bs) \<Longrightarrow> st_write bs (abs s) = Inr ((), t) \<Longrightarrow>
      \<exists>s'. wr bs s = Some (Inr ((), s')) \<and> inv s' \<and> abs s' = t"
    and sk_ok: "inv s \<Longrightarrow> p < 2 ^ 32 \<Longrightarrow> inv (sk p s) \<and> abs (sk p s) = (abs s)\<lparr>s_pos := p\<rparr>"
begin

text \<open>Writing, seeking back to where the write began, and reading gives the bytes back.\<close>

lemma write_seek_read:
  assumes "inv s" "room s (length bs)" "s_pos (abs s) < 2 ^ 32"
  shows "\<exists>s' s''. wr bs s = Some (Inr ((), s')) \<and>
           rd (length bs) (sk (s_pos (abs s)) s') = Inr (bs, s'') \<and>
           inv s'' \<and> s_pos (abs s'') = s_pos (abs s) + length bs"
proof -
  let ?p = "s_pos (abs s)" and ?d = "s_data (abs s)"
  let ?t = "(abs s)\<lparr>s_data := overwrite ?d ?p bs, s_pos := ?p + length bs\<rparr>"
  have "st_write bs (abs s) = Inr ((), ?t)" by (simp add: st_write_def)
  from wr_ok [OF assms(1,2) this] obtain s' where
    s': "wr bs s = Some (Inr ((), s'))" "inv s'" "abs s' = ?t" by blast
  let ?u = "(?t\<lparr>s_pos := ?p\<rparr>)"
  have sk: "inv (sk ?p s')" "abs (sk ?p s') = ?u"
    using sk_ok [OF s'(2) assms(3)] s'(3) by simp_all
  have "st_read (length bs) ?u = Inr (bs, ?u\<lparr>s_pos := ?p + length bs\<rparr>)"
    by (simp add: st_read_def overwrite_def)
  with sk rd_ok [OF sk(1), of "length bs" bs] obtain s'' where
    "rd (length bs) (sk ?p s') = Inr (bs, s'')" "inv s''" "s_pos (abs s'') = ?p + length bs"
    by fastforce
  with s' show ?thesis by blast
qed

end

section \<open>State and operations\<close>

record ram_stream =
  r_ver :: plasma_ver
  fData :: bytes
  fSize :: nat
  fMax :: nat
  fPos :: nat

definition ram_new :: "plasma_ver \<Rightarrow> ram_stream" where
  "ram_new pv = \<lparr>r_ver = pv, fData = [], fSize = 0, fMax = 0, fPos = 0\<rparr>"

definition ram_stealFrom :: "bytes \<Rightarrow> nat \<Rightarrow> ram_stream \<Rightarrow> ram_stream" where
  "ram_stealFrom dat sz r =
     r\<lparr>fSize := sz mod 2 ^ 32, fMax := sz mod 2 ^ 32, fPos := 0, fData := dat\<rparr>"

definition ram_copyFrom :: "bytes \<Rightarrow> nat \<Rightarrow> ram_stream \<Rightarrow> ram_stream" where
  "ram_copyFrom dat sz r =
     (if sz = 0 then ram_stealFrom [] 0 r else ram_stealFrom (take sz dat) sz r)"

definition ram_copyTo :: "nat \<Rightarrow> ram_stream \<Rightarrow> bytes" where
  "ram_copyTo sz r = (let cpysize = (if sz < fSize r then sz else fSize r) in
                        take cpysize (fData r))"

definition ram_eof :: "ram_stream \<Rightarrow> bool" where "ram_eof r \<longleftrightarrow> fPos r \<ge> fSize r"
definition ram_seek :: "nat \<Rightarrow> ram_stream \<Rightarrow> ram_stream" where "ram_seek p r = r\<lparr>fPos := p\<rparr>"
definition ram_skip :: "int \<Rightarrow> ram_stream \<Rightarrow> ram_stream" where
  "ram_skip c r = r\<lparr>fPos := nat ((int (fPos r) + c) mod 2 ^ 32)\<rparr>"
definition ram_fastForward :: "ram_stream \<Rightarrow> ram_stream" where
  "ram_fastForward r = r\<lparr>fPos := fSize r\<rparr>"
definition ram_rewind :: "ram_stream \<Rightarrow> ram_stream" where "ram_rewind r = r\<lparr>fPos := 0\<rparr>"

definition ram_read :: "nat \<Rightarrow> ram_stream \<Rightarrow> (bytes \<times> ram_stream) result" where
  "ram_read sz r =
     (if sz + fPos r > fSize r then Inl FileReadException
      else Inr (take sz (drop (fPos r) (fData r)), r\<lparr>fPos := (fPos r + sz) mod 2 ^ 32\<rparr>))"

definition blockalign :: "nat \<Rightarrow> nat" where
  "blockalign sz = (sz div BLOCKSIZE) * BLOCKSIZE + (if sz mod BLOCKSIZE \<noteq> 0 then BLOCKSIZE else 0)"

definition ram_resize :: "nat \<Rightarrow> ram_stream \<Rightarrow> ram_stream" where
  "ram_resize newsize r =
     (let cpysize = (if newsize < fSize r then newsize else fSize r);
          newData = take cpysize (fData r) @ replicate (newsize - cpysize) 0
      in r\<lparr>fMax := newsize, fData := newData,
           fSize := (if fSize r > newsize then newsize else fSize r)\<rparr>)"

text \<open>
  The doubling loop of \<open>write\<close>, on \<open>size_t\<close>; a block size of zero never grows, so the loop is
  partial.  \<open>fMax * 2\<close> is computed in \<open>uint32_t\<close>, and \<open>resize\<close> takes a \<open>uint32_t\<close>.
\<close>

partial_function (option) ram_grow :: "nat \<Rightarrow> nat \<Rightarrow> nat option" where
  "ram_grow newSize need =
     (if newSize < need then ram_grow ((newSize * 2) mod 2 ^ 64) need else Some newSize)"

definition ram_reserve :: "nat \<Rightarrow> ram_stream \<Rightarrow> ram_stream option" where
  "ram_reserve need r =
     (if need > fMax r
      then map_option (\<lambda>n. ram_resize (n mod 2 ^ 32) r)
             (ram_grow (if fMax r = 0 then BLOCKSIZE else blockalign ((fMax r * 2) mod 2 ^ 32)) need)
      else Some r)"

definition ram_put :: "bytes \<Rightarrow> ram_stream \<Rightarrow> ram_stream" where
  "ram_put bs r =
     (let pos = (fPos r + length bs) mod 2 ^ 32
      in r\<lparr>fData := take (fPos r) (fData r) @ bs @ drop (fPos r + length bs) (fData r),
           fPos := pos, fSize := (if pos > fSize r then pos else fSize r)\<rparr>)"

definition ram_write :: "bytes \<Rightarrow> ram_stream \<Rightarrow> ((unit \<times> ram_stream) result) option" where
  "ram_write bs r =
     map_option (\<lambda>r'. Inr ((), ram_put bs r')) (ram_reserve (length bs + fPos r) r)"

section \<open>Invariant and abstraction\<close>

definition ram_abs :: "ram_stream \<Rightarrow> hs_stream" where
  "ram_abs r = \<lparr>s_ver = r_ver r, s_data = take (fSize r) (fData r), s_pos = fPos r\<rparr>"

text \<open>The block has \<open>fMax\<close> bytes, the stream fits in it, and the spare bytes are zero.\<close>

definition ram_inv :: "ram_stream \<Rightarrow> bool" where
  "ram_inv r \<longleftrightarrow> length (fData r) = fMax r \<and> fSize r \<le> fMax r \<and> fMax r < 2 ^ 32 \<and>
     fPos r < 2 ^ 32 \<and> drop (fSize r) (fData r) = replicate (fMax r - fSize r) 0"

text \<open>One gibibyte: below it the growth arithmetic cannot wrap.\<close>

definition ram_room :: "ram_stream \<Rightarrow> nat \<Rightarrow> bool" where
  "ram_room r n \<longleftrightarrow> fPos r + n \<le> 2 ^ 30"

lemma ram_inv_new: "ram_inv (ram_new pv)"
  by (simp add: ram_inv_def ram_new_def)

lemma ram_inv_copyFrom: "length dat = n \<Longrightarrow> n < 2 ^ 32 \<Longrightarrow> ram_inv (ram_copyFrom dat n r)"
  by (simp add: ram_inv_def ram_copyFrom_def ram_stealFrom_def)

lemma ram_grow_terminates:
  assumes "0 < n" "need \<le> 2 ^ 30" "n \<le> 2 ^ 31"
  shows "\<exists>m. ram_grow n need = Some m \<and> need \<le> m \<and> m \<le> 2 ^ 31"
  using assms
proof (induction "need - n" arbitrary: n rule: less_induct)
  case less
  show ?case
  proof (cases "n < need")
    case True
    with less.prems have n2: "(n * 2) mod 2 ^ 64 = n * 2" by simp
    have "\<exists>m. ram_grow (n * 2) need = Some m \<and> need \<le> m \<and> m \<le> 2 ^ 31"
      using True less.prems by (intro less.hyps) auto
    with True n2 show ?thesis by (subst ram_grow.simps) simp
  next
    case False
    with less.prems show ?thesis by (subst ram_grow.simps) simp
  qed
qed

lemma blockalign_bounds: "0 < n \<Longrightarrow> n \<le> 2 ^ 31 \<Longrightarrow> 0 < blockalign n \<and> blockalign n \<le> 2 ^ 31"
proof -
  assume n: "0 < n" "n \<le> 2 ^ 31"
  have "n = n div 4096 * 4096 + n mod 4096" by simp
  moreover have "n div 4096 \<le> 2 ^ 31 div 4096" using n(2) by (rule div_le_mono)
  ultimately show ?thesis
    using n by (cases "n mod 4096 = 0"; cases "n div 4096 = 2 ^ 31 div 4096")
      (auto simp: blockalign_def BLOCKSIZE_def)
qed

lemma ram_resize_inv:
  assumes "ram_inv r" "fMax r \<le> n" "n < 2 ^ 32"
  shows "ram_inv (ram_resize n r) \<and> ram_abs (ram_resize n r) = ram_abs r \<and>
    fMax (ram_resize n r) = n \<and> fPos (ram_resize n r) = fPos r"
  using assms by (auto simp: ram_inv_def ram_resize_def ram_abs_def Let_def)

lemma ram_reserve_ok:
  assumes "ram_inv r" "need \<le> 2 ^ 30"
  shows "\<exists>r'. ram_reserve need r = Some r' \<and> ram_inv r' \<and> ram_abs r' = ram_abs r \<and>
           need \<le> fMax r' \<and> fPos r' = fPos r"
proof (cases "need > fMax r")
  case False
  with assms show ?thesis by (auto simp: ram_reserve_def)
next
  case True
  let ?n = "if fMax r = 0 then BLOCKSIZE else blockalign ((fMax r * 2) mod 2 ^ 32)"
  have "0 < ?n \<and> ?n \<le> 2 ^ 31"
    using True assms blockalign_bounds [of "fMax r * 2"] by (auto simp: BLOCKSIZE_def)
  then obtain m where m: "ram_grow ?n need = Some m" "need \<le> m" "m \<le> 2 ^ 31"
    using ram_grow_terminates assms by blast
  then have "m mod 2 ^ 32 = m" by simp
  with m True ram_resize_inv [OF assms(1), of m] show ?thesis
    by (auto simp: ram_reserve_def)
qed

lemma take_overwrite:
  assumes "s \<le> length d" "drop s d = replicate (length d - s) 0" "p + length bs \<le> length d"
  shows "overwrite (take s d) p bs
       = take (max s (p + length bs)) (take p d @ bs @ drop (p + length bs) d)"
proof (cases "p \<le> s")
  case True
  have stop: "length d \<le> p \<Longrightarrow> bs = []"
    using assms(3) by (cases bs) auto
  with True show ?thesis
    using assms stop by (auto simp: overwrite_def min_def max_def drop_take)
next
  case False
  have "take p d = take s d @ take (p - s) (drop s d)"
    using False by (simp add: take_add [symmetric])
  also have "take (p - s) (drop s d) = replicate (p - s) 0"
    using assms False by (simp add: min_def)
  finally show ?thesis
    using assms False by (simp add: overwrite_def min_def max_def) linarith
qed

lemma ram_put_ok:
  assumes "ram_inv r" "fPos r + length bs \<le> fMax r"
  shows "ram_inv (ram_put bs r) \<and> st_write bs (ram_abs r) = Inr ((), ram_abs (ram_put bs r))"
proof -
  have pos: "(fPos r + length bs) mod 2 ^ 32 = fPos r + length bs"
    using assms by (simp add: ram_inv_def)
  have stop: "fMax r \<le> fPos r \<Longrightarrow> bs = []"
    using assms(2) by (cases bs) auto
  have "drop (max (fSize r) (fPos r + length bs))
      (take (fPos r) (fData r) @ bs @ drop (fPos r + length bs) (fData r))
    = drop (max (fSize r) (fPos r + length bs)) (fData r)"
    using assms stop by (auto simp: ram_inv_def max_def min_def)
  also have "\<dots> = drop (max (fSize r) (fPos r + length bs) - fSize r) (drop (fSize r) (fData r))"
    by simp
  also have "\<dots> = replicate (fMax r - max (fSize r) (fPos r + length bs)) 0"
    using assms by (auto simp: ram_inv_def simp del: drop_drop)
  finally show ?thesis
    using assms pos
    by (auto simp: ram_inv_def ram_put_def st_write_def ram_abs_def Let_def max_def
        take_overwrite split: if_splits)
qed

interpretation ram: stream_impl ram_abs ram_inv ram_room ram_read ram_write ram_seek
proof unfold_locales
  fix s n e
  assume "ram_inv s" "st_read n (ram_abs s) = Inl e"
  then show "ram_read n s = Inl e"
    by (auto simp: ram_inv_def st_read_def ram_abs_def ram_read_def split: if_splits)
next
  fix s n b t
  assume "ram_inv s" "st_read n (ram_abs s) = Inr (b, t)"
  then show "\<exists>s'. ram_read n s = Inr (b, s') \<and> ram_inv s' \<and> ram_abs s' = t"
    by (auto simp: ram_inv_def st_read_def ram_abs_def ram_read_def drop_take split: if_splits)
next
  fix s bs t
  assume *: "ram_inv s" "ram_room s (length bs)" "st_write bs (ram_abs s) = Inr ((), t)"
  then obtain r where r: "ram_reserve (length bs + fPos s) s = Some r" "ram_inv r"
    "ram_abs r = ram_abs s" "length bs + fPos s \<le> fMax r" "fPos r = fPos s"
    using ram_reserve_ok [of s "length bs + fPos s"] by (auto simp: ram_room_def add.commute)
  with ram_put_ok [of r bs] * show
    "\<exists>s'. ram_write bs s = Some (Inr ((), s')) \<and> ram_inv s' \<and> ram_abs s' = t"
    by (auto simp: ram_write_def add.commute)
next
  fix s and p :: nat
  assume "ram_inv s" "p < 2 ^ 32"
  then show "ram_inv (ram_seek p s) \<and> ram_abs (ram_seek p s) = ram_abs s\<lparr>s_pos := p\<rparr>"
    by (simp add: ram_inv_def ram_seek_def ram_abs_def)
qed

section \<open>Growth that never ends\<close>

lemma ram_grow_zero: "0 < need \<Longrightarrow> ram_grow 0 need = None"
proof (rule ccontr)
  assume "0 < need" "ram_grow 0 need \<noteq> None"
  then obtain m where m: "ram_grow 0 need = Some m" by auto
  have "(0::nat) = 0 \<longrightarrow> need = 0"
    by (rule ram_grow.raw_induct [where P = "\<lambda>n need m. n = 0 \<longrightarrow> need = 0", OF _ m])
      (auto split: if_splits)
  with \<open>0 < need\<close> show False by simp
qed

lemma ram_write_diverges:
  assumes "fMax r = 2 ^ 31" "fMax r < length bs + fPos r"
  shows "ram_write bs r = None"
proof -
  have "blockalign ((2 ^ 31 * 2) mod 2 ^ 32) = 0" by (simp add: blockalign_def)
  moreover have "ram_grow 0 (length bs + fPos r) = None"
    using assms by (intro ram_grow_zero) linarith
  ultimately show ?thesis
    using assms by (simp add: ram_write_def ram_reserve_def)
qed

section \<open>Properties\<close>

text \<open>C20: What is written to a memory stream below one gigabyte, anywhere in it or beyond its end, is
  what is read back from there; growing the buffer always ends, and the state stays consistent.\<close>

theorem ram_read_your_writes:
  assumes "ram_inv r" "fPos r + length bs \<le> 2 ^ 30"
  shows "\<exists>r' r''. ram_write bs r = Some (Inr ((), r')) \<and>
     ram_read (length bs) (ram_seek (fPos r) r') = Inr (bs, r'') \<and>
     ram_inv r'' \<and> fPos r'' = fPos r + length bs"
proof -
  have "s_pos (ram_abs r) = fPos r" by (simp add: ram_abs_def)
  moreover have "ram_room r (length bs)" using assms by (simp add: ram_room_def)
  ultimately obtain r' r'' where r: "ram_write bs r = Some (Inr ((), r'))"
    "ram_read (length bs) (ram_seek (fPos r) r') = Inr (bs, r'')" "ram_inv r''"
    "s_pos (ram_abs r'') = fPos r + length bs"
    using ram.write_seek_read [OF assms(1)] assms(2) by fastforce
  then show ?thesis by (auto simp: ram_abs_def)
qed

theorem ram_read_your_writes_witness:
  "\<exists>r' r''. ram_write [1, 2, 3] ((ram_new pvMoul)\<lparr>fPos := 5\<rparr>) = Some (Inr ((), r')) \<and>
     ram_read 3 (ram_seek 5 r') = Inr ([1, 2, 3], r'') \<and> ram_inv r'' \<and> fPos r'' = 8"
proof -
  let ?r = "(ram_new pvMoul)\<lparr>fPos := 5\<rparr>"
  have "ram_inv ?r" by (simp add: ram_inv_def ram_new_def)
  moreover have "fPos ?r + length [1, 2, 3 :: u8] \<le> 2 ^ 30" by simp
  ultimately have "\<exists>r' r''. ram_write [1, 2, 3] ?r = Some (Inr ((), r')) \<and>
     ram_read (length [1, 2, 3 :: u8]) (ram_seek (fPos ?r) r') = Inr ([1, 2, 3], r'') \<and>
     ram_inv r'' \<and> fPos r'' = fPos ?r + length [1, 2, 3 :: u8]"
    by (rule ram_read_your_writes)
  then show ?thesis by (simp only: list.size ram_stream.simps) (simp add: eval_nat_numeral)
qed

text \<open>C30: The buffer size is doubled in 32 bits: with a two-gigabyte buffer, a write that needs more
  never returns.\<close>

theorem ram_write_never_returns:
  assumes "fMax r = 2 ^ 31" "length bs + fPos r > 2 ^ 31"
  shows "ram_write bs r = None"
  by (rule ram_write_diverges) (use assms in simp_all)

theorem ram_write_never_returns_witness:
  "ram_write [0] \<lparr>r_ver = pvMoul, fData = [], fSize = 0, fMax = 2 ^ 31, fPos = 2 ^ 31\<rparr> = None"
  by (rule ram_write_never_returns) simp_all

end
