(* ===== verification/SizedStream.thy ===== *)
theory SizedStream
  imports RAMStream
begin

text \<open>
  The window stream \<open>pfSizedStream\<close> (\<open>src/core/Stream/pfSizedStream.h\<close>, \<open>.cpp\<close>): the next
  \<open>fLength\<close> bytes of a base stream, with a position of its own.  The base is any stream that
  meets the contract of \<open>HsStream\<close>.  Under the invariant that the two positions agree, the
  window is itself an implementation of the contract.
\<close>

record sized_stream =
  z_base :: hs_stream
  z_length :: nat
  z_begin :: nat
  z_pos :: nat

text \<open>The constructor; \<open>S->size() - fBegin\<close> is computed in \<open>uint32_t\<close>.\<close>

definition sized_new :: "hs_stream \<Rightarrow> nat \<Rightarrow> sized_stream result" where
  "sized_new S len =
     (let begin = s_pos S in
      if nat ((int (s_size S) - int begin) mod 2 ^ 32) < len then Inl BadParamException
      else Inr \<lparr>z_base = S, z_length = len, z_begin = begin, z_pos = 0\<rparr>)"

definition sized_eof :: "sized_stream \<Rightarrow> bool" where
  "sized_eof z \<longleftrightarrow> z_pos z = z_length z \<or> s_eof (z_base z)"

definition sized_seek :: "nat \<Rightarrow> sized_stream \<Rightarrow> sized_stream" where
  "sized_seek p z =
     z\<lparr>z_base := (z_base z)\<lparr>s_pos := (z_begin z + p) mod 2 ^ 32\<rparr>, z_pos := p\<rparr>"

definition sized_skip :: "int \<Rightarrow> sized_stream \<Rightarrow> sized_stream result" where
  "sized_skip count z =
     (let p = nat ((int (z_pos z) + count) mod 2 ^ 32) in
      if p > z_length z then Inl FileReadException
      else rbind (st_skip count (z_base z)) (\<lambda>(_, b). Inr (z\<lparr>z_base := b, z_pos := p\<rparr>)))"

definition sized_fastForward :: "sized_stream \<Rightarrow> sized_stream" where
  "sized_fastForward z =
     z\<lparr>z_base := (z_base z)\<lparr>s_pos := (z_begin z + z_length z) mod 2 ^ 32\<rparr>\<rparr>"

definition sized_rewind :: "sized_stream \<Rightarrow> sized_stream" where
  "sized_rewind z = z\<lparr>z_base := (z_base z)\<lparr>s_pos := z_begin z\<rparr>\<rparr>"

definition sized_read :: "nat \<Rightarrow> sized_stream \<Rightarrow> (bytes \<times> sized_stream) result" where
  "sized_read n z =
     (if z_pos z + n > z_length z then Inl FileReadException
      else rbind (st_read n (z_base z)) (\<lambda>(b, base).
             Inr (b, z\<lparr>z_base := base, z_pos := (z_pos z + n) mod 2 ^ 32\<rparr>)))"

definition sized_write :: "bytes \<Rightarrow> sized_stream \<Rightarrow> (unit \<times> sized_stream) result" where
  "sized_write bs z =
     (if z_pos z + length bs > z_length z then Inl FileReadException
      else rbind (st_write bs (z_base z)) (\<lambda>(_, base).
             Inr ((), z\<lparr>z_base := base, z_pos := (z_pos z + length bs) mod 2 ^ 32\<rparr>)))"

section \<open>The window as a stream\<close>

definition sized_abs :: "sized_stream \<Rightarrow> hs_stream" where
  "sized_abs z = \<lparr>s_ver = s_ver (z_base z),
                  s_data = take (z_length z) (drop (z_begin z) (s_data (z_base z))),
                  s_pos = z_pos z\<rparr>"

definition sized_inv :: "sized_stream \<Rightarrow> bool" where
  "sized_inv z \<longleftrightarrow> z_begin z + z_length z \<le> length (s_data (z_base z)) \<and>
     length (s_data (z_base z)) < 2 ^ 32 \<and> z_pos z < 2 ^ 32 \<and>
     s_pos (z_base z) = (z_begin z + z_pos z) mod 2 ^ 32"

definition sized_room :: "sized_stream \<Rightarrow> nat \<Rightarrow> bool" where
  "sized_room z n \<longleftrightarrow> z_pos z + n \<le> z_length z"

lemma sized_new_inv:
  assumes "sized_new S len = Inr z" "length (s_data S) < 2 ^ 32" "s_pos S \<le> length (s_data S)"
  shows "sized_inv z \<and> sized_abs z = S\<lparr>s_data := take len (drop (s_pos S) (s_data S)), s_pos := 0\<rparr>"
proof -
  have "(int (s_size S) - int (s_pos S)) mod 2 ^ 32 = int (s_size S - s_pos S)"
    using assms(2,3) by (simp add: s_size_def of_nat_diff)
  with assms show ?thesis
    by (auto simp: sized_new_def sized_inv_def sized_abs_def Let_def s_size_def split: if_splits)
qed

lemma window_overwrite:
  assumes "b + l \<le> length d" "p + length bs \<le> l"
  shows "take l (drop b (overwrite d (b + p) bs)) = overwrite (take l (drop b d)) p bs"
  using assms by (auto simp: overwrite_def min_def drop_take add.commute add.left_commute
      dest: le_antisym)

lemma sized_write_ok:
  assumes "sized_inv z" "sized_room z (length bs)"
  shows "\<exists>z'. sized_write bs z = Inr ((), z') \<and> sized_inv z' \<and>
           st_write bs (sized_abs z) = Inr ((), sized_abs z')"
proof -
  have "s_pos (z_base z) = z_begin z + z_pos z"
    using assms by (simp add: sized_inv_def sized_room_def)
  moreover have "length (overwrite (s_data (z_base z)) (z_begin z + z_pos z) bs)
      = length (s_data (z_base z))"
    using assms by (simp add: overwrite_def sized_inv_def sized_room_def)
  ultimately show ?thesis
    using assms
    by (auto simp: sized_write_def st_write_def sized_inv_def sized_room_def sized_abs_def
        window_overwrite)
qed

interpretation sized: stream_impl sized_abs sized_inv sized_room sized_read
  "\<lambda>bs z. Some (sized_write bs z)" sized_seek
proof unfold_locales
  fix s n e
  assume "sized_inv s" "st_read n (sized_abs s) = Inl e"
  then show "sized_read n s = Inl e"
    by (auto simp: sized_inv_def st_read_def sized_abs_def sized_read_def split: if_splits)
next
  fix s n b t
  assume *: "sized_inv s" "st_read n (sized_abs s) = Inr (b, t)"
  then have "z_pos s + n \<le> z_length s"
    by (auto simp: sized_inv_def st_read_def sized_abs_def split: if_splits)
  with * show "\<exists>s'. sized_read n s = Inr (b, s') \<and> sized_inv s' \<and> sized_abs s' = t"
    by (auto simp: sized_inv_def st_read_def sized_abs_def sized_read_def drop_take add.commute
        split: if_splits)
next
  fix s bs t
  assume "sized_inv s" "sized_room s (length bs)" "st_write bs (sized_abs s) = Inr ((), t)"
  with sized_write_ok show
    "\<exists>s'. Some (sized_write bs s) = Some (Inr ((), s')) \<and> sized_inv s' \<and> sized_abs s' = t"
    by fastforce
next
  fix s and p :: nat
  assume "sized_inv s" "p < 2 ^ 32"
  then show "sized_inv (sized_seek p s) \<and> sized_abs (sized_seek p s) = sized_abs s\<lparr>s_pos := p\<rparr>"
    by (simp add: sized_inv_def sized_seek_def sized_abs_def)
qed

section \<open>Properties\<close>



text \<open>Reads and writes that would cross the end of the window fail.\<close>

theorem sized_bounds:
  assumes "z_pos z + length bs > z_length z"
  shows "sized_write bs z = Inl FileReadException \<and> sized_read (length bs) z = Inl FileReadException"
  using assms by (simp add: sized_write_def sized_read_def)

theorem sized_bounds_witness:
  "sized_read 3 \<lparr>z_base = \<lparr>s_ver = pvMoul, s_data = [1, 2, 3, 4], s_pos = 0\<rparr>, z_length = 2, z_begin = 0, z_pos = 0\<rparr>
     = Inl FileReadException"
proof -
  let ?z = "\<lparr>z_base = \<lparr>s_ver = pvMoul, s_data = [1, 2, 3, 4], s_pos = 0\<rparr>, z_length = 2, z_begin = 0, z_pos = 0\<rparr>"
  have "z_pos ?z + length [0, 0, 0 :: u8] > z_length ?z" by simp
  then have "sized_read (length [0, 0, 0 :: u8]) ?z = Inl FileReadException"
    using sized_bounds by blast
  then show ?thesis by (simp add: eval_nat_numeral)
qed

end
