(* ===== verification/Ciphers.thy ===== *)
theory Ciphers
  imports Prelude
begin

text \<open>
  The block ciphers of \<open>plEncryptedStream\<close> (\<open>src/core/Stream/plEncryptedStream.cpp\<close>) and the
  line cipher of \<open>hsElfStream\<close> (\<open>src/core/Stream/hsElfStream.cpp\<close>), on 32-bit and 8-bit words.
  A key is the four-word array \<open>fEKey\<close>.  The AES mode calls the vendored Rijndael code and is a
  parameter of \<open>EncryptedStream\<close>.
\<close>

section \<open>XTEA (Uru)\<close>

definition uruKey :: "u32 list" where
  "uruKey = [0x6c0a5452, 0x03827d0f, 0x3a170b92, 0x16db7fc2]"

definition tea_mix :: "u32 \<Rightarrow> u32" where
  "tea_mix x = (drop_bit 5 x XOR push_bit 4 x) + x"

definition tea_key :: "u32 list \<Rightarrow> u32 \<Rightarrow> u32" where
  "tea_key ks i = ks ! unat (i AND 3)"

text \<open>One turn of each loop, on the state \<open>(first, second, key)\<close>.\<close>

fun tea_enc_round :: "u32 list \<Rightarrow> u32 \<times> u32 \<times> u32 \<Rightarrow> u32 \<times> u32 \<times> u32" where
  "tea_enc_round ks (first, second, key) =
     (let first = first + (tea_mix second XOR (tea_key ks key + key));
          key = key - 0x61C88647;
          second = second + (tea_mix first XOR (tea_key ks (drop_bit 11 key) + key))
      in (first, second, key))"

fun tea_dec_round :: "u32 list \<Rightarrow> u32 \<times> u32 \<times> u32 \<Rightarrow> u32 \<times> u32 \<times> u32" where
  "tea_dec_round ks (first, second, key) =
     (let second = second - (tea_mix first XOR (tea_key ks (drop_bit 11 key) + key));
          key = key + 0x61C88647;
          first = first - (tea_mix second XOR (tea_key ks key + key))
      in (first, second, key))"

definition TeaEncipher :: "u32 list \<Rightarrow> u32 \<times> u32 \<Rightarrow> u32 \<times> u32" where
  "TeaEncipher ks buf =
     (let (first, second, key) = (tea_enc_round ks ^^ 32) (fst buf, snd buf, 0) in (first, second))"

definition TeaDecipher :: "u32 list \<Rightarrow> u32 \<times> u32 \<Rightarrow> u32 \<times> u32" where
  "TeaDecipher ks buf =
     (let (first, second, key) = (tea_dec_round ks ^^ 32) (fst buf, snd buf, 0xC6EF3720)
      in (first, second))"

section \<open>The Droid cipher (MOUL)\<close>

definition droid_f :: "u32 list \<Rightarrow> u32 \<Rightarrow> u32 \<Rightarrow> nat \<Rightarrow> u32 \<Rightarrow> u32" where
  "droid_f ks key xorkey numloop b =
     ((push_bit 4 b XOR drop_bit 3 b) + (drop_bit 5 b XOR push_bit 2 b)) XOR
     ((ks ! unat ((word_of_nat numloop AND 3) XOR xorkey) XOR b) + (key XOR b))"

text \<open>The inner loops: \<open>numloop\<close> counts up when enciphering and down when deciphering.\<close>

function droid_enc_inner :: "u32 list \<Rightarrow> u32 \<Rightarrow> u32 \<Rightarrow> nat \<Rightarrow> nat \<Rightarrow> u32 list \<Rightarrow> u32 list" where
  "droid_enc_inner ks key xorkey num numloop buf =
     (if numloop < num - 1
      then droid_enc_inner ks key xorkey num (Suc numloop)
             (buf[numloop := buf ! numloop + droid_f ks key xorkey numloop (buf ! Suc numloop)])
      else buf)"
  by pat_completeness auto
termination
  by (relation "measure (\<lambda>(ks, key, xorkey, num, numloop, buf). num - numloop)") auto

fun droid_dec_inner :: "u32 list \<Rightarrow> u32 \<Rightarrow> u32 \<Rightarrow> nat \<Rightarrow> u32 list \<Rightarrow> u32 list" where
  "droid_dec_inner ks key xorkey 0 buf = buf"
| "droid_dec_inner ks key xorkey (Suc n) buf =
     droid_dec_inner ks key xorkey n
       (buf[Suc n := buf ! Suc n - droid_f ks key xorkey (Suc n) (buf ! n)])"

definition droid_enc_pass :: "u32 list \<Rightarrow> u32 \<Rightarrow> nat \<Rightarrow> u32 list \<Rightarrow> u32 list" where
  "droid_enc_pass ks key num buf =
     (let xorkey = drop_bit 2 key AND 3;
          buf = droid_enc_inner ks key xorkey num 0 buf
      in buf[num - 1 := buf ! (num - 1) + droid_f ks key xorkey (num - 1) (buf ! 0)])"

definition droid_dec_pass :: "u32 list \<Rightarrow> u32 \<Rightarrow> nat \<Rightarrow> u32 list \<Rightarrow> u32 list" where
  "droid_dec_pass ks key num buf =
     (let xorkey = drop_bit 2 key AND 3;
          buf = droid_dec_inner ks key xorkey (num - 1) buf
      in buf[0 := buf ! 0 - droid_f ks key xorkey 0 (buf ! (num - 1))])"

fun droid_enc_loop :: "u32 list \<Rightarrow> nat \<Rightarrow> u32 \<Rightarrow> nat \<Rightarrow> u32 list \<Rightarrow> u32 list" where
  "droid_enc_loop ks 0 key num buf = buf"
| "droid_enc_loop ks (Suc count) key num buf =
     (let key = key - 0x61C88647 in droid_enc_loop ks count key num (droid_enc_pass ks key num buf))"

text \<open>
  The deciphering loop runs while \<open>key != 0\<close>, subtracting \<open>0x9E3779B9\<close> each turn (by adding
  \<open>0x61C88647\<close>).  That constant is odd, so it has an inverse modulo \<open>2 ^ 32\<close>, and the number of
  turns left is \<open>key\<close> times the inverse.
\<close>

definition droid_turns :: "u32 \<Rightarrow> nat" where
  "droid_turns key = unat (key * 0x144CBC89)"

lemma droid_turns_step: "key \<noteq> 0 \<Longrightarrow> droid_turns key = Suc (droid_turns (key + 0x61C88647))"
proof -
  assume key: "key \<noteq> 0"
  have "key * 0x144CBC89 \<noteq> 0"
  proof
    assume z: "key * 0x144CBC89 = 0"
    have "(0x144CBC89 * 0x9E3779B9 :: u32) = 1" by simp
    then have "key = key * 0x144CBC89 * 0x9E3779B9" by (simp only: mult.assoc mult_1_right)
    with z key show False by simp
  qed
  moreover have "(0x61C88647 * 0x144CBC89 :: u32) = - 1" by simp
  then have "(key + 0x61C88647) * 0x144CBC89 = key * 0x144CBC89 - 1"
    by (simp only: distrib_right) simp
  ultimately have "droid_turns (key + 0x61C88647) = unat (key * 0x144CBC89) - 1"
    and "0 < unat (key * 0x144CBC89)"
    unfolding droid_turns_def by (simp_all only: unat_minus_one unat_gt_0 not_False_eq_True)
  then show ?thesis by (simp only: droid_turns_def Suc_pred')
qed

function droid_dec_loop :: "u32 list \<Rightarrow> u32 \<Rightarrow> nat \<Rightarrow> u32 list \<Rightarrow> u32 list" where
  "droid_dec_loop ks key num buf =
     (if key \<noteq> 0
      then droid_dec_loop ks (key + 0x61C88647) num (droid_dec_pass ks key num buf)
      else buf)"
  by pat_completeness auto
termination
  by (relation "measure (\<lambda>(ks, key, num, buf). droid_turns key)") (auto simp: droid_turns_step)

declare droid_dec_loop.simps [simp del] droid_enc_inner.simps [simp del]

text \<open>\<open>52 / num\<close> traps at \<open>num = 0\<close>: there the result is \<open>None\<close>.\<close>

definition DroidEncipher :: "u32 list \<Rightarrow> u32 list \<Rightarrow> nat \<Rightarrow> u32 list option" where
  "DroidEncipher ks buf num =
     (if num = 0 then None else Some (droid_enc_loop ks (52 div num + 6) 0 num buf))"

definition DroidDecipher :: "u32 list \<Rightarrow> u32 list \<Rightarrow> nat \<Rightarrow> u32 list option" where
  "DroidDecipher ks buf num =
     (if num = 0 then None
      else Some (droid_dec_loop ks (word_of_nat (52 div num + 6) * 0x9E3779B9) num buf))"

section \<open>The ELF line cipher\<close>

fun elf_enc_loop :: "u8 \<Rightarrow> u8 \<Rightarrow> bytes \<Rightarrow> bytes" where
  "elf_enc_loop hint key [] = []"
| "elf_enc_loop hint key (v # vs) =
     (let a = push_bit 6 v OR drop_bit 2 v
      in ((drop_bit 3 a OR key) XOR hint) # elf_enc_loop hint (push_bit 5 a) vs)"

text \<open>Deciphering runs from the last byte to the first: the loop is on the reversed list.\<close>

fun elf_dec_loop :: "u8 \<Rightarrow> u8 \<Rightarrow> bytes \<Rightarrow> bytes" where
  "elf_dec_loop hint key [] = []"
| "elf_dec_loop hint key (v # vs) =
     (let a = v XOR hint;
          key = push_bit 3 a OR key
      in (drop_bit 6 key OR push_bit 2 key) # elf_dec_loop hint (drop_bit 5 a) vs)"

definition elf_encipher :: "bytes \<Rightarrow> u8 \<Rightarrow> bytes" where
  "elf_encipher vs hint =
     (if vs = [] then [] else elf_enc_loop hint (push_bit 3 (last vs AND 0xFC)) vs)"

definition elf_decipher :: "bytes \<Rightarrow> u8 \<Rightarrow> bytes" where
  "elf_decipher vs hint =
     (if vs = [] then [] else rev (elf_dec_loop hint (drop_bit 5 (hd vs XOR hint)) (rev vs)))"

section \<open>Deciphering undoes enciphering\<close>

lemma tea_round_inverse: "tea_dec_round ks (tea_enc_round ks s) = s"
  by (cases s) (simp add: Let_def)

lemma tea_round_inverse': "tea_enc_round ks (tea_dec_round ks s) = s"
  by (cases s) (simp add: Let_def)

lemma funpow_inverse:
  fixes f g :: "'a \<Rightarrow> 'a"
  assumes "\<And>s. g (f s) = s"
  shows "(g ^^ n) ((f ^^ n) s) = s"
proof (induction n arbitrary: s)
  case (Suc n)
  show ?case
    using Suc [of "f s"] assms by (simp add: funpow_swap1)
qed simp

lemma tea_enc_key: "snd (snd ((tea_enc_round ks ^^ n) s)) = snd (snd s) - of_nat n * 0x61C88647"
proof (induction n)
  case (Suc n)
  have "snd (snd (tea_enc_round ks t)) = snd (snd t) - 0x61C88647" for t
    by (cases t) (simp add: Let_def)
  then have "snd (snd ((tea_enc_round ks ^^ Suc n) s))
      = snd (snd s) - of_nat n * 0x61C88647 - 0x61C88647"
    by (simp only: funpow.simps o_apply Suc)
  then show ?case by (simp only: of_nat_Suc distrib_right mult_1_left diff_diff_add add.commute)
qed simp

lemma tea_dec_key: "snd (snd ((tea_dec_round ks ^^ n) s)) = snd (snd s) + of_nat n * 0x61C88647"
proof (induction n)
  case (Suc n)
  have "snd (snd (tea_dec_round ks t)) = snd (snd t) + 0x61C88647" for t
    by (cases t) (simp add: Let_def)
  then have "snd (snd ((tea_dec_round ks ^^ Suc n) s))
      = snd (snd s) + of_nat n * 0x61C88647 + 0x61C88647"
    by (simp only: funpow.simps o_apply Suc)
  then show ?case by (simp only: of_nat_Suc distrib_right mult_1_left add.assoc add.commute add.left_commute)
qed simp

lemma tea_decipher_encipher: "TeaDecipher ks (TeaEncipher ks buf) = buf"
proof -
  let ?s = "(fst buf, snd buf, 0 :: u32)"
  obtain f s k where e: "(tea_enc_round ks ^^ 32) ?s = (f, s, k)" by (metis prod_cases3)
  have "k = 0xC6EF3720" using tea_enc_key [of 32 ks ?s] e by simp
  then have "(tea_dec_round ks ^^ 32) (f, s, 0xC6EF3720) = ?s"
    using funpow_inverse [of "tea_dec_round ks" "tea_enc_round ks" 32 ?s] e tea_round_inverse
    by simp
  with e show ?thesis by (simp add: TeaEncipher_def TeaDecipher_def)
qed

lemma tea_encipher_decipher: "TeaEncipher ks (TeaDecipher ks buf) = buf"
proof -
  let ?s = "(fst buf, snd buf, 0xC6EF3720 :: u32)"
  obtain f s k where e: "(tea_dec_round ks ^^ 32) ?s = (f, s, k)" by (metis prod_cases3)
  have "k = 0" using tea_dec_key [of 32 ks ?s] e by simp
  then have "(tea_enc_round ks ^^ 32) (f, s, 0) = ?s"
    using funpow_inverse [of "tea_enc_round ks" "tea_dec_round ks" 32 ?s] e tea_round_inverse'
    by simp
  with e show ?thesis by (simp add: TeaEncipher_def TeaDecipher_def)
qed

text \<open>The two-word block, the only size the stream uses.\<close>

lemma droid_enc_pass_2:
  "droid_enc_pass ks key 2 [a, b] =
     (let x = drop_bit 2 key AND 3; a' = a + droid_f ks key x 0 b
      in [a', b + droid_f ks key x 1 a'])"
  by (simp add: droid_enc_pass_def Let_def droid_enc_inner.simps numeral_2_eq_2)

lemma droid_dec_pass_2:
  "droid_dec_pass ks key 2 [a, b] =
     (let x = drop_bit 2 key AND 3; b' = b - droid_f ks key x 1 a
      in [a - droid_f ks key x 0 b', b'])"
  by (simp add: droid_dec_pass_def Let_def numeral_2_eq_2)

lemma droid_pass_inverse: "droid_dec_pass ks key 2 (droid_enc_pass ks key 2 [a, b]) = [a, b]"
  by (simp add: droid_enc_pass_2 droid_dec_pass_2 Let_def)

lemma droid_enc_loop_snoc:
  "droid_enc_loop ks (Suc n) key num buf =
   droid_enc_pass ks (key - of_nat (Suc n) * 0x61C88647) num (droid_enc_loop ks n key num buf)"
proof (induction n arbitrary: key buf)
  case (Suc n)
  let ?k = "key - 0x61C88647" and ?b = "droid_enc_pass ks (key - 0x61C88647) num buf"
  have "droid_enc_loop ks (Suc (Suc n)) key num buf = droid_enc_loop ks (Suc n) ?k num ?b"
    by (simp only: droid_enc_loop.simps Let_def)
  also have "\<dots> = droid_enc_pass ks (?k - of_nat (Suc n) * 0x61C88647) num
                     (droid_enc_loop ks n ?k num ?b)"
    by (rule Suc.IH)
  also have "?k - of_nat (Suc n) * 0x61C88647 = key - of_nat (Suc (Suc n)) * 0x61C88647"
    by (simp only: of_nat_Suc [of "Suc n"] distrib_right mult_1_left diff_diff_add)
  also have "droid_enc_loop ks n ?k num ?b = droid_enc_loop ks (Suc n) key num buf"
    by (simp only: droid_enc_loop.simps Let_def)
  finally show ?case .
qed (simp add: Let_def)

lemma droid_enc_loop_2: "\<exists>c d. droid_enc_loop ks n key 2 [a, b] = [c, d]"
proof (induction n arbitrary: key a b)
  case (Suc n)
  obtain c d where "droid_enc_pass ks (key - 0x61C88647) 2 [a, b] = [c, d]"
    by (simp add: droid_enc_pass_2 Let_def)
  with Suc.IH [of "key - 0x61C88647" c d] show ?case
    by (simp only: droid_enc_loop.simps Let_def)
qed simp

lemma droid_loop_inverse:
  assumes "n < 2 ^ 32"
  shows "droid_dec_loop ks (of_nat n * 0x9E3779B9) 2 (droid_enc_loop ks n 0 2 [a, b]) = [a, b]"
  using assms
proof (induction n)
  case 0
  then show ?case by (simp add: droid_dec_loop.simps)
next
  case (Suc n)
  let ?k = "of_nat (Suc n) * 0x9E3779B9 :: u32"
  obtain c d where cd: "droid_enc_loop ks n 0 2 [a, b] = [c, d]" using droid_enc_loop_2 by blast
  have neg: "(0x9E3779B9 :: u32) = - 0x61C88647" by simp
  have k: "0 - of_nat (Suc n) * 0x61C88647 = ?k"
    by (simp only: neg mult_minus_right diff_0)
  have "?k \<noteq> 0"
  proof
    assume "?k = 0"
    then have "?k * 0x144CBC89 = 0" by simp
    moreover have "(0x9E3779B9 * 0x144CBC89 :: u32) = 1" by simp
    then have "?k * 0x144CBC89 = of_nat (Suc n)" by (simp only: mult.assoc mult_1_right)
    ultimately have "(of_nat (Suc n) :: u32) = 0" by simp
    then have "unat (of_nat (Suc n) :: u32) = 0" by (simp only: unat_0)
    moreover have "unat (of_nat (Suc n) :: u32) = Suc n"
      using Suc.prems by (simp only: unat_of_nat) simp
    ultimately show False by simp
  qed
  moreover have "?k + 0x61C88647 = of_nat n * 0x9E3779B9"
    by (simp only: neg of_nat_Suc distrib_right mult_1_left) simp
  ultimately have step: "droid_dec_loop ks ?k 2 x
      = droid_dec_loop ks (of_nat n * 0x9E3779B9) 2 (droid_dec_pass ks ?k 2 x)" for x
    by (subst droid_dec_loop.simps) (simp only: if_True not_False_eq_True)
  have "droid_dec_loop ks ?k 2 (droid_enc_loop ks (Suc n) 0 2 [a, b])
      = droid_dec_loop ks (of_nat n * 0x9E3779B9) 2
          (droid_dec_pass ks ?k 2 (droid_enc_loop ks (Suc n) 0 2 [a, b]))"
    by (rule step)
  also have "droid_dec_pass ks ?k 2 (droid_enc_loop ks (Suc n) 0 2 [a, b])
      = droid_enc_loop ks n 0 2 [a, b]"
    unfolding droid_enc_loop_snoc k cd by (rule droid_pass_inverse)
  also have "droid_dec_loop ks (of_nat n * 0x9E3779B9) 2 \<dots> = [a, b]"
    using Suc by simp
  finally show ?case .
qed

lemma droid_decipher_encipher:
  "\<exists>c d. DroidEncipher ks [a, b] 2 = Some [c, d] \<and> DroidDecipher ks [c, d] 2 = Some [a, b]"
proof -
  obtain c d where "droid_enc_loop ks 32 0 2 [a, b] = [c, d]" using droid_enc_loop_2 by blast
  with droid_loop_inverse [of 32 ks a b] show ?thesis
    by (simp add: DroidEncipher_def DroidDecipher_def)
qed

text \<open>
  ELF: enciphering rotates each byte right by two and then the whole line right by three bits;
  \<open>elf_rot\<close> is the first step and the loop's key carries the bits across bytes.
\<close>

definition elf_rot :: "u8 \<Rightarrow> u8" where
  "elf_rot v = push_bit 6 v OR drop_bit 2 v"

definition elf_unrot :: "u8 \<Rightarrow> u8" where
  "elf_unrot v = drop_bit 6 v OR push_bit 2 v"

lemma u8_eqI:
  assumes "bit a 0 = bit b 0" "bit a 1 = bit b 1" "bit a 2 = bit b 2" "bit a 3 = bit b 3"
    "bit a 4 = bit b 4" "bit a 5 = bit b 5" "bit a 6 = bit b 6" "bit a 7 = bit b 7"
  shows "a = (b :: u8)"
proof (rule bit_word_eqI)
  fix n
  assume "n < LENGTH(8)"
  then have "n \<in> {0, 1, 2, 3, 4, 5, 6, 7}" by auto
  with assms show "bit a n = bit b n" by auto
qed

lemma elf_unrot_rot: "elf_unrot (elf_rot v) = v"
  by (rule u8_eqI) (simp_all add: elf_rot_def elf_unrot_def bit_simps numeral_2_eq_2 [symmetric])

text \<open>The byte the loop stores (before the hint), and the three bits it carries over.\<close>

definition elf_out :: "u8 \<Rightarrow> u8 \<Rightarrow> u8" where "elf_out a k = drop_bit 3 a OR push_bit 5 k"
definition elf_low :: "u8 \<Rightarrow> u8" where "elf_low k = drop_bit 5 (push_bit 5 k)"

lemma elf_low_out: "drop_bit 5 (elf_out a k) = elf_low k"
  by (rule u8_eqI) (simp_all add: elf_out_def elf_low_def bit_simps)

lemma elf_join: "push_bit 3 (elf_out a k) OR elf_low a = a"
  by (rule u8_eqI) (simp_all add: elf_out_def elf_low_def bit_simps numeral_2_eq_2 [symmetric])

lemma elf_last_key: "push_bit 3 (v AND 0xFC) = push_bit 5 (elf_rot v)"
proof -
  have fc: "(0xFC :: u8) = NOT 3" by simp
  show ?thesis
    unfolding fc
    by (rule u8_eqI) (simp_all add: elf_rot_def bit_simps numeral_2_eq_2 [symmetric])
qed

text \<open>
  The deciphering loop, on the reversed output, with the key the enciphering loop left behind:
  it gives back the reversed input.
\<close>

lemma elf_enc_loop_Cons:
  "elf_enc_loop h (push_bit 5 k) (v # vs) =
   (elf_out (elf_rot v) k XOR h) # elf_enc_loop h (push_bit 5 (elf_rot v)) vs"
  by (simp add: Let_def elf_rot_def elf_out_def)

lemma elf_dec_loop_Cons:
  "elf_dec_loop h (elf_low a) ((elf_out a k XOR h) # vs) = elf_unrot a # elf_dec_loop h (elf_low k) vs"
  by (simp only: elf_dec_loop.simps(2) Let_def xor.assoc xor_self_eq xor.right_neutral elf_join
      elf_low_out elf_unrot_def)

declare elf_enc_loop.simps(2) [simp del] elf_dec_loop.simps(2) [simp del]

lemma elf_enc_loop_snoc:
  "elf_enc_loop h (push_bit 5 k) (vs @ [v]) =
   elf_enc_loop h (push_bit 5 k) vs @
     [elf_out (elf_rot v) (if vs = [] then k else elf_rot (last vs)) XOR h]"
  by (induction vs arbitrary: k) (auto simp: elf_enc_loop_Cons)

lemma elf_dec_enc_loop:
  "vs \<noteq> [] \<Longrightarrow>
   elf_dec_loop h (elf_low (elf_rot (last vs))) (rev (elf_enc_loop h (push_bit 5 k) vs)) = rev vs"
proof (induction vs rule: rev_induct)
  case (snoc v vs)
  then show ?case
    by (cases "vs = []")
      (simp_all add: elf_enc_loop_snoc elf_enc_loop_Cons elf_dec_loop_Cons elf_unrot_rot)
qed simp

lemma elf_enc_loop_hd:
  "vs \<noteq> [] \<Longrightarrow> hd (elf_enc_loop h (push_bit 5 k) vs) XOR h = elf_out (elf_rot (hd vs)) k"
  by (cases vs) (simp_all add: elf_enc_loop_Cons xor.assoc)

lemma elf_enc_loop_length [simp]: "length (elf_enc_loop h k vs) = length vs"
  by (induction vs arbitrary: k) (simp_all add: Let_def elf_enc_loop.simps)

lemma elf_encipher_alt:
  "elf_encipher vs h = (if vs = [] then [] else elf_enc_loop h (push_bit 5 (elf_rot (last vs))) vs)"
  by (simp only: elf_encipher_def elf_last_key)

lemma length_elf_encipher [simp]: "length (elf_encipher vs h) = length vs"
  by (simp add: elf_encipher_alt)

lemma elf_decipher_encipher: "elf_decipher (elf_encipher vs h) h = vs"
proof (cases "vs = []")
  case False
  let ?e = "elf_enc_loop h (push_bit 5 (elf_rot (last vs))) vs"
  have e: "elf_encipher vs h = ?e" "?e \<noteq> []"
    using False by (simp_all add: elf_encipher_alt flip: length_greater_0_conv)
  have "drop_bit 5 (hd ?e XOR h) = elf_low (elf_rot (last vs))"
    using False by (simp only: elf_enc_loop_hd elf_low_out not_False_eq_True)
  with e elf_dec_enc_loop [OF False, of h "elf_rot (last vs)"] show ?thesis
    by (simp add: elf_decipher_def)
qed (simp add: elf_decipher_def elf_encipher_def)

section \<open>Properties\<close>

text \<open>C25: XTEA deciphering undoes enciphering and enciphering undoes deciphering, for every key and
  every block.\<close>

theorem tea_inverse:
  "TeaDecipher ks (TeaEncipher ks buf) = buf \<and> TeaEncipher ks (TeaDecipher ks buf) = buf"
  by (simp add: tea_decipher_encipher tea_encipher_decipher)

text \<open>C24: The Droid cipher on the two-word blocks the streams use: both loops end, and deciphering
  undoes enciphering.\<close>

theorem droid_inverse:
  "\<exists>c d. DroidEncipher ks [a, b] 2 = Some [c, d] \<and> DroidDecipher ks [c, d] 2 = Some [a, b]"
  by (rule droid_decipher_encipher)

text \<open>The line cipher of the ELF logs: deciphering a segment with the hint it was enciphered with
  gives the segment back, at the same length.\<close>

theorem elf_inverse:
  "elf_decipher (elf_encipher vs h) h = vs \<and> length (elf_encipher vs h) = length vs"
  by (simp add: elf_decipher_encipher)

end
