(* ===== verification/EncryptedStream.thy ===== *)
theory EncryptedStream
  imports HsStream Ciphers
begin

text \<open>
  The encrypted file stream \<open>plEncryptedStream\<close> (\<open>src/core/Stream/plEncryptedStream.h\<close>,
  \<open>.cpp\<close>): a header with a magic and the plain size, then the data in blocks of 8 bytes (XTEA,
  Droid) or 16 bytes (AES), the last one padded with zeros.  The block in work is \<open>fLBuffer\<close>.

  The AES block functions live in the vendored Rijndael code under \<open>src/core/3rdPartyLibs\<close> and
  are the parameter \<open>aes_lib\<close>; what the stream needs of them is \<open>aes_ok\<close>, the property of any
  block cipher that deciphering a 16-byte block undoes enciphering it.
\<close>

section \<open>State\<close>

datatype enc_type = kEncNone | kEncXtea | kEncAES | kEncDroid | kEncAuto

datatype file_mode = fmRead | fmWrite | fmReadWrite | fmCreate

record aes_lib =
  aes_encrypt :: "bytes \<Rightarrow> bytes"
  aes_decrypt :: "bytes \<Rightarrow> bytes"

definition aes_ok :: "aes_lib \<Rightarrow> bool" where
  "aes_ok A \<longleftrightarrow> (\<forall>b. length b = 16 \<longrightarrow>
     length (aes_encrypt A b) = 16 \<and> aes_decrypt A (aes_encrypt A b) = b)"

record enc_stream =
  e_ver :: plasma_ver
  fLBuffer :: bytes
  fDataSize :: nat
  fDataPos :: nat
  fEKey :: "u32 list"
  fEType :: enc_type
  fMode :: file_mode
  fBase :: "hs_stream option"

definition eoaMagic :: u32 where "eoaMagic = 0x0D874288"

text \<open>``whatdoyousee'', ``BriceIsSmart'', ``notthedroids''.\<close>

definition uruMagic :: bytes where
  "uruMagic = [0x77, 0x68, 0x61, 0x74, 0x64, 0x6F, 0x79, 0x6F, 0x75, 0x73, 0x65, 0x65]"
definition uruMagic2 :: bytes where
  "uruMagic2 = [0x42, 0x72, 0x69, 0x63, 0x65, 0x49, 0x73, 0x53, 0x6D, 0x61, 0x72, 0x74]"
definition liveMagic :: bytes where
  "liveMagic = [0x6E, 0x6F, 0x74, 0x74, 0x68, 0x65, 0x64, 0x72, 0x6F, 0x69, 0x64, 0x73]"

definition enc_new :: "plasma_ver \<Rightarrow> enc_stream" where
  "enc_new pv = \<lparr>e_ver = pv, fLBuffer = replicate 16 0, fDataSize = 0, fDataPos = 0,
                 fEKey = uruKey, fEType = kEncNone, fMode = fmRead, fBase = None\<rparr>"

definition enc_setKey :: "u32 list \<Rightarrow> enc_stream \<Rightarrow> enc_stream" where
  "enc_setKey keys e = e\<lparr>fEKey := [keys ! 0, keys ! 1, keys ! 2, keys ! 3]\<rparr>"

definition szInc :: "enc_type \<Rightarrow> nat" where
  "szInc t = (if t = kEncAES then 16 else 8)"

definition hdrSize :: "enc_type \<Rightarrow> nat" where
  "hdrSize t = (if t = kEncAES then 8 else 16)"

section \<open>Blocks\<close>

text \<open>The ciphers act on the buffer in place; the 8-byte ones on its first two words.\<close>

definition words2 :: "bytes \<Rightarrow> u32 \<times> u32" where
  "words2 b = (un_le32 (take 4 b), un_le32 (take 4 (drop 4 b)))"

definition block_encipher :: "aes_lib \<Rightarrow> enc_type \<Rightarrow> u32 list \<Rightarrow> bytes \<Rightarrow> bytes" where
  "block_encipher A t ks b =
     (if t = kEncAES then aes_encrypt A b
      else if t = kEncDroid then
        (case DroidEncipher ks [fst (words2 b), snd (words2 b)] 2 of
           Some ws \<Rightarrow> concat (map le32 ws) @ drop 8 b | None \<Rightarrow> b)
      else (case TeaEncipher ks (words2 b) of (x, y) \<Rightarrow> le32 x @ le32 y @ drop 8 b))"

definition block_decipher :: "aes_lib \<Rightarrow> enc_type \<Rightarrow> u32 list \<Rightarrow> bytes \<Rightarrow> bytes" where
  "block_decipher A t ks b =
     (if t = kEncAES then aes_decrypt A b
      else if t = kEncDroid then
        (case DroidDecipher ks [fst (words2 b), snd (words2 b)] 2 of
           Some ws \<Rightarrow> concat (map le32 ws) @ drop 8 b | None \<Rightarrow> b)
      else (case TeaDecipher ks (words2 b) of (x, y) \<Rightarrow> le32 x @ le32 y @ drop 8 b))"

definition CryptFlush :: "aes_lib \<Rightarrow> enc_stream \<Rightarrow> enc_stream result" where
  "CryptFlush A e =
     (case fBase e of
        None \<Rightarrow> Inl BadParamException
      | Some base \<Rightarrow>
          let blk = block_encipher A (fEType e) (fEKey e) (fLBuffer e) in
          rbind (st_write (take (szInc (fEType e)) blk) base) (\<lambda>(_, base').
            Inr (e\<lparr>fBase := Some base', fLBuffer := replicate 16 0\<rparr>)))"

text \<open>``Advance the buffer'': the next block of the base, deciphered into \<open>fLBuffer\<close>.\<close>

definition enc_advance :: "aes_lib \<Rightarrow> enc_stream \<Rightarrow> enc_stream result" where
  "enc_advance A e =
     (case fBase e of
        None \<Rightarrow> Inl UndefinedBehaviour
      | Some base \<Rightarrow>
          let k = szInc (fEType e) in
          rbind (st_read k base) (\<lambda>(b, base').
            Inr (e\<lparr>fBase := Some base',
                   fLBuffer := block_decipher A (fEType e) (fEKey e) (b @ drop k (fLBuffer e))\<rparr>)))"

section \<open>Reading and writing\<close>

text \<open>The loops: \<open>n\<close> is \<open>size - bp\<close>, the bytes still to go.\<close>

lemma szInc_pos [simp]: "0 < szInc t" "szInc t \<noteq> 0"
  by (simp_all add: szInc_def)

function enc_read_loop ::
  "aes_lib \<Rightarrow> nat \<Rightarrow> nat \<Rightarrow> bytes \<Rightarrow> enc_stream \<Rightarrow> (bytes \<times> enc_stream) result" where
  "enc_read_loop A n lp acc e =
     (if n = 0 then Inr (acc, e)
      else rbind (if lp = 0 then enc_advance A e else Inr e) (\<lambda>e1.
        let k = szInc (fEType e1) in
        if lp + n \<ge> k
        then enc_read_loop A (n - (k - lp)) 0 (acc @ take (k - lp) (drop lp (fLBuffer e1))) e1
        else Inr (acc @ take n (drop lp (fLBuffer e1)), e1)))"
  by pat_completeness auto
termination
  by (relation "measure (\<lambda>(A, n, lp, acc, e). 2 * n + (if lp = 0 then 0 else 1))")
    (auto simp: szInc_def split: if_splits)

definition enc_read :: "aes_lib \<Rightarrow> nat \<Rightarrow> enc_stream \<Rightarrow> (bytes \<times> enc_stream) result" where
  "enc_read A n e =
     (if fDataPos e + n > fDataSize e then Inl FileReadException
      else rbind (enc_read_loop A n (fDataPos e mod szInc (fEType e)) [] e) (\<lambda>(b, e1).
             Inr (b, e1\<lparr>fDataPos := (fDataPos e1 + n) mod 2 ^ 32\<rparr>)))"

definition buf_put :: "bytes \<Rightarrow> nat \<Rightarrow> bytes \<Rightarrow> bytes" where
  "buf_put b p bs = take p b @ bs @ drop (p + length bs) b"

function enc_write_loop ::
  "aes_lib \<Rightarrow> bytes \<Rightarrow> nat \<Rightarrow> enc_stream \<Rightarrow> enc_stream result" where
  "enc_write_loop A bs lp e =
     (if bs = [] then Inr e
      else let k = szInc (fEType e) in
        if lp + length bs \<ge> k
        then rbind (CryptFlush A (e\<lparr>fLBuffer := buf_put (fLBuffer e) lp (take (k - lp) bs)\<rparr>))
               (\<lambda>e1. enc_write_loop A (drop (k - lp) bs) 0 e1)
        else Inr (e\<lparr>fLBuffer := buf_put (fLBuffer e) lp bs\<rparr>))"
  by pat_completeness auto
termination
  by (relation "measure (\<lambda>(A, bs, lp, e). 2 * length bs + (if lp = 0 then 0 else 1))")
    (auto simp: szInc_def split: if_splits)

definition enc_write :: "aes_lib \<Rightarrow> bytes \<Rightarrow> enc_stream \<Rightarrow> enc_stream result" where
  "enc_write A bs e =
     rbind (enc_write_loop A bs (fDataPos e mod szInc (fEType e)) e) (\<lambda>e1.
       let p = (fDataPos e1 + length bs) mod 2 ^ 32 in
       Inr (e1\<lparr>fDataPos := p, fDataSize := (if p > fDataSize e1 then p else fDataSize e1)\<rparr>))"

section \<open>Opening, closing and moving\<close>

text \<open>\<open>close\<close> returns the stream with its base detached, and the base as it leaves it.\<close>

definition enc_close :: "aes_lib \<Rightarrow> enc_stream \<Rightarrow> (enc_stream \<times> hs_stream option) result" where
  "enc_close A e =
     (case fBase e of
        None \<Rightarrow> Inr (e, None)
      | Some base \<Rightarrow>
          if fMode e = fmWrite \<or> fMode e = fmCreate then
            rbind (if fDataPos e mod szInc (fEType e) \<noteq> 0 then CryptFlush A e else Inr e) (\<lambda>e1.
            rbind (io_then (st_seek 0)
                     (io_then (if fEType e1 = kEncAES then writeInt eoaMagic
                               else if fEType e1 = kEncDroid then st_write liveMagic
                               else st_write uruMagic)
                       (writeInt (word_of_nat (fDataSize e1)))) (the (fBase e1))) (\<lambda>(_, base').
            Inr (e1\<lparr>fBase := None\<rparr>, Some base')))
          else Inr (e\<lparr>fBase := None\<rparr>, Some base))"

definition enc_open :: "aes_lib \<Rightarrow> hs_stream \<Rightarrow> file_mode \<Rightarrow> enc_type \<Rightarrow> enc_stream \<Rightarrow> enc_stream result" where
  "enc_open A S mode type e0 =
     rbind (enc_close A e0) (\<lambda>(e0, _).
     let e = e0\<lparr>e_ver := s_ver S, fBase := Some S, fMode := mode\<rparr> in
     if type = kEncNone then Inl BadParamException
     else if mode = fmRead then
       if s_size S < 8 then Inl FileReadException
       else
         rbind (readInt S) (\<lambda>(magicN, S1).
         if magicN = eoaMagic then
           rbind (readInt S1) (\<lambda>(sz, S2).
             Inr (e\<lparr>fEType := kEncAES, fDataSize := unat sz, fDataPos := 0, fBase := Some S2\<rparr>))
         else
           rbind (io_then (st_seek 0) (st_read 12) S1) (\<lambda>(magicS, S2).
           if magicS = uruMagic \<or> magicS = uruMagic2 then
             rbind (readInt S2) (\<lambda>(sz, S3).
               Inr (e\<lparr>fEType := kEncXtea, fDataSize := unat sz, fDataPos := 0, fBase := Some S3\<rparr>))
           else if magicS = liveMagic then
             rbind (readInt S2) (\<lambda>(sz, S3).
               Inr (e\<lparr>fEType := kEncDroid, fDataSize := unat sz, fDataPos := 0, fBase := Some S3\<rparr>))
           else Inl FileReadException))
     else
       rbind (if type = kEncAuto then
                if \<not> isValid (e_ver e) then Inl BadVersionException
                else if e_ver e < MAKE_VERSION 2 0 69 0 then Inr kEncXtea
                else if isNewPlasma (e_ver e) then Inr kEncAES
                else Inr kEncDroid
              else Inr type) (\<lambda>t.
       rbind (st_write (replicate (hdrSize t) 0) S) (\<lambda>(_, S1).
         Inr (e\<lparr>fEType := t, fLBuffer := replicate 16 0, fDataSize := 0, fDataPos := 0,
                fBase := Some S1\<rparr>))))"

definition enc_rewind :: "enc_stream \<Rightarrow> enc_stream result" where
  "enc_rewind e =
     (case fBase e of
        None \<Rightarrow> Inl UndefinedBehaviour
      | Some base \<Rightarrow> Inr (e\<lparr>fBase := Some (base\<lparr>s_pos := hdrSize (fEType e)\<rparr>), fDataPos := 0\<rparr>))"

text \<open>
  \<open>seek\<close> rewinds and skips forward by reading; \<open>skip\<close> with a negative count seeks.  The
  argument of \<open>seek\<close> is a \<open>uint32_t\<close> that \<open>skip\<close> takes as an \<open>int32_t\<close>; a position of \<open>2 ^ 31\<close>
  or more becomes a negative count just after the rewind, which is out of range.
\<close>

definition enc_skip_fwd :: "aes_lib \<Rightarrow> nat \<Rightarrow> enc_stream \<Rightarrow> enc_stream result" where
  "enc_skip_fwd A n e = rbind (enc_read A n e) (\<lambda>(_, e1). Inr e1)"

definition enc_seek :: "aes_lib \<Rightarrow> nat \<Rightarrow> enc_stream \<Rightarrow> enc_stream result" where
  "enc_seek A p e =
     rbind (enc_rewind e) (\<lambda>e1.
       if p < 2 ^ 31 then enc_skip_fwd A p e1 else Inl FileReadException)"

definition enc_skip :: "aes_lib \<Rightarrow> int \<Rightarrow> enc_stream \<Rightarrow> enc_stream result" where
  "enc_skip A count e =
     (if count < 0 then
        if signed_take_bit 31 (int (fDataPos e)) + count < 0 then Inl FileReadException
        else enc_seek A (nat ((int (fDataPos e) + count) mod 2 ^ 32)) e
      else enc_skip_fwd A (nat count) e)"

text \<open>\<open>IsFileEncrypted\<close>, on the contents of the file.\<close>

definition IsFileEncrypted :: "hs_stream \<Rightarrow> bool result" where
  "IsFileEncrypted S =
     (if s_size S < 8 then Inr False
      else rbind (readInt S) (\<lambda>(magicN, S1).
        if magicN = eoaMagic then Inr True
        else rbind (io_then (st_seek 0) (st_read 12) S1) (\<lambda>(magicS, _).
          Inr (magicS = uruMagic \<or> magicS = uruMagic2 \<or> magicS = liveMagic))))"

section \<open>The block ciphers undo each other\<close>

lemma words2_append: "length p = 8 \<Longrightarrow> words2 (p @ r) = (un_le32 (take 4 p), un_le32 (drop 4 p))"
  by (simp add: words2_def min_def)

lemma words2_le [simp]: "words2 (le32 x @ le32 y @ r) = (x, y)"
  by (simp add: words2_def)

lemma block8_inverse:
  assumes t: "t \<noteq> kEncAES" and p: "length p = 8"
  shows "\<exists>q. length q = 8 \<and> (\<forall>r. block_encipher A t ks (p @ r) = q @ r \<and>
                                  block_decipher A t ks (q @ r) = p @ r)"
proof -
  let ?x = "un_le32 (take 4 p)" and ?y = "un_le32 (drop 4 p)"
  have xy: "le32 ?x @ le32 ?y = p" using p by simp
  show ?thesis
  proof (cases "t = kEncDroid")
    case True
    obtain c d where cd: "DroidEncipher ks [?x, ?y] 2 = Some [c, d]"
      "DroidDecipher ks [c, d] 2 = Some [?x, ?y]"
      using droid_decipher_encipher by blast
    have "\<forall>r. block_encipher A t ks (p @ r) = (le32 c @ le32 d) @ r \<and>
              block_decipher A t ks ((le32 c @ le32 d) @ r) = p @ r"
      using t True cd p xy by (simp add: block_encipher_def block_decipher_def words2_append)
    then show ?thesis by (intro exI [of _ "le32 c @ le32 d"]) simp
  next
    case False
    obtain c d where cd: "TeaEncipher ks (?x, ?y) = (c, d)" by fastforce
    with tea_decipher_encipher [of ks "(?x, ?y)"] have "TeaDecipher ks (c, d) = (?x, ?y)" by simp
    with t False cd p xy have "\<forall>r. block_encipher A t ks (p @ r) = (le32 c @ le32 d) @ r \<and>
              block_decipher A t ks ((le32 c @ le32 d) @ r) = p @ r"
      by (simp add: block_encipher_def block_decipher_def words2_append)
    then show ?thesis by (intro exI [of _ "le32 c @ le32 d"]) simp
  qed
qed

text \<open>The image on the wire of one full block.\<close>

definition cblock :: "aes_lib \<Rightarrow> enc_type \<Rightarrow> u32 list \<Rightarrow> bytes \<Rightarrow> bytes" where
  "cblock A t ks p = take (szInc t) (block_encipher A t ks (p @ replicate (16 - szInc t) 0))"

lemma cblock_props:
  assumes "aes_ok A" "length p = szInc t" "length r = 16 - szInc t"
  shows "length (cblock A t ks p) = szInc t"
    and "take (szInc t) (block_encipher A t ks (p @ r)) = cblock A t ks p"
    and "take (szInc t) (block_decipher A t ks (cblock A t ks p @ r)) = p"
    and "length (block_decipher A t ks (cblock A t ks p @ r)) = 16"
proof -
  have "length (cblock A t ks p) = szInc t \<and>
      take (szInc t) (block_encipher A t ks (p @ r)) = cblock A t ks p \<and>
      take (szInc t) (block_decipher A t ks (cblock A t ks p @ r)) = p \<and>
      length (block_decipher A t ks (cblock A t ks p @ r)) = 16"
  proof (cases "t = kEncAES")
    case True
    with assms show ?thesis
      by (simp add: szInc_def cblock_def block_encipher_def block_decipher_def aes_ok_def)
  next
    case False
    with assms have p: "length p = 8" by (simp add: szInc_def)
    from block8_inverse [OF False p] obtain q where "length q = 8"
      "\<And>r. block_encipher A t ks (p @ r) = q @ r" "\<And>r. block_decipher A t ks (q @ r) = p @ r"
      by blast
    with False p assms(3) show ?thesis by (simp add: szInc_def cblock_def)
  qed
  then show "length (cblock A t ks p) = szInc t"
    and "take (szInc t) (block_encipher A t ks (p @ r)) = cblock A t ks p"
    and "take (szInc t) (block_decipher A t ks (cblock A t ks p @ r)) = p"
    and "length (block_decipher A t ks (cblock A t ks p @ r)) = 16" by simp_all
qed

section \<open>The encrypted image of a byte sequence\<close>

text \<open>
  \<open>full k f q\<close> is the image of the whole blocks of \<open>q\<close>, \<open>part k q\<close> the bytes after them,
  \<open>ecb k f d\<close> the image of all of \<open>d\<close> with its last block padded.
\<close>

function full :: "nat \<Rightarrow> (bytes \<Rightarrow> bytes) \<Rightarrow> bytes \<Rightarrow> bytes" where
  "full k f q = (if k = 0 \<or> length q < k then [] else f (take k q) @ full k f (drop k q))"
  by pat_completeness auto
termination by (relation "measure (\<lambda>(k, f, q). length q)") auto

function part :: "nat \<Rightarrow> bytes \<Rightarrow> bytes" where
  "part k q = (if k = 0 \<or> length q < k then q else part k (drop k q))"
  by pat_completeness auto
termination by (relation "measure (\<lambda>(k, q). length q)") auto

declare full.simps [simp del] part.simps [simp del]
  enc_read_loop.simps [simp del] enc_write_loop.simps [simp del]

lemma full_short [simp]: "length q < k \<Longrightarrow> full k f q = []"
  by (simp add: full.simps)

lemma part_short [simp]: "length q < k \<Longrightarrow> part k q = q"
  by (simp add: part.simps)

lemma full_step: "0 < k \<Longrightarrow> k \<le> length q \<Longrightarrow> full k f q = f (take k q) @ full k f (drop k q)"
  by (subst full.simps) simp

lemma part_step: "0 < k \<Longrightarrow> k \<le> length q \<Longrightarrow> part k q = part k (drop k q)"
  by (subst part.simps) simp

lemma length_part: "0 < k \<Longrightarrow> length (part k q) = length q mod k"
proof (induction q rule: length_induct)
  case (1 q)
  show ?case
  proof (cases "length q < k")
    case False
    with 1 show ?thesis by (simp add: part_step le_mod_geq)
  qed simp
qed

lemma length_part_less [simp]: "0 < k \<Longrightarrow> length (part k q) < k"
  by (simp add: length_part)

lemma full_part_append:
  assumes "0 < k"
  shows "full k f (q @ b) = full k f q @ full k f (part k q @ b) \<and> part k (q @ b) = part k (part k q @ b)"
proof (induction q rule: length_induct)
  case (1 q)
  show ?case
  proof (cases "length q < k")
    case False
    then have "length (drop k q) < length q" using \<open>0 < k\<close> by simp
    with 1 have IH: "full k f (drop k q @ b) = full k f (drop k q) @ full k f (part k (drop k q) @ b)"
      "part k (drop k q @ b) = part k (part k (drop k q) @ b)" by blast+
    from False \<open>0 < k\<close> show ?thesis
      using full_step [of k "q @ b" f] full_step [of k q f] part_step [of k "q @ b"]
        part_step [of k q] IH by simp
  qed simp
qed

definition pad :: "nat \<Rightarrow> bytes \<Rightarrow> bytes" where
  "pad k q = q @ replicate ((k - length q mod k) mod k) 0"

definition ecb :: "nat \<Rightarrow> (bytes \<Rightarrow> bytes) \<Rightarrow> bytes \<Rightarrow> bytes" where
  "ecb k f d = full k f (pad k d)"

lemma ecb_full_part:
  assumes k: "0 < k"
  shows "ecb k f d = full k f d @
    (if part k d = [] then [] else f (part k d @ replicate (k - length (part k d)) 0))"
proof -
  let ?z = "replicate ((k - length d mod k) mod k) 0 :: bytes"
  have "ecb k f d = full k f d @ full k f (part k d @ ?z)"
    using full_part_append [OF k, of f d ?z] by (simp add: ecb_def pad_def)
  also have "full k f (part k d @ ?z)
      = (if part k d = [] then [] else f (part k d @ replicate (k - length (part k d)) 0))"
  proof (cases "part k d = []")
    case True
    then show ?thesis using k length_part [OF k, of d] by simp
  next
    case False
    then have m: "0 < length (part k d)" "length (part k d) < k" using k by simp_all
    then have z: "?z = replicate (k - length (part k d)) 0" by (simp add: length_part [OF k])
    from m have "full k f (part k d @ replicate (k - length (part k d)) 0)
        = f (part k d @ replicate (k - length (part k d)) 0)"
      by (subst full_step [OF k]) simp_all
    with False z show ?thesis by simp
  qed
  finally show ?thesis .
qed

text \<open>Block \<open>j\<close> of the image is the image of block \<open>j\<close>.\<close>

lemma full_block:
  assumes k: "0 < k" and f: "\<And>p. length p = k \<Longrightarrow> length (f p) = k" and "k * j + k \<le> length q"
  shows "take k (drop (k * j) (full k f q)) = f (take k (drop (k * j) q)) \<and>
         k * j + k \<le> length (full k f q)"
  using assms(3)
proof (induction j arbitrary: q)
  case 0
  with f [of "take k q"] k show ?case by (simp add: full_step)
next
  case (Suc j)
  then have q: "k \<le> length q" and "k * j + k \<le> length (drop k q)" by simp_all
  from Suc.IH [OF this(2)] f [of "take k q"] q k show ?case
    by (simp add: full_step [of k q] add.commute)
qed

lemma length_pad: "0 < k \<Longrightarrow> k dvd length (pad k q) \<and> length q \<le> length (pad k q)"
proof -
  assume k: "0 < k"
  let ?c = "length q mod k + (k - length q mod k) mod k"
  have len: "length (pad k q) = length q div k * k + ?c"
    using div_mult_mod_eq [of "length q" k] unfolding pad_def length_append length_replicate by linarith
  have "?c = 0 \<or> ?c = k"
    using k mod_less_divisor [OF k, of "length q"] by (cases "length q mod k = 0") auto
  then have "k dvd ?c" by auto
  then have "k dvd length q div k * k + ?c" by (rule dvd_add [OF dvd_triv_right])
  then show ?thesis by (simp add: len [symmetric]) (simp add: pad_def)
qed

section \<open>Writing\<close>

text \<open>
  While it writes \<open>q\<close>, the stream holds the image of the whole blocks of \<open>q\<close> behind the reserved
  header and the rest of \<open>q\<close>, padded with zeros, in its buffer.
\<close>

definition enc_winv :: "aes_lib \<Rightarrow> plasma_ver \<Rightarrow> bytes \<Rightarrow> enc_stream \<Rightarrow> bool" where
  "enc_winv A v q e \<longleftrightarrow>
     (let t = fEType e; k = szInc t; r = part k q;
          img = replicate (hdrSize t) 0 @ full k (cblock A t (fEKey e)) q in
      fBase e = Some \<lparr>s_ver = v, s_data = img, s_pos = length img\<rparr> \<and>
      fLBuffer e = r @ replicate (16 - length r) 0 \<and>
      fDataPos e = length q \<and> fDataSize e = length q)"

lemma szInc_le_16 [simp]: "szInc t \<le> 16"
  by (simp add: szInc_def)

lemma overwrite_append: "p = length d \<Longrightarrow> overwrite d p bs = d @ bs"
  by (simp add: overwrite_def)

text \<open>The loop alone leaves the position and the size to its caller.\<close>

lemma enc_write_loop_inv:
  assumes "aes_ok A" "k = szInc (fEType e)" "f = cblock A (fEType e) (fEKey e)"
    "length r < k" "fLBuffer e = r @ replicate (16 - length r) 0"
    "fBase e = Some \<lparr>s_ver = v, s_data = img, s_pos = length img\<rparr>"
  shows "enc_write_loop A bs (length r) e = Inr (e\<lparr>
     fBase := Some \<lparr>s_ver = v, s_data = img @ full k f (r @ bs), s_pos = length (img @ full k f (r @ bs))\<rparr>,
     fLBuffer := part k (r @ bs) @ replicate (16 - length (part k (r @ bs))) 0\<rparr>)"
  using assms
proof (induction "length bs" arbitrary: bs r e img rule: less_induct)
  case less
  note k = less.prems(2) and len = less.prems(4)
  show ?case
  proof (cases "k \<le> length r + length bs")
    case False
    then have "buf_put (fLBuffer e) (length r) bs = (r @ bs) @ replicate (16 - length (r @ bs)) 0"
      using less.prems(5) szInc_le_16 [of "fEType e"] k
      by (simp add: buf_put_def)
    with False less.prems show ?thesis
      by (subst enc_write_loop.simps) (cases "bs = []"; simp)
  next
    case True
    then have bs: "bs \<noteq> []" using len by auto
    let ?p = "r @ take (k - length r) bs"
    have p: "length ?p = k" using True len by simp
    have buf: "buf_put (fLBuffer e) (length r) (take (k - length r) bs) = ?p @ replicate (16 - k) 0"
      using less.prems(5) True len szInc_le_16 [of "fEType e"] k by (simp add: buf_put_def)
    let ?e1 = "e\<lparr>fLBuffer := replicate 16 0,
      fBase := Some \<lparr>s_ver = v, s_data = img @ f ?p, s_pos = length (img @ f ?p)\<rparr>\<rparr>"
    have "take k (block_encipher A (fEType e) (fEKey e) (?p @ replicate (16 - k) 0)) = f ?p"
      using cblock_props(2) [OF less.prems(1), of ?p "fEType e" "replicate (16 - k) 0" "fEKey e"]
        p k less.prems(3) by simp
    then have flush: "CryptFlush A (e\<lparr>fLBuffer := ?p @ replicate (16 - k) 0\<rparr>) = Inr ?e1"
      using less.prems(6) k
      by (simp add: CryptFlush_def st_write_def overwrite_append del: length_take take_append append_assoc)
    have step: "full k f (r @ bs) = f ?p @ full k f (drop (k - length r) bs)"
      "part k (r @ bs) = part k (drop (k - length r) bs)"
      using full_step [of k "r @ bs" f] part_step [of k "r @ bs"] k True len by simp_all
    have "length (drop (k - length r) bs) < length bs" using len bs by (cases bs) auto
    from less.hyps [OF this, of ?e1 "[]"] less.prems step
    have "enc_write_loop A (drop (k - length r) bs) 0 ?e1 = Inr (?e1\<lparr>
       fBase := Some \<lparr>s_ver = v, s_data = img @ full k f (r @ bs), s_pos = length (img @ full k f (r @ bs))\<rparr>,
       fLBuffer := part k (r @ bs) @ replicate (16 - length (part k (r @ bs))) 0\<rparr>)"
      by simp
    then show ?thesis
      using bs True buf flush k by (subst enc_write_loop.simps) (simp add: Let_def)
  qed
qed

lemma enc_write_inv:
  assumes "aes_ok A" "enc_winv A v q e" "length q + length bs < 2 ^ 32"
  shows "\<exists>e'. enc_write A bs e = Inr e' \<and> enc_winv A v (q @ bs) e' \<and>
     fEType e' = fEType e \<and> fEKey e' = fEKey e \<and> fMode e' = fMode e"
proof -
  let ?k = "szInc (fEType e)" and ?f = "cblock A (fEType e) (fEKey e)"
  have k: "0 < ?k" by simp
  note inv = assms(2) [unfolded enc_winv_def Let_def]
  from inv have buf: "fLBuffer e = part ?k q @ replicate (16 - length (part ?k q)) 0"
    and pos: "fDataPos e mod ?k = length (part ?k q)"
    by (simp_all only: length_part [OF k])
  from inv have base: "fBase e = Some \<lparr>s_ver = v,
      s_data = replicate (hdrSize (fEType e)) 0 @ full ?k ?f q,
      s_pos = length (replicate (hdrSize (fEType e)) (0::u8) @ full ?k ?f q)\<rparr>" by simp
  note loop = enc_write_loop_inv [OF assms(1) refl refl length_part_less [OF k] buf base, of bs]
  note app = full_part_append [OF k, of ?f q bs]
  from inv have "fDataPos e = length q" "fDataSize e = length q" by simp_all
  with assms(3) show ?thesis
    unfolding enc_write_def pos loop
    by (simp add: enc_winv_def Let_def app)
qed

section \<open>Reading\<close>

text \<open>
  At position \<open>P\<close> of the plain bytes \<open>d\<close>, the base stands at the next block to decipher; inside
  a block, the buffer holds that block.
\<close>

definition nblock :: "nat \<Rightarrow> bytes \<Rightarrow> nat \<Rightarrow> bytes" where
  "nblock k d j = take k (drop (k * j) (pad k d))"

definition enc_rpos :: "nat \<Rightarrow> bytes \<Rightarrow> nat \<Rightarrow> enc_stream \<Rightarrow> nat \<Rightarrow> bool" where
  "enc_rpos k d P e bp \<longleftrightarrow>
     (if P mod k = 0 then bp = hdrSize (fEType e) + P
      else bp = hdrSize (fEType e) + k * (P div k) + k \<and>
           take k (fLBuffer e) = nblock k d (P div k))"

definition enc_rinv :: "aes_lib \<Rightarrow> plasma_ver \<Rightarrow> bytes \<Rightarrow> bytes \<Rightarrow> nat \<Rightarrow> enc_stream \<Rightarrow> bool" where
  "enc_rinv A v hdr d P e \<longleftrightarrow>
     (let t = fEType e; k = szInc t in
      length hdr = hdrSize t \<and> length (fLBuffer e) = 16 \<and> P \<le> length d \<and>
      (\<exists>bp. fBase e = Some \<lparr>s_ver = v, s_data = hdr @ ecb k (cblock A t (fEKey e)) d, s_pos = bp\<rparr> \<and>
            enc_rpos k d P e bp))"

lemma pad_block:
  assumes "0 < k" "P < length d"
  shows "k * (P div k) + k \<le> length (pad k d)"
proof -
  from length_pad [OF assms(1), of d] obtain m where m: "length (pad k d) = k * m" "length d \<le> k * m"
    by auto
  with assms(2) have "P < k * m" by simp
  then have "P div k < m" using assms(1) by (simp add: less_mult_imp_div_less mult.commute)
  then have "Suc (P div k) \<le> m" by simp
  then have "k * Suc (P div k) \<le> k * m" by (rule mult_le_mono2)
  with m show ?thesis by simp
qed

lemma take_nblock:
  assumes "0 < k" "P < length d" "n \<le> k - P mod k" "P + n \<le> length d"
  shows "take n (drop (P mod k) (nblock k d (P div k))) = take n (drop P d)"
proof -
  have "k * (P div k) + P mod k = P" by simp
  then have "drop (P mod k) (drop (k * (P div k)) (pad k d)) = drop P (pad k d)"
    by (simp add: add.commute)
  moreover have "take n (drop P (pad k d)) = take n (drop P d)"
    using assms(4) by (simp add: pad_def)
  ultimately show ?thesis
    using assms(3) by (simp add: nblock_def drop_take)
qed

text \<open>What no read changes.\<close>

definition enc_same :: "enc_stream \<Rightarrow> enc_stream \<Rightarrow> bool" where
  "enc_same e e1 \<longleftrightarrow> fEType e1 = fEType e \<and> fEKey e1 = fEKey e \<and> fMode e1 = fMode e \<and>
     fDataPos e1 = fDataPos e \<and> fDataSize e1 = fDataSize e \<and> e_ver e1 = e_ver e"

text \<open>The state inside block \<open>P div k\<close>.\<close>

definition enc_in_block :: "aes_lib \<Rightarrow> plasma_ver \<Rightarrow> bytes \<Rightarrow> bytes \<Rightarrow> nat \<Rightarrow> enc_stream \<Rightarrow> bool" where
  "enc_in_block A v hdr d P e \<longleftrightarrow>
     (let t = fEType e; k = szInc t in
      length (fLBuffer e) = 16 \<and> take k (fLBuffer e) = nblock k d (P div k) \<and>
      fBase e = Some \<lparr>s_ver = v, s_data = hdr @ ecb k (cblock A t (fEKey e)) d,
                      s_pos = hdrSize t + k * (P div k) + k\<rparr>)"

lemma enc_advance_block:
  assumes "aes_ok A" "enc_rinv A v hdr d P e" "P < length d" "P mod szInc (fEType e) = 0"
  shows "\<exists>e1. enc_advance A e = Inr e1 \<and> enc_same e e1 \<and> enc_in_block A v hdr d P e1"
proof -
  define t k f j where "t = fEType e" and "k = szInc t" and "f = cblock A t (fEKey e)" and "j = P div k"
  have k: "0 < k" and kj: "k * j = P"
    using assms(4) by (simp_all add: k_def t_def j_def mod_0_imp_dvd)
  have blk: "length (nblock k d j) = k"
    using pad_block [OF k assms(3)] by (simp add: nblock_def j_def)
  have img: "take k (drop P (ecb k f d)) = f (nblock k d j)" "P + k \<le> length (ecb k f d)"
  proof -
    have "\<And>p. length p = k \<Longrightarrow> length (f p) = k"
      using cblock_props(1) [OF assms(1), of _ t "replicate (16 - k) 0"] by (simp add: f_def k_def)
    from full_block [OF k this pad_block [OF k assms(3), folded j_def]]
    show "take k (drop P (ecb k f d)) = f (nblock k d j)" "P + k \<le> length (ecb k f d)"
      by (simp_all add: ecb_def nblock_def kj)
  qed
  from assms(2,4) have h: "length hdr = hdrSize t" and buf: "length (fLBuffer e) = 16"
    and base: "fBase e = Some \<lparr>s_ver = v, s_data = hdr @ ecb k f d, s_pos = hdrSize t + P\<rparr>"
    by (auto simp: enc_rinv_def enc_rpos_def Let_def t_def k_def f_def)
  have rd: "st_read k \<lparr>s_ver = v, s_data = hdr @ ecb k f d, s_pos = hdrSize t + P\<rparr>
      = Inr (f (nblock k d j), \<lparr>s_ver = v, s_data = hdr @ ecb k f d, s_pos = hdrSize t + P + k\<rparr>)"
    using img h by (simp add: st_read_def s_size_def)
  have "take k (block_decipher A t (fEKey e) (f (nblock k d j) @ drop k (fLBuffer e))) = nblock k d j \<and>
      length (block_decipher A t (fEKey e) (f (nblock k d j) @ drop k (fLBuffer e))) = 16"
    using cblock_props(3,4) [OF assms(1), of "nblock k d j" t "drop k (fLBuffer e)"] blk buf
    by (simp add: k_def f_def)
  with rd base show ?thesis
    by (simp add: enc_advance_def enc_same_def enc_in_block_def Let_def t_def k_def f_def j_def kj [unfolded j_def k_def t_def])
qed

lemma enc_read_loop_ok:
  assumes "aes_ok A" "enc_rinv A v hdr d P e" "P + n \<le> length d"
  shows "\<exists>e1. enc_read_loop A n (P mod szInc (fEType e)) acc e = Inr (acc @ take n (drop P d), e1) \<and>
     enc_rinv A v hdr d (P + n) e1 \<and> enc_same e e1"
  using assms
proof (induction n arbitrary: P e acc rule: less_induct)
  case (less n)
  define k where "k = szInc (fEType e)"
  have k: "0 < k" by (simp add: k_def)
  show ?case
  proof (cases "n = 0")
    case True
    with less.prems show ?thesis by (subst enc_read_loop.simps) (simp add: enc_same_def)
  next
    case False
    then have P: "P < length d" using less.prems(3) by simp
    obtain e1 where e1: "(if P mod k = 0 then enc_advance A e else Inr e) = Inr e1"
      "enc_same e e1" "enc_in_block A v hdr d P e1"
    proof (cases "P mod k = 0")
      case True
      with enc_advance_block [OF less.prems(1,2) P] that show ?thesis by (auto simp: k_def)
    next
      case False
      with less.prems(2) that show ?thesis
        by (auto simp: enc_rinv_def enc_rpos_def enc_in_block_def enc_same_def Let_def k_def)
    qed
    have t1: "fEType e1 = fEType e" using e1(2) by (simp add: enc_same_def)
    have hdr: "length hdr = hdrSize (fEType e)" using less.prems(2) by (simp add: enc_rinv_def Let_def)
    have lp: "P mod k < k" using k by simp
    have blk: "take m (drop (P mod k) (fLBuffer e1)) = take m (drop P d)"
      if "m \<le> k - P mod k" "P + m \<le> length d" for m
    proof -
      have "take m (drop (P mod k) (take k (fLBuffer e1))) = take m (drop P d)"
        using take_nblock [OF k P that] e1(3) t1 by (simp add: enc_in_block_def Let_def k_def)
      then show ?thesis using that(1) by (simp add: drop_take)
    qed
    show ?thesis
    proof (cases "k \<le> P mod k + n")
      case True
      define m where "m = k - P mod k"
      have m: "m \<le> n" "0 < m" "P + m = k * Suc (P div k)"
        using True lp mult_div_mod_eq [of k P] unfolding m_def mult_Suc_right by linarith+
      then have Pm: "(P + m) mod k = 0" by simp
      have inv: "enc_rinv A v hdr d (P + m) e1"
        using e1(3) t1 hdr less.prems(3) m Pm
        by (simp add: enc_in_block_def enc_rinv_def enc_rpos_def Let_def k_def)
      have "n - m < n" "P + m + (n - m) \<le> length d" using m less.prems(3) by simp_all
      from less.IH [OF this(1) less.prems(1) inv this(2), of "acc @ take m (drop P d)"]
      obtain e2 where e2: "enc_read_loop A (n - m) 0 (acc @ take m (drop P d)) e1
          = Inr ((acc @ take m (drop P d)) @ take (n - m) (drop (P + m) d), e2)"
        "enc_rinv A v hdr d (P + n) e2" "enc_same e1 e2"
        using Pm t1 m(1) by (auto simp: k_def)
      have split: "take m (drop P d) @ take (n - m) (drop (P + m) d) = take n (drop P d)"
        using take_add [of m "n - m" "drop P d"] m(1) by (simp add: add.commute)
      have bm: "take m (drop (P mod k) (fLBuffer e1)) = take m (drop P d)"
        using m(1) less.prems(3) by (intro blk) (simp_all add: m_def)
      have "enc_read_loop A n (P mod szInc (fEType e)) acc e
          = enc_read_loop A (n - m) 0 (acc @ take m (drop P d)) e1"
        unfolding k_def [symmetric] enc_read_loop.simps [of A n "P mod k" acc e] e1(1)
        using True \<open>n \<noteq> 0\<close> bm t1 by (simp add: k_def [symmetric] m_def [symmetric])
      also have "\<dots> = Inr (acc @ take n (drop P d), e2)"
        unfolding e2(1) by (simp only: append_assoc split)
      finally have "enc_read_loop A n (P mod szInc (fEType e)) acc e = Inr (acc @ take n (drop P d), e2)" .
      moreover have "enc_same e e2" using e1(2) e2(3) by (simp add: enc_same_def)
      ultimately show ?thesis using e2(2) by blast
    next
      case False
      then have eq: "P mod k + n < k" "P + n = (P mod k + n) + k * (P div k)"
        using mult_div_mod_eq [of k P] by linarith+
      then have "((P mod k + n) + k * (P div k)) div k = P div k"
        "((P mod k + n) + k * (P div k)) mod k = P mod k + n"
        by (simp_all only: div_mult_self2 mod_mult_self2 div_less mod_less k less_imp_neq [THEN not_sym] add.right_neutral not_False_eq_True)
      then have dm: "(P + n) div k = P div k" "(P + n) mod k = P mod k + n"
        unfolding eq(2) [symmetric] .
      have "enc_rinv A v hdr d (P + n) e1"
        using e1(3) t1 hdr less.prems(3) dm \<open>n \<noteq> 0\<close>
        by (simp add: enc_in_block_def enc_rinv_def enc_rpos_def Let_def k_def)
      with e1 False \<open>n \<noteq> 0\<close> t1 blk [of n] less.prems(3) show ?thesis
        by (subst enc_read_loop.simps) (simp add: k_def [symmetric])
    qed
  qed
qed

lemma enc_rinv_pos [simp]: "enc_rinv A v hdr d P (e\<lparr>fDataPos := x\<rparr>) = enc_rinv A v hdr d P e"
  by (simp add: enc_rinv_def enc_rpos_def Let_def)

lemma enc_read_ok:
  assumes "aes_ok A" "enc_rinv A v hdr d (fDataPos e) e" "fDataSize e = length d"
    "fDataPos e + n \<le> length d" "length d < 2 ^ 32"
  shows "\<exists>e1. enc_read A n e = Inr (take n (drop (fDataPos e) d), e1) \<and>
     enc_rinv A v hdr d (fDataPos e1) e1 \<and> fDataPos e1 = fDataPos e + n \<and> fDataSize e1 = length d"
proof -
  from enc_read_loop_ok [OF assms(1,2,4), of "[]"] obtain e1 where
    e1: "enc_read_loop A n (fDataPos e mod szInc (fEType e)) [] e = Inr (take n (drop (fDataPos e) d), e1)"
      "enc_rinv A v hdr d (fDataPos e + n) e1" "enc_same e e1" by auto
  with assms(3-) show ?thesis
    by (simp add: enc_read_def enc_same_def)
qed

section \<open>The file that is written, and reading it\<close>

text \<open>A run of writes, and of reads.\<close>

fun enc_writes :: "aes_lib \<Rightarrow> bytes list \<Rightarrow> enc_stream \<Rightarrow> enc_stream result" where
  "enc_writes A [] e = Inr e"
| "enc_writes A (b # bs) e = rbind (enc_write A b e) (enc_writes A bs)"

fun enc_reads :: "aes_lib \<Rightarrow> nat list \<Rightarrow> enc_stream \<Rightarrow> bytes result" where
  "enc_reads A [] e = Inr []"
| "enc_reads A (n # ns) e = rbind (enc_read A n e) (\<lambda>(b, e1). rbind (enc_reads A ns e1) (\<lambda>bs. Inr (b @ bs)))"

definition enc_magic :: "enc_type \<Rightarrow> bytes" where
  "enc_magic t = (if t = kEncAES then le32 eoaMagic else if t = kEncDroid then liveMagic else uruMagic)"

definition enc_header :: "enc_type \<Rightarrow> nat \<Rightarrow> bytes" where
  "enc_header t n = enc_magic t @ le32 (word_of_nat n)"

definition enc_image :: "aes_lib \<Rightarrow> enc_type \<Rightarrow> u32 list \<Rightarrow> bytes \<Rightarrow> bytes" where
  "enc_image A t ks d = enc_header t (length d) @ ecb (szInc t) (cblock A t ks) d"

lemma length_enc_header [simp]: "length (enc_header t n) = hdrSize t"
  by (simp add: enc_header_def enc_magic_def hdrSize_def uruMagic_def liveMagic_def)

lemma enc_writes_inv:
  assumes "aes_ok A" "enc_winv A v q e" "length q + length (concat bss) < 2 ^ 32"
  shows "\<exists>e'. enc_writes A bss e = Inr e' \<and> enc_winv A v (q @ concat bss) e' \<and>
     fEType e' = fEType e \<and> fEKey e' = fEKey e \<and> fMode e' = fMode e"
  using assms(2,3)
proof (induction bss arbitrary: q e)
  case (Cons b bss)
  from enc_write_inv [OF assms(1) Cons.prems(1), of b] Cons.prems(2) obtain e1 where
    e1: "enc_write A b e = Inr e1" "enc_winv A v (q @ b) e1"
      "fEType e1 = fEType e" "fEKey e1 = fEKey e" "fMode e1 = fMode e" by auto
  with Cons.IH [OF e1(2)] Cons.prems(2) show ?case by auto
qed simp

lemma enc_reads_ok:
  assumes "aes_ok A" "length d < 2 ^ 32" "enc_rinv A v hdr d (fDataPos e) e" "fDataSize e = length d"
    "fDataPos e + sum_list ns \<le> length d"
  shows "enc_reads A ns e = Inr (take (sum_list ns) (drop (fDataPos e) d))"
  using assms(3-)
proof (induction ns arbitrary: e)
  case (Cons n ns)
  from enc_read_ok [OF assms(1) Cons.prems(1,2), of n] Cons.prems(3) assms(2) obtain e1 where
    e1: "enc_read A n e = Inr (take n (drop (fDataPos e) d), e1)"
      "enc_rinv A v hdr d (fDataPos e1) e1" "fDataPos e1 = fDataPos e + n" "fDataSize e1 = length d"
    by auto
  with Cons.IH [OF e1(2,4)] Cons.prems(3) show ?case
    by (simp add: take_add add.commute)
qed simp

lemma write_header:
  assumes "h = length m + 4"
  shows "io_then (st_seek 0) (io_then (st_write m) (writeInt n))
      \<lparr>s_ver = v, s_data = replicate h 0 @ r, s_pos = p\<rparr>
    = Inr ((), \<lparr>s_ver = v, s_data = m @ le32 n @ r, s_pos = h\<rparr>)"
  using assms
  by (simp add: io_simps st_seek_def st_write_def writeInt_def overwrite_def)

text \<open>Closing completes the last block and fills in the header.\<close>

lemma enc_close_image:
  assumes "aes_ok A" "enc_winv A v d e" "fMode e = fmCreate \<or> fMode e = fmWrite" "length d < 2 ^ 32"
    "isValid v"
  shows "\<exists>e' b. enc_close A e = Inr (e', Some b) \<and> fBase e' = None \<and>
     s_data b = enc_image A (fEType e) (fEKey e) d \<and> s_ver b = v"
proof -
  define t k f where "t = fEType e" and "k = szInc t" and "f = cblock A t (fEKey e)"
  have k: "0 < k" by (simp add: k_def)
  note inv = assms(2) [unfolded enc_winv_def Let_def, folded t_def, folded k_def f_def]
  let ?img = "replicate (hdrSize t) 0 @ ecb k f d"
  have "\<exists>e1 p. (if 0 < fDataPos e mod k then CryptFlush A e else Inr e) = Inr e1 \<and>
    fBase e1 = Some \<lparr>s_ver = v, s_data = ?img, s_pos = p\<rparr> \<and> fEType e1 = t \<and> fDataSize e1 = length d"
  proof (cases "part k d = []")
    case True
    then have "fDataPos e mod k = 0" using inv length_part [OF k, of d] by simp
    with True inv show ?thesis by (simp add: ecb_full_part [OF k] t_def)
  next
    case False
    then have "0 < length d mod k" using length_part [OF k, of d] by (metis length_greater_0_conv)
    then have nz: "fDataPos e mod k \<noteq> 0" using inv by simp
    let ?r = "part k d"
    have r: "length ?r < k" using k by simp
    have buf: "fLBuffer e = (?r @ replicate (k - length ?r) 0) @ replicate (16 - k) 0"
    proof -
      have "16 - length ?r = (k - length ?r) + (16 - k)" using r szInc_le_16 [of t, folded k_def] by linarith
      then show ?thesis using inv by (simp only: replicate_add append_assoc)
    qed
    have rk: "length (?r @ replicate (k - length ?r) 0) = szInc t"
      using r by (simp add: k_def [symmetric])
    have blk: "take k (block_encipher A t (fEKey e) (fLBuffer e)) = f (?r @ replicate (k - length ?r) 0)"
      unfolding buf k_def f_def
      by (rule cblock_props(2) [OF assms(1) rk [unfolded k_def]]) simp
    have "CryptFlush A e = Inr (e\<lparr>fBase := Some \<lparr>s_ver = v, s_data = ?img, s_pos = length ?img\<rparr>,
        fLBuffer := replicate 16 0\<rparr>)"
      using inv False blk by (simp add: CryptFlush_def st_write_def overwrite_append ecb_full_part [OF k]
            t_def [symmetric] k_def [symmetric] del: length_take)
    with nz inv show ?thesis by (simp add: t_def)
  qed
  then obtain e1 p where e1: "(if 0 < fDataPos e mod k then CryptFlush A e else Inr e) = Inr e1"
    "fBase e1 = Some \<lparr>s_ver = v, s_data = ?img, s_pos = p\<rparr>" "fEType e1 = t" "fDataSize e1 = length d"
    by blast
  have magic: "(if t = kEncAES then writeInt eoaMagic
      else if fEType e1 = kEncDroid then st_write liveMagic else st_write uruMagic)
      = st_write (enc_magic t)"
    by (simp add: enc_magic_def writeInt_def e1)
  have h: "hdrSize t = length (enc_magic t) + 4"
    using length_enc_header [of t 0] by (simp add: enc_header_def del: length_enc_header)
  obtain base where base: "fBase e = Some base" using inv by simp
  have "enc_close A e = Inr (e1\<lparr>fBase := None\<rparr>, Some \<lparr>s_ver = v,
      s_data = enc_magic t @ le32 (word_of_nat (length d)) @ ecb k f d, s_pos = hdrSize t\<rparr>)"
    using assms(3) [THEN disj_commute [THEN iffD1]] base
    by (simp add: enc_close_def t_def [symmetric] k_def [symmetric] e1 magic write_header [OF h]
        split del: if_split)
  then show ?thesis by (simp add: enc_image_def enc_header_def t_def k_def f_def)
qed

text \<open>The type \<open>open\<close> settles on.\<close>

definition enc_pick :: "enc_type \<Rightarrow> plasma_ver \<Rightarrow> enc_type result" where
  "enc_pick type v =
     (if type = kEncNone then Inl BadParamException
      else if type = kEncAuto then
        if \<not> isValid v then Inl BadVersionException
        else if v < MAKE_VERSION 2 0 69 0 then Inr kEncXtea
        else if isNewPlasma v then Inr kEncAES else Inr kEncDroid
      else Inr type)"

lemma enc_pick_concrete: "enc_pick type v = Inr t \<Longrightarrow> t = kEncXtea \<or> t = kEncAES \<or> t = kEncDroid"
  by (cases type) (auto simp: enc_pick_def split: if_splits)

lemma enc_open_create:
  assumes "enc_pick type v = Inr t"
  shows "\<exists>e. enc_open A \<lparr>s_ver = v, s_data = [], s_pos = 0\<rparr> fmCreate type (enc_setKey ks (enc_new pv)) = Inr e \<and>
     enc_winv A v [] e \<and> fEType e = t \<and> fMode e = fmCreate \<and> fEKey e = [ks ! 0, ks ! 1, ks ! 2, ks ! 3]"
  using assms
  by (auto simp: enc_pick_def enc_open_def enc_close_def enc_setKey_def enc_new_def st_write_def
      overwrite_append enc_winv_def Let_def split: if_splits)

lemma magics_differ:
  "un_le32 (take 4 uruMagic) \<noteq> eoaMagic" "un_le32 (take 4 liveMagic) \<noteq> eoaMagic"
  "liveMagic \<noteq> uruMagic" "liveMagic \<noteq> uruMagic2"
  by (simp_all add: uruMagic_def uruMagic2_def liveMagic_def eoaMagic_def)

lemma enc_open_image:
  assumes "t = kEncXtea \<or> t = kEncAES \<or> t = kEncDroid" "type \<noteq> kEncNone" "length d < 2 ^ 32"
    "ks' = [ks ! 0, ks ! 1, ks ! 2, ks ! 3]"
  shows "\<exists>e. enc_open A \<lparr>s_ver = v, s_data = enc_image A t ks' d, s_pos = 0\<rparr> fmRead type
       (enc_setKey ks (enc_new pv)) = Inr e \<and>
     enc_rinv A v (enc_header t (length d)) d 0 e \<and> fEType e = t \<and> fDataPos e = 0 \<and>
     fDataSize e = length d \<and> fMode e = fmRead"
proof -
  define img where "img = ecb (szInc t) (cblock A t ks') d"
  define S where "S = \<lparr>s_ver = v, s_data = enc_image A t ks' d, s_pos = 0\<rparr>"
  have data: "s_data S = enc_magic t @ le32 (word_of_nat (length d)) @ img"
    by (simp add: S_def enc_image_def enc_header_def img_def)
  have n: "unat (word_of_nat (length d) :: u32) = length d"
    using assms(3) by (simp add: unat_of_nat)
  have inv: "enc_rinv A v (enc_header t (length d)) d 0 e"
    if "fEType e = t" "fEKey e = ks'" "length (fLBuffer e) = 16"
      "fBase e = Some (S\<lparr>s_pos := hdrSize t\<rparr>)" for e
    using that by (simp add: enc_rinv_def enc_rpos_def Let_def S_def enc_image_def)
  have S: "s_ver S = v" "s_pos S = 0" "\<not> s_size S < 8"
    by (simp_all add: S_def s_size_def enc_image_def hdrSize_def)
  have "\<exists>e. enc_open A S fmRead type (enc_setKey ks (enc_new pv)) = Inr e \<and>
     enc_rinv A v (enc_header t (length d)) d 0 e \<and> fEType e = t \<and> fDataPos e = 0 \<and>
     fDataSize e = length d \<and> fMode e = fmRead"
  proof (cases "t = kEncAES")
    case True
    then have "readInt S = Inr (eoaMagic, S\<lparr>s_pos := 4\<rparr>)"
      "readInt (S\<lparr>s_pos := 4\<rparr>) = Inr (word_of_nat (length d), S\<lparr>s_pos := 8\<rparr>)"
      by (simp_all add: readInt_def io_simps st_read_def data S enc_magic_def)
    with True S n assms(2,4) inv show ?thesis
      by (simp add: enc_open_def enc_close_def enc_setKey_def enc_new_def hdrSize_def)
  next
    case False
    then have rd: "readInt S = Inr (un_le32 (take 4 (enc_magic t)), S\<lparr>s_pos := 4\<rparr>)"
      "io_then (st_seek 0) (st_read 12) (S\<lparr>s_pos := 4\<rparr>) = Inr (enc_magic t, S\<lparr>s_pos := 12\<rparr>)"
      "readInt (S\<lparr>s_pos := 12\<rparr>) = Inr (word_of_nat (length d), S\<lparr>s_pos := 16\<rparr>)"
      by (simp_all add: readInt_def io_simps st_read_def st_seek_def data S enc_magic_def
            uruMagic_def liveMagic_def)
    have "t = kEncXtea \<or> t = kEncDroid" using assms(1) False by simp
    then show ?thesis
    proof
      assume "t = kEncXtea"
      with rd S n assms(2,4) inv magics_differ show ?thesis
        by (simp add: enc_open_def enc_close_def enc_setKey_def enc_new_def hdrSize_def enc_magic_def)
    next
      assume "t = kEncDroid"
      with rd S n assms(2,4) inv magics_differ show ?thesis
        by (simp add: enc_open_def enc_close_def enc_setKey_def enc_new_def hdrSize_def enc_magic_def)
    qed
  qed
  then show ?thesis by (simp add: S_def)
qed

lemma enc_write_close_read:
  assumes "aes_ok A" "isValid v" "enc_pick type v = Inr t" "length (concat bss) < 2 ^ 32"
    "sum_list ns \<le> length (concat bss)" "rtype \<noteq> kEncNone"
  shows "\<exists>e1 e2 e3 b e4.
     enc_open A \<lparr>s_ver = v, s_data = [], s_pos = 0\<rparr> fmCreate type (enc_setKey ks (enc_new pv)) = Inr e1 \<and>
     enc_writes A bss e1 = Inr e2 \<and> enc_close A e2 = Inr (e3, Some b) \<and>
     s_data b = enc_image A t [ks ! 0, ks ! 1, ks ! 2, ks ! 3] (concat bss) \<and>
     enc_open A (b\<lparr>s_pos := 0\<rparr>) fmRead rtype (enc_setKey ks (enc_new pv')) = Inr e4 \<and>
     fEType e4 = t \<and> fDataSize e4 = length (concat bss) \<and>
     enc_reads A ns e4 = Inr (take (sum_list ns) (concat bss))"
proof -
  let ?d = "concat bss" and ?ks = "[ks ! 0, ks ! 1, ks ! 2, ks ! 3]"
  obtain e1 where e1:
    "enc_open A \<lparr>s_ver = v, s_data = [], s_pos = 0\<rparr> fmCreate type (enc_setKey ks (enc_new pv)) = Inr e1"
    "enc_winv A v [] e1" "fEType e1 = t" "fMode e1 = fmCreate" "fEKey e1 = ?ks"
    using enc_open_create [OF assms(3)] by blast
  obtain e2 where e2: "enc_writes A bss e1 = Inr e2" "enc_winv A v ?d e2" "fEType e2 = t"
    "fMode e2 = fmCreate" "fEKey e2 = ?ks"
    using enc_writes_inv [OF assms(1) e1(2), of bss] assms(4) e1 by auto
  obtain e3 b where b: "enc_close A e2 = Inr (e3, Some b)" "s_data b = enc_image A t ?ks ?d" "s_ver b = v"
    using enc_close_image [OF assms(1) e2(2) _ assms(4,2)] e2 by auto
  have "b\<lparr>s_pos := 0\<rparr> = \<lparr>s_ver = v, s_data = enc_image A t ?ks ?d, s_pos = 0\<rparr>"
    using b by (cases b) simp
  with enc_open_image [OF enc_pick_concrete [OF assms(3)] assms(6,4) refl]
  obtain e4 where e4: "enc_open A (b\<lparr>s_pos := 0\<rparr>) fmRead rtype (enc_setKey ks (enc_new pv')) = Inr e4"
    "enc_rinv A v (enc_header t (length ?d)) ?d (fDataPos e4) e4" "fEType e4 = t" "fDataPos e4 = 0"
    "fDataSize e4 = length ?d" by fastforce
  have "enc_reads A ns e4 = Inr (take (sum_list ns) ?d)"
    using enc_reads_ok [OF assms(1,4) e4(2,5), of ns] e4(4) assms(5) by simp
  with e1(1) e2(1) b(1,2) e4(1,3,5) show ?thesis by blast
qed

section \<open>Properties\<close>

text \<open>C2: Data written to an encrypted file, in any pieces, and read back through a new encrypted
  stream with the same key, in any pieces, is the same data, for XTEA, AES and Droid alike, for any
  key, and for the type \<open>open\<close> picks by itself from the version.  The file is the header and the
  data enciphered block by block, the last block filled up with zeros.\<close>

theorem encrypted_file_roundtrip:
  assumes "aes_ok A" "isValid v" "enc_pick type v = Inr t" "length (concat bss) < 2 ^ 32"
    and "sum_list ns \<le> length (concat bss)" "rtype \<noteq> kEncNone"
  shows "\<exists>e1 e2 e3 b e4.
     enc_open A \<lparr>s_ver = v, s_data = [], s_pos = 0\<rparr> fmCreate type (enc_setKey ks (enc_new pv)) = Inr e1 \<and>
     enc_writes A bss e1 = Inr e2 \<and> enc_close A e2 = Inr (e3, Some b) \<and>
     s_data b = enc_image A t [ks ! 0, ks ! 1, ks ! 2, ks ! 3] (concat bss) \<and>
     enc_open A (b\<lparr>s_pos := 0\<rparr>) fmRead rtype (enc_setKey ks (enc_new pv')) = Inr e4 \<and>
     fEType e4 = t \<and> fDataSize e4 = length (concat bss) \<and>
     enc_reads A ns e4 = Inr (take (sum_list ns) (concat bss))"
  by (rule enc_write_close_read [OF assms])

theorem encrypted_file_roundtrip_witness:
  "\<exists>A e1 e2 e3 b e4.
     enc_open A \<lparr>s_ver = pvMoul, s_data = [], s_pos = 0\<rparr> fmCreate kEncAuto (enc_setKey uruKey (enc_new pvMoul)) = Inr e1 \<and>
     enc_writes A [[1, 2, 3, 4, 5], [6, 7, 8, 9]] e1 = Inr e2 \<and> enc_close A e2 = Inr (e3, Some b) \<and>
     enc_open A (b\<lparr>s_pos := 0\<rparr>) fmRead kEncAuto (enc_setKey uruKey (enc_new pvMoul)) = Inr e4 \<and>
     fEType e4 = kEncDroid \<and> enc_reads A [4, 5] e4 = Inr [1, 2, 3, 4, 5, 6, 7, 8, 9]"
proof -
  let ?A = "\<lparr>aes_encrypt = rev, aes_decrypt = rev\<rparr>"
  have "aes_ok ?A" "isValid pvMoul" "enc_pick kEncAuto pvMoul = Inr kEncDroid"
    by (simp_all add: aes_ok_def ver_eval enc_pick_def)
  from encrypted_file_roundtrip [OF this, of "[[1, 2, 3, 4, 5], [6, 7, 8, 9]]" "[4, 5]" kEncAuto uruKey pvMoul pvMoul]
  show ?thesis by simp blast
qed

text \<open>A read that would pass the recorded size fails, whatever the base stream holds.\<close>

theorem encrypted_read_bounded:
  assumes "fDataPos e + n > fDataSize e"
  shows "enc_read A n e = Inl FileReadException"
  using assms by (simp add: enc_read_def)

theorem encrypted_read_bounded_witness:
  "enc_read \<lparr>aes_encrypt = rev, aes_decrypt = rev\<rparr> 1 (enc_new pvMoul) = Inl FileReadException"
  by (rule encrypted_read_bounded) (simp add: enc_new_def)

text \<open>Asking whether a file is encrypted fails, instead of answering no, for a plain file of 8 to
  11 bytes.\<close>

theorem is_encrypted_short_file:
  assumes "8 \<le> length d" "length d < 12" "take 4 d \<noteq> le32 eoaMagic"
  shows "IsFileEncrypted \<lparr>s_ver = v, s_data = d, s_pos = 0\<rparr> = Inl FileReadException"
proof -
  have "un_le32 (take 4 d) \<noteq> eoaMagic"
  proof
    assume eq: "un_le32 (take 4 d) = eoaMagic"
    have "length (take 4 d) = 4" using assms(1) by simp
    from le32_un_le32 [OF this] have "le32 eoaMagic = take 4 d" by (simp only: eq)
    with assms(3) show False by simp
  qed
  with assms(1,2) show ?thesis
    by (simp add: IsFileEncrypted_def s_size_def readInt_def io_simps st_read_def st_seek_def)
qed

theorem is_encrypted_short_file_witness:
  "IsFileEncrypted \<lparr>s_ver = pvMoul, s_data = replicate 10 0, s_pos = 0\<rparr> = Inl FileReadException"
proof -
  have "take 4 (replicate 10 (0 :: u8)) \<noteq> le32 eoaMagic" by code_simp
  then show ?thesis by (rule is_encrypted_short_file [rotated 2]) simp_all
qed

end
