(* ===== verification/TypeTables.thy ===== *)
theory TypeTables
  imports Prelude
begin

text \<open>
  The class tables of \<open>pdUnifiedTypeMap\<close> (\<open>src/core/ResManager/pdUnifiedTypeMap.cpp\<close>), entry by
  entry: for each of the five families of engine versions the table \<open>M2P\<close> from the library's own
  class indices to that engine's, the table \<open>P2M\<close> back, and for the versioned formats the table of
  class versions.  \<open>-1\<close> marks a class the engine does not have.

  A table is also written as its runs of consecutive entries (\<open>seg_list\<close>), which the proofs about
  the tables compute with; every \<open>runs\<close> lemma states that the runs are the table.
\<close>

section \<open>Runs\<close>

fun run :: "int \<Rightarrow> nat \<Rightarrow> int list" where
  "run v 0 = []"
| "run v (Suc n) = v # run (v + 1) n"

lemma run_numeral: "run v (numeral k) = v # run (v + 1) (pred_numeral k)"
  by (simp add: numeral_eq_Suc)

fun seg_list :: "(int \<times> nat) list \<Rightarrow> int list" where
  "seg_list [] = []"
| "seg_list ((v, n) # r) = (if v < 0 then replicate n v else run v n) @ seg_list r"

lemma replicate_num: "replicate (numeral k) x = x # replicate (pred_numeral k) x"
  by (simp add: numeral_eq_Suc)

lemma seg_list_neg: "seg_list ((- numeral v, n) # r) = replicate n (- numeral v) @ seg_list r"
  "seg_list ((0, n) # r) = run 0 n @ seg_list r" "seg_list ((1, n) # r) = run 1 n @ seg_list r"
  "seg_list ((numeral v, n) # r) = run (numeral v) n @ seg_list r"
  "seg_list ((- 1, n) # r) = replicate n (- 1) @ seg_list r"
  by simp_all

lemma run_one: "run v 1 = [v]" "replicate 1 v = [v]"
  by simp_all

lemmas seg_eval = concat.simps seg_list.simps(1) seg_list_neg run.simps(1) run_numeral run_one
  replicate_num replicate_0 append_Cons append_Nil pred_numeral_simps
  num.simps BitM.simps add_num_simps numeral_plus_one one_add_one add_0 one_plus_numeral

section \<open>\<open>fUruM2PTable\<close>\<close>

definition fUruM2PTable :: "int list" where
  "fUruM2PTable = concat [
    [0, 1, 2, 3, 4, 5, 6, 7, 8],
    [9, 10, 11, 12, 13, 14, 15, 16, 17],
    [18, 19, 20, 21, 22, 23, 24, 25, 26],
    [27, 28, 155, 30, 31, 32, 33, 34, 35],
    [36, 37, 38, 39, 40, 41, 42, 43, 44],
    [45, 46, 47, 48, 49, 50, 51, 52, 53],
    [54, 55, 56, 57, 58, 59, 60, 61, 62],
    [63, 64, 65, 66, 67, 68, 69, 70, 71],
    [72, 73, 74, 75, 76, 77, 78, 79, 80],
    [81, 82, 83, 84, 85, 86, 87, 88, 89],
    [90, 91, 92, 93, 94, 95, 96, 97, 98],
    [99, 100, 101, 102, 103, 104, 105, 106, 107],
    [108, 109, 110, 111, 112, 113, 114, 115, 116],
    [117, 118, 119, 120, 121, 122, 123, 124, 125],
    [126, 127, 128, 129, 130, 131, 132, 133, 134],
    [135, 136, 137, 138, 139, 140, 141, 142, 143],
    [144, 145, 146, 147, 148, 149, 150, 151, 152],
    [153, 154, 155, 156, 157, 158, 159, 160, 161],
    [162, 163, 164, 165, 166, 167, 168, 169, 170],
    [171, 172, 173, 174, 175, 176, 177, 178, 179],
    [180, 181, 182, 183, 184, 185, 186, 187, 188],
    [189, 190, 191, 192, 193, 194, 195, 196, 197],
    [198, 199, 200, 201, 202, 203, 204, 205, 206],
    [207, 208, 209, 210, 211, 212, 213, 214, 215],
    [216, 217, 218, 219, 220, 221, 222, 223, 224],
    [225, 226, 227, 228, 229, 230, 231, 232, 233],
    [234, 235, 236, 237, 238, 239, 240, 241, 242],
    [243, 244, 245, 246, 247, 248, 249, 250, 251],
    [252, 253, 254, 255, 256, 257, 258, 259, 260],
    [261, 262, 263, 264, 265, 266, 267, 268, 269],
    [270, 271, 272, 273, 274, 275, 276, 277, 278],
    [279, 280, 281, 282, 283, 284, 285, 286, 287],
    [288, 289, 290, 291, 292, 293, 294, 295, 296],
    [297, 298, 299, 300, 301, 302, -1, -1, -1],
    [-1, -1, -1, -1, -1, -1, -1, -1, -1],
    [-1, -1, -1, -1, -1, -1, -1, -1, -1],
    [-1, -1, -1, -1, -1, -1, -1, -1, -1],
    [-1, -1, -1, -1, -1, -1, -1, -1, -1],
    [-1, -1, -1, -1, -1, -1, -1, -1, -1],
    [-1, -1, -1, -1, -1, -1, -1, -1, -1],
    [-1, -1, -1, -1, -1, -1, -1, -1, -1],
    [-1, -1, -1, -1, -1, -1, -1, -1, -1],
    [-1, -1, -1, -1, -1, -1, -1, -1, -1],
    [-1, -1, -1, -1, -1, -1, -1, -1, -1],
    [-1, -1, -1, -1, -1, -1, -1, -1, -1],
    [-1, -1, -1, -1, -1, -1, -1, -1, -1],
    [-1, -1, -1, -1, -1, -1, -1, -1, -1],
    [-1, -1, -1, -1, -1, -1, -1, -1, -1],
    [-1, -1, -1, -1, -1, -1, -1, -1, -1],
    [-1, -1, -1, -1, -1, -1, -1, -1, -1],
    [-1, -1, -1, -1, -1, -1, -1, -1, -1],
    [-1, -1, -1, -1, -1, -1, -1, -1, -1],
    [-1, -1, -1, -1, -1, -1, -1, -1, -1],
    [-1, -1, -1, -1, -1, -1, -1, -1, -1],
    [-1, -1, -1, -1, -1, -1, -1, -1, -1],
    [-1, -1, -1, -1, -1, -1, -1, -1, -1],
    [-1, -1, -1, -1, -1, -1, -1, -1, 512],
    [513, 514, 515, 516, 517, 518, 519, 520, 521],
    [522, 523, 524, 525, 526, 527, 528, 529, 530],
    [531, 532, 533, -1, 535, 536, 537, 538, 539],
    [540, 541, 542, 543, 544, 545, 546, 547, 548],
    [549, 550, 551, 552, 553, 554, 555, 556, 557],
    [558, 559, 560, 561, 562, 563, 564, 565, 566],
    [567, 568, 569, 570, 571, 572, 573, 574, 575],
    [576, 577, 578, 579, 580, 581, 582, 583, 584],
    [585, 586, 587, 588, 589, 590, 591, 592, 593],
    [594, 595, 596, 597, 598, 599, 600, 601, 602],
    [603, 604, 605, 606, 607, 608, 609, 610, 611],
    [612, 613, 614, 615, 616, 617, 618, 619, 620],
    [621, 622, 623, 624, 625, 626, 627, 628, 629],
    [630, 631, 632, 633, 634, 635, 636, 637, 638],
    [639, 640, 641, 642, 643, 644, 645, 646, 647],
    [648, 649, 650, 651, 652, 653, 654, 655, 656],
    [657, 658, 659, 660, 661, 662, 663, 664, 665],
    [666, 667, 668, 669, 670, 671, 672, 673, 674],
    [675, 676, 677, 678, 679, 680, 681, 682, 683],
    [684, 685, 686, 687, 688, 689, 690, 691, 692],
    [693, 694, 695, 696, 697, 698, 699, 700, 701],
    [702, 703, 704, 705, 706, 707, 708, 709, 710],
    [711, 712, 713, 714, 715, 716, 717, 718, 719],
    [720, 721, 722, 723, 724, 725, 726, 727, 728],
    [729, 730, 731, 732, 733, 734, 735, 736, 737],
    [738, 739, 740, 741, 742, 743, 744, 745, 746],
    [747, 748, 749, 750, 751, 752, 753, 754, 755],
    [756, 757, 758, 759, 760, 761, 762, 763, 764],
    [765, 766, 767, 768, 769, 770, 771, 772, 773],
    [774, 775, 776, 777, 778, 779, 780, 781, 782],
    [783, 784, 785, 786, 787, 788, 789, 790, 791],
    [792, 793, 794, 795, 796, 797, 798, 799, 800],
    [801, 802, 803, 804, 805, 806, 807, 808, 809],
    [810, 811, 812, 813, 814, 815, 816, 817, 818],
    [819, 820, 821, 822, 823, 824, 825, 826, 827],
    [828, 829, 830, 831, 832, 833, 834, 835, 836],
    [837, 838, 839, 840, 841, 842, 843, 844, 845],
    [846, 847, 848, 849, 850, 851, 852, 853, -1],
    [855, 856, 857, 858, 859, 860, 861, 862, 863],
    [864, 865, 866, 867, 868, 869, 870, 871, 872],
    [873, 874, 875, 876, 877, 878, 879, 880, 881],
    [882, 883, 884, 885, 886, 887, 888, 889, 890],
    [891, 892, 893, 894, 895, 896, 897, 898, 899],
    [900, 901, 902, 903, 904, 905, 906, 907, 908],
    [909, 910, 911, 912, 913, 914, 915, 916, 917],
    [918, 919, 920, 921, 922, 923, 924, 925, 926],
    [927, 928, 929, 930, 931, 932, 933, 934, 935],
    [936, 937, 938, 939, 940, 941, 942, 943, 944],
    [945, 946, 947, 948, 949, 950, 951, 952, 953],
    [954, 955, 854, -1, -1, 534, -1, -1, -1],
    [-1, -1, -1, -1, -1, -1, -1, -1, -1],
    [-1, -1, -1, -1, -1, -1, -1, -1, -1],
    [-1, -1, -1, -1, -1, -1, -1, -1, -1],
    [-1, -1, -1, -1, -1, -1, -1, -1, -1],
    [-1, -1, -1, -1, -1, -1, -1, -1, -1],
    [-1, -1, -1, -1, -1, -1, -1, -1, -1],
    [-1, -1, -1, -1, -1, -1, -1, -1, -1],
    [-1, -1, -1, -1, -1, -1, -1, -1, -1],
    [-1, -1, -1, -1, -1, -1, -1, -1, -1],
    [-1, -1, -1, -1, -1, -1, -1, -1, -1],
    [-1, -1, -1, -1, 1057, 1058, 1059, 1060, 1061],
    [1062, 1063, 1064, 1065, 1066, 1067, 1068, 1069, 1070],
    [1071, 1072, 1073, 1074, 1075, 1076, 1077, 1078, 1079],
    [1080, 1081, 1082, 1083, 1084, 1085, 1086, 1087, 1088],
    [1089, 1090, 1091, 1092, 1093, 1094, 1095, 1096, 1097],
    [1098, 1099, 1100, 1101, 1102, 1103, 1104, 1105, 1106],
    [1107, 1108, 1109, 1110, 1111, 1112, 1113, 1114, 1115],
    [1116, 1117, 1118, 1119, 1120, 1121, 1122, 1123, 1124],
    [1125, 1126, 1127, 1128, 1129, 1130, 1131, 1132, 1133],
    [1134, 1135, 1136, 1137, 1138, 1139, 1140, 1141, 1142],
    [1143, 1144, 1145, 1146, 1147, 1148, 1149, 1150, 1151],
    [1152, 1153, 1154, 1155, 1156, 1157, 1158, 1159, 1160],
    [1161, 1162, 1163, 1164, 1165, 1166, 1167, 1168, 1169],
    [1170, -1, -1, -1, -1, -1, -1, -1, -1],
    [-1, -1, -1, -1, -1, -1, -1, -1, -1],
    [-1, -1, -1, -1, -1, -1, -1, -1, -1],
    [-1, -1, -1, -1, -1, -1, -1, -1, -1],
    [-1, -1, -1, -1, -1, -1, -1, -1, -1],
    [-1, -1, -1, -1, -1, -1, -1, -1, -1],
    [-1, -1, -1, -1, -1, -1, -1, -1, -1],
    [-1, -1, -1, -1, -1, -1, -1, -1, -1],
    [-1, -1, -1, -1, -1, -1, -1, -1, -1],
    [-1, -1, -1, -1, -1, -1, -1, -1, -1],
    [-1, -1, -1, -1, -1, -1, -1, -1, -1],
    [-1, -1, -1, -1, -1, -1, -1, -1, -1],
    [-1, -1]]"

definition runs_UruM2P :: "(int \<times> nat) list" where
  "runs_UruM2P = [
    (0,29), (155,1), (30,273), (-1,209), (512,22), (-1,1), (535,319), (-1,1), (855,101),
    (854,1), (-1,2), (534,1), (-1,97), (1057,114), (-1,109)]"

lemma fUruM2PTable_runs: "fUruM2PTable = seg_list runs_UruM2P"
  unfolding fUruM2PTable_def runs_UruM2P_def by (simp only: seg_eval)

section \<open>\<open>fUruP2MTable\<close>\<close>

definition fUruP2MTable :: "int list" where
  "fUruP2MTable = concat [
    [0, 1, 2, 3, 4, 5, 6, 7, 8],
    [9, 10, 11, 12, 13, 14, 15, 16, 17],
    [18, 19, 20, 21, 22, 23, 24, 25, 26],
    [27, 28, 29, 30, 31, 32, 33, 34, 35],
    [36, 37, 38, 39, 40, 41, 42, 43, 44],
    [45, 46, 47, 48, 49, 50, 51, 52, 53],
    [54, 55, 56, 57, 58, 59, 60, 61, 62],
    [63, 64, 65, 66, 67, 68, 69, 70, 71],
    [72, 73, 74, 75, 76, 77, 78, 79, 80],
    [81, 82, 83, 84, 85, 86, 87, 88, 89],
    [90, 91, 92, 93, 94, 95, 96, 97, 98],
    [99, 100, 101, 102, 103, 104, 105, 106, 107],
    [108, 109, 110, 111, 112, 113, 114, 115, 116],
    [117, 118, 119, 120, 121, 122, 123, 124, 125],
    [126, 127, 128, 129, 130, 131, 132, 133, 134],
    [135, 136, 137, 138, 139, 140, 141, 142, 143],
    [144, 145, 146, 147, 148, 149, 150, 151, 152],
    [153, 154, 29, 156, 157, 158, 159, 160, 161],
    [162, 163, 164, 165, 166, 167, 168, 169, 170],
    [171, 172, 173, 174, 175, 176, 177, 178, 179],
    [180, 181, 182, 183, 184, 185, 186, 187, 188],
    [189, 190, 191, 192, 193, 194, 195, 196, 197],
    [198, 199, 200, 201, 202, 203, 204, 205, 206],
    [207, 208, 209, 210, 211, 212, 213, 214, 215],
    [216, 217, 218, 219, 220, 221, 222, 223, 224],
    [225, 226, 227, 228, 229, 230, 231, 232, 233],
    [234, 235, 236, 237, 238, 239, 240, 241, 242],
    [243, 244, 245, 246, 247, 248, 249, 250, 251],
    [252, 253, 254, 255, 256, 257, 258, 259, 260],
    [261, 262, 263, 264, 265, 266, 267, 268, 269],
    [270, 271, 272, 273, 274, 275, 276, 277, 278],
    [279, 280, 281, 282, 283, 284, 285, 286, 287],
    [288, 289, 290, 291, 292, 293, 294, 295, 296],
    [297, 298, 299, 300, 301, 302, -1, -1, -1],
    [-1, -1, -1, -1, -1, -1, -1, -1, -1],
    [-1, -1, -1, -1, -1, -1, -1, -1, -1],
    [-1, -1, -1, -1, -1, -1, -1, -1, -1],
    [-1, -1, -1, -1, -1, -1, -1, -1, -1],
    [-1, -1, -1, -1, -1, -1, -1, -1, -1],
    [-1, -1, -1, -1, -1, -1, -1, -1, -1],
    [-1, -1, -1, -1, -1, -1, -1, -1, -1],
    [-1, -1, -1, -1, -1, -1, -1, -1, -1],
    [-1, -1, -1, -1, -1, -1, -1, -1, -1],
    [-1, -1, -1, -1, -1, -1, -1, -1, -1],
    [-1, -1, -1, -1, -1, -1, -1, -1, -1],
    [-1, -1, -1, -1, -1, -1, -1, -1, -1],
    [-1, -1, -1, -1, -1, -1, -1, -1, -1],
    [-1, -1, -1, -1, -1, -1, -1, -1, -1],
    [-1, -1, -1, -1, -1, -1, -1, -1, -1],
    [-1, -1, -1, -1, -1, -1, -1, -1, -1],
    [-1, -1, -1, -1, -1, -1, -1, -1, -1],
    [-1, -1, -1, -1, -1, -1, -1, -1, -1],
    [-1, -1, -1, -1, -1, -1, -1, -1, -1],
    [-1, -1, -1, -1, -1, -1, -1, -1, -1],
    [-1, -1, -1, -1, -1, -1, -1, -1, -1],
    [-1, -1, -1, -1, -1, -1, -1, -1, -1],
    [-1, -1, -1, -1, -1, -1, -1, -1, 512],
    [513, 514, 515, 516, 517, 518, 519, 520, 521],
    [522, 523, 524, 525, 526, 527, 528, 529, 530],
    [531, 532, 533, 959, 535, 536, 537, 538, 539],
    [540, 541, 542, 543, 544, 545, 546, 547, 548],
    [549, 550, 551, 552, 553, 554, 555, 556, 557],
    [558, 559, 560, 561, 562, 563, 564, 565, 566],
    [567, 568, 569, 570, 571, 572, 573, 574, 575],
    [576, 577, 578, 579, 580, 581, 582, 583, 584],
    [585, 586, 587, 588, 589, 590, 591, 592, 593],
    [594, 595, 596, 597, 598, 599, 600, 601, 602],
    [603, 604, 605, 606, 607, 608, 609, 610, 611],
    [612, 613, 614, 615, 616, 617, 618, 619, 620],
    [621, 622, 623, 624, 625, 626, 627, 628, 629],
    [630, 631, 632, 633, 634, 635, 636, 637, 638],
    [639, 640, 641, 642, 643, 644, 645, 646, 647],
    [648, 649, 650, 651, 652, 653, 654, 655, 656],
    [657, 658, 659, 660, 661, 662, 663, 664, 665],
    [666, 667, 668, 669, 670, 671, 672, 673, 674],
    [675, 676, 677, 678, 679, 680, 681, 682, 683],
    [684, 685, 686, 687, 688, 689, 690, 691, 692],
    [693, 694, 695, 696, 697, 698, 699, 700, 701],
    [702, 703, 704, 705, 706, 707, 708, 709, 710],
    [711, 712, 713, 714, 715, 716, 717, 718, 719],
    [720, 721, 722, 723, 724, 725, 726, 727, 728],
    [729, 730, 731, 732, 733, 734, 735, 736, 737],
    [738, 739, 740, 741, 742, 743, 744, 745, 746],
    [747, 748, 749, 750, 751, 752, 753, 754, 755],
    [756, 757, 758, 759, 760, 761, 762, 763, 764],
    [765, 766, 767, 768, 769, 770, 771, 772, 773],
    [774, 775, 776, 777, 778, 779, 780, 781, 782],
    [783, 784, 785, 786, 787, 788, 789, 790, 791],
    [792, 793, 794, 795, 796, 797, 798, 799, 800],
    [801, 802, 803, 804, 805, 806, 807, 808, 809],
    [810, 811, 812, 813, 814, 815, 816, 817, 818],
    [819, 820, 821, 822, 823, 824, 825, 826, 827],
    [828, 829, 830, 831, 832, 833, 834, 835, 836],
    [837, 838, 839, 840, 841, 842, 843, 844, 845],
    [846, 847, 848, 849, 850, 851, 852, 853, 956],
    [855, 856, 857, 858, 859, 860, 861, 862, 863],
    [864, 865, 866, 867, 868, 869, 870, 871, 872],
    [873, 874, 875, 876, 877, 878, 879, 880, 881],
    [882, 883, 884, 885, 886, 887, 888, 889, 890],
    [891, 892, 893, 894, 895, 896, 897, 898, 899],
    [900, 901, 902, 903, 904, 905, 906, 907, 908],
    [909, 910, 911, 912, 913, 914, 915, 916, 917],
    [918, 919, 920, 921, 922, 923, 924, 925, 926],
    [927, 928, 929, 930, 931, 932, 933, 934, 935],
    [936, 937, 938, 939, 940, 941, 942, 943, 944],
    [945, 946, 947, 948, 949, 950, 951, 952, 953],
    [954, 955, -1, -1, -1, -1, -1, -1, -1],
    [-1, -1, -1, -1, -1, -1, -1, -1, -1],
    [-1, -1, -1, -1, -1, -1, -1, -1, -1],
    [-1, -1, -1, -1, -1, -1, -1, -1, -1],
    [-1, -1, -1, -1, -1, -1, -1, -1, -1],
    [-1, -1, -1, -1, -1, -1, -1, -1, -1],
    [-1, -1, -1, -1, -1, -1, -1, -1, -1],
    [-1, -1, -1, -1, -1, -1, -1, -1, -1],
    [-1, -1, -1, -1, -1, -1, -1, -1, -1],
    [-1, -1, -1, -1, -1, -1, -1, -1, -1],
    [-1, -1, -1, -1, -1, -1, -1, -1, -1],
    [-1, -1, -1, -1, 1057, 1058, 1059, 1060, 1061],
    [1062, 1063, 1064, 1065, 1066, 1067, 1068, 1069, 1070],
    [1071, 1072, 1073, 1074, 1075, 1076, 1077, 1078, 1079],
    [1080, 1081, 1082, 1083, 1084, 1085, 1086, 1087, 1088],
    [1089, 1090, 1091, 1092, 1093, 1094, 1095, 1096, 1097],
    [1098, 1099, 1100, 1101, 1102, 1103, 1104, 1105, 1106],
    [1107, 1108, 1109, 1110, 1111, 1112, 1113, 1114, 1115],
    [1116, 1117, 1118, 1119, 1120, 1121, 1122, 1123, 1124],
    [1125, 1126, 1127, 1128, 1129, 1130, 1131, 1132, 1133],
    [1134, 1135, 1136, 1137, 1138, 1139, 1140, 1141, 1142],
    [1143, 1144, 1145, 1146, 1147, 1148, 1149, 1150, 1151],
    [1152, 1153, 1154, 1155, 1156, 1157, 1158, 1159, 1160],
    [1161, 1162, 1163, 1164, 1165, 1166, 1167, 1168, 1169],
    [1170, -1, -1, -1, -1, -1, -1, -1, -1],
    [-1, -1, -1, -1, -1, -1, -1, -1, -1],
    [-1, -1, -1, -1, -1, -1, -1, -1, -1],
    [-1, -1, -1, -1, -1, -1, -1, -1, -1],
    [-1, -1, -1, -1, -1, -1, -1, -1, -1],
    [-1, -1, -1, -1, -1, -1, -1, -1, -1],
    [-1, -1, -1, -1, -1, -1, -1, -1, -1],
    [-1, -1, -1, -1, -1, -1, -1, -1, -1],
    [-1, -1, -1, -1, -1, -1, -1, -1, -1],
    [-1, -1, -1, -1, -1, -1, -1, -1, -1],
    [-1, -1, -1, -1, -1, -1, -1, -1, -1],
    [-1, -1, -1, -1, -1, -1, -1, -1, -1],
    [-1, -1]]"

definition runs_UruP2M :: "(int \<times> nat) list" where
  "runs_UruP2M = [
    (0,155), (29,1), (156,147), (-1,209), (512,22), (959,1), (535,319), (956,1), (855,101),
    (-1,101), (1057,114), (-1,109)]"

lemma fUruP2MTable_runs: "fUruP2MTable = seg_list runs_UruP2M"
  unfolding fUruP2MTable_def runs_UruP2M_def by (simp only: seg_eval)

section \<open>\<open>fPotSM2PTable\<close>\<close>

definition fPotSM2PTable :: "int list" where
  "fPotSM2PTable = concat [
    [0, 1, 2, 3, 4, 5, 6, 7, 8],
    [9, 10, 11, 12, 13, 14, 15, 16, 17],
    [18, 19, 20, 21, 22, 23, 24, 25, 26],
    [27, 28, 155, 30, 31, 32, 33, 34, 35],
    [36, 37, 38, 39, 40, 41, 42, 43, 44],
    [45, 46, 47, 48, 49, 50, 51, 52, 53],
    [54, 55, 56, 57, 58, 59, 60, 61, 62],
    [63, 64, 65, 66, 67, 68, 69, 70, 71],
    [72, 73, 74, 75, 76, 77, 78, 79, 80],
    [81, 82, 83, 84, 85, 86, 87, 88, 89],
    [90, 91, 92, 93, 94, 95, 96, 97, 98],
    [99, 100, 101, 102, 103, 104, 105, 106, 107],
    [108, 109, 110, 111, 112, 113, 114, 115, 116],
    [117, 118, 119, 120, 121, 122, 123, 124, 125],
    [126, 127, 128, 129, 130, 131, 132, 133, 134],
    [135, 136, 137, 138, 139, 140, 141, 142, 143],
    [144, 145, 146, 147, 148, 149, 150, 151, 152],
    [153, 154, 155, 156, 157, 158, 159, 160, 161],
    [162, 163, 164, 165, 166, 167, 168, 169, 170],
    [171, 172, 173, 174, 175, 176, 177, 178, 179],
    [180, 181, 182, 183, 184, 185, 186, 187, 188],
    [189, 190, 191, 192, 193, 194, 195, 196, 197],
    [198, 199, 200, 201, 202, 203, 204, 205, 206],
    [207, 208, 209, 210, 211, 212, 213, 214, 215],
    [216, 217, 218, 219, 220, 221, 222, 223, 224],
    [225, 226, 227, 228, 229, 230, 231, 232, 233],
    [234, 235, 236, 237, 238, 239, 240, 241, 242],
    [243, 244, 245, 246, 247, 248, 249, 250, 251],
    [252, 253, 254, 255, 256, 257, 258, 259, 260],
    [261, 262, 263, 264, 265, 266, 267, 268, 269],
    [270, 271, 272, 273, 274, 275, 276, 277, 278],
    [279, 280, 281, 282, 283, 284, 285, 286, 287],
    [288, 289, 290, 291, 292, 293, 294, 295, 296],
    [297, 298, 299, 300, 301, 302, 303, 304, 305],
    [306, 307, 308, 309, 310, -1, -1, -1, -1],
    [-1, -1, -1, -1, -1, -1, -1, -1, -1],
    [-1, -1, -1, -1, -1, -1, -1, -1, -1],
    [-1, -1, -1, -1, -1, -1, -1, -1, -1],
    [-1, -1, -1, -1, -1, -1, -1, -1, -1],
    [-1, -1, -1, -1, -1, -1, -1, -1, -1],
    [-1, -1, -1, -1, -1, -1, -1, -1, -1],
    [-1, -1, -1, -1, -1, -1, -1, -1, -1],
    [-1, -1, -1, -1, -1, -1, -1, -1, -1],
    [-1, -1, -1, -1, -1, -1, -1, -1, -1],
    [-1, -1, -1, -1, -1, -1, -1, -1, -1],
    [-1, -1, -1, -1, -1, -1, -1, -1, -1],
    [-1, -1, -1, -1, -1, -1, -1, -1, -1],
    [-1, -1, -1, -1, -1, -1, -1, -1, -1],
    [-1, -1, -1, -1, -1, -1, -1, -1, -1],
    [-1, -1, -1, -1, -1, -1, -1, -1, -1],
    [-1, -1, -1, -1, -1, -1, -1, -1, -1],
    [-1, -1, -1, -1, -1, -1, -1, -1, -1],
    [-1, -1, -1, -1, -1, -1, -1, -1, -1],
    [-1, -1, -1, -1, -1, -1, -1, -1, -1],
    [-1, -1, -1, -1, -1, -1, -1, -1, -1],
    [-1, -1, -1, -1, -1, -1, -1, -1, -1],
    [-1, -1, -1, -1, -1, -1, -1, -1, 512],
    [513, 514, 515, 516, 517, 518, 519, 520, 521],
    [522, 523, 524, 525, 526, 527, 528, 529, 530],
    [531, 532, 533, 534, 535, 536, 537, 538, 539],
    [540, 541, 542, 543, 544, 545, 546, 547, 548],
    [549, 550, 551, 552, 553, 554, 555, 556, 557],
    [558, 559, 560, 561, 562, 563, 564, 565, 566],
    [567, 568, 569, 570, 571, 572, 573, 574, 575],
    [576, 577, 578, 579, 580, 581, 582, 583, 584],
    [585, 586, 587, 588, 589, 590, 591, 592, 593],
    [594, 595, 596, 597, 598, 599, 600, 601, 602],
    [603, 604, 605, 606, 607, 608, 609, 610, 611],
    [612, 613, 614, 615, 616, 617, 618, 619, 620],
    [621, 622, 623, 624, 625, 626, 627, 628, 629],
    [630, 631, 632, 633, 634, 635, 636, 637, 638],
    [639, 640, 641, 642, 643, 644, 645, 646, 647],
    [648, 649, 650, 651, 652, 653, 654, 655, 656],
    [657, 658, 659, 660, 661, 662, 663, 664, 665],
    [666, 667, 668, 669, 670, 671, 672, 673, 674],
    [675, 676, 677, 678, 679, 680, 681, 682, 683],
    [684, 685, 686, 687, 688, 689, 690, 691, 692],
    [693, 694, 695, 696, 697, 698, 699, 700, 701],
    [702, 703, 704, 705, 706, 707, 708, 709, 710],
    [711, 712, 713, 714, 715, 716, 717, 718, 719],
    [720, 721, 722, 723, 724, 725, 726, 727, 728],
    [729, 730, 731, 732, 733, 734, 735, 736, 737],
    [738, 739, 740, 741, 742, 743, 744, 745, 746],
    [747, 748, 749, 750, 751, 752, 753, 754, 755],
    [756, 757, 758, 759, 760, 761, 762, 763, 764],
    [765, 766, 767, 768, 769, 770, 771, 772, 773],
    [774, 775, 776, 777, 778, 779, 780, 781, 782],
    [783, 784, 785, 786, 787, 788, 789, 790, 791],
    [792, 793, 794, 795, 796, 797, 798, 799, 800],
    [801, 802, 803, 804, 805, 806, 807, 808, 809],
    [810, 811, 812, 813, 814, 815, 816, 817, 818],
    [819, 820, 821, 822, 823, 824, 825, 826, 827],
    [828, 829, 830, 831, 832, 833, 834, 835, 836],
    [837, 838, 839, 840, 841, 842, 843, 844, 845],
    [846, 847, 848, 849, 850, 851, 852, 853, 854],
    [855, 856, 857, 858, 859, 860, 861, 862, 863],
    [864, 865, 866, 867, 868, 869, 870, 871, 872],
    [873, 874, 875, 876, 877, 878, 879, 880, 881],
    [882, 883, 884, 885, 886, 887, 888, 889, 890],
    [891, 892, 893, 894, 895, 896, 897, 898, 899],
    [900, 901, 902, 903, 904, 905, 906, 907, 908],
    [909, 910, 911, 912, 913, 914, 915, 916, 917],
    [918, 919, 920, 921, 922, 923, 924, 925, 926],
    [927, 928, 929, 930, 931, 932, 933, 934, 935],
    [936, 937, 938, 939, 940, 941, 942, 943, 944],
    [945, 946, 947, 948, 949, 950, 951, 952, 953],
    [954, 955, -1, -1, -1, -1, -1, -1, -1],
    [-1, -1, -1, -1, -1, -1, -1, -1, -1],
    [-1, -1, -1, -1, -1, -1, -1, -1, -1],
    [-1, -1, -1, -1, -1, -1, -1, -1, -1],
    [-1, -1, -1, -1, -1, -1, -1, -1, -1],
    [-1, -1, -1, -1, -1, -1, -1, -1, -1],
    [-1, -1, -1, -1, -1, -1, -1, -1, -1],
    [-1, -1, -1, -1, -1, -1, -1, -1, -1],
    [-1, -1, -1, -1, -1, -1, -1, -1, -1],
    [-1, -1, -1, -1, -1, -1, -1, -1, -1],
    [-1, -1, -1, -1, -1, -1, -1, -1, -1],
    [-1, -1, -1, -1, 1058, 1059, 1060, 1061, 1062],
    [1063, 1064, 1065, 1066, 1067, 1068, 1069, 1070, 1071],
    [1072, 1073, 1074, 1075, 1076, 1077, 1078, 1079, 1080],
    [1081, 1082, 1083, 1084, 1085, 1086, 1087, 1088, 1089],
    [1090, 1091, 1092, 1093, 1094, 1095, 1096, 1097, 1098],
    [1099, 1100, 1101, 1102, 1103, 1104, 1105, 1106, 1107],
    [1108, 1109, 1110, 1111, 1112, 1113, 1114, 1115, 1116],
    [1117, 1118, 1119, 1120, 1121, 1122, 1123, 1124, 1125],
    [1126, 1127, 1128, 1129, 1130, 1131, 1132, 1133, 1134],
    [1135, 1136, 1137, 1138, 1139, 1140, 1141, 1142, 1143],
    [1144, 1145, 1146, 1147, 1148, 1149, 1150, 1151, 1152],
    [1153, 1154, 1155, 1156, 1157, 1158, 1159, 1160, 1161],
    [1162, 1163, 1164, 1165, 1166, 1167, 1168, 1169, 1170],
    [1171, 1172, -1, -1, -1, -1, -1, -1, -1],
    [-1, -1, -1, -1, -1, -1, -1, -1, -1],
    [-1, -1, -1, -1, -1, -1, -1, -1, -1],
    [-1, -1, -1, -1, -1, -1, -1, -1, -1],
    [-1, -1, -1, -1, -1, -1, -1, -1, -1],
    [-1, -1, -1, -1, -1, -1, -1, -1, -1],
    [-1, -1, -1, -1, -1, -1, -1, -1, -1],
    [-1, -1, -1, -1, -1, -1, -1, -1, -1],
    [-1, -1, -1, -1, -1, -1, -1, -1, -1],
    [-1, -1, -1, -1, -1, -1, -1, -1, -1],
    [-1, -1, -1, -1, -1, -1, -1, -1, -1],
    [-1, -1, -1, -1, -1, -1, -1, -1, -1],
    [-1, -1]]"

definition runs_PotSM2P :: "(int \<times> nat) list" where
  "runs_PotSM2P = [
    (0,29), (155,1), (30,281), (-1,201), (512,444), (-1,101), (1058,115), (-1,108)]"

lemma fPotSM2PTable_runs: "fPotSM2PTable = seg_list runs_PotSM2P"
  unfolding fPotSM2PTable_def runs_PotSM2P_def by (simp only: seg_eval)

section \<open>\<open>fPotSP2MTable\<close>\<close>

definition fPotSP2MTable :: "int list" where
  "fPotSP2MTable = concat [
    [0, 1, 2, 3, 4, 5, 6, 7, 8],
    [9, 10, 11, 12, 13, 14, 15, 16, 17],
    [18, 19, 20, 21, 22, 23, 24, 25, 26],
    [27, 28, 29, 30, 31, 32, 33, 34, 35],
    [36, 37, 38, 39, 40, 41, 42, 43, 44],
    [45, 46, 47, 48, 49, 50, 51, 52, 53],
    [54, 55, 56, 57, 58, 59, 60, 61, 62],
    [63, 64, 65, 66, 67, 68, 69, 70, 71],
    [72, 73, 74, 75, 76, 77, 78, 79, 80],
    [81, 82, 83, 84, 85, 86, 87, 88, 89],
    [90, 91, 92, 93, 94, 95, 96, 97, 98],
    [99, 100, 101, 102, 103, 104, 105, 106, 107],
    [108, 109, 110, 111, 112, 113, 114, 115, 116],
    [117, 118, 119, 120, 121, 122, 123, 124, 125],
    [126, 127, 128, 129, 130, 131, 132, 133, 134],
    [135, 136, 137, 138, 139, 140, 141, 142, 143],
    [144, 145, 146, 147, 148, 149, 150, 151, 152],
    [153, 154, 29, 156, 157, 158, 159, 160, 161],
    [162, 163, 164, 165, 166, 167, 168, 169, 170],
    [171, 172, 173, 174, 175, 176, 177, 178, 179],
    [180, 181, 182, 183, 184, 185, 186, 187, 188],
    [189, 190, 191, 192, 193, 194, 195, 196, 197],
    [198, 199, 200, 201, 202, 203, 204, 205, 206],
    [207, 208, 209, 210, 211, 212, 213, 214, 215],
    [216, 217, 218, 219, 220, 221, 222, 223, 224],
    [225, 226, 227, 228, 229, 230, 231, 232, 233],
    [234, 235, 236, 237, 238, 239, 240, 241, 242],
    [243, 244, 245, 246, 247, 248, 249, 250, 251],
    [252, 253, 254, 255, 256, 257, 258, 259, 260],
    [261, 262, 263, 264, 265, 266, 267, 268, 269],
    [270, 271, 272, 273, 274, 275, 276, 277, 278],
    [279, 280, 281, 282, 283, 284, 285, 286, 287],
    [288, 289, 290, 291, 292, 293, 294, 295, 296],
    [297, 298, 299, 300, 301, 302, 303, 304, 305],
    [306, 307, 308, 309, 310, -1, -1, -1, -1],
    [-1, -1, -1, -1, -1, -1, -1, -1, -1],
    [-1, -1, -1, -1, -1, -1, -1, -1, -1],
    [-1, -1, -1, -1, -1, -1, -1, -1, -1],
    [-1, -1, -1, -1, -1, -1, -1, -1, -1],
    [-1, -1, -1, -1, -1, -1, -1, -1, -1],
    [-1, -1, -1, -1, -1, -1, -1, -1, -1],
    [-1, -1, -1, -1, -1, -1, -1, -1, -1],
    [-1, -1, -1, -1, -1, -1, -1, -1, -1],
    [-1, -1, -1, -1, -1, -1, -1, -1, -1],
    [-1, -1, -1, -1, -1, -1, -1, -1, -1],
    [-1, -1, -1, -1, -1, -1, -1, -1, -1],
    [-1, -1, -1, -1, -1, -1, -1, -1, -1],
    [-1, -1, -1, -1, -1, -1, -1, -1, -1],
    [-1, -1, -1, -1, -1, -1, -1, -1, -1],
    [-1, -1, -1, -1, -1, -1, -1, -1, -1],
    [-1, -1, -1, -1, -1, -1, -1, -1, -1],
    [-1, -1, -1, -1, -1, -1, -1, -1, -1],
    [-1, -1, -1, -1, -1, -1, -1, -1, -1],
    [-1, -1, -1, -1, -1, -1, -1, -1, -1],
    [-1, -1, -1, -1, -1, -1, -1, -1, -1],
    [-1, -1, -1, -1, -1, -1, -1, -1, -1],
    [-1, -1, -1, -1, -1, -1, -1, -1, 512],
    [513, 514, 515, 516, 517, 518, 519, 520, 521],
    [522, 523, 524, 525, 526, 527, 528, 529, 530],
    [531, 532, 533, 534, 535, 536, 537, 538, 539],
    [540, 541, 542, 543, 544, 545, 546, 547, 548],
    [549, 550, 551, 552, 553, 554, 555, 556, 557],
    [558, 559, 560, 561, 562, 563, 564, 565, 566],
    [567, 568, 569, 570, 571, 572, 573, 574, 575],
    [576, 577, 578, 579, 580, 581, 582, 583, 584],
    [585, 586, 587, 588, 589, 590, 591, 592, 593],
    [594, 595, 596, 597, 598, 599, 600, 601, 602],
    [603, 604, 605, 606, 607, 608, 609, 610, 611],
    [612, 613, 614, 615, 616, 617, 618, 619, 620],
    [621, 622, 623, 624, 625, 626, 627, 628, 629],
    [630, 631, 632, 633, 634, 635, 636, 637, 638],
    [639, 640, 641, 642, 643, 644, 645, 646, 647],
    [648, 649, 650, 651, 652, 653, 654, 655, 656],
    [657, 658, 659, 660, 661, 662, 663, 664, 665],
    [666, 667, 668, 669, 670, 671, 672, 673, 674],
    [675, 676, 677, 678, 679, 680, 681, 682, 683],
    [684, 685, 686, 687, 688, 689, 690, 691, 692],
    [693, 694, 695, 696, 697, 698, 699, 700, 701],
    [702, 703, 704, 705, 706, 707, 708, 709, 710],
    [711, 712, 713, 714, 715, 716, 717, 718, 719],
    [720, 721, 722, 723, 724, 725, 726, 727, 728],
    [729, 730, 731, 732, 733, 734, 735, 736, 737],
    [738, 739, 740, 741, 742, 743, 744, 745, 746],
    [747, 748, 749, 750, 751, 752, 753, 754, 755],
    [756, 757, 758, 759, 760, 761, 762, 763, 764],
    [765, 766, 767, 768, 769, 770, 771, 772, 773],
    [774, 775, 776, 777, 778, 779, 780, 781, 782],
    [783, 784, 785, 786, 787, 788, 789, 790, 791],
    [792, 793, 794, 795, 796, 797, 798, 799, 800],
    [801, 802, 803, 804, 805, 806, 807, 808, 809],
    [810, 811, 812, 813, 814, 815, 816, 817, 818],
    [819, 820, 821, 822, 823, 824, 825, 826, 827],
    [828, 829, 830, 831, 832, 833, 834, 835, 836],
    [837, 838, 839, 840, 841, 842, 843, 844, 845],
    [846, 847, 848, 849, 850, 851, 852, 853, 854],
    [855, 856, 857, 858, 859, 860, 861, 862, 863],
    [864, 865, 866, 867, 868, 869, 870, 871, 872],
    [873, 874, 875, 876, 877, 878, 879, 880, 881],
    [882, 883, 884, 885, 886, 887, 888, 889, 890],
    [891, 892, 893, 894, 895, 896, 897, 898, 899],
    [900, 901, 902, 903, 904, 905, 906, 907, 908],
    [909, 910, 911, 912, 913, 914, 915, 916, 917],
    [918, 919, 920, 921, 922, 923, 924, 925, 926],
    [927, 928, 929, 930, 931, 932, 933, 934, 935],
    [936, 937, 938, 939, 940, 941, 942, 943, 944],
    [945, 946, 947, 948, 949, 950, 951, 952, 953],
    [954, 955, -1, -1, -1, -1, -1, -1, -1],
    [-1, -1, -1, -1, -1, -1, -1, -1, -1],
    [-1, -1, -1, -1, -1, -1, -1, -1, -1],
    [-1, -1, -1, -1, -1, -1, -1, -1, -1],
    [-1, -1, -1, -1, -1, -1, -1, -1, -1],
    [-1, -1, -1, -1, -1, -1, -1, -1, -1],
    [-1, -1, -1, -1, -1, -1, -1, -1, -1],
    [-1, -1, -1, -1, -1, -1, -1, -1, -1],
    [-1, -1, -1, -1, -1, -1, -1, -1, -1],
    [-1, -1, -1, -1, -1, -1, -1, -1, -1],
    [-1, -1, -1, -1, -1, -1, -1, -1, -1],
    [-1, -1, -1, -1, -1, 1057, 1058, 1059, 1060],
    [1061, 1062, 1063, 1064, 1065, 1066, 1067, 1068, 1069],
    [1070, 1071, 1072, 1073, 1074, 1075, 1076, 1077, 1078],
    [1079, 1080, 1081, 1082, 1083, 1084, 1085, 1086, 1087],
    [1088, 1089, 1090, 1091, 1092, 1093, 1094, 1095, 1096],
    [1097, 1098, 1099, 1100, 1101, 1102, 1103, 1104, 1105],
    [1106, 1107, 1108, 1109, 1110, 1111, 1112, 1113, 1114],
    [1115, 1116, 1117, 1118, 1119, 1120, 1121, 1122, 1123],
    [1124, 1125, 1126, 1127, 1128, 1129, 1130, 1131, 1132],
    [1133, 1134, 1135, 1136, 1137, 1138, 1139, 1140, 1141],
    [1142, 1143, 1144, 1145, 1146, 1147, 1148, 1149, 1150],
    [1151, 1152, 1153, 1154, 1155, 1156, 1157, 1158, 1159],
    [1160, 1161, 1162, 1163, 1164, 1165, 1166, 1167, 1168],
    [1169, 1170, 1171, -1, -1, -1, -1, -1, -1],
    [-1, -1, -1, -1, -1, -1, -1, -1, -1],
    [-1, -1, -1, -1, -1, -1, -1, -1, -1],
    [-1, -1, -1, -1, -1, -1, -1, -1, -1],
    [-1, -1, -1, -1, -1, -1, -1, -1, -1],
    [-1, -1, -1, -1, -1, -1, -1, -1, -1],
    [-1, -1, -1, -1, -1, -1, -1, -1, -1],
    [-1, -1, -1, -1, -1, -1, -1, -1, -1],
    [-1, -1, -1, -1, -1, -1, -1, -1, -1],
    [-1, -1, -1, -1, -1, -1, -1, -1, -1],
    [-1, -1, -1, -1, -1, -1, -1, -1, -1],
    [-1, -1, -1, -1, -1, -1, -1, -1, -1],
    [-1, -1]]"

definition runs_PotSP2M :: "(int \<times> nat) list" where
  "runs_PotSP2M = [
    (0,155), (29,1), (156,155), (-1,201), (512,444), (-1,102), (1057,115), (-1,107)]"

lemma fPotSP2MTable_runs: "fPotSP2MTable = seg_list runs_PotSP2M"
  unfolding fPotSP2MTable_def runs_PotSP2M_def by (simp only: seg_eval)

section \<open>\<open>fLiveM2PTable\<close>\<close>

definition fLiveM2PTable :: "int list" where
  "fLiveM2PTable = concat [
    [0, 1, 2, 3, 4, 5, 6, 7, 8],
    [9, 10, 11, 12, 13, 14, 15, 16, 17],
    [18, 19, 20, 21, 22, 23, 24, 25, 26],
    [27, 28, 155, 30, 31, 32, -1, 34, 35],
    [36, 37, 38, 39, 40, 41, 42, 43, 44],
    [45, 46, 47, 48, 49, 50, 51, 52, 53],
    [54, 55, 56, 57, 58, 59, 60, 61, 62],
    [63, 64, 65, 66, 67, 68, 69, 70, 71],
    [72, 73, 74, 75, 76, 77, 78, 79, 80],
    [81, 82, 83, 84, 85, 86, 87, 88, 89],
    [90, 91, 92, 93, 94, 95, 96, 97, 98],
    [99, 100, 101, 102, 103, 104, 105, 106, 107],
    [108, 109, 110, 111, 112, 113, 114, 115, 116],
    [117, 118, 119, 120, 121, 122, 123, 124, 125],
    [126, 127, 128, 129, 130, 131, 132, 133, 134],
    [135, 136, 137, 138, 139, 140, 141, 142, 143],
    [144, 145, 146, 147, 148, 149, 150, 151, 152],
    [153, 154, 155, 156, 157, 158, 159, 160, 161],
    [162, 163, 164, 165, 166, 167, 168, 169, 170],
    [171, 172, 173, 174, 175, 176, 177, 178, 179],
    [180, 181, 182, 183, 184, 185, 186, 187, 188],
    [189, 190, 191, 192, 193, 194, 195, 196, 197],
    [198, 199, 200, 201, 202, 203, 204, 205, 206],
    [207, 208, 209, 210, 211, 212, 213, 214, 215],
    [216, 217, 218, 219, 220, 221, 222, 223, 224],
    [225, 316, 227, 228, 229, 230, 231, 232, 233],
    [234, 235, 236, 237, 238, 239, 240, 241, 242],
    [243, 244, 245, 246, 247, 248, 249, 250, 251],
    [252, 253, 254, 255, 256, 257, 258, 259, 260],
    [261, 262, 263, 264, 265, 266, 267, 268, 269],
    [270, 271, 272, 273, 274, 275, 276, 277, 278],
    [279, 280, 281, 282, 283, 284, 285, 286, 287],
    [288, 289, 290, 291, 292, 293, 294, 295, 296],
    [297, 298, 299, 300, 301, 302, 303, 304, 305],
    [306, 307, 308, 309, 310, 311, 312, 313, -1],
    [-1, -1, -1, -1, -1, 33, -1, -1, -1],
    [-1, -1, -1, -1, -1, -1, -1, -1, -1],
    [-1, -1, -1, -1, -1, -1, -1, -1, -1],
    [226, -1, -1, -1, -1, -1, -1, -1, -1],
    [-1, -1, -1, -1, -1, -1, -1, -1, -1],
    [314, 315, -1, -1, -1, -1, -1, -1, -1],
    [-1, -1, -1, -1, -1, -1, -1, -1, -1],
    [-1, -1, -1, -1, -1, -1, -1, -1, -1],
    [-1, -1, -1, -1, -1, -1, -1, -1, -1],
    [-1, -1, -1, -1, -1, -1, -1, -1, -1],
    [-1, -1, -1, -1, -1, -1, -1, -1, -1],
    [-1, -1, -1, -1, -1, -1, -1, -1, -1],
    [-1, -1, -1, -1, -1, -1, -1, -1, -1],
    [-1, -1, -1, -1, -1, -1, -1, -1, -1],
    [-1, -1, -1, -1, -1, -1, -1, -1, -1],
    [-1, -1, -1, -1, -1, -1, -1, -1, -1],
    [-1, -1, -1, -1, -1, -1, -1, -1, -1],
    [-1, -1, -1, -1, -1, -1, -1, -1, -1],
    [-1, -1, -1, -1, -1, -1, -1, -1, -1],
    [-1, -1, -1, -1, -1, -1, -1, -1, -1],
    [-1, -1, -1, -1, -1, -1, -1, -1, -1],
    [-1, -1, -1, -1, -1, -1, -1, -1, 512],
    [513, 514, 515, 516, 517, 518, 519, 520, 521],
    [522, 523, 524, 525, 526, 527, 528, 529, 530],
    [531, 532, 533, 534, 535, 536, 537, 538, 539],
    [540, 541, 542, 543, 544, 545, 546, 547, 548],
    [549, 550, 551, 552, 553, 559, 560, -1, 562],
    [563, 564, 565, 566, 567, 568, 569, 570, 571],
    [572, 573, 574, 575, 576, 577, 578, 579, 580],
    [581, 582, 583, 584, 585, 586, 587, 588, 589],
    [590, 591, 592, 593, 594, 595, 596, 597, 598],
    [599, 600, 601, 602, 603, 604, 605, 606, 607],
    [608, 609, 610, 611, 612, 613, 614, 615, 616],
    [617, 618, 619, 620, 621, 622, 623, 624, 625],
    [626, 627, 628, 629, 630, 631, -1, 633, 634],
    [635, 636, 637, 638, 639, 640, -1, 642, 643],
    [644, 645, 646, 647, 648, 649, 650, 651, 652],
    [653, 654, 655, 656, 657, 658, 659, 660, 661],
    [662, 663, 664, 665, 666, 667, 668, 669, 670],
    [671, 672, 673, 674, 675, 676, 677, 678, 679],
    [680, 681, 682, 683, 684, 685, 686, 687, 688],
    [689, 690, 691, 692, 693, 694, 695, 696, 697],
    [698, 699, 700, 701, 702, 703, 704, 961, 706],
    [707, 708, 709, 710, 711, 712, 713, 714, 715],
    [716, 717, 718, 719, 720, 721, 722, 723, 724],
    [725, 726, 727, 728, 729, 730, 731, 732, 733],
    [734, 735, 736, 737, 738, 739, 740, 741, 742],
    [743, 744, 745, 746, 747, 748, 749, 750, 751],
    [752, 753, 754, 755, 756, 757, 758, 759, 760],
    [761, 762, 763, 764, 765, 766, 767, 768, 769],
    [770, 771, 772, 773, 774, 775, 776, 777, 778],
    [779, 780, 781, 782, 783, 784, 785, 786, 787],
    [788, 789, 790, 791, 792, 793, 794, 795, 796],
    [797, 798, 799, 800, 801, 802, 803, 804, 805],
    [806, 807, 808, 809, 810, 811, 812, 813, 814],
    [815, 816, 817, 818, 819, 820, 821, 822, 823],
    [824, 825, 826, 827, 828, 829, 830, 831, 832],
    [833, 834, 835, 836, 837, 838, 839, 840, 841],
    [842, 843, 844, 845, 846, 847, 848, 849, -1],
    [851, 852, 853, 854, 855, 856, 857, 858, 859],
    [860, 861, 862, 863, 864, -1, 866, 867, 868],
    [869, 870, 871, 872, 873, 874, 875, 876, -1],
    [878, 879, 880, 881, 882, 883, 884, 885, 886],
    [887, 888, 889, 890, 891, 892, 893, 894, 895],
    [896, 897, 898, 899, 900, 901, 902, 903, 904],
    [905, 906, 907, 908, 909, 910, 911, 912, 913],
    [914, 915, 916, 917, -1, 918, -1, -1, -1],
    [-1, -1, -1, -1, -1, -1, -1, 930, 931],
    [932, 933, 934, 935, 936, 937, 938, 939, 940],
    [941, 942, 943, 944, 945, 946, 947, 948, 949],
    [950, 951, 952, 953, 954, 955, 956, 957, 958],
    [959, 960, -1, -1, 632, -1, -1, -1, -1],
    [-1, -1, 554, 555, 556, 557, 558, 561, 641],
    [-1, -1, -1, 705, -1, -1, 850, 865, 877],
    [919, 920, 921, 922, 923, 924, 925, 926, 927],
    [928, 929, -1, -1, -1, -1, -1, -1, -1],
    [-1, -1, -1, -1, -1, -1, -1, -1, -1],
    [-1, -1, -1, -1, -1, -1, -1, -1, -1],
    [-1, -1, -1, -1, -1, -1, -1, -1, -1],
    [-1, -1, -1, -1, -1, -1, -1, -1, -1],
    [-1, -1, -1, -1, -1, -1, -1, -1, -1],
    [-1, -1, -1, -1, -1, -1, -1, -1, -1],
    [-1, -1, -1, -1, 1063, 1064, 1065, 1066, 1067],
    [1068, 1069, 1070, 1071, 1072, 1073, 1074, 1075, 1076],
    [1077, 1078, 1079, 1080, 1081, 1082, 1083, 1084, 1085],
    [1086, 1087, 1088, 1089, 1090, 1091, 1092, 1093, 1094],
    [1095, 1096, 1097, 1098, 1099, 1100, 1101, 1102, 1103],
    [1104, 1105, 1106, 1107, 1108, 1109, 1110, 1111, 1112],
    [1113, 1114, 1115, 1116, 1117, 1118, 1119, 1120, 1121],
    [1122, 1123, 1124, 1125, -1, -1, 1128, 1129, 1130],
    [1131, 1132, 1133, 1134, 1135, 1136, 1137, 1138, 1139],
    [1140, 1141, 1142, 1143, 1144, 1145, -1, -1, -1],
    [-1, -1, -1, -1, -1, -1, -1, 1156, 1157],
    [1158, 1159, 1160, 1161, 1162, 1163, 1164, 1165, 1166],
    [1167, 1168, 1169, 1170, 1171, 1172, 1173, 1174, 1175],
    [1176, 1177, -1, -1, -1, -1, -1, -1, -1],
    [-1, -1, -1, -1, -1, -1, -1, -1, -1],
    [-1, -1, -1, -1, -1, -1, -1, -1, -1],
    [-1, -1, -1, -1, -1, -1, -1, -1, -1],
    [-1, -1, -1, -1, -1, -1, -1, -1, -1],
    [-1, -1, -1, -1, -1, -1, -1, -1, -1],
    [-1, -1, -1, -1, -1, -1, -1, -1, -1],
    [-1, -1, -1, -1, 1146, 1147, 1148, 1149, 1150],
    [1151, 1152, 1178, 1126, 1127, 1153, 1154, 1155, 1179],
    [1180, 1181, 1182, -1, -1, -1, -1, -1, -1],
    [-1, -1, -1, -1, -1, -1, -1, -1, -1],
    [-1, -1, -1, -1, -1, -1, -1, -1, -1],
    [-1, -1]]"

definition runs_LiveM2P :: "(int \<times> nat) list" where
  "runs_LiveM2P = [
    (0,29), (155,1), (30,3), (-1,1), (34,192), (316,1), (227,87), (-1,6), (33,1), (-1,21),
    (226,1), (-1,17), (314,2), (-1,150), (512,42), (559,2), (-1,1), (562,70), (-1,1), (633,8),
    (-1,1), (642,63), (961,1), (706,144), (-1,1), (851,14), (-1,1), (866,11), (-1,1), (878,40),
    (-1,1), (918,1), (-1,10), (930,31), (-1,2), (632,1), (-1,6), (554,5), (561,1), (641,1),
    (-1,3), (705,1), (-1,2), (850,1), (865,1), (877,1), (919,11), (-1,65), (1063,63), (-1,2),
    (1128,18), (-1,10), (1156,22), (-1,65), (1146,7), (1178,1), (1126,2), (1153,3), (1179,4),
    (-1,26)]"

lemma fLiveM2PTable_runs: "fLiveM2PTable = seg_list runs_LiveM2P"
  unfolding fLiveM2PTable_def runs_LiveM2P_def by (simp only: seg_eval)

section \<open>\<open>fLiveP2MTable\<close>\<close>

definition fLiveP2MTable :: "int list" where
  "fLiveP2MTable = concat [
    [0, 1, 2, 3, 4, 5, 6, 7, 8],
    [9, 10, 11, 12, 13, 14, 15, 16, 17],
    [18, 19, 20, 21, 22, 23, 24, 25, 26],
    [27, 28, 29, 30, 31, 32, 320, 34, 35],
    [36, 37, 38, 39, 40, 41, 42, 43, 44],
    [45, 46, 47, 48, 49, 50, 51, 52, 53],
    [54, 55, 56, 57, 58, 59, 60, 61, 62],
    [63, 64, 65, 66, 67, 68, 69, 70, 71],
    [72, 73, 74, 75, 76, 77, 78, 79, 80],
    [81, 82, 83, 84, 85, 86, 87, 88, 89],
    [90, 91, 92, 93, 94, 95, 96, 97, 98],
    [99, 100, 101, 102, 103, 104, 105, 106, 107],
    [108, 109, 110, 111, 112, 113, 114, 115, 116],
    [117, 118, 119, 120, 121, 122, 123, 124, 125],
    [126, 127, 128, 129, 130, 131, 132, 133, 134],
    [135, 136, 137, 138, 139, 140, 141, 142, 143],
    [144, 145, 146, 147, 148, 149, 150, 151, 152],
    [153, 154, 29, 156, 157, 158, 159, 160, 161],
    [162, 163, 164, 165, 166, 167, 168, 169, 170],
    [171, 172, 173, 174, 175, 176, 177, 178, 179],
    [180, 181, 182, 183, 184, 185, 186, 187, 188],
    [189, 190, 191, 192, 193, 194, 195, 196, 197],
    [198, 199, 200, 201, 202, 203, 204, 205, 206],
    [207, 208, 209, 210, 211, 212, 213, 214, 215],
    [216, 217, 218, 219, 220, 221, 222, 223, 224],
    [225, 342, 227, 228, 229, 230, 231, 232, 233],
    [234, 235, 236, 237, 238, 239, 240, 241, 242],
    [243, 244, 245, 246, 247, 248, 249, 250, 251],
    [252, 253, 254, 255, 256, 257, 258, 259, 260],
    [261, 262, 263, 264, 265, 266, 267, 268, 269],
    [270, 271, 272, 273, 274, 275, 276, 277, 278],
    [279, 280, 281, 282, 283, 284, 285, 286, 287],
    [288, 289, 290, 291, 292, 293, 294, 295, 296],
    [297, 298, 299, 300, 301, 302, 303, 304, 305],
    [306, 307, 308, 309, 310, 311, 312, 313, 360],
    [361, 226, -1, -1, -1, -1, -1, -1, -1],
    [-1, -1, -1, -1, -1, -1, -1, -1, -1],
    [-1, -1, -1, -1, -1, -1, -1, -1, -1],
    [-1, -1, -1, -1, -1, -1, -1, -1, -1],
    [-1, -1, -1, -1, -1, -1, -1, -1, -1],
    [-1, -1, -1, -1, -1, -1, -1, -1, -1],
    [-1, -1, -1, -1, -1, -1, -1, -1, -1],
    [-1, -1, -1, -1, -1, -1, -1, -1, -1],
    [-1, -1, -1, -1, -1, -1, -1, -1, -1],
    [-1, -1, -1, -1, -1, -1, -1, -1, -1],
    [-1, -1, -1, -1, -1, -1, -1, -1, -1],
    [-1, -1, -1, -1, -1, -1, -1, -1, -1],
    [-1, -1, -1, -1, -1, -1, -1, -1, -1],
    [-1, -1, -1, -1, -1, -1, -1, -1, -1],
    [-1, -1, -1, -1, -1, -1, -1, -1, -1],
    [-1, -1, -1, -1, -1, -1, -1, -1, -1],
    [-1, -1, -1, -1, -1, -1, -1, -1, -1],
    [-1, -1, -1, -1, -1, -1, -1, -1, -1],
    [-1, -1, -1, -1, -1, -1, -1, -1, -1],
    [-1, -1, -1, -1, -1, -1, -1, -1, -1],
    [-1, -1, -1, -1, -1, -1, -1, -1, -1],
    [-1, -1, -1, -1, -1, -1, -1, -1, 512],
    [513, 514, 515, 516, 517, 518, 519, 520, 521],
    [522, 523, 524, 525, 526, 527, 528, 529, 530],
    [531, 532, 533, 534, 535, 536, 537, 538, 539],
    [540, 541, 542, 543, 544, 545, 546, 547, 548],
    [549, 550, 551, 552, 553, 965, 966, 967, 968],
    [969, 554, 555, 970, 557, 558, 559, 560, 561],
    [562, 563, 564, 565, 566, 567, 568, 569, 570],
    [571, 572, 573, 574, 575, 576, 577, 578, 579],
    [580, 581, 582, 583, 584, 585, 586, 587, 588],
    [589, 590, 591, 592, 593, 594, 595, 596, 597],
    [598, 599, 600, 601, 602, 603, 604, 605, 606],
    [607, 608, 609, 610, 611, 612, 613, 614, 615],
    [616, 617, 618, 619, 620, 621, 622, 623, 624],
    [625, 626, 958, 628, 629, 630, 631, 632, 633],
    [634, 635, 971, 637, 638, 639, 640, 641, 642],
    [643, 644, 645, 646, 647, 648, 649, 650, 651],
    [652, 653, 654, 655, 656, 657, 658, 659, 660],
    [661, 662, 663, 664, 665, 666, 667, 668, 669],
    [670, 671, 672, 673, 674, 675, 676, 677, 678],
    [679, 680, 681, 682, 683, 684, 685, 686, 687],
    [688, 689, 690, 691, 692, 693, 694, 695, 696],
    [697, 698, 699, 975, 701, 702, 703, 704, 705],
    [706, 707, 708, 709, 710, 711, 712, 713, 714],
    [715, 716, 717, 718, 719, 720, 721, 722, 723],
    [724, 725, 726, 727, 728, 729, 730, 731, 732],
    [733, 734, 735, 736, 737, 738, 739, 740, 741],
    [742, 743, 744, 745, 746, 747, 748, 749, 750],
    [751, 752, 753, 754, 755, 756, 757, 758, 759],
    [760, 761, 762, 763, 764, 765, 766, 767, 768],
    [769, 770, 771, 772, 773, 774, 775, 776, 777],
    [778, 779, 780, 781, 782, 783, 784, 785, 786],
    [787, 788, 789, 790, 791, 792, 793, 794, 795],
    [796, 797, 798, 799, 800, 801, 802, 803, 804],
    [805, 806, 807, 808, 809, 810, 811, 812, 813],
    [814, 815, 816, 817, 818, 819, 820, 821, 822],
    [823, 824, 825, 826, 827, 828, 829, 830, 831],
    [832, 833, 834, 835, 836, 837, 838, 839, 840],
    [841, 842, 843, 844, 978, 846, 847, 848, 849],
    [850, 851, 852, 853, 854, 855, 856, 857, 858],
    [859, 979, 861, 862, 863, 864, 865, 866, 867],
    [868, 869, 870, 871, 980, 873, 874, 875, 876],
    [877, 878, 879, 880, 881, 882, 883, 884, 885],
    [886, 887, 888, 889, 890, 891, 892, 893, 894],
    [895, 896, 897, 898, 899, 900, 901, 902, 903],
    [904, 905, 906, 907, 908, 909, 910, 911, 912],
    [914, 981, 982, 983, 984, 985, 986, 987, 988],
    [989, 990, 991, 925, 926, 927, 928, 929, 930],
    [931, 932, 933, 934, 935, 936, 937, 938, 939],
    [940, 941, 942, 943, 944, 945, 946, 947, 948],
    [949, 950, 951, 952, 953, 954, 955, 700, -1],
    [-1, -1, -1, -1, -1, -1, -1, -1, -1],
    [-1, -1, -1, -1, -1, -1, -1, -1, -1],
    [-1, -1, -1, -1, -1, -1, -1, -1, -1],
    [-1, -1, -1, -1, -1, -1, -1, -1, -1],
    [-1, -1, -1, -1, -1, -1, -1, -1, -1],
    [-1, -1, -1, -1, -1, -1, -1, -1, -1],
    [-1, -1, -1, -1, -1, -1, -1, -1, -1],
    [-1, -1, -1, -1, -1, -1, -1, -1, -1],
    [-1, -1, -1, -1, -1, -1, -1, -1, -1],
    [-1, -1, -1, -1, -1, -1, -1, -1, -1],
    [-1, -1, -1, -1, -1, -1, -1, -1, -1],
    [-1, 1057, 1058, 1059, 1060, 1061, 1062, 1063, 1064],
    [1065, 1066, 1067, 1068, 1069, 1070, 1071, 1072, 1073],
    [1074, 1075, 1076, 1077, 1078, 1079, 1080, 1081, 1082],
    [1083, 1084, 1085, 1086, 1087, 1088, 1089, 1090, 1091],
    [1092, 1093, 1094, 1095, 1096, 1097, 1098, 1099, 1100],
    [1101, 1102, 1103, 1104, 1105, 1106, 1107, 1108, 1109],
    [1110, 1111, 1112, 1113, 1114, 1115, 1116, 1117, 1118],
    [1119, 1245, 1246, 1122, 1123, 1124, 1125, 1126, 1127],
    [1128, 1129, 1130, 1131, 1132, 1133, 1134, 1135, 1136],
    [1137, 1138, 1139, 1237, 1238, 1239, 1240, 1241, 1242],
    [1243, 1247, 1248, 1249, 1150, 1151, 1152, 1153, 1154],
    [1155, 1156, 1157, 1158, 1159, 1160, 1161, 1162, 1163],
    [1164, 1165, 1166, 1167, 1168, 1169, 1170, 1171, 1244],
    [1250, 1251, 1252, 1253, -1, -1, -1, -1, -1],
    [-1, -1, -1, -1, -1, -1, -1, -1, -1],
    [-1, -1, -1, -1, -1, -1, -1, -1, -1],
    [-1, -1, -1, -1, -1, -1, -1, -1, -1],
    [-1, -1, -1, -1, -1, -1, -1, -1, -1],
    [-1, -1, -1, -1, -1, -1, -1, -1, -1],
    [-1, -1, -1, -1, -1, -1, -1, -1, -1],
    [-1, -1, -1, -1, -1, -1, -1, -1, -1],
    [-1, -1, -1, -1, -1, -1, -1, -1, -1],
    [-1, -1, -1, -1, -1, -1, -1, -1, -1],
    [-1, -1, -1, -1, -1, -1, -1, -1, -1],
    [-1, -1]]"

definition runs_LiveP2M :: "(int \<times> nat) list" where
  "runs_LiveP2M = [
    (0,33), (320,1), (34,121), (29,1), (156,70), (342,1), (227,87), (360,2), (226,1), (-1,195),
    (512,42), (965,5), (554,2), (970,1), (557,70), (958,1), (628,8), (971,1), (637,63), (975,1),
    (701,144), (978,1), (846,14), (979,1), (861,11), (980,1), (873,40), (914,1), (981,11),
    (925,31), (700,1), (-1,101), (1057,63), (1245,2), (1122,18), (1237,7), (1247,3), (1150,22),
    (1244,1), (1250,4), (-1,97)]"

lemma fLiveP2MTable_runs: "fLiveP2MTable = seg_list runs_LiveP2M"
  unfolding fLiveP2MTable_def runs_LiveP2M_def by (simp only: seg_eval)

section \<open>\<open>fEoaM2PTable\<close>\<close>

definition fEoaM2PTable :: "int list" where
  "fEoaM2PTable = concat [
    [0, 1, 2, 3, 4, 5, 6, 7, 8],
    [9, 10, 11, 12, 13, 14, 15, 16, 17],
    [18, 19, 20, 21, 22, 23, -1, 25, 26],
    [-1, 28, 131, 30, 31, 32, -1, -1, -1],
    [36, -1, -1, 39, 40, 41, -1, 42, 43],
    [44, 45, 46, 47, 48, 49, 50, 51, 52],
    [53, 54, 55, 56, 57, -1, -1, 60, 61],
    [259, 62, 63, -1, 64, 65, 66, 67, 68],
    [69, 70, 71, 72, 73, 74, 75, 76, 77],
    [-1, -1, -1, 79, 80, 81, 82, -1, -1],
    [-1, 85, -1, 83, -1, -1, -1, -1, 87],
    [88, -1, 89, -1, 90, 91, 92, 93, 94],
    [95, 96, -1, 97, -1, 98, 99, 100, 101],
    [102, 103, 104, 105, 106, 107, 108, 109, 110],
    [111, 112, 113, -1, -1, 114, 115, -1, 116],
    [117, 118, 119, 120, 121, 122, 123, 124, 125],
    [-1, -1, -1, -1, -1, -1, 126, 127, 128],
    [-1, -1, -1, -1, -1, -1, -1, -1, 135],
    [136, 137, 138, 139, 140, 141, 142, 143, 144],
    [145, 146, 147, -1, 149, 150, 151, -1, -1],
    [154, -1, -1, -1, -1, 155, 156, 157, -1],
    [158, 159, 160, 161, 162, -1, 164, 165, 166],
    [167, 168, 169, 170, 171, 172, 173, 174, -1],
    [175, 176, 177, 178, 179, 180, 181, 182, 183],
    [184, -1, -1, 185, -1, 186, 187, 188, 189],
    [190, -1, 191, 192, -1, 194, 195, 196, 197],
    [198, 199, 200, 201, 202, 203, 204, 205, 206],
    [-1, 207, -1, 209, 210, -1, 211, -1, 212],
    [213, 214, 215, 216, -1, -1, -1, -1, -1],
    [217, 218, 219, 220, -1, 222, 223, 224, 225],
    [-1, 226, 227, 228, 229, 230, 231, 232, 233],
    [234, 235, 236, 237, -1, -1, -1, 238, 239],
    [240, -1, 241, 242, 243, 244, 245, -1, 246],
    [247, 248, 249, -1, 250, 251, 252, 253, 254],
    [255, -1, -1, 257, -1, 270, 35, 273, -1],
    [-1, -1, 24, 27, 29, -1, 33, 34, 37],
    [38, 58, 59, 78, 84, 86, 129, 130, 132],
    [133, 134, 148, 152, 153, 163, 193, 208, 221],
    [-1, 256, 258, 260, 261, 262, 263, 264, 265],
    [266, 267, 268, 269, 271, 272, 274, 275, 276],
    [-1, -1, -1, -1, -1, -1, -1, -1, -1],
    [-1, -1, -1, -1, -1, -1, -1, -1, -1],
    [-1, -1, -1, -1, -1, -1, -1, -1, -1],
    [-1, -1, -1, -1, -1, -1, -1, -1, -1],
    [-1, -1, -1, -1, -1, -1, -1, -1, -1],
    [-1, -1, -1, -1, -1, -1, -1, -1, -1],
    [-1, -1, -1, -1, -1, -1, -1, -1, -1],
    [-1, -1, -1, -1, -1, -1, -1, -1, -1],
    [-1, -1, -1, -1, -1, -1, -1, -1, -1],
    [-1, -1, -1, -1, -1, -1, -1, -1, -1],
    [-1, -1, -1, -1, -1, -1, -1, -1, -1],
    [-1, -1, -1, -1, -1, -1, -1, -1, -1],
    [-1, -1, -1, -1, -1, -1, -1, -1, -1],
    [-1, -1, -1, -1, -1, -1, -1, -1, -1],
    [-1, -1, -1, -1, -1, -1, -1, -1, -1],
    [-1, -1, -1, -1, -1, -1, -1, -1, -1],
    [-1, -1, -1, -1, -1, -1, -1, -1, -1],
    [-1, 513, 514, -1, 515, 516, 517, -1, -1],
    [518, 519, 520, -1, 522, 523, 524, -1, -1],
    [-1, -1, -1, -1, -1, -1, 529, 530, 531],
    [-1, -1, -1, -1, -1, -1, -1, -1, -1],
    [-1, 533, 534, 535, 536, 537, 538, -1, 540],
    [541, 542, 543, 544, 545, 546, 547, 548, 549],
    [550, 551, 552, 553, 554, 555, -1, -1, 556],
    [-1, 557, 558, 559, 560, -1, -1, -1, 561],
    [-1, 562, 563, 564, 565, 566, 567, 568, 569],
    [570, 571, 572, 573, 574, 575, 576, -1, -1],
    [-1, -1, -1, -1, -1, -1, -1, -1, -1],
    [-1, -1, -1, -1, 577, 578, -1, 579, -1],
    [-1, -1, -1, -1, -1, 580, 581, -1, -1],
    [-1, -1, -1, -1, -1, -1, -1, -1, 582],
    [583, -1, -1, -1, -1, -1, -1, -1, -1],
    [-1, -1, -1, -1, -1, -1, -1, 584, -1],
    [-1, 585, 586, 587, 588, -1, -1, -1, 589],
    [590, 591, 592, 593, 594, 595, 596, 597, 598],
    [599, 600, 601, -1, -1, -1, -1, -1, -1],
    [-1, -1, -1, -1, -1, -1, -1, -1, 602],
    [-1, -1, -1, -1, -1, -1, 603, -1, -1],
    [-1, -1, -1, -1, -1, -1, -1, -1, -1],
    [604, -1, -1, -1, -1, 605, 606, -1, -1],
    [-1, 607, 608, 609, 610, 611, 612, 613, 614],
    [615, -1, 616, 617, 618, 619, 620, 621, 622],
    [623, -1, -1, 624, 625, -1, 626, -1, -1],
    [627, -1, 628, 629, 630, 631, 632, 633, 634],
    [635, 636, 637, 638, 639, 640, -1, 641, 642],
    [643, -1, -1, -1, 644, 645, -1, -1, 646],
    [647, 648, 649, 650, 651, 652, 653, 654, 655],
    [656, 657, 658, 659, 660, 661, 662, 663, -1],
    [-1, 664, 665, 666, -1, 760, -1, -1, -1],
    [-1, -1, -1, -1, 667, -1, -1, 668, -1],
    [-1, 669, 670, 671, 672, 673, 674, 675, 676],
    [677, 678, 679, 680, 681, 682, 683, 684, 685],
    [686, 687, 688, 689, 690, 691, -1, -1, -1],
    [-1, -1, -1, -1, -1, -1, 693, -1, -1],
    [-1, 694, -1, -1, -1, -1, 695, -1, 696],
    [-1, -1, 698, -1, 699, -1, 700, 701, -1],
    [-1, 703, 704, 705, -1, 706, -1, -1, -1],
    [-1, -1, 708, 709, -1, -1, -1, -1, -1],
    [-1, -1, -1, -1, -1, -1, -1, -1, -1],
    [-1, -1, -1, -1, -1, -1, -1, -1, -1],
    [-1, -1, -1, 710, -1, -1, 711, -1, 713],
    [714, 715, 716, 717, -1, 718, -1, -1, -1],
    [-1, -1, -1, -1, -1, -1, -1, -1, 719],
    [720, 721, 722, 723, 724, 725, 726, -1, -1],
    [727, 728, 729, 730, 731, 732, -1, -1, -1],
    [733, -1, -1, -1, -1, -1, -1, -1, -1],
    [-1, 734, -1, 527, 823, -1, 512, 521, 525],
    [526, 528, 532, -1, -1, -1, -1, 539, -1],
    [692, 697, 702, -1, 707, 712, -1, -1, -1],
    [-1, -1, -1, -1, -1, -1, -1, -1, -1],
    [-1, -1, -1, -1, -1, -1, -1, -1, -1],
    [-1, -1, -1, -1, -1, -1, -1, -1, -1],
    [-1, -1, -1, -1, -1, -1, -1, -1, -1],
    [-1, -1, -1, -1, -1, -1, -1, -1, -1],
    [-1, -1, -1, -1, -1, -1, -1, -1, -1],
    [-1, -1, -1, -1, -1, -1, -1, -1, -1],
    [-1, -1, -1, -1, -1, -1, -1, -1, -1],
    [-1, -1, -1, -1, -1, -1, -1, -1, 735],
    [-1, -1, -1, -1, -1, -1, -1, -1, -1],
    [-1, -1, -1, -1, -1, -1, -1, -1, -1],
    [-1, -1, -1, -1, -1, -1, -1, -1, -1],
    [-1, -1, -1, -1, -1, -1, -1, 736, 737],
    [738, 739, 740, -1, 741, -1, 742, 743, 744],
    [-1, -1, 745, 746, 747, -1, -1, 748, -1],
    [-1, 749, -1, 761, -1, -1, -1, -1, -1],
    [-1, -1, -1, -1, -1, -1, -1, -1, -1],
    [-1, -1, -1, -1, -1, -1, -1, -1, -1],
    [-1, -1, -1, -1, -1, -1, -1, -1, -1],
    [-1, -1, -1, -1, 750, 751, 752, 753, 754],
    [-1, -1, -1, 755, -1, -1, -1, -1, 756],
    [757, -1, 758, 759, 762, 763, 764, 765, 766],
    [767, 768, 769, 770, 771, 772, 773, 774, 775],
    [776, 777, 778, 779, 780, 781, 782, 783, 784],
    [785, 786, 787, 788, 789, 790, 791, 792, 793],
    [794, 795, 796, 797, 798, 799, 800, 801, 802],
    [803, 804, 805, 806, 807, 808, 809, 810, 811],
    [812, 813, 814, 815, 816, 817, 818, 819, 820],
    [821, 822, 824, 825, -1, -1, -1, -1, -1],
    [-1, -1, -1, -1, -1, -1, -1, -1, -1],
    [-1, -1, -1, -1, -1, -1, -1, -1, -1],
    [-1, -1, -1, -1, -1, -1, -1, -1, -1],
    [-1, -1, -1, -1, -1, -1, -1, -1, -1],
    [-1, -1]]"

definition runs_EoaM2P :: "(int \<times> nat) list" where
  "runs_EoaM2P = [
    (0,24), (-1,1), (25,2), (-1,1), (28,1), (131,1), (30,3), (-1,3), (36,1), (-1,2), (39,3),
    (-1,1), (42,16), (-1,2), (60,2), (259,1), (62,2), (-1,1), (64,14), (-1,3), (79,4), (-1,3),
    (85,1), (-1,1), (83,1), (-1,4), (87,2), (-1,1), (89,1), (-1,1), (90,7), (-1,1), (97,1),
    (-1,1), (98,16), (-1,2), (114,2), (-1,1), (116,10), (-1,6), (126,3), (-1,8), (135,13),
    (-1,1), (149,3), (-1,2), (154,1), (-1,4), (155,3), (-1,1), (158,5), (-1,1), (164,11),
    (-1,1), (175,10), (-1,2), (185,1), (-1,1), (186,5), (-1,1), (191,2), (-1,1), (194,13),
    (-1,1), (207,1), (-1,1), (209,2), (-1,1), (211,1), (-1,1), (212,5), (-1,5), (217,4), (-1,1),
    (222,4), (-1,1), (226,12), (-1,3), (238,3), (-1,1), (241,5), (-1,1), (246,4), (-1,1),
    (250,6), (-1,2), (257,1), (-1,1), (270,1), (35,1), (273,1), (-1,3), (24,1), (27,1), (29,1),
    (-1,1), (33,2), (37,2), (58,2), (78,1), (84,1), (86,1), (129,2), (132,3), (148,1), (152,2),
    (163,1), (193,1), (208,1), (221,1), (-1,1), (256,1), (258,1), (260,10), (271,2), (274,3),
    (-1,154), (513,2), (-1,1), (515,3), (-1,2), (518,3), (-1,1), (522,3), (-1,8), (529,3),
    (-1,10), (533,6), (-1,1), (540,16), (-1,2), (556,1), (-1,1), (557,4), (-1,3), (561,1),
    (-1,1), (562,15), (-1,15), (577,2), (-1,1), (579,1), (-1,6), (580,2), (-1,10), (582,2),
    (-1,15), (584,1), (-1,2), (585,4), (-1,3), (589,13), (-1,14), (602,1), (-1,6), (603,1),
    (-1,11), (604,1), (-1,4), (605,2), (-1,3), (607,9), (-1,1), (616,8), (-1,2), (624,2),
    (-1,1), (626,1), (-1,2), (627,1), (-1,1), (628,13), (-1,1), (641,3), (-1,3), (644,2),
    (-1,2), (646,18), (-1,2), (664,3), (-1,1), (760,1), (-1,7), (667,1), (-1,2), (668,1),
    (-1,2), (669,23), (-1,9), (693,1), (-1,3), (694,1), (-1,4), (695,1), (-1,1), (696,1),
    (-1,2), (698,1), (-1,1), (699,1), (-1,1), (700,2), (-1,2), (703,3), (-1,1), (706,1), (-1,5),
    (708,2), (-1,26), (710,1), (-1,2), (711,1), (-1,1), (713,5), (-1,1), (718,1), (-1,11),
    (719,8), (-1,2), (727,6), (-1,3), (733,1), (-1,9), (734,1), (-1,1), (527,1), (823,1),
    (-1,1), (512,1), (521,1), (525,2), (528,1), (532,1), (-1,4), (539,1), (-1,1), (692,1),
    (697,1), (702,1), (-1,1), (707,1), (712,1), (-1,83), (735,1), (-1,34), (736,5), (-1,1),
    (741,1), (-1,1), (742,3), (-1,2), (745,3), (-1,2), (748,1), (-1,2), (749,1), (-1,1),
    (761,1), (-1,36), (750,5), (-1,3), (755,1), (-1,4), (756,2), (-1,1), (758,2), (762,61),
    (824,2), (-1,43)]"

lemma fEoaM2PTable_runs: "fEoaM2PTable = seg_list runs_EoaM2P"
  unfolding fEoaM2PTable_def runs_EoaM2P_def by (simp only: seg_eval)

section \<open>\<open>fEoaP2MTable\<close>\<close>

definition fEoaP2MTable :: "int list" where
  "fEoaP2MTable = concat [
    [0, 1, 2, 3, 4, 5, 6, 7, 8],
    [9, 10, 11, 12, 13, 14, 15, 16, 17],
    [18, 19, 20, 21, 22, 23, 317, 25, 26],
    [318, 28, 319, 30, 31, 32, 321, 322, 312],
    [36, 323, 324, 39, 40, 41, 43, 44, 45],
    [46, 47, 48, 49, 50, 51, 52, 53, 54],
    [55, 56, 57, 58, 325, 326, 61, 62, 64],
    [65, 67, 68, 69, 70, 71, 72, 73, 74],
    [75, 76, 77, 78, 79, 80, 327, 84, 85],
    [86, 87, 93, 328, 91, 329, 98, 99, 101],
    [103, 104, 105, 106, 107, 108, 109, 111, 113],
    [114, 115, 116, 117, 118, 119, 120, 121, 122],
    [123, 124, 125, 126, 127, 128, 131, 132, 134],
    [135, 136, 137, 138, 139, 140, 141, 142, 143],
    [150, 151, 152, 330, 331, 29, 332, 333, 334],
    [161, 162, 163, 164, 165, 166, 167, 168, 169],
    [170, 171, 172, 173, 335, 175, 176, 177, 336],
    [337, 180, 185, 186, 187, 189, 190, 191, 192],
    [193, 338, 195, 196, 197, 198, 199, 200, 201],
    [202, 203, 204, 205, 207, 208, 209, 210, 211],
    [212, 213, 214, 215, 216, 219, 221, 222, 223],
    [224, 225, 227, 228, 339, 230, 231, 232, 233],
    [234, 235, 236, 237, 238, 239, 240, 241, 242],
    [244, 340, 246, 247, 249, 251, 252, 253, 254],
    [255, 261, 262, 263, 264, 341, 266, 267, 268],
    [269, 271, 272, 273, 274, 275, 276, 277, 278],
    [279, 280, 281, 282, 286, 287, 288, 290, 291],
    [292, 293, 294, 296, 297, 298, 299, 301, 302],
    [303, 304, 305, 306, 343, 309, 344, 63, 345],
    [346, 347, 348, 349, 350, 351, 352, 353, 354],
    [311, 355, 356, 313, 357, 358, 359, -1, -1],
    [-1, -1, -1, -1, -1, -1, -1, -1, -1],
    [-1, -1, -1, -1, -1, -1, -1, -1, -1],
    [-1, -1, -1, -1, -1, -1, -1, -1, -1],
    [-1, -1, -1, -1, -1, -1, -1, -1, -1],
    [-1, -1, -1, -1, -1, -1, -1, -1, -1],
    [-1, -1, -1, -1, -1, -1, -1, -1, -1],
    [-1, -1, -1, -1, -1, -1, -1, -1, -1],
    [-1, -1, -1, -1, -1, -1, -1, -1, -1],
    [-1, -1, -1, -1, -1, -1, -1, -1, -1],
    [-1, -1, -1, -1, -1, -1, -1, -1, -1],
    [-1, -1, -1, -1, -1, -1, -1, -1, -1],
    [-1, -1, -1, -1, -1, -1, -1, -1, -1],
    [-1, -1, -1, -1, -1, -1, -1, -1, -1],
    [-1, -1, -1, -1, -1, -1, -1, -1, -1],
    [-1, -1, -1, -1, -1, -1, -1, -1, -1],
    [-1, -1, -1, -1, -1, -1, -1, -1, -1],
    [-1, -1, -1, -1, -1, -1, -1, -1, -1],
    [-1, -1, -1, -1, -1, -1, -1, -1, -1],
    [-1, -1, -1, -1, -1, -1, -1, -1, -1],
    [-1, -1, -1, -1, -1, -1, -1, -1, -1],
    [-1, -1, -1, -1, -1, -1, -1, -1, -1],
    [-1, -1, -1, -1, -1, -1, -1, -1, -1],
    [-1, -1, -1, -1, -1, -1, -1, -1, -1],
    [-1, -1, -1, -1, -1, -1, -1, -1, -1],
    [-1, -1, -1, -1, -1, -1, -1, -1, -1],
    [-1, -1, -1, -1, -1, -1, -1, -1, 960],
    [514, 515, 517, 518, 519, 522, 523, 524, 961],
    [526, 527, 528, 962, 963, 957, 964, 537, 538],
    [539, 965, 550, 551, 552, 553, 554, 555, 970],
    [557, 558, 559, 560, 561, 562, 563, 564, 565],
    [566, 567, 568, 569, 570, 571, 572, 575, 577],
    [578, 579, 580, 584, 586, 587, 588, 589, 590],
    [591, 592, 593, 594, 595, 596, 597, 598, 599],
    [600, 616, 617, 619, 626, 627, 638, 639, 655],
    [658, 659, 660, 661, 665, 666, 667, 668, 669],
    [670, 671, 672, 673, 674, 675, 676, 677, 692],
    [699, 711, 716, 717, 721, 722, 723, 724, 725],
    [726, 727, 728, 729, 731, 732, 733, 734, 735],
    [736, 737, 738, 741, 742, 744, 747, 749, 750],
    [751, 752, 753, 754, 755, 756, 757, 758, 759],
    [760, 761, 763, 764, 765, 769, 770, 773, 774],
    [775, 776, 777, 778, 779, 780, 781, 782, 783],
    [784, 785, 786, 787, 788, 789, 790, 793, 794],
    [795, 805, 808, 811, 812, 813, 814, 815, 816],
    [817, 818, 819, 820, 821, 822, 823, 824, 825],
    [826, 827, 828, 829, 830, 831, 832, 833, 972],
    [843, 847, 852, 854, 973, 857, 859, 861, 862],
    [974, 865, 866, 867, 869, 976, 875, 876, 903],
    [906, 977, 908, 909, 910, 911, 912, 914, 926],
    [927, 928, 929, 930, 931, 932, 933, 936, 937],
    [938, 939, 940, 941, 945, 955, 1061, 1096, 1097],
    [1098, 1099, 1100, 1102, 1104, 1105, 1106, 1109, 1110],
    [1111, 1114, 1117, 1156, 1157, 1158, 1159, 1160, 1164],
    [1169, 1170, 1172, 1173, 797, 1119, 1174, 1175, 1176],
    [1177, 1178, 1179, 1180, 1181, 1182, 1183, 1184, 1185],
    [1186, 1187, 1188, 1189, 1190, 1191, 1192, 1193, 1194],
    [1195, 1196, 1197, 1198, 1199, 1200, 1201, 1202, 1203],
    [1204, 1205, 1206, 1207, 1208, 1209, 1210, 1211, 1212],
    [1213, 1214, 1215, 1216, 1217, 1218, 1219, 1220, 1221],
    [1222, 1223, 1224, 1225, 1226, 1227, 1228, 1229, 1230],
    [1231, 1232, 1233, 1234, 958, 1235, 1236, -1, -1],
    [-1, -1, -1, -1, -1, -1, -1, -1, -1],
    [-1, -1, -1, -1, -1, -1, -1, -1, -1],
    [-1, -1, -1, -1, -1, -1, -1, -1, -1],
    [-1, -1, -1, -1, -1, -1, -1, -1, -1],
    [-1, -1, -1, -1, -1, -1, -1, -1, -1],
    [-1, -1, -1, -1, -1, -1, -1, -1, -1],
    [-1, -1, -1, -1, -1, -1, -1, -1, -1],
    [-1, -1, -1, -1, -1, -1, -1, -1, -1],
    [-1, -1, -1, -1, -1, -1, -1, -1, -1],
    [-1, -1, -1, -1, -1, -1, -1, -1, -1],
    [-1, -1, -1, -1, -1, -1, -1, -1, -1],
    [-1, -1, -1, -1, -1, -1, -1, -1, -1],
    [-1, -1, -1, -1, -1, -1, -1, -1, -1],
    [-1, -1, -1, -1, -1, -1, -1, -1, -1],
    [-1, -1, -1, -1, -1, -1, -1, -1, -1],
    [-1, -1, -1, -1, -1, -1, -1, -1, -1],
    [-1, -1, -1, -1, -1, -1, -1, -1, -1],
    [-1, -1, -1, -1, -1, -1, -1, -1, -1],
    [-1, -1, -1, -1, -1, -1, -1, -1, -1],
    [-1, -1, -1, -1, -1, -1, -1, -1, -1],
    [-1, -1, -1, -1, -1, -1, -1, -1, -1],
    [-1, -1, -1, -1, -1, -1, -1, -1, -1],
    [-1, -1, -1, -1, -1, -1, -1, -1, -1],
    [-1, -1, -1, -1, -1, -1, -1, -1, -1],
    [-1, -1, -1, -1, -1, -1, -1, -1, -1],
    [-1, -1, -1, -1, -1, -1, -1, -1, -1],
    [-1, -1, -1, -1, -1, -1, -1, -1, -1],
    [-1, -1, -1, -1, -1, -1, -1, -1, -1],
    [-1, -1, -1, -1, -1, -1, -1, -1, -1],
    [-1, -1, -1, -1, -1, -1, -1, -1, -1],
    [-1, -1, -1, -1, -1, -1, -1, -1, -1],
    [-1, -1, -1, -1, -1, -1, -1, -1, -1],
    [-1, -1, -1, -1, -1, -1, -1, -1, -1],
    [-1, -1, -1, -1, -1, -1, -1, -1, -1],
    [-1, -1, -1, -1, -1, -1, -1, -1, -1],
    [-1, -1, -1, -1, -1, -1, -1, -1, -1],
    [-1, -1, -1, -1, -1, -1, -1, -1, -1],
    [-1, -1, -1, -1, -1, -1, -1, -1, -1],
    [-1, -1, -1, -1, -1, -1, -1, -1, -1],
    [-1, -1, -1, -1, -1, -1, -1, -1, -1],
    [-1, -1, -1, -1, -1, -1, -1, -1, -1],
    [-1, -1, -1, -1, -1, -1, -1, -1, -1],
    [-1, -1, -1, -1, -1, -1, -1, -1, -1],
    [-1, -1, -1, -1, -1, -1, -1, -1, -1],
    [-1, -1, -1, -1, -1, -1, -1, -1, -1],
    [-1, -1, -1, -1, -1, -1, -1, -1, -1],
    [-1, -1, -1, -1, -1, -1, -1, -1, -1],
    [-1, -1, -1, -1, -1, -1, -1, -1, -1],
    [-1, -1, -1, -1, -1, -1, -1, -1, -1],
    [-1, -1, -1, -1, -1, -1, -1, -1, -1],
    [-1, -1]]"

definition runs_EoaP2M :: "(int \<times> nat) list" where
  "runs_EoaP2M = [
    (0,24), (317,1), (25,2), (318,1), (28,1), (319,1), (30,3), (321,2), (312,1), (36,1),
    (323,2), (39,3), (43,16), (325,2), (61,2), (64,2), (67,14), (327,1), (84,4), (93,1),
    (328,1), (91,1), (329,1), (98,2), (101,1), (103,7), (111,1), (113,16), (131,2), (134,10),
    (150,3), (330,2), (29,1), (332,3), (161,13), (335,1), (175,3), (336,2), (180,1), (185,3),
    (189,5), (338,1), (195,11), (207,10), (219,1), (221,5), (227,2), (339,1), (230,13), (244,1),
    (340,1), (246,2), (249,1), (251,5), (261,4), (341,1), (266,4), (271,12), (286,3), (290,5),
    (296,4), (301,6), (343,1), (309,1), (344,1), (63,1), (345,10), (311,1), (355,2), (313,1),
    (357,3), (-1,235), (960,1), (514,2), (517,3), (522,3), (961,1), (526,3), (962,2), (957,1),
    (964,1), (537,3), (965,1), (550,6), (970,1), (557,16), (575,1), (577,4), (584,1), (586,15),
    (616,2), (619,1), (626,2), (638,2), (655,1), (658,4), (665,13), (692,1), (699,1), (711,1),
    (716,2), (721,9), (731,8), (741,2), (744,1), (747,1), (749,13), (763,3), (769,2), (773,18),
    (793,3), (805,1), (808,1), (811,23), (972,1), (843,1), (847,1), (852,1), (854,1), (973,1),
    (857,1), (859,1), (861,2), (974,1), (865,3), (869,1), (976,1), (875,2), (903,1), (906,1),
    (977,1), (908,5), (914,1), (926,8), (936,6), (945,1), (955,1), (1061,1), (1096,5), (1102,1),
    (1104,3), (1109,3), (1114,1), (1117,1), (1156,5), (1164,1), (1169,2), (1172,2), (797,1),
    (1119,1), (1174,61), (958,1), (1235,2), (-1,454)]"

lemma fEoaP2MTable_runs: "fEoaP2MTable = seg_list runs_EoaP2M"
  unfolding fEoaP2MTable_def runs_EoaP2M_def by (simp only: seg_eval)

section \<open>\<open>fHexM2PTable\<close>\<close>

definition fHexM2PTable :: "int list" where
  "fHexM2PTable = concat [
    [0, 1, 2, 3, 4, 5, 6, 7, 8],
    [9, 10, 11, 12, 13, 14, 15, 16, 17],
    [18, 19, 20, 21, 22, 23, -1, -1, 26],
    [-1, 28, 131, 30, 31, 32, -1, -1, -1],
    [36, -1, -1, 39, 40, 41, -1, 42, 43],
    [44, 45, 46, 47, 48, 49, 50, 51, 52],
    [53, 54, 55, 56, 57, -1, -1, 60, 61],
    [259, 62, 63, -1, 64, 65, 66, 67, 68],
    [69, 70, 71, 72, 73, -1, 75, 76, 77],
    [-1, -1, -1, 79, 80, 81, 82, -1, -1],
    [-1, 85, -1, 83, -1, -1, -1, -1, 87],
    [88, -1, 89, -1, 90, 91, 92, 93, 94],
    [95, 96, -1, 97, -1, 98, 99, 100, 101],
    [102, 103, 104, 105, 106, 107, 108, 109, 110],
    [111, 112, 113, -1, -1, 114, 115, -1, 116],
    [117, 118, 119, 120, 121, 122, 123, 124, 125],
    [-1, -1, -1, -1, -1, -1, 126, 127, 128],
    [-1, -1, -1, -1, -1, -1, -1, -1, 135],
    [136, 137, 138, 139, 140, 141, 142, 143, 144],
    [145, 146, 147, -1, 149, 150, 151, -1, -1],
    [154, -1, -1, -1, -1, 155, 156, 157, -1],
    [158, 159, 160, 161, 162, -1, 164, 165, 166],
    [167, 168, 169, 170, 171, 172, 173, 174, -1],
    [175, 176, 177, 178, 179, 180, 181, 182, 183],
    [184, -1, -1, 185, -1, 186, 187, 188, 189],
    [190, -1, 191, 192, -1, 194, 195, 196, 197],
    [198, 199, 200, 201, 202, 203, 204, 205, 206],
    [-1, 207, -1, 209, 210, -1, 211, -1, 212],
    [213, 214, 215, 216, -1, -1, -1, -1, -1],
    [217, 218, 219, 220, -1, 222, -1, 224, 225],
    [-1, 226, 227, 228, 229, 230, 231, 232, 233],
    [234, 235, 236, 237, -1, -1, -1, 238, 239],
    [240, -1, 241, 242, 243, 244, 245, -1, 246],
    [247, 248, 249, -1, 250, 251, 252, 253, 254],
    [255, -1, -1, 257, -1, 270, 35, 273, -1],
    [-1, -1, 24, -1, 29, -1, 33, 34, 37],
    [38, 58, 59, 78, 84, 86, 129, 130, 132],
    [133, 134, 148, 152, -1, 163, 193, 208, 221],
    [-1, 256, 258, 260, 261, 262, -1, 264, 265],
    [266, 267, 268, 269, 271, 272, 274, 275, 276],
    [-1, -1, 25, 27, 74, 153, 223, 263, 277],
    [-1, -1, -1, -1, -1, -1, -1, -1, -1],
    [-1, -1, -1, -1, -1, -1, -1, -1, -1],
    [-1, -1, -1, -1, -1, -1, -1, -1, -1],
    [-1, -1, -1, -1, -1, -1, -1, -1, -1],
    [-1, -1, -1, -1, -1, -1, -1, -1, -1],
    [-1, -1, -1, -1, -1, -1, -1, -1, -1],
    [-1, -1, -1, -1, -1, -1, -1, -1, -1],
    [-1, -1, -1, -1, -1, -1, -1, -1, -1],
    [-1, -1, -1, -1, -1, -1, -1, -1, -1],
    [-1, -1, -1, -1, -1, -1, -1, -1, -1],
    [-1, -1, -1, -1, -1, -1, -1, -1, -1],
    [-1, -1, -1, -1, -1, -1, -1, -1, -1],
    [-1, -1, -1, -1, -1, -1, -1, -1, -1],
    [-1, -1, -1, -1, -1, -1, -1, -1, -1],
    [-1, -1, -1, -1, -1, -1, -1, -1, -1],
    [-1, -1, -1, -1, -1, -1, -1, -1, -1],
    [-1, 513, 514, -1, 515, 516, 517, -1, -1],
    [518, 519, 520, -1, 522, 523, 524, -1, -1],
    [-1, -1, -1, 826, -1, -1, 529, 530, 531],
    [-1, -1, -1, -1, -1, -1, -1, -1, -1],
    [-1, -1, -1, -1, -1, 537, 538, -1, -1],
    [-1, 542, 543, 544, 545, 546, 547, 548, 549],
    [550, 551, 552, 553, 554, 555, -1, -1, 556],
    [-1, 557, 558, 559, 560, -1, -1, -1, 561],
    [-1, 562, 563, 564, 565, 566, 567, 568, 569],
    [570, 571, 572, 573, 574, 575, 576, -1, -1],
    [-1, -1, -1, -1, -1, -1, -1, -1, -1],
    [-1, -1, -1, -1, 577, 578, -1, 579, -1],
    [-1, -1, -1, -1, -1, 580, 581, -1, -1],
    [-1, -1, -1, -1, -1, -1, -1, -1, 582],
    [583, -1, -1, -1, -1, -1, -1, -1, -1],
    [-1, -1, -1, -1, -1, -1, -1, 584, -1],
    [-1, 585, 586, 587, 588, -1, -1, -1, 589],
    [590, 591, 592, 593, 594, 595, 596, 597, 598],
    [599, 600, 601, -1, -1, -1, -1, -1, -1],
    [-1, -1, -1, -1, -1, -1, -1, -1, 602],
    [-1, -1, -1, -1, -1, -1, 603, -1, -1],
    [-1, -1, -1, -1, -1, -1, -1, -1, -1],
    [604, -1, -1, -1, -1, 605, 606, -1, -1],
    [-1, 607, 608, 609, 610, 611, 612, 613, 614],
    [615, -1, 616, 617, 618, 619, 620, 621, 622],
    [623, -1, -1, 624, 625, -1, 626, -1, -1],
    [627, -1, 628, 629, 630, 631, 632, 633, 634],
    [635, 636, 637, 638, 639, 640, -1, 641, 642],
    [643, -1, -1, -1, 644, 645, -1, -1, 646],
    [647, 648, 649, 650, 651, 652, 653, 654, 655],
    [656, 657, 658, 659, 660, 661, 662, 663, -1],
    [-1, 664, 665, 666, -1, 760, -1, -1, -1],
    [-1, -1, -1, -1, 667, -1, -1, 668, -1],
    [-1, 669, 670, 671, 672, 673, 674, 675, 676],
    [677, 678, 679, 680, 681, 682, 683, 684, 685],
    [686, 687, 688, 689, 690, 691, -1, -1, -1],
    [-1, -1, -1, -1, -1, -1, 693, -1, -1],
    [-1, 694, -1, -1, -1, -1, 695, -1, 696],
    [-1, -1, 698, -1, 699, -1, 700, 701, -1],
    [-1, 703, 704, 705, -1, 706, -1, -1, -1],
    [-1, -1, 708, 709, -1, -1, -1, -1, -1],
    [-1, -1, -1, -1, -1, -1, -1, -1, -1],
    [-1, -1, -1, -1, -1, -1, -1, -1, -1],
    [-1, -1, -1, 710, -1, -1, 711, -1, 713],
    [714, 715, 716, 717, -1, 718, -1, -1, -1],
    [-1, -1, -1, -1, -1, -1, -1, -1, 719],
    [720, 721, 722, 723, -1, 725, 726, -1, -1],
    [727, 728, 729, 730, 731, 732, -1, -1, -1],
    [733, -1, -1, -1, -1, -1, -1, -1, -1],
    [-1, 734, -1, -1, 823, -1, 512, 521, 525],
    [526, 528, 532, -1, -1, -1, -1, 539, -1],
    [692, 697, 702, -1, 707, 712, -1, -1, -1],
    [-1, -1, -1, -1, -1, -1, -1, -1, -1],
    [-1, -1, 527, 533, 534, 535, 536, 540, 541],
    [724, -1, -1, -1, -1, -1, -1, -1, -1],
    [-1, -1, -1, -1, -1, -1, -1, -1, -1],
    [-1, -1, -1, -1, -1, -1, -1, -1, -1],
    [-1, -1, -1, -1, -1, -1, -1, -1, -1],
    [-1, -1, -1, -1, -1, -1, -1, -1, -1],
    [-1, -1, -1, -1, -1, -1, -1, -1, -1],
    [-1, -1, -1, -1, -1, -1, -1, -1, 735],
    [-1, -1, -1, -1, -1, -1, -1, -1, -1],
    [-1, -1, -1, -1, -1, -1, -1, -1, -1],
    [-1, -1, -1, -1, -1, -1, -1, -1, -1],
    [-1, -1, -1, -1, -1, -1, -1, 736, 737],
    [738, 739, 740, -1, 741, -1, 742, 743, 744],
    [-1, -1, 745, 746, 747, -1, -1, 748, -1],
    [-1, 749, -1, 761, -1, -1, -1, -1, -1],
    [-1, -1, -1, -1, -1, -1, -1, -1, -1],
    [-1, -1, -1, -1, -1, -1, -1, -1, -1],
    [-1, -1, -1, -1, -1, -1, -1, -1, -1],
    [-1, -1, -1, -1, 750, 751, 752, 753, 754],
    [-1, -1, -1, 755, -1, -1, -1, -1, 756],
    [757, -1, 758, 759, 762, 763, 764, 765, 766],
    [767, 768, 769, 770, 771, 772, 773, 774, 775],
    [776, 777, 778, 779, 780, 781, 782, 783, 784],
    [785, 786, 787, 788, 789, 790, 791, 792, 793],
    [794, 795, 796, 797, 798, 799, 800, 801, 802],
    [803, 804, 805, 806, 807, 808, 809, 810, 811],
    [812, 813, 814, 815, 816, 817, 818, 819, 820],
    [821, 822, 824, 825, -1, -1, -1, -1, -1],
    [-1, -1, -1, -1, -1, -1, -1, -1, -1],
    [-1, -1, -1, -1, -1, -1, -1, -1, -1],
    [-1, -1, -1, -1, -1, -1, -1, -1, -1],
    [-1, -1, -1, -1, -1, -1, -1, -1, -1],
    [-1, -1]]"

definition runs_HexM2P :: "(int \<times> nat) list" where
  "runs_HexM2P = [
    (0,24), (-1,2), (26,1), (-1,1), (28,1), (131,1), (30,3), (-1,3), (36,1), (-1,2), (39,3),
    (-1,1), (42,16), (-1,2), (60,2), (259,1), (62,2), (-1,1), (64,10), (-1,1), (75,3), (-1,3),
    (79,4), (-1,3), (85,1), (-1,1), (83,1), (-1,4), (87,2), (-1,1), (89,1), (-1,1), (90,7),
    (-1,1), (97,1), (-1,1), (98,16), (-1,2), (114,2), (-1,1), (116,10), (-1,6), (126,3), (-1,8),
    (135,13), (-1,1), (149,3), (-1,2), (154,1), (-1,4), (155,3), (-1,1), (158,5), (-1,1),
    (164,11), (-1,1), (175,10), (-1,2), (185,1), (-1,1), (186,5), (-1,1), (191,2), (-1,1),
    (194,13), (-1,1), (207,1), (-1,1), (209,2), (-1,1), (211,1), (-1,1), (212,5), (-1,5),
    (217,4), (-1,1), (222,1), (-1,1), (224,2), (-1,1), (226,12), (-1,3), (238,3), (-1,1),
    (241,5), (-1,1), (246,4), (-1,1), (250,6), (-1,2), (257,1), (-1,1), (270,1), (35,1),
    (273,1), (-1,3), (24,1), (-1,1), (29,1), (-1,1), (33,2), (37,2), (58,2), (78,1), (84,1),
    (86,1), (129,2), (132,3), (148,1), (152,1), (-1,1), (163,1), (193,1), (208,1), (221,1),
    (-1,1), (256,1), (258,1), (260,3), (-1,1), (264,6), (271,2), (274,3), (-1,2), (25,1),
    (27,1), (74,1), (153,1), (223,1), (263,1), (277,1), (-1,145), (513,2), (-1,1), (515,3),
    (-1,2), (518,3), (-1,1), (522,3), (-1,5), (826,1), (-1,2), (529,3), (-1,14), (537,2),
    (-1,3), (542,14), (-1,2), (556,1), (-1,1), (557,4), (-1,3), (561,1), (-1,1), (562,15),
    (-1,15), (577,2), (-1,1), (579,1), (-1,6), (580,2), (-1,10), (582,2), (-1,15), (584,1),
    (-1,2), (585,4), (-1,3), (589,13), (-1,14), (602,1), (-1,6), (603,1), (-1,11), (604,1),
    (-1,4), (605,2), (-1,3), (607,9), (-1,1), (616,8), (-1,2), (624,2), (-1,1), (626,1), (-1,2),
    (627,1), (-1,1), (628,13), (-1,1), (641,3), (-1,3), (644,2), (-1,2), (646,18), (-1,2),
    (664,3), (-1,1), (760,1), (-1,7), (667,1), (-1,2), (668,1), (-1,2), (669,23), (-1,9),
    (693,1), (-1,3), (694,1), (-1,4), (695,1), (-1,1), (696,1), (-1,2), (698,1), (-1,1),
    (699,1), (-1,1), (700,2), (-1,2), (703,3), (-1,1), (706,1), (-1,5), (708,2), (-1,26),
    (710,1), (-1,2), (711,1), (-1,1), (713,5), (-1,1), (718,1), (-1,11), (719,5), (-1,1),
    (725,2), (-1,2), (727,6), (-1,3), (733,1), (-1,9), (734,1), (-1,2), (823,1), (-1,1),
    (512,1), (521,1), (525,2), (528,1), (532,1), (-1,4), (539,1), (-1,1), (692,1), (697,1),
    (702,1), (-1,1), (707,1), (712,1), (-1,14), (527,1), (533,4), (540,2), (724,1), (-1,61),
    (735,1), (-1,34), (736,5), (-1,1), (741,1), (-1,1), (742,3), (-1,2), (745,3), (-1,2),
    (748,1), (-1,2), (749,1), (-1,1), (761,1), (-1,36), (750,5), (-1,3), (755,1), (-1,4),
    (756,2), (-1,1), (758,2), (762,61), (824,2), (-1,43)]"

lemma fHexM2PTable_runs: "fHexM2PTable = seg_list runs_HexM2P"
  unfolding fHexM2PTable_def runs_HexM2P_def by (simp only: seg_eval)

section \<open>\<open>fHexP2MTable\<close>\<close>

definition fHexP2MTable :: "int list" where
  "fHexP2MTable = concat [
    [0, 1, 2, 3, 4, 5, 6, 7, 8],
    [9, 10, 11, 12, 13, 14, 15, 16, 17],
    [18, 19, 20, 21, 22, 23, 317, 362, 26],
    [363, 28, 319, 30, 31, 32, 321, 322, 312],
    [36, 323, 324, 39, 40, 41, 43, 44, 45],
    [46, 47, 48, 49, 50, 51, 52, 53, 54],
    [55, 56, 57, 58, 325, 326, 61, 62, 64],
    [65, 67, 68, 69, 70, 71, 72, 73, 74],
    [75, 76, 364, 78, 79, 80, 327, 84, 85],
    [86, 87, 93, 328, 91, 329, 98, 99, 101],
    [103, 104, 105, 106, 107, 108, 109, 111, 113],
    [114, 115, 116, 117, 118, 119, 120, 121, 122],
    [123, 124, 125, 126, 127, 128, 131, 132, 134],
    [135, 136, 137, 138, 139, 140, 141, 142, 143],
    [150, 151, 152, 330, 331, 29, 332, 333, 334],
    [161, 162, 163, 164, 165, 166, 167, 168, 169],
    [170, 171, 172, 173, 335, 175, 176, 177, 336],
    [365, 180, 185, 186, 187, 189, 190, 191, 192],
    [193, 338, 195, 196, 197, 198, 199, 200, 201],
    [202, 203, 204, 205, 207, 208, 209, 210, 211],
    [212, 213, 214, 215, 216, 219, 221, 222, 223],
    [224, 225, 227, 228, 339, 230, 231, 232, 233],
    [234, 235, 236, 237, 238, 239, 240, 241, 242],
    [244, 340, 246, 247, 249, 251, 252, 253, 254],
    [255, 261, 262, 263, 264, 341, 266, 366, 268],
    [269, 271, 272, 273, 274, 275, 276, 277, 278],
    [279, 280, 281, 282, 286, 287, 288, 290, 291],
    [292, 293, 294, 296, 297, 298, 299, 301, 302],
    [303, 304, 305, 306, 343, 309, 344, 63, 345],
    [346, 347, 367, 349, 350, 351, 352, 353, 354],
    [311, 355, 356, 313, 357, 358, 359, 368, -1],
    [-1, -1, -1, -1, -1, -1, -1, -1, -1],
    [-1, -1, -1, -1, -1, -1, -1, -1, -1],
    [-1, -1, -1, -1, -1, -1, -1, -1, -1],
    [-1, -1, -1, -1, -1, -1, -1, -1, -1],
    [-1, -1, -1, -1, -1, -1, -1, -1, -1],
    [-1, -1, -1, -1, -1, -1, -1, -1, -1],
    [-1, -1, -1, -1, -1, -1, -1, -1, -1],
    [-1, -1, -1, -1, -1, -1, -1, -1, -1],
    [-1, -1, -1, -1, -1, -1, -1, -1, -1],
    [-1, -1, -1, -1, -1, -1, -1, -1, -1],
    [-1, -1, -1, -1, -1, -1, -1, -1, -1],
    [-1, -1, -1, -1, -1, -1, -1, -1, -1],
    [-1, -1, -1, -1, -1, -1, -1, -1, -1],
    [-1, -1, -1, -1, -1, -1, -1, -1, -1],
    [-1, -1, -1, -1, -1, -1, -1, -1, -1],
    [-1, -1, -1, -1, -1, -1, -1, -1, -1],
    [-1, -1, -1, -1, -1, -1, -1, -1, -1],
    [-1, -1, -1, -1, -1, -1, -1, -1, -1],
    [-1, -1, -1, -1, -1, -1, -1, -1, -1],
    [-1, -1, -1, -1, -1, -1, -1, -1, -1],
    [-1, -1, -1, -1, -1, -1, -1, -1, -1],
    [-1, -1, -1, -1, -1, -1, -1, -1, -1],
    [-1, -1, -1, -1, -1, -1, -1, -1, -1],
    [-1, -1, -1, -1, -1, -1, -1, -1, -1],
    [-1, -1, -1, -1, -1, -1, -1, -1, -1],
    [-1, -1, -1, -1, -1, -1, -1, -1, 960],
    [514, 515, 517, 518, 519, 522, 523, 524, 961],
    [526, 527, 528, 962, 963, 992, 964, 537, 538],
    [539, 965, 993, 994, 995, 996, 554, 555, 970],
    [997, 998, 559, 560, 561, 562, 563, 564, 565],
    [566, 567, 568, 569, 570, 571, 572, 575, 577],
    [578, 579, 580, 584, 586, 587, 588, 589, 590],
    [591, 592, 593, 594, 595, 596, 597, 598, 599],
    [600, 616, 617, 619, 626, 627, 638, 639, 655],
    [658, 659, 660, 661, 665, 666, 667, 668, 669],
    [670, 671, 672, 673, 674, 675, 676, 677, 692],
    [699, 711, 716, 717, 721, 722, 723, 724, 725],
    [726, 727, 728, 729, 731, 732, 733, 734, 735],
    [736, 737, 738, 741, 742, 744, 747, 749, 750],
    [751, 752, 753, 754, 755, 756, 757, 758, 759],
    [760, 761, 763, 764, 765, 769, 770, 773, 774],
    [775, 776, 777, 778, 779, 780, 781, 782, 783],
    [784, 785, 786, 787, 788, 789, 790, 793, 794],
    [795, 805, 808, 811, 812, 813, 814, 815, 816],
    [817, 818, 819, 820, 821, 822, 823, 824, 825],
    [826, 827, 828, 829, 830, 831, 832, 833, 972],
    [843, 847, 852, 854, 973, 857, 859, 861, 862],
    [974, 865, 866, 867, 869, 976, 875, 876, 903],
    [906, 977, 908, 909, 910, 911, 912, 914, 926],
    [927, 928, 929, 930, 999, 932, 933, 936, 937],
    [938, 939, 940, 941, 945, 955, 1061, 1096, 1097],
    [1098, 1099, 1100, 1102, 1104, 1105, 1106, 1109, 1110],
    [1111, 1114, 1117, 1156, 1157, 1158, 1159, 1160, 1164],
    [1169, 1170, 1172, 1173, 797, 1119, 1174, 1175, 1176],
    [1177, 1178, 1179, 1180, 1181, 1182, 1183, 1184, 1185],
    [1186, 1187, 1188, 1189, 1190, 1191, 1192, 1193, 1194],
    [1195, 1196, 1197, 1198, 1199, 1200, 1201, 1202, 1203],
    [1204, 1205, 1206, 1207, 1208, 1209, 1210, 1211, 1212],
    [1213, 1214, 1215, 1216, 1217, 1218, 1219, 1220, 1221],
    [1222, 1223, 1224, 1225, 1226, 1227, 1228, 1229, 1230],
    [1231, 1232, 1233, 1234, 958, 1235, 1236, 534, -1],
    [-1, -1, -1, -1, -1, -1, -1, -1, -1],
    [-1, -1, -1, -1, -1, -1, -1, -1, -1],
    [-1, -1, -1, -1, -1, -1, -1, -1, -1],
    [-1, -1, -1, -1, -1, -1, -1, -1, -1],
    [-1, -1, -1, -1, -1, -1, -1, -1, -1],
    [-1, -1, -1, -1, -1, -1, -1, -1, -1],
    [-1, -1, -1, -1, -1, -1, -1, -1, -1],
    [-1, -1, -1, -1, -1, -1, -1, -1, -1],
    [-1, -1, -1, -1, -1, -1, -1, -1, -1],
    [-1, -1, -1, -1, -1, -1, -1, -1, -1],
    [-1, -1, -1, -1, -1, -1, -1, -1, -1],
    [-1, -1, -1, -1, -1, -1, -1, -1, -1],
    [-1, -1, -1, -1, -1, -1, -1, -1, -1],
    [-1, -1, -1, -1, -1, -1, -1, -1, -1],
    [-1, -1, -1, -1, -1, -1, -1, -1, -1],
    [-1, -1, -1, -1, -1, -1, -1, -1, -1],
    [-1, -1, -1, -1, -1, -1, -1, -1, -1],
    [-1, -1, -1, -1, -1, -1, -1, -1, -1],
    [-1, -1, -1, -1, -1, -1, -1, -1, -1],
    [-1, -1, -1, -1, -1, -1, -1, -1, -1],
    [-1, -1, -1, -1, -1, -1, -1, -1, -1],
    [-1, -1, -1, -1, -1, -1, -1, -1, -1],
    [-1, -1, -1, -1, -1, -1, -1, -1, -1],
    [-1, -1, -1, -1, -1, -1, -1, -1, -1],
    [-1, -1, -1, -1, -1, -1, -1, -1, -1],
    [-1, -1, -1, -1, -1, -1, -1, -1, -1],
    [-1, -1, -1, -1, -1, -1, -1, -1, -1],
    [-1, -1, -1, -1, -1, -1, -1, -1, -1],
    [-1, -1, -1, -1, -1, -1, -1, -1, -1],
    [-1, -1, -1, -1, -1, -1, -1, -1, -1],
    [-1, -1, -1, -1, -1, -1, -1, -1, -1],
    [-1, -1, -1, -1, -1, -1, -1, -1, -1],
    [-1, -1, -1, -1, -1, -1, -1, -1, -1],
    [-1, -1, -1, -1, -1, -1, -1, -1, -1],
    [-1, -1, -1, -1, -1, -1, -1, -1, -1],
    [-1, -1, -1, -1, -1, -1, -1, -1, -1],
    [-1, -1, -1, -1, -1, -1, -1, -1, -1],
    [-1, -1, -1, -1, -1, -1, -1, -1, -1],
    [-1, -1, -1, -1, -1, -1, -1, -1, -1],
    [-1, -1, -1, -1, -1, -1, -1, -1, -1],
    [-1, -1, -1, -1, -1, -1, -1, -1, -1],
    [-1, -1, -1, -1, -1, -1, -1, -1, -1],
    [-1, -1, -1, -1, -1, -1, -1, -1, -1],
    [-1, -1, -1, -1, -1, -1, -1, -1, -1],
    [-1, -1, -1, -1, -1, -1, -1, -1, -1],
    [-1, -1, -1, -1, -1, -1, -1, -1, -1],
    [-1, -1, -1, -1, -1, -1, -1, -1, -1],
    [-1, -1, -1, -1, -1, -1, -1, -1, -1],
    [-1, -1, -1, -1, -1, -1, -1, -1, -1],
    [-1, -1, -1, -1, -1, -1, -1, -1, -1],
    [-1, -1]]"

definition runs_HexP2M :: "(int \<times> nat) list" where
  "runs_HexP2M = [
    (0,24), (317,1), (362,1), (26,1), (363,1), (28,1), (319,1), (30,3), (321,2), (312,1),
    (36,1), (323,2), (39,3), (43,16), (325,2), (61,2), (64,2), (67,10), (364,1), (78,3),
    (327,1), (84,4), (93,1), (328,1), (91,1), (329,1), (98,2), (101,1), (103,7), (111,1),
    (113,16), (131,2), (134,10), (150,3), (330,2), (29,1), (332,3), (161,13), (335,1), (175,3),
    (336,1), (365,1), (180,1), (185,3), (189,5), (338,1), (195,11), (207,10), (219,1), (221,5),
    (227,2), (339,1), (230,13), (244,1), (340,1), (246,2), (249,1), (251,5), (261,4), (341,1),
    (266,1), (366,1), (268,2), (271,12), (286,3), (290,5), (296,4), (301,6), (343,1), (309,1),
    (344,1), (63,1), (345,3), (367,1), (349,6), (311,1), (355,2), (313,1), (357,3), (368,1),
    (-1,234), (960,1), (514,2), (517,3), (522,3), (961,1), (526,3), (962,2), (992,1), (964,1),
    (537,3), (965,1), (993,4), (554,2), (970,1), (997,2), (559,14), (575,1), (577,4), (584,1),
    (586,15), (616,2), (619,1), (626,2), (638,2), (655,1), (658,4), (665,13), (692,1), (699,1),
    (711,1), (716,2), (721,9), (731,8), (741,2), (744,1), (747,1), (749,13), (763,3), (769,2),
    (773,18), (793,3), (805,1), (808,1), (811,23), (972,1), (843,1), (847,1), (852,1), (854,1),
    (973,1), (857,1), (859,1), (861,2), (974,1), (865,3), (869,1), (976,1), (875,2), (903,1),
    (906,1), (977,1), (908,5), (914,1), (926,5), (999,1), (932,2), (936,6), (945,1), (955,1),
    (1061,1), (1096,5), (1102,1), (1104,3), (1109,3), (1114,1), (1117,1), (1156,5), (1164,1),
    (1169,2), (1172,2), (797,1), (1119,1), (1174,61), (958,1), (1235,2), (534,1), (-1,453)]"

lemma fHexP2MTable_runs: "fHexP2MTable = seg_list runs_HexP2M"
  unfolding fHexP2MTable_def runs_HexP2M_def by (simp only: seg_eval)

section \<open>\<open>fLiveVerTable\<close>\<close>

definition fLiveVerTable :: "int list" where
  "fLiveVerTable = concat [
    [0, 0, 0, 0, 0, 0, 0, 0, 0, 0, 0, 0, 0, 0, 0, 0],
    [0, 0, 0, 0, 0, 0, 0, 0, 0, 0, 0, 0, 0, 0, 0, 0],
    [0, 0, 0, 0, 0, 0, 0, 0, 0, 0, 0, 0, 0, 0, 0, 0],
    [0, 0, 0, 0, 0, 0, 0, 0, 0, 0, 0, 0, 0, 0, 0, 0],
    [0, 0, 0, 0, 0, 0, 0, 0, 0, 0, 0, 0, 0, 0, 0, 0],
    [0, 0, 0, 0, 0, 0, 0, 0, 0, 0, 0, 0, 0, 0, 0, 0],
    [0, 0, 0, 0, 0, 0, 0, 0, 0, 0, 0, 0, 0, 0, 0, 0],
    [0, 0, 0, 0, 0, 0, 0, 0, 0, 0, 0, 0, 0, 0, 0, 0],
    [0, 0, 0, 0, 0, 0, 0, 0, 0, 0, 0, 0, 0, 0, 0, 1],
    [0, 0, 0, 0, 0, 1, 0, 0, 0, 0, 0, 0, 0, 0, 0, 0],
    [0, 0, 0, 0, 0, 0, 0, 0, 0, 0, 0, 0, 0, 0, 0, 0],
    [0, 0, 0, 0, 0, 0, 0, 0, 0, 0, 0, 0, 0, 0, 0, 0],
    [0, 0, 0, 0, 0, 0, 0, 0, 0, 0, 0, 0, 0, 0, 0, 0],
    [0, 0, 0, 0, 0, 0, 0, 0, 0, 0, 0, 0, 0, 0, 0, 0],
    [0, 0, 0, 0, 0, 0, 0, 0, 0, 0, 0, 0, 0, 0, 0, 0],
    [0, 0, 0, 0, 0, 0, 0, 0, 0, 0, 0, 0, 0, 0, 0, 0],
    [0, 0, 0, 0, 0, 0, 0, 0, 0, 0, 0, 0, 0, 0, 0, 0],
    [0, 0, 0, 0, 0, 0, 0, 0, 0, 0, 0, 0, 0, 0, 0, 0],
    [0, 0, 0, 0, 0, 0, 0, 0, 0, 0, 0, 0, 0, 0, 0, 0],
    [0, 0, 0, 0, 0, 0, 0, 0, 0, 0, 0, 0, 0, 0, 0, 0],
    [0, 0, 0, 0, 0, 0, 0, 0, 0, 0, 0, 0, 0, 0, 0, 0],
    [0, 0, 0, 0, 0, 0, 0, 0, 0, 0, 0, 0, 0, 0, 0, 0],
    [0, 0, 0, 0, 0, 0, 0, 0, 0, 0, 0, 0, 0, 0, 0, 0],
    [0, 0, 0, 0, 0, 0, 0, 0, 0, 0, 0, 0, 0, 0, 0, 0],
    [0, 0, 0, 0, 0, 0, 0, 0, 0, 0, 0, 0, 0, 0, 0, 0],
    [0, 0, 0, 0, 0, 0, 0, 0, 0, 0, 0, 0, 0, 0, 0, 0],
    [0, 0, 0, 0, 0, 0, 0, 0, 0, 0, 0, 0, 0, 0, 0, 0],
    [0, 0, 0, 0, 0, 0, 0, 0, 0, 0, 0, 0, 0, 0, 0, 0],
    [0, 0, 0, 0, 0, 0, 0, 0, 0, 0, 0, 0, 0, 0, 0, 0],
    [0, 0, 0, 0, 0, 0, 0, 0, 0, 0, 0, 0, 0, 0, 0, 0],
    [0, 0, 0, 0, 0, 0, 0, 0, 0, 0, 0, 0, 0, 0, 0, 0],
    [0, 0, 0, 0, 0, 0, 0, 0, 0, 0, 0, 0, 0, 0, 0, 0],
    [0, 0, 0, 0, 0, 0, 0, 0, 0, 0, 0, 0, 0, 0, 0, 0],
    [0, 0, 0, 0, 0, 0, 0, 0, 0, 0, 0, 0, 0, 0, 0, 0],
    [0, 0, 0, 0, 0, 0, 0, 0, 0, 0, 0, 0, 0, 0, 0, 0],
    [0, 0, 0, 0, 0, 0, 0, 0, 0, 0, 0, 0, 0, 0, 0, 0],
    [0, 0, 0, 0, 0, 0, 0, 0, 0, 0, 0, 0, 0, 0, 0, 0],
    [0, 0, 0, 0, 0, 0, 0, 0, 0, 0, 0, 0, 0, 0, 0, 0],
    [0, 0, 0, 0, 0, 0, 0, 0, 0, 0, 0, 0, 0, 0, 0, 0],
    [0, 0, 0, 0, 0, 0, 0, 0, 0, 0, 0, 0, 0, 0, 0, 0],
    [0, 0, 0, 0, 0, 0, 0, 0, 0, 0, 0, 0, 0, 0, 0, 0],
    [0, 0, 0, 0, 0, 0, 0, 0, 0, 0, 0, 0, 0, 0, 0, 0],
    [0, 0, 0, 0, 0, 0, 0, 0, 0, 0, 0, 0, 0, 0, 0, 0],
    [0, 0, 0, 0, 0, 0, 0, 0, 0, 0, 0, 0, 0, 0, 0, 0],
    [0, 0, 0, 0, 0, 0, 0, 0, 0, 0, 0, 0, 0, 0, 0, 0],
    [0, 0, 0, 0, 0, 0, 0, 0, 0, 0, 0, 0, 0, 0, 0, 0],
    [0, 0, 0, 0, 0, 0, 0, 0, 0, 0, 0, 0, 0, 0, 0, 0],
    [0, 0, 0, 0, 0, 0, 0, 0, 0, 0, 0, 0, 0, 0, 0, 0],
    [0, 0, 0, 0, 0, 0, 0, 0, 0, 0, 0, 0, 0, 0, 0, 0],
    [0, 0, 0, 0, 0, 0, 0, 0, 0, 0, 0, 0, 0, 0, 0, 0],
    [0, 0, 0, 0, 0, 0, 0, 0, 0, 0, 0, 0, 0, 0, 0, 0],
    [0, 0, 0, 0, 0, 0, 0, 0, 0, 0, 0, 0, 0, 0, 0, 0],
    [0, 0, 0, 0, 0, 0, 0, 0, 0, 0, 0, 0, 0, 0, 0, 0],
    [0, 0, 0, 0, 0, 0, 0, 2, 0, 0, 0, 0, 0, 0, 0, 0],
    [0, 0, 0, 0, 0, 0, 0, 0, 0, 0, 0, 0, 0, 0, 0, 0],
    [0, 0, 0, 0, 0, 0, 0, 0, 0, 0, 0, 0, 0, 0, 0, 0],
    [0, 0, 0, 0, 0, 0, 0, 0, 0, 0, 0, 0, 0, 0, 0, 0],
    [0, 0, 0, 0, 0, 0, 0, 0, 0, 0, 0, 0, 0, 0, 0, 0],
    [0, 0, 0, 0, 0, 0, 0, 0, 0, 0, 0, 0, 1, 0, 0, 0],
    [0, 0, 0, 0, 0, 0, 0, 0, 0, 0, 0, 0, 0, 0, 0, 0],
    [0, 0, 0, 0, 0, 0, 0, 0, 0, 0, 0, 0, 0, 0, 0, 0],
    [0, 0, 0, 0, 0, 0, 0, 0, 0, 0, 0, 0, 0, 0, 0, 0],
    [0, 0, 0, 0, 0, 0, 0, 0, 0, 0, 0, 0, 0, 0, 0, 0],
    [0, 0, 0, 0, 0, 0, 0, 0, 0, 0, 0, 0, 0, 0, 0, 0],
    [0, 0, 0, 0, 0, 0, 0, 0, 0, 0, 0, 0, 0, 0, 0, 0],
    [0, 0, 0, 0, 0, 0, 0, 0, 0, 0, 0, 0, 0, 0, 0, 0],
    [0, 0, 0, 0, 0, 0, 0, 0, 0, 0, 0, 0, 0, 0, 0, 0],
    [0, 0, 0, 0, 0, 0, 0, 0, 0, 0, 0, 0, 0, 0, 0, 0],
    [0, 0, 0, 0, 0, 0, 0, 0, 0, 0, 0, 0, 0, 0, 0, 0],
    [0, 0, 0, 0, 0, 0, 0, 0, 0, 0, 0, 0, 0, 0, 0, 0],
    [0, 0, 0, 0, 0, 0, 0, 0, 0, 0, 0, 0, 0, 0, 0, 0],
    [0, 0, 0, 0, 0, 0, 0, 0, 0, 0, 0, 0, 0, 0, 0, 0],
    [0, 0, 0, 0, 0, 0, 0, 0, 0, 0, 0, 0, 0, 0, 0, 0],
    [0, 0, 0, 0, 0, 0, 0, 0, 0, 0, 0, 0, 0, 0, 0, 0],
    [0, 0, 0, 0, 0, 0, 0, 0, 0, 0, 0, 0, 0, 0, 0, 0],
    [0, 0, 0, 0, 0, 0, 0, 0, 0, 0, 0, 0, 0, 0, 0, 0],
    [0, 0, 0, 0, 0, 0, 0, 0, 0, 0, 0, 0, 0, 0, 0, 0],
    [0, 0, 0, 0, 0, 0, 0, 0, 0, 0, 0, 0, 0, 0, 0, 0],
    [0, 0, 0, 0, 0, 0, 0, 0, 0, 0, 0, 0, 0, 0, 0, 0],
    [0, 0, 0, 0, 0, 0, 0, 0, 0, 0, 0, 0, 0, 0, 0, 0]]"

section \<open>\<open>fEoaVerTable\<close>\<close>

definition fEoaVerTable :: "int list" where
  "fEoaVerTable = concat [
    [0, 0, 0, 0, 0, 0, 0, 0, 0, 0, 0, 0, 0, 0, 0, 0],
    [0, 0, 0, 0, 0, 0, 0, 0, 0, 0, 0, 0, 0, 0, 0, 0],
    [0, 0, 0, 0, 0, 0, 0, 0, 0, 0, 0, 0, 0, 0, 0, 0],
    [0, 0, 0, 0, 0, 0, 0, 0, 0, 0, 0, 0, 0, 0, 0, 0],
    [0, 0, 0, 0, 0, 0, 0, 0, 0, 0, 0, 0, 0, 0, 0, 0],
    [0, 0, 0, 0, 0, 0, 0, 0, 0, 0, 0, 0, 0, 7, 0, 0],
    [0, 0, 0, 0, 0, 0, 0, 0, 0, 0, 0, 0, 0, 0, 0, 0],
    [0, 0, 0, 0, 0, 0, 0, 0, 0, 0, 0, 0, 0, 10, 0, 0],
    [0, 0, 0, 0, 0, 0, 0, 0, 0, 0, 0, 0, 0, 0, 0, 0],
    [0, 0, 0, 0, 0, 0, 0, 0, 0, 0, 0, 0, 0, 0, 0, 0],
    [0, 0, 0, 0, 0, 0, 0, 0, 0, 0, 0, 5, 0, 0, 0, 0],
    [0, 0, 0, 0, 0, 0, 0, 0, 0, 0, 0, 0, 0, 0, 0, 0],
    [0, 0, 0, 0, 0, 0, 0, 0, 0, 0, 0, 0, 0, 0, 0, 0],
    [0, 0, 0, 0, 0, 0, 0, 0, 0, 0, 0, 0, 0, 0, 0, 0],
    [0, 0, 0, 0, 0, 0, 0, 0, 0, 0, 0, 0, 0, 0, 0, 0],
    [0, 0, 0, 0, 0, 0, 0, 0, 0, 0, 0, 0, 0, 0, 0, 0],
    [0, 0, 0, 0, 0, 0, 4, 0, 0, 0, 0, 0, 0, 0, 0, 0],
    [0, 0, 0, 0, 0, 0, 0, 0, 0, 0, 0, 0, 0, 0, 0, 0],
    [0, 0, 0, 0, 0, 0, 0, 0, 0, 0, 0, 0, 0, 0, 0, 0],
    [0, 0, 0, 0, 0, 0, 0, 0, 0, 9, 0, 0, 0, 0, 0, 0],
    [0, 0, 0, 0, 0, 0, 2, 0, 0, 0, 7, 0, 7, 7, 7, 0],
    [0, 0, 7, 0, 0, 7, 0, 0, 0, 0, 0, 0, 7, 0, 0, 0],
    [0, 0, 0, 7, 0, 0, 0, 0, 0, 0, 0, 0, 0, 0, 0, 0],
    [0, 0, 0, 0, 0, 0, 0, 0, 0, 0, 0, 0, 0, 0, 0, 0],
    [0, 0, 0, 0, 0, 0, 0, 0, 0, 0, 0, 0, 0, 0, 0, 0],
    [0, 0, 0, 0, 0, 0, 0, 0, 0, 0, 0, 0, 0, 0, 0, 0],
    [0, 0, 0, 0, 0, 0, 0, 0, 0, 0, 0, 0, 0, 0, 0, 0],
    [0, 0, 0, 0, 0, 0, 0, 0, 0, 0, 0, 0, 0, 0, 0, 0],
    [0, 0, 0, 0, 0, 0, 0, 0, 0, 0, 0, 0, 0, 0, 0, 0],
    [0, 0, 0, 0, 0, 0, 0, 0, 0, 0, 0, 0, 0, 0, 0, 0],
    [0, 0, 0, 0, 0, 0, 0, 0, 0, 0, 0, 0, 0, 0, 0, 0],
    [0, 0, 0, 0, 0, 0, 0, 0, 0, 0, 0, 0, 0, 0, 0, 0],
    [0, 0, 0, 0, 0, 0, 0, 0, 0, 0, 0, 0, 0, 0, 0, 0],
    [0, 0, 0, 0, 0, 0, 0, 0, 0, 0, 0, 0, 0, 0, 0, 0],
    [0, 0, 0, 0, 0, 0, 0, 0, 0, 0, 0, 0, 0, 0, 0, 0],
    [0, 0, 0, 0, 0, 0, 0, 0, 0, 0, 0, 0, 0, 0, 0, 0],
    [0, 0, 0, 0, 0, 0, 0, 0, 0, 0, 0, 0, 0, 0, 0, 0],
    [0, 0, 0, 0, 0, 0, 0, 0, 0, 0, 0, 0, 0, 0, 0, 0],
    [0, 0, 0, 0, 0, 0, 0, 0, 0, 0, 0, 0, 0, 0, 0, 0],
    [0, 0, 0, 0, 0, 0, 0, 0, 0, 0, 0, 0, 0, 0, 0, 0],
    [0, 0, 0, 0, 0, 0, 0, 0, 0, 0, 0, 0, 0, 0, 0, 0],
    [0, 0, 0, 0, 0, 0, 0, 0, 0, 0, 0, 0, 0, 0, 0, 0],
    [0, 0, 0, 0, 0, 0, 0, 0, 0, 0, 0, 0, 0, 0, 0, 0],
    [0, 0, 0, 0, 0, 0, 0, 0, 0, 0, 0, 0, 0, 0, 0, 0],
    [0, 0, 0, 0, 0, 0, 0, 0, 0, 0, 0, 0, 0, 0, 0, 0],
    [0, 0, 0, 0, 0, 0, 0, 0, 0, 0, 0, 0, 0, 0, 0, 0],
    [0, 0, 0, 0, 0, 0, 0, 0, 0, 0, 0, 0, 0, 0, 0, 0],
    [0, 0, 0, 0, 0, 0, 0, 0, 0, 0, 0, 0, 0, 0, 0, 0],
    [0, 0, 0, 0, 0, 0, 0, 0, 0, 0, 0, 0, 0, 0, 0, 0],
    [0, 0, 0, 0, 0, 0, 0, 0, 0, 0, 0, 0, 0, 0, 0, 0],
    [0, 0, 0, 0, 0, 0, 0, 0, 0, 0, 0, 0, 0, 0, 0, 0],
    [0, 0, 0, 0, 0, 0, 0, 0, 0, 0, 0, 0, 0, 0, 0, 0],
    [0, 0, 0, 0, 0, 0, 0, 0, 0, 0, 0, 0, 0, 0, 0, 0],
    [0, 0, 0, 0, 0, 0, 0, 0, 0, 0, 0, 0, 0, 0, 0, 0],
    [0, 0, 0, 0, 0, 0, 0, 0, 0, 0, 0, 0, 0, 0, 0, 0],
    [0, 0, 0, 0, 0, 0, 0, 0, 0, 0, 0, 0, 0, 0, 0, 0],
    [0, 0, 0, 0, 0, 0, 0, 0, 0, 0, 0, 0, 0, 0, 0, 0],
    [0, 0, 0, 0, 0, 0, 0, 0, 0, 0, 0, 0, 0, 0, 0, 0],
    [0, 0, 0, 0, 0, 0, 0, 0, 0, 0, 0, 0, 0, 0, 0, 0],
    [0, 0, 0, 0, 0, 0, 0, 0, 0, 0, 0, 0, 0, 0, 0, 0],
    [0, 0, 0, 0, 0, 0, 0, 0, 0, 0, 0, 0, 0, 0, 0, 0],
    [0, 0, 0, 0, 0, 0, 0, 0, 0, 0, 0, 0, 0, 0, 0, 0],
    [0, 0, 0, 0, 0, 0, 0, 0, 0, 0, 0, 0, 0, 0, 0, 0],
    [0, 0, 0, 0, 0, 0, 0, 0, 0, 0, 0, 0, 0, 0, 0, 0],
    [0, 0, 0, 0, 0, 0, 0, 0, 0, 0, 0, 0, 0, 0, 0, 0],
    [0, 0, 0, 0, 0, 0, 0, 0, 0, 0, 0, 0, 0, 0, 0, 0],
    [0, 0, 0, 0, 0, 0, 0, 0, 0, 0, 0, 0, 0, 0, 0, 0],
    [0, 0, 0, 0, 0, 0, 0, 0, 0, 0, 0, 0, 0, 0, 0, 0],
    [0, 0, 0, 0, 0, 0, 0, 0, 0, 0, 0, 0, 0, 0, 0, 0],
    [0, 0, 0, 0, 0, 0, 0, 0, 0, 0, 0, 0, 0, 0, 0, 0],
    [0, 0, 0, 0, 0, 0, 0, 0, 0, 0, 0, 0, 0, 0, 0, 0],
    [0, 0, 0, 0, 0, 0, 0, 0, 0, 0, 0, 0, 0, 0, 0, 0],
    [0, 0, 0, 0, 0, 0, 0, 0, 0, 0, 0, 0, 0, 0, 0, 0],
    [0, 0, 0, 0, 0, 0, 0, 0, 0, 0, 0, 0, 0, 0, 0, 0],
    [0, 0, 0, 0, 0, 0, 0, 0, 0, 0, 0, 0, 0, 0, 0, 0],
    [0, 0, 0, 0, 0, 0, 0, 0, 0, 0, 0, 0, 0, 0, 0, 0],
    [0, 0, 0, 0, 0, 0, 0, 0, 0, 0, 0, 0, 0, 0, 0, 0],
    [0, 0, 0, 0, 0, 0, 0, 0, 0, 0, 0, 0, 0, 0, 0, 0],
    [0, 0, 0, 0, 0, 0, 0, 0, 0, 0, 0, 0, 0, 0, 0, 0],
    [0, 0, 0, 0, 0, 0, 0, 0, 0, 0, 0, 0, 0, 0, 0, 0]]"

section \<open>\<open>fHexVerTable\<close>\<close>

definition fHexVerTable :: "int list" where
  "fHexVerTable = concat [
    [0, 0, 0, 0, 0, 0, 0, 0, 3, 0, 0, 0, 0, 0, 0, 0],
    [0, 0, 0, 0, 0, 0, 0, 0, 0, 0, 0, 0, 0, 0, 0, 0],
    [0, 0, 0, 0, 0, 0, 0, 0, 0, 0, 0, 0, 0, 0, 0, 0],
    [0, 0, 0, 0, 0, 0, 0, 0, 0, 0, 0, 0, 0, 0, 0, 0],
    [0, 0, 0, 0, 0, 0, 0, 0, 0, 0, 0, 0, 0, 0, 0, 0],
    [0, 2, 0, 0, 0, 0, 0, 0, 0, 0, 0, 0, 0, 7, 0, 0],
    [0, 0, 0, 0, 0, 0, 0, 0, 0, 0, 0, 0, 0, 0, 0, 0],
    [0, 0, 0, 0, 0, 0, 0, 0, 0, 0, 0, 0, 0, 10, 0, 0],
    [0, 0, 0, 0, 0, 0, 0, 0, 0, 0, 0, 0, 0, 0, 8, 0],
    [0, 0, 0, 7, 0, 0, 0, 0, 0, 0, 0, 0, 0, 0, 0, 0],
    [0, 0, 0, 0, 0, 0, 0, 0, 0, 0, 0, 5, 0, 0, 0, 0],
    [0, 0, 0, 0, 0, 0, 0, 0, 0, 0, 0, 0, 0, 0, 0, 0],
    [0, 0, 0, 0, 0, 0, 0, 0, 0, 0, 0, 0, 0, 0, 0, 0],
    [0, 0, 0, 0, 0, 0, 0, 0, 0, 0, 0, 0, 0, 0, 0, 0],
    [0, 0, 0, 0, 0, 0, 0, 0, 0, 0, 0, 0, 0, 0, 0, 0],
    [0, 0, 0, 0, 0, 0, 0, 0, 0, 0, 0, 0, 0, 0, 0, 0],
    [0, 0, 0, 0, 0, 0, 4, 0, 0, 0, 0, 0, 0, 0, 0, 0],
    [0, 0, 0, 0, 0, 0, 0, 0, 0, 0, 0, 0, 0, 0, 0, 0],
    [0, 0, 0, 0, 0, 0, 0, 0, 0, 0, 0, 0, 0, 0, 0, 0],
    [0, 0, 0, 0, 0, 0, 0, 0, 0, 9, 0, 0, 0, 0, 0, 0],
    [0, 0, 0, 0, 0, 0, 2, 0, 0, 0, 7, 0, 7, 7, 7, 0],
    [0, 0, 7, 0, 0, 7, 0, 0, 0, 0, 0, 0, 7, 0, 0, 0],
    [0, 0, 0, 7, 0, 0, 0, 0, 0, 0, 0, 0, 0, 0, 0, 0],
    [0, 0, 0, 0, 0, 0, 0, 0, 0, 0, 0, 0, 0, 0, 0, 0],
    [0, 0, 0, 0, 0, 0, 0, 0, 0, 0, 0, 0, 0, 0, 0, 0],
    [0, 0, 0, 0, 0, 0, 0, 0, 0, 0, 0, 0, 0, 0, 0, 0],
    [0, 0, 0, 0, 0, 0, 0, 0, 0, 0, 0, 0, 0, 0, 0, 0],
    [0, 0, 0, 0, 0, 0, 0, 0, 0, 0, 0, 0, 0, 0, 0, 0],
    [0, 0, 0, 0, 0, 0, 0, 0, 0, 0, 0, 0, 0, 0, 0, 0],
    [0, 0, 0, 0, 0, 0, 0, 0, 0, 0, 0, 0, 0, 0, 0, 0],
    [0, 0, 0, 0, 0, 0, 0, 0, 0, 0, 0, 0, 0, 0, 0, 0],
    [0, 0, 0, 0, 0, 0, 0, 0, 0, 0, 0, 0, 0, 0, 0, 0],
    [0, 0, 0, 0, 0, 0, 0, 0, 0, 0, 0, 0, 0, 0, 0, 0],
    [0, 0, 0, 0, 0, 0, 0, 0, 0, 0, 0, 0, 0, 0, 0, 0],
    [0, 0, 0, 0, 0, 0, 0, 0, 0, 0, 0, 0, 0, 0, 0, 0],
    [0, 0, 0, 0, 0, 0, 0, 0, 0, 0, 0, 0, 0, 0, 0, 0],
    [0, 0, 0, 0, 0, 0, 0, 0, 0, 0, 0, 0, 0, 0, 0, 0],
    [0, 0, 0, 0, 0, 0, 0, 0, 0, 0, 0, 0, 0, 0, 0, 0],
    [0, 0, 0, 0, 0, 0, 0, 0, 0, 0, 0, 0, 0, 0, 0, 0],
    [0, 0, 0, 0, 0, 0, 0, 0, 0, 0, 0, 0, 0, 0, 0, 0],
    [0, 0, 0, 0, 0, 0, 0, 0, 0, 0, 0, 0, 0, 0, 0, 0],
    [0, 0, 0, 0, 0, 0, 0, 0, 0, 0, 0, 0, 0, 0, 0, 0],
    [0, 0, 0, 0, 0, 0, 0, 0, 0, 0, 0, 0, 0, 0, 0, 0],
    [0, 0, 0, 0, 0, 0, 0, 0, 0, 0, 0, 0, 0, 0, 0, 0],
    [0, 0, 0, 0, 0, 0, 0, 0, 0, 0, 0, 0, 0, 0, 0, 0],
    [0, 0, 0, 0, 0, 0, 0, 0, 0, 0, 0, 0, 0, 0, 0, 0],
    [0, 0, 0, 0, 0, 0, 0, 0, 0, 0, 0, 0, 0, 0, 0, 0],
    [0, 0, 0, 0, 0, 0, 0, 0, 0, 0, 0, 0, 0, 0, 0, 0],
    [0, 0, 0, 0, 0, 0, 0, 0, 0, 0, 0, 0, 0, 0, 0, 0],
    [0, 0, 0, 0, 0, 0, 0, 0, 0, 0, 0, 0, 0, 0, 0, 0],
    [0, 0, 0, 0, 0, 0, 0, 0, 0, 0, 0, 0, 0, 0, 0, 0],
    [0, 0, 0, 0, 0, 0, 0, 0, 0, 0, 0, 0, 0, 0, 0, 0],
    [0, 0, 0, 0, 0, 0, 0, 0, 0, 0, 0, 0, 0, 0, 0, 0],
    [0, 0, 0, 0, 0, 0, 0, 0, 0, 0, 0, 0, 0, 0, 0, 0],
    [0, 0, 0, 0, 0, 0, 0, 0, 0, 0, 0, 0, 0, 0, 0, 0],
    [0, 0, 0, 0, 0, 0, 0, 0, 0, 0, 0, 0, 0, 0, 0, 0],
    [0, 0, 0, 0, 0, 0, 0, 0, 0, 0, 0, 0, 0, 0, 0, 0],
    [0, 0, 0, 0, 0, 0, 0, 0, 0, 0, 0, 0, 0, 0, 0, 0],
    [0, 0, 0, 0, 0, 0, 0, 0, 0, 0, 0, 0, 0, 0, 0, 0],
    [0, 0, 0, 0, 0, 0, 0, 0, 0, 0, 0, 0, 0, 0, 0, 0],
    [0, 0, 0, 0, 0, 0, 0, 0, 0, 0, 0, 0, 0, 0, 0, 0],
    [0, 0, 0, 0, 0, 0, 0, 0, 0, 0, 0, 0, 0, 0, 0, 0],
    [0, 0, 0, 0, 0, 0, 0, 0, 0, 0, 0, 0, 0, 0, 0, 0],
    [0, 0, 0, 0, 0, 0, 0, 0, 0, 0, 0, 0, 0, 0, 0, 0],
    [0, 0, 0, 0, 0, 0, 0, 0, 0, 0, 0, 0, 0, 0, 0, 0],
    [0, 0, 0, 0, 0, 0, 0, 0, 0, 0, 0, 0, 0, 0, 0, 0],
    [0, 0, 0, 0, 0, 0, 0, 0, 0, 0, 0, 0, 0, 0, 0, 0],
    [0, 0, 0, 0, 0, 0, 0, 0, 0, 0, 0, 0, 0, 0, 0, 0],
    [0, 0, 0, 0, 0, 0, 0, 0, 0, 0, 0, 0, 0, 0, 0, 0],
    [0, 0, 0, 0, 0, 0, 0, 0, 0, 0, 0, 0, 0, 0, 0, 0],
    [0, 0, 0, 0, 0, 0, 0, 0, 0, 0, 0, 0, 0, 0, 0, 0],
    [0, 0, 0, 0, 0, 0, 0, 0, 0, 0, 0, 0, 0, 0, 0, 0],
    [0, 0, 0, 0, 0, 0, 0, 0, 0, 0, 0, 0, 0, 0, 0, 0],
    [0, 0, 0, 0, 0, 0, 0, 0, 0, 0, 0, 0, 0, 0, 0, 0],
    [0, 0, 0, 0, 0, 0, 0, 0, 0, 0, 0, 0, 0, 0, 0, 0],
    [0, 0, 0, 0, 0, 0, 0, 0, 0, 0, 0, 0, 0, 0, 0, 0],
    [0, 0, 0, 0, 0, 0, 0, 0, 0, 0, 0, 0, 0, 0, 0, 0],
    [0, 0, 0, 0, 0, 0, 0, 0, 0, 0, 0, 0, 0, 0, 0, 0],
    [0, 0, 0, 0, 0, 0, 0, 0, 0, 0, 0, 0, 0, 0, 0, 0],
    [0, 0, 0, 0, 0, 0, 0, 0, 0, 0, 0, 0, 0, 0, 0, 0]]"

end
