(* ===== verification/TypeMap.thy ===== *)
theory TypeMap
  imports PlasmaVersions TypeTables
begin

text \<open>
  The class map \<open>pdUnifiedTypeMap\<close> (\<open>src/core/ResManager/pdUnifiedTypeMap.cpp\<close>): between the
  library's own class indices and those of each engine, and the class versions of the versioned
  formats.  A C++ \<open>short\<close> is an \<^typ>\<open>int\<close>; every value here is an entry of a table, which fits.
\<close>

section \<open>Operations\<close>

definition TYPESPACE_MAX :: int where "TYPESPACE_MAX = 0x500"

definition in_range :: "int \<Rightarrow> bool" where
  "in_range t \<longleftrightarrow> \<not> (t < 0 \<or> t \<ge> TYPESPACE_MAX)"

definition PlasmaToMapped :: "int \<Rightarrow> plasma_ver \<Rightarrow> int" where
  "PlasmaToMapped typeIdx ver =
     (if \<not> in_range typeIdx then -1
      else let ver = GetSafestVersion ver; i = nat typeIdx in
        if ver = pvPrime then fUruP2MTable ! i
        else if ver = pvPots then fPotSP2MTable ! i
        else if ver = pvMoul then fLiveP2MTable ! i
        else if ver = pvEoa then fEoaP2MTable ! i
        else if ver = pvHex then fHexP2MTable ! i
        else if ver = pvUniversal then typeIdx
        else -1)"

definition MappedToPlasma :: "int \<Rightarrow> plasma_ver \<Rightarrow> int" where
  "MappedToPlasma typeIdx ver =
     (if \<not> in_range typeIdx then -1
      else let ver = GetSafestVersion ver; i = nat typeIdx in
        if ver = pvPrime then fUruM2PTable ! i
        else if ver = pvPots then fPotSM2PTable ! i
        else if ver = pvMoul then fLiveM2PTable ! i
        else if ver = pvEoa then fEoaM2PTable ! i
        else if ver = pvHex then fHexM2PTable ! i
        else if ver = pvUniversal then typeIdx
        else -1)"

definition ClassVersion :: "int \<Rightarrow> plasma_ver \<Rightarrow> int result" where
  "ClassVersion typeIdx ver =
     (if PlasmaToMapped typeIdx ver < 0 then Inr (-1)
      else let i = nat (PlasmaToMapped typeIdx ver) in
        if ver = pvMoul then Inr (fLiveVerTable ! i)
        else if ver = pvEoa then Inr (fEoaVerTable ! i)
        else if ver = pvHex then Inr (fHexVerTable ! i)
        else Inl BadVersionException)"

text \<open>
  \<open>fCurrentVerTable\<close> is the only mutable state; it starts as zeros.  Setting the version of a
  class the engine lacks writes before the table, which is undefined.
\<close>

type_synonym ver_table = "int list"

definition fCurrentVerTable0 :: ver_table where
  "fCurrentVerTable0 = replicate 1280 0"

definition CurrentVersion :: "int \<Rightarrow> ver_table \<Rightarrow> int" where
  "CurrentVersion typeIdx tab = (if \<not> in_range typeIdx then -1 else tab ! nat typeIdx)"

fun copy_table :: "int list \<Rightarrow> ver_table \<Rightarrow> ver_table" where
  "copy_table (b # base) (c # cur) = b # copy_table base cur"
| "copy_table _ cur = cur"

definition SetCurrentVersionBase :: "plasma_ver \<Rightarrow> ver_table \<Rightarrow> ver_table result" where
  "SetCurrentVersionBase ver tab =
     (if ver = pvMoul then Inr (copy_table fLiveVerTable tab)
      else if ver = pvEoa then Inr (copy_table fEoaVerTable tab)
      else if ver = pvHex then Inr (copy_table fHexVerTable tab)
      else Inl BadVersionException)"

definition SetCurrentVersion :: "int \<Rightarrow> plasma_ver \<Rightarrow> int \<Rightarrow> ver_table \<Rightarrow> ver_table result" where
  "SetCurrentVersion typeIdx ver clsVer tab =
     (if PlasmaToMapped typeIdx ver < 0 then Inl UndefinedBehaviour
      else Inr (tab[nat (PlasmaToMapped typeIdx ver) := clsVer]))"

section \<open>Tables as sets of segments\<close>

text \<open>
  A segment \<open>(a, b, n)\<close> stands for the entries \<open>b, b + 1, \<dots>\<close> at the indices \<open>a, \<dots>, a + n - 1\<close>.
\<close>

type_synonym seg = "int \<times> int \<times> nat"

fun segs_at :: "int \<Rightarrow> (int \<times> nat) list \<Rightarrow> seg list" where
  "segs_at i [] = []"
| "segs_at i ((v, n) # r) =
     (if v < 0 then segs_at (i + int n) r else (i, v, n) # segs_at (i + int n) r)"

definition hits :: "seg \<Rightarrow> int \<Rightarrow> int \<Rightarrow> bool" where
  "hits s i v \<longleftrightarrow> (case s of (a, b, n) \<Rightarrow> a \<le> i \<and> i < a + int n \<and> v = b + (i - a))"

definition cover :: "seg list \<Rightarrow> int \<Rightarrow> int \<Rightarrow> bool" where
  "cover S i v \<longleftrightarrow> list_ex (\<lambda>s. hits s i v) S"

lemma cover_simps [simp]: "\<not> cover [] i v" "cover (s # S) i v \<longleftrightarrow> hits s i v \<or> cover S i v"
  by (simp_all add: cover_def)

lemma length_run [simp]: "length (run v n) = n"
  by (induction n arbitrary: v) simp_all

lemma nth_run [simp]: "k < n \<Longrightarrow> run v n ! k = v + int k"
  by (induction n arbitrary: v k) (auto simp: nth_Cons split: nat.splits)

lemma segs_at_ge: "cover (segs_at i rs) j v \<Longrightarrow> i \<le> j"
  by (induction rs arbitrary: i) (force simp: hits_def split: if_splits)+

lemma segs_at_nth:
  "k < length (seg_list rs) \<Longrightarrow>
     seg_list rs ! k = v \<and> 0 \<le> v \<longleftrightarrow> cover (segs_at i rs) (i + int k) v \<and> 0 \<le> v"
proof (induction rs arbitrary: i k)
  case (Cons r rs)
  obtain w n where r: "r = (w, n)" by (cases r)
  show ?case
  proof (cases "k < n")
    case True
    then have "\<not> cover (segs_at (i + int n) rs) (i + int k) v"
      using segs_at_ge [of "i + int n" rs "i + int k" v] by auto
    with True r show ?thesis by (auto simp: nth_append hits_def)
  next
    case False
    then have k: "i + int k = (i + int n) + int (k - n)" by simp
    have "k - n < length (seg_list rs)" using Cons.prems False r by (auto split: if_splits)
    from Cons.IH [OF this, of "i + int n"] False r show ?thesis
      unfolding k by (auto simp: nth_append hits_def)
  qed
qed simp

lemma segs_at_less: "cover (segs_at i rs) j v \<Longrightarrow> j < i + int (length (seg_list rs)) \<and> 0 \<le> v"
  by (induction rs arbitrary: i) (fastforce simp: hits_def split: if_splits)+

text \<open>Looking an index up and hitting a segment are the same.\<close>

lemma table_cover:
  assumes "T = seg_list rs" "length T = 1280" "in_range i"
  shows "T ! nat i = v \<and> 0 \<le> v \<longleftrightarrow> cover (segs_at 0 rs) i v"
  using segs_at_nth [of "nat i" rs v 0] segs_at_less [of 0 rs i v] assms
  by (auto simp: in_range_def TYPESPACE_MAX_def)

lemma cover_range: "length (seg_list rs) = 1280 \<Longrightarrow> cover (segs_at 0 rs) i v \<Longrightarrow> in_range i \<and> 0 \<le> v"
  using segs_at_less [of 0 rs i v] segs_at_ge [of 0 rs i v]
  by (auto simp: in_range_def TYPESPACE_MAX_def)

text \<open>\<open>S\<close> without index \<open>x\<close> is contained in the converse of \<open>P\<close>.\<close>

fun cut :: "int \<Rightarrow> seg list \<Rightarrow> seg list" where
  "cut x [] = []"
| "cut x ((a, b, n) # S) =
     (if a \<le> x \<and> x < a + int n
      then (a, b, nat (x - a)) # (x + 1, b + (x + 1 - a), nat (a + int n - (x + 1))) # cut x S
      else (a, b, n) # cut x S)"

text \<open>
  The check first orders the segments of \<open>S\<close> by their values, then passes once over both lists.
\<close>

definition seg_val :: "seg \<Rightarrow> int" where
  "seg_val s = fst (snd s)"

function by_val :: "seg list \<Rightarrow> seg list" where
  "by_val [] = []"
| "by_val (s # S) = by_val (filter (\<lambda>t. seg_val t \<le> seg_val s) S) @
     s # by_val (filter (\<lambda>t. \<not> seg_val t \<le> seg_val s) S)"
  by pat_completeness auto
termination by (relation "measure length") (auto simp: less_Suc_eq_le)

lemma set_by_val [simp]: "set (by_val S) = set S"
  by (induction S rule: by_val.induct) auto

definition fits_in :: "seg \<Rightarrow> seg \<Rightarrow> bool" where
  "fits_in p s = (case s of (a, b, n) \<Rightarrow> case p of (a', b', n') \<Rightarrow>
     n = 0 \<or> b' - a' = a - b \<and> a' \<le> b \<and> b + int n \<le> a' + int n')"

fun pass :: "seg list \<Rightarrow> seg list \<Rightarrow> bool" where
  "pass [] P = True"
| "pass (s # S) [] = False"
| "pass (s # S) (p # P) = (if fits_in p s then pass S (p # P) else pass (s # S) P)"

lemma pass_sound: "pass S P \<Longrightarrow> s \<in> set S \<Longrightarrow> \<exists>p \<in> set P. fits_in p s"
  by (induction S P rule: pass.induct) (auto split: if_splits)

definition inverse_on :: "int \<Rightarrow> seg list \<Rightarrow> seg list \<Rightarrow> bool" where
  "inverse_on x M P \<longleftrightarrow> pass (by_val (cut x M)) P"

lemma cover_cut: "cover M i v \<Longrightarrow> i \<noteq> x \<Longrightarrow> cover (cut x M) i v"
  by (induction x M rule: cut.induct) (auto simp: hits_def)

lemma fits_hits: "fits_in p s \<Longrightarrow> hits s i v \<Longrightarrow> hits p v i"
  by (cases s; cases p) (auto simp: fits_in_def hits_def)

lemma inverse_on_cover:
  assumes "inverse_on x M P" "cover M i v" "i \<noteq> x"
  shows "cover P v i"
proof -
  from cover_cut [OF assms(2,3)] obtain s where s: "s \<in> set (cut x M)" "hits s i v"
    by (auto simp: cover_def list_ex_iff)
  with assms(1) pass_sound [of "by_val (cut x M)" P s] obtain p where "p \<in> set P" "fits_in p s"
    by (auto simp: inverse_on_def)
  with fits_hits [OF this(2) s(2)] show ?thesis by (auto simp: cover_def list_ex_iff)
qed

lemma table_inverse:
  assumes M: "M = seg_list rm" "length M = 1280" and P: "P = seg_list rp" "length P = 1280"
    and inv: "inverse_on x (segs_at 0 rm) (segs_at 0 rp)"
    and t: "in_range t" "t \<noteq> x" "M ! nat t = p" "0 \<le> p"
  shows "in_range p \<and> P ! nat p = t"
proof -
  from table_cover [OF M t(1)] t(3,4) have "cover (segs_at 0 rm) t p" by blast
  from inverse_on_cover [OF inv this t(2)] have c: "cover (segs_at 0 rp) p t" .
  with cover_range P have "in_range p" by simp
  with table_cover [OF P this] c show ?thesis by blast
qed

section \<open>The tables are inverse to each other\<close>

lemma inverse_tables:
  "inverse_on 0x9B (segs_at 0 runs_UruM2P) (segs_at 0 runs_UruP2M)"
  "inverse_on 0x1D (segs_at 0 runs_UruP2M) (segs_at 0 runs_UruM2P)"
  "inverse_on 0x9B (segs_at 0 runs_PotSM2P) (segs_at 0 runs_PotSP2M)"
  "inverse_on 0x1D (segs_at 0 runs_PotSP2M) (segs_at 0 runs_PotSM2P)"
  "inverse_on 0x9B (segs_at 0 runs_LiveM2P) (segs_at 0 runs_LiveP2M)"
  "inverse_on 0x1D (segs_at 0 runs_LiveP2M) (segs_at 0 runs_LiveM2P)"
  by code_simp+

lemma inverse_tables_eoa:
  "inverse_on (-1) (segs_at 0 runs_EoaM2P) (segs_at 0 runs_EoaP2M)"
  "inverse_on (-1) (segs_at 0 runs_EoaP2M) (segs_at 0 runs_EoaM2P)"
  by code_simp+

lemma inverse_tables_hex:
  "inverse_on (-1) (segs_at 0 runs_HexM2P) (segs_at 0 runs_HexP2M)"
  "inverse_on (-1) (segs_at 0 runs_HexP2M) (segs_at 0 runs_HexM2P)"
  by code_simp+

lemma length_seg_list: "length (seg_list rs) = sum_list (map snd rs)"
  by (induction rs rule: seg_list.induct) simp_all

lemma length_runs:
  "sum_list (map snd runs_UruM2P) = 1280"
  "sum_list (map snd runs_UruP2M) = 1280"
  "sum_list (map snd runs_PotSM2P) = 1280"
  "sum_list (map snd runs_PotSP2M) = 1280"
  "sum_list (map snd runs_LiveM2P) = 1280"
  "sum_list (map snd runs_LiveP2M) = 1280"
  "sum_list (map snd runs_EoaM2P) = 1280"
  "sum_list (map snd runs_EoaP2M) = 1280"
  "sum_list (map snd runs_HexM2P) = 1280"
  "sum_list (map snd runs_HexP2M) = 1280"
  by code_simp+

lemma length_tables [simp]:
  "length fUruM2PTable = 1280"
  "length fUruP2MTable = 1280"
  "length fPotSM2PTable = 1280"
  "length fPotSP2MTable = 1280"
  "length fLiveM2PTable = 1280"
  "length fLiveP2MTable = 1280"
  "length fEoaM2PTable = 1280"
  "length fEoaP2MTable = 1280"
  "length fHexM2PTable = 1280"
  "length fHexP2MTable = 1280"
  by (simp_all only: length_seg_list length_runs
    fUruM2PTable_runs fUruP2MTable_runs fPotSM2PTable_runs fPotSP2MTable_runs fLiveM2PTable_runs fLiveP2MTable_runs fEoaM2PTable_runs fEoaP2MTable_runs fHexM2PTable_runs fHexP2MTable_runs)

text \<open>The two directions of each family; \<open>table_inverse\<close> on the checked segments.\<close>

lemmas inverse_Uru =
  table_inverse [OF fUruM2PTable_runs length_tables(1) fUruP2MTable_runs length_tables(2) inverse_tables(1)]
  table_inverse [OF fUruP2MTable_runs length_tables(2) fUruM2PTable_runs length_tables(1) inverse_tables(2)]

lemmas inverse_PotS =
  table_inverse [OF fPotSM2PTable_runs length_tables(3) fPotSP2MTable_runs length_tables(4) inverse_tables(3)]
  table_inverse [OF fPotSP2MTable_runs length_tables(4) fPotSM2PTable_runs length_tables(3) inverse_tables(4)]

lemmas inverse_Live =
  table_inverse [OF fLiveM2PTable_runs length_tables(5) fLiveP2MTable_runs length_tables(6) inverse_tables(5)]
  table_inverse [OF fLiveP2MTable_runs length_tables(6) fLiveM2PTable_runs length_tables(5) inverse_tables(6)]

lemmas inverse_Eoa =
  table_inverse [OF fEoaM2PTable_runs length_tables(7) fEoaP2MTable_runs length_tables(8) inverse_tables_eoa(1)]
  table_inverse [OF fEoaP2MTable_runs length_tables(8) fEoaM2PTable_runs length_tables(7) inverse_tables_eoa(2)]

lemmas inverse_Hex =
  table_inverse [OF fHexM2PTable_runs length_tables(9) fHexP2MTable_runs length_tables(10) inverse_tables_hex(1)]
  table_inverse [OF fHexP2MTable_runs length_tables(10) fHexM2PTable_runs length_tables(9) inverse_tables_hex(2)]

lemma safest_cases:
  obtains "GetSafestVersion v = pvPrime" | "GetSafestVersion v = pvPots" | "GetSafestVersion v = pvMoul"
    | "GetSafestVersion v = pvEoa" | "GetSafestVersion v = pvHex" | "GetSafestVersion v = pvUniversal"
proof -
  have "GetSafestVersion v \<in> {pvPrime, pvPots, pvMoul, pvEoa, pvHex, pvUniversal}"
    by (simp add: GetSafestVersion_def)
  with that show thesis by blast
qed

lemma lookup_eval:
  assumes "in_range t"
  shows "GetSafestVersion v = pvPrime \<Longrightarrow> MappedToPlasma t v = fUruM2PTable ! nat t"
    "GetSafestVersion v = pvPots \<Longrightarrow> MappedToPlasma t v = fPotSM2PTable ! nat t"
    "GetSafestVersion v = pvMoul \<Longrightarrow> MappedToPlasma t v = fLiveM2PTable ! nat t"
    "GetSafestVersion v = pvEoa \<Longrightarrow> MappedToPlasma t v = fEoaM2PTable ! nat t"
    "GetSafestVersion v = pvHex \<Longrightarrow> MappedToPlasma t v = fHexM2PTable ! nat t"
    "GetSafestVersion v = pvUniversal \<Longrightarrow> MappedToPlasma t v = t"
    "GetSafestVersion v = pvPrime \<Longrightarrow> PlasmaToMapped t v = fUruP2MTable ! nat t"
    "GetSafestVersion v = pvPots \<Longrightarrow> PlasmaToMapped t v = fPotSP2MTable ! nat t"
    "GetSafestVersion v = pvMoul \<Longrightarrow> PlasmaToMapped t v = fLiveP2MTable ! nat t"
    "GetSafestVersion v = pvEoa \<Longrightarrow> PlasmaToMapped t v = fEoaP2MTable ! nat t"
    "GetSafestVersion v = pvHex \<Longrightarrow> PlasmaToMapped t v = fHexP2MTable ! nat t"
    "GetSafestVersion v = pvUniversal \<Longrightarrow> PlasmaToMapped t v = t"
  using assms by (simp_all add: MappedToPlasma_def PlasmaToMapped_def Let_def ver_values)

lemma in_range_nonneg: "in_range t \<Longrightarrow> t \<noteq> -1"
  by (auto simp: in_range_def)

lemma m2p_in_range: "0 \<le> MappedToPlasma t v \<Longrightarrow> in_range t"
  by (auto simp: MappedToPlasma_def split: if_splits)

lemma p2m_in_range: "0 \<le> PlasmaToMapped t v \<Longrightarrow> in_range t"
  by (auto simp: PlasmaToMapped_def split: if_splits)

text \<open>The one collision: in the Uru families both camera classes share the engine's index \<open>0x9B\<close>.\<close>

definition uru_family :: "plasma_ver \<Rightarrow> bool" where
  "uru_family v \<longleftrightarrow> GetSafestVersion v \<in> {pvPrime, pvPots, pvMoul}"

lemma inverse_back:
  assumes "\<And>t. in_range t \<Longrightarrow> f t = M ! nat t" "\<And>p. in_range p \<Longrightarrow> g p = P ! nat p"
    "in_range t \<Longrightarrow> M ! nat t = p \<Longrightarrow> 0 \<le> p \<Longrightarrow> in_range p \<and> P ! nat p = t"
    "in_range t" "f t = p" "0 \<le> p"
  shows "in_range p \<and> g p = t"
  using assms by auto

lemma m2p_p2m:
  assumes "MappedToPlasma t v = p" "0 \<le> p" "uru_family v \<Longrightarrow> t \<noteq> 0x9B"
  shows "in_range p \<and> PlasmaToMapped p v = t"
proof -
  have t: "in_range t" using assms(1,2) m2p_in_range by blast
  note nn = in_range_nonneg [OF t]
  note close = t assms(1,2)
  show ?thesis
  proof (cases rule: safest_cases [of v])
    case 1
    then have fam: "uru_family v" by (simp add: uru_family_def)
    show ?thesis
      by (rule inverse_back [OF lookup_eval(1) [OF _ 1] lookup_eval(7) [OF _ 1] inverse_Uru(1) [OF _ assms(3) [OF fam]] close])
  next
    case 2
    then have fam: "uru_family v" by (simp add: uru_family_def)
    show ?thesis
      by (rule inverse_back [OF lookup_eval(2) [OF _ 2] lookup_eval(8) [OF _ 2] inverse_PotS(1) [OF _ assms(3) [OF fam]] close])
  next
    case 3
    then have fam: "uru_family v" by (simp add: uru_family_def)
    show ?thesis
      by (rule inverse_back [OF lookup_eval(3) [OF _ 3] lookup_eval(9) [OF _ 3] inverse_Live(1) [OF _ assms(3) [OF fam]] close])
  next
    case 4
    show ?thesis
      by (rule inverse_back [OF lookup_eval(4) [OF _ 4] lookup_eval(10) [OF _ 4] inverse_Eoa(1) [OF _ nn] close])
  next
    case 5
    show ?thesis
      by (rule inverse_back [OF lookup_eval(5) [OF _ 5] lookup_eval(11) [OF _ 5] inverse_Hex(1) [OF _ nn] close])
  next
    case 6
    with t assms(1,2) lookup_eval(6,12) show ?thesis by auto
  qed
qed

lemma p2m_m2p:
  assumes "PlasmaToMapped t v = p" "0 \<le> p" "uru_family v \<Longrightarrow> t \<noteq> 0x1D"
  shows "in_range p \<and> MappedToPlasma p v = t"
proof -
  have t: "in_range t" using assms(1,2) p2m_in_range by blast
  note nn = in_range_nonneg [OF t]
  note close = t assms(1,2)
  show ?thesis
  proof (cases rule: safest_cases [of v])
    case 1
    then have fam: "uru_family v" by (simp add: uru_family_def)
    show ?thesis
      by (rule inverse_back [OF lookup_eval(7) [OF _ 1] lookup_eval(1) [OF _ 1] inverse_Uru(2) [OF _ assms(3) [OF fam]] close])
  next
    case 2
    then have fam: "uru_family v" by (simp add: uru_family_def)
    show ?thesis
      by (rule inverse_back [OF lookup_eval(8) [OF _ 2] lookup_eval(2) [OF _ 2] inverse_PotS(2) [OF _ assms(3) [OF fam]] close])
  next
    case 3
    then have fam: "uru_family v" by (simp add: uru_family_def)
    show ?thesis
      by (rule inverse_back [OF lookup_eval(9) [OF _ 3] lookup_eval(3) [OF _ 3] inverse_Live(2) [OF _ assms(3) [OF fam]] close])
  next
    case 4
    show ?thesis
      by (rule inverse_back [OF lookup_eval(10) [OF _ 4] lookup_eval(4) [OF _ 4] inverse_Eoa(2) [OF _ nn] close])
  next
    case 5
    show ?thesis
      by (rule inverse_back [OF lookup_eval(11) [OF _ 5] lookup_eval(5) [OF _ 5] inverse_Hex(2) [OF _ nn] close])
  next
    case 6
    with t assms(1,2) lookup_eval(6,12) show ?thesis by auto
  qed
qed

section \<open>Class versions\<close>

lemma length_ver_tables [simp]:
  "length fLiveVerTable = 1280" "length fEoaVerTable = 1280" "length fHexVerTable = 1280"
  by code_simp+

lemma copy_table_all: "length base = length cur \<Longrightarrow> copy_table base cur = base"
  by (induction base cur rule: list_induct2) simp_all

lemma p2m_p_in_range:
  assumes "0 \<le> PlasmaToMapped t v"
  shows "in_range (PlasmaToMapped t v)"
proof (cases "uru_family v \<and> t = 0x1D")
  case False
  with p2m_m2p [OF refl assms] show ?thesis by blast
next
  case True
  have "cover (segs_at 0 runs_UruP2M) 29 29" "cover (segs_at 0 runs_PotSP2M) 29 29"
    "cover (segs_at 0 runs_LiveP2M) 29 29" by code_simp+
  then have eqs: "fUruP2MTable ! 29 = 29" "fPotSP2MTable ! 29 = 29" "fLiveP2MTable ! 29 = 29"
    using table_cover [OF fUruP2MTable_runs length_tables(2), of 29 29]
      table_cover [OF fPotSP2MTable_runs length_tables(4), of 29 29]
      table_cover [OF fLiveP2MTable_runs length_tables(6), of 29 29]
    by (simp_all add: in_range_def TYPESPACE_MAX_def)
  with True show ?thesis
    by (auto simp: uru_family_def lookup_eval in_range_def TYPESPACE_MAX_def)
qed

lemma ClassVersion_current:
  assumes "SetCurrentVersionBase v tab = Inr tab'" "length tab = 1280" "0 \<le> PlasmaToMapped t v"
  shows "ClassVersion t v = Inr (CurrentVersion (PlasmaToMapped t v) tab') \<and> length tab' = 1280"
  using assms p2m_p_in_range [OF assms(3)]
  by (auto simp: ClassVersion_def CurrentVersion_def SetCurrentVersionBase_def copy_table_all Let_def
      split: if_splits)

lemma SetCurrentVersion_current:
  assumes "SetCurrentVersion t v c tab = Inr tab'" "length tab = 1280"
  shows "CurrentVersion m tab' = (if m = PlasmaToMapped t v then c else CurrentVersion m tab)"
proof -
  from assms(1) have p: "0 \<le> PlasmaToMapped t v" by (auto simp: SetCurrentVersion_def split: if_splits)
  from p2m_p_in_range [OF this] assms p show ?thesis
    by (auto simp: SetCurrentVersion_def CurrentVersion_def in_range_def TYPESPACE_MAX_def nth_list_update)
qed

section \<open>Properties\<close>

text \<open>C19: A class index taken to an engine's numbering and back is the same class again, for every
  version; the one exception is the camera class \<open>0x9B\<close> in the Uru formats, whose number there is
  shared with class \<open>0x1D\<close>.\<close>

theorem mapped_to_plasma_and_back:
  assumes "0 \<le> MappedToPlasma t v"
    and "GetSafestVersion v \<in> {pvPrime, pvPots, pvMoul} \<Longrightarrow> t \<noteq> 0x9B"
  shows "PlasmaToMapped (MappedToPlasma t v) v = t"
  using m2p_p2m [OF refl assms(1)] assms(2) by (auto simp: uru_family_def)

theorem mapped_to_plasma_and_back_witness:
  "PlasmaToMapped (MappedToPlasma 0x1D pvMoul) pvMoul = 0x1D \<and> MappedToPlasma 0x1D pvMoul = 0x9B"
proof -
  have m: "MappedToPlasma 0x1D pvMoul = 0x9B" by code_simp
  then show ?thesis using mapped_to_plasma_and_back [of "0x1D" pvMoul] by simp
qed

text \<open>An engine's class number taken to the library's index and back is the same number; in the
  Uru formats all but \<open>0x1D\<close>, which reads as the class that is written as \<open>0x9B\<close>.\<close>

theorem plasma_to_mapped_and_back:
  assumes "0 \<le> PlasmaToMapped p v"
    and "GetSafestVersion v \<in> {pvPrime, pvPots, pvMoul} \<Longrightarrow> p \<noteq> 0x1D"
  shows "MappedToPlasma (PlasmaToMapped p v) v = p"
  using p2m_m2p [OF refl assms(1)] assms(2) by (auto simp: uru_family_def)

theorem plasma_to_mapped_and_back_witness:
  "MappedToPlasma (PlasmaToMapped 0x9B pvMoul) pvMoul = 0x9B \<and> PlasmaToMapped 0x9B pvMoul = 0x1D"
proof -
  have m: "PlasmaToMapped 0x9B pvMoul = 0x1D" by code_simp
  then show ?thesis using plasma_to_mapped_and_back [of "0x9B" pvMoul] by simp
qed

text \<open>After the version table is filled for a format and one class's version overridden, the
  current version of every class of that format is its version in the format's table, except the
  overridden one.\<close>

theorem current_versions:
  assumes "SetCurrentVersionBase v tab0 = Inr tab1" "length tab0 = 1280"
    and "SetCurrentVersion s v c tab1 = Inr tab2" "0 \<le> PlasmaToMapped t v"
  shows "CurrentVersion (PlasmaToMapped t v) tab2 =
     (if PlasmaToMapped t v = PlasmaToMapped s v then c else projr (ClassVersion t v))"
  using ClassVersion_current [OF assms(1,2,4)] SetCurrentVersion_current [OF assms(3)] by auto

theorem current_versions_witness:
  "\<exists>tab1 tab2. SetCurrentVersionBase pvHex fCurrentVerTable0 = Inr tab1 \<and>
     SetCurrentVersion 1 pvHex 7 tab1 = Inr tab2 \<and> CurrentVersion (PlasmaToMapped 1 pvHex) tab2 = 7"
proof -
  have p: "PlasmaToMapped 1 pvHex = 1" by code_simp
  have h: "pvHex \<noteq> pvMoul" "pvHex \<noteq> pvEoa" by (simp_all add: ver_values)
  have "SetCurrentVersionBase pvHex fCurrentVerTable0 = Inr (copy_table fHexVerTable fCurrentVerTable0)"
    using h by (simp add: SetCurrentVersionBase_def)
  moreover have "SetCurrentVersion 1 pvHex 7 (copy_table fHexVerTable fCurrentVerTable0)
      = Inr ((copy_table fHexVerTable fCurrentVerTable0)[nat 1 := 7])"
    by (simp add: SetCurrentVersion_def p)
  ultimately show ?thesis
    using current_versions [of pvHex fCurrentVerTable0 _ 1 7 _ 1] p by (simp add: fCurrentVerTable0_def)
qed

end
