(* ===== verification/BitVector.thy ===== *)
theory BitVector
  imports HsStream
begin

text \<open>
  The bit vector \<open>hsBitVector\<close> (\<open>src/core/Util/hsBitVector.h\<close>, \<open>.cpp\<close>): a \<open>std::vector<uint32_t>\<close>
  that grows when a bit beyond its end is set and that \<open>compact\<close> shortens.  Bit \<open>i\<close> is bit
  \<open>i mod 32\<close> of word \<open>i div 32\<close>.  The abstraction is the set of the bits that are on.

  \<open>fBitNames\<close>, a \<open>std::map\<close>, is the list of its entries in key order.  The conversions between
  numbers and strings belong to the string library and are parameters.
\<close>

section \<open>Operations\<close>

record hs_bit_vector =
  fBits :: "u32 list"
  fBitNames :: "(nat \<times> string) list"

definition bv_empty :: hs_bit_vector where
  "bv_empty = \<lparr>fBits = [], fBitNames = []\<rparr>"

definition bv_get :: "hs_bit_vector \<Rightarrow> nat \<Rightarrow> bool" where
  "bv_get bv idx =
     (if idx div 32 \<ge> length (fBits bv) then False
      else fBits bv ! (idx div 32) AND push_bit (idx mod 32) 1 \<noteq> 0)"

definition bits_resize :: "u32 list \<Rightarrow> nat \<Rightarrow> u32 list" where
  "bits_resize ws n = take n ws @ replicate (n - length ws) 0"

definition bv_set :: "nat \<Rightarrow> bool \<Rightarrow> hs_bit_vector \<Rightarrow> hs_bit_vector" where
  "bv_set idx b bv =
     (let w = idx div 32; m = push_bit (idx mod 32) 1;
          ws = (if w \<ge> length (fBits bv) then bits_resize (fBits bv) (w + 1) else fBits bv) in
      bv\<lparr>fBits := ws[w := (if b then ws ! w OR m else ws ! w AND NOT m)]\<rparr>)"

definition bv_size :: "hs_bit_vector \<Rightarrow> nat" where
  "bv_size bv = length (fBits bv) * 32"

definition bv_isEmpty :: "hs_bit_vector \<Rightarrow> bool" where
  "bv_isEmpty bv \<longleftrightarrow> fBits bv = []"

definition bv_clear :: "hs_bit_vector \<Rightarrow> hs_bit_vector" where
  "bv_clear bv = bv\<lparr>fBits := []\<rparr>"

definition bv_setBit :: "nat \<Rightarrow> hs_bit_vector \<Rightarrow> hs_bit_vector" where
  "bv_setBit idx = bv_set idx True"

definition bv_clearBit :: "nat \<Rightarrow> hs_bit_vector \<Rightarrow> hs_bit_vector" where
  "bv_clearBit idx = bv_set idx False"

text \<open>The loop of \<open>compact\<close>: \<open>newSize\<close> walks down over the zero words at the end.\<close>

fun compact_size :: "u32 list \<Rightarrow> nat \<Rightarrow> nat" where
  "compact_size ws 0 = 0"
| "compact_size ws (Suc n) = (if ws ! n = 0 then compact_size ws n else Suc n)"

definition bv_compact :: "hs_bit_vector \<Rightarrow> hs_bit_vector" where
  "bv_compact bv =
     (let newSize = compact_size (fBits bv) (length (fBits bv)) in
      if newSize < length (fBits bv) then bv\<lparr>fBits := bits_resize (fBits bv) newSize\<rparr> else bv)"

definition bv_getName :: "(nat \<Rightarrow> string) \<Rightarrow> nat \<Rightarrow> hs_bit_vector \<Rightarrow> string" where
  "bv_getName from_uint idx bv =
     (case map_of (fBitNames bv) idx of Some nm \<Rightarrow> nm | None \<Rightarrow> from_uint idx)"

definition bv_getValue :: "(string \<Rightarrow> nat) \<Rightarrow> string \<Rightarrow> hs_bit_vector \<Rightarrow> nat" where
  "bv_getValue to_uint name bv =
     (case find (\<lambda>e. snd e = name) (fBitNames bv) of
        Some e \<Rightarrow> fst e | None \<Rightarrow> to_uint name)"

fun put_name :: "nat \<Rightarrow> string \<Rightarrow> (nat \<times> string) list \<Rightarrow> (nat \<times> string) list" where
  "put_name i nm [] = [(i, nm)]"
| "put_name i nm ((j, m) # r) =
     (if i < j then (i, nm) # (j, m) # r
      else if i = j then (i, nm) # r else (j, m) # put_name i nm r)"

definition bv_setName :: "nat \<Rightarrow> string \<Rightarrow> hs_bit_vector \<Rightarrow> hs_bit_vector" where
  "bv_setName idx name bv = bv\<lparr>fBitNames := put_name idx name (fBitNames bv)\<rparr>"

definition bv_read :: "hs_bit_vector \<Rightarrow> hs_bit_vector io" where
  "bv_read bv =
     io_bind readInt (\<lambda>count.
     io_bind (io_repeat (unat count) readInt) (\<lambda>ws.
     io_return (bv\<lparr>fBits := ws\<rparr>)))"

text \<open>A release build compacts the object it writes; the result is the object after it.\<close>

definition bv_write :: "hs_bit_vector \<Rightarrow> hs_bit_vector io" where
  "bv_write bv =
     (let bv = bv_compact bv in
      io_then (writeInt (word_of_nat (length (fBits bv))))
        (io_then (io_each writeInt (fBits bv)) (io_return bv)))"

section \<open>Bits\<close>

lemma bv_get_bit: "bv_get bv i \<longleftrightarrow> i div 32 < length (fBits bv) \<and> bit (fBits bv ! (i div 32)) (i mod 32)"
proof -
  have "i mod 32 < 32" by simp
  then show ?thesis
    by (simp add: bv_get_def not_le bit_iff_and_push_bit_not_eq_0 possible_bit_word)
qed

lemma bv_get_cong: "fBits a = fBits b \<Longrightarrow> bv_get a i = bv_get b i"
  by (simp add: bv_get_def)

lemma nth_bits_resize:
  "k < n \<Longrightarrow> bits_resize ws n ! k = (if k < length ws then ws ! k else 0)"
  by (simp add: bits_resize_def nth_append)

lemma length_bits_resize [simp]: "length (bits_resize ws n) = n"
  by (simp add: bits_resize_def)

lemma same_bit: "(i :: nat) div 32 = j div 32 \<Longrightarrow> i mod 32 = j mod 32 \<longleftrightarrow> i = j"
  by (metis div_mult_mod_eq)

text \<open>Setting a bit changes that bit and no other.\<close>

lemma bv_get_set: "bv_get (bv_set i b bv) j = (if j = i then b else bv_get bv j)"
proof -
  have m: "i mod 32 < 32" "j mod 32 < 32" by simp_all
  show ?thesis
  proof (cases "j div 32 = i div 32")
    case True
    with same_bit [OF True] m show ?thesis
      by (auto simp: bv_get_bit bv_set_def Let_def nth_bits_resize bit_simps)
  next
    case False
    then have "j \<noteq> i" by auto
    with False m show ?thesis
      by (auto simp: bv_get_bit bv_set_def Let_def nth_bits_resize split: if_splits)
  qed
qed

section \<open>Compacting\<close>

lemma compact_size_le: "compact_size ws n \<le> n"
  by (induction n) auto

lemma compact_size_zero: "compact_size ws n \<le> k \<Longrightarrow> k < n \<Longrightarrow> ws ! k = 0"
  by (induction n) (auto split: if_splits simp: less_Suc_eq)

lemma compact_size_last: "compact_size ws n \<noteq> 0 \<Longrightarrow> ws ! (compact_size ws n - 1) \<noteq> 0"
  by (induction n) auto

lemma fBits_compact: "fBits (bv_compact bv) = take (compact_size (fBits bv) (length (fBits bv))) (fBits bv)"
  using compact_size_le [of "fBits bv" "length (fBits bv)"]
  by (auto simp: bv_compact_def bits_resize_def Let_def)

lemma bv_get_compact: "bv_get (bv_compact bv) i = bv_get bv i"
proof (cases "i div 32 < compact_size (fBits bv) (length (fBits bv))")
  case False
  with compact_size_zero [of "fBits bv" "length (fBits bv)" "i div 32"] show ?thesis
    by (auto simp: bv_get_bit fBits_compact)
qed (auto simp: bv_get_bit fBits_compact)

lemma compact_last: "fBits (bv_compact bv) \<noteq> [] \<Longrightarrow> last (fBits (bv_compact bv)) \<noteq> 0"
  using compact_size_last [of "fBits bv" "length (fBits bv)"]
    compact_size_le [of "fBits bv" "length (fBits bv)"]
  by (auto simp: fBits_compact last_conv_nth min_def)

lemma words_eq:
  assumes "\<And>i. bv_get a i = bv_get b i" "k < length (fBits a)" "k < length (fBits b)"
  shows "fBits a ! k = fBits b ! k"
proof (rule bit_word_eqI)
  fix n
  assume "n < LENGTH(32)"
  with assms(1) [of "32 * k + n"] assms(2,3)
  show "bit (fBits a ! k) n = bit (fBits b ! k) n" by (simp add: bv_get_bit)
qed

text \<open>A vector without zero words at its end is determined by its bits.\<close>

lemma longer_zero:
  assumes "\<And>i. bv_get a i = bv_get b i" "length (fBits b) < length (fBits a)"
  shows "last (fBits a) = 0"
proof (rule bit_word_eqI)
  fix n
  assume "n < LENGTH(32)"
  with assms(1) [of "32 * (length (fBits a) - 1) + n"] assms(2)
  show "bit (last (fBits a)) n = bit (0 :: u32) n"
    by (cases "fBits a = []") (auto simp: bv_get_bit last_conv_nth)
qed

lemma compact_canonical:
  assumes "\<And>i. bv_get a i = bv_get b i"
  shows "fBits (bv_compact a) = fBits (bv_compact b)"
proof -
  let ?a = "bv_compact a" and ?b = "bv_compact b"
  have eq: "bv_get ?a i = bv_get ?b i" for i
    by (simp add: bv_get_compact assms)
  have "length (fBits ?a) = length (fBits ?b)"
    using longer_zero [of ?a ?b] longer_zero [of ?b ?a] eq compact_last [of a] compact_last [of b]
    by (metis length_0_conv less_zeroE nat_neq_iff)
  with words_eq [of ?a ?b] eq show ?thesis by (simp add: list_eq_iff_nth_eq)
qed

section \<open>On the wire\<close>

definition bv_ok :: "plasma_ver \<Rightarrow> hs_bit_vector \<Rightarrow> bool" where
  "bv_ok v bv \<longleftrightarrow> length (fBits (bv_compact bv)) < 2 ^ 32"

definition bv_image :: "hs_bit_vector \<Rightarrow> bytes" where
  "bv_image bv =
     le32 (word_of_nat (length (fBits (bv_compact bv)))) @ concat (map le32 (fBits (bv_compact bv)))"

lemma emits_bv_write: "emits (bv_write bv) v (bv_image bv) (bv_compact bv) v"
  unfolding bv_write_def bv_image_def Let_def
  by (rule emits_cong, (rule wire)+) simp_all

lemma parses_bv_read:
  "bv_ok v bv \<Longrightarrow> parses (bv_read old) v (bv_image bv) (old\<lparr>fBits := fBits (bv_compact bv)\<rparr>) v"
  unfolding bv_read_def bv_image_def
  by (rule parses_bind [OF parses_prims(3) parses_bind_return], rule parses_repeat_id)
    (simp_all add: bv_ok_def unat_of_nat parses_prims)

interpretation bit_vector: codec bv_write bv_read bv_ok "\<lambda>v. bv_image"
  "\<lambda>v old bv. old\<lparr>fBits := fBits (bv_compact bv)\<rparr>"
  by unfold_locales (auto intro: emits_bv_write parses_bv_read)

section \<open>Names\<close>

lemma map_of_put_name:
  "sorted_wrt (<) (map fst ns) \<Longrightarrow> map_of (put_name i nm ns) = (map_of ns)(i \<mapsto> nm)"
  by (induction ns) (auto simp: fun_eq_iff)

lemma set_put_name_keys: "set (map fst (put_name i nm ns)) = insert i (set (map fst ns))"
  by (induction ns rule: put_name.induct) auto

lemma sorted_put_name:
  "sorted_wrt (<) (map fst ns) \<Longrightarrow> sorted_wrt (<) (map fst (put_name i nm ns))"
proof (induction i nm ns rule: put_name.induct)
  case (2 i nm j m r)
  then show ?case using set_put_name_keys [of i nm r] by auto
qed simp

text \<open>A name that only one bit has leads back to that bit; so does the number of an unnamed one.\<close>

lemma find_SomeD: "find P xs = Some x \<Longrightarrow> x \<in> set xs \<and> P x"
  by (induction xs) (auto split: if_splits)

lemma getValue_named:
  assumes "(i, nm) \<in> set (fBitNames bv)" "\<And>j. (j, nm) \<in> set (fBitNames bv) \<Longrightarrow> j = i"
  shows "bv_getValue to_uint nm bv = i"
proof -
  have "find (\<lambda>e. snd e = nm) (fBitNames bv) \<noteq> None"
    using assms(1) unfolding find_None_iff by auto
  then obtain j m where e: "find (\<lambda>e. snd e = nm) (fBitNames bv) = Some (j, m)" by auto
  from find_SomeD [OF this] have "(j, m) \<in> set (fBitNames bv)" "m = nm" by auto
  with assms(2) have "j = i" by blast
  with e show ?thesis by (simp add: bv_getValue_def)
qed

lemma getValue_getName:
  assumes "inj_on snd (set (fBitNames bv))" "to_uint (from_uint i) = i"
    "from_uint i \<notin> snd ` set (fBitNames bv)"
  shows "bv_getValue to_uint (bv_getName from_uint i bv) bv = i"
proof (cases "map_of (fBitNames bv) i")
  case None
  with assms(3) have "find (\<lambda>e. snd e = from_uint i) (fBitNames bv) = None"
    by (force simp: find_None_iff)
  with None assms(2) show ?thesis by (simp add: bv_getName_def bv_getValue_def)
next
  case (Some nm)
  then have "(i, nm) \<in> set (fBitNames bv)" by (rule map_of_SomeD)
  moreover have "j = i" if "(j, nm) \<in> set (fBitNames bv)" for j
    using inj_onD [OF assms(1) _ that \<open>(i, nm) \<in> _\<close>] by simp
  ultimately have "bv_getValue to_uint nm bv = i" by (rule getValue_named)
  with Some show ?thesis by (simp add: bv_getName_def)
qed

section \<open>Properties\<close>

text \<open>C27: The bit vector behaves as a set of naturals: after any sequence of assignments to bits, a bit
  is on exactly when the last assignment to it turned it on, however the word array grew on the way.\<close>

theorem bit_vector_assignments:
  "bv_get (fold (\<lambda>(i, b). bv_set i b) ops bv) j =
     (case map_of (rev ops) j of Some b \<Rightarrow> b | None \<Rightarrow> bv_get bv j)"
proof (induction ops rule: rev_induct)
  case (snoc op ops)
  then show ?case by (cases op) (simp add: bv_get_set)
qed simp

text \<open>Compacting drops zero words only: it keeps every bit, and two vectors with the same bits
  become the same array of words.\<close>

theorem bit_vector_compact:
  "(\<forall>i. bv_get (bv_compact a) i = bv_get a i) \<and>
   ((\<forall>i. bv_get a i = bv_get b i) \<longleftrightarrow> fBits (bv_compact a) = fBits (bv_compact b))"
proof -
  have "bv_get a i = bv_get b i" if "fBits (bv_compact a) = fBits (bv_compact b)" for i
    using bv_get_cong [OF that, of i] by (simp add: bv_get_compact)
  then show ?thesis using compact_canonical [of a b] bv_get_compact by blast
qed

text \<open>A bit vector written to a stream and read back has the bits it had.\<close>

theorem bit_vector_stream_roundtrip:
  assumes "length (fBits bv) < 2 ^ 29"
  shows "\<exists>bv1 bv2 s. bv_write bv \<lparr>s_ver = v, s_data = [], s_pos = 0\<rparr> = Inr (bv1, s) \<and>
     bv_read old (s\<lparr>s_pos := 0\<rparr>) = Inr (bv2, s) \<and> s_eof s \<and> (\<forall>i. bv_get bv2 i = bv_get bv i)"
proof -
  have le: "length (fBits (bv_compact bv)) \<le> length (fBits bv)"
    by (simp add: fBits_compact compact_size_le)
  with assms have ok: "bv_ok v bv" "length (bv_image bv) < 2 ^ 32"
    by (simp_all add: bv_ok_def bv_image_def)
  have "bv_get (old\<lparr>fBits := fBits (bv_compact bv)\<rparr>) i = bv_get bv i" for i
    using bv_get_cong [of "old\<lparr>fBits := fBits (bv_compact bv)\<rparr>" "bv_compact bv" i] by (simp add: bv_get_compact)
  with bit_vector.roundtrip [OF ok] show ?thesis by blast
qed

theorem bit_vector_stream_roundtrip_witness:
  "\<exists>bv1 bv2 s. bv_write (bv_set 40 True bv_empty) \<lparr>s_ver = pvMoul, s_data = [], s_pos = 0\<rparr> = Inr (bv1, s) \<and>
     bv_read bv_empty (s\<lparr>s_pos := 0\<rparr>) = Inr (bv2, s) \<and> s_eof s \<and> bv_get bv2 40"
proof -
  have "length (fBits (bv_set 40 True bv_empty)) < 2 ^ 29" by (simp add: bv_set_def bv_empty_def Let_def)
  from bit_vector_stream_roundtrip [OF this, of pvMoul bv_empty] show ?thesis by (auto simp: bv_get_set)
qed

text \<open>The textual name of a bit, whether it was given one or is shown by number, leads back to the
  bit, as long as names are distinct and none of them is the number of the bit.\<close>

theorem bit_names_roundtrip:
  assumes "inj_on snd (set (fBitNames bv))" "to_uint (from_uint i) = i"
    "from_uint i \<notin> snd ` set (fBitNames bv)"
  shows "bv_getValue to_uint (bv_getName from_uint i bv) bv = i"
  by (rule getValue_getName) (fact assms)+

theorem bit_names_roundtrip_witness:
  "bv_getValue length (bv_getName (\<lambda>n. replicate n CHR ''x'') 3 (bv_setName 3 ''named'' bv_empty))
     (bv_setName 3 ''named'' bv_empty) = 3"
  by (rule bit_names_roundtrip) (simp_all add: bv_setName_def bv_empty_def eval_nat_numeral)

end
