(* ===== verification/Location.thy ===== *)
theory Location
  imports HsStream
begin

text \<open>
  Page locations \<open>plLocation\<close> and load masks \<open>plLoadMask\<close> (\<open>src/core/PRP/KeyedObject\<close>).  A
  location is a sequence prefix and a page number, packed into one 32-bit id whose layout depends
  on the version; \<open>parse\<close> and \<open>unparse\<close> are the two directions.

  \<open>fSeqPrefix\<close> and \<open>fPageNum\<close> are C \<open>int\<close>s.  A shift or sum in \<open>unparse\<close> that leaves the type is
  taken modulo \<open>2 ^ 32\<close>, which is what the returned \<open>unsigned int\<close> keeps of it.  The writers of
  the PRC text format are not modelled; their warnings are output only.
\<close>

section \<open>Locations\<close>

record pl_location =
  l_ver :: plasma_ver
  fState :: int
  fSeqPrefix :: int
  fPageNum :: int
  fFlags :: u16

definition kStateInvalid :: int where "kStateInvalid = 0"
definition kStateNormal :: int where "kStateNormal = 1"
definition kStateVirtual :: int where "kStateVirtual = 2"

definition loc_new :: "plasma_ver \<Rightarrow> pl_location" where
  "loc_new pv = \<lparr>l_ver = pv, fState = kStateInvalid, fSeqPrefix = 0, fPageNum = 0, fFlags = 0\<rparr>"

definition loc_eq :: "pl_location \<Rightarrow> pl_location \<Rightarrow> bool" where
  "loc_eq a b \<longleftrightarrow> fState a = fState b \<and> fPageNum a = fPageNum b \<and> fSeqPrefix a = fSeqPrefix b"

definition loc_ne :: "pl_location \<Rightarrow> pl_location \<Rightarrow> bool" where
  "loc_ne a b \<longleftrightarrow> fState a \<noteq> fState b \<or> fPageNum a \<noteq> fPageNum b \<or> fSeqPrefix a \<noteq> fSeqPrefix b \<or>
     fFlags a \<noteq> fFlags b"

definition loc_less :: "pl_location \<Rightarrow> pl_location \<Rightarrow> bool" where
  "loc_less a b \<longleftrightarrow>
     (if fSeqPrefix a = fSeqPrefix b then fPageNum a < fPageNum b else fSeqPrefix a < fSeqPrefix b)"

text \<open>The last step of \<open>parse\<close>: only the top 32 page numbers stay negative.\<close>

definition fix_page :: "plasma_ver \<Rightarrow> int \<Rightarrow> int" where
  "fix_page v p = (if p < -32 then (if isLive v then p + 0x10000 else p + 0x100) else p)"

definition loc_parse :: "u32 \<Rightarrow> pl_location \<Rightarrow> pl_location result" where
  "loc_parse i l =
     (if i = 0xFFFFFFFF then Inr (l\<lparr>fState := kStateInvalid, fSeqPrefix := 0, fPageNum := 0\<rparr>)
      else if i = 0 then Inr (l\<lparr>fState := kStateVirtual, fSeqPrefix := 0, fPageNum := 0\<rparr>)
      else if isUniversal (l_ver l) then Inl BadParamException
      else if isLive (l_ver l) then
        let neg = (0xFF010000 \<le> i); j = (if neg then i - 0xFF000001 else i - 33);
            s = uint (drop_bit 16 j) in
        Inr (l\<lparr>fState := kStateNormal, fSeqPrefix := (if neg then - s else s),
               fPageNum := fix_page (l_ver l) (sint (ucast j :: 16 word))\<rparr>)
      else
        let neg = (0xFFFF0100 \<le> i); j = (if neg then i - 0xFFFF0001 else i - 33);
            s = uint (drop_bit 8 j) in
        Inr (l\<lparr>fState := kStateNormal, fSeqPrefix := (if neg then - s else s),
               fPageNum := fix_page (l_ver l) (sint (ucast j :: 8 word))\<rparr>))"

definition loc_unparse :: "pl_location \<Rightarrow> u32 result" where
  "loc_unparse l =
     (if fState l = kStateInvalid then Inr 0xFFFFFFFF
      else if fState l = kStateVirtual then Inr 0
      else if isUniversal (l_ver l) then Inl BadParamException
      else if isLive (l_ver l) then
        Inr (if fSeqPrefix l < 0
             then word_of_int (push_bit 16 (- fSeqPrefix l) + (fPageNum l AND 0xFFFF) + 0xFF000001)
             else word_of_int (push_bit 16 (fSeqPrefix l) + (fPageNum l AND 0xFFFF) + 33))
      else
        Inr (if fSeqPrefix l < 0
             then word_of_int (push_bit 8 (- fSeqPrefix l) + (fPageNum l AND 0xFF) + 0xFFFF0001)
             else word_of_int (push_bit 8 (fSeqPrefix l) + (fPageNum l AND 0xFF) + 33)))"

definition loc_read :: "pl_location \<Rightarrow> pl_location io" where
  "loc_read l0 =
     io_bind getVer (\<lambda>v.
     let l = l0\<lparr>l_ver := v\<rparr> in
     if isUniversal v then
       io_bind readByte (\<lambda>st. io_bind readInt (\<lambda>sq. io_bind readInt (\<lambda>pg. io_bind readShort (\<lambda>fl.
         io_return (l\<lparr>fState := uint st, fSeqPrefix := sint sq, fPageNum := sint pg, fFlags := fl\<rparr>)))))
     else
       io_bind readInt (\<lambda>i. io_bind (io_lift (loc_parse i l)) (\<lambda>l1.
         if v < MAKE_VERSION 2 0 62 0 \<and> isValid v then io_return (l1\<lparr>fFlags := 0\<rparr>)
         else if isNewPlasma v then io_bind readByte (\<lambda>b. io_return (l1\<lparr>fFlags := ucast b\<rparr>))
         else io_bind readShort (\<lambda>h. io_return (l1\<lparr>fFlags := h\<rparr>)))))"

text \<open>\<open>write\<close> first adjusts the version the location is encoded for; the result is the location.\<close>

definition loc_write_ver :: "plasma_ver \<Rightarrow> pl_location \<Rightarrow> pl_location" where
  "loc_write_ver v l =
     (let l1 = (if isValid v then l\<lparr>l_ver := v\<rparr> else l) in
      if \<not> isSafeVer (l_ver l1) then l1\<lparr>l_ver := GetSafestVersion (l_ver l1)\<rparr> else l1)"

definition loc_write :: "pl_location \<Rightarrow> pl_location io" where
  "loc_write l0 =
     io_bind getVer (\<lambda>v.
     let l = loc_write_ver v l0 in
     if isUniversal v then
       io_then (writeByte (word_of_int (fState l)))
         (io_then (writeInt (word_of_int (fSeqPrefix l)))
           (io_then (writeInt (word_of_int (fPageNum l)))
             (io_then (writeShort (fFlags l)) (io_return l))))
     else
       io_bind (io_lift (loc_unparse l)) (\<lambda>i. io_then (writeInt i)
         (if isNewPlasma v then io_then (writeByte (ucast (fFlags l))) (io_return l)
          else io_then (writeShort (fFlags l)) (io_return l))))"

definition loc_invalidate :: "pl_location \<Rightarrow> pl_location" where
  "loc_invalidate l = l\<lparr>fState := kStateInvalid, fPageNum := 0, fSeqPrefix := 0, fFlags := 0\<rparr>"

definition loc_isValid :: "pl_location \<Rightarrow> bool" where
  "loc_isValid l \<longleftrightarrow> fState l \<noteq> kStateInvalid"

definition loc_isReserved :: "pl_location \<Rightarrow> bool" where
  "loc_isReserved l \<longleftrightarrow> fFlags l AND 0x4 \<noteq> 0"

definition loc_isItinerant :: "pl_location \<Rightarrow> bool" where
  "loc_isItinerant l \<longleftrightarrow> fFlags l AND 0x10 \<noteq> 0"

definition loc_isVirtual :: "pl_location \<Rightarrow> bool" where
  "loc_isVirtual l \<longleftrightarrow> fState l = kStateVirtual"

definition loc_isGlobal :: "pl_location \<Rightarrow> bool" where
  "loc_isGlobal l \<longleftrightarrow> fSeqPrefix l < 0"

definition loc_setVirtual :: "pl_location \<Rightarrow> pl_location" where
  "loc_setVirtual l = l\<lparr>fState := kStateVirtual, fPageNum := 0, fSeqPrefix := 0\<rparr>"

definition loc_setPageNum :: "int \<Rightarrow> pl_location \<Rightarrow> pl_location" where
  "loc_setPageNum pn l = l\<lparr>fPageNum := pn, fState := kStateNormal\<rparr>"

definition loc_setSeqPrefix :: "int \<Rightarrow> pl_location \<Rightarrow> pl_location" where
  "loc_setSeqPrefix sp l = l\<lparr>fSeqPrefix := sp, fState := kStateNormal\<rparr>"

definition loc_set :: "int \<Rightarrow> u16 \<Rightarrow> plasma_ver \<Rightarrow> pl_location \<Rightarrow> pl_location result" where
  "loc_set pid flags pv l =
     (if isUniversal pv then Inl BadParamException
      else rbind (loc_parse (word_of_int pid) (l\<lparr>l_ver := pv\<rparr>)) (\<lambda>l1. Inr (l1\<lparr>fFlags := flags\<rparr>)))"

section \<open>Load masks\<close>

text \<open>The union's two quality bytes; \<open>fMask\<close> is the little-endian short they form.\<close>

record pl_load_mask =
  lowQuality :: u8
  highQuality :: u8

definition mask_new :: pl_load_mask where
  "mask_new = \<lparr>lowQuality = 0xFF, highQuality = 0xFF\<rparr>"

definition mask_getMask :: "pl_load_mask \<Rightarrow> u16" where
  "mask_getMask m = un_le16 [lowQuality m, highQuality m]"

definition mask_setMask :: "u16 \<Rightarrow> pl_load_mask \<Rightarrow> pl_load_mask" where
  "mask_setMask w m = m\<lparr>lowQuality := le16 w ! 0, highQuality := le16 w ! 1\<rparr>"

definition mask_setAlways :: "pl_load_mask \<Rightarrow> pl_load_mask" where
  "mask_setAlways m = mask_setMask 0xFFFF m"

definition mask_isUsed :: "pl_load_mask \<Rightarrow> bool" where
  "mask_isUsed m \<longleftrightarrow> mask_getMask m \<noteq> 0xFFFF"

definition mask_setQuality :: "u8 \<Rightarrow> u8 \<Rightarrow> pl_load_mask \<Rightarrow> pl_load_mask" where
  "mask_setQuality lo hi m = m\<lparr>lowQuality := lo, highQuality := hi\<rparr>"

definition mask_read :: "pl_load_mask \<Rightarrow> pl_load_mask io" where
  "mask_read l = io_bind readByte (\<lambda>m.
     io_return (l\<lparr>lowQuality := drop_bit 4 m OR 0xF0, highQuality := m OR 0xF0\<rparr>))"

definition mask_byte :: "pl_load_mask \<Rightarrow> u8" where
  "mask_byte l = (highQuality l AND 0x0F) OR push_bit 4 (lowQuality l)"

definition mask_write :: "pl_load_mask \<Rightarrow> unit io" where
  "mask_write l = writeByte (mask_byte l)"

section \<open>Encoding locations\<close>

text \<open>The ranges in which a location is encoded uniquely, as the warnings of \<open>unparse\<close> state them.\<close>

definition loc_encodable :: "plasma_ver \<Rightarrow> pl_location \<Rightarrow> bool" where
  "loc_encodable v l \<longleftrightarrow>
     (if fState l = kStateInvalid \<or> fState l = kStateVirtual then fSeqPrefix l = 0 \<and> fPageNum l = 0
      else fState l = kStateNormal \<and>
        (if isLive v then fSeqPrefix l \<in> {-254..0xFEFF} \<and> fPageNum l \<in> {-32..0xFFDF}
         else fSeqPrefix l \<in> {-254..0xFFFEFF} \<and> fPageNum l \<in> {-32..0xDF}))"

lemma and_masks: "(p :: int) AND 0xFFFF = p mod 65536" "(p :: int) AND 0xFF = p mod 256"
  using take_bit_eq_mask [of 16 p] take_bit_eq_mask [of 8 p]
  by (simp_all add: mask_eq_exp_minus_1 take_bit_eq_mod)

lemma sint_ucast16: "sint (ucast (word_of_int j :: u32) :: 16 word) = (j + 32768) mod 65536 - 32768"
  by (simp add: sint_uint uint_word_of_int unsigned_ucast_eq signed_take_bit_eq_take_bit_shift
      take_bit_eq_mod mod_mod_cancel mod_simps)

lemma sint_ucast8: "sint (ucast (word_of_int j :: u32) :: 8 word) = (j + 128) mod 256 - 128"
  by (simp add: sint_uint uint_word_of_int unsigned_ucast_eq signed_take_bit_eq_take_bit_shift
      take_bit_eq_mod mod_mod_cancel mod_simps)

lemma uint_drop: "0 \<le> j \<Longrightarrow> j < 2 ^ 32 \<Longrightarrow> uint (drop_bit 16 (word_of_int j :: u32)) = j div 65536"
  "0 \<le> j \<Longrightarrow> j < 2 ^ 32 \<Longrightarrow> uint (drop_bit 8 (word_of_int j :: u32)) = j div 256"
  by (simp_all add: unsigned_drop_bit_eq uint_word_of_int) (simp_all add: drop_bit_eq_div take_bit_eq_mod)

text \<open>The four ways through \<open>parse\<close>, the id minus its offset given as an integer.\<close>

definition normal_loc :: "int \<Rightarrow> int \<Rightarrow> pl_location \<Rightarrow> pl_location" where
  "normal_loc s p l = l\<lparr>fState := kStateNormal, fSeqPrefix := s, fPageNum := fix_page (l_ver l) p\<rparr>"

lemma loc_parse_branches:
  assumes "w \<noteq> 0xFFFFFFFF" "w \<noteq> 0" "\<not> isUniversal (l_ver l)" "0 \<le> j" "j < 2 ^ 32"
  shows "isLive (l_ver l) \<Longrightarrow> 0xFF010000 \<le> w \<Longrightarrow> w - 0xFF000001 = word_of_int j \<Longrightarrow>
      loc_parse w l = Inr (normal_loc (- (j div 65536)) ((j + 32768) mod 65536 - 32768) l)"
    and "isLive (l_ver l) \<Longrightarrow> \<not> 0xFF010000 \<le> w \<Longrightarrow> w - 33 = word_of_int j \<Longrightarrow>
      loc_parse w l = Inr (normal_loc (j div 65536) ((j + 32768) mod 65536 - 32768) l)"
    and "\<not> isLive (l_ver l) \<Longrightarrow> 0xFFFF0100 \<le> w \<Longrightarrow> w - 0xFFFF0001 = word_of_int j \<Longrightarrow>
      loc_parse w l = Inr (normal_loc (- (j div 256)) ((j + 128) mod 256 - 128) l)"
    and "\<not> isLive (l_ver l) \<Longrightarrow> \<not> 0xFFFF0100 \<le> w \<Longrightarrow> w - 33 = word_of_int j \<Longrightarrow>
      loc_parse w l = Inr (normal_loc (j div 256) ((j + 128) mod 256 - 128) l)"
  using assms
  by (simp_all add: loc_parse_def Let_def sint_ucast16 sint_ucast8 uint_drop normal_loc_def)

lemma word_of_int_facts:
  assumes "0 \<le> i" "i < 2 ^ 32"
  shows "(word_of_int i :: u32) = 0xFFFFFFFF \<longleftrightarrow> i = 0xFFFFFFFF" "(word_of_int i :: u32) = 0 \<longleftrightarrow> i = 0"
    "0xFF010000 \<le> (word_of_int i :: u32) \<longleftrightarrow> 0xFF010000 \<le> i"
    "0xFFFF0100 \<le> (word_of_int i :: u32) \<longleftrightarrow> 0xFFFF0100 \<le> i"
  using assms by (simp_all add: word_uint_eq_iff word_le_def uint_word_of_int)

text \<open>The page number comes back from its low 16 or 8 bits.\<close>

lemma centre_mod:
  fixes x :: int
  assumes "0 \<le> x" "x < 2 * h"
  shows "(x + h) mod (2 * h) = (if x < h then x + h else x - h)"
proof (cases "x < h")
  case False
  have "(x + h) mod (2 * h) = (x - h) mod (2 * h)"
    using mod_add_self2 [of "x - h" "2 * h"] by (simp add: algebra_simps)
  also have "\<dots> = x - h" using False assms by (simp add: mod_pos_pos_trivial)
  finally show ?thesis using False by simp
qed (use assms in simp)

lemma neg_mod:
  fixes p :: int
  assumes "- k \<le> p" "p < 0"
  shows "p mod k = p + k"
proof -
  have "p mod k = (p + k) mod k" by simp
  with assms show ?thesis by (simp add: mod_pos_pos_trivial del: mod_add_self2)
qed

lemma page_low:
  fixes p :: int
  assumes "-32 \<le> p" "p < 2 * h - 32" "32 < h"
  shows "(let q = (p mod (2 * h) + h) mod (2 * h) - h in if q < -32 then q + 2 * h else q) = p"
proof (cases "p < 0")
  case True
  with assms neg_mod [of "2 * h" p] centre_mod [of "p + 2 * h" h] show ?thesis by (simp add: Let_def)
next
  case False
  with assms centre_mod [of p h] show ?thesis by (auto simp: Let_def)
qed

lemma fix_page_low:
  "isLive v \<Longrightarrow> -32 \<le> p \<Longrightarrow> p \<le> 0xFFDF \<Longrightarrow> fix_page v ((p mod 65536 + 32768) mod 65536 - 32768) = p"
  "\<not> isLive v \<Longrightarrow> -32 \<le> p \<Longrightarrow> p \<le> 0xDF \<Longrightarrow> fix_page v ((p mod 256 + 128) mod 256 - 128) = p"
proof -
  have n: "2 * 32768 = (65536 :: int)" "2 * 128 = (256 :: int)" by simp_all
  have fp: "fix_page v x = (if x < -32 then x + (if isLive v then 65536 else 256) else x)" for x
    by (simp add: fix_page_def)
  show "fix_page v ((p mod 65536 + 32768) mod 65536 - 32768) = p"
    if "isLive v" "-32 \<le> p" "p \<le> 0xFFDF"
    unfolding fp if_P [OF that(1)] by (rule page_low [of p 32768, unfolded n Let_def]) (use that in simp_all)
  show "fix_page v ((p mod 256 + 128) mod 256 - 128) = p" if "\<not> isLive v" "-32 \<le> p" "p \<le> 0xDF"
    unfolding fp if_not_P [OF that(1)] by (rule page_low [of p 128, unfolded n Let_def]) (use that in simp_all)
qed

lemma normal_loc_eq:
  "l_ver l' = l_ver l \<Longrightarrow> fState l = kStateNormal \<Longrightarrow> fix_page (l_ver l) p = fPageNum l \<Longrightarrow>
   s = fSeqPrefix l \<Longrightarrow> normal_loc s p l' = l\<lparr>fFlags := fFlags l'\<rparr>"
  by (cases l; cases l') (simp add: normal_loc_def)

lemma packed:
  fixes s q :: int
  assumes "0 \<le> q" "q < 2 * h" "0 < h"
  shows "(s * (2 * h) + q) div (2 * h) = s" "(s * (2 * h) + q + h) mod (2 * h) = (q + h) mod (2 * h)"
proof -
  show "(s * (2 * h) + q) div (2 * h) = s" using assms by (simp add: div_pos_pos_trivial)
  have "(s * (2 * h) + q + h) mod (2 * h) = ((q + h) + (2 * h) * s) mod (2 * h)"
    by (simp add: algebra_simps)
  then show "(s * (2 * h) + q + h) mod (2 * h) = (q + h) mod (2 * h)"
    by (simp only: mod_mult_self2)
qed

lemma loc_parse_unparse:
  assumes ok: "loc_encodable (l_ver l) l" and u: "\<not> isUniversal (l_ver l)"
  shows "\<exists>i. loc_unparse l = Inr i \<and>
     (\<forall>l'. l_ver l' = l_ver l \<longrightarrow> loc_parse i l' = Inr (l\<lparr>fFlags := fFlags l'\<rparr>))"
proof (cases "fState l = kStateInvalid \<or> fState l = kStateVirtual")
  case True
  with ok show ?thesis
    by (cases l) (auto simp: loc_unparse_def loc_encodable_def loc_parse_def)
next
  case False
  with ok have st: "fState l = kStateNormal" by (simp add: loc_encodable_def)
  let ?s = "fSeqPrefix l" and ?v = "l_ver l" and ?p = "fPageNum l"
  show ?thesis
  proof (cases "isLive ?v")
    case True
    define q where "q = ?p mod 65536"
    have q: "0 \<le> q" "q < 65536" by (simp_all add: q_def)
    from ok st False True have r: "-254 \<le> ?s" "?s \<le> 0xFEFF" "-32 \<le> ?p" "?p \<le> 0xFFDF"
      by (auto simp: loc_encodable_def)
    note page = fix_page_low(1) [OF True r(3,4), folded q_def]
    define j where "j = \<bar>?s\<bar> * 65536 + q"
    have j: "j div 65536 = \<bar>?s\<bar>" "(j + 32768) mod 65536 = (q + 32768) mod 65536"
      using packed [of q 32768 "\<bar>?s\<bar>"] q by (simp_all add: j_def)
    show ?thesis
    proof (cases "?s < 0")
      case neg: True
      let ?i = "j + 0xFF000001"
      have b: "0 \<le> j" "j < 2 ^ 32" "0xFF010000 \<le> ?i" "?i < 0xFFFFFFFF"
        using r q neg by (simp_all add: j_def)
      have "loc_unparse l = Inr (word_of_int ?i)"
        using st False True u neg by (simp add: loc_unparse_def and_masks push_bit_eq_mult j_def q_def)
      moreover have "loc_parse (word_of_int ?i) l' = Inr (l\<lparr>fFlags := fFlags l'\<rparr>)"
        if "l_ver l' = ?v" for l'
      proof -
        have "loc_parse (word_of_int ?i) l' = Inr (normal_loc (- (j div 65536)) ((j + 32768) mod 65536 - 32768) l')"
          by (rule loc_parse_branches(1))
            (use that True u b word_of_int_facts [of ?i] in simp_all)
        then show ?thesis using normal_loc_eq [OF that st, of _ "- (j div 65536)"] page j neg by simp
      qed
      ultimately show ?thesis by blast
    next
      case pos: False
      let ?i = "j + 33"
      have b: "0 \<le> j" "j < 2 ^ 32" "?i < 0xFF010000" "0 < ?i"
        using r q pos by (simp_all add: j_def)
      have "loc_unparse l = Inr (word_of_int ?i)"
        using st False True u pos by (simp add: loc_unparse_def and_masks push_bit_eq_mult j_def q_def)
      moreover have "loc_parse (word_of_int ?i) l' = Inr (l\<lparr>fFlags := fFlags l'\<rparr>)"
        if "l_ver l' = ?v" for l'
      proof -
        have "loc_parse (word_of_int ?i) l' = Inr (normal_loc (j div 65536) ((j + 32768) mod 65536 - 32768) l')"
          by (rule loc_parse_branches(2))
            (use that True u b word_of_int_facts [of ?i] in simp_all)
        then show ?thesis using normal_loc_eq [OF that st, of _ "j div 65536"] page j pos by simp
      qed
      ultimately show ?thesis by blast
    qed
  next
    case live: False
    define q where "q = ?p mod 256"
    have q: "0 \<le> q" "q < 256" by (simp_all add: q_def)
    from ok st False live have r: "-254 \<le> ?s" "?s \<le> 0xFFFEFF" "-32 \<le> ?p" "?p \<le> 0xDF"
      by (auto simp: loc_encodable_def)
    note page = fix_page_low(2) [OF live r(3,4), folded q_def]
    define j where "j = \<bar>?s\<bar> * 256 + q"
    have j: "j div 256 = \<bar>?s\<bar>" "(j + 128) mod 256 = (q + 128) mod 256"
      using packed [of q 128 "\<bar>?s\<bar>"] q by (simp_all add: j_def)
    show ?thesis
    proof (cases "?s < 0")
      case neg: True
      let ?i = "j + 0xFFFF0001"
      have b: "0 \<le> j" "j < 2 ^ 32" "0xFFFF0100 \<le> ?i" "?i < 0xFFFFFFFF"
        using r q neg by (simp_all add: j_def)
      have "loc_unparse l = Inr (word_of_int ?i)"
        using st False live u neg by (simp add: loc_unparse_def and_masks push_bit_eq_mult j_def q_def)
      moreover have "loc_parse (word_of_int ?i) l' = Inr (l\<lparr>fFlags := fFlags l'\<rparr>)"
        if "l_ver l' = ?v" for l'
      proof -
        have "loc_parse (word_of_int ?i) l' = Inr (normal_loc (- (j div 256)) ((j + 128) mod 256 - 128) l')"
          by (rule loc_parse_branches(3))
            (use that live u b word_of_int_facts [of ?i] in simp_all)
        then show ?thesis using normal_loc_eq [OF that st, of _ "- (j div 256)"] page j neg by simp
      qed
      ultimately show ?thesis by blast
    next
      case pos: False
      let ?i = "j + 33"
      have b: "0 \<le> j" "j < 2 ^ 32" "?i < 0xFFFF0100" "0 < ?i"
        using r q pos by (simp_all add: j_def)
      have "loc_unparse l = Inr (word_of_int ?i)"
        using st False live u pos by (simp add: loc_unparse_def and_masks push_bit_eq_mult j_def q_def)
      moreover have "loc_parse (word_of_int ?i) l' = Inr (l\<lparr>fFlags := fFlags l'\<rparr>)"
        if "l_ver l' = ?v" for l'
      proof -
        have "loc_parse (word_of_int ?i) l' = Inr (normal_loc (j div 256) ((j + 128) mod 256 - 128) l')"
          by (rule loc_parse_branches(4))
            (use that live u b word_of_int_facts [of ?i] in simp_all)
        then show ?thesis using normal_loc_eq [OF that st, of _ "j div 256"] page j pos by simp
      qed
      ultimately show ?thesis by blast
    qed
  qed
qed

text \<open>The other direction: every id but one comes back.\<close>

lemma fix_page_mod:
  "isLive v \<Longrightarrow> fix_page v ((j + 32768) mod 65536 - 32768) mod 65536 = j mod 65536"
  "\<not> isLive v \<Longrightarrow> fix_page v ((j + 128) mod 256 - 128) mod 256 = j mod 256"
  by (simp_all add: fix_page_def mod_simps)

definition lost_id :: "plasma_ver \<Rightarrow> u32" where
  "lost_id v = (if isLive v then 0xFF010000 else 0xFFFF0100)"

lemma unparse_normal:
  assumes "\<not> isUniversal (l_ver l)" "0 \<le> s"
  shows "isLive (l_ver l) \<Longrightarrow> s \<noteq> 0 \<Longrightarrow> p mod 65536 = q \<Longrightarrow> fix_page (l_ver l) p' = p \<Longrightarrow>
      loc_unparse (normal_loc (- s) p' l) = Inr (word_of_int (s * 65536 + q + 0xFF000001))"
    "isLive (l_ver l) \<Longrightarrow> p mod 65536 = q \<Longrightarrow> fix_page (l_ver l) p' = p \<Longrightarrow>
      loc_unparse (normal_loc s p' l) = Inr (word_of_int (s * 65536 + q + 33))"
    "\<not> isLive (l_ver l) \<Longrightarrow> s \<noteq> 0 \<Longrightarrow> p mod 256 = q \<Longrightarrow> fix_page (l_ver l) p' = p \<Longrightarrow>
      loc_unparse (normal_loc (- s) p' l) = Inr (word_of_int (s * 256 + q + 0xFFFF0001))"
    "\<not> isLive (l_ver l) \<Longrightarrow> p mod 256 = q \<Longrightarrow> fix_page (l_ver l) p' = p \<Longrightarrow>
      loc_unparse (normal_loc s p' l) = Inr (word_of_int (s * 256 + q + 33))"
  using assms
  by (simp_all add: loc_unparse_def normal_loc_def kStateNormal_def kStateInvalid_def kStateVirtual_def
      and_masks push_bit_eq_mult)

lemma loc_unparse_parse:
  assumes "loc_parse w l = Inr l'" "w \<noteq> lost_id (l_ver l)"
  shows "loc_unparse l' = Inr w"
proof (cases "w = 0xFFFFFFFF \<or> w = 0")
  case True
  with assms show ?thesis
    by (auto simp: loc_parse_def loc_unparse_def kStateVirtual_def kStateInvalid_def)
next
  case False
  with assms(1) have u: "\<not> isUniversal (l_ver l)" by (auto simp: loc_parse_def split: if_splits)
  have w: "w \<noteq> 0xFFFFFFFF" "w \<noteq> 0" using False by auto
  define j where "j c = uint (w - c)" for c :: u32
  have j: "0 \<le> j c" "j c < 2 ^ 32" "w - c = word_of_int (j c)" "word_of_int (j c) + c = w" for c
    using uint_bounded [of "w - c"] by (simp_all add: j_def)
  have dm: "j c div 65536 * 65536 + j c mod 65536 = j c" "j c div 256 * 256 + j c mod 256 = j c" for c
    by (rule div_mult_mod_eq)+
  have add: "word_of_int (j c + k) = w" if "word_of_int k = c" for c k
    using j(4) [of c] that by simp
  note br = loc_parse_branches [OF w u j(1,2)]
  show ?thesis
  proof (cases "isLive (l_ver l)")
    case True
    show ?thesis
    proof (cases "0xFF010000 \<le> w")
      case neg: True
      with assms(2) True have "0xFF010000 < w" by (simp add: lost_id_def order_less_le)
      then have "0x10000 \<le> j 0xFF000001"
        by (simp add: j_def word_less_def uint_sub_if')
      then have s: "j 0xFF000001 div 65536 \<noteq> 0" "0 \<le> j 0xFF000001 div 65536"
        by (simp_all add: pos_imp_zdiv_pos_iff)
      from br(1) [OF True neg j(3)] assms(1)
        unparse_normal(1) [OF u s(2) True s(1) fix_page_mod(1) [OF True, of "j 0xFF000001"] refl]
      show ?thesis by (simp add: dm j(4))
    next
      case False
      from br(2) [OF True False j(3)] assms(1) pos_imp_zdiv_nonneg_iff [of 65536 "j 33"]
        unparse_normal(2) [OF u _ True fix_page_mod(1) [OF True, of "j 33"] refl, of "j 33 div 65536"]
      show ?thesis by (simp add: dm add j)
    qed
  next
    case live: False
    show ?thesis
    proof (cases "0xFFFF0100 \<le> w")
      case neg: True
      with assms(2) live have "0xFFFF0100 < w" by (simp add: lost_id_def order_less_le)
      then have "0x100 \<le> j 0xFFFF0001"
        by (simp add: j_def word_less_def uint_sub_if')
      then have s: "j 0xFFFF0001 div 256 \<noteq> 0" "0 \<le> j 0xFFFF0001 div 256"
        by (simp_all add: pos_imp_zdiv_pos_iff)
      from br(3) [OF live neg j(3)] assms(1)
        unparse_normal(3) [OF u s(2) live s(1) fix_page_mod(2) [OF live, of "j 0xFFFF0001"] refl]
      show ?thesis by (simp add: dm j(4))
    next
      case False
      from br(4) [OF live False j(3)] assms(1) pos_imp_zdiv_nonneg_iff [of 256 "j 33"]
        unparse_normal(4) [OF u _ live fix_page_mod(2) [OF live, of "j 33"] refl, of "j 33 div 256"]
      show ?thesis by (simp add: dm add j)
    qed
  qed
qed

lemma loc_lost_id:
  assumes "\<not> isUniversal (l_ver l)"
  shows "\<exists>l'. loc_parse (lost_id (l_ver l)) l = Inr l' \<and> loc_unparse l' \<noteq> Inr (lost_id (l_ver l))"
  using assms
  by (simp add: loc_parse_def lost_id_def loc_unparse_def kStateNormal_def kStateInvalid_def
      kStateVirtual_def Let_def fix_page_def)

section \<open>Locations and masks on the wire\<close>

definition loc_flags_image :: "plasma_ver \<Rightarrow> u16 \<Rightarrow> bytes" where
  "loc_flags_image v fl = (if isNewPlasma v then [ucast fl] else le16 fl)"

definition loc_image :: "plasma_ver \<Rightarrow> pl_location \<Rightarrow> bytes" where
  "loc_image v l =
     (if isUniversal v then
        [word_of_int (fState l)] @ le32 (word_of_int (fSeqPrefix l)) @ le32 (word_of_int (fPageNum l)) @
        le16 (fFlags l)
      else (case loc_unparse (l\<lparr>l_ver := v\<rparr>) of
              Inr i \<Rightarrow> le32 i @ loc_flags_image v (fFlags l) | Inl _ \<Rightarrow> []))"

definition loc_ok :: "plasma_ver \<Rightarrow> pl_location \<Rightarrow> bool" where
  "loc_ok v l \<longleftrightarrow>
     (if isUniversal v then fState l \<in> {0..255} \<and> fSeqPrefix l \<in> {- (2 ^ 31)..<2 ^ 31} \<and>
        fPageNum l \<in> {- (2 ^ 31)..<2 ^ 31}
      else isSafeVer v \<and> loc_encodable v l \<and> (isNewPlasma v \<longrightarrow> fFlags l < 256))"

lemma loc_encodable_ver [simp]: "loc_encodable v (l\<lparr>l_ver := w\<rparr>) = loc_encodable v l"
  by (simp add: loc_encodable_def)

lemma safe_valid: "isSafeVer v \<Longrightarrow> isValid v"
  by (auto simp: ver_eval)

lemma loc_write_ver_safe: "isSafeVer v \<Longrightarrow> loc_write_ver v l = l\<lparr>l_ver := v\<rparr>"
  by (simp add: loc_write_ver_def safe_valid)

lemma ucast_ucast_id8: "(x :: u16) < 256 \<Longrightarrow> ucast (ucast x :: u8) = x"
  by (simp add: word_uint_eq_iff unsigned_ucast_eq unsigned_take_bit_eq
      take_bit_int_eq_self_iff word_less_def)

lemma emits_loc_write:
  assumes "loc_ok v l"
  shows "emits (loc_write l) v (loc_image v l) (loc_write_ver v l) v"
proof (cases "isUniversal v")
  case True
  have fields: "fState (loc_write_ver v l) = fState l" "fSeqPrefix (loc_write_ver v l) = fSeqPrefix l"
    "fPageNum (loc_write_ver v l) = fPageNum l" "fFlags (loc_write_ver v l) = fFlags l"
    by (simp_all add: loc_write_ver_def Let_def)
  have "emits (loc_write l) v ([word_of_int (fState l)] @ le32 (word_of_int (fSeqPrefix l)) @
      le32 (word_of_int (fPageNum l)) @ le16 (fFlags l) @ []) (loc_write_ver v l) v"
    unfolding loc_write_def Let_def fields
    by (rule emits_ver, simp only: True if_True fields) (rule wire)+
  with True show ?thesis by (simp add: loc_image_def)
next
  case False
  with assms have ok: "isSafeVer v" "loc_encodable v l" by (simp_all add: loc_ok_def)
  let ?l = "l\<lparr>l_ver := v\<rparr>"
  from loc_parse_unparse [of ?l] ok False obtain i where i: "loc_unparse ?l = Inr i" by auto
  have "emits (loc_write l) v (le32 i @ loc_flags_image v (fFlags l)) ?l v"
    unfolding loc_write_def Let_def
    by (rule emits_ver, rule emits_cong, simp only: loc_write_ver_safe [OF ok(1)] False if_False, rule emits_lift [OF i],
        rule emits_then [OF emits_prims(3)], rule emits_if, (rule wire)+)
      (simp_all add: loc_flags_image_def)
  with False i show ?thesis by (simp add: loc_image_def loc_write_ver_safe ok(1))
qed

lemma parses_loc_read:
  assumes "loc_ok v l"
  shows "parses (loc_read old) v (loc_image v l) (l\<lparr>l_ver := v\<rparr>) v"
proof (cases "isUniversal v")
  case True
  with assms have r: "uint (word_of_int (fState l) :: u8) = fState l"
    "sint (word_of_int (fSeqPrefix l) :: u32) = fSeqPrefix l"
    "sint (word_of_int (fPageNum l) :: u32) = fPageNum l"
    by (simp_all add: loc_ok_def uint_word_of_int sint_sbintrunc' signed_take_bit_int_eq_self_iff)
  have "parses (loc_read old) v ([word_of_int (fState l)] @ le32 (word_of_int (fSeqPrefix l)) @
      le32 (word_of_int (fPageNum l)) @ le16 (fFlags l) @ []) (l\<lparr>l_ver := v\<rparr>) v"
    unfolding loc_read_def Let_def
    by (rule parses_ver, rule parses_eq, simp only: True if_True, (rule wire)+) (use r in \<open>cases l; cases old; simp\<close>)
  with True show ?thesis by (simp add: loc_image_def)
next
  case False
  with assms have ok: "isSafeVer v" "loc_encodable v l" by (simp_all add: loc_ok_def)
  let ?l = "l\<lparr>l_ver := v\<rparr>"
  from loc_parse_unparse [of ?l] ok False obtain i where i: "loc_unparse ?l = Inr i"
    "loc_parse i (old\<lparr>l_ver := v\<rparr>) = Inr (?l\<lparr>fFlags := fFlags old\<rparr>)" by fastforce
  have old: "(v < MAKE_VERSION 2 0 62 0 \<and> isValid v) = False" using ok(1) by (auto simp: ver_eval)
  have fl: "isNewPlasma v \<Longrightarrow> ucast (ucast (fFlags l) :: u8) = fFlags l"
    using assms False by (intro ucast_ucast_id8) (simp add: loc_ok_def)
  have flags: "isNewPlasma v \<Longrightarrow> parses (io_bind readByte (\<lambda>b. io_return (?l\<lparr>fFlags := ucast b\<rparr>))) v
      [ucast (fFlags l)] ?l v"
    "parses (io_bind readShort (\<lambda>h. io_return (?l\<lparr>fFlags := h\<rparr>))) v (le16 (fFlags l)) ?l v"
    by (rule parses_eq [OF parses_bind_return [OF parses_prims(1)]], use fl in \<open>cases l; simp\<close>)
      (rule parses_eq [OF parses_bind_return [OF parses_prims(2)]], cases l, simp)
  have "parses (loc_read old) v (le32 i @ loc_flags_image v (fFlags l)) ?l v"
    unfolding loc_read_def Let_def loc_flags_image_def
    by (rule parses_ver, simp only: False old if_False, rule parses_bind [OF parses_prims(3)],
        rule parses_lift [OF i(2)])
      (use flags in simp)
  with False i(1) show ?thesis by (simp add: loc_image_def)
qed

text \<open>The two parts of a release version's image, as a page header reads them.\<close>

lemma loc_image_safe:
  assumes "loc_ok v l" "isSafeVer v"
  obtains i where "loc_image v l = le32 i @ loc_flags_image v (fFlags l)"
    "\<And>old. loc_parse i (old\<lparr>l_ver := v\<rparr>) = Inr (l\<lparr>l_ver := v, fFlags := fFlags old\<rparr>)"
proof -
  have u: "\<not> isUniversal v" using assms(2) by (auto simp: ver_eval)
  with assms have "loc_encodable v (l\<lparr>l_ver := v\<rparr>)" by (simp add: loc_ok_def)
  with loc_parse_unparse [of "l\<lparr>l_ver := v\<rparr>"] u obtain i where
    i: "loc_unparse (l\<lparr>l_ver := v\<rparr>) = Inr i"
    "\<And>old. l_ver old = v \<Longrightarrow> loc_parse i old = Inr (l\<lparr>l_ver := v, fFlags := fFlags old\<rparr>)" by auto
  with u that [of i] show ?thesis by (simp add: loc_image_def)
qed

interpretation location: codec loc_write loc_read loc_ok loc_image "\<lambda>v old l. l\<lparr>l_ver := v\<rparr>"
  by unfold_locales (auto intro: emits_loc_write parses_loc_read)

text \<open>A mask survives when the high nibbles, which the byte has no room for, are all ones.\<close>

definition mask_ok :: "pl_load_mask \<Rightarrow> bool" where
  "mask_ok m \<longleftrightarrow> lowQuality m AND 0xF0 = 0xF0 \<and> highQuality m AND 0xF0 = 0xF0"

lemma bit_F0: "bit (0xF0 :: u8) n \<longleftrightarrow> n \<in> {4, 5, 6, 7}"
proof (cases "n < 8")
  case True
  then have "n \<in> {0, 1, 2, 3, 4, 5, 6, 7}" by auto
  then show ?thesis by (auto simp: bit_numeral_simps)
qed (use bit_u8_beyond in auto)

lemma high_nibble: "w AND 0xF0 = (0xF0 :: u8) \<Longrightarrow> bit w 4 \<and> bit w 5 \<and> bit w 6 \<and> bit w 7"
proof -
  assume "w AND 0xF0 = 0xF0"
  then have "bit w n" if "n \<in> {4, 5, 6, 7}" for n
    using that bit_F0 [of n] bit_and_iff [of w "0xF0" n] by simp
  then show ?thesis by blast
qed

lemma cases8: "n < 8 \<Longrightarrow> n = 0 \<or> n = 1 \<or> n = 2 \<or> n = 3 \<or> n = 4 \<or> n = 5 \<or> n = 6 \<or> n = (7::nat)"
  by auto

lemma mask_byte_read:
  assumes "mask_ok m"
  shows "drop_bit 4 (mask_byte m) OR 0xF0 = lowQuality m" "mask_byte m OR 0xF0 = highQuality m"
proof -
  have lo: "bit (0x0F :: u8) n \<longleftrightarrow> n < 4" if "n < 8" for n
    using cases8 [OF that] by (elim disjE) (simp_all add: bit_numeral_simps)
  have hi: "bit (lowQuality m) 4" "bit (lowQuality m) 5" "bit (lowQuality m) 6" "bit (lowQuality m) 7"
    "bit (highQuality m) 4" "bit (highQuality m) 5" "bit (highQuality m) 6" "bit (highQuality m) 7"
    using assms high_nibble by (simp_all add: mask_ok_def)
  show "drop_bit 4 (mask_byte m) OR 0xF0 = lowQuality m"
  proof (rule bit_word_eqI)
    fix n assume "n < LENGTH(8)"
    then have "n < 8" by simp
    from cases8 [OF this] show "bit (drop_bit 4 (mask_byte m) OR 0xF0) n = bit (lowQuality m) n"
      unfolding mask_byte_def bit_or_iff bit_drop_bit_eq bit_and_iff bit_push_bit_iff bit_F0
      by (elim disjE) (simp_all add: hi bit_push_bit_iff bit_and_iff bit_or_iff)
  qed
  show "mask_byte m OR 0xF0 = highQuality m"
  proof (rule bit_word_eqI)
    fix n assume "n < LENGTH(8)"
    then have "n < 8" by simp
    from cases8 [OF this] show "bit (mask_byte m OR 0xF0) n = bit (highQuality m) n"
      unfolding mask_byte_def bit_or_iff bit_and_iff bit_F0
      by (elim disjE) (simp_all add: hi lo bit_push_bit_iff bit_and_iff bit_or_iff)
  qed
qed

lemma emits_mask_write: "emits (mask_write m) v [mask_byte m] () v"
  unfolding mask_write_def by (rule wire)

lemma parses_mask_read: "mask_ok m \<Longrightarrow> parses (mask_read old) v [mask_byte m] m v"
  unfolding mask_read_def
  by (rule parses_eq [OF parses_bind_return [OF parses_prims(1)]])
    (simp add: mask_byte_read)

interpretation load_mask: codec mask_write mask_read "\<lambda>v. mask_ok" "\<lambda>v m. [mask_byte m]" "\<lambda>v old m. m"
  by unfold_locales (auto intro: emits_mask_write parses_mask_read)

section \<open>Properties\<close>

text \<open>C23: A location in the ranges that \<open>unparse\<close> accepts without a warning is encoded to an id that
  \<open>parse\<close>, for the same version, turns back into that location.\<close>

theorem location_encode_decode:
  assumes "\<not> isUniversal (l_ver l)" "loc_encodable (l_ver l) l"
  shows "\<exists>i. loc_unparse l = Inr i \<and>
     (\<forall>old. l_ver old = l_ver l \<longrightarrow> loc_parse i old = Inr (l\<lparr>fFlags := fFlags old\<rparr>))"
  by (rule loc_parse_unparse [OF assms(2,1)])

theorem location_encode_decode_witness:
  "\<exists>i. loc_unparse \<lparr>l_ver = pvMoul, fState = kStateNormal, fSeqPrefix = -254, fPageNum = -32, fFlags = 0\<rparr> = Inr i"
  using location_encode_decode [of "\<lparr>l_ver = pvMoul, fState = kStateNormal, fSeqPrefix = -254,
      fPageNum = -32, fFlags = 0\<rparr>"]
  by (auto simp: loc_encodable_def ver_eval kStateNormal_def kStateInvalid_def kStateVirtual_def)

text \<open>Decoding an id and encoding the location gives the id back, whatever its value, except for
  one id per layout: the lowest of the negative prefixes' range, which decodes to prefix zero.\<close>

theorem location_decode_encode:
  assumes "\<not> isUniversal (l_ver old)"
  shows "(\<exists>l. loc_parse i old = Inr l \<and> loc_unparse l = Inr i) \<longleftrightarrow>
     i \<noteq> (if isLive (l_ver old) then 0xFF010000 else 0xFFFF0100)"
proof -
  have "\<exists>l. loc_parse i old = Inr l" using assms by (simp add: loc_parse_def Let_def)
  then show ?thesis
    using loc_unparse_parse [of i old] loc_lost_id [OF assms] by (auto simp: lost_id_def)
qed

theorem location_decode_encode_witness:
  "(\<exists>l. loc_parse 12345678 (loc_new pvPots) = Inr l \<and> loc_unparse l = Inr 12345678)"
  using location_decode_encode [of "loc_new pvPots" 12345678] by (simp add: ver_eval loc_new_def)

text \<open>A location written to a stream and read from it is the same location, for each of the five
  formats and for universal files.\<close>

theorem location_stream_roundtrip:
  assumes "loc_ok v l"
  shows "\<exists>l1 s. loc_write l \<lparr>s_ver = v, s_data = [], s_pos = 0\<rparr> = Inr (l1, s) \<and>
     loc_read old (s\<lparr>s_pos := 0\<rparr>) = Inr (l\<lparr>l_ver := v\<rparr>, s) \<and> s_eof s"
proof -
  have "length (loc_image v l) < 2 ^ 32"
    by (simp add: loc_image_def loc_flags_image_def split: sum.split)
  from location.roundtrip [OF assms this] show ?thesis .
qed

theorem location_stream_roundtrip_witness:
  "\<exists>l1 s. loc_write (loc_setVirtual (loc_new pvEoa)) \<lparr>s_ver = pvEoa, s_data = [], s_pos = 0\<rparr> = Inr (l1, s) \<and>
     loc_read (loc_new pvPots) (s\<lparr>s_pos := 0\<rparr>) = Inr ((loc_setVirtual (loc_new pvEoa))\<lparr>l_ver := pvEoa\<rparr>, s) \<and> s_eof s"
  by (rule location_stream_roundtrip)
    (simp add: loc_ok_def ver_eval loc_encodable_def loc_setVirtual_def loc_new_def)

text \<open>A load mask survives its one byte on the wire exactly when both qualities have their upper
  nibbles set, the form every mask read from a file has.\<close>

theorem load_mask_roundtrip:
  "(\<exists>s. mask_write m \<lparr>s_ver = v, s_data = [], s_pos = 0\<rparr> = Inr ((), s) \<and>
      mask_read old (s\<lparr>s_pos := 0\<rparr>) = Inr (m, s)) \<longleftrightarrow>
   lowQuality m AND 0xF0 = 0xF0 \<and> highQuality m AND 0xF0 = 0xF0"
proof -
  have "mask_ok m" if "mask_read old \<lparr>s_ver = v, s_data = [mask_byte m], s_pos = 0\<rparr> = Inr (m, s)" for s
  proof -
    have or_F0: "(x OR 0xF0) AND 0xF0 = (0xF0 :: u8)" for x by (simp add: bit.conj_disj_distrib2)
    from that have "m = old\<lparr>lowQuality := drop_bit 4 (mask_byte m) OR 0xF0, highQuality := mask_byte m OR 0xF0\<rparr>"
      by (simp add: mask_read_def readByte_def io_simps st_read_def)
    from arg_cong [OF this, of lowQuality] arg_cong [OF this, of highQuality]
    have q: "lowQuality m = drop_bit 4 (mask_byte m) OR 0xF0" "highQuality m = mask_byte m OR 0xF0"
      by simp_all
    have "lowQuality m AND 0xF0 = 0xF0" by (subst q(1)) (rule or_F0)
    moreover have "highQuality m AND 0xF0 = 0xF0" by (subst q(2)) (rule or_F0)
    ultimately show ?thesis by (simp add: mask_ok_def)
  qed
  note conv = this
  have wr: "mask_write m \<lparr>s_ver = v, s_data = [], s_pos = 0\<rparr>
      = Inr ((), \<lparr>s_ver = v, s_data = [mask_byte m], s_pos = 1\<rparr>)"
    using emitsD [OF emits_mask_write, of m v "[]"] by simp
  show ?thesis unfolding wr
  proof
    assume "\<exists>s. Inr ((), \<lparr>s_ver = v, s_data = [mask_byte m], s_pos = 1\<rparr>) = Inr ((), s) \<and>
      mask_read old (s\<lparr>s_pos := 0\<rparr>) = Inr (m, s)"
    then have "mask_ok m" using conv by auto
    then show "lowQuality m AND 0xF0 = 0xF0 \<and> highQuality m AND 0xF0 = 0xF0" by (simp add: mask_ok_def)
  next
    assume "lowQuality m AND 0xF0 = 0xF0 \<and> highQuality m AND 0xF0 = 0xF0"
    then have "mask_ok m" by (simp add: mask_ok_def)
    from parsesD [OF parses_mask_read [OF this], of "[]" "[]" old v]
    show "\<exists>s. Inr ((), \<lparr>s_ver = v, s_data = [mask_byte m], s_pos = 1\<rparr>) = Inr ((), s) \<and>
      mask_read old (s\<lparr>s_pos := 0\<rparr>) = Inr (m, s)" by simp
  qed
qed

end
