(* ===== verification/Uoid.thy ===== *)
theory Uoid
  imports HsStrings Location TypeMap
begin

text \<open>
  Object identifiers \<open>plUoid\<close> and the key index entries \<open>plKeyData\<close>
  (\<open>src/core/PRP/KeyedObject/plUoid.cpp\<close>, \<open>plKey.cpp\<close>).  A \<open>short\<close> class type is an \<^typ>\<open>int\<close>; the
  readers give the object that \<open>this\<close> becomes, and an object left half-read by an exception is
  not modelled.
\<close>

section \<open>Identifiers\<close>

record pl_uoid =
  u_location :: pl_location
  u_loadMask :: pl_load_mask
  u_classType :: int
  u_objName :: bytes
  u_objID :: u32
  u_clonePlayerID :: u32
  u_cloneID :: u32

definition uoid_new :: pl_uoid where
  "uoid_new = \<lparr>u_location = loc_new pvUnknown, u_loadMask = mask_new, u_classType = - 0x8000,
     u_objName = [], u_objID = 0, u_clonePlayerID = 0, u_cloneID = 0\<rparr>"

definition kHasCloneIDs :: u8 where "kHasCloneIDs = 0x1"
definition kHasLoadMask :: u8 where "kHasLoadMask = 0x2"
definition kHasLoadMask2 :: u8 where "kHasLoadMask2 = 0x4"

definition uoid_eq :: "pl_uoid \<Rightarrow> pl_uoid \<Rightarrow> bool" where
  "uoid_eq a b \<longleftrightarrow> loc_eq (u_location a) (u_location b) \<and> u_classType a = u_classType b \<and>
     u_objName a = u_objName b \<and> u_clonePlayerID a = u_clonePlayerID b \<and> u_cloneID a = u_cloneID b"

text \<open>Strings compare by their bytes.\<close>

fun bytes_less :: "bytes \<Rightarrow> bytes \<Rightarrow> bool" where
  "bytes_less [] ys = (ys \<noteq> [])"
| "bytes_less (x # xs) [] = False"
| "bytes_less (x # xs) (y # ys) = (x < y \<or> x = y \<and> bytes_less xs ys)"

definition uoid_less :: "pl_uoid \<Rightarrow> pl_uoid \<Rightarrow> bool" where
  "uoid_less a b \<longleftrightarrow>
     (if loc_eq (u_location a) (u_location b) then
        if u_classType a = u_classType b then
          if u_objName a = u_objName b then
            if u_clonePlayerID a = u_clonePlayerID b then u_cloneID a < u_cloneID b
            else u_clonePlayerID a < u_clonePlayerID b
          else bytes_less (u_objName a) (u_objName b)
        else u_classType a < u_classType b
      else loc_less (u_location a) (u_location b))"

definition uoid_read_clones :: "plasma_ver \<Rightarrow> u8 \<Rightarrow> (u32 \<times> u32) io" where
  "uoid_read_clones v contents =
     (if contents AND kHasCloneIDs \<noteq> 0 \<and> (isUru v \<or> isUniversal v) then
        io_bind readInt (\<lambda>c.
        io_bind (if v < MAKE_VERSION 2 0 57 0 then io_return 0 else readInt) (\<lambda>p. io_return (c, p)))
      else io_return (0, 0))"

definition uoid_read :: "st_lib \<Rightarrow> pl_uoid \<Rightarrow> pl_uoid io" where
  "uoid_read L old =
     io_bind getVer (\<lambda>v.
     io_bind (if v < MAKE_VERSION 2 0 63 0 \<and> isValid v then io_return kHasCloneIDs else readByte) (\<lambda>contents.
     io_bind (loc_read (u_location old)) (\<lambda>l.
     io_bind (io_opt (contents AND kHasLoadMask \<noteq> 0 \<and> (\<not> isNewPlasma v \<or> isUniversal v))
                (mask_read (u_loadMask old)) (mask_setAlways (u_loadMask old))) (\<lambda>m.
     io_bind readShort (\<lambda>h.
     io_bind (io_opt (\<not> isUruSP v \<and> \<not> isUniversal v) readInt (u_objID old)) (\<lambda>oid.
     io_bind (readSafeStr L) (\<lambda>nm.
     io_bind (uoid_read_clones v contents) (\<lambda>(c, p).
     io_bind (io_opt (contents AND (kHasLoadMask OR kHasLoadMask2) \<noteq> 0 \<and> isNewPlasma v)
                (mask_read m) m) (\<lambda>m'.
     io_return \<lparr>u_location = l, u_loadMask = m', u_classType = PlasmaToMapped (sint h) v,
       u_objName = nm, u_objID = oid, u_clonePlayerID = p, u_cloneID = c\<rparr>)))))))))"

definition uoid_contents :: "plasma_ver \<Rightarrow> pl_uoid \<Rightarrow> u8" where
  "uoid_contents v u =
     (if u_cloneID u \<noteq> 0 then kHasCloneIDs else 0) OR
     (if mask_isUsed (u_loadMask u) then if isNewPlasma v then kHasLoadMask2 else kHasLoadMask else 0)"

definition uoid_write :: "pl_uoid \<Rightarrow> pl_uoid io" where
  "uoid_write u =
     io_bind getVer (\<lambda>v0.
     io_then (io_when (\<not> isSafeVer v0) (setVer (GetSafestVersion v0)))
     (io_bind getVer (\<lambda>v.
     let contents = uoid_contents v u in
     io_then (writeByte contents)
     (io_bind (loc_write (u_location u)) (\<lambda>l.
     io_then (io_when (contents AND kHasLoadMask \<noteq> 0 \<and> (isUru v \<or> isUniversal v)) (mask_write (u_loadMask u)))
     (io_then (writeShort (word_of_int (MappedToPlasma (u_classType u) v)))
     (io_then (io_when (\<not> isUruSP v \<and> \<not> isUniversal v) (writeInt (u_objID u)))
     (io_then (writeSafeStr (u_objName u))
     (io_then (io_when (contents AND kHasCloneIDs \<noteq> 0 \<and> (isUru v \<or> isUniversal v))
                 (io_then (writeInt (u_cloneID u)) (writeInt (u_clonePlayerID u))))
     (io_then (io_when (contents AND kHasLoadMask \<noteq> 0 \<and> isNewPlasma v) (mask_write (u_loadMask u)))
     (io_return (u\<lparr>u_location := l\<rparr>))))))))))))"

section \<open>Key index entries\<close>

record pl_key_data =
  k_uoid :: pl_uoid
  k_fileOff :: u32
  k_objSize :: u32

definition key_read :: "st_lib \<Rightarrow> pl_key_data \<Rightarrow> pl_key_data io" where
  "key_read L k =
     io_bind (uoid_read L (k_uoid k)) (\<lambda>u. io_bind readInt (\<lambda>off. io_bind readInt (\<lambda>sz.
       io_return (k\<lparr>k_uoid := u, k_fileOff := off, k_objSize := sz\<rparr>))))"

definition key_write :: "pl_key_data \<Rightarrow> pl_key_data io" where
  "key_write k =
     io_bind (uoid_write (k_uoid k)) (\<lambda>u.
     io_then (writeInt (k_fileOff k)) (io_then (writeInt (k_objSize k)) (io_return (k\<lparr>k_uoid := u\<rparr>))))"

section \<open>Identifiers on the wire\<close>

text \<open>
  What a version's format can carry: a class it knows, with one index of its own, a name and a
  location it can encode, and a load mask only where the writer stores it.
\<close>

definition uoid_ok :: "st_lib \<Rightarrow> plasma_ver \<Rightarrow> pl_uoid \<Rightarrow> bool" where
  "uoid_ok L v u \<longleftrightarrow> isSafeVer v \<and> loc_ok v (u_location u) \<and>
     0 \<le> MappedToPlasma (u_classType u) v \<and> (uru_family v \<longrightarrow> u_classType u \<noteq> 0x9B) \<and>
     safe_str_ok L v (u_objName u) \<and>
     (mask_isUsed (u_loadMask u) \<longrightarrow> \<not> isNewPlasma v \<and> mask_ok (u_loadMask u))"

text \<open>The same but for the class, which the identifier of a null key lacks.\<close>

definition uoid_carried :: "st_lib \<Rightarrow> plasma_ver \<Rightarrow> pl_uoid \<Rightarrow> bool" where
  "uoid_carried L v u \<longleftrightarrow> isSafeVer v \<and> loc_ok v (u_location u) \<and> safe_str_ok L v (u_objName u) \<and>
     (mask_isUsed (u_loadMask u) \<longrightarrow> \<not> isNewPlasma v \<and> mask_ok (u_loadMask u))"

lemma uoid_ok_carried: "uoid_ok L v u \<Longrightarrow> uoid_carried L v u"
  by (simp add: uoid_ok_def uoid_carried_def)

definition uoid_image :: "plasma_ver \<Rightarrow> pl_uoid \<Rightarrow> bytes" where
  "uoid_image v u =
     [uoid_contents v u] @ loc_image v (u_location u) @
     (if mask_isUsed (u_loadMask u) then [mask_byte (u_loadMask u)] else []) @
     le16 (word_of_int (MappedToPlasma (u_classType u) v)) @
     (if \<not> isUruSP v then le32 (u_objID u) else []) @
     safe_str_image v (u_objName u) @
     (if u_cloneID u \<noteq> 0 \<and> isUru v then le32 (u_cloneID u) @ le32 (u_clonePlayerID u) else [])"

text \<open>What comes back: the object id only outside the single-player formats, clone ids only in Uru's.\<close>

definition uoid_upd :: "plasma_ver \<Rightarrow> pl_uoid \<Rightarrow> pl_uoid \<Rightarrow> pl_uoid" where
  "uoid_upd v old u =
     u\<lparr>u_location := (u_location u)\<lparr>l_ver := v\<rparr>,
       u_objID := (if isUruSP v then u_objID old else u_objID u),
       u_cloneID := (if isUru v then u_cloneID u else 0),
       u_clonePlayerID := (if isUru v \<and> u_cloneID u \<noteq> 0 then u_clonePlayerID u else 0)\<rparr>"

lemma contents_bits:
  "uoid_contents v u AND kHasCloneIDs \<noteq> 0 \<longleftrightarrow> u_cloneID u \<noteq> 0"
  "uoid_contents v u AND kHasLoadMask \<noteq> 0 \<longleftrightarrow> mask_isUsed (u_loadMask u) \<and> \<not> isNewPlasma v"
  "uoid_contents v u AND (kHasLoadMask OR kHasLoadMask2) \<noteq> 0 \<longleftrightarrow> mask_isUsed (u_loadMask u)"
  by (auto simp: uoid_contents_def kHasCloneIDs_def kHasLoadMask_def kHasLoadMask2_def)

lemma safe_uru: "isSafeVer v \<Longrightarrow> isUru v \<longleftrightarrow> \<not> isNewPlasma v"
  "isSafeVer v \<Longrightarrow> (v < MAKE_VERSION 2 0 63 0 \<and> isValid v) = False"
  "isSafeVer v \<Longrightarrow> (v < MAKE_VERSION 2 0 57 0) = False"
  by (auto simp: ver_eval)

lemma unused_mask: "\<not> mask_isUsed m \<Longrightarrow> mask_setAlways old = m"
proof -
  assume "\<not> mask_isUsed m"
  then have "un_le16 [lowQuality m, highQuality m] = 0xFFFF"
    by (simp add: mask_isUsed_def mask_getMask_def)
  with le16_un_le16 [of "[lowQuality m, highQuality m]"]
  have "[lowQuality m, highQuality m] = le16 0xFFFF" by (simp del: un_le16.simps)
  then show ?thesis by (cases m; cases old) (simp add: mask_setAlways_def mask_setMask_def le16_def)
qed

lemma emits_uoid_carried:
  assumes ok: "uoid_carried L v u"
  shows "emits (uoid_write u) v (uoid_image v u) (u\<lparr>u_location := loc_write_ver v (u_location u)\<rparr>) v"
proof -
  from ok have v: "isSafeVer v" and l: "loc_ok v (u_location u)"
    and nm: "length (u_objName u) < (if isNewPlasma v then 65536 else 4096)"
    and mask: "mask_isUsed (u_loadMask u) \<Longrightarrow> \<not> isNewPlasma v"
    by (auto simp: uoid_carried_def safe_str_ok_def)
  show ?thesis
    unfolding uoid_write_def uoid_image_def Let_def
    by (rule emits_ver, rule emits_cong, rule emits_then [OF emits_when], simp add: v, rule emits_ver,
        (rule emits_then [OF emits_prims(1)] emits_bind [OF emits_loc_write [OF l]] emits_then
          emits_when emits_prims(2,3) emits_writeSafeStr [OF v nm] emits_mask_write emits_return)+)
      (auto simp: contents_bits safe_uru v safe_not_universal dest: mask)
qed

lemma m2p_short: "0 \<le> MappedToPlasma t v \<Longrightarrow> (uru_family v \<Longrightarrow> t \<noteq> 0x9B) \<Longrightarrow>
  PlasmaToMapped (sint (word_of_int (MappedToPlasma t v) :: u16)) v = t"
proof -
  assume "0 \<le> MappedToPlasma t v" "uru_family v \<Longrightarrow> t \<noteq> 0x9B"
  from m2p_p2m [OF refl this]
  have "in_range (MappedToPlasma t v)" "PlasmaToMapped (MappedToPlasma t v) v = t" by simp_all
  then show ?thesis
    by (simp add: in_range_def TYPESPACE_MAX_def sint_sbintrunc' signed_take_bit_int_eq_self)
qed

lemmas emits_uoid_write = emits_uoid_carried [OF uoid_ok_carried]

definition class_wire :: "plasma_ver \<Rightarrow> int \<Rightarrow> int" where
  "class_wire v t = PlasmaToMapped (sint (word_of_int (MappedToPlasma t v) :: u16)) v"

lemma parses_uoid_carried:
  assumes ok: "uoid_carried L v u"
  shows "parses (uoid_read L old) v (uoid_image v u) ((uoid_upd v old u)\<lparr>u_classType := class_wire v (u_classType u)\<rparr>) v"
proof -
  from ok have v: "isSafeVer v" and l: "loc_ok v (u_location u)"
    and nm: "safe_str_ok L v (u_objName u)"
    and mask: "mask_isUsed (u_loadMask u) \<Longrightarrow> \<not> isNewPlasma v" "mask_isUsed (u_loadMask u) \<Longrightarrow> mask_ok (u_loadMask u)"
    by (auto simp: uoid_carried_def)
  have nu: "\<not> isUniversal v" by (rule safe_not_universal [OF v])
  have m: "parses (io_opt (uoid_contents v u AND kHasLoadMask \<noteq> 0 \<and> (\<not> isNewPlasma v \<or> isUniversal v))
      (mask_read (u_loadMask old)) (mask_setAlways (u_loadMask old))) v
      (if mask_isUsed (u_loadMask u) then [mask_byte (u_loadMask u)] else []) (u_loadMask u) v"
    using parses_mask_read [OF mask(2)] mask(1) unused_mask
    by (auto simp: contents_bits io_opt_def parses_return)
  have two_ints: "parses (io_bind readInt (\<lambda>c. io_bind readInt (\<lambda>p. io_return (c, p)))) v
      (le32 a @ le32 b) (a, b) v" for a b
    by (rule parses_bind [OF parses_prims(3) parses_bind_return [OF parses_prims(3)]])
  have "parses (uoid_read_clones v (uoid_contents v u)) v
      (if u_cloneID u \<noteq> 0 \<and> isUru v then le32 (u_cloneID u) @ le32 (u_clonePlayerID u) else [])
      (if u_cloneID u \<noteq> 0 \<and> isUru v then (u_cloneID u, u_clonePlayerID u) else (0, 0)) v"
    unfolding uoid_read_clones_def contents_bits safe_uru(3) [OF v] if_False
    using two_ints by (simp add: nu parses_return)
  then have c: "parses (uoid_read_clones v (uoid_contents v u)) v
      (if u_cloneID u \<noteq> 0 \<and> isUru v then le32 (u_cloneID u) @ le32 (u_clonePlayerID u) else [])
      (u_cloneID (uoid_upd v old u), u_clonePlayerID (uoid_upd v old u)) v"
    by (rule parses_cong) (auto simp: uoid_upd_def)
  have o: "parses (io_opt (\<not> isUruSP v \<and> \<not> isUniversal v) readInt (u_objID old)) v
      (if \<not> isUruSP v then le32 (u_objID u) else []) (u_objID (uoid_upd v old u)) v"
    by (auto simp: io_opt_def nu uoid_upd_def parses_return parses_prims(3))
  have m2: "parses (io_opt (uoid_contents v u AND (kHasLoadMask OR kHasLoadMask2) \<noteq> 0 \<and> isNewPlasma v)
      (mask_read (u_loadMask u)) (u_loadMask u)) v [] (u_loadMask u) v"
    using mask by (auto simp: contents_bits io_opt_def parses_return)
  show ?thesis
    unfolding uoid_read_def uoid_image_def Let_def
    by (rule parses_ver, simp only: safe_uru(2) [OF v] if_False, rule parses_cong,
        rule parses_bind [OF parses_prims(1)], rule parses_bind [OF parses_loc_read [OF l]],
        rule parses_bind [OF m], rule parses_bind [OF parses_prims(2)], rule parses_bind [OF o],
        rule parses_bind [OF parses_readSafeStr [OF nm]], rule parses_bind [OF c],
        simp only: prod.case, rule parses_bind [OF m2], rule parses_return, simp, fold class_wire_def)
      (cases u, simp add: uoid_upd_def)
qed

lemma parses_uoid_read:
  assumes ok: "uoid_ok L v u"
  shows "parses (uoid_read L old) v (uoid_image v u) (uoid_upd v old u) v"
proof -
  have "class_wire v (u_classType u) = u_classType u"
    using ok unfolding class_wire_def uoid_ok_def by (intro m2p_short) auto
  then have "(uoid_upd v old u)\<lparr>u_classType := class_wire v (u_classType u)\<rparr> = uoid_upd v old u"
    by (simp add: uoid_upd_def)
  then show ?thesis using parses_uoid_carried [OF uoid_ok_carried [OF ok], of old] by simp
qed

interpretation uoid: codec uoid_write "uoid_read L" "uoid_ok L" uoid_image uoid_upd for L
  by unfold_locales (auto intro: emits_uoid_write parses_uoid_read)

definition key_ok :: "st_lib \<Rightarrow> plasma_ver \<Rightarrow> pl_key_data \<Rightarrow> bool" where
  "key_ok L v k \<longleftrightarrow> uoid_ok L v (k_uoid k)"

definition key_image :: "plasma_ver \<Rightarrow> pl_key_data \<Rightarrow> bytes" where
  "key_image v k = uoid_image v (k_uoid k) @ le32 (k_fileOff k) @ le32 (k_objSize k)"

definition key_upd :: "plasma_ver \<Rightarrow> pl_key_data \<Rightarrow> pl_key_data \<Rightarrow> pl_key_data" where
  "key_upd v old k = k\<lparr>k_uoid := uoid_upd v (k_uoid old) (k_uoid k)\<rparr>"

interpretation key_data: codec key_write "key_read L" "key_ok L" key_image key_upd for L
proof
  fix v k and old :: pl_key_data
  assume "key_ok L v k"
  then have ok: "uoid_ok L v (k_uoid k)" by (simp add: key_ok_def)
  show "\<exists>r. emits (key_write k) v (key_image v k) r v"
    unfolding key_write_def key_image_def
    by (rule exI, rule emits_cong, (rule emits_bind [OF emits_uoid_write [OF ok]] emits_then emits_prims(3)
      emits_return)+) simp_all
  show "parses (key_read L old) v (key_image v k) (key_upd v old k) v"
    unfolding key_read_def key_image_def key_upd_def
    by (rule parses_eq, (rule parses_bind [OF parses_uoid_read [OF ok]] parses_bind [OF parses_prims(3)]
      parses_bind_return [OF parses_prims(3)])+) (cases k; cases old; simp)
qed

section \<open>Comparing identifiers\<close>

lemma bytes_less_irrefl [simp]: "\<not> bytes_less x x"
  by (induction x) auto

lemma bytes_less_Nil [simp]: "\<not> bytes_less x []"
  by (cases x) simp_all

lemma bytes_less_trans: "bytes_less x y \<Longrightarrow> bytes_less y z \<Longrightarrow> bytes_less x z"
proof (induction x y arbitrary: z rule: bytes_less.induct)
  case (1 ys)
  then show ?case by (cases z) auto
next
  case (3 x xs y ys)
  then show ?case by (cases z) auto
qed simp

lemma bytes_less_linear: "bytes_less x y \<or> x = y \<or> bytes_less y x"
  by (induction x y rule: bytes_less.induct) auto

text \<open>
  The order is strict and total on identifiers whose locations agree in their state whenever they
  agree in their numbers, such as locations of pages; \<open>loc_less\<close> ignores the state.
\<close>

definition comparable :: "pl_uoid \<Rightarrow> pl_uoid \<Rightarrow> bool" where
  "comparable a b \<longleftrightarrow> fState (u_location a) = fState (u_location b)"

lemma uoid_less_irrefl: "\<not> uoid_less a a"
  by (simp add: uoid_less_def loc_eq_def)

lemma uoid_less_linear: "comparable a b \<Longrightarrow> uoid_less a b \<or> uoid_eq a b \<or> uoid_less b a"
  using bytes_less_linear [of "u_objName a" "u_objName b"]
  by (auto simp: uoid_less_def uoid_eq_def loc_eq_def loc_less_def comparable_def)

lemma uoid_less_trans:
  "comparable a b \<Longrightarrow> comparable b c \<Longrightarrow> uoid_less a b \<Longrightarrow> uoid_less b c \<Longrightarrow> uoid_less a c"
  using bytes_less_trans [of "u_objName a" "u_objName b" "u_objName c"]
  by (auto simp: uoid_less_def loc_eq_def loc_less_def comparable_def split: if_splits)

text \<open>Without that proviso it is not: two identifiers neither below the other nor equal.\<close>

lemma uoid_less_states:
  "\<exists>a b c. \<not> uoid_less a b \<and> \<not> uoid_less b a \<and> \<not> uoid_less b c \<and> \<not> uoid_less c b \<and> uoid_less a c"
proof -
  define a where "a = uoid_new\<lparr>u_location := loc_setVirtual (loc_new 0), u_classType := 1\<rparr>"
  define b where "b = uoid_new\<lparr>u_classType := 1\<rparr>"
  define c where "c = a\<lparr>u_classType := 2\<rparr>"
  have "\<not> uoid_less a b \<and> \<not> uoid_less b a \<and> \<not> uoid_less b c \<and> \<not> uoid_less c b \<and> uoid_less a c"
    by (simp add: a_def b_def c_def uoid_less_def loc_eq_def loc_less_def uoid_new_def loc_new_def
        loc_setVirtual_def kStateInvalid_def kStateVirtual_def)
  then show ?thesis by blast
qed

section \<open>Properties\<close>

text \<open>C18: An object identifier written for one of the five versions and read back is the same
  identifier, but for the fields the version's format leaves out, and takes all the bytes.\<close>

theorem uoid_stream_roundtrip:
  assumes "uoid_ok L v u" "length (uoid_image v u) < 2 ^ 32"
  shows "\<exists>u1 s. uoid_write u \<lparr>s_ver = v, s_data = [], s_pos = 0\<rparr> = Inr (u1, s) \<and>
     uoid_read L old (s\<lparr>s_pos := 0\<rparr>) = Inr (uoid_upd v old u, s) \<and> s_eof s"
  by (rule uoid.roundtrip [OF assms])

definition sample_uoid :: pl_uoid where
  "sample_uoid = uoid_new\<lparr>u_location := loc_setVirtual (loc_new pvMoul), u_classType := 1,
     u_objName := [65, 104], u_objID := 7, u_cloneID := 3, u_clonePlayerID := 9\<rparr>"

theorem uoid_stream_roundtrip_witness:
  "\<exists>u1 s. uoid_write sample_uoid \<lparr>s_ver = pvMoul, s_data = [], s_pos = 0\<rparr> = Inr (u1, s) \<and>
     uoid_read ascii_lib uoid_new (s\<lparr>s_pos := 0\<rparr>) = Inr (sample_uoid, s) \<and> s_eof s"
proof -
  have "uoid_ok ascii_lib pvMoul sample_uoid" by code_simp
  moreover have "length (uoid_image pvMoul sample_uoid) = 25" by code_simp
  moreover have "uoid_upd pvMoul uoid_new sample_uoid = sample_uoid" by code_simp
  ultimately show ?thesis using uoid_stream_roundtrip [of ascii_lib pvMoul sample_uoid uoid_new] by simp
qed

text \<open>C21: A page's key index, a run of entries written one after the other, is read by a counted loop
  into the same entries in the same order.\<close>

theorem key_index_roundtrip:
  assumes "list_all (key_ok L v) ks"
  shows "\<exists>s. io_each (\<lambda>k. io_then (key_write k) (io_return ())) ks \<lparr>s_ver = v, s_data = [], s_pos = 0\<rparr> = Inr ((), s) \<and>
     (length (s_data s) < 2 ^ 32 \<longrightarrow>
        io_repeat (length ks) (key_read L old) (s\<lparr>s_pos := 0\<rparr>) = Inr (map (key_upd v old) ks, s))"
  using emitsD [OF key_data.seq_emits [OF assms], of "[]"]
    parsesD [OF key_data.seq_parses [OF assms refl], of "[]" "[]" old]
  by simp

theorem key_index_roundtrip_witness:
  "\<exists>s. io_each (\<lambda>k. io_then (key_write k) (io_return ()))
      [\<lparr>k_uoid = sample_uoid, k_fileOff = 100, k_objSize = 20\<rparr>] \<lparr>s_ver = pvMoul, s_data = [], s_pos = 0\<rparr> = Inr ((), s)"
proof -
  let ?k = "\<lparr>k_uoid = sample_uoid, k_fileOff = 100, k_objSize = 20\<rparr>"
  have "list_all (key_ok ascii_lib pvMoul) [?k]" by code_simp
  from key_index_roundtrip [OF this, of ?k] show ?thesis by blast
qed

text \<open>Among identifiers whose locations are in the same state, the comparison the key maps are
  sorted by is a strict order that separates all identifiers that differ.\<close>

theorem uoid_order:
  assumes "comparable a b" "comparable b c"
  shows "\<not> uoid_less a a \<and> (uoid_less a b \<longrightarrow> uoid_less b c \<longrightarrow> uoid_less a c) \<and>
     (uoid_less a b \<or> uoid_eq a b \<or> uoid_less b a)"
  using uoid_less_irrefl uoid_less_trans [OF assms] uoid_less_linear [OF assms(1)] by blast

theorem uoid_order_witness:
  "\<not> uoid_less sample_uoid sample_uoid"
  using uoid_order [of sample_uoid sample_uoid sample_uoid] by (simp add: comparable_def)

text \<open>Between locations in different states it is not: there are identifiers of which neither is
  below the other in two steps and yet the first is below the third.\<close>

theorem uoid_order_not_weak:
  "\<exists>a b c. \<not> uoid_less a b \<and> \<not> uoid_less b a \<and> \<not> uoid_less b c \<and> \<not> uoid_less c b \<and> uoid_less a c"
  by (rule uoid_less_states)

end
