(* ===== verification/PageInfo.thy ===== *)
theory PageInfo
  imports Uoid
begin

text \<open>
  The page header \<open>plPageInfo\<close> (\<open>src/core/PRP/plPageInfo.h\<close>, \<open>.cpp\<close>).  Reading a header decides
  the version of the stream it is read from and fills the class version table of
  \<open>pdUnifiedTypeMap\<close>, a global variable, which the reader is passed and returns.  An object left
  half-read by an exception is not modelled; warnings are output only.
\<close>

section \<open>State and operations\<close>

record page_info =
  p_loc :: pl_location
  p_age :: bytes
  p_page :: bytes
  p_idxChecksum :: u32
  p_checksum :: u32
  p_releaseVersion :: u32
  p_dataStart :: u32
  p_idxStart :: u32
  p_flags :: u32
  p_numObjects :: u32
  p_classList :: "int list"

definition page_new :: page_info where
  "page_new = \<lparr>p_loc = loc_invalidate (loc_new pvUnknown), p_age = [], p_page = [], p_idxChecksum = 0,
     p_checksum = 0, p_releaseVersion = 0, p_dataStart = 0, p_idxStart = 0, p_flags = 0,
     p_numObjects = 0, p_classList = []\<rparr>"

definition page_named :: "bytes \<Rightarrow> bytes \<Rightarrow> page_info" where
  "page_named age page = page_new\<lparr>p_age := age, p_page := page\<rparr>"

definition page_isValid :: "page_info \<Rightarrow> bool" where
  "page_isValid p \<longleftrightarrow> loc_isValid (p_loc p)"

definition ascii :: "string \<Rightarrow> bytes" where "ascii cs = map of_char cs"

definition page_chapter :: bytes where "page_chapter = ascii ''District''"

text \<open>The class list: each class with its version, which goes into the global table.\<close>

fun read_classes :: "nat \<Rightarrow> ver_table \<Rightarrow> ver_table io" where
  "read_classes 0 tab = io_return tab"
| "read_classes (Suc n) tab =
     io_bind readShort (\<lambda>t. io_bind readShort (\<lambda>cv. io_bind getVer (\<lambda>v.
     io_bind (io_lift (SetCurrentVersion (sint t) v (sint cv) tab)) (\<lambda>tab1.
     io_bind (io_lift (ClassVersion (sint t) v)) (\<lambda>_. read_classes n tab1)))))"

definition write_class :: "int \<Rightarrow> unit io" where
  "write_class c =
     io_bind getVer (\<lambda>v. let typeIdx = MappedToPlasma c v in
     io_then (writeShort (word_of_int typeIdx))
       (io_bind (io_lift (ClassVersion typeIdx v)) (\<lambda>cv. writeShort (word_of_int cv))))"

text \<open>The version a page's format number stands for, before the rest of the header refines it.\<close>

definition prp_version :: "int \<Rightarrow> plasma_ver" where
  "prp_version prpVer =
     (if prpVer = -1 then pvUniversal
      else if prpVer = 9 then pvHex
      else if prpVer = 2 then MAKE_VERSION 2 0 56 0
      else pvPrime)"

definition page_read_types :: "int \<Rightarrow> ver_table \<Rightarrow> ver_table io" where
  "page_read_types prpVer tab =
     io_bind getVer (\<lambda>v.
     if isValid v \<and> \<not> isUniversal v then
       io_bind readShort (\<lambda>numTypes.
       if prpVer \<ge> 6 then
         io_then (io_when (numTypes \<noteq> 0 \<and> prpVer = 6) (setVer pvEoa))
         (io_then (io_when (numTypes = 0 \<and> prpVer = 6) (setVer pvMoul))
         (io_bind getVer (\<lambda>v. io_bind (io_lift (SetCurrentVersionBase v tab)) (\<lambda>tab1.
          read_classes (unat numTypes) tab1))))
       else io_return tab)
     else io_return tab)"

definition page_read_version :: "int \<Rightarrow> page_info \<Rightarrow> page_info io" where
  "page_read_version prpVer p =
     io_bind getVer (\<lambda>v.
     if isNewPlasma v then io_return p
     else io_bind readShort (\<lambda>m.
       io_then (setVer (MAKE_VERSION (plsMajor v) (plsMinor v) (uint m) 0))
       (if prpVer < 6 then
          io_bind getVer (\<lambda>v. io_bind readShort (\<lambda>n.
          io_then (setVer (MAKE_VERSION (plsMajor v) (plsMinor v) (revMajor v) (uint n)))
          (io_bind (io_opt (prpVer < 5) readInt (p_idxChecksum p)) (\<lambda>ic.
           io_bind (io_opt (prpVer \<ge> 2) readInt (p_releaseVersion p)) (\<lambda>rel.
           io_bind (io_opt (prpVer \<ge> 3) readInt (p_flags p)) (\<lambda>fl.
           io_return (p\<lparr>p_idxChecksum := ic, p_releaseVersion := rel, p_flags := fl\<rparr>)))))))
        else io_return p)))"

definition page_read_names :: "st_lib \<Rightarrow> int \<Rightarrow> page_info \<Rightarrow> page_info io" where
  "page_read_names L prpVer p =
     io_bind readInt (\<lambda>location.
     io_bind getVer (\<lambda>v.
     io_bind (if isNewPlasma v then io_bind readByte (\<lambda>b. io_return (ucast b)) else readShort) (\<lambda>locflags.
     io_bind (readSafeStr L) (\<lambda>age.
     io_bind (io_opt (age = [])
                (io_then (st_skip (-4)) (io_bind (readSafeStr L) (\<lambda>age. io_return (0, age))))
                (locflags, age)) (\<lambda>(locflags, age).
     io_bind (io_opt (prpVer < 6) (readSafeStr L) []) (\<lambda>_.
     io_bind (readSafeStr L) (\<lambda>page.
     io_bind (page_read_version prpVer p) (\<lambda>p1.
     io_bind getVer (\<lambda>v.
     io_bind (io_opt (isUniversal v) readInt (p_flags p1)) (\<lambda>fl.
     io_bind (io_lift (loc_parse location ((p_loc p)\<lparr>l_ver := v\<rparr>))) (\<lambda>l.
     io_return (p1\<lparr>p_age := age, p_page := page, p_flags := fl,
                   p_loc := l\<lparr>fFlags := locflags\<rparr>\<rparr>))))))))))))"

definition page_read :: "st_lib \<Rightarrow> page_info \<times> ver_table \<Rightarrow> (page_info \<times> ver_table) io" where
  "page_read L = (\<lambda>(p, tab).
     io_bind readShort (\<lambda>h. let prpVer = sint h in
     io_then (setVer (prp_version prpVer))
     (io_bind (page_read_types prpVer tab) (\<lambda>tab1.
      io_bind (io_opt (prpVer \<ge> 1) (page_read_names L prpVer p) p) (\<lambda>p1.
      io_bind getVer (\<lambda>v.
      io_bind (io_opt (prpVer \<ge> 4 \<or> isUniversal v) readInt (p_checksum p1)) (\<lambda>cs.
      io_bind (if prpVer \<ge> 5 \<or> isUniversal v
               then io_bind readInt (\<lambda>d. io_bind readInt (\<lambda>i. io_return (d, i)))
               else io_bind st_tell (\<lambda>pos. io_return (0, word_of_nat pos))) (\<lambda>(d, i).
      io_bind (if isMoul v then io_bind readShort (\<lambda>n. read_classes (unat n) tab1) else io_return tab1) (\<lambda>tab2.
      io_return (p1\<lparr>p_checksum := cs, p_dataStart := d, p_idxStart := i\<rparr>, tab2))))))))))"

definition page_write_names :: "page_info \<Rightarrow> pl_location io" where
  "page_write_names p =
     io_bind (loc_write (p_loc p)) (\<lambda>l. io_then (writeSafeStr (p_age p)) (io_then (writeSafeStr (p_page p)) (io_return l)))"

definition page_write_head :: "page_info \<Rightarrow> pl_location io" where
  "page_write_head p =
     io_bind getVer (\<lambda>v.
     if isUniversal v then
       io_then (writeShort (-1))
         (io_bind (page_write_names p) (\<lambda>l. io_then (writeInt (p_flags p)) (io_return l)))
     else if isEoa v \<or> isHexIsle v then
       io_then (writeShort (if isEoa v then 6 else 9))
         (io_then (writeShort (word_of_nat (length (p_classList p))))
           (io_then (io_each write_class (p_classList p)) (page_write_names p)))
     else if isMoul v then
       io_then (writeInt 6)
         (io_bind (page_write_names p) (\<lambda>l. io_then (writeShort 70) (io_return l)))
     else
       io_then (writeInt 5)
         (io_bind (loc_write (p_loc p)) (\<lambda>l.
          io_then (writeSafeStr (p_age p)) (io_then (writeSafeStr page_chapter) (io_then (writeSafeStr (p_page p))
          (io_then (writeShort 63) (io_bind getVer (\<lambda>v. io_then (writeShort (word_of_int (revMinor v)))
          (io_then (writeInt (p_releaseVersion p)) (io_then (writeInt (p_flags p)) (io_return l)))))))))))"

definition page_write :: "page_info \<Rightarrow> page_info io" where
  "page_write p =
     io_bind (page_write_head p) (\<lambda>l.
     io_then (writeInt (p_checksum p)) (io_then (writeInt (p_dataStart p)) (io_then (writeInt (p_idxStart p))
     (io_bind getVer (\<lambda>v.
     io_then (io_when (isMoul v)
       (io_then (writeShort (word_of_nat (length (p_classList p)))) (io_each write_class (p_classList p))))
     (io_return (p\<lparr>p_loc := l\<rparr>)))))))"

definition page_writeSums :: "page_info \<Rightarrow> unit io" where
  "page_writeSums p =
     io_bind st_tell (\<lambda>pos. io_bind getVer (\<lambda>v.
     let offs = p_dataStart p - 12 - (if isMoul v then 2 + 4 * word_of_nat (length (p_classList p)) else 0) in
     io_then (st_seek (unat offs))
       (io_then (writeInt (p_checksum p)) (io_then (writeInt (p_dataStart p)) (io_then (writeInt (p_idxStart p))
         (st_seek pos))))))"

definition page_getFilename :: "plasma_ver \<Rightarrow> page_info \<Rightarrow> bytes" where
  "page_getFilename ver p =
     (if isNewPlasma ver then p_age p @ ascii ''_'' @ p_page p @ ascii ''.prp''
      else if ver < MAKE_VERSION 2 0 60 0 then p_age p @ ascii ''_District_'' @ p_page p @ ascii ''.prx''
      else p_age p @ ascii ''_District_'' @ p_page p @ ascii ''.prp'')"

section \<open>The class list on the wire\<close>

definition class_ok :: "plasma_ver \<Rightarrow> int \<Rightarrow> bool" where
  "class_ok v c \<longleftrightarrow> 0 \<le> MappedToPlasma c v \<and> (uru_family v \<longrightarrow> c \<noteq> 0x9B)"

definition class_image :: "plasma_ver \<Rightarrow> int \<Rightarrow> bytes" where
  "class_image v c = le16 (word_of_int (MappedToPlasma c v)) @
     le16 (word_of_int (projr (ClassVersion (MappedToPlasma c v) v)))"

lemma ver_table_shorts:
  "list_all (\<lambda>x. - 32768 \<le> x \<and> x < 32768) fLiveVerTable"
  "list_all (\<lambda>x. - 32768 \<le> x \<and> x < 32768) fEoaVerTable"
  "list_all (\<lambda>x. - 32768 \<le> x \<and> x < 32768) fHexVerTable"
  by code_simp+

lemma base_table:
  assumes "SetCurrentVersionBase v tab0 = Inr tab" "length tab0 = 1280"
  shows "length tab = 1280" "list_all (\<lambda>x. - 32768 \<le> x \<and> x < 32768) tab"
  using assms ver_table_shorts by (auto simp: SetCurrentVersionBase_def copy_table_all split: if_splits)

text \<open>Setting a class of the format to its own version changes nothing.\<close>

lemma class_facts:
  assumes base: "SetCurrentVersionBase v tab0 = Inr tab" "length tab0 = 1280" and ok: "class_ok v c"
  shows "sint (word_of_int (MappedToPlasma c v) :: u16) = MappedToPlasma c v" (is ?t)
    and "\<exists>cv. ClassVersion (MappedToPlasma c v) v = Inr cv \<and> sint (word_of_int cv :: u16) = cv \<and>
      SetCurrentVersion (MappedToPlasma c v) v cv tab = Inr tab" (is ?v)
proof -
  from ok m2p_p2m [OF refl, of c v] have m: "in_range (MappedToPlasma c v)"
    "PlasmaToMapped (MappedToPlasma c v) v = c" by (auto simp: class_ok_def)
  then show ?t
    by (simp add: in_range_def TYPESPACE_MAX_def sint_sbintrunc' signed_take_bit_int_eq_self)
  have c: "in_range c"
    using ok by (auto simp: class_ok_def MappedToPlasma_def split: if_splits)
  then have nn: "0 \<le> PlasmaToMapped (MappedToPlasma c v) v" by (simp add: m(2) in_range_def)
  from ClassVersion_current [OF base nn] c
  have cv: "ClassVersion (MappedToPlasma c v) v = Inr (tab ! nat c)"
    by (simp add: m(2) CurrentVersion_def)
  have "nat c < length tab" using base_table(1) [OF base] c by (auto simp: in_range_def TYPESPACE_MAX_def nat_less_iff)
  with base_table(2) [OF base] have "- 32768 \<le> tab ! nat c \<and> tab ! nat c < 32768"
    by (simp add: list_all_length)
  then have "sint (word_of_int (tab ! nat c) :: u16) = tab ! nat c"
    by (simp add: sint_sbintrunc' signed_take_bit_int_eq_self)
  moreover have "SetCurrentVersion (MappedToPlasma c v) v (tab ! nat c) tab = Inr tab"
    using nn by (simp add: SetCurrentVersion_def m(2))
  ultimately show ?v using cv by blast
qed

lemma emits_write_class:
  assumes "SetCurrentVersionBase v tab0 = Inr tab" "length tab0 = 1280" "class_ok v c"
  shows "emits (write_class c) v (class_image v c) () v"
proof -
  from class_facts(2) [OF assms] obtain cv where cv: "ClassVersion (MappedToPlasma c v) v = Inr cv" by blast
  show ?thesis
    unfolding write_class_def class_image_def Let_def cv sum.sel
    by (rule emits_ver, rule emits_then [OF emits_prims(2)], rule emits_lift [OF cv], rule emits_prims(2))
qed

lemma emits_write_classes:
  assumes "SetCurrentVersionBase v tab0 = Inr tab" "length tab0 = 1280" "list_all (class_ok v) cs"
  shows "emits (io_each write_class cs) v (concat (map (class_image v) cs)) () v"
  using assms(3) by (intro emits_each emits_write_class [OF assms(1,2)]) (auto simp: list_all_iff)

lemma parses_read_classes:
  assumes base: "SetCurrentVersionBase v tab0 = Inr tab" "length tab0 = 1280"
  shows "list_all (class_ok v) cs \<Longrightarrow>
    parses (read_classes (length cs) tab) v (concat (map (class_image v) cs)) tab v"
proof (induction cs)
  case Nil
  then show ?case by (simp add: parses_return)
next
  case (Cons c cs)
  then have "class_ok v c" by simp
  from class_facts [OF base this] obtain cv where f:
    "sint (word_of_int (MappedToPlasma c v) :: u16) = MappedToPlasma c v"
    "ClassVersion (MappedToPlasma c v) v = Inr cv" "sint (word_of_int cv :: u16) = cv"
    "SetCurrentVersion (MappedToPlasma c v) v cv tab = Inr tab" by blast
  have "parses (read_classes (Suc (length cs)) tab) v
      (le16 (word_of_int (MappedToPlasma c v)) @ le16 (word_of_int cv) @ concat (map (class_image v) cs)) tab v"
    unfolding read_classes.simps
    by (rule parses_bind [OF parses_prims(2)], rule parses_bind [OF parses_prims(2)], rule parses_ver,
        unfold f(1,3), rule parses_lift [OF f(4)], rule parses_lift [OF f(2)])
      (use Cons in simp)
  moreover have "class_image v c = le16 (word_of_int (MappedToPlasma c v)) @ le16 (word_of_int cv)"
    by (simp add: class_image_def f(2))
  ultimately show ?case by simp
qed

section \<open>Headers on the wire\<close>

text \<open>
  A header that a release version can carry: its location, its two names, of which the age name is
  not empty, and its classes.  Myst V tells its pages from those of Uru Live, which have the same
  format number, by the class list, so it must have one.
\<close>

definition page_ok :: "st_lib \<Rightarrow> plasma_ver \<Rightarrow> page_info \<Rightarrow> bool" where
  "page_ok L v p \<longleftrightarrow> isSafeVer v \<and> loc_ok v (p_loc p) \<and> p_age p \<noteq> [] \<and>
     safe_str_ok L v (p_age p) \<and> safe_str_ok L v (p_page p) \<and> st_valid L page_chapter \<and>
     length (p_classList p) < 2 ^ 16 \<and> (v = pvEoa \<longrightarrow> p_classList p \<noteq> []) \<and>
     (\<not> isUruSP v \<longrightarrow> list_all (class_ok v) (p_classList p))"

definition classes_image :: "plasma_ver \<Rightarrow> page_info \<Rightarrow> bytes" where
  "classes_image v p =
     le16 (word_of_nat (length (p_classList p))) @ concat (map (class_image v) (p_classList p))"

definition names_image :: "plasma_ver \<Rightarrow> page_info \<Rightarrow> bytes" where
  "names_image v p =
     loc_image v (p_loc p) @ safe_str_image v (p_age p) @
     (if isUruSP v then safe_str_image v page_chapter else []) @ safe_str_image v (p_page p)"

definition head_image :: "plasma_ver \<Rightarrow> page_info \<Rightarrow> bytes" where
  "head_image v p =
     (if v = pvEoa \<or> v = pvHex then
        le16 (if v = pvEoa then 6 else 9) @ classes_image v p @ names_image v p
      else if v = pvMoul then le32 6 @ names_image v p @ le16 70
      else le32 5 @ names_image v p @ le16 63 @ le16 (word_of_int (revMinor v)) @
           le32 (p_releaseVersion p) @ le32 (p_flags p))"

definition page_image :: "plasma_ver \<Rightarrow> page_info \<Rightarrow> bytes" where
  "page_image v p =
     head_image v p @ le32 (p_checksum p) @ le32 (p_dataStart p) @ le32 (p_idxStart p) @
     (if v = pvMoul then classes_image v p else [])"

text \<open>What reading makes of the object and the version table.\<close>

definition page_upd :: "plasma_ver \<Rightarrow> page_info \<Rightarrow> page_info \<Rightarrow> page_info" where
  "page_upd v old p =
     old\<lparr>p_releaseVersion := (if isUruSP v then p_releaseVersion p else p_releaseVersion old),
       p_flags := (if isUruSP v then p_flags p else p_flags old), p_age := p_age p, p_page := p_page p,
       p_loc := (p_loc p)\<lparr>l_ver := v\<rparr>, p_checksum := p_checksum p, p_dataStart := p_dataStart p,
       p_idxStart := p_idxStart p\<rparr>"

definition page_table :: "plasma_ver \<Rightarrow> ver_table \<Rightarrow> ver_table" where
  "page_table v tab = (case SetCurrentVersionBase v tab of Inl _ \<Rightarrow> tab | Inr tab' \<Rightarrow> tab')"

lemma not_eqs:
  "pvPrime \<noteq> pvPots" "pvPrime \<noteq> pvMoul" "pvPrime \<noteq> pvEoa" "pvPrime \<noteq> pvHex" "pvPots \<noteq> pvMoul"
  "pvPots \<noteq> pvEoa" "pvPots \<noteq> pvHex" "pvMoul \<noteq> pvEoa" "pvMoul \<noteq> pvHex" "pvEoa \<noteq> pvHex"
  by (simp_all add: ver_values)

lemmas ver_neqs = not_eqs not_eqs [THEN not_sym]

lemma release_preds:
  "\<not> isNewPlasma pvPrime" "\<not> isNewPlasma pvPots" "\<not> isNewPlasma pvMoul" "isNewPlasma pvEoa" "isNewPlasma pvHex"
  "isUruSP pvPrime" "isUruSP pvPots" "\<not> isUruSP pvMoul" "\<not> isUruSP pvEoa" "\<not> isUruSP pvHex"
  "\<not> isUniversal pvPrime" "\<not> isUniversal pvPots" "\<not> isUniversal pvMoul" "\<not> isUniversal pvEoa" "\<not> isUniversal pvHex"
  "isValid pvPrime" "isValid pvPots" "isValid pvMoul" "isValid pvEoa" "isValid pvHex"
  by (simp_all add: ver_eval)

lemma base_ok:
  assumes "isSafeVer v" "\<not> isUruSP v"
  shows "SetCurrentVersionBase v tab = Inr (page_table v tab)"
  using assms by (cases rule: safe_cases [OF assms(1)]) (simp_all add: SetCurrentVersionBase_def page_table_def ver_neqs release_preds)

lemma page_table_SP: "isSafeVer v \<Longrightarrow> isUruSP v \<Longrightarrow> page_table v tab = tab"
  by (auto elim!: safe_cases simp: SetCurrentVersionBase_def page_table_def ver_neqs release_preds)

lemma rebuilt_versions:
  "MAKE_VERSION (plsMajor pvPrime) (plsMinor pvPrime) (uint (63 :: u16)) 0 = MAKE_VERSION 2 0 63 0"
  "MAKE_VERSION (plsMajor (MAKE_VERSION 2 0 63 0)) (plsMinor (MAKE_VERSION 2 0 63 0)) (revMajor (MAKE_VERSION 2 0 63 0))
     (uint (word_of_int (revMinor pvPrime) :: u16)) = pvPrime"
  "MAKE_VERSION (plsMajor (MAKE_VERSION 2 0 63 0)) (plsMinor (MAKE_VERSION 2 0 63 0)) (revMajor (MAKE_VERSION 2 0 63 0))
     (uint (word_of_int (revMinor pvPots) :: u16)) = pvPots"
  "MAKE_VERSION (plsMajor pvMoul) (plsMinor pvMoul) (uint (70 :: u16)) 0 = pvMoul"
  by (simp_all add: ver_consts plsMajor_def plsMinor_def revMajor_def revMinor_def)

lemma page_okD:
  assumes "page_ok L v p"
  shows "isSafeVer v" "loc_ok v (p_loc p)" "safe_str_ok L v (p_age p)" "safe_str_ok L v (p_page p)"
    "safe_str_ok L v page_chapter" "p_age p \<noteq> []"
    "unat (word_of_nat (length (p_classList p)) :: u16) = length (p_classList p)"
  using assms
  by (auto simp: page_ok_def safe_str_ok_def unat_of_nat page_chapter_def ascii_def)

lemma emits_safe_str: "safe_str_ok L v s \<Longrightarrow> emits (writeSafeStr s) v (safe_str_image v s) () v"
  by (rule emits_writeSafeStr) (auto simp: safe_str_ok_def)

lemma emits_page_write_head:
  assumes ok: "page_ok L v p"
  shows "emits (page_write_head p) v (head_image v p) (loc_write_ver v (p_loc p)) v"
proof -
  note D = page_okD [OF ok]
  note strs = emits_safe_str [OF D(3)] emits_safe_str [OF D(4)] emits_safe_str [OF D(5)]
  have names: "emits (page_write_names p) v (names_image v p) (loc_write_ver v (p_loc p)) v" if "\<not> isUruSP v"
    unfolding page_write_names_def names_image_def
    by (rule emits_cong, (rule emits_bind [OF emits_loc_write [OF D(2)]] emits_then strs emits_return)+)
      (simp_all add: that)
  have classes: "emits (io_each write_class (p_classList p)) v (concat (map (class_image v) (p_classList p))) () v"
    if "\<not> isUruSP v"
    using ok that by (intro emits_write_classes [OF base_ok [OF D(1) that, of fCurrentVerTable0]])
      (auto simp: page_ok_def fCurrentVerTable0_def)
  consider "v = pvEoa \<or> v = pvHex" | "v = pvMoul" | "isUruSP v" "v = pvPrime \<or> v = pvPots"
    using D(1) by (auto elim!: safe_cases simp: release_preds)
  then show ?thesis
  proof cases
    case 1
    then have sp: "\<not> isUruSP v" by (auto simp: release_preds)
    have "emits (io_then (writeShort (if isEoa v then 6 else 9))
        (io_then (writeShort (word_of_nat (length (p_classList p))))
          (io_then (io_each write_class (p_classList p)) (page_write_names p)))) v
        (le16 (if isEoa v then 6 else 9) @ le16 (word_of_nat (length (p_classList p))) @
         concat (map (class_image v) (p_classList p)) @ names_image v p) (loc_write_ver v (p_loc p)) v"
      by (rule emits_then emits_prims classes [OF sp] names [OF sp])+
    then show ?thesis
      unfolding page_write_head_def using 1
      by (intro emits_ver) (auto simp: head_image_def classes_image_def release_preds isEoa_def isHexIsle_def ver_neqs)
  next
    case 2
    then have sp: "\<not> isUruSP v" by (simp add: release_preds)
    have "emits (io_then (writeInt 6) (io_bind (page_write_names p) (\<lambda>l. io_then (writeShort 70) (io_return l)))) v
        (le32 6 @ names_image v p @ le16 70 @ []) (loc_write_ver v (p_loc p)) v"
      by (rule emits_then emits_prims emits_bind [OF names [OF sp]] emits_return)+
    with 2 show ?thesis
      unfolding page_write_head_def
      by (intro emits_ver) (auto simp: head_image_def release_preds isEoa_def isHexIsle_def isMoul_def ver_neqs)
  next
    case 3
    have n: "v \<noteq> pvEoa" "v \<noteq> pvHex" "v \<noteq> pvMoul" "\<not> isUniversal v"
      using 3 by (auto simp: ver_neqs release_preds)
    have "emits (page_write_head p) v (le32 5 @ loc_image v (p_loc p) @ safe_str_image v (p_age p) @
        safe_str_image v page_chapter @ safe_str_image v (p_page p) @ le16 63 @
        le16 (word_of_int (revMinor v)) @ le32 (p_releaseVersion p) @ le32 (p_flags p) @ []) (loc_write_ver v (p_loc p)) v"
      unfolding page_write_head_def
      by (rule emits_ver, simp only: n isEoa_def isHexIsle_def isMoul_def if_False simp_thms)
        (rule emits_then [OF emits_prims(3)] emits_then [OF emits_prims(2)] emits_bind [OF emits_loc_write [OF D(2)]]
          emits_then [OF strs(1)] emits_then [OF strs(2)] emits_then [OF strs(3)] emits_ver emits_return)+
    with 3 n show ?thesis by (simp add: head_image_def names_image_def)
  qed
qed

lemma emits_page_write:
  assumes ok: "page_ok L v p"
  shows "emits (page_write p) v (page_image v p) (p\<lparr>p_loc := loc_write_ver v (p_loc p)\<rparr>) v"
proof -
  note D = page_okD [OF ok]
  have cl: "emits (io_when (isMoul v) (io_then (writeShort (word_of_nat (length (p_classList p))))
      (io_each write_class (p_classList p)))) v (if v = pvMoul then classes_image v p else []) () v"
    unfolding classes_image_def isMoul_def
  proof (rule emits_when, rule emits_then [OF emits_prims(2)])
    assume "v = pvMoul"
    then have "\<not> isUruSP v" by (simp add: release_preds)
    with ok show "emits (io_each write_class (p_classList p)) v (concat (map (class_image v) (p_classList p))) () v"
      by (intro emits_write_classes [OF base_ok [OF D(1), of fCurrentVerTable0]])
        (auto simp: page_ok_def fCurrentVerTable0_def)
  qed
  show ?thesis
    unfolding page_write_def page_image_def
    by (rule emits_cong, (rule emits_bind [OF emits_page_write_head [OF ok]] emits_then [OF emits_prims(3)] emits_ver
      emits_then [OF cl] emits_return)+) simp_all
qed

lemma parses_when_ver:
  "parses (io_when c (setVer u)) v [] () (if c then u else v)"
  by (rule parses_when) (simp_all add: parses_setVer)

lemma parses_page_types_6:
  assumes w: "isValid w" "\<not> isUniversal w" "n \<ge> 6"
    and v: "v = (if n = 6 then if N = 0 then pvMoul else pvEoa else w)"
    and base: "SetCurrentVersionBase v tab = Inr T" and cs: "parses (read_classes (unat N) T) v cs T v"
  shows "parses (page_read_types n tab) w (le16 N @ cs) T v"
proof -
  let ?w = "if N \<noteq> 0 \<and> n = 6 then pvEoa else w"
  have "(if N = 0 \<and> n = 6 then pvMoul else ?w) = v" using v by auto
  with parses_when_ver [of "N = 0 \<and> n = 6" pvMoul ?w]
  have moul: "parses (io_when (N = 0 \<and> n = 6) (setVer pvMoul)) ?w [] () v" by simp
  have "parses (io_bind getVer (\<lambda>v. io_bind (io_lift (SetCurrentVersionBase v tab)) (\<lambda>tab1. read_classes (unat N) tab1)))
      v cs T v"
    by (rule parses_ver, rule parses_lift [OF base], rule cs)
  from parses_then_nil [OF parses_when_ver [of "N \<noteq> 0 \<and> n = 6" pvEoa w] parses_then_nil [OF moul this]] w
  show ?thesis
    unfolding page_read_types_def
    by (intro parses_ver) (simp, intro parses_bind [OF parses_prims(2)], simp)
qed

lemma parses_page_types:
  "parses (page_read_types 5 tab) pvPrime (le16 0) tab pvPrime"
  "parses (page_read_types 6 tab) pvPrime (le16 0) (page_table pvMoul tab) pvMoul"
proof -
  have "parses (page_read_types 5 tab) pvPrime (le16 0 @ []) tab pvPrime"
    unfolding page_read_types_def
    by (intro parses_ver) (simp add: release_preds del: append_Nil2, intro parses_bind [OF parses_prims(2)], simp add: parses_return)
  then show "parses (page_read_types 5 tab) pvPrime (le16 0) tab pvPrime" by simp
  have "SetCurrentVersionBase pvMoul tab = Inr (page_table pvMoul tab)"
    by (rule base_ok) (simp_all add: release_preds isSafe_values)
  then have "parses (page_read_types 6 tab) pvPrime (le16 0 @ []) (page_table pvMoul tab) pvMoul"
    by (intro parses_page_types_6) (simp_all add: release_preds parses_return)
  then show "parses (page_read_types 6 tab) pvPrime (le16 0) (page_table pvMoul tab) pvMoul" by simp
qed

lemma parses_page_types_listed:
  assumes ok: "page_ok L v p" and v: "v = pvEoa \<and> n = 6 \<and> w = pvPrime \<or> v = pvHex \<and> n = 9 \<and> w = pvHex"
    and tab: "length tab = 1280"
  shows "parses (page_read_types n tab) w (classes_image v p) (page_table v tab) v"
proof -
  note D = page_okD [OF ok]
  have sp: "\<not> isUruSP v" using v by (auto simp: release_preds)
  note base = base_ok [OF D(1) sp, of tab]
  have ne: "(word_of_nat (length (p_classList p)) :: u16) \<noteq> 0" if "v = pvEoa"
    using ok that D(7) by (auto simp: page_ok_def)
  have "parses (read_classes (length (p_classList p)) (page_table v tab)) v
      (concat (map (class_image v) (p_classList p))) (page_table v tab) v"
    using ok sp by (intro parses_read_classes [OF base tab]) (simp add: page_ok_def)
  with v ne base show ?thesis
    unfolding classes_image_def by (intro parses_page_types_6) (auto simp: release_preds D(7))
qed

lemma safe_str_family:
  assumes "isNewPlasma w = isNewPlasma v" "isSafeVer w" "isSafeVer v"
  shows "safe_str_image w = safe_str_image v" "safe_str_ok L w = safe_str_ok L v"
  using assms by (simp_all add: fun_eq_iff safe_str_image_def safe_str_ok_def)

text \<open>
  The names block: it starts under the version the format number stands for (\<open>w\<close>) and ends under
  the final one.
\<close>

lemma parses_page_names:
  assumes ok: "page_ok L v p" and w: "isSafeVer w" "isNewPlasma w = isNewPlasma v"
    and n: "n < 6 \<longleftrightarrow> isUruSP v" and vers: "parses (page_read_version n old) w tail p1 v"
  shows "parses (page_read_names L n old) w (names_image v p @ tail)
     (p1\<lparr>p_age := p_age p, p_page := p_page p, p_loc := (p_loc p)\<lparr>l_ver := v\<rparr>\<rparr>) v"
proof -
  note D = page_okD [OF ok]
  have u: "\<not> isUniversal v" by (rule safe_not_universal [OF D(1)])
  obtain i where i: "loc_image v (p_loc p) = le32 i @ loc_flags_image v (fFlags (p_loc p))"
    "loc_parse i ((p_loc old)\<lparr>l_ver := v\<rparr>) = Inr ((p_loc p)\<lparr>l_ver := v, fFlags := fFlags (p_loc old)\<rparr>)"
    using loc_image_safe [OF D(2,1)] by metis
  note strs = parses_readSafeStr [of L w, unfolded safe_str_family [OF w(2,1) D(1)]]
  have fl: "parses (if isNewPlasma w then io_bind readByte (\<lambda>b. io_return (ucast b)) else readShort) w
      (loc_flags_image v (fFlags (p_loc p))) (fFlags (p_loc p)) w"
  proof (cases "isNewPlasma v")
    case True
    with D(1,2) u have "fFlags (p_loc p) < 256" by (simp add: loc_ok_def)
    have "parses (io_bind readByte (\<lambda>b. io_return (ucast b))) w [ucast (fFlags (p_loc p))] (fFlags (p_loc p)) w"
      by (rule parses_eq [OF parses_bind_return [OF parses_prims(1)]])
        (rule ucast_ucast_id8 [OF \<open>fFlags (p_loc p) < 256\<close>])
    with True w(2) show ?thesis unfolding loc_flags_image_def by simp
  qed (simp add: w loc_flags_image_def parses_prims)
  have age: "parses (io_opt (p_age p = []) m (f, p_age p)) w [] (f, p_age p) w" for m and f :: u16
    using D(6) by (simp add: io_opt_def parses_return)
  have chap: "parses (io_opt (n < 6) (readSafeStr L) []) w (if isUruSP v then safe_str_image v page_chapter else [])
      (if isUruSP v then page_chapter else []) w"
    using n strs [OF D(5)] by (auto simp: io_opt_def parses_return)
  have uni: "parses (io_opt (isUniversal v) readInt (p_flags p1)) v [] (p_flags p1) v"
    using u by (simp add: io_opt_def parses_return)
  show ?thesis
    unfolding page_read_names_def names_image_def i(1)
    by (rule parses_cong, rule parses_bind [OF parses_prims(3)], rule parses_ver, rule parses_bind [OF fl],
        rule parses_bind [OF strs [OF D(3)]], rule parses_bind [OF age], unfold prod.case,
        rule parses_bind [OF chap], rule parses_bind [OF strs [OF D(4)]], rule parses_bind [OF vers],
        rule parses_ver, rule parses_bind [OF uni], rule parses_lift [OF i(2)], rule parses_return) simp_all
qed

lemma parses_page_version_new: "isNewPlasma v \<Longrightarrow> parses (page_read_version n old) v [] old v"
  unfolding page_read_version_def by (rule parses_ver) (simp add: parses_return)

lemma parses_page_version_moul: "parses (page_read_version 6 old) pvMoul (le16 70) old pvMoul"
proof -
  have "parses (page_read_version 6 old) pvMoul (le16 70 @ [] @ []) old pvMoul"
    unfolding page_read_version_def
    by (rule parses_ver, simp only: release_preds if_False, rule parses_bind [OF parses_prims(2)],
        unfold rebuilt_versions, rule parses_then [OF parses_setVer]) (simp add: parses_return)
  then show ?thesis by simp
qed

lemma parses_page_version_SP:
  assumes "v = pvPrime \<or> v = pvPots"
  shows "parses (page_read_version 5 old) pvPrime
     (le16 63 @ le16 (word_of_int (revMinor v)) @ le32 rel @ le32 fl)
     (old\<lparr>p_releaseVersion := rel, p_flags := fl\<rparr>) v"
proof -
  have v: "MAKE_VERSION (plsMajor (MAKE_VERSION 2 0 63 0)) (plsMinor (MAKE_VERSION 2 0 63 0)) (revMajor (MAKE_VERSION 2 0 63 0))
     (uint (word_of_int (revMinor v) :: u16)) = v" using assms rebuilt_versions(2,3) by auto
  have lt: "((5 :: int) < 6) = True" by simp
  have o: "parses (io_opt (5 < (5 :: int)) readInt x) v [] x v" "parses (io_opt (5 \<ge> (2 :: int)) readInt x) v (le32 y) y v"
    "parses (io_opt (5 \<ge> (3 :: int)) readInt x) v (le32 y) y v" for x y
    by (simp_all add: io_opt_def parses_return parses_prims)
  have "parses (page_read_version 5 old) pvPrime (le16 63 @ [] @ le16 (word_of_int (revMinor v)) @ [] @ [] @ le32 rel @ le32 fl @ [])
     (old\<lparr>p_idxChecksum := p_idxChecksum old, p_releaseVersion := rel, p_flags := fl\<rparr>) v"
    unfolding page_read_version_def
    by (rule parses_ver, simp only: release_preds if_False, rule parses_bind [OF parses_prims(2)],
        unfold rebuilt_versions(1), rule parses_then [OF parses_setVer], simp only: lt if_True,
        rule parses_ver, rule parses_bind [OF parses_prims(2)], rule parses_then, rule parses_setVer, unfold v,
        rule parses_bind [OF o(1)], rule parses_bind [OF o(2)], rule parses_bind [OF o(3)], rule parses_return)
  then show ?thesis by simp
qed

lemma parses_page_read_gen:
  assumes n: "sint h = n" "5 \<le> n" and u: "\<not> isUniversal v"
    and types: "parses (page_read_types n tab) (prp_version n) ti tab1 w"
    and names: "parses (page_read_names L n old) w ni p1 v"
    and classes: "parses (if isMoul v then io_bind readShort (\<lambda>n. read_classes (unat n) tab1) else io_return tab1) v ci tab2 v"
  shows "parses (page_read L (old, tab)) w0 (le16 h @ ti @ ni @ le32 cs @ (le32 d @ le32 i) @ ci)
    (p1\<lparr>p_checksum := cs, p_dataStart := d, p_idxStart := i\<rparr>, tab2) v"
proof -
  have opt: "(n \<ge> 1) = True" "(n \<ge> 4 \<or> isUniversal v) = True" "(n \<ge> 5 \<or> isUniversal v) = True"
    using n by auto
  have two: "parses (io_bind readInt (\<lambda>d. io_bind readInt (\<lambda>i. io_return (d, i)))) v (le32 d @ le32 i) (d, i) v"
    by (rule parses_bind [OF parses_prims(3) parses_bind_return [OF parses_prims(3)]])
  have "parses (page_read L (old, tab)) w0 (le16 h @ [] @ ti @ ni @ le32 cs @ (le32 d @ le32 i) @ ci @ [])
    (p1\<lparr>p_checksum := cs, p_dataStart := d, p_idxStart := i\<rparr>, tab2) v"
    unfolding page_read_def prod.case Let_def
    by (rule parses_bind [OF parses_prims(2)], unfold n(1), rule parses_then [OF parses_setVer],
        rule parses_bind [OF types], simp only: opt(1) io_opt_def if_True, rule parses_bind [OF names],
        rule parses_ver, simp only: opt(2) if_True, rule parses_bind [OF parses_prims(3)], simp only: opt(3) if_True,
        rule parses_bind [OF two], unfold prod.case, rule parses_bind [OF classes], rule parses_return)
  then show ?thesis by simp
qed

lemma parses_page_read:
  assumes ok: "page_ok L v p" and tab: "length tab = 1280"
  shows "parses (page_read L (old, tab)) w0 (page_image v p) (page_upd v old p, page_table v tab) v"
proof -
  note D = page_okD [OF ok]
  have u: "\<not> isUniversal v" by (rule safe_not_universal [OF D(1)])
  have le: "le32 5 = le16 5 @ le16 0" "le32 6 = le16 6 @ le16 0" by (simp_all add: le32_def le16_def)
  have new: "parses (page_read_names L n old) v (names_image v p)
      (old\<lparr>p_age := p_age p, p_page := p_page p, p_loc := (p_loc p)\<lparr>l_ver := v\<rparr>\<rparr>) v"
    if "v = pvEoa \<or> v = pvHex" "\<not> n < 6" for n
    using parses_page_names [OF ok D(1) refl _ parses_page_version_new [of v n old]] that
    by (auto simp: release_preds)
  have listed: "parses (page_read L (old, tab)) w0 (page_image v p) (page_upd v old p, page_table v tab) v"
    if v: "v = pvEoa \<and> n = 6 \<and> w = pvPrime \<or> v = pvHex \<and> n = 9 \<and> w = pvHex" and h: "sint (h :: u16) = n"
      "h = (if v = pvEoa then 6 else 9)" "prp_version n = w" for n h w
  proof -
    have t: "parses (page_read_types n tab) (prp_version n) (classes_image v p) (page_table v tab) v"
      using parses_page_types_listed [OF ok v tab] h(3) by simp
    have nm: "parses (page_read_names L n old) v (names_image v p)
        (old\<lparr>p_age := p_age p, p_page := p_page p, p_loc := (p_loc p)\<lparr>l_ver := v\<rparr>\<rparr>) v"
      using v by (intro new) auto
    have c: "parses (if isMoul v then io_bind readShort (\<lambda>n. read_classes (unat n) (page_table v tab))
        else io_return (page_table v tab)) v [] (page_table v tab) v"
      using v by (auto simp: isMoul_def ver_neqs parses_return)
    have "5 \<le> n" using v by auto
    from parses_page_read_gen [OF h(1) this u t nm c, of w0 "p_checksum p" "p_dataStart p" "p_idxStart p"] v h(2)
    show ?thesis
      by (auto simp: page_image_def head_image_def page_upd_def ver_neqs release_preds)
  qed
  have SP: "parses (page_read L (old, tab)) w0 (page_image v p) (page_upd v old p, page_table v tab) v"
    if v: "v = pvPrime \<or> v = pvPots"
  proof -
    have nm: "parses (page_read_names L 5 old) pvPrime
        (names_image v p @ le16 63 @ le16 (word_of_int (revMinor v)) @ le32 (p_releaseVersion p) @ le32 (p_flags p))
        (old\<lparr>p_releaseVersion := p_releaseVersion p, p_flags := p_flags p, p_age := p_age p, p_page := p_page p,
          p_loc := (p_loc p)\<lparr>l_ver := v\<rparr>\<rparr>) v"
      using parses_page_names [OF ok isSafe_values(1) _ _ parses_page_version_SP [OF v]] v
      by (auto simp: release_preds)
    have c: "parses (if isMoul v then io_bind readShort (\<lambda>n. read_classes (unat n) tab) else io_return tab) v [] tab v"
      using v by (auto simp: isMoul_def ver_neqs parses_return)
    have t: "parses (page_read_types 5 tab) (prp_version 5) (le16 0) tab pvPrime"
      using parses_page_types(1) by (simp add: prp_version_def)
    have "sint (5 :: u16) = 5" "5 \<le> (5 :: int)" by simp_all
    from parses_page_read_gen [OF this u t nm c, of w0 "p_checksum p" "p_dataStart p" "p_idxStart p"] v
    show ?thesis
      using page_table_SP [OF D(1)] by (auto simp: page_image_def head_image_def page_upd_def ver_neqs release_preds le)
  qed
  from D(1) show ?thesis
  proof (cases rule: safe_cases)
    case Eoa
    then show ?thesis by (intro listed [of 6 pvPrime 6]) (simp_all add: prp_version_def)
  next
    case Hex
    then show ?thesis by (intro listed [of 9 pvHex 9]) (simp_all add: prp_version_def ver_neqs)
  next
    case Moul
    have names: "parses (page_read_names L 6 old) pvMoul (names_image v p @ le16 70)
        (old\<lparr>p_age := p_age p, p_page := p_page p, p_loc := (p_loc p)\<lparr>l_ver := v\<rparr>\<rparr>) v"
      using parses_page_names [OF ok _ _ _ parses_page_version_moul [of old, folded Moul]] Moul
      by (simp add: release_preds isSafe_values)
    have base: "SetCurrentVersionBase v tab = Inr (page_table v tab)"
      by (rule base_ok [OF D(1)]) (simp add: Moul release_preds)
    have "parses (read_classes (length (p_classList p)) (page_table v tab)) v
        (concat (map (class_image v) (p_classList p))) (page_table v tab) v"
      using ok by (intro parses_read_classes [OF base tab]) (simp add: page_ok_def Moul release_preds)
    then have cl: "parses (if isMoul v then io_bind readShort (\<lambda>n. read_classes (unat n) (page_table v tab))
        else io_return (page_table v tab)) v (classes_image v p) (page_table v tab) v"
      unfolding classes_image_def
      by (simp only: Moul isMoul_def if_True simp_thms, intro parses_bind [OF parses_prims(2)]) (simp only: D(7))
    have t: "parses (page_read_types 6 tab) (prp_version 6) (le16 0) (page_table v tab) pvMoul"
      using parses_page_types(2) by (simp add: prp_version_def Moul)
    have "sint (6 :: u16) = 6" "5 \<le> (6 :: int)" by simp_all
    from parses_page_read_gen [OF this u t names cl, of w0 "p_checksum p" "p_dataStart p" "p_idxStart p"] Moul
    show ?thesis
      by (simp add: page_image_def head_image_def page_upd_def ver_neqs le release_preds)
  qed (rule SP, simp)+
qed

interpretation page_info: codec page_write
  "\<lambda>old. io_bind (page_read L (old, tab)) (\<lambda>(p, _). io_return p)"
  "\<lambda>v p. page_ok L v p \<and> length tab = 1280" page_image page_upd for L tab
proof
  fix v p and old :: page_info
  assume ok: "page_ok L v p \<and> length tab = 1280"
  then show "\<exists>r. emits (page_write p) v (page_image v p) r v" using emits_page_write by blast
  from ok have r: "parses (page_read L (old, tab)) v (page_image v p) (page_upd v old p, page_table v tab) v"
    by (intro parses_page_read) simp_all
  from parses_bind [OF this, where f = "\<lambda>(p, _). io_return p" and cs = "[]"] show
    "parses (io_bind (page_read L (old, tab)) (\<lambda>(p, _). io_return p)) v (page_image v p) (page_upd v old p) v"
    by (simp add: parses_return)
qed

section \<open>Universal headers\<close>

text \<open>
  A safe string on a universal stream switches it to the oldest version, which then writes it.
\<close>

lemma emits_writeSafeStr_universal:
  assumes "length s < 4096"
  shows "emits (writeSafeStr s) pvUniversal (safe_str_image pvPrime s) () pvPrime"
proof -
  have "writeSafeStr s \<lparr>s_ver = pvUniversal, s_data = d, s_pos = n\<rparr> = writeSafeStr s \<lparr>s_ver = pvPrime, s_data = d, s_pos = n\<rparr>" for d n
    using safest_universal by (simp add: writeSafeStr_def io_simps isSafe_values isSafe_universal)
  with emitsD [OF emits_writeSafeStr [OF isSafe_values(1), of s]] assms show ?thesis
    by (simp add: emits_def release_preds)
qed

definition universal_image :: "page_info \<Rightarrow> bytes" where
  "universal_image p = le16 (-1) @ loc_image pvUniversal (p_loc p) @ safe_str_image pvPrime (p_age p) @
     safe_str_image pvPrime (p_page p) @ le32 (p_flags p) @ le32 (p_checksum p) @ le32 (p_dataStart p) @ le32 (p_idxStart p)"

lemma emits_page_write_universal:
  assumes "loc_ok pvUniversal (p_loc p)" "length (p_age p) < 4096" "length (p_page p) < 4096"
  shows "emits (page_write p) pvUniversal (universal_image p) (p\<lparr>p_loc := loc_write_ver pvUniversal (p_loc p)\<rparr>) pvPrime"
proof -
  note page_str = emits_writeSafeStr [OF isSafe_values(1), of "p_page p"]
  have names: "emits (page_write_names p) pvUniversal (loc_image pvUniversal (p_loc p) @ safe_str_image pvPrime (p_age p) @
      safe_str_image pvPrime (p_page p) @ []) (loc_write_ver pvUniversal (p_loc p)) pvPrime"
    unfolding page_write_names_def
    by (rule emits_bind [OF emits_loc_write [OF assms(1)]], rule emits_then [OF emits_writeSafeStr_universal [OF assms(2)]],
        rule emits_then [OF page_str emits_return]) (simp add: assms(3) release_preds)
  have head: "emits (page_write_head p) pvUniversal (le16 (-1) @ (loc_image pvUniversal (p_loc p) @
      safe_str_image pvPrime (p_age p) @ safe_str_image pvPrime (p_page p) @ []) @ le32 (p_flags p) @ [])
      (loc_write_ver pvUniversal (p_loc p)) pvPrime"
    unfolding page_write_head_def
    by (rule emits_ver, simp only: isUniversal_def simp_thms if_True)
      (rule emits_then [OF emits_prims(2)] emits_bind [OF names] emits_then [OF emits_prims(3)] emits_return)+
  have moul: "isMoul pvPrime = False" by (simp add: isMoul_def ver_neqs)
  show ?thesis
    unfolding page_write_def universal_image_def
    by (rule emits_cong, rule emits_bind [OF head], (rule emits_then [OF emits_prims(3)])+, rule emits_ver,
        unfold moul io_when_def if_False, rule emits_then [OF emits_return], rule emits_return) simp_all
qed

lemma universal_image_start: "take 2 (universal_image p) = [0xFF, 0xFF]"
proof -
  have "le16 (-1) = [0xFF, 0xFF]" by code_simp
  then show ?thesis by (simp add: universal_image_def)
qed

lemma page_read_universal:
  assumes d: "take 2 d = [0xFF, 0xFF]"
    and r: "page_read L (old, tab) \<lparr>s_ver = w, s_data = d, s_pos = 0\<rparr> = Inr ((p, tab'), s)"
  shows "p_loc p = p_loc old \<and> p_age p = p_age old \<and> p_page p = p_page old"
proof -
  from d have "2 \<le> length d" by (cases d; cases "tl d"; simp)
  with d have h: "readShort \<lparr>s_ver = w, s_data = d, s_pos = 0\<rparr> = Inr (0xFFFF, \<lparr>s_ver = w, s_data = d, s_pos = 2\<rparr>)"
    by (simp add: readShort_def io_simps st_read_def)
  have "sint (0xFFFF :: u16) = -1" by simp
  with r h show ?thesis
    by (auto simp: page_read_def io_simps prp_version_def page_read_types_def io_opt_def release_preds Let_def
        isUniversal_def isMoul_def ver_values split: sum.splits prod.splits)
qed

section \<open>Properties\<close>

text \<open>C7: A page header written for any of the five release versions is read back as the same header,
  byte for byte to its end, whatever version the reading stream claimed before: the reader finds the
  version from the header, and leaves the class version table as the version's own.\<close>

theorem page_header_roundtrip:
  assumes "page_ok L v p" "length tab = 1280" "length (page_image v p) < 2 ^ 32"
  shows "\<exists>p1 s. page_write p \<lparr>s_ver = v, s_data = [], s_pos = 0\<rparr> = Inr (p1, s) \<and>
     page_read L (old, tab) (s\<lparr>s_ver := w, s_pos := 0\<rparr>) = Inr ((page_upd v old p, page_table v tab), s) \<and>
     s_eof s"
  using emitsD [OF emits_page_write [OF assms(1)], of "[]"]
    parsesD [OF parses_page_read [OF assms(1,2)], of "[]" "[]" old w] assms(3)
  by (simp add: s_eof_def)

definition sample_page :: page_info where
  "sample_page = (page_named [65, 104] [66])\<lparr>p_loc := loc_setVirtual (loc_new pvEoa), p_classList := [1, 4],
     p_checksum := 9, p_dataStart := 30, p_idxStart := 40\<rparr>"

theorem page_header_roundtrip_witness:
  "\<exists>p1 p2 s. page_write sample_page \<lparr>s_ver = pvEoa, s_data = [], s_pos = 0\<rparr> = Inr (p1, s) \<and>
     page_read ascii_lib (page_new, fCurrentVerTable0) (s\<lparr>s_ver := pvUnknown, s_pos := 0\<rparr>)
       = Inr ((p2, page_table pvEoa fCurrentVerTable0), s) \<and> p_age p2 = [65, 104] \<and> p_idxStart p2 = 40"
proof -
  have tab: "length fCurrentVerTable0 = 1280" by (simp add: fCurrentVerTable0_def)
  have "st_valid ascii_lib [65, 104]" "st_valid ascii_lib [66]" "st_valid ascii_lib page_chapter" by code_simp+
  moreover have "class_ok pvEoa 1" "class_ok pvEoa 4" by code_simp+
  moreover have "loc_ok pvEoa (p_loc sample_page)" by code_simp
  ultimately have ok: "page_ok ascii_lib pvEoa sample_page"
    by (simp add: page_ok_def isSafe_values sample_page_def page_named_def safe_str_ok_def release_preds)
  have "length (loc_image pvEoa (p_loc sample_page)) = 5" by code_simp
  then have len: "length (page_image pvEoa sample_page) < 2 ^ 32"
    by (simp add: page_image_def head_image_def names_image_def classes_image_def class_image_def sample_page_def
        page_named_def release_preds safe_str_image_def)
  have "p_age (page_upd pvEoa page_new sample_page) = [65, 104]" "p_idxStart (page_upd pvEoa page_new sample_page) = 40"
    by (simp_all add: page_upd_def sample_page_def page_named_def)
  with page_header_roundtrip [OF ok tab, of page_new pvUnknown] len show ?thesis by force
qed

text \<open>A page header written on a universal stream is not one the reader understands: the location
  and the names are written, but the reader skips the part that reads them, so that it returns the
  page with the location and the names it had before.\<close>

theorem page_universal_lost:
  assumes "loc_ok pvUniversal (p_loc p)" "length (p_age p) < 4096" "length (p_page p) < 4096"
  shows "\<exists>p1 s. page_write p \<lparr>s_ver = pvUniversal, s_data = [], s_pos = 0\<rparr> = Inr (p1, s) \<and>
     (\<forall>L old tab q tab' s'. page_read L (old, tab) (s\<lparr>s_pos := 0\<rparr>) = Inr ((q, tab'), s') \<longrightarrow>
        p_loc q = p_loc old \<and> p_age q = p_age old \<and> p_page q = p_page old)"
  using emitsD [OF emits_page_write_universal [OF assms], of "[]"] page_read_universal [OF universal_image_start]
  by fastforce

theorem page_universal_lost_witness:
  "\<exists>p1 s. page_write sample_page \<lparr>s_ver = pvUniversal, s_data = [], s_pos = 0\<rparr> = Inr (p1, s) \<and>
     (\<forall>q tab' s'. page_read ascii_lib (page_new, []) (s\<lparr>s_pos := 0\<rparr>) = Inr ((q, tab'), s') \<longrightarrow> p_age q = [])"
proof -
  have "loc_ok pvUniversal (p_loc sample_page)" "length (p_age sample_page) < 4096" "length (p_page sample_page) < 4096"
    by (simp_all add: loc_ok_def isUniversal_def sample_page_def page_named_def loc_setVirtual_def kStateVirtual_def)
  from page_universal_lost [OF this] show ?thesis by (fastforce simp: page_new_def)
qed

end
