(* ===== verification/Keys.thy ===== *)
theory Keys
  imports Prelude "HOL-Library.Multiset"
begin

text \<open>
  The reference-counted key handles \<open>plKey\<close> and the load order \<open>hsOrderKeys\<close>
  (\<open>src/core/PRP/KeyedObject/plKey.h\<close>, \<open>plKey.cpp\<close>).
\<close>

section \<open>Reference counts\<close>

text \<open>
  \<open>cells\<close> gives the reference count of every live \<open>plKeyData\<close>, \<open>slots\<close> what every live \<open>plKey\<close>
  points to.  A count is a \<^typ>\<open>nat\<close>: the 32-bit counter would need that many live handles to
  wrap.  Using a deleted \<open>plKeyData\<close>, or counting below zero, is undefined.
\<close>

record key_heap =
  cells :: "nat \<Rightarrow> nat option"
  slots :: "nat \<Rightarrow> nat option option"

definition kd_new :: "nat \<Rightarrow> key_heap \<Rightarrow> key_heap" where
  "kd_new a h = h\<lparr>cells := (cells h)(a \<mapsto> 0)\<rparr>"

definition kd_Ref :: "nat \<Rightarrow> key_heap \<Rightarrow> key_heap result" where
  "kd_Ref a h = (case cells h a of None \<Rightarrow> Inl UndefinedBehaviour
     | Some n \<Rightarrow> Inr (h\<lparr>cells := (cells h)(a \<mapsto> n + 1)\<rparr>))"

definition kd_UnRef :: "nat \<Rightarrow> key_heap \<Rightarrow> key_heap result" where
  "kd_UnRef a h = (case cells h a of
       None \<Rightarrow> Inl UndefinedBehaviour
     | Some 0 \<Rightarrow> Inl UndefinedBehaviour
     | Some (Suc n) \<Rightarrow> Inr (h\<lparr>cells := (cells h)(a := (if n = 0 then None else Some n))\<rparr>))"

definition ref_opt :: "(nat \<Rightarrow> key_heap \<Rightarrow> key_heap result) \<Rightarrow> nat option \<Rightarrow> key_heap \<Rightarrow> key_heap result" where
  "ref_opt f p h = (case p of None \<Rightarrow> Inr h | Some a \<Rightarrow> f a h)"

definition put_slot :: "nat \<Rightarrow> nat option \<Rightarrow> key_heap \<Rightarrow> key_heap" where
  "put_slot s p h = h\<lparr>slots := (slots h)(s \<mapsto> p)\<rparr>"

text \<open>The constructors; \<open>s\<close> is the new handle.\<close>

definition key_null :: "nat \<Rightarrow> key_heap \<Rightarrow> key_heap" where
  "key_null s h = put_slot s None h"

definition key_of_data :: "nat \<Rightarrow> nat option \<Rightarrow> key_heap \<Rightarrow> key_heap result" where
  "key_of_data s p h = rbind (ref_opt kd_Ref p h) (\<lambda>h1. Inr (put_slot s p h1))"

definition key_copy :: "nat \<Rightarrow> nat \<Rightarrow> key_heap \<Rightarrow> key_heap result" where
  "key_copy s t h = (case slots h t of None \<Rightarrow> Inl UndefinedBehaviour | Some p \<Rightarrow> key_of_data s p h)"

definition key_move :: "nat \<Rightarrow> nat \<Rightarrow> key_heap \<Rightarrow> key_heap result" where
  "key_move s t h = (case slots h t of None \<Rightarrow> Inl UndefinedBehaviour
     | Some p \<Rightarrow> Inr (put_slot t None (put_slot s p h)))"

definition key_delete :: "nat \<Rightarrow> key_heap \<Rightarrow> key_heap result" where
  "key_delete s h = (case slots h s of None \<Rightarrow> Inl UndefinedBehaviour
     | Some p \<Rightarrow> rbind (ref_opt kd_UnRef p h) (\<lambda>h1. Inr (h1\<lparr>slots := (slots h1)(s := None)\<rparr>)))"

text \<open>The assignments to a live handle \<open>s\<close>.\<close>

definition key_assign_data :: "nat \<Rightarrow> nat option \<Rightarrow> key_heap \<Rightarrow> key_heap result" where
  "key_assign_data s q h = (case slots h s of None \<Rightarrow> Inl UndefinedBehaviour
     | Some p \<Rightarrow> if p = q then Inr h
         else rbind (ref_opt kd_Ref q h) (\<lambda>h1. rbind (ref_opt kd_UnRef p h1) (\<lambda>h2. Inr (put_slot s q h2))))"

definition key_assign :: "nat \<Rightarrow> nat \<Rightarrow> key_heap \<Rightarrow> key_heap result" where
  "key_assign s t h = (case slots h t of None \<Rightarrow> Inl UndefinedBehaviour | Some q \<Rightarrow> key_assign_data s q h)"

definition key_assign_move :: "nat \<Rightarrow> nat \<Rightarrow> key_heap \<Rightarrow> key_heap result" where
  "key_assign_move s t h = (case (slots h s, slots h t) of
       (Some _, Some q) \<Rightarrow> Inr (put_slot t None (put_slot s q h))
     | _ \<Rightarrow> Inl UndefinedBehaviour)"

text \<open>
  The invariant: counts are exact.  Data just created with \<open>new\<close> has count zero until the first
  handle takes it.
\<close>

definition owners :: "key_heap \<Rightarrow> nat \<Rightarrow> nat set" where
  "owners h a = {s. slots h s = Some (Some a)}"

definition count_ok :: "nat option \<Rightarrow> nat set \<Rightarrow> bool" where
  "count_ok c S \<longleftrightarrow> (case c of None \<Rightarrow> S = {} | Some n \<Rightarrow> card S = n)"

definition refs_ok :: "key_heap \<Rightarrow> bool" where
  "refs_ok h \<longleftrightarrow> finite (dom (slots h)) \<and>
     (\<forall>a. count_ok (cells h a) (owners h a))"

lemma finite_owners: "refs_ok h \<Longrightarrow> finite (owners h a)"
  by (rule finite_subset [of _ "dom (slots h)"]) (auto simp: refs_ok_def owners_def)

lemma owners_cells [simp]: "owners (h\<lparr>cells := c\<rparr>) a = owners h a"
  by (simp add: owners_def)

lemma owners_put:
  "owners (put_slot s p h) a = (if p = Some a then insert s (owners h a) else owners h a - {s})"
  by (auto simp: owners_def put_slot_def)

lemma owners_del: "owners (h\<lparr>slots := (slots h)(s := None)\<rparr>) a = owners h a - {s}"
  by (auto simp: owners_def)

lemma count_okE:
  assumes "count_ok c S"
  obtains "c = None" "S = {}" | n where "c = Some n" "card S = n"
  using assms by (cases c) (auto simp: count_ok_def)

lemma count_ok_Some [simp]: "count_ok (Some n) S \<longleftrightarrow> card S = n"
  by (simp add: count_ok_def)

lemma refs_ok_at: "refs_ok h \<Longrightarrow> count_ok (cells h a) (owners h a)"
  by (simp add: refs_ok_def)

lemma refs_okD:
  "refs_ok h \<Longrightarrow> cells h a = Some n \<Longrightarrow> card (owners h a) = n"
  "refs_ok h \<Longrightarrow> s \<in> owners h a \<Longrightarrow> \<exists>n. cells h a = Some (Suc n)"
proof -
  show "refs_ok h \<Longrightarrow> cells h a = Some n \<Longrightarrow> card (owners h a) = n"
    using refs_ok_at [of h a] by simp
  assume ok: "refs_ok h" and s: "s \<in> owners h a"
  from refs_ok_at [OF ok, of a] show "\<exists>n. cells h a = Some (Suc n)"
  proof (cases rule: count_okE)
    case (2 n)
    with finite_owners [OF ok, of a] s have "n \<noteq> 0" by (auto simp: card_gt_0_iff)
    with 2 show ?thesis by (cases n) simp_all
  qed (use s in simp)
qed

text \<open>Every operation moves one handle from \<open>p\<close> to \<open>q\<close>.\<close>

lemma retarget:
  assumes ok: "refs_ok h" and p: "\<And>a. s \<in> owners h a \<longleftrightarrow> p = Some a" and pq: "p \<noteq> q"
    and q: "\<And>b. q = Some b \<Longrightarrow> cells h b \<noteq> None"
  shows "\<exists>h1 h2. ref_opt kd_Ref q h = Inr h1 \<and> ref_opt kd_UnRef p h1 = Inr h2 \<and> slots h2 = slots h \<and>
    refs_ok (put_slot s q h2) \<and> (q = None \<longrightarrow> refs_ok (h2\<lparr>slots := (slots h2)(s := None)\<rparr>))"
proof -
  define c1 where "c1 = (case q of None \<Rightarrow> cells h | Some b \<Rightarrow> (cells h)(b \<mapsto> the (cells h b) + 1))"
  define c2 where "c2 = (case p of None \<Rightarrow> c1
    | Some a \<Rightarrow> c1(a := (if the (cells h a) = 1 then None else Some (the (cells h a) - 1))))"
  have h1: "ref_opt kd_Ref q h = Inr (h\<lparr>cells := c1\<rparr>)"
    using q by (cases q) (auto simp: ref_opt_def kd_Ref_def c1_def)
  have h2: "ref_opt kd_UnRef p (h\<lparr>cells := c1\<rparr>) = Inr (h\<lparr>cells := c2\<rparr>)"
  proof (cases p)
    case (Some a)
    with refs_okD(2) [OF ok] p obtain n where n: "cells h a = Some (Suc n)" by blast
    with pq Some have "c1 a = Some (Suc n)" by (auto simp: c1_def split: option.split)
    with n Some show ?thesis by (simp add: ref_opt_def kd_UnRef_def c2_def)
  qed (simp add: ref_opt_def c2_def)
  have fin: "finite (owners h a)" for a by (rule finite_owners [OF ok])
  have card: "count_ok (c2 a) (if q = Some a then insert s (owners h a) else owners h a - {s})"
    (is "count_ok _ ?o") for a
  proof -
    consider "q = Some a" | "p = Some a" "q \<noteq> Some a" | "p \<noteq> Some a" "q \<noteq> Some a" by blast
    then show ?thesis
    proof cases
      case 1
      with q obtain n where n: "cells h a = Some n" by blast
      have "s \<notin> owners h a" using p pq 1 by auto
      with 1 n refs_okD(1) [OF ok n] fin pq show ?thesis
        by (auto simp: count_ok_def c2_def c1_def split: option.split)
    next
      case 2
      with p have s: "s \<in> owners h a" by simp
      with refs_okD(2) [OF ok] obtain n where n: "cells h a = Some (Suc n)" by blast
      with refs_okD(1) [OF ok n] s fin [of a] have "card (owners h a - {s}) = n" by simp
      with 2 n fin [of a] show ?thesis by (auto simp: count_ok_def c2_def)
    next
      case 3
      then have "s \<notin> owners h a" using p by simp
      moreover have "c2 a = cells h a" using 3 by (auto simp: c2_def c1_def split: option.split)
      ultimately show ?thesis using 3 ok by (simp add: refs_ok_def)
    qed
  qed
  have dom: "finite (dom (slots h))" using ok by (simp add: refs_ok_def)
  have "refs_ok (put_slot s q (h\<lparr>cells := c2\<rparr>))"
    unfolding refs_ok_def owners_put owners_cells
    using card dom by (simp add: put_slot_def split del: if_split)
  moreover have "refs_ok (h\<lparr>cells := c2, slots := (slots h)(s := None)\<rparr>)" if "q = None"
  proof -
    have "owners (h\<lparr>cells := c2, slots := (slots h)(s := None)\<rparr>) a = owners h a - {s}" for a
      by (auto simp: owners_def)
    with card that dom show ?thesis by (simp add: refs_ok_def)
  qed
  ultimately show ?thesis using h1 h2 by simp
qed

text \<open>So every operation but the move assignment keeps the counts exact.\<close>

lemma target_live: "refs_ok h \<Longrightarrow> slots h t = Some (Some b) \<Longrightarrow> cells h b \<noteq> None"
  using refs_okD(2) [of h t b] by (auto simp: owners_def)

lemma owns_iff: "slots h s = Some p \<Longrightarrow> s \<in> owners h a \<longleftrightarrow> p = Some a"
  by (auto simp: owners_def)

lemma owns_none: "slots h s = None \<Longrightarrow> s \<in> owners h a \<longleftrightarrow> None = Some a"
  by (auto simp: owners_def)

lemma refs_ok_null:
  assumes "refs_ok h" "slots h s = None \<or> slots h s = Some None"
  shows "refs_ok (put_slot s None h)"
proof -
  have "owners (put_slot s None h) a = owners h a" for a
    using assms(2) by (auto simp: put_slot_def owners_def)
  then show ?thesis using assms(1) by (simp add: refs_ok_def) (simp add: put_slot_def)
qed

lemma refs_ok_assign_data:
  assumes "refs_ok h" "slots h s \<noteq> None" "\<And>b. q = Some b \<Longrightarrow> cells h b \<noteq> None"
  shows "\<exists>h'. key_assign_data s q h = Inr h' \<and> refs_ok h' \<and> slots h' = (slots h)(s \<mapsto> q)"
proof -
  obtain p where p: "slots h s = Some p" using assms(2) by blast
  show ?thesis
  proof (cases "p = q")
    case True
    with p assms(1) show ?thesis by (auto simp: key_assign_data_def fun_upd_idem)
  next
    case False
    from retarget [OF assms(1) owns_iff [OF p] False assms(3)] p False show ?thesis
      by (auto simp: key_assign_data_def put_slot_def)
  qed
qed

lemma refs_ok_of_data:
  assumes "refs_ok h" "slots h s = None" "\<And>b. q = Some b \<Longrightarrow> cells h b \<noteq> None"
  shows "\<exists>h'. key_of_data s q h = Inr h' \<and> refs_ok h' \<and> slots h' = (slots h)(s \<mapsto> q)"
proof (cases q)
  case None
  with refs_ok_null [OF assms(1)] assms(2) show ?thesis
    by (simp add: key_of_data_def ref_opt_def put_slot_def)
next
  case (Some b)
  then have "None \<noteq> q" by simp
  from retarget [OF assms(1) owns_none [OF assms(2)] this assms(3)] Some show ?thesis
    by (auto simp: key_of_data_def ref_opt_def put_slot_def)
qed

lemma refs_ok_delete:
  assumes "refs_ok h" "slots h s \<noteq> None"
  shows "\<exists>h'. key_delete s h = Inr h' \<and> refs_ok h' \<and> slots h' = (slots h)(s := None)"
proof -
  obtain p where p: "slots h s = Some p" using assms(2) by blast
  show ?thesis
  proof (cases p)
    case None
    have "owners (h\<lparr>slots := (slots h)(s := None)\<rparr>) a = owners h a" for a
      using p None by (auto simp: owners_def)
    then have "refs_ok (h\<lparr>slots := (slots h)(s := None)\<rparr>)" using assms(1) by (simp add: refs_ok_def)
    with p None show ?thesis by (simp add: key_delete_def ref_opt_def)
  next
    case (Some a)
    then have "p \<noteq> None" by simp
    from retarget [OF assms(1) owns_iff [OF p] this] p Some show ?thesis
      by (auto simp: key_delete_def ref_opt_def)
  qed
qed

lemma refs_ok_move:
  assumes "refs_ok h" "slots h t \<noteq> None" "slots h s = None"
  shows "\<exists>h'. key_move s t h = Inr h' \<and> refs_ok h'"
proof -
  obtain p where p: "slots h t = Some p" using assms(2) by blast
  let ?h = "put_slot t None (put_slot s p h)"
  have st: "s \<noteq> t" using assms by auto
  have "card (owners ?h a) = card (owners h a) \<and> (owners h a = {} \<longrightarrow> owners ?h a = {})" for a
  proof (cases "p = Some a")
    case True
    with p have t: "t \<in> owners h a" by (simp add: owners_def)
    have "s \<notin> owners h a" using assms(3) by (simp add: owners_def)
    moreover have "owners ?h a = insert s (owners h a - {t})"
      using True st by (auto simp: owners_put)
    ultimately show ?thesis
      using t finite_owners [OF assms(1), of a] card_Suc_Diff1 [of "owners h a" t] by auto
  next
    case False
    with p assms(3) have "owners ?h a = owners h a" by (auto simp: put_slot_def owners_def)
    then show ?thesis by simp
  qed
  moreover have "cells ?h = cells h" "finite (dom (slots ?h))"
    using assms(1) by (simp_all add: put_slot_def refs_ok_def)
  moreover have "count_ok c S'" if "count_ok c S" "card S' = card S \<and> (S = {} \<longrightarrow> S' = {})" for c S S'
    using that by (cases rule: count_okE [OF that(1)]) (auto simp: count_ok_def)
  ultimately have "refs_ok ?h"
    using refs_ok_at [OF assms(1)] unfolding refs_ok_def by metis
  with p show ?thesis by (simp add: key_move_def)
qed

text \<open>
  The move assignment drops what the target held without counting it down: only a null target
  keeps the counts exact.
\<close>

lemma refs_ok_assign_move:
  assumes "refs_ok h" "slots h s = Some None" "slots h t \<noteq> None" "s \<noteq> t"
  shows "\<exists>h'. key_assign_move s t h = Inr h' \<and> refs_ok h'"
proof -
  obtain p where p: "slots h t = Some p" using assms(3) by blast
  have "refs_ok (h\<lparr>slots := (slots h)(s := None)\<rparr>)"
    using refs_ok_delete [OF assms(1), of s] assms(2) by (simp add: key_delete_def ref_opt_def)
  from refs_ok_move [OF this, of t s] p assms(2,4) show ?thesis
    by (auto simp: key_assign_move_def key_move_def put_slot_def)
qed

lemma assign_move_leaks:
  assumes "refs_ok h" "slots h s = Some (Some a)" "slots h t = Some q" "q \<noteq> Some a" "s \<noteq> t"
  shows "\<exists>h' n. key_assign_move s t h = Inr h' \<and> cells h' a = Some n \<and> card (owners h' a) < n"
proof -
  let ?h = "put_slot t None (put_slot s q h)"
  have s: "s \<in> owners h a" using assms(2) by (simp add: owners_def)
  have "owners ?h a \<subseteq> owners h a - {s}"
    using assms(4,5) by (auto simp: owners_put)
  then have "card (owners ?h a) \<le> card (owners h a - {s})"
    using finite_owners [OF assms(1), of a] by (intro card_mono) auto
  moreover have "card (owners h a - {s}) < card (owners h a)"
    using s finite_owners [OF assms(1), of a] by (intro card_Diff1_less)
  moreover obtain n where "cells h a = Some n" using refs_okD(2) [OF assms(1) s] by blast
  ultimately show ?thesis
    using assms(2,3) refs_okD(1) [OF assms(1)] by (auto simp: key_assign_move_def put_slot_def)
qed

section \<open>Programs over keys\<close>

text \<open>
  What a program does with keys, one operation at a time: handles are built once and used while
  they live, data is created fresh, and a handle is only moved into when it is null.
\<close>

definition heap_empty :: key_heap where
  "heap_empty = \<lparr>cells = \<lambda>_. None, slots = \<lambda>_. None\<rparr>"

inductive key_step :: "key_heap \<Rightarrow> key_heap \<Rightarrow> bool" where
  step_new: "cells h a = None \<Longrightarrow> key_step h (kd_new a h)"
| step_null: "slots h s = None \<Longrightarrow> key_step h (key_null s h)"
| step_of_data: "slots h s = None \<Longrightarrow> (\<And>b. q = Some b \<Longrightarrow> cells h b \<noteq> None) \<Longrightarrow>
    key_of_data s q h = Inr h' \<Longrightarrow> key_step h h'"
| step_copy: "slots h s = None \<Longrightarrow> key_copy s t h = Inr h' \<Longrightarrow> key_step h h'"
| step_move: "slots h s = None \<Longrightarrow> key_move s t h = Inr h' \<Longrightarrow> key_step h h'"
| step_assign: "key_assign s t h = Inr h' \<Longrightarrow> key_step h h'"
| step_assign_data: "(\<And>b. q = Some b \<Longrightarrow> cells h b \<noteq> None) \<Longrightarrow>
    key_assign_data s q h = Inr h' \<Longrightarrow> key_step h h'"
| step_assign_move: "slots h s = Some None \<Longrightarrow> s \<noteq> t \<Longrightarrow> key_assign_move s t h = Inr h' \<Longrightarrow> key_step h h'"
| step_delete: "key_delete s h = Inr h' \<Longrightarrow> key_step h h'"

inductive key_reach :: "key_heap \<Rightarrow> bool" where
  reach_empty: "key_reach heap_empty"
| reach_step: "key_reach h \<Longrightarrow> key_step h h' \<Longrightarrow> key_reach h'"

lemma refs_ok_empty: "refs_ok heap_empty"
  by (simp add: refs_ok_def heap_empty_def owners_def count_ok_def)

lemma refs_ok_new: "refs_ok h \<Longrightarrow> cells h a = None \<Longrightarrow> refs_ok (kd_new a h)"
  using refs_ok_at [of h a] by (auto simp: refs_ok_def kd_new_def count_ok_def)

lemma refs_ok_step:
  assumes "key_step h h'" "refs_ok h"
  shows "refs_ok h'"
  using assms
proof (induction rule: key_step.induct)
  case (step_new h a)
  then show ?case by (simp add: refs_ok_new)
next
  case (step_null h s)
  then show ?case by (simp add: key_null_def refs_ok_null)
next
  case (step_of_data h s q h')
  with refs_ok_of_data [of h s q] show ?case by auto
next
  case (step_copy h s t h')
  then obtain p where "slots h t = Some p" "key_of_data s p h = Inr h'"
    by (auto simp: key_copy_def split: option.splits)
  with step_copy refs_ok_of_data [of h s p] target_live [of h t] show ?case by auto
next
  case (step_move h s t h')
  then have "slots h t \<noteq> None" by (auto simp: key_move_def split: option.splits)
  with step_move refs_ok_move [of h t s] show ?case by auto
next
  case (step_assign s t h h')
  then obtain q where q: "slots h t = Some q" "key_assign_data s q h = Inr h'"
    by (auto simp: key_assign_def split: option.splits)
  then have "slots h s \<noteq> None" by (auto simp: key_assign_data_def split: option.splits)
  with q step_assign refs_ok_assign_data [of h s q] target_live [of h t] show ?case by auto
next
  case (step_assign_data q h s h')
  then have "slots h s \<noteq> None" by (auto simp: key_assign_data_def split: option.splits)
  with step_assign_data refs_ok_assign_data [of h s q] show ?case by auto
next
  case (step_assign_move h s t h')
  then have "slots h t \<noteq> None" by (auto simp: key_assign_move_def split: option.splits)
  with step_assign_move refs_ok_assign_move [of h s t] show ?case by auto
next
  case (step_delete s h h')
  then have "slots h s \<noteq> None" by (auto simp: key_delete_def split: option.splits)
  with step_delete refs_ok_delete [of h s] show ?case by auto
qed

lemma refs_ok_reach: "key_reach h \<Longrightarrow> refs_ok h"
  by (induction rule: key_reach.induct) (auto intro: refs_ok_empty refs_ok_step)

section \<open>Load order\<close>

text \<open>
  \<open>orderAfter\<close> is a virtual method of the objects; \<open>obj_after\<close> stands for it.  A key here is null,
  or an address with the object loaded for it, if any.
\<close>

type_synonym 'o okey = "(nat \<times> 'o option) option"

definition key_orderAfter :: "('o \<Rightarrow> 'o \<Rightarrow> bool) \<Rightarrow> 'o okey \<Rightarrow> 'o okey \<Rightarrow> bool" where
  "key_orderAfter obj_after a b =
     (case (a, b) of (Some (_, Some x), Some (_, Some y)) \<Rightarrow> obj_after x y | _ \<Rightarrow> False)"

text \<open>The search for the lowest key: \<open>low\<close> and \<open>i\<close> are the two iterators.\<close>

partial_function (option) scan_lowest :: "('k \<Rightarrow> 'k \<Rightarrow> bool) \<Rightarrow> 'k list \<Rightarrow> nat \<Rightarrow> nat \<Rightarrow> nat option" where
  "scan_lowest after input low i =
     (if i \<ge> length input then Some low
      else if after (input ! low) (input ! i) then scan_lowest after input i 0
      else scan_lowest after input low (i + 1))"

partial_function (option) order_loop :: "('k \<Rightarrow> 'k \<Rightarrow> bool) \<Rightarrow> 'k list \<Rightarrow> 'k list \<Rightarrow> 'k list option" where
  "order_loop after input acc =
     (if input = [] then Some acc
      else Option.bind (scan_lowest after input 0 0) (\<lambda>low.
        order_loop after (take low input @ drop (low + 1) input) (acc @ [input ! low])))"

definition hsOrderKeys :: "('k \<Rightarrow> 'k \<Rightarrow> bool) \<Rightarrow> 'k list \<Rightarrow> 'k list option" where
  "hsOrderKeys after keys = order_loop after keys []"

declare scan_lowest.simps [code] order_loop.simps [code]

text \<open>The relation the search follows, restricted to the keys at hand.\<close>

definition after_on :: "('k \<Rightarrow> 'k \<Rightarrow> bool) \<Rightarrow> 'k set \<Rightarrow> ('k \<times> 'k) set" where
  "after_on after S = {(y, x). x \<in> S \<and> y \<in> S \<and> after x y}"

lemma after_on_wf: "finite S \<Longrightarrow> acyclic (after_on after S) \<Longrightarrow> wf (after_on after S)"
  by (rule finite_acyclic_wf) (auto intro: finite_subset [of _ "S \<times> S"] simp: after_on_def)

lemma scan_lowest_finds:
  assumes "acyclic (after_on after (set input))" "low < length input" "i \<le> length input"
    "\<forall>k < i. \<not> after (input ! low) (input ! k)"
  shows "\<exists>l < length input. scan_lowest after input low i = Some l \<and>
    (\<forall>k < length input. \<not> after (input ! l) (input ! k))"
proof -
  have wf: "wf (after_on after (set input))" using assms(1) by (simp add: after_on_wf)
  show ?thesis
    using wf assms(2-)
  proof (induction "input ! low" arbitrary: low i rule: wf_induct_rule)
    case less
    note outer = less.hyps
    from less.prems show ?case
    proof (induction "length input - i" arbitrary: i)
      case 0
      then show ?case by (subst scan_lowest.simps) (intro exI [of _ low], simp)
    next
      case (Suc n)
      then have i: "i < length input" by simp
      show ?case
      proof (cases "after (input ! low) (input ! i)")
        case True
        with i Suc.prems have "(input ! i, input ! low) \<in> after_on after (set input)"
          by (simp add: after_on_def)
        from outer [OF this i] obtain l where "l < length input" "scan_lowest after input i 0 = Some l"
          "\<forall>k < length input. \<not> after (input ! l) (input ! k)" by auto
        with True i show ?thesis by (subst scan_lowest.simps) auto
      next
        case False
        have "n = length input - (i + 1)" "i + 1 \<le> length input" using Suc.hyps(2) i by simp_all
        moreover have "\<forall>k < i + 1. \<not> after (input ! low) (input ! k)"
          using Suc.prems(3) False by (simp add: less_Suc_eq)
        ultimately obtain l where "l < length input" "scan_lowest after input low (i + 1) = Some l"
          "\<forall>k < length input. \<not> after (input ! l) (input ! k)"
          using Suc.hyps(1) Suc.prems(1) by blast
        with False i show ?thesis by (subst scan_lowest.simps) auto
      qed
    qed
  qed
qed

text \<open>No key comes before one it must follow.\<close>

definition in_order :: "('k \<Rightarrow> 'k \<Rightarrow> bool) \<Rightarrow> 'k list \<Rightarrow> bool" where
  "in_order after ks \<longleftrightarrow> sorted_wrt (\<lambda>x y. \<not> after x y) ks"

lemma after_on_mono: "S \<subseteq> T \<Longrightarrow> acyclic (after_on after T) \<Longrightarrow> acyclic (after_on after S)"
  by (erule acyclic_subset) (auto simp: after_on_def)

lemma order_loop_ok:
  assumes "acyclic (after_on after (set input))" "in_order after acc"
    "\<forall>x \<in> set acc. \<forall>y \<in> set input. \<not> after x y"
  shows "\<exists>r. order_loop after input acc = Some r \<and> mset r = mset acc + mset input \<and> in_order after r"
  using assms
proof (induction "length input" arbitrary: input acc)
  case 0
  then show ?case by (subst order_loop.simps) simp
next
  case (Suc n)
  then have ne: "input \<noteq> []" by auto
  with scan_lowest_finds [OF Suc.prems(1), of 0 0] obtain l where
    l: "l < length input" "scan_lowest after input 0 0 = Some l"
      "\<forall>k < length input. \<not> after (input ! l) (input ! k)" by auto
  let ?in = "take l input @ drop (l + 1) input" and ?acc = "acc @ [input ! l]"
  have split: "input = take l input @ input ! l # drop (l + 1) input"
    using id_take_nth_drop [OF l(1)] by simp
  have sub: "set ?in \<subseteq> set input" by (auto dest: in_set_takeD in_set_dropD)
  have low: "\<forall>y \<in> set input. \<not> after (input ! l) y" using l(3) by (metis in_set_conv_nth)
  have "n = length ?in" using Suc.hyps(2) l(1) by simp
  moreover have "acyclic (after_on after (set ?in))" by (rule after_on_mono [OF sub Suc.prems(1)])
  moreover have "in_order after ?acc"
    using Suc.prems(2,3) l(1) by (simp add: in_order_def sorted_wrt_append)
  moreover have "\<forall>x \<in> set ?acc. \<forall>y \<in> set ?in. \<not> after x y"
    using Suc.prems(3) sub low by auto
  ultimately obtain r where r: "order_loop after ?in ?acc = Some r"
    "mset r = mset ?acc + mset ?in" "in_order after r" using Suc.hyps(1) by blast
  have "mset input = add_mset (input ! l) (mset ?in)"
    by (subst split) simp
  with r l(2) ne show ?case by (subst order_loop.simps) simp
qed

text \<open>Keys already in order stay as they are.\<close>

lemma scan_first:
  assumes "input \<noteq> []" "\<forall>k < length input. \<not> after (input ! 0) (input ! k)" "i \<le> length input"
  shows "scan_lowest after input 0 i = Some 0"
  using assms(3)
proof (induction "length input - i" arbitrary: i)
  case 0
  then show ?case by (subst scan_lowest.simps) simp
next
  case (Suc n)
  then have "n = length input - (i + 1)" "i + 1 \<le> length input" "i < length input" by simp_all
  with Suc.hyps(1) [of "i + 1"] assms(2) show ?case by (subst scan_lowest.simps) simp
qed

lemma order_loop_stable:
  "in_order after input \<Longrightarrow> \<forall>x \<in> set input. \<not> after x x \<Longrightarrow> order_loop after input acc = Some (acc @ input)"
proof (induction input arbitrary: acc)
  case Nil
  then show ?case by (subst order_loop.simps) simp
next
  case (Cons x xs)
  have "scan_lowest after (x # xs) 0 0 = Some 0"
    by (rule scan_first) (use Cons.prems in \<open>auto simp: in_order_def nth_Cons split: nat.splits\<close>)
  with Cons show ?case by (subst order_loop.simps) (simp add: in_order_def)
qed

section \<open>Properties\<close>



text \<open>C29: The one operation outside that discipline: moving into a handle that already holds other
  data never counts that data down, so its count stays above the number of its handles.\<close>

theorem key_move_assign_leaks:
  assumes "key_reach h" "slots h s = Some (Some a)" "slots h t = Some q" "q \<noteq> Some a" "s \<noteq> t"
  shows "\<exists>h' n. key_assign_move s t h = Inr h' \<and> cells h' a = Some n \<and>
     card {s. slots h' s = Some (Some a)} < n"
  using assign_move_leaks [OF refs_ok_reach [OF assms(1)] assms(2-)] by (simp add: owners_def)

theorem key_move_assign_leaks_witness:
  "\<exists>h h' n. key_assign_move 0 1 h = Inr h' \<and> cells h' 0 = Some n \<and>
     card {s. slots h' s = Some (Some 0)} < n"
proof -
  let ?h1 = "kd_new 0 heap_empty"
  obtain h2 where h2: "key_of_data 0 (Some 0) ?h1 = Inr h2" "slots h2 = [0 \<mapsto> Some 0]"
    by (simp add: key_of_data_def ref_opt_def kd_Ref_def kd_new_def heap_empty_def put_slot_def)
  have "key_reach ?h1" by (rule reach_step [OF reach_empty step_new]) (simp add: heap_empty_def)
  moreover have "key_step ?h1 h2"
    by (rule step_of_data [OF _ _ h2(1)]) (auto simp: kd_new_def heap_empty_def)
  ultimately have "key_reach h2" by (rule reach_step)
  moreover have "key_step h2 (key_null 1 h2)" by (rule step_null) (simp add: h2)
  ultimately have "key_reach (key_null 1 h2)" by (rule reach_step)
  from key_move_assign_leaks [OF this, of 0 0 1 None] h2 show ?thesis
    by (auto simp: key_null_def put_slot_def)
qed

text \<open>C6: When no loaded object is to be ordered, through others, after itself, \<open>hsOrderKeys\<close>
  returns: the same keys, and no key before one it must follow.\<close>

theorem hsOrderKeys_sorts:
  assumes "acyclic {(y, x). x \<in> set keys \<and> y \<in> set keys \<and> key_orderAfter obj_after x y}"
  shows "\<exists>r. hsOrderKeys (key_orderAfter obj_after) keys = Some r \<and> mset r = mset keys \<and>
     (\<forall>i j. i < j \<and> j < length r \<longrightarrow> \<not> key_orderAfter obj_after (r ! i) (r ! j))"
  using order_loop_ok [of "key_orderAfter obj_after" keys "[]"] assms
  by (auto simp: after_on_def hsOrderKeys_def in_order_def sorted_wrt_iff_nth_less)

theorem hsOrderKeys_sorts_witness:
  "\<exists>r. hsOrderKeys (key_orderAfter (\<lambda>(x :: nat) y. y < x)) [Some (0, Some 3), None, Some (1, Some 2)] = Some r
     \<and> mset r = {#Some (0, Some 3), None, Some (1, Some 2)#}"
proof -
  let ?ks = "[Some (0, Some 3), None, Some (1, Some 2)] :: nat okey list"
  let ?m = "\<lambda>k :: nat okey. case k of Some (_, Some n) \<Rightarrow> n | _ \<Rightarrow> 0"
  have "acyclic {(y, x). x \<in> set ?ks \<and> y \<in> set ?ks \<and> key_orderAfter (\<lambda>x y. y < x) x y}"
    by (rule acyclic_subset [OF wf_acyclic [OF wf_measure [of ?m]]])
      (auto simp: key_orderAfter_def)
  from hsOrderKeys_sorts [OF this] show ?thesis by auto
qed

text \<open>C26: Keys that are already in order are returned as they came: the sort is stable.\<close>

theorem hsOrderKeys_stable:
  assumes "\<And>i j. i \<le> j \<Longrightarrow> j < length keys \<Longrightarrow> \<not> key_orderAfter obj_after (keys ! i) (keys ! j)"
  shows "hsOrderKeys (key_orderAfter obj_after) keys = Some keys"
proof -
  have "\<forall>x \<in> set keys. \<not> key_orderAfter obj_after x x"
    using assms by (metis in_set_conv_nth order_refl)
  with order_loop_stable [of "key_orderAfter obj_after" keys "[]"] assms show ?thesis
    by (simp add: hsOrderKeys_def in_order_def sorted_wrt_iff_nth_less)
qed

theorem hsOrderKeys_stable_witness:
  "hsOrderKeys (key_orderAfter (\<lambda>(x :: nat) y. y < x)) [Some (4, Some 1), Some (2, Some 1)]
     = Some [Some (4, Some 1), Some (2, Some 1)]"
  by (rule hsOrderKeys_stable) (auto simp: key_orderAfter_def less_Suc_eq nth_Cons split: nat.splits)

end
