(* ===== verification/KeyCollector.thy ===== *)
theory KeyCollector
  imports Uoid "HOL-Library.Product_Lexorder" "HOL-Library.Multiset" "HOL-Library.Sublist"
begin

text \<open>
  The key store \<open>plKeyCollector\<close> (\<open>src/core/ResManager/plKeyCollector.h\<close>, \<open>.cpp\<close>): for each page
  location and class, the vector of the keys registered there.

  A \<open>std::map\<close> is the list of its entries in key order.  \<open>plLocation::operator<\<close>, which the outer
  map is sorted by, compares the sequence prefix and the page number only, so a location is looked
  up by that pair; the entry keeps the location it was made with.  \<open>operator[]\<close> inserts an empty
  entry for a key that is missing, as the code does on every access, reads included.

  Key data lives in cells, named by their addresses.  The object a key points to is of any type
  \<open>'o\<close>; \<open>okeys\<close> gives the keys that an object holds handles to, which its destructor counts down.
\<close>

section \<open>Maps in key order\<close>

fun om_put :: "'k::linorder \<Rightarrow> 'v \<Rightarrow> ('k \<times> 'v) list \<Rightarrow> ('k \<times> 'v) list" where
  "om_put k v [] = [(k, v)]"
| "om_put k v ((j, w) # r) =
     (if k < j then (k, v) # (j, w) # r else if k = j then (k, v) # r else (j, w) # om_put k v r)"

definition om_erase :: "'k \<Rightarrow> ('k \<times> 'v) list \<Rightarrow> ('k \<times> 'v) list" where
  "om_erase k m = filter (\<lambda>e. fst e \<noteq> k) m"

lemma map_of_om_put [simp]: "map_of (om_put k v m) = (map_of m)(k \<mapsto> v)"
  by (induction m) (auto simp: fun_eq_iff)

lemma map_of_om_erase [simp]: "map_of (om_erase k m) = (map_of m)(k := None)"
  by (induction m) (auto simp: om_erase_def fun_eq_iff)

lemma set_keys_om_put [simp]: "fst ` set (om_put k v m) = insert k (fst ` set m)"
  by (induction k v m rule: om_put.induct) auto

lemma sorted_om_put: "sorted_wrt (<) (map fst m) \<Longrightarrow> sorted_wrt (<) (map fst (om_put k v m))"
proof (induction k v m rule: om_put.induct)
  case (2 k v j w r)
  then have "\<not> k < j \<Longrightarrow> k \<noteq> j \<Longrightarrow> \<forall>y \<in> fst ` set (om_put k v r). j < y" by auto
  with 2 show ?case by auto
qed simp

section \<open>State\<close>

record 'o key_cell =
  kc_data :: pl_key_data
  kc_obj :: "'o option"
  kc_refs :: nat

record key_vec =
  kv_keys :: "nat list"
  kv_flags :: u32

definition kv_new :: key_vec where "kv_new = \<lparr>kv_keys = [], kv_flags = 0\<rparr>"

definition kNotOptimized :: u32 where "kNotOptimized = 0x01"

type_synonym 'o cells = "nat \<Rightarrow> 'o key_cell"
type_synonym keymap = "((int \<times> int) \<times> pl_location \<times> (int \<times> key_vec) list) list"

record 'o key_store =
  ks_cells :: "'o cells"
  ks_next :: nat
  ks_keys :: keymap

definition loc_key :: "pl_location \<Rightarrow> int \<times> int" where
  "loc_key l = (fSeqPrefix l, fPageNum l)"

definition ks_types :: "pl_location \<Rightarrow> 'o key_store \<Rightarrow> pl_location \<times> (int \<times> key_vec) list" where
  "ks_types l st = (case map_of (ks_keys st) (loc_key l) of None \<Rightarrow> (l, []) | Some e \<Rightarrow> e)"

definition ks_vec :: "pl_location \<Rightarrow> int \<Rightarrow> 'o key_store \<Rightarrow> key_vec" where
  "ks_vec l t st = (case map_of (snd (ks_types l st)) t of None \<Rightarrow> kv_new | Some kv \<Rightarrow> kv)"

definition ks_put :: "pl_location \<Rightarrow> int \<Rightarrow> key_vec \<Rightarrow> 'o key_store \<Rightarrow> 'o key_store" where
  "ks_put l t kv st = (case ks_types l st of (l0, m) \<Rightarrow>
     st\<lparr>ks_keys := om_put (loc_key l) (l0, om_put t kv m) (ks_keys st)\<rparr>)"

definition ks_touch :: "pl_location \<Rightarrow> int \<Rightarrow> 'o key_store \<Rightarrow> 'o key_store" where
  "ks_touch l t st = ks_put l t (ks_vec l t st) st"

definition set_flag :: "u32 \<Rightarrow> bool \<Rightarrow> key_vec \<Rightarrow> key_vec" where
  "set_flag f on kv = kv\<lparr>kv_flags := (if on then kv_flags kv OR f else kv_flags kv AND NOT f)\<rparr>"

text \<open>Fields of a key's data.\<close>

definition ks_uoid :: "'o key_store \<Rightarrow> nat \<Rightarrow> pl_uoid" where
  "ks_uoid st a = k_uoid (kc_data (ks_cells st a))"
definition ks_id :: "'o key_store \<Rightarrow> nat \<Rightarrow> u32" where "ks_id st a = u_objID (ks_uoid st a)"
definition ks_loc :: "'o key_store \<Rightarrow> nat \<Rightarrow> pl_location" where "ks_loc st a = u_location (ks_uoid st a)"
definition ks_type :: "'o key_store \<Rightarrow> nat \<Rightarrow> int" where "ks_type st a = u_classType (ks_uoid st a)"
definition ks_name :: "'o key_store \<Rightarrow> nat \<Rightarrow> bytes" where "ks_name st a = u_objName (ks_uoid st a)"
definition ks_loaded :: "'o key_store \<Rightarrow> nat \<Rightarrow> bool" where "ks_loaded st a \<longleftrightarrow> kc_obj (ks_cells st a) \<noteq> None"

definition ks_upd_uoid :: "nat \<Rightarrow> (pl_uoid \<Rightarrow> pl_uoid) \<Rightarrow> 'o key_store \<Rightarrow> 'o key_store" where
  "ks_upd_uoid a f st =
     (let c = ks_cells st a; d = kc_data c in
      st\<lparr>ks_cells := (ks_cells st)(a := c\<lparr>kc_data := d\<lparr>k_uoid := f (k_uoid d)\<rparr>\<rparr>)\<rparr>)"

definition ks_setID :: "nat \<Rightarrow> u32 \<Rightarrow> 'o key_store \<Rightarrow> 'o key_store" where
  "ks_setID a i = ks_upd_uoid a (\<lambda>u. u\<lparr>u_objID := i\<rparr>)"

definition ks_setLocation :: "nat \<Rightarrow> pl_location \<Rightarrow> 'o key_store \<Rightarrow> 'o key_store" where
  "ks_setLocation a l = ks_upd_uoid a (\<lambda>u. u\<lparr>u_location := l\<rparr>)"

text \<open>Counting handles; a count that falls to zero frees the data, which is not used again.\<close>

definition cell_ref :: "nat \<Rightarrow> 'o cells \<Rightarrow> 'o cells" where
  "cell_ref a c = c(a := (c a)\<lparr>kc_refs := kc_refs (c a) + 1\<rparr>)"

definition cell_unref :: "nat \<Rightarrow> 'o cells \<Rightarrow> 'o cells" where
  "cell_unref a c = c(a := (c a)\<lparr>kc_refs := kc_refs (c a) - 1\<rparr>)"

definition cell_deleteObj :: "('o \<Rightarrow> nat list) \<Rightarrow> nat \<Rightarrow> 'o cells \<Rightarrow> 'o cells" where
  "cell_deleteObj okeys a c = (case kc_obj (c a) of None \<Rightarrow> c
     | Some ob \<Rightarrow> fold cell_unref (okeys ob) (c(a := (c a)\<lparr>kc_obj := None\<rparr>)))"

text \<open>
  \<open>erase\<close> on the vector moves the later elements down with the move assignment of \<open>plKey\<close>, which
  drops the handle it overwrites without counting it down; only the last element is destroyed.
\<close>

definition erase_unref :: "nat \<Rightarrow> nat list \<Rightarrow> 'o cells \<Rightarrow> 'o cells" where
  "erase_unref a later c = (if later = [] then cell_unref a c else c)"

section \<open>Operations\<close>

definition ks_find :: "nat \<Rightarrow> 'o key_store \<Rightarrow> nat option \<times> 'o key_store" where
  "ks_find a st =
     (let st1 = ks_touch (ks_loc st a) (ks_type st a) st in
      (find (\<lambda>b. uoid_eq (ks_uoid st b) (ks_uoid st a)) (kv_keys (ks_vec (ks_loc st a) (ks_type st a) st1)), st1))"

definition ks_push :: "pl_location \<Rightarrow> int \<Rightarrow> nat \<Rightarrow> 'o key_store \<Rightarrow> 'o key_store" where
  "ks_push l t a st = (let kv = ks_vec l t st in
     (ks_put l t (kv\<lparr>kv_keys := kv_keys kv @ [a]\<rparr>) st)\<lparr>ks_cells := cell_ref a (ks_cells st)\<rparr>)"

definition ks_mark :: "pl_location \<Rightarrow> int \<Rightarrow> 'o key_store \<Rightarrow> 'o key_store" where
  "ks_mark l t st = ks_put l t (set_flag kNotOptimized True (ks_vec l t st)) st"

definition ks_size :: "pl_location \<Rightarrow> int \<Rightarrow> 'o key_store \<Rightarrow> u32" where
  "ks_size l t st = word_of_nat (length (kv_keys (ks_vec l t st)))"

definition ks_add :: "nat \<Rightarrow> 'o key_store \<Rightarrow> 'o key_store" where
  "ks_add a st =
     (let l = ks_loc st a; t = ks_type st a; st1 = ks_push l t a st in
      ks_mark l t (if ks_id st1 a = 0 then ks_setID a (ks_size l t st1) st1 else st1))"

text \<open>The loop that \<open>del\<close> and \<open>MoveKey\<close> share: remove a key and close the gap in the numbering.\<close>

fun del_loop :: "nat \<Rightarrow> nat list \<Rightarrow> nat \<Rightarrow> 'o key_store \<Rightarrow> nat list \<times> 'o key_store" where
  "del_loop a [] sub st = ([], st)"
| "del_loop a (b # bs) sub st =
     (if b = a then del_loop a bs (sub + 1) (st\<lparr>ks_cells := erase_unref a bs (ks_cells st)\<rparr>)
      else (case del_loop a bs sub (ks_setID b (ks_id st b - word_of_nat sub) st) of
              (r, st') \<Rightarrow> (b # r, st')))"

definition ks_remove :: "nat \<Rightarrow> 'o key_store \<Rightarrow> 'o key_store" where
  "ks_remove a st =
     (let l = ks_loc st a; t = ks_type st a; kv = ks_vec l t st in
      case del_loop a (kv_keys kv) 0 st of (r, st1) \<Rightarrow>
        if r \<noteq> [] then ks_put l t (kv\<lparr>kv_keys := r\<rparr>) st1
        else (let m = om_erase t (snd (ks_types l st1)) in
          st1\<lparr>ks_keys := (if m = [] then om_erase (loc_key l) (ks_keys st1)
                          else om_put (loc_key l) (fst (ks_types l st1), m) (ks_keys st1))\<rparr>))"

definition ks_del :: "('o \<Rightarrow> nat list) \<Rightarrow> nat \<Rightarrow> 'o key_store \<Rightarrow> 'o key_store" where
  "ks_del okeys a st = (let st1 = ks_remove a st in st1\<lparr>ks_cells := cell_deleteObj okeys a (ks_cells st1)\<rparr>)"

definition ks_move :: "nat \<Rightarrow> pl_location \<Rightarrow> 'o key_store \<Rightarrow> 'o key_store" where
  "ks_move a to st =
     (let st1 = ks_setLocation a to (ks_remove a st); t = ks_type st1 a; st2 = ks_push to t a st1 in
      ks_mark to t (ks_setID a (ks_size to t st2) st2))"

text \<open>Deleting every loaded key of a vector, and every key that only its object still holds.\<close>

fun delAll_vec :: "('o \<Rightarrow> nat list) \<Rightarrow> nat list \<Rightarrow> 'o cells \<Rightarrow> nat list \<times> 'o cells" where
  "delAll_vec okeys [] c = ([], c)"
| "delAll_vec okeys (a # r) c =
     (if kc_obj (c a) \<noteq> None then delAll_vec okeys r (erase_unref a r (cell_deleteObj okeys a c))
      else (case delAll_vec okeys r c of (r', c') \<Rightarrow> (a # r', c')))"

fun clean_vec :: "('o \<Rightarrow> nat list) \<Rightarrow> nat list \<Rightarrow> 'o cells \<Rightarrow> nat list \<times> 'o cells" where
  "clean_vec okeys [] c = ([], c)"
| "clean_vec okeys (a # r) c =
     (if kc_refs (c a) = (if kc_obj (c a) \<noteq> None then 2 else 1)
      then clean_vec okeys r (erase_unref a r (cell_deleteObj okeys a c))
      else (case clean_vec okeys r c of (r', c') \<Rightarrow> (a # r', c')))"

text \<open>
  \<open>cleanupKeys\<close> drops the classes whose vector has become empty.  The location entries stay: the
  code tests \<open>keys.empty()\<close>, the whole map, which has the entry at hand, instead of the entry.
\<close>

fun clean_types :: "('o \<Rightarrow> nat list) \<Rightarrow> (int \<times> key_vec) list \<Rightarrow> 'o cells \<Rightarrow> (int \<times> key_vec) list \<times> 'o cells" where
  "clean_types okeys [] c = ([], c)"
| "clean_types okeys ((t, kv) # m) c =
     (case clean_vec okeys (kv_keys kv) c of (ks, c1) \<Rightarrow>
      case clean_types okeys m c1 of (m', c2) \<Rightarrow>
        (if ks = [] then m' else (t, kv\<lparr>kv_keys := ks\<rparr>) # m', c2))"

fun clean_locs :: "('o \<Rightarrow> nat list) \<Rightarrow> keymap \<Rightarrow> 'o cells \<Rightarrow> keymap \<times> 'o cells" where
  "clean_locs okeys [] c = ([], c)"
| "clean_locs okeys ((k, l, m) # r) c =
     (case clean_types okeys m c of (m', c1) \<Rightarrow>
      case clean_locs okeys r c1 of (r', c2) \<Rightarrow> ((k, l, m') # r', c2))"

definition ks_cleanup :: "('o \<Rightarrow> nat list) \<Rightarrow> 'o key_store \<Rightarrow> 'o key_store" where
  "ks_cleanup okeys st =
     (case clean_locs okeys (ks_keys st) (ks_cells st) of (m, c) \<Rightarrow> st\<lparr>ks_keys := m, ks_cells := c\<rparr>)"

fun delAll_types :: "('o \<Rightarrow> nat list) \<Rightarrow> (int \<times> key_vec) list \<Rightarrow> 'o cells \<Rightarrow> (int \<times> key_vec) list \<times> 'o cells" where
  "delAll_types okeys [] c = ([], c)"
| "delAll_types okeys ((t, kv) # m) c =
     (case delAll_vec okeys (kv_keys kv) c of (ks, c1) \<Rightarrow>
      case delAll_types okeys m c1 of (m', c2) \<Rightarrow> ((t, kv\<lparr>kv_keys := ks\<rparr>) # m', c2))"

definition ks_delAll :: "('o \<Rightarrow> nat list) \<Rightarrow> pl_location \<Rightarrow> 'o key_store \<Rightarrow> 'o key_store" where
  "ks_delAll okeys l st =
     (case ks_types l st of (l0, m) \<Rightarrow>
      case delAll_types okeys m (ks_cells st) of (m', c) \<Rightarrow>
        ks_cleanup okeys (st\<lparr>ks_keys := om_put (loc_key l) (l0, m') (ks_keys st), ks_cells := c\<rparr>))"

definition ks_getFlags :: "pl_location \<Rightarrow> int \<Rightarrow> 'o key_store \<Rightarrow> u32 \<times> 'o key_store" where
  "ks_getFlags l t st = (kv_flags (ks_vec l t st), ks_touch l t st)"

definition ks_setFlags :: "pl_location \<Rightarrow> int \<Rightarrow> u32 \<Rightarrow> 'o key_store \<Rightarrow> 'o key_store" where
  "ks_setFlags l t f st = ks_put l t ((ks_vec l t st)\<lparr>kv_flags := f\<rparr>) st"

text \<open>The queries; \<open>getTypes\<close> looks at every class of the type space.\<close>

definition ks_getKeys :: "pl_location \<Rightarrow> int \<Rightarrow> bool \<Rightarrow> 'o key_store \<Rightarrow> nat list \<times> 'o key_store" where
  "ks_getKeys l t checkKeys st =
     (let ks = kv_keys (ks_vec l t st) in
      (if checkKeys then filter (ks_loaded st) ks else ks, ks_touch l t st))"

fun types_from :: "pl_location \<Rightarrow> bool \<Rightarrow> int list \<Rightarrow> 'o key_store \<Rightarrow> int list \<times> 'o key_store" where
  "types_from l checkKeys [] st = ([], st)"
| "types_from l checkKeys (t # ts) st =
     (let ks = kv_keys (ks_vec l t st);
          has = (if checkKeys then list_ex (ks_loaded st) ks else ks \<noteq> []) in
      case types_from l checkKeys ts (ks_touch l t st) of (r, st') \<Rightarrow> (if has then t # r else r, st'))"

definition type_space :: "int list" where "type_space = map int [0..<1280]"

definition ks_getTypes :: "pl_location \<Rightarrow> bool \<Rightarrow> 'o key_store \<Rightarrow> int list \<times> 'o key_store" where
  "ks_getTypes l checkKeys st = types_from l checkKeys type_space st"

definition ks_countTypes :: "pl_location \<Rightarrow> bool \<Rightarrow> 'o key_store \<Rightarrow> nat \<times> 'o key_store" where
  "ks_countTypes l checkKeys st = (case ks_getTypes l checkKeys st of (ts, st') \<Rightarrow> (length ts, st'))"

fun count_from :: "pl_location \<Rightarrow> bool \<Rightarrow> int list \<Rightarrow> 'o key_store \<Rightarrow> nat \<times> 'o key_store" where
  "count_from l checkKeys [] st = (0, st)"
| "count_from l checkKeys (t # ts) st =
     (case ks_getKeys l t checkKeys st of (ks, st1) \<Rightarrow>
      case count_from l checkKeys ts st1 of (n, st2) \<Rightarrow> (length ks + n, st2))"

definition ks_countKeys :: "pl_location \<Rightarrow> bool \<Rightarrow> 'o key_store \<Rightarrow> nat \<times> 'o key_store" where
  "ks_countKeys l checkKeys st = count_from l checkKeys type_space st"

definition ks_getPages :: "'o key_store \<Rightarrow> pl_location list" where
  "ks_getPages st = map (\<lambda>(k, l, m). l) (ks_keys st)"

text \<open>
  The two sorts.  \<open>std::sort\<close> leaves the order of equal elements open; the model takes the order
  they came in.  \<open>compare_i\<close> is the case-insensitive comparison of the string library.
\<close>

fun ins_by :: "('a \<Rightarrow> 'a \<Rightarrow> bool) \<Rightarrow> 'a \<Rightarrow> 'a list \<Rightarrow> 'a list" where
  "ins_by lt x [] = [x]"
| "ins_by lt x (y # ys) = (if lt y x then y # ins_by lt x ys else x # y # ys)"

definition sort_by :: "('a \<Rightarrow> 'a \<Rightarrow> bool) \<Rightarrow> 'a list \<Rightarrow> 'a list" where
  "sort_by lt xs = foldr (ins_by lt) xs []"

fun renumber :: "nat list \<Rightarrow> nat \<Rightarrow> 'o key_store \<Rightarrow> 'o key_store" where
  "renumber [] i st = st"
| "renumber (a # r) i st = renumber r (i + 1) (ks_setID a (word_of_nat (i + 1)) st)"

fun verify_order :: "(bytes \<Rightarrow> bytes \<Rightarrow> int) \<Rightarrow> 'o key_store \<Rightarrow> nat list \<Rightarrow> u32 \<Rightarrow> u32" where
  "verify_order compare_i st (a # b # r) flags =
     verify_order compare_i st (b # r)
       (if flags AND kNotOptimized = 0 \<and> \<not> compare_i (ks_name st a) (ks_name st b) < 0
        then flags OR kNotOptimized else flags)"
| "verify_order compare_i st _ flags = flags"

definition sort_type :: "(bytes \<Rightarrow> bytes \<Rightarrow> int) \<Rightarrow> pl_location \<Rightarrow> 'o key_store \<Rightarrow> int \<Rightarrow> 'o key_store" where
  "sort_type compare_i l st t =
     (let kv = ks_vec l t st; ks = sort_by (\<lambda>a b. ks_id st a < ks_id st b) (kv_keys kv);
          st1 = renumber ks 0 st in
      ks_put l t (kv\<lparr>kv_keys := ks, kv_flags := verify_order compare_i st1 ks (kv_flags kv)\<rparr>) st1)"

definition ks_sortKeys :: "(bytes \<Rightarrow> bytes \<Rightarrow> int) \<Rightarrow> pl_location \<Rightarrow> 'o key_store \<Rightarrow> 'o key_store" where
  "ks_sortKeys compare_i l st =
     (case ks_getTypes l False st of (ts, st1) \<Rightarrow> foldl (sort_type compare_i l) st1 ts)"

definition optimize_type :: "(bytes \<Rightarrow> bytes \<Rightarrow> int) \<Rightarrow> pl_location \<Rightarrow> 'o key_store \<Rightarrow> int \<Rightarrow> 'o key_store" where
  "optimize_type compare_i l st t =
     (let kv = ks_vec l t st; ks = sort_by (\<lambda>a b. compare_i (ks_name st a) (ks_name st b) < 0) (kv_keys kv);
          st1 = renumber ks 0 st in
      ks_put l t (set_flag kNotOptimized False (kv\<lparr>kv_keys := ks\<rparr>)) st1)"

definition ks_optimizeKeys :: "(bytes \<Rightarrow> bytes \<Rightarrow> int) \<Rightarrow> pl_location \<Rightarrow> 'o key_store \<Rightarrow> 'o key_store" where
  "ks_optimizeKeys compare_i l st =
     (case ks_getTypes l False st of (ts, st1) \<Rightarrow> foldl (optimize_type compare_i l) st1 ts)"

text \<open>
  Moving a whole page to another location.  Two locations in different states with the same numbers
  share one entry, which the code then grows while it reads it; that is undefined.
\<close>

fun move_keys :: "pl_location \<Rightarrow> nat \<Rightarrow> nat list \<Rightarrow> 'o key_store \<Rightarrow> 'o key_store" where
  "move_keys to n [] st = st"
| "move_keys to n (a # r) st =
     move_keys to (n + 1) r
       (ks_setID a (word_of_nat (n + 1)) (ks_setLocation a to (st\<lparr>ks_cells := cell_ref a (ks_cells st)\<rparr>)))"

definition change_type :: "pl_location \<Rightarrow> pl_location \<Rightarrow> 'o key_store \<Rightarrow> int \<Rightarrow> 'o key_store" where
  "change_type fromL to st t =
     (if loc_eq fromL to then
        fold (\<lambda>a. ks_setLocation a to) (kv_keys (ks_vec fromL t st)) (ks_touch fromL t st)
      else
        (let src = kv_keys (ks_vec fromL t st); kv = ks_vec to t st; n0 = length (kv_keys kv);
             st1 = ks_touch fromL t st in
         move_keys to n0 src
           (ks_put to t (set_flag kNotOptimized True (kv\<lparr>kv_keys := kv_keys kv @ src\<rparr>)) st1)))"

definition ks_ChangeLocation :: "pl_location \<Rightarrow> pl_location \<Rightarrow> 'o key_store \<Rightarrow> 'o key_store result" where
  "ks_ChangeLocation fromL to st =
     (if \<not> loc_eq fromL to \<and> loc_key fromL = loc_key to \<and> list_ex (\<lambda>t. kv_keys (ks_vec fromL t st) \<noteq> []) type_space
      then Inl UndefinedBehaviour
      else let st1 = foldl (change_type fromL to) st type_space in
        Inr (st1\<lparr>ks_cells := fold cell_unref (concat (map (\<lambda>e. kv_keys (snd e)) (snd (ks_types fromL st1)))) (ks_cells st1),
                 ks_keys := om_erase (loc_key fromL) (ks_keys st1)\<rparr>))"

section \<open>What the maps hold\<close>

lemma ks_types_put:
  "ks_types l (ks_put l' t kv st) =
     (if loc_key l = loc_key l' then (fst (ks_types l' st), om_put t kv (snd (ks_types l' st))) else ks_types l st)"
  by (auto simp: ks_types_def ks_put_def split: prod.splits option.splits)

lemma ks_vec_put [simp]:
  "ks_vec l t (ks_put l' t' kv st) = (if loc_key l = loc_key l' \<and> t = t' then kv else ks_vec l t st)"
proof (cases "loc_key l = loc_key l'")
  case True
  then have "snd (ks_types l st) = snd (ks_types l' st)" by (simp add: ks_types_def split: option.split)
  with True show ?thesis by (auto simp: ks_vec_def ks_types_put)
qed (simp add: ks_vec_def ks_types_put)

lemma ks_vec_touch [simp]: "ks_vec l t (ks_touch l' t' st) = ks_vec l t st"
proof (cases "loc_key l = loc_key l'")
  case True
  then have "ks_vec l t st = ks_vec l' t st" by (simp add: ks_vec_def ks_types_def split: option.split)
  with True show ?thesis by (simp add: ks_touch_def)
qed (simp add: ks_touch_def)

lemma ks_vec_key: "loc_key l = loc_key l' \<Longrightarrow> ks_vec l t st = ks_vec l' t st"
  by (simp add: ks_vec_def ks_types_def split: option.split)

lemma ks_cells_put [simp]:
  "ks_cells (ks_put l t kv st) = ks_cells st" "ks_next (ks_put l t kv st) = ks_next st"
  "ks_cells (ks_touch l t st) = ks_cells st" "ks_next (ks_touch l t st) = ks_next st"
  by (simp_all add: ks_put_def ks_touch_def split: prod.split)

lemma ks_vec_cells [simp]: "ks_vec l t (st\<lparr>ks_cells := c\<rparr>) = ks_vec l t st" "ks_vec l t (st\<lparr>ks_next := n\<rparr>) = ks_vec l t st"
  by (simp_all add: ks_vec_def ks_types_def)

lemma ks_vec_upd_uoid [simp]: "ks_vec l t (ks_upd_uoid a f st) = ks_vec l t st"
  by (simp add: ks_upd_uoid_def Let_def)

lemma ks_uoid_upd [simp]: "ks_uoid (ks_upd_uoid a f st) b = (if b = a then f (ks_uoid st a) else ks_uoid st b)"
  by (simp add: ks_upd_uoid_def ks_uoid_def Let_def)

lemma ks_uoid_cells:
  "ks_cells st = ks_cells st' \<Longrightarrow> ks_uoid st a = ks_uoid st' a"
  "ks_uoid (ks_put l t kv st) a = ks_uoid st a"
  "ks_uoid (ks_touch l t st) a = ks_uoid st a"
  by (simp_all add: ks_uoid_def)

lemma cell_ref_data [simp]:
  "kc_data (cell_ref a c b) = kc_data (c b)" "kc_data (cell_unref a c b) = kc_data (c b)"
  "kc_obj (cell_ref a c b) = kc_obj (c b)" "kc_obj (cell_unref a c b) = kc_obj (c b)"
  "kc_data (erase_unref a r c b) = kc_data (c b)" "kc_obj (erase_unref a r c b) = kc_obj (c b)"
  by (simp_all add: cell_ref_def cell_unref_def erase_unref_def)

lemma fold_unref_data [simp]: "kc_data (fold cell_unref xs c b) = kc_data (c b)" "kc_obj (fold cell_unref xs c b) = kc_obj (c b)"
  by (induction xs arbitrary: c) simp_all

lemma deleteObj_data [simp]: "kc_data (cell_deleteObj okeys a c b) = kc_data (c b)"
  by (simp add: cell_deleteObj_def split: option.split)

text \<open>The class list of a page.\<close>

lemma types_from_eq:
  "fst (types_from l ck ts st) =
     filter (\<lambda>t. if ck then list_ex (ks_loaded st) (kv_keys (ks_vec l t st)) else kv_keys (ks_vec l t st) \<noteq> []) ts \<and>
   ks_cells (snd (types_from l ck ts st)) = ks_cells st \<and> ks_next (snd (types_from l ck ts st)) = ks_next st \<and>
   (\<forall>l' t'. ks_vec l' t' (snd (types_from l ck ts st)) = ks_vec l' t' st)"
proof (induction ts arbitrary: st)
  case (Cons t ts)
  have loaded: "ks_loaded (ks_touch l t st) = ks_loaded st" by (simp add: ks_loaded_def fun_eq_iff)
  show ?case using Cons [of "ks_touch l t st"] by (auto simp: Let_def loaded split: prod.split)
qed simp

lemma getTypes_eq:
  "ks_getTypes l ck st = (ts, st') \<Longrightarrow>
   ts = filter (\<lambda>t. if ck then list_ex (ks_loaded st) (kv_keys (ks_vec l t st)) else kv_keys (ks_vec l t st) \<noteq> []) type_space \<and>
   ks_cells st' = ks_cells st \<and> ks_next st' = ks_next st \<and> (\<forall>l' t'. ks_vec l' t' st' = ks_vec l' t' st)"
  using types_from_eq [of l ck type_space st] by (simp add: ks_getTypes_def)

section \<open>Sorting and numbering\<close>

lemma mset_ins_by [simp]: "mset (ins_by lt x ys) = add_mset x (mset ys)"
  by (induction ys) simp_all

lemma mset_sort_by [simp]: "mset (sort_by lt xs) = mset xs"
  by (induction xs) (simp_all add: sort_by_def)

lemma sort_by_simps [simp]: "sort_by lt [] = []" "sort_by lt (x # xs) = ins_by lt x (sort_by lt xs)"
  by (simp_all add: sort_by_def)

lemma set_ins_by [simp]: "set (ins_by lt x ys) = insert x (set ys)"
  by (induction ys) (simp_all add: insert_commute)

lemma set_sort_by [simp]: "set (sort_by lt xs) = set xs"
  by (induction xs) simp_all

lemma distinct_sort_by [simp]: "distinct (sort_by lt xs) = distinct xs"
  by (metis mset_sort_by mset_eq_imp_distinct_iff)

lemma length_sort_by [simp]: "length (sort_by lt xs) = length xs"
  by (metis mset_sort_by size_mset)

lemma sorted_ins_by:
  "sorted (map f ys) \<Longrightarrow> sorted (map f (ins_by (\<lambda>a b. f a < (f b :: 'b::linorder)) x ys))"
  by (induction ys) (auto simp: not_less)

lemma sorted_sort_by: "sorted (map f (sort_by (\<lambda>a b. f a < (f b :: 'b::linorder)) xs))"
  by (induction xs) (auto intro!: sorted_ins_by)

lemma ins_by_le: "\<forall>y \<in> set ys. \<not> lt y x \<Longrightarrow> ins_by lt x ys = x # ys"
  by (cases ys) auto

lemma sort_by_id: "sorted_wrt (\<lambda>a b. \<not> lt b a) xs \<Longrightarrow> sort_by lt xs = xs"
  by (induction xs) (auto simp: ins_by_le)

lemma renumber_vec [simp]: "ks_vec l t (renumber ks i st) = ks_vec l t st"
  by (induction ks arbitrary: i st) (simp_all add: ks_setID_def)


lemma renumber_next [simp]: "ks_next (renumber ks i st) = ks_next st"
  by (induction ks arbitrary: i st) (simp_all add: ks_setID_def ks_upd_uoid_def Let_def)

lemma ks_uoid_setID [simp]: "ks_uoid (ks_setID a i st) b = (if b = a then (ks_uoid st a)\<lparr>u_objID := i\<rparr> else ks_uoid st b)"
  by (simp add: ks_setID_def)

lemma renumber_other [simp]: "b \<notin> set ks \<Longrightarrow> ks_uoid (renumber ks i st) b = ks_uoid st b"
  by (induction ks arbitrary: i st) simp_all

text \<open>Two stores that differ in key ids only.\<close>

definition same_but_id :: "'o key_store \<Rightarrow> 'o key_store \<Rightarrow> bool" where
  "same_but_id st st' \<longleftrightarrow> (\<forall>a. (ks_uoid st' a)\<lparr>u_objID := 0\<rparr> = (ks_uoid st a)\<lparr>u_objID := 0\<rparr>)"

lemma same_but_id_refl [simp]: "same_but_id st st"
  by (simp add: same_but_id_def)

lemma same_but_id_trans: "same_but_id a b \<Longrightarrow> same_but_id b c \<Longrightarrow> same_but_id a c"
  by (simp add: same_but_id_def)

lemma same_but_idD:
  assumes "same_but_id st st'"
  shows "ks_loc st' a = ks_loc st a" "ks_type st' a = ks_type st a" "ks_name st' a = ks_name st a"
    "uoid_eq (ks_uoid st' a) (ks_uoid st' b) = uoid_eq (ks_uoid st a) (ks_uoid st b)"
proof -
  have e: "(ks_uoid st' c)\<lparr>u_objID := 0\<rparr> = (ks_uoid st c)\<lparr>u_objID := 0\<rparr>" for c
    using assms by (simp add: same_but_id_def)
  have f: "u_location (ks_uoid st' c) = u_location (ks_uoid st c)" "u_classType (ks_uoid st' c) = u_classType (ks_uoid st c)"
    "u_objName (ks_uoid st' c) = u_objName (ks_uoid st c)" "u_cloneID (ks_uoid st' c) = u_cloneID (ks_uoid st c)"
    "u_clonePlayerID (ks_uoid st' c) = u_clonePlayerID (ks_uoid st c)" for c
    using arg_cong [OF e [of c], of u_location] arg_cong [OF e [of c], of u_classType]
      arg_cong [OF e [of c], of u_objName] arg_cong [OF e [of c], of u_cloneID]
      arg_cong [OF e [of c], of u_clonePlayerID] by simp_all
  show "ks_loc st' a = ks_loc st a" "ks_type st' a = ks_type st a" "ks_name st' a = ks_name st a"
    "uoid_eq (ks_uoid st' a) (ks_uoid st' b) = uoid_eq (ks_uoid st a) (ks_uoid st b)"
    by (simp_all add: ks_loc_def ks_type_def ks_name_def uoid_eq_def f)
qed

lemma same_but_id_setID [simp]: "same_but_id st (ks_setID a i st)"
  by (simp add: same_but_id_def)

lemma same_but_id_renumber: "same_but_id st (renumber ks i st)"
proof (induction ks arbitrary: i st)
  case (Cons a r)
  show ?case unfolding renumber.simps by (rule same_but_id_trans [OF same_but_id_setID Cons])
qed simp

lemma same_but_id_uoid: "(\<And>a. ks_uoid st' a = ks_uoid st a) \<Longrightarrow> same_but_id st st'"
  by (simp add: same_but_id_def)

section \<open>The store's invariant\<close>

text \<open>
  \<open>located\<close>: a registered key stands, once, in the vector of its own location and class, and no
  other key there has the same identifier.  \<open>numbered\<close>: the ids of a vector are \<open>1, 2, \<dots>\<close> in
  order, as the formats after Uru's need them.
\<close>

definition located :: "'o key_store \<Rightarrow> bool" where
  "located st \<longleftrightarrow> (\<forall>l t. let ks = kv_keys (ks_vec l t st) in
     distinct ks \<and> (\<forall>a \<in> set ks. loc_key (ks_loc st a) = loc_key l \<and> ks_type st a = t) \<and>
     (\<forall>a \<in> set ks. \<forall>b \<in> set ks. uoid_eq (ks_uoid st a) (ks_uoid st b) \<longrightarrow> a = b))"

fun nums :: "nat \<Rightarrow> nat \<Rightarrow> u32 list" where
  "nums i 0 = []"
| "nums i (Suc n) = word_of_nat (i + 1) # nums (i + 1) n"

abbreviation numbers :: "nat \<Rightarrow> u32 list" where "numbers \<equiv> nums 0"

definition numbered :: "'o key_store \<Rightarrow> bool" where
  "numbered st \<longleftrightarrow> (\<forall>l t. map (ks_id st) (kv_keys (ks_vec l t st)) = numbers (length (kv_keys (ks_vec l t st))))"

lemma length_nums [simp]: "length (nums i n) = n"
  by (induction n arbitrary: i) simp_all

lemma nums_snoc: "nums i (Suc n) = nums i n @ [word_of_nat (i + n + 1)]"
proof (induction n arbitrary: i)
  case (Suc n)
  show ?case by (subst nums.simps(2), subst Suc) simp
qed simp

lemma nums_minus: "map (\<lambda>x. x - 1) (nums (Suc i) n) = nums i n"
  by (induction n arbitrary: i) simp_all

lemma locatedD:
  assumes "located st"
  shows "distinct (kv_keys (ks_vec l t st))"
    "a \<in> set (kv_keys (ks_vec l t st)) \<Longrightarrow> loc_key (ks_loc st a) = loc_key l \<and> ks_type st a = t"
    "a \<in> set (kv_keys (ks_vec l t st)) \<Longrightarrow> b \<in> set (kv_keys (ks_vec l t st)) \<Longrightarrow>
     uoid_eq (ks_uoid st a) (ks_uoid st b) \<Longrightarrow> a = b"
  using assms by (auto simp: located_def Let_def)

lemma located_home:
  assumes "located st" "a \<in> set (kv_keys (ks_vec l t st))" "a \<in> set (kv_keys (ks_vec l' t' st))"
  shows "loc_key l = loc_key l'" "t = t'"
  using locatedD(2) [OF assms(1,2)] locatedD(2) [OF assms(1,3)] by auto

text \<open>
  The invariant carries over to a store with the same identifiers but for ids, whose vectors hold
  part of the old keys.
\<close>

lemma located_sub:
  assumes "located st" "same_but_id st st'"
    and "\<And>l t. distinct (kv_keys (ks_vec l t st')) \<and> set (kv_keys (ks_vec l t st')) \<subseteq> set (kv_keys (ks_vec l t st))"
  shows "located st'"
  unfolding located_def Let_def
  using locatedD [OF assms(1)] assms(3) by (simp add: same_but_idD [OF assms(2)]) (meson subsetD)


lemma renumber_ids: "distinct ks \<Longrightarrow> map (ks_id (renumber ks i st)) ks = nums i (length ks)"
  by (induction ks arbitrary: i st) (simp_all add: ks_id_def)

section \<open>Registering and removing keys\<close>

lemma ks_vec_push [simp]:
  "ks_vec l t (ks_push l' t' a st) =
     (if loc_key l = loc_key l' \<and> t = t' then (ks_vec l' t' st)\<lparr>kv_keys := kv_keys (ks_vec l' t' st) @ [a]\<rparr>
      else ks_vec l t st)"
  by (simp add: ks_push_def Let_def)

lemma ks_vec_mark [simp]:
  "ks_vec l t (ks_mark l' t' st) =
     (if loc_key l = loc_key l' \<and> t = t' then set_flag kNotOptimized True (ks_vec l' t' st) else ks_vec l t st)"
  by (simp add: ks_mark_def)

lemma ks_uoid_push [simp]: "ks_uoid (ks_push l t a st) b = ks_uoid st b" "ks_uoid (ks_mark l t st) b = ks_uoid st b"
  by (simp_all add: ks_push_def ks_mark_def Let_def ks_uoid_def)

lemma ks_vec_setID [simp]: "ks_vec l t (ks_setID a i st) = ks_vec l t st"
  by (simp add: ks_setID_def)

lemma kv_keys_flag [simp]: "kv_keys (set_flag f on kv) = kv_keys kv"
  by (simp add: set_flag_def)

definition ks_home :: "pl_location \<Rightarrow> int \<Rightarrow> nat \<Rightarrow> 'o key_store \<Rightarrow> bool" where
  "ks_home l t a st \<longleftrightarrow> loc_key l = loc_key (ks_loc st a) \<and> t = ks_type st a"

lemma ks_vec_home: "ks_home l t a st \<Longrightarrow> ks_vec (ks_loc st a) (ks_type st a) st' = ks_vec l t st'"
  unfolding ks_home_def by (metis ks_vec_key)

lemma add_vec:
  "kv_keys (ks_vec l t (ks_add a st)) =
     (if ks_home l t a st then kv_keys (ks_vec l t st) @ [a] else kv_keys (ks_vec l t st))"
proof (cases "ks_home l t a st")
  case True
  then show ?thesis using ks_vec_home [OF True, of st] by (auto simp: ks_add_def Let_def ks_home_def)
next
  case False
  then show ?thesis by (auto simp: ks_add_def Let_def ks_home_def)
qed

lemma add_uoid:
  "ks_uoid (ks_add a st) b =
     (if b = a \<and> ks_id st a = 0
      then (ks_uoid st a)\<lparr>u_objID := word_of_nat (length (kv_keys (ks_vec (ks_loc st a) (ks_type st a) st)) + 1)\<rparr>
      else ks_uoid st b)"
  by (simp add: ks_add_def Let_def ks_id_def ks_size_def add.commute)

lemma add_same: "same_but_id st (ks_add a st)"
  by (simp add: same_but_id_def add_uoid)

definition unregistered :: "nat \<Rightarrow> 'o key_store \<Rightarrow> bool" where
  "unregistered a st \<longleftrightarrow> (let ks = kv_keys (ks_vec (ks_loc st a) (ks_type st a) st) in
     \<forall>b \<in> set ks. b \<noteq> a \<and> \<not> uoid_eq (ks_uoid st b) (ks_uoid st a))"

lemma uoid_eq_sym: "uoid_eq a b = uoid_eq b a"
  by (auto simp: uoid_eq_def loc_eq_def)

lemma unregisteredD:
  "unregistered a st \<Longrightarrow> ks_home l t a st \<Longrightarrow> b \<in> set (kv_keys (ks_vec l t st)) \<Longrightarrow>
   b \<noteq> a \<and> \<not> uoid_eq (ks_uoid st b) (ks_uoid st a) \<and> \<not> uoid_eq (ks_uoid st a) (ks_uoid st b)"
  using ks_vec_home [of l t a st st] uoid_eq_sym by (auto simp: unregistered_def)

lemma located_add:
  assumes "located st" "unregistered a st"
  shows "located (ks_add a st)"
  unfolding located_def Let_def
proof (intro allI)
  fix l t
  let ?ks = "kv_keys (ks_vec l t (ks_add a st))"
  note same = same_but_idD [OF add_same [of st a]]
  note D = locatedD [OF assms(1), where l = l and t = t]
  show "distinct ?ks \<and> (\<forall>b \<in> set ?ks. loc_key (ks_loc (ks_add a st) b) = loc_key l \<and> ks_type (ks_add a st) b = t) \<and>
     (\<forall>b \<in> set ?ks. \<forall>c \<in> set ?ks. uoid_eq (ks_uoid (ks_add a st) b) (ks_uoid (ks_add a st) c) \<longrightarrow> b = c)"
    unfolding add_vec same
  proof (cases "ks_home l t a st")
    case True
    note U = unregisteredD [OF assms(2) True]
    have "distinct (kv_keys (ks_vec l t st) @ [a])" using D(1) U by auto
    moreover have "\<forall>b \<in> set (kv_keys (ks_vec l t st) @ [a]). loc_key (ks_loc st b) = loc_key l \<and> ks_type st b = t"
      using D(2) True by (auto simp: ks_home_def)
    moreover have "\<forall>b \<in> set (kv_keys (ks_vec l t st) @ [a]). \<forall>c \<in> set (kv_keys (ks_vec l t st) @ [a]).
        uoid_eq (ks_uoid st b) (ks_uoid st c) \<longrightarrow> b = c"
      using D(3) U by auto
    ultimately show "distinct (if ks_home l t a st then kv_keys (ks_vec l t st) @ [a] else kv_keys (ks_vec l t st)) \<and>
      (\<forall>b \<in> set (if ks_home l t a st then kv_keys (ks_vec l t st) @ [a] else kv_keys (ks_vec l t st)).
          loc_key (ks_loc st b) = loc_key l \<and> ks_type st b = t) \<and>
      (\<forall>b \<in> set (if ks_home l t a st then kv_keys (ks_vec l t st) @ [a] else kv_keys (ks_vec l t st)).
       \<forall>c \<in> set (if ks_home l t a st then kv_keys (ks_vec l t st) @ [a] else kv_keys (ks_vec l t st)).
          uoid_eq (ks_uoid st b) (ks_uoid st c) \<longrightarrow> b = c)"
      by (simp only: True if_True)
  qed (use D in auto)
qed

lemma numbered_add:
  assumes "numbered st" "located st" "unregistered a st" "ks_id st a = 0"
  shows "numbered (ks_add a st)"
  unfolding numbered_def
proof (intro allI)
  fix l t
  let ?ks = "kv_keys (ks_vec l t st)"
  have "a \<notin> set ?ks"
    using unregisteredD [OF assms(3), of l t a] locatedD(2) [OF assms(2), of a l t] by (auto simp: ks_home_def)
  then have "map (ks_id (ks_add a st)) ?ks = map (ks_id st) ?ks"
    by (intro map_cong refl) (auto simp: ks_id_def add_uoid)
  with assms(1) have m: "map (ks_id (ks_add a st)) ?ks = numbers (length ?ks)" by (simp only: numbered_def)
  have "ks_home l t a st \<Longrightarrow> ks_id (ks_add a st) a = word_of_nat (0 + length ?ks + 1)"
    using assms(4) ks_vec_home [of l t a st st] by (simp add: ks_id_def add_uoid)
  with m show "map (ks_id (ks_add a st)) (kv_keys (ks_vec l t (ks_add a st)))
      = numbers (length (kv_keys (ks_vec l t (ks_add a st))))"
    unfolding add_vec
    by (auto simp only: nums_snoc map_append list.map length_append_singleton split: if_splits)
qed

lemma del_loop_keys [simp]: "fst (del_loop a ks sub st) = filter (\<lambda>b. b \<noteq> a) ks"
  by (induction a ks sub st rule: del_loop.induct) (auto split: prod.splits)

lemma ks_uoid_erase [simp]: "ks_uoid (st\<lparr>ks_cells := erase_unref a r (ks_cells st)\<rparr>) b = ks_uoid st b"
  by (simp add: ks_uoid_def)

lemma ks_keys_setID [simp]: "ks_keys (ks_setID a i st) = ks_keys st"
  by (simp add: ks_setID_def ks_upd_uoid_def Let_def)

lemma del_loop_maps [simp]: "ks_keys (snd (del_loop a ks sub st)) = ks_keys st"
  by (induction a ks sub st rule: del_loop.induct) (auto split: prod.splits)

lemma del_loop_same: "same_but_id st (snd (del_loop a ks sub st))"
proof (induction a ks sub st rule: del_loop.induct)
  case (2 a b bs sub st)
  show ?case
  proof (cases "b = a")
    case True
    with 2(1) show ?thesis by (simp add: same_but_id_def)
  next
    case False
    with same_but_id_trans [OF same_but_id_setID 2(2)] show ?thesis by (simp add: case_prod_beta)
  qed
qed simp

lemma del_loop_other [simp]: "b \<notin> set ks \<or> b = a \<Longrightarrow> ks_uoid (snd (del_loop a ks sub st)) b = ks_uoid st b"
  by (induction a ks sub st rule: del_loop.induct) (auto split: prod.splits)

text \<open>Past the removed key every id goes down by one; the others stay.\<close>

lemma del_loop_tail:
  "distinct ks \<Longrightarrow> a \<notin> set ks \<Longrightarrow>
   map (ks_id (snd (del_loop a ks sub st))) ks = map (\<lambda>x. x - word_of_nat sub) (map (ks_id st) ks)"
proof (induction ks arbitrary: st)
  case (Cons b bs)
  let ?st = "ks_setID b (ks_id st b - word_of_nat sub) st"
  have "map (ks_id ?st) bs = map (ks_id st) bs"
    using Cons.prems by (intro map_cong refl) (auto simp: ks_id_def)
  moreover have "snd (del_loop a (b # bs) sub st) = snd (del_loop a bs sub ?st)"
    using Cons.prems by (auto split: prod.split)
  ultimately show ?case
    using Cons.prems Cons.IH [of ?st] by (simp add: ks_id_def del: map_map)
qed simp

lemma del_loop_nums:
  "distinct ks \<Longrightarrow> map (ks_id st) ks = nums i (length ks) \<Longrightarrow>
   map (ks_id (snd (del_loop a ks 0 st))) (filter (\<lambda>b. b \<noteq> a) ks) = nums i (length (filter (\<lambda>b. b \<noteq> a) ks))"
proof (induction ks arbitrary: i st)
  case (Cons b bs)
  show ?case
  proof (cases "b = a")
    case True
    let ?st = "st\<lparr>ks_cells := erase_unref a bs (ks_cells st)\<rparr>"
    have bs: "filter (\<lambda>b. b \<noteq> a) bs = bs" using Cons.prems True by (auto simp: filter_id_conv)
    have "ks_id ?st = ks_id st" by (simp add: ks_id_def fun_eq_iff)
    with Cons.prems have "map (ks_id ?st) bs = nums (Suc i) (length bs)" by simp
    then have "map (ks_id (snd (del_loop a bs 1 ?st))) bs = nums i (length bs)"
      using del_loop_tail [of bs a 1 ?st] Cons.prems True nums_minus [of i "length bs"] by simp
    with True bs show ?thesis by simp
  next
    case False
    let ?st = "ks_setID b (ks_id st b - word_of_nat 0) st"
    have "map (ks_id ?st) bs = map (ks_id st) bs"
      using Cons.prems by (intro map_cong refl) (auto simp: ks_id_def)
    with Cons.prems have "map (ks_id ?st) bs = nums (i + 1) (length bs)" by simp
    with Cons have "map (ks_id (snd (del_loop a bs 0 ?st))) (filter (\<lambda>b. b \<noteq> a) bs)
        = nums (i + 1) (length (filter (\<lambda>b. b \<noteq> a) bs))" by simp
    moreover have "snd (del_loop a (b # bs) 0 st) = snd (del_loop a bs 0 ?st)"
      using False by (simp add: case_prod_beta)
    moreover have "ks_id (snd (del_loop a bs 0 ?st)) b = word_of_nat (i + 1)"
      using Cons.prems False by (simp add: ks_id_def)
    ultimately show ?thesis using False by simp
  qed
qed simp

lemma ks_vec_keys_cong: "ks_keys st = ks_keys st' \<Longrightarrow> ks_vec l t st = ks_vec l t st'"
  by (simp add: ks_vec_def ks_types_def)

lemma remove_uoid: "ks_uoid (ks_remove a st) b =
    ks_uoid (snd (del_loop a (kv_keys (ks_vec (ks_loc st a) (ks_type st a) st)) 0 st)) b"
  by (auto simp: ks_remove_def Let_def ks_uoid_def split: prod.split)

lemma remove_vec:
  "kv_keys (ks_vec l t (ks_remove a st)) =
     (if ks_home l t a st then filter (\<lambda>b. b \<noteq> a) (kv_keys (ks_vec l t st)) else kv_keys (ks_vec l t st))"
proof -
  let ?l = "ks_loc st a" and ?t = "ks_type st a"
  define kv where "kv = ks_vec ?l ?t st"
  obtain r st1 where d: "del_loop a (kv_keys kv) 0 st = (r, st1)" by fastforce
  have r: "r = filter (\<lambda>b. b \<noteq> a) (kv_keys kv)" "ks_keys st1 = ks_keys st"
    using del_loop_keys [of a "kv_keys kv" 0 st] del_loop_maps [of a "kv_keys kv" 0 st] d by simp_all
  have vec: "ks_vec l t st1 = ks_vec l t st" for l t by (rule ks_vec_keys_cong [OF r(2)])
  have home: "ks_home l t a st \<Longrightarrow> kv = ks_vec l t st" using ks_vec_home [of l t a st st] by (simp add: kv_def)
  show ?thesis
  proof (cases "r = []")
    case False
    with d vec home r(1) show ?thesis
      by (auto simp: ks_remove_def Let_def kv_def [symmetric] ks_home_def)
  next
    case True
    let ?m = "om_erase ?t (snd (ks_types ?l st1))"
    have "ks_vec l t (st1\<lparr>ks_keys := if ?m = [] then om_erase (loc_key ?l) (ks_keys st1)
        else om_put (loc_key ?l) (fst (ks_types ?l st1), ?m) (ks_keys st1)\<rparr>) =
      (if loc_key l = loc_key ?l \<and> t = ?t then kv_new else ks_vec l t st1)"
    proof (cases "loc_key l = loc_key ?l")
      case eq: True
      then have tl: "ks_types ?l st1 = (case map_of (ks_keys st1) (loc_key l) of None \<Rightarrow> (?l, []) | Some e \<Rightarrow> e)"
        by (simp add: ks_types_def)
      have mv: "?m = [] \<Longrightarrow> t \<noteq> ?t \<Longrightarrow> map_of (snd (ks_types ?l st1)) t = None"
        by (metis map_of_om_erase fun_upd_other map_of.simps(1))
      have "map_of (snd (ks_types ?l st1)) t = map_of (snd (ks_types l st1)) t"
        using eq by (simp add: ks_types_def split: option.split)
      with mv eq show ?thesis
        by (cases "?m = []") (auto simp: ks_vec_def ks_types_def split: option.splits)
    next
      case False
      then show ?thesis by (auto simp: ks_vec_def ks_types_def)
    qed
    with True d vec home r(1) show ?thesis
      by (auto simp: ks_remove_def Let_def kv_def [symmetric] ks_home_def kv_new_def)
  qed
qed


lemma remove_same: "same_but_id st (ks_remove a st)"
  using del_loop_same [of st a "kv_keys (ks_vec (ks_loc st a) (ks_type st a) st)" 0]
  by (simp add: same_but_id_def remove_uoid)

lemma located_remove: "located st \<Longrightarrow> located (ks_remove a st)"
  using locatedD(1) [of st] by (rule_tac located_sub [OF _ remove_same]) (auto simp: remove_vec)

lemma numbered_remove:
  assumes "numbered st" "located st"
  shows "numbered (ks_remove a st)"
  unfolding numbered_def
proof (intro allI)
  fix l t
  let ?ks = "kv_keys (ks_vec l t st)"
  let ?st = "snd (del_loop a (kv_keys (ks_vec (ks_loc st a) (ks_type st a) st)) 0 st)"
  have id: "ks_id (ks_remove a st) = ks_id ?st" by (simp add: ks_id_def fun_eq_iff remove_uoid)
  show "map (ks_id (ks_remove a st)) (kv_keys (ks_vec l t (ks_remove a st)))
      = numbers (length (kv_keys (ks_vec l t (ks_remove a st))))"
  proof (cases "ks_home l t a st")
    case True
    have "map (ks_id st) ?ks = numbers (length ?ks)" using assms(1) by (simp only: numbered_def)
    from del_loop_nums [OF locatedD(1) [OF assms(2)] this, of a] True show ?thesis
      using ks_vec_home [OF True, of st] by (simp add: remove_vec id)
  next
    case False
    have "map (ks_id ?st) ?ks = map (ks_id st) ?ks"
    proof (rule map_cong [OF refl])
      fix b
      assume b: "b \<in> set ?ks"
      have "b \<notin> set (kv_keys (ks_vec (ks_loc st a) (ks_type st a) st))"
        using located_home [OF assms(2) b] False by (auto simp: ks_home_def)
      then show "ks_id ?st b = ks_id st b" by (simp add: ks_id_def)
    qed
    with assms(1) False show ?thesis by (simp only: remove_vec id if_False numbered_def)
  qed
qed

text \<open>A removed key is registered nowhere, so it can be registered again at another location.\<close>

lemma removed:
  assumes "located st"
  shows "a \<notin> set (kv_keys (ks_vec l t (ks_remove a st)))"
  using locatedD(2) [OF assms, of a l t] by (auto simp: remove_vec ks_home_def)

lemma setLocation_uoid: "ks_uoid (ks_setLocation a to st) b = (if b = a then (ks_uoid st a)\<lparr>u_location := to\<rparr> else ks_uoid st b)"
  by (simp add: ks_setLocation_def)

lemma setLocation_vec [simp]: "ks_vec l t (ks_setLocation a to st) = ks_vec l t st"
  by (simp add: ks_setLocation_def)

lemma invariant_setLocation:
  assumes "\<And>l t. a \<notin> set (kv_keys (ks_vec l t st))"
  shows "located st \<Longrightarrow> located (ks_setLocation a to st)" "numbered st \<Longrightarrow> numbered (ks_setLocation a to st)"
proof -
  have u: "b \<in> set (kv_keys (ks_vec l t st)) \<Longrightarrow> ks_uoid (ks_setLocation a to st) b = ks_uoid st b" for b l t
    using assms [of l t] by (auto simp: setLocation_uoid)
  then show "located st \<Longrightarrow> located (ks_setLocation a to st)"
    unfolding located_def Let_def setLocation_vec by (simp add: ks_loc_def ks_type_def)
  have "map (ks_id (ks_setLocation a to st)) (kv_keys (ks_vec l t st)) = map (ks_id st) (kv_keys (ks_vec l t st))" for l t
    using u by (intro map_cong refl) (simp add: ks_id_def)
  then show "numbered st \<Longrightarrow> numbered (ks_setLocation a to st)"
    unfolding numbered_def setLocation_vec by simp
qed

text \<open>The move is a removal, a change of location and a registration with a fresh number.\<close>

lemma push_setID: "ks_push l t a (ks_setID b i st) = ks_setID b i (ks_push l t a st)"
proof -
  have "cell_ref a (c(b := (c b)\<lparr>kc_data := d\<rparr>)) = (cell_ref a c)(b := (cell_ref a c b)\<lparr>kc_data := d\<rparr>)" for c :: "'a cells" and d
    by (auto simp: cell_ref_def fun_eq_iff)
  then show ?thesis
    by (simp add: ks_push_def Let_def ks_setID_def ks_upd_uoid_def ks_put_def ks_types_def split: prod.split option.split)
qed

lemma setID_setID: "ks_setID a i (ks_setID a j st) = ks_setID a i st"
  by (simp add: ks_setID_def ks_upd_uoid_def Let_def)

lemma ks_id_setID [simp]: "ks_id (ks_setID a i st) b = (if b = a then i else ks_id st b)"
  by (simp add: ks_id_def)

lemma move_eq: "ks_move a to st = ks_add a (ks_setID a 0 (ks_setLocation a to (ks_remove a st)))"
proof -
  let ?st = "ks_setLocation a to (ks_remove a st)"
  have loc: "ks_loc (ks_setID a 0 ?st) a = to" "ks_type (ks_setID a 0 ?st) a = ks_type ?st a"
    by (simp_all add: ks_loc_def ks_type_def setLocation_uoid)
  have size: "ks_size l t (ks_setID a i st) = ks_size l t st" for l t i and st :: "'a key_store"
    by (simp add: ks_size_def)
  show ?thesis
    by (simp add: ks_move_def ks_add_def Let_def loc push_setID setID_setID size)
qed

lemma invariant_setID:
  assumes "\<And>l t. a \<notin> set (kv_keys (ks_vec l t st))"
  shows "located st \<Longrightarrow> located (ks_setID a i st)" "numbered st \<Longrightarrow> numbered (ks_setID a i st)"
proof -
  show "located st \<Longrightarrow> located (ks_setID a i st)"
    by (rule located_sub [OF _ same_but_id_setID]) (auto dest: locatedD(1))
  have "map (ks_id (ks_setID a i st)) (kv_keys (ks_vec l t st)) = map (ks_id st) (kv_keys (ks_vec l t st))" for l t
    using assms [of l t] by (intro map_cong refl) auto
  then show "numbered st \<Longrightarrow> numbered (ks_setID a i st)"
    unfolding numbered_def by simp
qed

lemma invariant_move:
  assumes "located st" and free: "unregistered a (ks_setLocation a to (ks_remove a st))"
  shows "located (ks_move a to st)" "numbered st \<Longrightarrow> numbered (ks_move a to st)"
proof -
  let ?st = "ks_setLocation a to (ks_remove a st)"
  have r: "a \<notin> set (kv_keys (ks_vec l t (ks_remove a st)))" for l t by (rule removed [OF assms(1)])
  then have r': "a \<notin> set (kv_keys (ks_vec l t ?st))" for l t by simp
  have loc: "located (ks_setID a 0 ?st)"
    by (rule invariant_setID(1) [OF r' invariant_setLocation(1) [OF r located_remove [OF assms(1)]]])
  have un: "unregistered a (ks_setID a 0 ?st)"
    using free by (simp only: unregistered_def Let_def ks_vec_setID same_but_idD [OF same_but_id_setID [of ?st a 0]] simp_thms)
  show "located (ks_move a to st)" unfolding move_eq by (rule located_add [OF loc un])
  assume "numbered st"
  then have "numbered (ks_setID a 0 ?st)"
    by (intro invariant_setID(2) [OF r'] invariant_setLocation(2) [OF r] numbered_remove assms(1))
  then show "numbered (ks_move a to st)" unfolding move_eq by (rule numbered_add [OF _ loc un]) simp
qed

section \<open>Sorting\<close>

definition numbered_at :: "pl_location \<Rightarrow> int \<Rightarrow> 'o key_store \<Rightarrow> bool" where
  "numbered_at l t st \<longleftrightarrow> map (ks_id st) (kv_keys (ks_vec l t st)) = numbers (length (kv_keys (ks_vec l t st)))"

text \<open>A vector that an operation on other vectors leaves as it is.\<close>

definition untouched :: "pl_location \<Rightarrow> int \<Rightarrow> 'o key_store \<Rightarrow> 'o key_store \<Rightarrow> bool" where
  "untouched l t st st' \<longleftrightarrow> ks_vec l t st' = ks_vec l t st \<and> (numbered_at l t st \<longrightarrow> numbered_at l t st') \<and>
     (\<forall>b \<in> set (kv_keys (ks_vec l t st)). ks_uoid st' b = ks_uoid st b)"

lemma untouched_refl [simp]: "untouched l t st st"
  by (simp add: untouched_def)

lemma untouched_trans: "untouched l t a b \<Longrightarrow> untouched l t b c \<Longrightarrow> untouched l t a c"
  by (simp add: untouched_def)

text \<open>A vector put in another order and numbered anew.\<close>

lemma reorder:
  assumes "located st" "mset ks = mset (kv_keys (ks_vec l t st))" "kv_keys kv = ks"
    and st': "st' = ks_put l t kv (renumber ks 0 st)"
  shows "located st'" "same_but_id st st'" "numbered_at l t st'" "ks_vec l t st' = kv"
    "\<not> (loc_key l' = loc_key l \<and> t' = t) \<Longrightarrow> untouched l' t' st st'"
proof -
  have d: "distinct ks" "set ks = set (kv_keys (ks_vec l t st))"
    using locatedD(1) [OF assms(1)] assms(2) by (metis mset_eq_imp_distinct_iff, metis mset_eq_setD)
  have uoid: "ks_uoid st' b = ks_uoid (renumber ks 0 st) b" for b by (simp add: st' ks_uoid_cells(2))
  show same: "same_but_id st st'"
    by (rule same_but_id_trans [OF same_but_id_renumber same_but_id_uoid [OF uoid]])
  have vec: "ks_vec l' t' st' = (if loc_key l' = loc_key l \<and> t' = t then kv else ks_vec l' t' st)" for l' t'
    by (simp add: st')
  then show "ks_vec l t st' = kv" by simp
  show "located st'"
  proof (rule located_sub [OF assms(1) same])
    fix l' t'
    show "distinct (kv_keys (ks_vec l' t' st')) \<and> set (kv_keys (ks_vec l' t' st')) \<subseteq> set (kv_keys (ks_vec l' t' st))"
    proof (cases "loc_key l' = loc_key l \<and> t' = t")
      case True
      then have "ks_vec l' t' st = ks_vec l t st" using ks_vec_key by metis
      with True d assms(3) show ?thesis by (simp only: vec if_True) simp
    next
      case False
      with locatedD(1) [OF assms(1)] show ?thesis by (simp only: vec if_False) simp
    qed
  qed
  have id: "ks_id st' = ks_id (renumber ks 0 st)" by (simp add: ks_id_def fun_eq_iff uoid)
  show "numbered_at l t st'"
    using renumber_ids [OF d(1), of 0 st] assms(3) by (simp add: numbered_at_def vec id)
  assume other: "\<not> (loc_key l' = loc_key l \<and> t' = t)"
  have u: "b \<in> set (kv_keys (ks_vec l' t' st)) \<Longrightarrow> ks_uoid st' b = ks_uoid st b" for b
  proof -
    assume "b \<in> set (kv_keys (ks_vec l' t' st))"
    with located_home [OF assms(1) this, of l t] other have "b \<notin> set ks" by (auto simp: d(2))
    then show "ks_uoid st' b = ks_uoid st b" by (simp add: uoid)
  qed
  have "map (ks_id st') (kv_keys (ks_vec l' t' st)) = map (ks_id st) (kv_keys (ks_vec l' t' st))"
    by (rule map_cong [OF refl]) (simp add: ks_id_def u)
  moreover have same: "ks_vec l' t' st' = ks_vec l' t' st" using other by (simp only: vec if_False)
  ultimately show "untouched l' t' st st'"
    using u by (simp only: untouched_def numbered_at_def simp_thms ball_simps) blast
qed

text \<open>
  A pass over the classes of a page that puts each vector in a new order and numbers it anew: the
  order may depend on the vector and on the data of its keys only.
\<close>

locale page_pass =
  fixes l :: pl_location
    and out :: "'o key_store \<Rightarrow> int \<Rightarrow> key_vec"
    and pass :: "'o key_store \<Rightarrow> int \<Rightarrow> 'o key_store"
  assumes pass_eq: "pass st t = ks_put l t (out st t) (renumber (kv_keys (out st t)) 0 st)"
    and permutes: "mset (kv_keys (out st t)) = mset (kv_keys (ks_vec l t st))"
    and depends: "untouched l t st st' \<Longrightarrow> out st' t = out st t"
begin

lemma pass_reorder: "located st \<Longrightarrow> located (pass st t) \<and> same_but_id st (pass st t) \<and> numbered_at l t (pass st t) \<and>
   ks_vec l t (pass st t) = out st t"
  using reorder(1-4) [OF _ permutes refl pass_eq] by blast

lemma pass_other: "located st \<Longrightarrow> \<not> (loc_key l' = loc_key l \<and> t' = t) \<Longrightarrow> untouched l' t' st (pass st t)"
  by (rule reorder(5) [OF _ permutes refl pass_eq])

lemma passes_located: "located st \<Longrightarrow> located (foldl pass st ts) \<and> same_but_id st (foldl pass st ts)"
proof (induction ts arbitrary: st)
  case (Cons t ts)
  with pass_reorder [OF Cons.prems, of t] show ?case using same_but_id_trans by (simp, blast)
qed simp

lemma passes_other:
  "located st \<Longrightarrow> \<not> (loc_key l' = loc_key l \<and> t' \<in> set ts) \<Longrightarrow> untouched l' t' st (foldl pass st ts)"
proof (induction ts arbitrary: st)
  case (Cons t ts)
  have "untouched l' t' st (pass st t)" using pass_other Cons.prems by auto
  moreover have "untouched l' t' (pass st t) (foldl pass (pass st t) ts)"
    using Cons pass_reorder by auto
  ultimately show ?case using untouched_trans by (simp, blast)
qed simp

lemma passes_each:
  "located st \<Longrightarrow> distinct ts \<Longrightarrow> t \<in> set ts \<Longrightarrow>
   ks_vec l t (foldl pass st ts) = out st t \<and> numbered_at l t (foldl pass st ts)"
proof (induction ts arbitrary: st)
  case (Cons u ts)
  have loc: "located (pass st u)" using pass_reorder Cons.prems(1) by blast
  show ?case
  proof (cases "t = u")
    case True
    then have "untouched l t (pass st u) (foldl pass (pass st u) ts)"
      using Cons.prems(2) loc by (intro passes_other) auto
    with True pass_reorder [OF Cons.prems(1), of u] show ?thesis by (simp add: untouched_def)
  next
    case False
    with Cons.prems(1) have "untouched l t st (pass st u)" by (intro pass_other) auto
    with False Cons loc depends show ?thesis by simp
  qed
qed simp

end

lemma uoid_fields: "ks_uoid st a = ks_uoid st' b \<Longrightarrow>
    ks_id st a = ks_id st' b \<and> ks_name st a = ks_name st' b \<and> ks_loc st a = ks_loc st' b \<and> ks_type st a = ks_type st' b"
  by (simp add: ks_id_def ks_name_def ks_loc_def ks_type_def)

lemma sort_by_cong:
  "(\<And>a b. a \<in> set xs \<Longrightarrow> b \<in> set xs \<Longrightarrow> lt a b = lt' a b) \<Longrightarrow> sort_by lt xs = sort_by lt' xs"
proof (induction xs)
  case (Cons x xs)
  have "set ys \<subseteq> set (x # xs) \<Longrightarrow> ins_by lt x ys = ins_by lt' x ys" for ys
    using Cons.prems by (induction ys) auto
  from this [of "sort_by lt' xs"] Cons show ?case by (simp add: subset_insertI)
qed simp

lemma verify_order_cong:
  "(\<And>a. a \<in> set ks \<Longrightarrow> ks_name st a = ks_name st' a) \<Longrightarrow> verify_order ci st ks f = verify_order ci st' ks f"
  by (induction ci st ks f rule: verify_order.induct) auto

definition sort_out :: "(bytes \<Rightarrow> bytes \<Rightarrow> int) \<Rightarrow> pl_location \<Rightarrow> 'o key_store \<Rightarrow> int \<Rightarrow> key_vec" where
  "sort_out compare_i l st t =
     (let kv = ks_vec l t st; ks = sort_by (\<lambda>a b. ks_id st a < ks_id st b) (kv_keys kv) in
      kv\<lparr>kv_keys := ks, kv_flags := verify_order compare_i st ks (kv_flags kv)\<rparr>)"

definition optimize_out :: "(bytes \<Rightarrow> bytes \<Rightarrow> int) \<Rightarrow> pl_location \<Rightarrow> 'o key_store \<Rightarrow> int \<Rightarrow> key_vec" where
  "optimize_out compare_i l st t =
     (let kv = ks_vec l t st in
      set_flag kNotOptimized False
        (kv\<lparr>kv_keys := sort_by (\<lambda>a b. compare_i (ks_name st a) (ks_name st b) < 0) (kv_keys kv)\<rparr>))"

lemma renumber_name [simp]: "ks_name (renumber ks i st) a = ks_name st a"
  by (rule same_but_idD(3) [OF same_but_id_renumber])

interpretation sort: page_pass l "sort_out ci l" "sort_type ci l" for ci l
proof
  fix st st' :: "'a key_store" and t
  show "sort_type ci l st t = ks_put l t (sort_out ci l st t) (renumber (kv_keys (sort_out ci l st t)) 0 st)"
    using verify_order_cong [of _ st "renumber _ 0 st", OF renumber_name [symmetric]]
    by (simp add: sort_type_def sort_out_def Let_def)
  show "mset (kv_keys (sort_out ci l st t)) = mset (kv_keys (ks_vec l t st))"
    by (simp add: sort_out_def Let_def)
  assume u: "untouched l t st st'"
  let ?ks = "kv_keys (ks_vec l t st)"
  have same: "a \<in> set ?ks \<Longrightarrow> ks_id st' a = ks_id st a \<and> ks_name st' a = ks_name st a" for a
    using u uoid_fields unfolding untouched_def by blast
  have "sort_by (\<lambda>a b. ks_id st' a < ks_id st' b) ?ks = sort_by (\<lambda>a b. ks_id st a < ks_id st b) ?ks"
    by (rule sort_by_cong) (simp add: same)
  moreover have "verify_order ci st' ks f = verify_order ci st ks f" if "set ks = set ?ks" for ks f
    by (rule verify_order_cong) (simp add: same that)
  ultimately show "sort_out ci l st' t = sort_out ci l st t"
    using u by (simp add: sort_out_def Let_def untouched_def)
qed

interpretation optimize: page_pass l "optimize_out ci l" "optimize_type ci l" for ci l
proof
  fix st st' :: "'a key_store" and t
  show "optimize_type ci l st t = ks_put l t (optimize_out ci l st t) (renumber (kv_keys (optimize_out ci l st t)) 0 st)"
    by (simp add: optimize_type_def optimize_out_def Let_def)
  show "mset (kv_keys (optimize_out ci l st t)) = mset (kv_keys (ks_vec l t st))"
    by (simp add: optimize_out_def Let_def)
  assume u: "untouched l t st st'"
  let ?ks = "kv_keys (ks_vec l t st)"
  have same: "a \<in> set ?ks \<Longrightarrow> ks_name st' a = ks_name st a" for a
    using u uoid_fields unfolding untouched_def by blast
  have "sort_by (\<lambda>a b. ci (ks_name st' a) (ks_name st' b) < 0) ?ks = sort_by (\<lambda>a b. ci (ks_name st a) (ks_name st b) < 0) ?ks"
    by (rule sort_by_cong) (simp add: same)
  then show "optimize_out ci l st' t = optimize_out ci l st t"
    using u by (simp add: optimize_out_def Let_def untouched_def)
qed

section \<open>The maps stay in order\<close>

definition ordered :: "'o key_store \<Rightarrow> bool" where
  "ordered st \<longleftrightarrow> sorted_wrt (<) (map fst (ks_keys st)) \<and> (\<forall>e \<in> set (ks_keys st). sorted_wrt (<) (map fst (snd (snd e))))"

lemma sorted_om_erase: "sorted_wrt (<) (map fst m) \<Longrightarrow> sorted_wrt (<) (map fst (om_erase k m))"
  by (induction m) (auto simp: om_erase_def)

lemma set_om_put: "set (om_put k v m) \<subseteq> insert (k, v) (set m)"
  by (induction k v m rule: om_put.induct) auto

lemma types_ordered: "ordered st \<Longrightarrow> sorted_wrt (<) (map fst (snd (ks_types l st)))"
  by (auto simp: ordered_def ks_types_def split: option.split dest!: map_of_SomeD)

lemma ordered_put_types:
  "ordered st \<Longrightarrow> sorted_wrt (<) (map fst m) \<Longrightarrow> ordered (st\<lparr>ks_keys := om_put k (l, m) (ks_keys st)\<rparr>)"
  using set_om_put [of k "(l, m)" "ks_keys st"] by (auto simp: ordered_def sorted_om_put)

lemma ordered_erase: "ordered st \<Longrightarrow> ordered (st\<lparr>ks_keys := om_erase k (ks_keys st)\<rparr>)"
  by (simp add: ordered_def sorted_om_erase) (simp add: om_erase_def)

lemma ordered_keys: "ks_keys st' = ks_keys st \<Longrightarrow> ordered st' = ordered st"
  by (simp add: ordered_def)

lemma ordered_put [simp]: "ordered st \<Longrightarrow> ordered (ks_put l t kv st)"
  using types_ordered [of st l] by (auto simp: ks_put_def intro!: ordered_put_types sorted_om_put split: prod.split)

lemma ks_keys_upd_uoid [simp]: "ks_keys (ks_upd_uoid a f st) = ks_keys st"
  by (simp add: ks_upd_uoid_def Let_def)

lemma renumber_keys [simp]: "ks_keys (renumber ks i st) = ks_keys st"
  by (induction ks arbitrary: i st) simp_all

lemma ordered_simps [simp]:
  "ordered (ks_setID a i st) = ordered st" "ordered (ks_setLocation a to st) = ordered st"
  "ordered (st\<lparr>ks_cells := c\<rparr>) = ordered st" "ordered (renumber ks j st) = ordered st"
  "ordered (snd (del_loop a ks sub st)) = ordered st"
  by (auto intro!: ordered_keys simp: ks_setLocation_def)

lemma ordered_touch [simp]: "ordered st \<Longrightarrow> ordered (ks_touch l t st)"
  by (simp add: ks_touch_def)

lemma ordered_push [simp]: "ordered st \<Longrightarrow> ordered (ks_push l t a st)" "ordered st \<Longrightarrow> ordered (ks_mark l t st)"
  by (simp_all add: ks_push_def ks_mark_def Let_def)

lemma ordered_add [simp]: "ordered st \<Longrightarrow> ordered (ks_add a st)"
  by (simp add: ks_add_def Let_def)

lemma ordered_remove [simp]:
  assumes "ordered st"
  shows "ordered (ks_remove a st)"
proof -
  obtain r st1 where d: "del_loop a (kv_keys (ks_vec (ks_loc st a) (ks_type st a) st)) 0 st = (r, st1)" by fastforce
  have "ordered st1"
    using ordered_simps(5) [of a "kv_keys (ks_vec (ks_loc st a) (ks_type st a) st)" 0 st] assms d by simp
  with d show ?thesis
    by (auto simp: ks_remove_def Let_def intro!: ordered_put_types ordered_erase sorted_om_erase types_ordered)
qed

lemma ordered_move [simp]: "ordered st \<Longrightarrow> ordered (ks_move a to st)"
  by (simp add: move_eq)

lemma ordered_types_from: "ordered st \<Longrightarrow> ordered (snd (types_from l ck ts st))"
proof (induction ts arbitrary: st)
  case (Cons t ts)
  have "ordered (snd (types_from l ck ts (ks_touch l t st)))" using Cons by simp
  then show ?case by (auto simp: Let_def split: prod.splits)
qed simp

lemma ordered_foldl: "ordered st \<Longrightarrow> (\<And>st t. ordered st \<Longrightarrow> ordered (f st t)) \<Longrightarrow> ordered (foldl f st ts)"
  by (induction ts arbitrary: st) simp_all

lemma ordered_sort [simp]: "ordered st \<Longrightarrow> ordered (ks_sortKeys ci l st)" "ordered st \<Longrightarrow> ordered (ks_optimizeKeys ci l st)"
  using ordered_types_from [of st l False type_space]
  by (auto simp: ks_sortKeys_def ks_optimizeKeys_def ks_getTypes_def sort_type_def optimize_type_def Let_def
      intro!: ordered_foldl split: prod.split)

section \<open>Cleaning up\<close>

lemma clean_vec_subseq: "subseq (fst (clean_vec okeys ks c)) ks"
  by (induction okeys ks c rule: clean_vec.induct) (auto simp: case_prod_beta)

lemma delAll_vec_subseq: "subseq (fst (delAll_vec okeys ks c)) ks"
  by (induction okeys ks c rule: delAll_vec.induct) (auto simp: case_prod_beta)

lemma erase_deleteObj_data [simp]: "kc_data (erase_unref a r (cell_deleteObj okeys a c) b) = kc_data (c b)"
  by simp

lemma clean_vec_data [simp]: "kc_data (snd (clean_vec okeys ks c) b) = kc_data (c b)"
  by (induction okeys ks c rule: clean_vec.induct) (auto simp: case_prod_beta)

lemma delAll_vec_data [simp]: "kc_data (snd (delAll_vec okeys ks c) b) = kc_data (c b)"
  by (induction okeys ks c rule: delAll_vec.induct) (auto simp: case_prod_beta)

definition sub_types :: "(int \<times> key_vec) list \<Rightarrow> (int \<times> key_vec) list \<Rightarrow> bool" where
  "sub_types m m' \<longleftrightarrow> fst ` set m' \<subseteq> fst ` set m \<and> sorted_wrt (<) (map fst m') \<and>
     (\<forall>t kv'. map_of m' t = Some kv' \<longrightarrow> (\<exists>kv. map_of m t = Some kv \<and> subseq (kv_keys kv') (kv_keys kv)))"

lemma sub_types_refl: "sorted_wrt (<) (map fst m) \<Longrightarrow> sub_types m m"
  by (simp add: sub_types_def)

lemma sub_types_trans: "sub_types a b \<Longrightarrow> sub_types b c \<Longrightarrow> sub_types a c"
  unfolding sub_types_def by (meson subset_trans subseq_order.order_trans)

lemma sub_types_Cons:
  assumes "sub_types m m'" "sorted_wrt (<) (map fst ((t, kv) # m))" "subseq (kv_keys kv') (kv_keys kv)"
  shows "sub_types ((t, kv) # m) m'" "sub_types ((t, kv) # m) ((t, kv') # m')"
proof -
  have "\<forall>y \<in> fst ` set m. t < y" "fst ` set m' \<subseteq> fst ` set m" using assms(1,2) by (auto simp: sub_types_def)
  then have "\<forall>y \<in> fst ` set m'. t < y" "t \<notin> fst ` set m'" by blast+
  then have none: "map_of m' t = None" by (simp add: map_of_eq_None_iff)
  show "sub_types ((t, kv) # m) m'"
    using assms none by (auto simp: sub_types_def)
  show "sub_types ((t, kv) # m) ((t, kv') # m')"
    using assms \<open>\<forall>y \<in> fst ` set m'. t < y\<close> by (auto simp: sub_types_def)
qed

lemma clean_types_sub:
  "sorted_wrt (<) (map fst m) \<Longrightarrow>
   sub_types m (fst (clean_types okeys m c)) \<and> kc_data (snd (clean_types okeys m c) b) = kc_data (c b)"
proof (induction okeys m c rule: clean_types.induct)
  case (2 okeys t kv m c)
  obtain ks c1 where 1: "clean_vec okeys (kv_keys kv) c = (ks, c1)" by fastforce
  obtain m' c2 where 2: "clean_types okeys m c1 = (m', c2)" by fastforce
  have "subseq ks (kv_keys kv)" "kc_data (c1 b) = kc_data (c b)"
    using clean_vec_subseq [of okeys "kv_keys kv" c] clean_vec_data [of okeys "kv_keys kv" c b] 1 by simp_all
  moreover have "sub_types m m' \<and> kc_data (c2 b) = kc_data (c1 b)"
    using "2.IH" [OF 1 [symmetric]] "2.prems" 2 by simp
  ultimately show ?case
    using 1 2 sub_types_Cons [of m m' t kv "kv\<lparr>kv_keys := ks\<rparr>"] "2.prems" by simp
qed (simp add: sub_types_def)

lemma delAll_types_sub:
  "sorted_wrt (<) (map fst m) \<Longrightarrow>
   sub_types m (fst (delAll_types okeys m c)) \<and> kc_data (snd (delAll_types okeys m c) b) = kc_data (c b)"
proof (induction okeys m c rule: delAll_types.induct)
  case (2 okeys t kv m c)
  obtain ks c1 where 1: "delAll_vec okeys (kv_keys kv) c = (ks, c1)" by fastforce
  obtain m' c2 where 2: "delAll_types okeys m c1 = (m', c2)" by fastforce
  have "subseq ks (kv_keys kv)" "kc_data (c1 b) = kc_data (c b)"
    using delAll_vec_subseq [of okeys "kv_keys kv" c] delAll_vec_data [of okeys "kv_keys kv" c b] 1 by simp_all
  moreover have "sub_types m m' \<and> kc_data (c2 b) = kc_data (c1 b)"
    using "2.IH" [OF 1 [symmetric]] "2.prems" 2 by simp
  ultimately show ?case
    using 1 2 sub_types_Cons [of m m' t kv "kv\<lparr>kv_keys := ks\<rparr>"] "2.prems" by simp
qed (simp add: sub_types_def)

lemma clean_locs_sub:
  "\<forall>e \<in> set m. sorted_wrt (<) (map fst (snd (snd e))) \<Longrightarrow>
   map fst (fst (clean_locs okeys m c)) = map fst m \<and>
   (\<forall>e \<in> set (fst (clean_locs okeys m c)). sorted_wrt (<) (map fst (snd (snd e)))) \<and>
   (\<forall>k. rel_option (\<lambda>e e'. fst e' = fst e \<and> sub_types (snd e) (snd e')) (map_of m k) (map_of (fst (clean_locs okeys m c)) k)) \<and>
   kc_data (snd (clean_locs okeys m c) b) = kc_data (c b)"
proof (induction okeys m c rule: clean_locs.induct)
  case (2 okeys k l m r c)
  obtain m' c1 where 1: "clean_types okeys m c = (m', c1)" by fastforce
  obtain r' c2 where 2: "clean_locs okeys r c1 = (r', c2)" by fastforce
  have "sub_types m m'" "kc_data (c1 b) = kc_data (c b)"
    using clean_types_sub [of m okeys c b] 1 "2.prems" by simp_all
  with "2.IH" [OF 1 [symmetric]] "2.prems" 1 2 show ?case by (simp add: sub_types_def)
qed simp

lemma sub_types_vec:
  assumes "sub_types m m'"
  shows "subseq (kv_keys (case map_of m' t of None \<Rightarrow> kv_new | Some kv \<Rightarrow> kv))
    (kv_keys (case map_of m t of None \<Rightarrow> kv_new | Some kv \<Rightarrow> kv))"
proof (cases "map_of m' t")
  case (Some kv')
  then obtain kv where "map_of m t = Some kv" "subseq (kv_keys kv') (kv_keys kv)"
    using assms unfolding sub_types_def by blast
  with Some show ?thesis by simp
qed (simp add: kv_new_def)

lemma sub_stores:
  fixes st st' :: "'o key_store"
  assumes "located st" "\<And>a. kc_data (ks_cells st' a) = kc_data (ks_cells st a)"
    and "\<And>l. rel_option (\<lambda>e e'. fst e' = fst e \<and> sub_types (snd e) (snd e'))
      (map_of (ks_keys st) (loc_key l)) (map_of (ks_keys st') (loc_key l))"
  shows "located st'"
proof -
  have "same_but_id st st'" using assms(2) by (intro same_but_id_uoid) (simp add: ks_uoid_def)
  moreover have "distinct (kv_keys (ks_vec l t st')) \<and> set (kv_keys (ks_vec l t st')) \<subseteq> set (kv_keys (ks_vec l t st))" for l t
  proof -
  have "subseq (kv_keys (ks_vec l t st')) (kv_keys (ks_vec l t st))"
    using assms(3) [of l]
    by (auto simp: ks_vec_def ks_types_def kv_new_def rel_option_iff
        split: option.splits [where 'b = "pl_location \<times> (int \<times> key_vec) list"] dest: sub_types_vec [where t = t])
  with locatedD(1) [OF assms(1), of l t]
  show ?thesis by (metis subseq_conv_nths set_nths_subset distinct_nthsI)
  qed
  ultimately show ?thesis by (rule located_sub [OF assms(1)])
qed

lemma cleanup_invariant:
  assumes "located st" "ordered st"
  shows "located (ks_cleanup okeys st) \<and> ordered (ks_cleanup okeys st)"
proof -
  obtain m c where r: "clean_locs okeys (ks_keys st) (ks_cells st) = (m, c)" by fastforce
  let ?st = "st\<lparr>ks_keys := m, ks_cells := c\<rparr>"
  have o: "\<forall>e \<in> set (ks_keys st). sorted_wrt (<) (map fst (snd (snd e)))" using assms(2) by (simp add: ordered_def)
  note C = clean_locs_sub [OF o, of okeys "ks_cells st", unfolded r fst_conv snd_conv]
  have "located ?st"
  proof (rule sub_stores [OF assms(1)])
    have "\<forall>k. rel_option (\<lambda>e e'. fst e' = fst e \<and> sub_types (snd e) (snd e')) (map_of (ks_keys st) k) (map_of m k)"
      using C by blast
    then show "rel_option (\<lambda>e e'. fst e' = fst e \<and> sub_types (snd e) (snd e'))
        (map_of (ks_keys st) (loc_key l)) (map_of (ks_keys ?st) (loc_key l))" for l
      by (cases "loc_key l") simp
  qed (use C in simp)
  moreover have "ordered ?st" using C assms(2) by (simp add: ordered_def)
  ultimately show ?thesis using r by (simp add: ks_cleanup_def)
qed

lemma delAll_invariant:
  assumes "located st" "ordered st"
  shows "located (ks_delAll okeys l st) \<and> ordered (ks_delAll okeys l st)"
proof -
  obtain l0 m where t: "ks_types l st = (l0, m)" by fastforce
  obtain m' c where r: "delAll_types okeys m (ks_cells st) = (m', c)" by fastforce
  let ?st = "st\<lparr>ks_keys := om_put (loc_key l) (l0, m') (ks_keys st), ks_cells := c\<rparr>"
  have sm: "sorted_wrt (<) (map fst m)" using types_ordered [OF assms(2), of l] t by simp
  note S = delAll_types_sub [OF sm, of okeys "ks_cells st", unfolded r fst_conv snd_conv]
  have "ordered (st\<lparr>ks_keys := om_put (loc_key l) (l0, m') (ks_keys st)\<rparr>)"
    using S assms(2) by (intro ordered_put_types) (simp_all add: sub_types_def)
  then have o: "ordered ?st" by (simp add: ordered_def)
  have "located ?st"
  proof (rule sub_stores)
    let ?s0 = "st\<lparr>ks_keys := om_put (loc_key l) (l0, m) (ks_keys st)\<rparr>"
    have "ks_vec l' t' ?s0 = ks_vec l' t' st" for l' t'
      using t by (auto simp: ks_vec_def ks_types_def split: option.splits)
    moreover have "ks_uoid ?s0 = ks_uoid st" by (simp add: ks_uoid_def fun_eq_iff)
    ultimately show "located ?s0"
      using assms(1) by (simp add: located_def ks_loc_def ks_type_def)
    show "kc_data (ks_cells ?st a) = kc_data (ks_cells ?s0 a)" for a using S by simp
    have "sorted_wrt (<) (map fst (snd e))" if "map_of (ks_keys st) k = Some e" for k e
      using map_of_SomeD [OF that] assms(2) unfolding ordered_def by fastforce
    then show "rel_option (\<lambda>e e'. fst e' = fst e \<and> sub_types (snd e) (snd e'))
        (map_of (ks_keys ?s0) (loc_key l')) (map_of (ks_keys ?st) (loc_key l'))" for l'
      using S sub_types_refl by (auto simp: option_rel_Some1 rel_option_iff split: option.split)
  qed
  from cleanup_invariant [OF this o] t r show ?thesis by (simp add: ks_delAll_def)
qed

section \<open>Every reachable store\<close>

datatype ks_op = Add nat | Del nat | Move nat pl_location | DelAll pl_location | CleanupKeys
  | SortKeys pl_location | OptimizeKeys pl_location | SetFlags pl_location int u32
  | FindKey nat | GetFlags pl_location int | GetKeys pl_location int bool | GetTypes pl_location bool

primrec ks_apply :: "('o \<Rightarrow> nat list) \<Rightarrow> (bytes \<Rightarrow> bytes \<Rightarrow> int) \<Rightarrow> ks_op \<Rightarrow> 'o key_store \<Rightarrow> 'o key_store" where
  "ks_apply okeys ci (Add a) st = ks_add a st"
| "ks_apply okeys ci (Del a) st = ks_del okeys a st"
| "ks_apply okeys ci (Move a to) st = ks_move a to st"
| "ks_apply okeys ci (DelAll l) st = ks_delAll okeys l st"
| "ks_apply okeys ci CleanupKeys st = ks_cleanup okeys st"
| "ks_apply okeys ci (SortKeys l) st = ks_sortKeys ci l st"
| "ks_apply okeys ci (OptimizeKeys l) st = ks_optimizeKeys ci l st"
| "ks_apply okeys ci (SetFlags l t f) st = ks_setFlags l t f st"
| "ks_apply okeys ci (FindKey a) st = snd (ks_find a st)"
| "ks_apply okeys ci (GetFlags l t) st = snd (ks_getFlags l t st)"
| "ks_apply okeys ci (GetKeys l t ck) st = snd (ks_getKeys l t ck st)"
| "ks_apply okeys ci (GetTypes l ck) st = snd (ks_getTypes l ck st)"

text \<open>A key is registered or moved only where no equal key stands.\<close>

primrec ks_allowed :: "ks_op \<Rightarrow> 'o key_store \<Rightarrow> bool" where
  "ks_allowed (Add a) st = unregistered a st"
| "ks_allowed (Del a) st = True"
| "ks_allowed (Move a to) st = unregistered a (ks_setLocation a to (ks_remove a st))"
| "ks_allowed (DelAll l) st = True"
| "ks_allowed CleanupKeys st = True"
| "ks_allowed (SortKeys l) st = True"
| "ks_allowed (OptimizeKeys l) st = True"
| "ks_allowed (SetFlags l t f) st = True"
| "ks_allowed (FindKey a) st = True"
| "ks_allowed (GetFlags l t) st = True"
| "ks_allowed (GetKeys l t ck) st = True"
| "ks_allowed (GetTypes l ck) st = True"

text \<open>Operations that keep the numbering: a new key has no id yet, and keys leave one by one.\<close>

primrec ks_numbering :: "ks_op \<Rightarrow> 'o key_store \<Rightarrow> bool" where
  "ks_numbering (Add a) st = (ks_id st a = 0)"
| "ks_numbering (Del a) st = True"
| "ks_numbering (Move a to) st = True"
| "ks_numbering (DelAll l) st = False"
| "ks_numbering CleanupKeys st = False"
| "ks_numbering (SortKeys l) st = True"
| "ks_numbering (OptimizeKeys l) st = True"
| "ks_numbering (SetFlags l t f) st = True"
| "ks_numbering (FindKey a) st = True"
| "ks_numbering (GetFlags l t) st = True"
| "ks_numbering (GetKeys l t ck) st = True"
| "ks_numbering (GetTypes l ck) st = True"

inductive ks_reach :: "('o \<Rightarrow> nat list) \<Rightarrow> (bytes \<Rightarrow> bytes \<Rightarrow> int) \<Rightarrow> bool \<Rightarrow> 'o cells \<Rightarrow> 'o key_store \<Rightarrow> bool"
  for okeys ci num c where
  start: "ks_reach okeys ci num c \<lparr>ks_cells = c, ks_next = n, ks_keys = []\<rparr>"
| step: "ks_reach okeys ci num c st \<Longrightarrow> ks_allowed p st \<Longrightarrow> (num \<longrightarrow> ks_numbering p st) \<Longrightarrow>
    ks_reach okeys ci num c (ks_apply okeys ci p st)"

definition ks_inv :: "'o key_store \<Rightarrow> bool" where
  "ks_inv st \<longleftrightarrow> located st \<and> ordered st"

lemma same_vecs:
  assumes "\<And>l t. kv_keys (ks_vec l t st') = kv_keys (ks_vec l t st)" "\<And>a. ks_uoid st' a = ks_uoid st a"
  shows "located st' = located st" "numbered st' = numbered st"
proof -
  have "ks_loc st' = ks_loc st" "ks_type st' = ks_type st" "ks_id st' = ks_id st"
    using assms(2) by (simp_all add: ks_loc_def ks_type_def ks_id_def fun_eq_iff)
  with assms show "located st' = located st" "numbered st' = numbered st"
    by (simp_all add: located_def numbered_def)
qed

lemma touch_invariant [simp]: "located (ks_touch l t st) = located st" "numbered (ks_touch l t st) = numbered st"
  using same_vecs [of "ks_touch l t st" st] by (simp_all add: ks_uoid_cells(3))

lemma del_invariant [simp]:
  "located (ks_del okeys a st) = located (ks_remove a st)" "numbered (ks_del okeys a st) = numbered (ks_remove a st)"
  "ordered (ks_del okeys a st) = ordered (ks_remove a st)"
  using same_vecs [of "ks_del okeys a st" "ks_remove a st"] by (simp_all add: ks_del_def Let_def ks_uoid_def)

lemma getTypes_invariant:
  assumes "ks_getTypes l ck st = (ts, st')"
  shows "located st' = located st" "numbered st' = numbered st" "ordered st \<Longrightarrow> ordered st'"
  using same_vecs [of st' st] getTypes_eq [OF assms] ordered_types_from [of st l ck type_space] assms
  by (simp_all add: ks_uoid_def ks_getTypes_def)

lemma setFlags_invariant [simp]:
  "located (ks_setFlags l t f st) = located st" "numbered (ks_setFlags l t f st) = numbered st"
proof -
  have "kv_keys (ks_vec l' t' (ks_setFlags l t f st)) = kv_keys (ks_vec l' t' st)" for l' t'
    using ks_vec_key [of l' l t st] by (simp add: ks_setFlags_def)
  then show "located (ks_setFlags l t f st) = located st" "numbered (ks_setFlags l t f st) = numbered st"
    using same_vecs [of "ks_setFlags l t f st" st] by (simp_all add: ks_setFlags_def ks_uoid_cells(2))
qed

lemma distinct_type_space [simp]: "distinct type_space"
  by (simp add: type_space_def distinct_map)

text \<open>What the two sorting operations share.\<close>

lemma passes_start:
  assumes "ks_getTypes l False st = (ts, st1)"
  shows "distinct ts" "t \<in> set ts \<Longrightarrow> kv_keys (ks_vec l t st1) \<noteq> []"
    "t \<in> set type_space \<Longrightarrow> t \<notin> set ts \<Longrightarrow> kv_keys (ks_vec l t st1) = []" "untouched l' t' st st1"
    "same_but_id st st1"
proof -
  note E = getTypes_eq [OF assms, simplified]
  have u: "ks_uoid st1 = ks_uoid st" using E by (simp add: ks_uoid_def fun_eq_iff)
  then have i: "ks_id st1 = ks_id st" by (simp add: ks_id_def fun_eq_iff)
  show "untouched l' t' st st1" using E u i by (simp add: untouched_def numbered_at_def)
  show "same_but_id st st1" using u by (simp add: same_but_id_def)
qed (use getTypes_eq [OF assms] in auto)

lemma numbered_all: "numbered st \<longleftrightarrow> (\<forall>l t. numbered_at l t st)"
  by (simp add: numbered_def numbered_at_def)

lemma numbered_at_key: "loc_key l = loc_key l' \<Longrightarrow> numbered_at l t st = numbered_at l' t st"
  using ks_vec_key [of l l' t st] by (simp add: numbered_at_def)

context page_pass begin

lemma whole:
  assumes "located st" "ks_getTypes l False st = (ts, st1)" "st' = foldl pass st1 ts"
  shows "located st'" "same_but_id st st'" "t \<in> set type_space \<Longrightarrow> kv_keys (ks_vec l t st') = kv_keys (out st t)"
    "t \<in> set type_space \<Longrightarrow> numbered_at l t st'"
    "\<not> (loc_key l' = loc_key l \<and> t' \<in> set type_space) \<Longrightarrow> untouched l' t' st st'"
    "numbered st \<Longrightarrow> numbered st'"
    "t \<in> set ts \<Longrightarrow> ks_vec l t st' = out st t"
proof -
  note S = passes_start [OF assms(2)]
  have loc: "located st1" using getTypes_invariant(1) [OF assms(2)] assms(1) by simp
  have sub: "set ts \<subseteq> set type_space" using getTypes_eq [OF assms(2)] by auto
  show "located st'" "same_but_id st st'"
    using passes_located [OF loc, of ts] same_but_id_trans [OF S(5)] assms(3) by simp_all
  have out: "out st1 t = out st t" for t by (rule depends [OF S(4)])
  have each: "ks_vec l t st' = out st t \<and> numbered_at l t st'" if "t \<in> set ts" for t
    using passes_each [OF loc S(1) that] out assms(3) by simp
  then show "t \<in> set ts \<Longrightarrow> ks_vec l t st' = out st t" by blast
  have other: "untouched l' t' st st'" if "\<not> (loc_key l' = loc_key l \<and> t' \<in> set ts)" for l' t'
    using untouched_trans [OF S(4) passes_other [OF loc that]] assms(3) by simp
  with sub show "\<not> (loc_key l' = loc_key l \<and> t' \<in> set type_space) \<Longrightarrow> untouched l' t' st st'" by blast
  have rest: "kv_keys (ks_vec l t st) = [] \<and> ks_vec l t st' = ks_vec l t st" if "t \<in> set type_space" "t \<notin> set ts" for t
    using S(3) [OF that] S(4) [of l t] other [of l t] that by (simp add: untouched_def)
  show "kv_keys (ks_vec l t st') = kv_keys (out st t)" if t: "t \<in> set type_space"
  proof (cases "t \<in> set ts")
    case False
    then show ?thesis using rest [OF t False] permutes [of st t] by simp
  qed (use each in simp)
  show at: "numbered_at l t st'" if t: "t \<in> set type_space" for t
  proof (cases "t \<in> set ts")
    case False
    then show ?thesis using rest [OF t False] by (simp add: numbered_at_def)
  qed (use each in simp)
  assume n: "numbered st"
  show "numbered st'"
    unfolding numbered_all
  proof (intro allI)
    fix l' t'
    show "numbered_at l' t' st'"
    proof (cases "loc_key l' = loc_key l \<and> t' \<in> set ts")
      case True
      with numbered_at_key [of l' l t' st'] each show ?thesis by blast
    next
      case False
      with other [OF this] n show ?thesis by (simp add: untouched_def numbered_all)
    qed
  qed
qed

end

lemma sortKeys_foldl: "ks_getTypes l False st = (ts, st1) \<Longrightarrow> ks_sortKeys ci l st = foldl (sort_type ci l) st1 ts"
  by (simp add: ks_sortKeys_def)

lemma optimizeKeys_foldl: "ks_getTypes l False st = (ts, st1) \<Longrightarrow> ks_optimizeKeys ci l st = foldl (optimize_type ci l) st1 ts"
  by (simp add: ks_optimizeKeys_def)

lemma sorting_invariant:
  assumes "located st"
  shows "located (ks_sortKeys ci l st)" "numbered st \<Longrightarrow> numbered (ks_sortKeys ci l st)"
    "located (ks_optimizeKeys ci l st)" "numbered st \<Longrightarrow> numbered (ks_optimizeKeys ci l st)"
proof -
  obtain ts st1 where g: "ks_getTypes l False st = (ts, st1)" by fastforce
  show "located (ks_sortKeys ci l st)" "numbered st \<Longrightarrow> numbered (ks_sortKeys ci l st)"
    using sort.whole(1,6) [OF assms g sortKeys_foldl [OF g]] by blast+
  show "located (ks_optimizeKeys ci l st)" "numbered st \<Longrightarrow> numbered (ks_optimizeKeys ci l st)"
    using optimize.whole(1,6) [OF assms g optimizeKeys_foldl [OF g]] by blast+
qed

lemma apply_invariant:
  assumes "ks_inv st" "ks_allowed p st"
  shows "ks_inv (ks_apply okeys ci p st)"
    "numbered st \<Longrightarrow> ks_numbering p st \<Longrightarrow> numbered (ks_apply okeys ci p st)"
proof -
  have inv: "located st" "ordered st" using assms(1) by (simp_all add: ks_inv_def)
  show "ks_inv (ks_apply okeys ci p st)"
    using inv assms(2) cleanup_invariant [OF inv] delAll_invariant [OF inv] sorting_invariant [OF inv(1)]
    by (cases p) (auto simp: ks_inv_def ks_find_def ks_getFlags_def ks_getKeys_def Let_def ks_setFlags_def
        invariant_move located_add located_remove getTypes_invariant [OF surjective_pairing]
        setFlags_invariant [unfolded ks_setFlags_def])
  show "numbered (ks_apply okeys ci p st)" if n: "numbered st" "ks_numbering p st"
    using inv assms(2) n sorting_invariant [OF inv(1)]
    by (cases p) (auto simp: ks_find_def ks_getFlags_def ks_getKeys_def Let_def
        invariant_move numbered_add numbered_remove getTypes_invariant [OF surjective_pairing])
qed

section \<open>What sorting does\<close>

text \<open>A vector may go without the flag after sorting only where it had none and its names ascend.\<close>

fun ascending :: "(bytes \<Rightarrow> bytes \<Rightarrow> int) \<Rightarrow> bytes list \<Rightarrow> bool" where
  "ascending ci (a # b # r) \<longleftrightarrow> ci a b < 0 \<and> ascending ci (b # r)"
| "ascending ci r \<longleftrightarrow> True"

lemma kNotOptimized_nz [simp]: "kNotOptimized \<noteq> 0"
  by (simp add: kNotOptimized_def)

lemma flag_or: "(f OR kNotOptimized) AND kNotOptimized \<noteq> 0"
proof -
  have "bit ((f OR kNotOptimized) AND kNotOptimized) 0" by (simp add: bit_simps kNotOptimized_def)
  then show ?thesis by (metis bit_0_eq bot_apply bot_bool_def)
qed

lemma flag_clear [simp]: "(f AND NOT kNotOptimized) AND kNotOptimized = 0"
  by (rule bit_word_eqI) (auto simp: bit_simps)

lemma verify_order_clear:
  "verify_order ci st ks f AND kNotOptimized = 0 \<longleftrightarrow> f AND kNotOptimized = 0 \<and> ascending ci (map (ks_name st) ks)"
proof (induction ci st ks f rule: verify_order.induct)
  case (1 ci st a b r f)
  then show ?case by (cases "f AND kNotOptimized = 0") (simp_all add: flag_or)
qed simp_all

text \<open>Sorting by a strict weak order.\<close>

lemma sorted_wrt_ins_by:
  assumes asym: "\<And>a b. lt a b \<Longrightarrow> \<not> lt b a" and trans: "\<And>a b c. \<not> lt b a \<Longrightarrow> \<not> lt c b \<Longrightarrow> \<not> lt c a"
  shows "sorted_wrt (\<lambda>a b. \<not> lt b a) ys \<Longrightarrow> sorted_wrt (\<lambda>a b. \<not> lt b a) (ins_by lt x ys)"
proof (induction ys)
  case (Cons y ys)
  show ?case
  proof (cases "lt y x")
    case True
    with Cons asym show ?thesis by simp
  next
    case False
    with Cons.prems trans show ?thesis by auto
  qed
qed simp

lemma sorted_wrt_sort_by:
  assumes "\<And>a b. lt a b \<Longrightarrow> \<not> lt b a" "\<And>a b c. \<not> lt b a \<Longrightarrow> \<not> lt c b \<Longrightarrow> \<not> lt c a"
  shows "sorted_wrt (\<lambda>a b. \<not> lt b a) (sort_by lt xs)"
  by (induction xs) (use sorted_wrt_ins_by [OF assms] in auto)

section \<open>Moving a page\<close>

lemma move_keys_vec [simp]: "ks_vec l t (move_keys to n src st) = ks_vec l t st"
  by (induction to n src st rule: move_keys.induct) simp_all

lemma move_keys_keys [simp]: "ks_keys (move_keys to n src st) = ks_keys st"
  by (induction to n src st rule: move_keys.induct) (simp_all add: ks_setLocation_def)

lemma ks_uoid_ref [simp]: "ks_uoid (st\<lparr>ks_cells := cell_ref a (ks_cells st)\<rparr>) c = ks_uoid st c"
  by (simp add: ks_uoid_def)

lemma move_keys_other [simp]: "b \<notin> set src \<Longrightarrow> ks_uoid (move_keys to n src st) b = ks_uoid st b"
  by (induction to n src st rule: move_keys.induct) (simp_all add: setLocation_uoid)

lemma move_keys_uoid:
  "distinct src \<Longrightarrow> b \<in> set src \<Longrightarrow>
   \<exists>i. ks_uoid (move_keys to n src st) b = (ks_uoid st b)\<lparr>u_location := to, u_objID := i\<rparr>"
proof (induction to n src st rule: move_keys.induct)
  case (2 to n a r st)
  let ?st = "ks_setID a (word_of_nat (n + 1)) (ks_setLocation a to (st\<lparr>ks_cells := cell_ref a (ks_cells st)\<rparr>))"
  show ?case
  proof (cases "b = a")
    case True
    with 2 show ?thesis by (auto simp: setLocation_uoid)
  next
    case False
    with 2 have "\<exists>i. ks_uoid (move_keys to (n + 1) r ?st) b = (ks_uoid ?st b)\<lparr>u_location := to, u_objID := i\<rparr>" by simp
    with False show ?thesis by (simp add: setLocation_uoid)
  qed
qed simp

lemma move_keys_ids: "distinct src \<Longrightarrow> map (ks_id (move_keys to n src st)) src = nums n (length src)"
proof (induction to n src st rule: move_keys.induct)
  case (2 to n a r st)
  let ?st = "ks_setID a (word_of_nat (n + 1)) (ks_setLocation a to (st\<lparr>ks_cells := cell_ref a (ks_cells st)\<rparr>))"
  have "ks_id (move_keys to (n + 1) r ?st) a = word_of_nat (n + 1)"
    using move_keys_other [of a r to "n + 1" ?st] "2.prems" by (simp add: ks_id_def)
  with 2 show ?case by (simp add: add.commute)
qed simp

lemma move_keys_cells:
  "kc_obj (ks_cells (move_keys to n src st) b) = kc_obj (ks_cells st b)"
  "kc_refs (ks_cells (move_keys to n src st) b) = kc_refs (ks_cells st b) + count_list src b"
  by (induction to n src st rule: move_keys.induct)
    (auto simp: ks_setID_def ks_setLocation_def ks_upd_uoid_def Let_def cell_ref_def)

text \<open>
  One class of the page.  \<open>moved\<close> says what has happened to it: its keys now stand behind those of
  the new location, with the numbers that follow.
\<close>

definition moved :: "pl_location \<Rightarrow> pl_location \<Rightarrow> 'o key_store \<Rightarrow> int \<Rightarrow> 'o key_store \<Rightarrow> bool" where
  "moved fromL to st t st' \<longleftrightarrow>
     (let src = kv_keys (ks_vec fromL t st); old = kv_keys (ks_vec to t st) in
      kv_keys (ks_vec to t st') = old @ src \<and> kv_flags (ks_vec to t st') AND kNotOptimized \<noteq> 0 \<and>
      map (ks_id st') src = nums (length old) (length src) \<and>
      (\<forall>a \<in> set src. ks_uoid st' a = (ks_uoid st a)\<lparr>u_location := to, u_objID := ks_id st' a\<rparr>))"

lemma change_one:
  fixes t :: int
  assumes "loc_key fromL \<noteq> loc_key to" and d: "distinct (kv_keys (ks_vec fromL t st))"
  defines "st' \<equiv> change_type fromL to st t"
  shows "moved fromL to st t st'"
    "\<not> (loc_key l = loc_key to \<and> u = t) \<Longrightarrow> ks_vec l u st' = ks_vec l u st"
    "b \<notin> set (kv_keys (ks_vec fromL t st)) \<Longrightarrow> ks_uoid st' b = ks_uoid st b"
proof -
  let ?src = "kv_keys (ks_vec fromL t st)" and ?kv = "ks_vec to t st"
  let ?s0 = "ks_put to t (set_flag kNotOptimized True (?kv\<lparr>kv_keys := kv_keys ?kv @ ?src\<rparr>)) (ks_touch fromL t st)"
  have ne: "\<not> loc_eq fromL to" using assms(1) by (auto simp: loc_eq_def loc_key_def)
  then have e: "st' = move_keys to (length (kv_keys ?kv)) ?src ?s0" by (simp add: st'_def change_type_def Let_def)
  have u: "ks_uoid ?s0 b = ks_uoid st b" for b by (simp add: ks_uoid_cells(2,3))
  show "moved fromL to st t st'"
    unfolding moved_def Let_def e
  proof (intro conjI ballI)
    fix a
    assume "a \<in> set ?src"
    then show "ks_uoid (move_keys to (length (kv_keys ?kv)) ?src ?s0) a =
        (ks_uoid st a)\<lparr>u_location := to, u_objID := ks_id (move_keys to (length (kv_keys ?kv)) ?src ?s0) a\<rparr>"
      using move_keys_uoid [OF d, of a to "length (kv_keys ?kv)" ?s0] u [of a] by (auto simp: ks_id_def)
  next
    show "kv_flags (ks_vec to t (move_keys to (length (kv_keys ?kv)) ?src ?s0)) AND kNotOptimized \<noteq> 0"
      by (simp add: set_flag_def flag_or)
    show "map (ks_id (move_keys to (length (kv_keys ?kv)) ?src ?s0)) ?src = nums (length (kv_keys ?kv)) (length ?src)"
      by (rule move_keys_ids [OF d])
  qed (simp add: set_flag_def)
  show "\<not> (loc_key l = loc_key to \<and> u = t) \<Longrightarrow> ks_vec l u st' = ks_vec l u st"
    unfolding e by auto
  show "b \<notin> set ?src \<Longrightarrow> ks_uoid st' b = ks_uoid st b"
    unfolding e by (simp add: u)
qed

lemma change_all:
  assumes "loc_key fromL \<noteq> loc_key to" "located st" "distinct ts"
  defines "st' \<equiv> foldl (change_type fromL to) st ts"
  shows "(\<forall>t \<in> set ts. moved fromL to st t st') \<and>
    (\<forall>l u. \<not> (loc_key l = loc_key to \<and> u \<in> set ts) \<longrightarrow> ks_vec l u st' = ks_vec l u st) \<and>
    (\<forall>b. (\<forall>t \<in> set ts. b \<notin> set (kv_keys (ks_vec fromL t st))) \<longrightarrow> ks_uoid st' b = ks_uoid st b)"
  unfolding st'_def using assms(3)
proof (induction ts rule: rev_induct)
  case (snoc t ts)
  let ?m = "foldl (change_type fromL to) st ts" and ?n = "change_type fromL to (foldl (change_type fromL to) st ts) t"
  let ?src = "\<lambda>t. kv_keys (ks_vec fromL t st)"
  have t: "t \<notin> set ts" "distinct ts" using snoc.prems by auto
  have moved_ts: "t' \<in> set ts \<Longrightarrow> moved fromL to st t' ?m" for t' using snoc.IH t by blast
  have vec: "\<not> (loc_key l = loc_key to \<and> u \<in> set ts) \<Longrightarrow> ks_vec l u ?m = ks_vec l u st" for l u
    using snoc.IH t by blast
  have uoid: "\<forall>t \<in> set ts. b \<notin> set (?src t) \<Longrightarrow> ks_uoid ?m b = ks_uoid st b" for b using snoc.IH t by blast
  have src: "ks_vec fromL u ?m = ks_vec fromL u st" for u using assms(1) by (intro vec) auto
  note D = locatedD(1) [OF assms(2), of fromL t]
  note one = change_one [OF assms(1), of t ?m, unfolded src, OF D]
  have apart: "b \<in> set (?src t) \<Longrightarrow> t' \<noteq> t \<Longrightarrow> b \<notin> set (?src t')" for b t'
    using located_home(2) [OF assms(2), of b fromL t fromL t'] by blast
  have ids: "b \<in> set (?src t') \<Longrightarrow> t' \<noteq> t \<Longrightarrow> ks_uoid ?n b = ks_uoid ?m b" for b t'
    using apart one(3) by blast
  have "moved fromL to st t' ?n" if t': "t' \<in> set ts" for t'
  proof -
    have ne: "t' \<noteq> t" using t t' by auto
    have "map (ks_id ?n) (?src t') = map (ks_id ?m) (?src t')"
      by (rule map_cong [OF refl]) (simp add: ks_id_def ids [OF _ ne])
    moreover have "ks_vec to t' ?n = ks_vec to t' ?m" using one(2) ne by blast
    moreover have "ks_id ?n b = ks_id ?m b" "ks_uoid ?n b = ks_uoid ?m b" if "b \<in> set (?src t')" for b
      using ids [OF that ne] by (simp_all add: ks_id_def)
    ultimately show ?thesis
      using moved_ts [OF t'] by (simp only: moved_def Let_def simp_thms) simp
  qed
  moreover have "moved fromL to st t ?n"
  proof -
    have "b \<in> set (?src t) \<Longrightarrow> ks_uoid ?m b = ks_uoid st b" for b
      using apart [of b] t(1) by (intro uoid ballI) metis
    moreover have "ks_vec to t ?m = ks_vec to t st" using t(1) by (intro vec) auto
    ultimately show ?thesis using one(1) by (simp add: moved_def Let_def src)
  qed
  moreover have "ks_vec l u ?n = ks_vec l u st" if "\<not> (loc_key l = loc_key to \<and> u \<in> set (ts @ [t]))" for l u
    using one(2) [of l u] vec [of l u] that by auto
  moreover have "ks_uoid ?n b = ks_uoid st b" if "\<forall>t \<in> set (ts @ [t]). b \<notin> set (?src t)" for b
    using one(3) uoid that by auto
  ultimately show ?case by auto
qed simp

lemma nums_append: "nums i m @ nums (i + m) n = nums i (m + n)"
proof (induction m arbitrary: i)
  case (Suc m)
  from Suc [of "Suc i"] show ?case by simp
qed simp

lemma erase_vec:
  "ks_vec l t (st\<lparr>ks_cells := c, ks_keys := om_erase (loc_key l') (ks_keys st)\<rparr>) =
    (if loc_key l = loc_key l' then kv_new else ks_vec l t st)"
  by (auto simp: ks_vec_def ks_types_def split: option.split)

section \<open>Properties\<close>


definition sample_cell :: "nat \<Rightarrow> unit key_cell" where
  "sample_cell a = \<lparr>kc_data = \<lparr>k_uoid = uoid_new\<lparr>u_objName := [word_of_nat a], u_classType := 1\<rparr>, k_fileOff = 0, k_objSize = 0\<rparr>,
     kc_obj = None, kc_refs = 0\<rparr>"

definition sample_store :: "unit key_store" where
  "sample_store = \<lparr>ks_cells = sample_cell, ks_next = 0, ks_keys = []\<rparr>"

lemma sample_fields [simp]:
  "ks_uoid sample_store a = uoid_new\<lparr>u_objName := [word_of_nat a], u_classType := 1\<rparr>"
  "ks_vec l t sample_store = kv_new"
  by (simp_all add: ks_uoid_def sample_store_def sample_cell_def ks_vec_def ks_types_def)

lemma sample_located: "located sample_store" "ordered sample_store" "numbered sample_store"
  by (simp_all add: located_def ordered_def numbered_def kv_new_def) (simp add: sample_store_def)




text \<open>With a name comparison that orders names, optimising a page puts each of its vectors in
  the order of the names, numbers it and marks it as optimised; no other vector, and no field of a
  key but its id, changes.\<close>

theorem optimizeKeys_sorts:
  assumes "located st" and st': "st' = ks_optimizeKeys ci l st"
    and asym: "\<And>a b. ci a b < 0 \<Longrightarrow> \<not> ci b a < 0" and weak: "\<And>a b c. \<not> ci b a < 0 \<Longrightarrow> \<not> ci c b < 0 \<Longrightarrow> \<not> ci c a < 0"
  shows "(\<forall>t \<in> set type_space.
      mset (kv_keys (ks_vec l t st')) = mset (kv_keys (ks_vec l t st)) \<and>
      sorted_wrt (\<lambda>a b. \<not> ci (ks_name st' b) (ks_name st' a) < 0) (kv_keys (ks_vec l t st')) \<and>
      map (ks_id st') (kv_keys (ks_vec l t st')) = numbers (length (kv_keys (ks_vec l t st))) \<and>
      (kv_keys (ks_vec l t st) \<noteq> [] \<longrightarrow> kv_flags (ks_vec l t st') AND kNotOptimized = 0)) \<and>
    (\<forall>l' t. loc_key l' \<noteq> loc_key l \<longrightarrow> ks_vec l' t st' = ks_vec l' t st) \<and> same_but_id st st'"
proof -
  obtain ts st1 where g: "ks_getTypes l False st = (ts, st1)" by fastforce
  note W = optimize.whole [OF assms(1) g trans [OF st' optimizeKeys_foldl [OF g]]]
  have names: "ks_name st' = ks_name st" using same_but_idD(3) [OF W(2)] by (simp add: fun_eq_iff)
  let ?lt = "\<lambda>a b. ci (ks_name st a) (ks_name st b) < 0"
  have keys: "kv_keys (ks_vec l t st') = sort_by ?lt (kv_keys (ks_vec l t st))" if "t \<in> set type_space" for t
    using W(3) [OF that] by (simp add: optimize_out_def Let_def)
  have nums: "map (ks_id st') (kv_keys (ks_vec l t st')) = numbers (length (kv_keys (ks_vec l t st)))"
    if "t \<in> set type_space" for t using W(4) [OF that] keys [OF that] by (simp add: numbered_at_def)
  have flags: "kv_flags (ks_vec l t st') AND kNotOptimized = 0"
    if "t \<in> set type_space" "kv_keys (ks_vec l t st) \<noteq> []" for t
  proof -
    have "t \<in> set ts" using getTypes_eq [OF g] that by simp
    from W(7) [OF this] show ?thesis by (simp add: optimize_out_def Let_def set_flag_def)
  qed
  have order: "sorted_wrt (\<lambda>a b. \<not> ci (ks_name st' b) (ks_name st' a) < 0) (kv_keys (ks_vec l t st'))"
    if "t \<in> set type_space" for t
    unfolding keys [OF that] names by (rule sorted_wrt_sort_by) (use asym weak in blast)+
  have rest: "ks_vec l' t st' = ks_vec l' t st" if "loc_key l' \<noteq> loc_key l" for l' t
    using W(5) [of l' t] that by (simp add: untouched_def)
  show ?thesis
  proof (intro conjI ballI allI impI)
    fix t
    assume t: "t \<in> set type_space"
    show "mset (kv_keys (ks_vec l t st')) = mset (kv_keys (ks_vec l t st))" by (simp add: keys [OF t])
  qed (use nums flags order rest W(2) in blast)+
qed

theorem optimizeKeys_sorts_witness:
  "same_but_id sample_store (ks_optimizeKeys (\<lambda>a b. int (length a) - int (length b)) (loc_new 0) sample_store)"
  using optimizeKeys_sorts [OF sample_located(1) refl, of "\<lambda>a b. int (length a) - int (length b)"] by fastforce

text \<open>The numbering after a page has moved.\<close>

lemma moved_numbered:
  assumes "located st" "loc_key fromL \<noteq> loc_key to" and n: "numbered st"
    and moved: "\<And>t. t \<in> set type_space \<Longrightarrow> moved fromL to st t s2"
    and gone: "\<And>l t. loc_key l = loc_key fromL \<Longrightarrow> kv_keys (ks_vec l t s2) = []"
    and other: "\<And>l t. loc_key l \<noteq> loc_key fromL \<Longrightarrow> \<not> (loc_key l = loc_key to \<and> t \<in> set type_space) \<Longrightarrow>
      ks_vec l t s2 = ks_vec l t st"
    and uoid: "\<And>b. \<forall>t \<in> set type_space. b \<notin> set (kv_keys (ks_vec fromL t st)) \<Longrightarrow> ks_uoid s2 b = ks_uoid st b"
  shows "numbered s2"
  unfolding numbered_def
proof (intro allI)
  fix l t
  have old: "map (ks_id s2) (kv_keys (ks_vec l t st)) = numbers (length (kv_keys (ks_vec l t st)))"
    if "loc_key l \<noteq> loc_key fromL"
  proof -
    have "map (ks_id s2) (kv_keys (ks_vec l t st)) = map (ks_id st) (kv_keys (ks_vec l t st))"
    proof (rule map_cong [OF refl])
      fix b
      assume "b \<in> set (kv_keys (ks_vec l t st))"
      then have "b \<notin> set (kv_keys (ks_vec fromL u st))" for u
        using located_home(1) [OF assms(1), of b l t fromL u] that by blast
      then show "ks_id s2 b = ks_id st b" by (simp add: ks_id_def uoid)
    qed
    with n show ?thesis by (simp only: numbered_def)
  qed
  consider "loc_key l = loc_key fromL" | "loc_key l = loc_key to" "t \<in> set type_space"
    | "loc_key l \<noteq> loc_key fromL" "\<not> (loc_key l = loc_key to \<and> t \<in> set type_space)" by blast
  then show "map (ks_id s2) (kv_keys (ks_vec l t s2)) = numbers (length (kv_keys (ks_vec l t s2)))"
  proof cases
    case 1
    then show ?thesis by (simp add: gone)
  next
    case 2
    have v: "ks_vec l t s2 = ks_vec to t s2" "ks_vec l t st = ks_vec to t st" using ks_vec_key [OF 2(1)] by blast+
    note M = moved [OF 2(2), unfolded moved_def Let_def, folded v]
    then have "map (ks_id s2) (kv_keys (ks_vec l t st) @ kv_keys (ks_vec fromL t st)) =
        nums 0 (length (kv_keys (ks_vec l t st))) @ nums (0 + length (kv_keys (ks_vec l t st))) (length (kv_keys (ks_vec fromL t st)))"
      using old 2(1) assms(2) by (simp only: map_append add_0)
    then show ?thesis using M by (simp only: nums_append length_append)
  next
    case 3
    with old other [OF 3] show ?thesis by simp
  qed
qed

text \<open>Moving a page to another location appends each of its vectors to the vector of the new
  location, where its keys get that location and the numbers that follow; the old page is left
  without keys, all other pages as they were, and a numbered store stays numbered.\<close>

theorem ChangeLocation_moves:
  assumes "located st" "loc_key fromL \<noteq> loc_key to"
  shows "\<exists>st'. ks_ChangeLocation fromL to st = Inr st' \<and>
    (\<forall>t \<in> set type_space. moved fromL to st t st') \<and> (\<forall>t. kv_keys (ks_vec fromL t st') = []) \<and>
    (\<forall>l t. loc_key l \<noteq> loc_key fromL \<longrightarrow> loc_key l \<noteq> loc_key to \<longrightarrow> ks_vec l t st' = ks_vec l t st) \<and>
    (numbered st \<longrightarrow> numbered st')"
proof -
  let ?s1 = "foldl (change_type fromL to) st type_space"
  define s2 where "s2 = ?s1\<lparr>ks_cells := fold cell_unref (concat (map (\<lambda>e. kv_keys (snd e)) (snd (ks_types fromL ?s1)))) (ks_cells ?s1),
    ks_keys := om_erase (loc_key fromL) (ks_keys ?s1)\<rparr>"
  have r: "ks_ChangeLocation fromL to st = Inr s2"
    using assms(2) by (simp add: ks_ChangeLocation_def Let_def s2_def)
  have A: "\<forall>t \<in> set type_space. moved fromL to st t ?s1"
    "\<not> (loc_key l = loc_key to \<and> u \<in> set type_space) \<Longrightarrow> ks_vec l u ?s1 = ks_vec l u st"
    "\<forall>t \<in> set type_space. b \<notin> set (kv_keys (ks_vec fromL t st)) \<Longrightarrow> ks_uoid ?s1 b = ks_uoid st b" for l u b
    using change_all [OF assms(2,1) distinct_type_space] by blast+
  have vec: "ks_vec l t s2 = (if loc_key l = loc_key fromL then kv_new else ks_vec l t ?s1)" for l t
    by (simp add: s2_def erase_vec)
  have uoid: "ks_uoid s2 b = ks_uoid ?s1 b" for b by (simp add: s2_def ks_uoid_def)
  then have id: "ks_id s2 = ks_id ?s1" by (simp add: ks_id_def fun_eq_iff)
  have moved: "moved fromL to st t s2" if "t \<in> set type_space" for t
    using A(1) that assms(2) by (simp add: moved_def Let_def vec uoid id)
  show ?thesis
    unfolding r
  proof (intro exI [of _ s2] conjI allI impI ballI)
    show "kv_keys (ks_vec fromL t s2) = []" for t by (simp add: vec kv_new_def)
    show "ks_vec l t s2 = ks_vec l t st" if "loc_key l \<noteq> loc_key fromL" "loc_key l \<noteq> loc_key to" for l t
      using that A(2) by (simp add: vec)
    show "numbered s2" if "numbered st"
      by (rule moved_numbered [OF assms that moved]) (use A uoid in \<open>auto simp: vec kv_new_def\<close>)
  qed (use moved in simp_all)
qed

theorem ChangeLocation_moves_witness:
  "\<exists>st'. ks_ChangeLocation (loc_new 0) ((loc_new 0)\<lparr>fPageNum := 5\<rparr>) (ks_add 5 sample_store) = Inr st' \<and> numbered st'"
proof -
  have u: "unregistered 5 sample_store" by (simp add: unregistered_def kv_new_def)
  have "located (ks_add 5 sample_store)" "numbered (ks_add 5 sample_store)"
    using located_add [OF sample_located(1) u] numbered_add [OF sample_located(3,1) u]
    by (simp_all add: ks_id_def uoid_new_def)
  with ChangeLocation_moves [of "ks_add 5 sample_store" "loc_new 0" "(loc_new 0)\<lparr>fPageNum := 5\<rparr>"]
  show ?thesis by (auto simp: loc_key_def loc_new_def)
qed

text \<open>C32: Changing only the flags of a page's location takes every key of the page out of the store.\<close>

theorem ChangeLocation_flags_loses_page:
  assumes "loc_eq fromL to"
  shows "\<exists>st'. ks_ChangeLocation fromL to st = Inr st' \<and> (\<forall>t. kv_keys (ks_vec to t st') = [])"
proof -
  have "loc_key to = loc_key fromL" using assms by (simp add: loc_eq_def loc_key_def)
  with assms show ?thesis by (simp add: ks_ChangeLocation_def Let_def erase_vec kv_new_def)
qed

theorem ChangeLocation_flags_loses_page_witness:
  "\<exists>st'. ks_ChangeLocation (loc_new 0) ((loc_new 0)\<lparr>fFlags := 1\<rparr>) (ks_add 5 sample_store) = Inr st' \<and>
     (\<forall>t. kv_keys (ks_vec ((loc_new 0)\<lparr>fFlags := 1\<rparr>) t st') = [])"
  by (rule ChangeLocation_flags_loses_page) (simp add: loc_eq_def loc_new_def)

end
