(* ===== verification/Keyring.thy ===== *)
theory Keyring
  imports KeyCollector PageInfo
begin

text \<open>
  The keys of the resource manager \<open>plResManager\<close> (\<open>src/core/ResManager/plResManager.cpp\<close>): reading
  and writing key references, registering keys, and the key index of a page
  (\<open>ReadKeyring\<close>/\<open>WriteKeyring\<close>).

  The manager's own state here is its version \<open>rv\<close>, the flag \<open>preserveIDs\<close> and the key store, which
  every operation is passed and returns.  \<open>new plKeyData()\<close> takes the cell at \<open>ks_next\<close>.  The state
  that an exception leaves behind is not modelled.
\<close>

section \<open>Key handles of the manager\<close>

definition key_data_new :: pl_key_data where
  "key_data_new = \<lparr>k_uoid = uoid_new, k_fileOff = 0, k_objSize = 0\<rparr>"

text \<open>A new cell with the data read into it, held by one local handle; and the end of that handle.\<close>

definition ks_alloc :: "pl_key_data \<Rightarrow> 'o key_store \<Rightarrow> nat \<times> 'o key_store" where
  "ks_alloc d st = (ks_next st,
     st\<lparr>ks_cells := (ks_cells st)(ks_next st := \<lparr>kc_data = d, kc_obj = None, kc_refs = 1\<rparr>),
        ks_next := ks_next st + 1\<rparr>)"

definition ks_drop :: "nat \<Rightarrow> 'o key_store \<Rightarrow> 'o key_store" where
  "ks_drop a st = st\<lparr>ks_cells := cell_unref a (ks_cells st)\<rparr>"

definition rm_AddKey :: "nat \<Rightarrow> 'o key_store \<Rightarrow> nat \<times> 'o key_store" where
  "rm_AddKey a st = (case ks_find a st of (Some b, st1) \<Rightarrow> (b, st1) | (None, st1) \<Rightarrow> (a, ks_add a st1))"

definition rm_AddObject :: "pl_location \<Rightarrow> nat \<Rightarrow> 'o key_store \<Rightarrow> 'o key_store" where
  "rm_AddObject loc a st = snd (rm_AddKey a (ks_setLocation a loc st))"

text \<open>What becomes of an identifier that has been read: the one key the store has for it.\<close>

definition rm_intern :: "bool \<Rightarrow> pl_uoid \<Rightarrow> 'o key_store \<Rightarrow> nat option \<times> 'o key_store" where
  "rm_intern preserveIDs u st =
     (case ks_alloc (key_data_new\<lparr>k_uoid := u\<rparr>) st of (a, st1) \<Rightarrow>
      if \<not> loc_isValid (u_location u) then (None, ks_drop a st1)
      else (case rm_AddKey a st1 of (b, st2) \<Rightarrow>
        (Some b, ks_drop a ((if preserveIDs then ks_setID b (ks_id st2 a) st2 else st2)
                   \<lparr>ks_cells := cell_ref b (ks_cells (if preserveIDs then ks_setID b (ks_id st2 a) st2 else st2))\<rparr>))))"

definition rm_readUoid :: "st_lib \<Rightarrow> plasma_ver \<Rightarrow> bool \<Rightarrow> 'o key_store \<Rightarrow> (nat option \<times> 'o key_store) io" where
  "rm_readUoid L rv preserveIDs st =
     io_bind getVer (\<lambda>v.
     if rv \<noteq> v then io_throw VersionMismatchException
     else io_bind (uoid_read L uoid_new) (\<lambda>u. io_return (rm_intern preserveIDs u st)))"

definition rm_readKey :: "st_lib \<Rightarrow> plasma_ver \<Rightarrow> bool \<Rightarrow> 'o key_store \<Rightarrow> (nat option \<times> 'o key_store) io" where
  "rm_readKey L rv preserveIDs st =
     io_bind getVer (\<lambda>v.
     if rv \<noteq> v then io_throw VersionMismatchException
     else if isUru v \<or> isUniversal v then
       io_bind readBool (\<lambda>ex. if ex then rm_readUoid L rv preserveIDs st else io_return (None, st))
     else rm_readUoid L rv preserveIDs st)"

definition rm_writeUoid :: "plasma_ver \<Rightarrow> nat option \<Rightarrow> 'o key_store \<Rightarrow> 'o key_store io" where
  "rm_writeUoid rv k st =
     io_bind getVer (\<lambda>v.
     if rv \<noteq> v then io_throw VersionMismatchException
     else (case k of
       None \<Rightarrow> io_bind (uoid_write uoid_new) (\<lambda>_. io_return st)
     | Some a \<Rightarrow> io_bind (uoid_write (ks_uoid st a)) (\<lambda>u. io_return (ks_upd_uoid a (\<lambda>_. u) st))))"

definition rm_writeKey :: "plasma_ver \<Rightarrow> nat option \<Rightarrow> 'o key_store \<Rightarrow> 'o key_store io" where
  "rm_writeKey rv k st =
     io_bind getVer (\<lambda>v.
     if rv \<noteq> v then io_throw VersionMismatchException
     else io_then (io_when (isUru v \<or> isUniversal v) (writeBool (k \<noteq> None)))
       (io_bind getVer (\<lambda>v. if k \<noteq> None \<or> isNewPlasma v then rm_writeUoid rv k st else io_return st)))"

section \<open>The key index of a page\<close>

definition has_flags :: "plasma_ver \<Rightarrow> bool" where
  "has_flags v \<longleftrightarrow> MAKE_VERSION 2 0 70 0 \<le> v \<and> \<not> isUniversal v"

text \<open>An entry of the index joins the store, or updates the key that is there already.\<close>

definition ring_put :: "pl_key_data \<Rightarrow> 'o key_store \<Rightarrow> 'o key_store" where
  "ring_put d st =
     (case ks_alloc d st of (a, st1) \<Rightarrow>
      case ks_find a st1 of
        (Some b, st2) \<Rightarrow> ks_drop a (st2\<lparr>ks_cells := (ks_cells st2)
          (b := (ks_cells st2 b)\<lparr>kc_data := (kc_data (ks_cells st2 b))\<lparr>k_fileOff := k_fileOff d, k_objSize := k_objSize d\<rparr>\<rparr>)\<rparr>)
      | (None, st2) \<Rightarrow> ks_drop a (ks_add a st2))"

fun ring_keys :: "st_lib \<Rightarrow> nat \<Rightarrow> 'o key_store \<Rightarrow> 'o key_store io" where
  "ring_keys L 0 st = io_return st"
| "ring_keys L (Suc n) st = io_bind (key_read L key_data_new) (\<lambda>d. ring_keys L n (ring_put d st))"

definition ring_flags :: "plasma_ver \<Rightarrow> u32 io" where
  "ring_flags v =
     (if has_flags v then io_bind readInt (\<lambda>_. io_bind readByte (\<lambda>f. io_return (ucast f)))
      else io_return kNotOptimized)"

text \<open>\<open>reserve\<close> takes the count as an \<open>int\<close> and fails on a negative one.\<close>

definition ring_type :: "st_lib \<Rightarrow> pl_location \<Rightarrow> u32 \<times> 'o key_store \<Rightarrow> (u32 \<times> 'o key_store) io" where
  "ring_type L loc = (\<lambda>(cnt, st).
     io_bind readShort (\<lambda>h. io_bind getVer (\<lambda>v.
     let t = PlasmaToMapped (sint h) v in
     io_bind (ring_flags v) (\<lambda>flags. io_bind readInt (\<lambda>n.
     if sint n < 0 then io_throw StdLengthError
     else io_bind (ring_keys L (unat n) (ks_touch loc t st)) (\<lambda>st1.
       io_return (cnt + n, ks_setFlags loc t flags st1)))))))"

fun ring_types :: "st_lib \<Rightarrow> pl_location \<Rightarrow> nat \<Rightarrow> u32 \<times> 'o key_store \<Rightarrow> (u32 \<times> 'o key_store) io" where
  "ring_types L loc 0 r = io_return r"
| "ring_types L loc (Suc n) r = io_bind (ring_type L loc r) (ring_types L loc n)"

definition ReadKeyring ::
    "st_lib \<Rightarrow> (bytes \<Rightarrow> bytes \<Rightarrow> int) \<Rightarrow> bool \<Rightarrow> pl_location \<Rightarrow> 'o key_store \<Rightarrow> (u32 \<times> 'o key_store) io" where
  "ReadKeyring L compare_i preserveIDs loc st =
     io_bind readInt (\<lambda>tCount. io_bind (ring_types L loc (unat tCount) (0, st)) (\<lambda>(cnt, st1).
     io_return (cnt, if preserveIDs then st1 else ks_sortKeys compare_i loc st1)))"

fun ring_write_keys :: "nat list \<Rightarrow> 'o key_store \<Rightarrow> 'o key_store io" where
  "ring_write_keys [] st = io_return st"
| "ring_write_keys (a # as) st =
     io_bind (key_write (kc_data (ks_cells st a))) (\<lambda>d.
       ring_write_keys as (st\<lparr>ks_cells := (ks_cells st)(a := (ks_cells st a)\<lparr>kc_data := d\<rparr>)\<rparr>))"

definition ring_patch :: "nat \<Rightarrow> unit io" where
  "ring_patch lenPos =
     io_bind getVer (\<lambda>v. io_when (has_flags v)
       (io_bind st_tell (\<lambda>nextPos.
         io_then (st_seek lenPos)
           (io_then (writeInt (word_of_nat nextPos - word_of_nat lenPos - 4)) (st_seek nextPos)))))"

definition ring_write_type :: "pl_location \<Rightarrow> int \<Rightarrow> 'o key_store \<Rightarrow> 'o key_store io" where
  "ring_write_type loc t st =
     (case ks_getKeys loc t True st of (kList, st1) \<Rightarrow>
      if kList = [] then io_throw UndefinedBehaviour
      else
        io_bind getVer (\<lambda>v.
        io_then (writeShort (word_of_int (MappedToPlasma (ks_type st1 (hd kList)) v)))
        (io_bind st_tell (\<lambda>lenPos.
         io_bind getVer (\<lambda>v.
         io_then (io_when (has_flags v)
           (io_then (writeInt 0) (writeByte (ucast (fst (ks_getFlags loc t st1))))))
         (io_then (writeInt (word_of_nat (length kList)))
         (io_bind (ring_write_keys kList st1) (\<lambda>st2. io_then (ring_patch lenPos) (io_return st2)))))))))"

fun ring_write_types :: "pl_location \<Rightarrow> int list \<Rightarrow> 'o key_store \<Rightarrow> 'o key_store io" where
  "ring_write_types loc [] st = io_return st"
| "ring_write_types loc (t # ts) st = io_bind (ring_write_type loc t st) (ring_write_types loc ts)"

definition WriteKeyring :: "pl_location \<Rightarrow> 'o key_store \<Rightarrow> 'o key_store io" where
  "WriteKeyring loc st =
     (case ks_getTypes loc True st of (types, st1) \<Rightarrow>
      io_then (writeInt (word_of_nat (length types))) (ring_write_types loc types st1))"

section \<open>The index on the wire\<close>

text \<open>
  The content of an index: for each class its flags and the entries.  \<open>ring_load\<close> is what reading
  it makes of the store.
\<close>

type_synonym ring = "(int \<times> u8 \<times> pl_key_data list) list"

definition key_decoded :: "plasma_ver \<Rightarrow> pl_key_data \<Rightarrow> pl_key_data" where
  "key_decoded v d = key_upd v key_data_new d"

definition ring_body :: "plasma_ver \<Rightarrow> pl_key_data list \<Rightarrow> bytes" where
  "ring_body v ds = le32 (word_of_nat (length ds)) @ concat (map (key_image v) ds)"

definition ring_entry_image :: "plasma_ver \<Rightarrow> int \<times> u8 \<times> pl_key_data list \<Rightarrow> bytes" where
  "ring_entry_image v = (\<lambda>(t, f, ds).
     le16 (word_of_int (MappedToPlasma t v)) @
     (if has_flags v then le32 (word_of_nat (1 + length (ring_body v ds))) @ [f] else []) @ ring_body v ds)"

definition ring_image :: "plasma_ver \<Rightarrow> ring \<Rightarrow> bytes" where
  "ring_image v r = le32 (word_of_nat (length r)) @ concat (map (ring_entry_image v) r)"

definition ring_entry_ok :: "st_lib \<Rightarrow> plasma_ver \<Rightarrow> int \<times> u8 \<times> pl_key_data list \<Rightarrow> bool" where
  "ring_entry_ok L v = (\<lambda>(t, f, ds). class_ok v t \<and> list_all (key_ok L v) ds \<and> length ds < 2 ^ 31)"

definition load_entry :: "plasma_ver \<Rightarrow> pl_location \<Rightarrow> 'o key_store \<Rightarrow> int \<times> u8 \<times> pl_key_data list \<Rightarrow> 'o key_store" where
  "load_entry v loc st = (\<lambda>(t, f, ds).
     ks_setFlags loc t (if has_flags v then ucast f else kNotOptimized)
       (fold ring_put (map (key_decoded v) ds) (ks_touch loc t st)))"

lemma parses_ring_keys:
  "list_all (key_ok L v) ds \<Longrightarrow>
   parses (ring_keys L (length ds) st) v (concat (map (key_image v) ds)) (fold ring_put (map (key_decoded v) ds) st) v"
proof (induction ds arbitrary: st)
  case (Cons d ds)
  then have "parses (key_read L key_data_new) v (key_image v d) (key_decoded v d) v"
    unfolding key_decoded_def by (intro key_data.rd_parses) simp
  then have "parses (io_bind (key_read L key_data_new) (\<lambda>d. ring_keys L (length ds) (ring_put d st))) v
      (key_image v d @ concat (map (key_image v) ds)) (fold ring_put (map (key_decoded v) ds) (ring_put (key_decoded v d) st)) v"
    by (rule parses_bind) (use Cons in simp)
  then show ?case by simp
qed (simp add: parses_return)

lemma parses_ring_flags:
  "parses (ring_flags v) v (if has_flags v then le32 len @ [f] else []) (if has_flags v then ucast f else kNotOptimized) v"
  using parses_bind [OF parses_prims(3) parses_bind_return [OF parses_prims(1)]]
  by (auto simp: ring_flags_def parses_return)

lemma sint_nonneg: "n < 2 ^ 31 \<Longrightarrow> \<not> sint (word_of_nat n :: u32) < 0"
proof -
  assume n: "n < 2 ^ 31"
  have "sint (word_of_nat n :: u32) = signed_take_bit 31 (int n)" by (simp add: signed_of_nat)
  also have "\<dots> = int n" using n by (simp add: signed_take_bit_int_eq_self)
  finally show ?thesis by simp
qed

lemma parses_ring_type:
  assumes "ring_entry_ok L v e"
  shows "parses (ring_type L loc (cnt, st)) v (ring_entry_image v e)
    (cnt + word_of_nat (length (snd (snd e))), load_entry v loc st e) v"
proof -
  obtain t f ds where e: "e = (t, f, ds)" by (cases e)
  with assms have ok: "class_ok v t" "list_all (key_ok L v) ds" and n: "length ds < 2 ^ 31"
    by (simp_all add: ring_entry_ok_def)
  have t: "PlasmaToMapped (sint (word_of_int (MappedToPlasma t v) :: u16)) v = t"
    using ok(1) by (intro m2p_short) (auto simp: class_ok_def)
  have u: "unat (word_of_nat (length ds) :: u32) = length ds" using n by (simp add: unat_of_nat take_bit_nat_eq_self)
  show ?thesis
    unfolding ring_type_def e ring_entry_image_def ring_body_def load_entry_def Let_def prod.case snd_conv
    by (rule parses_bind [OF parses_prims(2)], rule parses_ver, unfold t, rule parses_bind [OF parses_ring_flags],
        rule parses_bind [OF parses_prims(3)], subst if_not_P [OF sint_nonneg [OF n]], unfold u,
        rule parses_bind_return [OF parses_ring_keys [OF ok(2)]])
qed

definition ring_count :: "ring \<Rightarrow> u32" where
  "ring_count r = word_of_nat (sum_list (map (\<lambda>e. length (snd (snd e))) r))"

lemma parses_ring_types:
  "list_all (ring_entry_ok L v) r \<Longrightarrow>
   parses (ring_types L loc (length r) (cnt, st)) v (concat (map (ring_entry_image v) r))
     (cnt + ring_count r, foldl (load_entry v loc) st r) v"
proof (induction r arbitrary: cnt st)
  case (Cons e r)
  from Cons.prems have "ring_entry_ok L v e" by simp
  note e = parses_ring_type [OF this, of loc cnt st]
  have "parses (io_bind (ring_type L loc (cnt, st)) (ring_types L loc (length r))) v
      (ring_entry_image v e @ concat (map (ring_entry_image v) r))
      (cnt + word_of_nat (length (snd (snd e))) + ring_count r, foldl (load_entry v loc) (load_entry v loc st e) r) v"
    by (rule parses_bind [OF e], rule Cons.IH) (use Cons.prems in simp)
  then show ?case by (simp add: ring_count_def add.assoc)
qed (simp add: parses_return ring_count_def)

definition ring_load :: "plasma_ver \<Rightarrow> (bytes \<Rightarrow> bytes \<Rightarrow> int) \<Rightarrow> bool \<Rightarrow> pl_location \<Rightarrow> 'o key_store \<Rightarrow> ring \<Rightarrow> 'o key_store" where
  "ring_load v ci preserveIDs loc st r =
     (if preserveIDs then foldl (load_entry v loc) st r else ks_sortKeys ci loc (foldl (load_entry v loc) st r))"

lemma parses_ReadKeyring:
  assumes "list_all (ring_entry_ok L v) r" "length r < 2 ^ 32"
  shows "parses (ReadKeyring L ci pres loc st) v (ring_image v r) (ring_count r, ring_load v ci pres loc st r) v"
proof -
  have u: "unat (word_of_nat (length r) :: u32) = length r" using assms(2) by (simp add: unat_of_nat take_bit_nat_eq_self)
  have "parses (ring_types L loc (length r) (0, st)) v (concat (map (ring_entry_image v) r))
     (ring_count r, foldl (load_entry v loc) st r) v"
    using parses_ring_types [OF assms(1), of loc 0 st] by simp
  then have "parses (io_bind (ring_types L loc (length r) (0, st)) (\<lambda>(cnt, st1). io_return
      (cnt, if pres then st1 else ks_sortKeys ci loc st1))) v
      (concat (map (ring_entry_image v) r)) (ring_count r, ring_load v ci pres loc st r) v"
    unfolding case_prod_unfold by (rule parses_eq [OF parses_bind_return]) (simp add: ring_load_def)
  then show ?thesis
    unfolding ReadKeyring_def ring_image_def
    by (intro parses_bind [OF parses_prims(3)]) (simp only: u)
qed

text \<open>The writer goes back to fill in the length of an entry.\<close>

lemma io_bind_assoc: "io_bind (io_bind m f) g = io_bind m (\<lambda>x. io_bind (f x) g)"
  by (rule ext) (auto simp: io_simps split: sum.split)

lemma io_then_bind: "io_bind (io_then m k) g = io_then m (io_bind k g)"
  by (simp add: io_then_def io_bind_assoc)

lemma overwrite_patch: "length b' = length b \<Longrightarrow> overwrite (pre @ b @ rest) (length pre) b' = pre @ b' @ rest"
  by (simp add: overwrite_def)

lemma emits_patched:
  assumes "emits body v ((if has_flags v then le32 0 else []) @ bs) x v"
  shows "emits (io_bind st_tell (\<lambda>p. io_bind body (\<lambda>x. io_then (ring_patch p) (io_return x)))) v
    ((if has_flags v then le32 (word_of_nat (length bs)) else []) @ bs) x v"
proof (cases "has_flags v")
  case False
  with emitsD [OF assms] show ?thesis
    by (simp add: emits_def io_simps st_tell_def ring_patch_def io_when_def)
next
  case True
  have len: "(word_of_nat (a + (4 + n)) - word_of_nat a - 4 :: u32) = word_of_nat n" for a n by simp
  show ?thesis
    unfolding emits_def
  proof
    fix pre
    have "body \<lparr>s_ver = v, s_data = pre, s_pos = length pre\<rparr> =
        Inr (x, \<lparr>s_ver = v, s_data = pre @ le32 0 @ bs, s_pos = length pre + (4 + length bs)\<rparr>)"
      using emitsD [OF assms, of pre] True by simp
    then show "io_bind st_tell (\<lambda>p. io_bind body (\<lambda>x. io_then (ring_patch p) (io_return x)))
        \<lparr>s_ver = v, s_data = pre, s_pos = length pre\<rparr> =
      Inr (x, \<lparr>s_ver = v, s_data = pre @ (if has_flags v then le32 (word_of_nat (length bs)) else []) @ bs,
        s_pos = length pre + length ((if has_flags v then le32 (word_of_nat (length bs)) else []) @ bs)\<rparr>)"
      using True by (simp add: io_simps st_tell_def ring_patch_def io_when_def st_seek_def writeInt_def st_write_def
          overwrite_patch len del: of_nat_add)
  qed
qed

text \<open>Writing a key gives its location the version it was written for.\<close>

definition key_written :: "plasma_ver \<Rightarrow> pl_key_data \<Rightarrow> pl_key_data" where
  "key_written v d = d\<lparr>k_uoid := (k_uoid d)\<lparr>u_location := loc_write_ver v (u_location (k_uoid d))\<rparr>\<rparr>"

definition mark_written :: "plasma_ver \<Rightarrow> nat list \<Rightarrow> 'o key_store \<Rightarrow> 'o key_store" where
  "mark_written v as st = fold (\<lambda>a st. st\<lparr>ks_cells := (ks_cells st)
     (a := (ks_cells st a)\<lparr>kc_data := key_written v (kc_data (ks_cells st a))\<rparr>)\<rparr>) as st"

lemma emits_key_write:
  "key_ok L v d \<Longrightarrow> emits (key_write d) v (key_image v d) (key_written v d) v"
  unfolding key_write_def key_image_def key_ok_def key_written_def
  by (rule emits_cong, rule emits_bind [OF emits_uoid_write], assumption,
      (rule emits_then emits_prims(3) emits_return)+) simp_all

definition cell_data :: "'o key_store \<Rightarrow> nat \<Rightarrow> pl_key_data" where
  "cell_data st a = kc_data (ks_cells st a)"

lemma mark_written_simps [simp]:
  "mark_written v [] st = st"
  "mark_written v (a # as) st = mark_written v as (st\<lparr>ks_cells := (ks_cells st)
     (a := (ks_cells st a)\<lparr>kc_data := key_written v (kc_data (ks_cells st a))\<rparr>)\<rparr>)"
  by (simp_all add: mark_written_def)

lemma mark_written_keys [simp]:
  "ks_keys (mark_written v as st) = ks_keys st" "ks_next (mark_written v as st) = ks_next st"
  "kc_obj (ks_cells (mark_written v as st) b) = kc_obj (ks_cells st b)"
  by (induction as arbitrary: st) auto

lemma mark_written_data:
  "distinct as \<Longrightarrow> cell_data (mark_written v as st) b = (if b \<in> set as then key_written v (cell_data st b) else cell_data st b)"
  by (induction as arbitrary: st) (auto simp: cell_data_def)

lemma emits_ring_write_keys:
  "distinct as \<Longrightarrow> \<forall>a \<in> set as. key_ok L v (cell_data st a) \<Longrightarrow>
   emits (ring_write_keys as st) v (concat (map (key_image v) (map (cell_data st) as))) (mark_written v as st) v"
proof (induction as arbitrary: st)
  case (Cons a as)
  let ?st = "st\<lparr>ks_cells := (ks_cells st)(a := (ks_cells st a)\<lparr>kc_data := key_written v (kc_data (ks_cells st a))\<rparr>)\<rparr>"
  have same: "map (cell_data ?st) as = map (cell_data st) as"
    using Cons.prems(1) by (intro map_cong refl) (auto simp: cell_data_def)
  have "emits (ring_write_keys as ?st) v (concat (map (key_image v) (map (cell_data ?st) as))) (mark_written v as ?st) v"
    using Cons.prems by (intro Cons.IH) (auto simp: cell_data_def)
  note rest = this [unfolded same]
  have k: "key_ok L v (kc_data (ks_cells st a))" using Cons.prems(2) by (simp add: cell_data_def)
  have "emits (io_bind (key_write (kc_data (ks_cells st a))) (\<lambda>d. ring_write_keys as
      (st\<lparr>ks_cells := (ks_cells st)(a := (ks_cells st a)\<lparr>kc_data := d\<rparr>)\<rparr>))) v
      (key_image v (kc_data (ks_cells st a)) @ concat (map (key_image v) (map (cell_data st) as))) (mark_written v as ?st) v"
    by (rule emits_bind [OF emits_key_write [OF k]]) (rule rest)
  then show ?case
    by (simp only: ring_write_keys.simps list.map concat.simps mark_written_simps cell_data_def [of st a])
qed (simp add: emits_return)

text \<open>What a page's index holds: for each class with loaded keys its flags and those keys' data.\<close>

definition loaded_keys :: "pl_location \<Rightarrow> int \<Rightarrow> 'o key_store \<Rightarrow> nat list" where
  "loaded_keys loc t st = filter (ks_loaded st) (kv_keys (ks_vec loc t st))"

definition ring_entry_of :: "pl_location \<Rightarrow> 'o key_store \<Rightarrow> int \<Rightarrow> int \<times> u8 \<times> pl_key_data list" where
  "ring_entry_of loc st t = (t, ucast (kv_flags (ks_vec loc t st)), map (cell_data st) (loaded_keys loc t st))"

definition type_written :: "plasma_ver \<Rightarrow> pl_location \<Rightarrow> int \<Rightarrow> 'o key_store \<Rightarrow> 'o key_store" where
  "type_written v loc t st = mark_written v (loaded_keys loc t st) (ks_touch loc t st)"

lemma touch_data [simp]: "cell_data (ks_touch l t st) = cell_data st" "ks_loaded (ks_touch l t st) = ks_loaded st"
  by (simp_all add: cell_data_def ks_loaded_def fun_eq_iff)

lemma emits_ring_write_type:
  assumes loc: "located st" and ne: "loaded_keys loc t st \<noteq> []"
    and ok: "\<forall>a \<in> set (loaded_keys loc t st). key_ok L v (cell_data st a)"
  shows "emits (ring_write_type loc t st) v (ring_entry_image v (ring_entry_of loc st t)) (type_written v loc t st) v"
proof -
  let ?ks = "loaded_keys loc t st" and ?st = "ks_touch loc t st"
  let ?f = "ucast (kv_flags (ks_vec loc t st)) :: u8" and ?B = "ring_body v (map (cell_data st) (loaded_keys loc t st))"
  have g: "ks_getKeys loc t True st = (?ks, ?st)" by (simp add: ks_getKeys_def loaded_keys_def)
  have hd: "hd ?ks \<in> set (kv_keys (ks_vec loc t st))" using ne by (auto simp: loaded_keys_def dest: hd_in_set)
  have ty: "ks_type ?st (hd ?ks) = t" using locatedD(2) [OF loc hd] by (simp add: ks_type_def ks_uoid_cells(3))
  have d: "distinct ?ks" using locatedD(1) [OF loc] by (simp add: loaded_keys_def)
  have keys: "emits (ring_write_keys ?ks ?st) v (concat (map (key_image v) (map (cell_data st) ?ks))) (type_written v loc t st) v"
    using emits_ring_write_keys [OF d, of L v ?st] ok by (simp add: type_written_def)
  have fl: "fst (ks_getFlags loc t ?st) = kv_flags (ks_vec loc t st)" by (simp add: ks_getFlags_def)
  define body where "body = io_then (io_when (has_flags v) (io_then (writeInt 0) (writeByte ?f)))
      (io_then (writeInt (word_of_nat (length ?ks))) (ring_write_keys ?ks ?st))"
  have "emits body v ((if has_flags v then le32 0 @ [?f] else []) @ ?B) (type_written v loc t st) v"
    unfolding body_def ring_body_def length_map
    by (rule emits_then [OF emits_when [OF emits_then [OF emits_prims(3,1)]] emits_then [OF emits_prims(3) keys]])
  then have body: "emits body v ((if has_flags v then le32 0 else []) @ ((if has_flags v then [?f] else []) @ ?B)) (type_written v loc t st) v"
    by (simp split: if_splits)
  have tail: "io_bind st_tell (\<lambda>lenPos. io_then (io_when (has_flags v) (io_then (writeInt 0) (writeByte ?f)))
      (io_then (writeInt (word_of_nat (length ?ks)))
       (io_bind (ring_write_keys ?ks ?st) (\<lambda>st2. io_then (ring_patch lenPos) (io_return st2))))) =
     io_bind st_tell (\<lambda>p. io_bind body (\<lambda>x. io_then (ring_patch p) (io_return x)))"
    by (simp add: body_def io_then_bind)
  have "emits (io_bind st_tell (\<lambda>lenPos. io_bind getVer (\<lambda>v. io_then (io_when (has_flags v) (io_then (writeInt 0) (writeByte ?f)))
      (io_then (writeInt (word_of_nat (length ?ks)))
       (io_bind (ring_write_keys ?ks ?st) (\<lambda>st2. io_then (ring_patch lenPos) (io_return st2))))))) v
     ((if has_flags v then le32 (word_of_nat (length ((if has_flags v then [?f] else []) @ ?B))) else []) @
       ((if has_flags v then [?f] else []) @ ?B)) (type_written v loc t st) v"
    using emits_patched [OF body] unfolding tail [symmetric]
    by (simp add: emits_def io_simps st_tell_def)
  note rest = this
  show ?thesis
    unfolding ring_write_type_def g prod.case ring_entry_image_def ring_entry_of_def ty fl
    by (subst if_not_P [OF ne], rule emits_ver, rule emits_cong, rule emits_then [OF emits_prims(2) rest]) simp_all
qed

lemma touch_cells [simp]: "ks_cells (ks_touch l t st) = ks_cells st" by simp

text \<open>Writing changes neither the vectors nor any data but the location versions of written keys.\<close>

lemma type_written_vec [simp]: "ks_vec l u (type_written v loc t st) = ks_vec l u st"
proof -
  have "ks_vec l u (mark_written v as st') = ks_vec l u st'" for as and st' :: "'a key_store"
    by (rule ks_vec_keys_cong) simp
  then show ?thesis by (simp add: type_written_def)
qed

lemma type_written_data:
  assumes "located st"
  shows "cell_data (type_written v loc t st) b =
    (if b \<in> set (loaded_keys loc t st) then key_written v (cell_data st b) else cell_data st b)"
  using mark_written_data [of "loaded_keys loc t st" v "ks_touch loc t st" b] locatedD(1) [OF assms, of loc t]
  by (simp add: type_written_def loaded_keys_def)

lemma type_written_loaded [simp]: "ks_loaded (type_written v loc t st) = ks_loaded st"
  by (simp add: type_written_def ks_loaded_def fun_eq_iff)

lemma located_data:
  assumes "located st" "\<And>l t. kv_keys (ks_vec l t st') = kv_keys (ks_vec l t st)"
    and "\<And>b. \<exists>w. cell_data st' b = (cell_data st b)\<lparr>k_uoid := (k_uoid (cell_data st b))\<lparr>u_location :=
      (u_location (k_uoid (cell_data st b)))\<lparr>l_ver := w\<rparr>\<rparr>\<rparr>"
  shows "located st'"
proof -
  have u: "\<exists>w. ks_uoid st' b = (ks_uoid st b)\<lparr>u_location := (u_location (ks_uoid st b))\<lparr>l_ver := w\<rparr>\<rparr>" for b
    using assms(3) [of b] by (auto simp: cell_data_def ks_uoid_def)
  have eq: "loc_key (ks_loc st' b) = loc_key (ks_loc st b) \<and> ks_type st' b = ks_type st b \<and>
      uoid_eq (ks_uoid st' b) (ks_uoid st' c) = uoid_eq (ks_uoid st b) (ks_uoid st c)" for b c
    using u [of b] u [of c] by (auto simp: ks_loc_def ks_type_def loc_key_def uoid_eq_def loc_eq_def)
  show ?thesis
    using assms(1) by (simp add: located_def assms(2) eq)
qed

lemma type_written_located:
  assumes "located st" "isSafeVer v"
  shows "located (type_written v loc t st)"
proof (rule located_data [OF assms(1)])
  fix b
  have "cell_data st b = (cell_data st b)\<lparr>k_uoid := (k_uoid (cell_data st b))\<lparr>u_location :=
      (u_location (k_uoid (cell_data st b)))\<lparr>l_ver := l_ver (u_location (k_uoid (cell_data st b)))\<rparr>\<rparr>\<rparr>" by simp
  then show "\<exists>w. cell_data (type_written v loc t st) b = (cell_data st b)\<lparr>k_uoid := (k_uoid (cell_data st b))\<lparr>u_location :=
      (u_location (k_uoid (cell_data st b)))\<lparr>l_ver := w\<rparr>\<rparr>\<rparr>"
    unfolding type_written_data [OF assms(1)] key_written_def loc_write_ver_safe [OF assms(2)] by metis
qed simp

lemma type_written_entry:
  assumes "located st" "u \<noteq> t"
  shows "ring_entry_of loc (type_written v loc t st) u = ring_entry_of loc st u"
proof -
  have "b \<in> set (loaded_keys loc u st) \<Longrightarrow> b \<notin> set (loaded_keys loc t st)" for b
    using located_home(2) [OF assms(1), of b loc u loc t] assms(2) by (auto simp: loaded_keys_def)
  then show ?thesis
    by (auto simp: ring_entry_of_def loaded_keys_def type_written_data [OF assms(1)])
qed

definition ring_written :: "plasma_ver \<Rightarrow> pl_location \<Rightarrow> int list \<Rightarrow> 'o key_store \<Rightarrow> 'o key_store" where
  "ring_written v loc ts st = fold (type_written v loc) ts st"

lemma emits_ring_write_types:
  "located st \<Longrightarrow> isSafeVer v \<Longrightarrow> distinct ts \<Longrightarrow>
   \<forall>t \<in> set ts. loaded_keys loc t st \<noteq> [] \<and> (\<forall>a \<in> set (loaded_keys loc t st). key_ok L v (cell_data st a)) \<Longrightarrow>
   emits (ring_write_types loc ts st) v (concat (map (ring_entry_image v) (map (ring_entry_of loc st) ts)))
     (ring_written v loc ts st) v"
proof (induction ts arbitrary: st)
  case (Cons t ts)
  let ?st = "type_written v loc t st"
  have same: "map (ring_entry_of loc ?st) ts = map (ring_entry_of loc st) ts"
    using Cons.prems(3) by (intro map_cong refl type_written_entry [OF Cons.prems(1)]) auto
  have lk: "loaded_keys loc u ?st = loaded_keys loc u st" for u by (simp add: loaded_keys_def)
  have "emits (ring_write_types loc ts ?st) v (concat (map (ring_entry_image v) (map (ring_entry_of loc ?st) ts)))
     (ring_written v loc ts ?st) v"
  proof (rule Cons.IH [OF type_written_located [OF Cons.prems(1,2)] Cons.prems(2)])
    show "\<forall>u \<in> set ts. loaded_keys loc u ?st \<noteq> [] \<and> (\<forall>a \<in> set (loaded_keys loc u ?st). key_ok L v (cell_data ?st a))"
    proof (intro ballI conjI)
      fix u a
      assume u: "u \<in> set ts"
      then show "loaded_keys loc u ?st \<noteq> []" using Cons.prems(4) by (simp add: lk)
      assume a: "a \<in> set (loaded_keys loc u ?st)"
      have "a \<notin> set (loaded_keys loc t st)"
        using located_home(2) [OF Cons.prems(1), of a loc u loc t] a u Cons.prems(3) by (auto simp: loaded_keys_def)
      then show "key_ok L v (cell_data ?st a)"
        using a u Cons.prems(4) by (simp add: type_written_data [OF Cons.prems(1)] lk)
    qed
  qed (use Cons.prems(3) in simp)
  note rest = this [unfolded same]
  have "emits (io_bind (ring_write_type loc t st) (ring_write_types loc ts)) v
      (ring_entry_image v (ring_entry_of loc st t) @ concat (map (ring_entry_image v) (map (ring_entry_of loc st) ts)))
      (ring_written v loc ts ?st) v"
  proof (rule emits_bind)
    show "emits (ring_write_type loc t st) v (ring_entry_image v (ring_entry_of loc st t)) ?st v"
      by (rule emits_ring_write_type [where L = L]) (use Cons.prems in simp_all)
  qed (rule rest)
  then show ?case by (simp add: ring_written_def)
qed (simp add: emits_return ring_written_def)

definition ring_classes :: "pl_location \<Rightarrow> 'o key_store \<Rightarrow> int list" where
  "ring_classes loc st = filter (\<lambda>t. loaded_keys loc t st \<noteq> []) type_space"

definition ring_of :: "pl_location \<Rightarrow> 'o key_store \<Rightarrow> ring" where
  "ring_of loc st = map (ring_entry_of loc st) (ring_classes loc st)"

definition ring_store :: "plasma_ver \<Rightarrow> pl_location \<Rightarrow> 'o key_store \<Rightarrow> 'o key_store" where
  "ring_store v loc st = ring_written v loc (ring_classes loc st) (snd (ks_getTypes loc True st))"

lemma emits_WriteKeyring:
  assumes "located st" "isSafeVer v" and ok: "\<forall>t. \<forall>a \<in> set (loaded_keys loc t st). key_ok L v (cell_data st a)"
  shows "emits (WriteKeyring loc st) v (ring_image v (ring_of loc st)) (ring_store v loc st) v"
proof -
  obtain ts st1 where g: "ks_getTypes loc True st = (ts, st1)" by fastforce
  note G = getTypes_eq [OF g]
  have ts: "ts = ring_classes loc st"
    using G by (simp add: ring_classes_def loaded_keys_def filter_empty_conv list_ex_iff)
  have data: "cell_data st1 = cell_data st" "ks_loaded st1 = ks_loaded st"
    using G by (simp_all add: cell_data_def ks_loaded_def fun_eq_iff)
  have lk: "loaded_keys loc u st1 = loaded_keys loc u st" for u using G data by (simp add: loaded_keys_def)
  have ent: "ring_entry_of loc st1 = ring_entry_of loc st"
    using G lk data by (simp add: ring_entry_of_def fun_eq_iff)
  have "emits (ring_write_types loc ts st1) v (concat (map (ring_entry_image v) (map (ring_entry_of loc st1) ts)))
     (ring_written v loc ts st1) v"
    by (rule emits_ring_write_types) (use getTypes_invariant(1) [OF g] assms lk data ts in \<open>auto simp: ring_classes_def\<close>)
  then have "emits (io_then (writeInt (word_of_nat (length ts))) (ring_write_types loc ts st1)) v
      (le32 (word_of_nat (length ts)) @ concat (map (ring_entry_image v) (map (ring_entry_of loc st1) ts)))
      (ring_written v loc ts st1) v"
    by (rule emits_then [OF emits_prims(3)])
  then show ?thesis
    unfolding WriteKeyring_def g prod.case ring_image_def ring_of_def ring_store_def ent ts [symmetric] length_map
    by simp
qed

section \<open>What reading an index makes of the store\<close>

text \<open>
  Seen from outside, the store is the list of key data of each page and class.  \<open>bounded\<close>: cells
  from \<open>ks_next\<close> on are not in use.
\<close>

definition page_data :: "pl_location \<Rightarrow> int \<Rightarrow> 'o key_store \<Rightarrow> pl_key_data list" where
  "page_data l t st = map (cell_data st) (kv_keys (ks_vec l t st))"

definition bounded :: "'o key_store \<Rightarrow> bool" where
  "bounded st \<longleftrightarrow> (\<forall>l t. \<forall>a \<in> set (kv_keys (ks_vec l t st)). a < ks_next st)"

definition with_id :: "nat \<Rightarrow> pl_key_data \<Rightarrow> pl_key_data" where
  "with_id n d = (if u_objID (k_uoid d) = 0 then d\<lparr>k_uoid := (k_uoid d)\<lparr>u_objID := word_of_nat n\<rparr>\<rparr> else d)"

definition absent :: "pl_uoid \<Rightarrow> 'o key_store \<Rightarrow> bool" where
  "absent u st \<longleftrightarrow> (\<forall>d \<in> set (page_data (u_location u) (u_classType u) st). \<not> uoid_eq (k_uoid d) u)"

lemma add_data:
  "cell_data (ks_add a st) b =
     (if b = a then with_id (length (kv_keys (ks_vec (ks_loc st a) (ks_type st a) st)) + 1) (cell_data st a)
      else cell_data st b)"
  by (simp add: ks_add_def Let_def cell_data_def ks_push_def ks_mark_def ks_setID_def ks_upd_uoid_def ks_id_def
      ks_uoid_def ks_size_def with_id_def add.commute)

lemma add_next [simp]: "ks_next (ks_add a st) = ks_next st"
  by (simp add: ks_add_def Let_def ks_push_def ks_mark_def ks_setID_def ks_upd_uoid_def)

lemma drop_simps [simp]:
  "ks_vec l t (ks_drop a st) = ks_vec l t st" "cell_data (ks_drop a st) = cell_data st"
  "ks_next (ks_drop a st) = ks_next st" "ks_uoid (ks_drop a st) = ks_uoid st"
  by (simp_all add: ks_drop_def cell_data_def ks_uoid_def fun_eq_iff)

lemma ks_uoid_data: "ks_uoid st a = k_uoid (cell_data st a)"
  by (simp add: ks_uoid_def cell_data_def)

lemma alloc_cases:
  obtains s0 where "ks_alloc d st = (ks_next st, s0)" "\<And>l t. ks_vec l t s0 = ks_vec l t st"
    "\<And>b. cell_data s0 b = (if b = ks_next st then d else cell_data st b)" "ks_next s0 = ks_next st + 1"
proof
  let ?s0 = "snd (ks_alloc d st)"
  show "ks_alloc d st = (ks_next st, ?s0)" by (simp add: ks_alloc_def)
  show "ks_vec l t ?s0 = ks_vec l t st" for l t by (rule ks_vec_keys_cong) (simp add: ks_alloc_def)
  show "cell_data ?s0 b = (if b = ks_next st then d else cell_data st b)" for b
    by (simp add: ks_alloc_def cell_data_def)
  show "ks_next ?s0 = ks_next st + 1" by (simp add: ks_alloc_def)
qed

lemma located_on:
  assumes "located st" "\<And>l t. kv_keys (ks_vec l t st') = kv_keys (ks_vec l t st)"
    and "\<And>l t b. b \<in> set (kv_keys (ks_vec l t st)) \<Longrightarrow> cell_data st' b = cell_data st b"
  shows "located st'"
  using assms(1,3) unfolding located_def Let_def assms(2)
  by (simp add: ks_loc_def ks_type_def ks_uoid_data)

lemma ring_put_new:
  assumes "bounded st" "located st" "absent (k_uoid d) st"
  defines "l \<equiv> u_location (k_uoid d)" and "t \<equiv> u_classType (k_uoid d)"
  shows "page_data l' t' (ring_put d st) =
      (if loc_key l' = loc_key l \<and> t' = t then page_data l' t' st @ [with_id (length (page_data l t st) + 1) d]
       else page_data l' t' st)"
    "bounded (ring_put d st)" "located (ring_put d st)"
proof -
  let ?a = "ks_next st"
  obtain s0 where alloc: "ks_alloc d st = (?a, s0)" and v0: "\<And>l t. ks_vec l t s0 = ks_vec l t st"
    and d0: "\<And>b. cell_data s0 b = (if b = ?a then d else cell_data st b)" and n0: "ks_next s0 = ?a + 1"
    by (rule alloc_cases [of d st]) (rule that)
  let ?s1 = "ks_touch l t s0"
  have fresh: "?a \<notin> set (kv_keys (ks_vec l' t' st))" for l' t' using assms(1) by (auto simp: bounded_def)
  have u: "ks_uoid s0 b = (if b = ?a then k_uoid d else ks_uoid st b)" for b by (simp add: ks_uoid_data d0)
  have lt: "ks_loc s0 ?a = l" "ks_type s0 ?a = t" by (simp_all add: ks_loc_def ks_type_def u l_def t_def)
  have not_eq: "b \<in> set (kv_keys (ks_vec l t st)) \<Longrightarrow> b \<noteq> ?a \<and> \<not> uoid_eq (ks_uoid s0 b) (k_uoid d)" for b
  proof
    assume b: "b \<in> set (kv_keys (ks_vec l t st))"
    then show ne: "b \<noteq> ?a" using fresh [of l t] by blast
    have "ks_uoid s0 b = k_uoid (cell_data st b)" using ne u by (simp add: ks_uoid_data)
    with b assms(3) show "\<not> uoid_eq (ks_uoid s0 b) (k_uoid d)" by (simp add: absent_def page_data_def l_def t_def)
  qed
  have not_old: "b \<in> set (kv_keys (ks_vec l t st)) \<Longrightarrow> \<not> uoid_eq (ks_uoid st b) (k_uoid d) \<and> b \<noteq> ?a" for b
    using not_eq u by metis
  have find: "ks_find ?a s0 = (None, ?s1)"
    using not_old by (auto simp: ks_find_def Let_def lt v0 ks_uoid_cells(3) find_None_iff u)
  have put: "ring_put d st = ks_drop ?a (ks_add ?a ?s1)"
    by (simp add: ring_put_def alloc find)
  have lt1: "ks_loc ?s1 ?a = l" "ks_type ?s1 ?a = t"
    using lt by (simp_all add: ks_loc_def ks_type_def ks_uoid_cells(3))
  have home: "ks_home l' t' ?a ?s1 \<longleftrightarrow> loc_key l' = loc_key l \<and> t' = t" for l' t' by (simp add: ks_home_def lt1)
  have v1: "ks_vec l' t' ?s1 = ks_vec l' t' st" for l' t' by (simp add: v0)
  have vec: "kv_keys (ks_vec l' t' (ring_put d st)) =
      kv_keys (ks_vec l' t' st) @ (if loc_key l' = loc_key l \<and> t' = t then [?a] else [])" for l' t'
    by (simp add: put add_vec home v0)
  have data: "cell_data (ring_put d st) b = (if b = ?a then with_id (length (page_data l t st) + 1) d else cell_data st b)" for b
    by (simp add: put add_data lt1 v0 page_data_def d0)
  have old: "map (cell_data (ring_put d st)) (kv_keys (ks_vec l' t' st)) = page_data l' t' st" for l' t'
    unfolding page_data_def using fresh [of l' t'] by (intro map_cong refl) (auto simp: data)
  show "page_data l' t' (ring_put d st) =
      (if loc_key l' = loc_key l \<and> t' = t then page_data l' t' st @ [with_id (length (page_data l t st) + 1) d]
       else page_data l' t' st)" for l' t'
    using old [of l' t'] by (simp add: page_data_def vec data)
  have n: "ks_next (ring_put d st) = ks_next st + 1" by (simp add: put n0)
  show "bounded (ring_put d st)"
    using assms(1) by (fastforce simp: bounded_def vec n split: if_splits)
  have "located ?s1"
    by (rule located_on [OF assms(2)]) (use fresh in \<open>auto simp: v0 d0\<close>)
  moreover have "unregistered ?a ?s1"
    using not_old by (auto simp: unregistered_def Let_def lt1 v0 ks_uoid_cells(3) u)
  ultimately have "located (ks_add ?a ?s1)" by (rule located_add)
  then show "located (ring_put d st)" unfolding put by (rule located_on) simp_all
qed

lemma some_key: "xs \<noteq> [] \<Longrightarrow> \<exists>a. a \<in> set xs"
  by (cases xs) auto

lemma ids_data: "map (ks_id st) (kv_keys (ks_vec l t st)) = map (\<lambda>d. u_objID (k_uoid d)) (page_data l t st)"
  by (simp add: page_data_def ks_id_def ks_uoid_data)

lemma page_data_key: "loc_key l = loc_key l' \<Longrightarrow> page_data l t st = page_data l' t st"
  unfolding page_data_def using ks_vec_key by metis

fun number :: "nat \<Rightarrow> pl_key_data list \<Rightarrow> pl_key_data list" where
  "number n [] = []"
| "number n (d # ds) = with_id (n + 1) d # number (n + 1) ds"

definition belongs :: "pl_location \<Rightarrow> int \<Rightarrow> pl_key_data \<Rightarrow> bool" where
  "belongs loc t d \<longleftrightarrow> loc_key (u_location (k_uoid d)) = loc_key loc \<and> u_classType (k_uoid d) = t"

definition apart :: "pl_key_data list \<Rightarrow> bool" where
  "apart ds \<longleftrightarrow> sorted_wrt (\<lambda>a b. \<not> uoid_eq (k_uoid a) (k_uoid b)) ds"

lemma uoid_eq_with_id [simp]: "uoid_eq (k_uoid (with_id n d)) u = uoid_eq (k_uoid d) u"
  by (simp add: with_id_def uoid_eq_def)

lemma put_entries:
  "bounded st \<Longrightarrow> located st \<Longrightarrow> list_all (belongs loc t) ds \<Longrightarrow> apart ds \<Longrightarrow> \<forall>d \<in> set ds. absent (k_uoid d) st \<Longrightarrow>
   bounded (fold ring_put ds st) \<and> located (fold ring_put ds st) \<and>
   page_data loc t (fold ring_put ds st) = page_data loc t st @ number (length (page_data loc t st)) ds \<and>
   (\<forall>l' t'. \<not> (loc_key l' = loc_key loc \<and> t' = t) \<longrightarrow> page_data l' t' (fold ring_put ds st) = page_data l' t' st)"
proof (induction ds arbitrary: st)
  case (Cons d ds)
  let ?l = "u_location (k_uoid d)"
  have home: "loc_key ?l = loc_key loc" "u_classType (k_uoid d) = t" using Cons.prems(3) by (simp_all add: belongs_def)
  have "absent (k_uoid d) st" using Cons.prems(5) by simp
  note P = ring_put_new [OF Cons.prems(1,2) this, unfolded home]
  have one: "page_data loc t (ring_put d st) = page_data loc t st @ [with_id (length (page_data loc t st) + 1) d]"
    using P(1) [of loc t] page_data_key [OF home(1), of t st] by simp
  have abs: "\<forall>e \<in> set ds. absent (k_uoid e) (ring_put d st)"
  proof
    fix e
    assume e: "e \<in> set ds"
    then have he: "loc_key (u_location (k_uoid e)) = loc_key loc" "u_classType (k_uoid e) = t"
      using Cons.prems(3) by (auto simp: belongs_def list_all_iff)
    have "absent (k_uoid e) st" "\<not> uoid_eq (k_uoid d) (k_uoid e)"
      using e Cons.prems(4,5) by (auto simp: apart_def)
    then show "absent (k_uoid e) (ring_put d st)"
      using one page_data_key [OF he(1), of t "ring_put d st"] page_data_key [OF he(1), of t st] by (auto simp: absent_def he(2))
  qed
  have IH: "bounded (fold ring_put ds (ring_put d st)) \<and> located (fold ring_put ds (ring_put d st)) \<and>
     page_data loc t (fold ring_put ds (ring_put d st)) =
       page_data loc t (ring_put d st) @ number (length (page_data loc t (ring_put d st))) ds \<and>
     (\<forall>l' t'. \<not> (loc_key l' = loc_key loc \<and> t' = t) \<longrightarrow>
       page_data l' t' (fold ring_put ds (ring_put d st)) = page_data l' t' (ring_put d st))"
    using Cons.prems(3,4) by (intro Cons.IH P(2,3) abs) (simp_all add: apart_def)
  then show ?case using P(1) one by simp
qed simp

text \<open>One class of the index into a page that has no keys of that class.\<close>

lemma setFlags_data [simp]: "page_data l u (ks_setFlags loc t f st) = page_data l u st"
proof -
  have "kv_keys (ks_vec l u (ks_setFlags loc t f st)) = kv_keys (ks_vec l u st)"
    using ks_vec_key [of l loc t st] by (simp add: ks_setFlags_def)
  moreover have "cell_data (ks_setFlags loc t f st) = cell_data st"
    by (simp add: cell_data_def ks_setFlags_def fun_eq_iff)
  ultimately show ?thesis by (simp add: page_data_def)
qed

lemma bounded_setFlags [simp]: "bounded (ks_setFlags loc t f st) = bounded st"
proof -
  have "kv_keys (ks_vec l u (ks_setFlags loc t f st)) = kv_keys (ks_vec l u st)" for l u
    using ks_vec_key [of l loc t st] by (simp add: ks_setFlags_def)
  then show ?thesis by (simp add: bounded_def) (simp add: ks_setFlags_def)
qed

lemma bounded_touch [simp]: "bounded (ks_touch l t st) = bounded st" "page_data l' t' (ks_touch l t st) = page_data l' t' st"
  by (simp_all add: bounded_def page_data_def)

definition entry_fits :: "plasma_ver \<Rightarrow> pl_location \<Rightarrow> int \<times> u8 \<times> pl_key_data list \<Rightarrow> bool" where
  "entry_fits v loc = (\<lambda>(t, f, ds). list_all (belongs loc t) (map (key_decoded v) ds) \<and> apart (map (key_decoded v) ds))"

lemma load_entry_new:
  assumes "bounded st" "located st" "entry_fits v loc (t, f, ds)" "page_data loc t st = []"
  defines "st' \<equiv> load_entry v loc st (t, f, ds)"
  shows "bounded st'" "located st'" "page_data loc t st' = number 0 (map (key_decoded v) ds)"
    "\<not> (loc_key l' = loc_key loc \<and> t' = t) \<Longrightarrow> page_data l' t' st' = page_data l' t' st"
proof -
  let ?ds = "map (key_decoded v) ds" and ?st = "ks_touch loc t st"
  have "\<forall>d \<in> set ?ds. absent (k_uoid d) ?st"
  proof
    fix d
    assume "d \<in> set ?ds"
    then have "belongs loc t d" using assms(3) by (auto simp: entry_fits_def list_all_iff)
    then show "absent (k_uoid d) ?st"
      using assms(4) page_data_key [of "u_location (k_uoid d)" loc t st] by (simp add: absent_def belongs_def)
  qed
  with put_entries [of ?st loc t ?ds] assms(1-4)
  have "bounded (fold ring_put ?ds ?st) \<and> located (fold ring_put ?ds ?st) \<and>
     page_data loc t (fold ring_put ?ds ?st) = number 0 ?ds \<and>
     (\<forall>l' t'. \<not> (loc_key l' = loc_key loc \<and> t' = t) \<longrightarrow> page_data l' t' (fold ring_put ?ds ?st) = page_data l' t' st)"
    by (simp add: entry_fits_def)
  then show "bounded st'" "located st'" "page_data loc t st' = number 0 (map (key_decoded v) ds)"
    "\<not> (loc_key l' = loc_key loc \<and> t' = t) \<Longrightarrow> page_data l' t' st' = page_data l' t' st"
    by (simp_all add: st'_def load_entry_def)
qed

lemma load_entries_new:
  "bounded st \<Longrightarrow> located st \<Longrightarrow> list_all (entry_fits v loc) r \<Longrightarrow> distinct (map fst r) \<Longrightarrow>
   \<forall>t \<in> fst ` set r. page_data loc t st = [] \<Longrightarrow>
   bounded (foldl (load_entry v loc) st r) \<and> located (foldl (load_entry v loc) st r) \<and>
   (\<forall>(t, f, ds) \<in> set r. page_data loc t (foldl (load_entry v loc) st r) = number 0 (map (key_decoded v) ds)) \<and>
   (\<forall>l t. \<not> (loc_key l = loc_key loc \<and> t \<in> fst ` set r) \<longrightarrow>
      page_data l t (foldl (load_entry v loc) st r) = page_data l t st)"
proof (induction r arbitrary: st)
  case (Cons e r)
  obtain t f ds where e: "e = (t, f, ds)" by (cases e)
  have fits: "entry_fits v loc (t, f, ds)" and none: "page_data loc t st = []" using Cons.prems(3,5) e by simp_all
  note one = load_entry_new [OF Cons.prems(1,2) fits none]
  let ?st = "load_entry v loc st (t, f, ds)"
  have "\<forall>u \<in> fst ` set r. page_data loc u ?st = []"
  proof
    fix u
    assume u: "u \<in> fst ` set r"
    then have "u \<noteq> t" using Cons.prems(4) e by auto
    with one(4) [of loc u] u Cons.prems(5) show "page_data loc u ?st = []" by simp
  qed
  note IH = Cons.IH [OF one(1,2) _ _ this]
  have r: "list_all (entry_fits v loc) r" "distinct (map fst r)" "t \<notin> fst ` set r" using Cons.prems(3,4) e by simp_all
  have "page_data loc t (foldl (load_entry v loc) ?st r) = number 0 (map (key_decoded v) ds)"
    using IH [OF r(1,2)] r(3) one(3) by simp
  with IH [OF r(1,2)] one(4) show ?case by (auto simp: e)
qed simp

text \<open>Sorting a page whose ids already are in order changes no data.\<close>

lemma sort_file_fields:
  fixes loc :: pl_location and ci :: "bytes \<Rightarrow> bytes \<Rightarrow> int"
  shows "(cell_data (ks_sortKeys ci loc st) b)\<lparr>k_uoid := u\<rparr> = (cell_data st b)\<lparr>k_uoid := u\<rparr>"
proof -
  have upd: "(cell_data (ks_setID a i st) b)\<lparr>k_uoid := u\<rparr> = (cell_data st b)\<lparr>k_uoid := u\<rparr>" for a i and st :: "'a key_store"
    by (simp add: ks_setID_def ks_upd_uoid_def Let_def cell_data_def)
  have ren: "(cell_data (renumber ks i st) b)\<lparr>k_uoid := u\<rparr> = (cell_data st b)\<lparr>k_uoid := u\<rparr>" for ks i and st :: "'a key_store"
    by (induction ks arbitrary: i st) (simp_all add: upd)
  have one: "(cell_data (sort_type ci loc st t) b)\<lparr>k_uoid := u\<rparr> = (cell_data st b)\<lparr>k_uoid := u\<rparr>" for t and st :: "'a key_store"
    using ren [of _ 0 st] by (simp add: sort_type_def Let_def cell_data_def)
  have "(cell_data (foldl (sort_type ci loc) st ts) b)\<lparr>k_uoid := u\<rparr> = (cell_data st b)\<lparr>k_uoid := u\<rparr>" for ts and st :: "'a key_store"
    by (induction ts arbitrary: st) (simp_all add: one)
  moreover have "cell_data (snd (ks_getTypes loc False st)) = cell_data st"
    using getTypes_eq [of loc False st, OF surjective_pairing] by (simp add: cell_data_def fun_eq_iff)
  ultimately show ?thesis by (simp add: ks_sortKeys_def case_prod_beta)
qed

lemma nums_unat: "i + n < 2 ^ 32 \<Longrightarrow> map unat (nums i n) = [i + 1 ..< i + n + 1]"
proof (induction n arbitrary: i)
  case (Suc n)
  have "unat (word_of_nat (Suc i) :: u32) = Suc i" using Suc.prems by (simp add: unat_of_nat take_bit_nat_eq_self del: of_nat_Suc)
  with Suc.IH [of "Suc i"] Suc.prems show ?case by (simp add: upt_conv_Cons del: of_nat_Suc)
qed simp

lemma uoid_by_id: "u_objID x = u_objID y \<Longrightarrow> x\<lparr>u_objID := 0\<rparr> = y\<lparr>u_objID := 0\<rparr> \<Longrightarrow> x = (y :: pl_uoid)"
  by (cases x; cases y) simp

lemma sort_numbered_data:
  assumes "located st" "t \<in> set type_space" "numbered_at loc t st" "length (kv_keys (ks_vec loc t st)) < 2 ^ 32"
  shows "page_data loc t (ks_sortKeys ci loc st) = page_data loc t st"
proof -
  obtain ts st1 where g: "ks_getTypes loc False st = (ts, st1)" by fastforce
  let ?st = "ks_sortKeys ci loc st" and ?ks = "kv_keys (ks_vec loc t st)"
  note W = sort.whole [OF assms(1) g sortKeys_foldl [OF g, of ci]]
  have "map unat (map (ks_id st) ?ks) = [1 ..< length ?ks + 1]"
    using assms(3,4) nums_unat [of 0 "length ?ks"] by (simp add: numbered_at_def)
  then have "sorted_wrt (<) (map unat (map (ks_id st) ?ks))" by (simp only: sorted_wrt_upt)
  then have "sorted_wrt (\<lambda>a b. \<not> ks_id st b < ks_id st a) ?ks"
    by (simp add: sorted_wrt_map word_less_nat_alt) (rule sorted_wrt_mono_rel [rotated], assumption, simp)
  then have keys: "kv_keys (ks_vec loc t ?st) = ?ks"
    using W(3) [OF assms(2)] by (simp add: sort_out_def Let_def sort_by_id)
  have "cell_data ?st b = cell_data st b" if b: "b \<in> set ?ks" for b
  proof -
    have "map (ks_id ?st) ?ks = map (ks_id st) ?ks"
      using W(4) [OF assms(2)] assms(3) by (simp add: numbered_at_def keys)
    then have "u_objID (ks_uoid ?st b) = u_objID (ks_uoid st b)" using b by (simp add: ks_id_def)
    moreover have "(ks_uoid ?st b)\<lparr>u_objID := 0\<rparr> = (ks_uoid st b)\<lparr>u_objID := 0\<rparr>"
      using W(2) by (simp add: same_but_id_def)
    ultimately have "ks_uoid ?st b = ks_uoid st b" by (rule uoid_by_id)
    with sort_file_fields [where loc = loc and ci = ci and st = st and b = b and u = undefined] show ?thesis
      by (cases "cell_data ?st b"; cases "cell_data st b") (simp add: ks_uoid_data)
  qed
  then show ?thesis by (simp add: page_data_def keys)
qed

section \<open>One key for each identifier\<close>

lemma uoid_eq_trans: "uoid_eq a b \<Longrightarrow> uoid_eq b c \<Longrightarrow> uoid_eq a c"
  by (auto simp: uoid_eq_def loc_eq_def)

lemma uoid_eq_home: "uoid_eq a b \<Longrightarrow> loc_key (u_location a) = loc_key (u_location b) \<and> u_classType a = u_classType b \<and>
    loc_isValid (u_location a) = loc_isValid (u_location b)"
  by (auto simp: uoid_eq_def loc_eq_def loc_key_def loc_isValid_def)

lemma bounded_keys: "ks_next st' = ks_next st \<Longrightarrow> (\<And>l t. kv_keys (ks_vec l t st') = kv_keys (ks_vec l t st)) \<Longrightarrow> bounded st' = bounded st"
  by (simp add: bounded_def)

lemma located_setID [simp]: "located st \<Longrightarrow> located (ks_setID a i st)"
  by (rule located_sub [OF _ same_but_id_setID]) (auto dest: locatedD(1))

text \<open>A key that stands in the store for the identifier.\<close>

definition stands_for :: "nat \<Rightarrow> pl_uoid \<Rightarrow> 'o key_store \<Rightarrow> bool" where
  "stands_for b u st \<longleftrightarrow> b \<in> set (kv_keys (ks_vec (u_location u) (u_classType u) st)) \<and> uoid_eq (ks_uoid st b) u"

lemma stands_for_unique: "located st \<Longrightarrow> stands_for b u st \<Longrightarrow> stands_for c u st \<Longrightarrow> b = c"
proof -
  assume l: "located st" and bc: "stands_for b u st" "stands_for c u st"
  then have "uoid_eq (ks_uoid st b) (ks_uoid st c)"
    using uoid_eq_trans [of "ks_uoid st b" u "ks_uoid st c"] uoid_eq_sym [of "ks_uoid st c" u] by (simp add: stands_for_def)
  with locatedD(3) [OF l, of b "u_location u" "u_classType u" c] bc show ?thesis by (simp add: stands_for_def)
qed

lemma AddKey_spec:
  assumes "located st" "bounded st" and d_def: "d = key_data_new\<lparr>k_uoid := u\<rparr>"
  shows "\<exists>s0 b st'. ks_alloc d st = (ks_next st, s0) \<and> rm_AddKey (ks_next st) s0 = (b, st') \<and>
    located st' \<and> bounded st' \<and> stands_for b u st' \<and>
    (\<forall>c w. stands_for c w st \<longrightarrow> stands_for c w st') \<and> ks_next st' = ks_next st + 1 \<and>
    (\<forall>c w. stands_for c w st' \<longrightarrow> c = ks_next st \<or> stands_for c w st)"
proof -
  let ?a = "ks_next st" and ?l = "u_location u" and ?t = "u_classType u"
  obtain s0 where alloc: "ks_alloc d st = (?a, s0)" and v0: "\<And>l t. ks_vec l t s0 = ks_vec l t st"
    and d0: "\<And>b. cell_data s0 b = (if b = ?a then d else cell_data st b)" and n0: "ks_next s0 = ?a + 1"
    by (rule alloc_cases [of d st]) (rule that)
  have fresh: "b \<in> set (kv_keys (ks_vec l t st)) \<Longrightarrow> b < ?a" for b l t using assms(2) by (auto simp: bounded_def)
  have uo: "ks_uoid s0 b = (if b = ?a then u else ks_uoid st b)" for b by (simp add: ks_uoid_data d0 d_def)
  have lt: "ks_loc s0 ?a = ?l" "ks_type s0 ?a = ?t" by (simp_all add: ks_loc_def ks_type_def uo)
  let ?s1 = "ks_touch ?l ?t s0"
  have L: "located ?s1" by (rule located_on [OF assms(1)]) (use fresh in \<open>auto simp: v0 d0 dest!: fresh\<close>)
  have B: "bounded ?s1" using assms(2) by (auto simp: bounded_def v0 n0 less_Suc_eq)
  have keep: "stands_for c w st \<Longrightarrow> stands_for c w ?s1" for c w
    using fresh by (force simp: stands_for_def v0 uo ks_uoid_cells(3))
  have old: "stands_for c w ?s1 \<Longrightarrow> c = ?a \<or> stands_for c w st" for c w
    by (auto simp: stands_for_def v0 uo ks_uoid_cells(3) split: if_splits)
  let ?P = "\<lambda>b. uoid_eq (ks_uoid s0 b) u"
  have find: "ks_find ?a s0 = (find ?P (kv_keys (ks_vec ?l ?t st)), ?s1)"
    by (simp add: ks_find_def Let_def lt v0 ks_uoid_cells(3)) (simp add: uo)
  show ?thesis
  proof (cases "find ?P (kv_keys (ks_vec ?l ?t st))")
    case (Some b)
    then have "stands_for b u ?s1"
      by (auto simp: stands_for_def v0 ks_uoid_cells(3) find_Some_iff)
    then show ?thesis using L B keep old n0 alloc find Some by (auto simp: rm_AddKey_def)
  next
    case None
    have un: "unregistered ?a ?s1"
      using None fresh by (auto simp: unregistered_def Let_def ks_loc_def ks_type_def ks_uoid_cells(3) v0 uo find_None_iff)
    let ?s2 = "ks_add ?a ?s1"
    have lt1: "ks_loc ?s1 ?a = ?l" "ks_type ?s1 ?a = ?t" using lt by (simp_all add: ks_loc_def ks_type_def ks_uoid_cells(3))
    have vec: "kv_keys (ks_vec l t ?s2) = kv_keys (ks_vec l t st) @ (if loc_key l = loc_key ?l \<and> t = ?t then [?a] else [])" for l t
      by (simp add: add_vec ks_home_def lt1 v0)
    have uoid: "uoid_eq (ks_uoid ?s2 b) w = uoid_eq (ks_uoid s0 b) w" for b w
      by (simp add: add_uoid ks_uoid_cells(3) uoid_eq_def)
    have "stands_for ?a u ?s2" by (simp add: stands_for_def vec uoid uo) (simp add: uoid_eq_def loc_eq_def)
    moreover have "stands_for c w st \<Longrightarrow> stands_for c w ?s2" for c w
      using fresh by (force simp: stands_for_def vec uoid uo)
    moreover have "stands_for c w ?s2 \<Longrightarrow> c = ?a \<or> stands_for c w st" for c w
      by (auto simp: stands_for_def vec uoid uo split: if_splits)
    moreover have "bounded ?s2" using assms(2) by (auto simp: bounded_def vec n0 less_Suc_eq)
    ultimately show ?thesis using located_add [OF L un] n0 alloc find None by (auto simp: rm_AddKey_def)
  qed
qed

lemma intern_spec:
  assumes "located st" "bounded st" "loc_isValid (u_location u)"
  shows "\<exists>b st'. rm_intern pres u st = (Some b, st') \<and> located st' \<and> bounded st' \<and> stands_for b u st' \<and>
    (\<forall>c w. stands_for c w st \<longrightarrow> stands_for c w st') \<and>
    (\<forall>c w. stands_for c w st' \<longrightarrow> c = ks_next st \<or> stands_for c w st)"
proof -
  obtain s0 b st1 where A: "ks_alloc (key_data_new\<lparr>k_uoid := u\<rparr>) st = (ks_next st, s0)" "rm_AddKey (ks_next st) s0 = (b, st1)"
    "located st1" "bounded st1" "stands_for b u st1" "\<forall>c w. stands_for c w st \<longrightarrow> stands_for c w st1"
    "\<forall>c w. stands_for c w st1 \<longrightarrow> c = ks_next st \<or> stands_for c w st"
    using AddKey_spec [OF assms(1,2) refl, of u] by blast
  define s2 where "s2 = (if pres then ks_setID b (ks_id st1 (ks_next st)) st1 else st1)"
  have s2: "located s2" "bounded s2" "\<And>c w. stands_for c w s2 = stands_for c w st1"
  proof -
    show "located s2" using A(3) by (simp add: s2_def)
    have k: "kv_keys (ks_vec l t s2) = kv_keys (ks_vec l t st1)" for l t by (simp add: s2_def)
    have "ks_next s2 = ks_next st1" by (simp add: s2_def ks_setID_def ks_upd_uoid_def Let_def)
    with A(4) k show "bounded s2" by (simp add: bounded_def)
    have "uoid_eq (ks_uoid s2 c) w = uoid_eq (ks_uoid st1 c) w" for c w by (simp add: s2_def uoid_eq_def)
    with k show "stands_for c w s2 = stands_for c w st1" for c w by (simp add: stands_for_def)
  qed
  let ?s3 = "ks_drop (ks_next st) (s2\<lparr>ks_cells := cell_ref b (ks_cells s2)\<rparr>)"
  have "rm_intern pres u st = (Some b, ?s3)"
    using A(1,2) assms(3) by (simp add: rm_intern_def s2_def)
  moreover have "located ?s3" by (rule located_on [OF s2(1)]) (simp_all add: cell_data_def)
  moreover have "bounded ?s3" using s2(2) by (simp add: bounded_def)
  moreover have "stands_for c w ?s3 = stands_for c w s2" for c w by (simp add: stands_for_def ks_uoid_def)
  ultimately show ?thesis using A(5-7) s2(3) by blast
qed

section \<open>Writing and reading a page's index\<close>

text \<open>A key all of whose fields the format carries, but for the version of its location.\<close>

definition carried :: "plasma_ver \<Rightarrow> pl_key_data \<Rightarrow> bool" where
  "carried v d \<longleftrightarrow> (isUru v \<or> u_cloneID (k_uoid d) = 0) \<and> (u_cloneID (k_uoid d) = 0 \<longrightarrow> u_clonePlayerID (k_uoid d) = 0)"

lemma decoded_carried:
  "carried v d \<Longrightarrow> key_decoded v d = d\<lparr>k_uoid := (k_uoid d)\<lparr>u_location := (u_location (k_uoid d))\<lparr>l_ver := v\<rparr>,
     u_objID := (if isUruSP v then 0 else u_objID (k_uoid d))\<rparr>\<rparr>"
  by (cases d; cases "k_uoid d")
    (auto simp: key_decoded_def key_upd_def uoid_upd_def carried_def key_data_new_def uoid_new_def)

lemma number_decoded:
  assumes "isSafeVer v"
  shows "map (\<lambda>d. u_objID (k_uoid d)) ds = nums n (length ds) \<Longrightarrow> list_all (carried v) ds \<Longrightarrow>
    number n (map (key_decoded v) ds) = map (key_written v) ds"
proof (induction ds arbitrary: n)
  case (Cons d ds)
  then have "with_id (n + 1) (key_decoded v d) = key_written v d"
    by (cases d; cases "k_uoid d") (simp add: decoded_carried with_id_def key_written_def loc_write_ver_safe [OF assms])
  with Cons show ?case by simp
qed simp

lemma decoded_same_key:
  assumes "carried v d" "carried v e"
  shows "uoid_eq (k_uoid (key_decoded v d)) (k_uoid (key_decoded v e)) = uoid_eq (k_uoid d) (k_uoid e)"
    "loc_key (u_location (k_uoid (key_decoded v d))) = loc_key (u_location (k_uoid d))"
    "u_classType (k_uoid (key_decoded v d)) = u_classType (k_uoid d)"
  by (simp_all add: decoded_carried assms uoid_eq_def loc_eq_def loc_key_def)

text \<open>The page as its index describes it: all its keys are loaded, and the format can carry them.\<close>

definition page_writable :: "st_lib \<Rightarrow> plasma_ver \<Rightarrow> pl_location \<Rightarrow> 'o key_store \<Rightarrow> bool" where
  "page_writable L v loc st \<longleftrightarrow> (\<forall>t. \<forall>a \<in> set (kv_keys (ks_vec loc t st)).
     ks_loaded st a \<and> key_ok L v (cell_data st a) \<and> carried v (cell_data st a))"

lemma writable_loaded: "page_writable L v loc st \<Longrightarrow> loaded_keys loc t st = kv_keys (ks_vec loc t st)"
  by (simp add: page_writable_def loaded_keys_def filter_id_conv)

lemma writable_entry:
  assumes "page_writable L v loc st"
  shows "ring_entry_of loc st t = (t, ucast (kv_flags (ks_vec loc t st)), page_data loc t st)"
  by (simp add: ring_entry_of_def writable_loaded [OF assms] page_data_def)

lemma sorted_wrt_neq: "sorted_wrt (\<lambda>a b. a \<noteq> b) xs = distinct xs"
  by (induction xs) auto

lemma writable_fits:
  assumes "page_writable L v loc st" "located st"
  shows "entry_fits v loc (t, f, page_data loc t st)"
proof -
  let ?ks = "kv_keys (ks_vec loc t st)"
  have c: "a \<in> set ?ks \<Longrightarrow> carried v (cell_data st a)" for a using assms(1) by (simp add: page_writable_def)
  have "belongs loc t (key_decoded v (cell_data st a))" if "a \<in> set ?ks" for a
    using locatedD(2) [OF assms(2) that] decoded_same_key(2,3) [OF c [OF that] c [OF that]]
    by (simp add: belongs_def ks_loc_def ks_type_def ks_uoid_data)
  moreover have "apart (map (key_decoded v) (page_data loc t st))"
  proof -
    have "sorted_wrt (\<lambda>a b. a \<noteq> b) ?ks" using locatedD(1) [OF assms(2)] by (simp add: sorted_wrt_neq)
    then have "sorted_wrt (\<lambda>a b. \<not> uoid_eq (k_uoid (key_decoded v (cell_data st a))) (k_uoid (key_decoded v (cell_data st b)))) ?ks"
    proof (rule sorted_wrt_mono_rel [rotated])
      fix a b
      assume "a \<in> set ?ks" "b \<in> set ?ks" "a \<noteq> b"
      then show "\<not> uoid_eq (k_uoid (key_decoded v (cell_data st a))) (k_uoid (key_decoded v (cell_data st b)))"
        using locatedD(3) [OF assms(2)] decoded_same_key(1) [OF c c] by (auto simp: ks_uoid_data)
    qed
    then show ?thesis by (simp add: apart_def page_data_def sorted_wrt_map)
  qed
  ultimately show ?thesis by (auto simp: entry_fits_def page_data_def list_all_iff)
qed

lemma writable_class:
  assumes "page_writable L v loc st" "located st" "a \<in> set (kv_keys (ks_vec loc t st))"
  shows "class_ok v t" "t \<in> set type_space"
proof -
  have "u_classType (k_uoid (cell_data st a)) = t"
    using locatedD(2) [OF assms(2,3)] by (simp add: ks_type_def ks_uoid_data)
  then show c: "class_ok v t"
    using assms(1,3) by (auto simp: page_writable_def key_ok_def uoid_ok_def class_ok_def)
  then have "in_range t" by (auto simp: class_ok_def MappedToPlasma_def split: if_splits)
  then show "t \<in> set type_space"
    by (auto simp: in_range_def TYPESPACE_MAX_def type_space_def image_iff intro!: bexI [of _ "nat t"])
qed

lemma loc_ok_ver [simp]: "loc_ok v (l\<lparr>l_ver := w\<rparr>) = loc_ok v l"
  by (simp add: loc_ok_def)

lemma ring_written_data:
  "located st \<Longrightarrow> isSafeVer v \<Longrightarrow> distinct ts \<Longrightarrow> page_writable L v loc st \<Longrightarrow>
   page_data l t (ring_written v loc ts st) =
     (if loc_key l = loc_key loc \<and> t \<in> set ts then map (key_written v) (page_data loc t st) else page_data l t st)"
proof (induction ts arbitrary: st)
  case (Cons u ts)
  let ?st = "type_written v loc u st"
  have lk: "loaded_keys loc u st = kv_keys (ks_vec loc u st)" by (rule writable_loaded [OF Cons.prems(4)])
  have one: "page_data l t ?st = (if loc_key l = loc_key loc \<and> t = u then map (key_written v) (page_data loc u st) else page_data l t st)"
    for l t
  proof (cases "loc_key l = loc_key loc \<and> t = u")
    case True
    then have "page_data l t ?st = page_data loc u ?st" using page_data_key by metis
    with True show ?thesis by (simp add: page_data_def type_written_data [OF Cons.prems(1)] lk)
  next
    case False
    have "b \<in> set (kv_keys (ks_vec l t st)) \<Longrightarrow> b \<notin> set (loaded_keys loc u st)" for b
      using located_home [OF Cons.prems(1), of b l t loc u] False lk by auto
    with False show ?thesis by (auto simp: page_data_def type_written_data [OF Cons.prems(1)])
  qed
  have "page_writable L v loc ?st"
    using Cons.prems(4) Cons.prems(2)
    by (auto simp: page_writable_def type_written_data [OF Cons.prems(1)] lk key_ok_def uoid_ok_def key_written_def
        loc_write_ver_safe carried_def loc_ok_ver)
  note IH = Cons.IH [OF type_written_located [OF Cons.prems(1,2)] Cons.prems(2) _ this]
  show ?case using IH one Cons.prems(3) by (auto simp: ring_written_def)
qed (simp add: ring_written_def)

lemma ring_store_data:
  assumes "located st" "isSafeVer v" "page_writable L v loc st"
  shows "page_data l t (ring_store v loc st) =
    (if loc_key l = loc_key loc then map (key_written v) (page_data loc t st) else page_data l t st)"
proof -
  obtain ts st1 where g: "ks_getTypes loc True st = (ts, st1)" by fastforce
  note G = getTypes_eq [OF g]
  have d: "cell_data st1 = cell_data st" "ks_loaded st1 = ks_loaded st"
    using G by (simp_all add: cell_data_def ks_loaded_def fun_eq_iff)
  have p: "page_data l t st1 = page_data l t st" for l t using G d by (simp add: page_data_def)
  have w: "page_writable L v loc st1" using assms(3) G d by (simp add: page_writable_def)
  have "distinct (ring_classes loc st)" by (simp add: ring_classes_def)
  note R = ring_written_data [OF _ assms(2) this w, of l t, unfolded p]
  have none: "page_data loc t st = []" if "t \<notin> set (ring_classes loc st)"
  proof (rule ccontr)
    assume "page_data loc t st \<noteq> []"
    then obtain a where a: "a \<in> set (kv_keys (ks_vec loc t st))" using some_key by (auto simp: page_data_def)
    with writable_class(2) [OF assms(3,1) a] that show False
      by (auto simp: ring_classes_def writable_loaded [OF assms(3)])
  qed
  show ?thesis
    using R getTypes_invariant(1) [OF g] assms(1) none page_data_key [of l loc t st]
    by (auto simp: ring_store_def g)
qed

lemma key_image_size: "8 * length ds \<le> length (concat (map (key_image v) ds))"
  by (induction ds) (simp_all add: key_image_def)

lemma ring_image_sizes: "e \<in> set r \<Longrightarrow> 8 * length (snd (snd e)) \<le> length (ring_image v r)" "length r \<le> length (ring_image v r)"
proof -
  have e: "8 * length (snd (snd e)) + 1 \<le> length (ring_entry_image v e)" for e
    using key_image_size [of "snd (snd e)" v] by (simp add: ring_entry_image_def ring_body_def case_prod_beta)
  have "e \<in> set r \<Longrightarrow> length (ring_entry_image v e) \<le> length (concat (map (ring_entry_image v) r))"
    by (induction r) auto
  with e [of e] show "e \<in> set r \<Longrightarrow> 8 * length (snd (snd e)) \<le> length (ring_image v r)"
    by (simp add: ring_image_def)
  have "length r \<le> length (concat (map (ring_entry_image v) r))"
  proof (induction r)
    case (Cons x r)
    with e [of x] show ?case by simp
  qed simp
  then show "length r \<le> length (ring_image v r)" by (simp add: ring_image_def)
qed

lemma untouched_data: "untouched l t st (ks_sortKeys ci loc st) \<Longrightarrow> page_data l t (ks_sortKeys ci loc st) = page_data l t st"
proof -
  assume u: "untouched l t st (ks_sortKeys ci loc st)"
  have "cell_data (ks_sortKeys ci loc st) b = cell_data st b" if "b \<in> set (kv_keys (ks_vec l t st))" for b
  proof -
    have "ks_uoid (ks_sortKeys ci loc st) b = ks_uoid st b" using u that by (simp add: untouched_def)
    with sort_file_fields [where loc = loc and ci = ci and st = st and b = b and u = undefined] show ?thesis
      by (cases "cell_data (ks_sortKeys ci loc st) b"; cases "cell_data st b") (simp add: ks_uoid_data)
  qed
  with u show ?thesis by (simp add: page_data_def untouched_def)
qed

lemma no_class_no_keys:
  assumes "page_writable L v loc st" "located st" "t \<notin> set (ring_classes loc st)"
  shows "kv_keys (ks_vec loc t st) = []"
proof (rule ccontr)
  assume ne: "kv_keys (ks_vec loc t st) \<noteq> []"
  then obtain a where "a \<in> set (kv_keys (ks_vec loc t st))" using some_key by blast
  from writable_class(2) [OF assms(1,2) this] ne assms(3) show False
    by (simp add: ring_classes_def writable_loaded [OF assms(1)])
qed

lemma ring_of_writable:
  "page_writable L v loc st \<Longrightarrow>
   ring_of loc st = map (\<lambda>t. (t, ucast (kv_flags (ks_vec loc t st)), page_data loc t st)) (ring_classes loc st)"
  by (simp add: ring_of_def writable_entry)

text \<open>Before the sort, the page's data are the written data, numbered as they were.\<close>

lemma ring_entries_data:
  fixes st st0 :: "'o key_store"
  assumes st: "located st" "numbered st" "isSafeVer v" "page_writable L v loc st"
    and st0: "located st0" "bounded st0" "\<And>t. page_data loc t st0 = []"
  defines "st1 \<equiv> foldl (load_entry v loc) st0 (ring_of loc st)"
  shows "located st1" "page_data loc t st1 = map (key_written v) (page_data loc t st)"
    "loc_key l \<noteq> loc_key loc \<Longrightarrow> page_data l t st1 = page_data l t st0"
proof -
  note r = ring_of_writable [OF st(4)]
  have "list_all (entry_fits v loc) (ring_of loc st)" using writable_fits [OF st(4,1)] by (auto simp: r list_all_iff)
  moreover have "distinct (map fst (ring_of loc st))" by (simp add: r o_def ring_classes_def)
  ultimately have L: "located st1"
    "\<And>t. t \<in> set (ring_classes loc st) \<Longrightarrow> page_data loc t st1 = number 0 (map (key_decoded v) (page_data loc t st))"
    "\<And>l t. \<not> (loc_key l = loc_key loc \<and> t \<in> set (ring_classes loc st)) \<Longrightarrow> page_data l t st1 = page_data l t st0"
    using load_entries_new [OF st0(2,1), of v loc "ring_of loc st"] st0(3) by (simp_all add: r image_image st1_def)
  show "located st1" by (rule L(1))
  show "loc_key l \<noteq> loc_key loc \<Longrightarrow> page_data l t st1 = page_data l t st0" using L(3) by simp
  show "page_data loc t st1 = map (key_written v) (page_data loc t st)"
  proof (cases "t \<in> set (ring_classes loc st)")
    case True
    have "map (\<lambda>d. u_objID (k_uoid d)) (page_data loc t st) = nums 0 (length (page_data loc t st))"
      using st(2) unfolding numbered_def ids_data by (simp only: page_data_def length_map)
    moreover have "list_all (carried v) (page_data loc t st)"
      using st(4) by (auto simp: page_writable_def page_data_def list_all_iff)
    ultimately show ?thesis using L(2) [OF True] number_decoded [OF st(3)] by simp
  next
    case False
    with L(3) [of loc t] st0(3) no_class_no_keys [OF st(4,1) False] show ?thesis by (simp add: page_data_def)
  qed
qed

lemma same_ids_numbered:
  assumes "map (\<lambda>d. u_objID (k_uoid d)) (page_data l t st1) = map (\<lambda>d. u_objID (k_uoid d)) (page_data l t st)" "numbered st"
  shows "numbered_at l t st1" "length (kv_keys (ks_vec l t st1)) = length (kv_keys (ks_vec l t st))"
proof -
  show k: "length (kv_keys (ks_vec l t st1)) = length (kv_keys (ks_vec l t st))"
    using arg_cong [OF assms(1), of length] by (simp add: page_data_def)
  have "map (ks_id st1) (kv_keys (ks_vec l t st1)) = map (ks_id st) (kv_keys (ks_vec l t st))"
    using assms(1) by (simp only: ids_data)
  then show "numbered_at l t st1" using assms(2) k by (simp add: numbered_def numbered_at_def)
qed

lemma ring_load_data:
  fixes st st0 :: "'o key_store"
  assumes st: "located st" "numbered st" "isSafeVer v" "page_writable L v loc st"
    and st0: "located st0" "bounded st0" "\<And>t. page_data loc t st0 = []"
    and len: "length (ring_image v (ring_of loc st)) < 2 ^ 32"
    and st2: "st2 = ring_load v ci False loc st0 (ring_of loc st)"
  shows "page_data loc t st2 = map (key_written v) (page_data loc t st)"
    "loc_key l \<noteq> loc_key loc \<Longrightarrow> page_data l t st2 = page_data l t st0"
proof -
  let ?st1 = "foldl (load_entry v loc) st0 (ring_of loc st)"
  note L = ring_entries_data [OF st st0]
  have "map (\<lambda>d. u_objID (k_uoid d)) (page_data loc t ?st1) = map (\<lambda>d. u_objID (k_uoid d)) (page_data loc t st)"
    by (simp add: L(2) key_written_def)
  note num = same_ids_numbered [OF this st(2)]
  have len: "length (kv_keys (ks_vec loc t st)) < 2 ^ 32"
  proof (cases "t \<in> set (ring_classes loc st)")
    case True
    then have "(t, ucast (kv_flags (ks_vec loc t st)), page_data loc t st) \<in> set (ring_of loc st)"
      by (simp add: ring_of_writable [OF st(4)])
    from ring_image_sizes(1) [OF this, of v] len show ?thesis by (simp add: page_data_def)
  qed (use no_class_no_keys [OF st(4,1)] in simp)
  obtain ts s1 where g: "ks_getTypes loc False ?st1 = (ts, s1)" by fastforce
  note W = sort.whole [OF L(1) g sortKeys_foldl [OF g, of ci]]
  have e: "st2 = ks_sortKeys ci loc ?st1" by (simp add: st2 ring_load_def)
  show "page_data loc t st2 = map (key_written v) (page_data loc t st)"
  proof (cases "t \<in> set type_space")
    case True
    with sort_numbered_data [OF L(1) True num(1)] num(2) len L(2) show ?thesis by (simp add: e)
  next
    case False
    with untouched_data [OF W(5) [of loc t]] L(2) show ?thesis by (simp add: e)
  qed
  show "page_data l t st2 = page_data l t st0" if "loc_key l \<noteq> loc_key loc"
    using untouched_data [OF W(5) [of l t]] L(3) [OF that] that by (simp add: e)
qed

lemma keyring_wire:
  assumes "located st" "isSafeVer v" "page_writable L v loc st" "length (ring_image v (ring_of loc st)) < 2 ^ 32"
  shows "emits (WriteKeyring loc st) v (ring_image v (ring_of loc st)) (ring_store v loc st) v"
    "parses (ReadKeyring L ci pres loc st0) v (ring_image v (ring_of loc st))
       (ring_count (ring_of loc st), ring_load v ci pres loc st0 (ring_of loc st)) v"
proof -
  let ?r = "ring_of loc st"
  have ok: "list_all (ring_entry_ok L v) ?r"
    unfolding list_all_iff
  proof
    fix e
    assume e: "e \<in> set ?r"
    then obtain t where t: "t \<in> set (ring_classes loc st)" "e = (t, ucast (kv_flags (ks_vec loc t st)), page_data loc t st)"
      by (auto simp: ring_of_writable [OF assms(3)])
    then obtain a where "a \<in> set (kv_keys (ks_vec loc t st))"
      using some_key by (auto simp: ring_classes_def writable_loaded [OF assms(3)])
    from writable_class(1) [OF assms(3,1) this] ring_image_sizes(1) [OF e, of v] assms(3,4)
    show "ring_entry_ok L v e"
      by (auto simp: t(2) ring_entry_ok_def page_writable_def page_data_def list_all_iff)
  qed
  have n: "length ?r < 2 ^ 32" using ring_image_sizes(2) [of ?r v] assms(4) by simp
  show "emits (WriteKeyring loc st) v (ring_image v ?r) (ring_store v loc st) v"
    by (rule emits_WriteKeyring [where L = L]) (use assms writable_loaded [OF assms(3)] in \<open>auto simp: page_writable_def\<close>)
  show "parses (ReadKeyring L ci pres loc st0) v (ring_image v ?r) (ring_count ?r, ring_load v ci pres loc st0 ?r) v"
    by (rule parses_ReadKeyring [OF ok n])
qed

section \<open>Properties\<close>

text \<open>C10: The key index that a page's keys are written to, read into a store without keys of that
  page, makes the store hold for each class of the page exactly the keys of the writer's store, in
  the same order, with the same ids, names, clone ids, masks, offsets and sizes; keys of other pages
  stay as they are, and the reader takes all that the writer wrote.\<close>

theorem keyring_roundtrip:
  fixes st st0 :: "'o key_store"
  assumes "located st" "numbered st" "isSafeVer v" "page_writable L v loc st"
    and "located st0" "bounded st0" "\<And>t. page_data loc t st0 = []"
    and "length (ring_image v (ring_of loc st)) < 2 ^ 32"
  shows "\<exists>st1 s n st2. WriteKeyring loc st \<lparr>s_ver = v, s_data = [], s_pos = 0\<rparr> = Inr (st1, s) \<and>
     ReadKeyring L ci False loc st0 (s\<lparr>s_pos := 0\<rparr>) = Inr ((n, st2), s) \<and> s_eof s \<and>
     (\<forall>t. page_data loc t st2 = page_data loc t st1) \<and>
     (\<forall>l t. loc_key l \<noteq> loc_key loc \<longrightarrow> page_data l t st2 = page_data l t st0 \<and> page_data l t st1 = page_data l t st)"
proof -
  let ?r = "ring_of loc st"
  note w = keyring_wire [OF assms(1,3,4,8)]
  note E = emitsD [OF w(1), of "[]"] and P = parsesD [OF w(2), of "[]" "[]" ci False st0]
  let ?s = "\<lparr>s_ver = v, s_data = ring_image v ?r, s_pos = length (ring_image v ?r)\<rparr>"
  show ?thesis
  proof (intro exI conjI allI impI)
    show "WriteKeyring loc st \<lparr>s_ver = v, s_data = [], s_pos = 0\<rparr> = Inr (ring_store v loc st, ?s)" using E by simp
    show "ReadKeyring L ci False loc st0 (?s\<lparr>s_pos := 0\<rparr>) = Inr ((ring_count ?r, ring_load v ci False loc st0 ?r), ?s)"
      using P assms(8) by simp
    show "s_eof ?s" by (simp add: s_eof_def)
    show "page_data loc t (ring_load v ci False loc st0 ?r) = page_data loc t (ring_store v loc st)" for t
      by (simp add: ring_load_data(1) [OF assms refl] ring_store_data [OF assms(1,3,4)])
    show "page_data l t (ring_load v ci False loc st0 ?r) = page_data l t st0" if "loc_key l \<noteq> loc_key loc" for l t
      by (rule ring_load_data(2) [OF assms refl that])
    show "page_data l t (ring_store v loc st) = page_data l t st" if "loc_key l \<noteq> loc_key loc" for l t
      using that by (simp add: ring_store_data [OF assms(1,3,4)])
  qed
qed

definition ring_data :: pl_key_data where
  "ring_data = \<lparr>k_uoid = sample_uoid\<lparr>u_objID := 0\<rparr>, k_fileOff = 100, k_objSize = 20\<rparr>"

definition ring_base :: "unit key_store" where
  "ring_base = \<lparr>ks_cells = (\<lambda>_. \<lparr>kc_data = ring_data, kc_obj = Some (), kc_refs = 1\<rparr>), ks_next = 1, ks_keys = []\<rparr>"

definition ring_sample :: "unit key_store" where
  "ring_sample = ks_add 0 ring_base"

definition ring_loc :: pl_location where "ring_loc = u_location sample_uoid"

definition empty_store :: "unit key_store" where
  "empty_store = \<lparr>ks_cells = sample_cell, ks_next = 0, ks_keys = []\<rparr>"

lemma empty_store_facts [simp]: "located empty_store" "bounded empty_store" "page_data l t empty_store = []" "numbered empty_store"
  by (simp_all add: located_def bounded_def page_data_def numbered_def empty_store_def ks_vec_def ks_types_def kv_new_def)

lemma ring_base_facts [simp]: "ks_vec l t ring_base = kv_new" "cell_data ring_base a = ring_data" "ks_uoid ring_base a = sample_uoid\<lparr>u_objID := 0\<rparr>"
  "ks_loaded ring_base a"
  by (simp_all add: ring_base_def ks_vec_def ks_types_def cell_data_def ks_uoid_def ring_data_def ks_loaded_def)

lemma kv_new_keys [simp]: "kv_keys kv_new = []" by (simp add: kv_new_def)

lemma ring_sample_invariant: "located ring_sample" "numbered ring_sample"
proof -
  have "located ring_base" "numbered ring_base" "unregistered 0 ring_base" "ks_id ring_base 0 = 0"
    by (simp_all add: located_def numbered_def unregistered_def ks_id_def)
  then show "located ring_sample" "numbered ring_sample"
    unfolding ring_sample_def by (blast intro: located_add numbered_add)+
qed

lemma ring_sample_vec: "kv_keys (ks_vec l t ring_sample) = (if loc_key l = loc_key ring_loc \<and> t = 1 then [0] else [])"
  by (simp add: ring_sample_def add_vec ks_home_def ks_loc_def ks_type_def ring_loc_def)
    (simp add: sample_uoid_def)

lemma ring_sample_cell: "cell_data ring_sample 0 = ring_data\<lparr>k_uoid := sample_uoid\<lparr>u_objID := 1\<rparr>\<rparr>" "ks_loaded ring_sample 0"
proof -
  show "cell_data ring_sample 0 = ring_data\<lparr>k_uoid := sample_uoid\<lparr>u_objID := 1\<rparr>\<rparr>"
    by (simp add: ring_sample_def add_data with_id_def) (simp add: ring_data_def)
  show "ks_loaded ring_sample 0" by code_simp
qed

lemma ring_sample_writable: "page_writable ascii_lib pvMoul ring_loc ring_sample"
proof -
  have "key_ok ascii_lib pvMoul (ring_data\<lparr>k_uoid := sample_uoid\<lparr>u_objID := 1\<rparr>\<rparr>)" by code_simp
  moreover have "carried pvMoul (ring_data\<lparr>k_uoid := sample_uoid\<lparr>u_objID := 1\<rparr>\<rparr>)" by code_simp
  ultimately show ?thesis by (simp add: page_writable_def ring_sample_vec ring_sample_cell)
qed

lemma filter_one: "distinct xs \<Longrightarrow> filter (\<lambda>t. t = x) xs = (if x \<in> set xs then [x] else [])"
  by (induction xs) auto

lemma ring_sample_classes: "ring_classes ring_loc ring_sample = [1]"
proof -
  have "(1 :: int) \<in> set type_space" by (auto simp: type_space_def image_iff intro!: bexI [of _ "1 :: nat"])
  moreover have "ring_classes ring_loc ring_sample = filter (\<lambda>t. t = 1) type_space"
    by (simp add: ring_classes_def writable_loaded [OF ring_sample_writable] ring_sample_vec)
  ultimately show ?thesis by (simp add: filter_one)
qed

theorem keyring_roundtrip_witness:
  "\<exists>st1 s n st2. WriteKeyring ring_loc ring_sample \<lparr>s_ver = pvMoul, s_data = [], s_pos = 0\<rparr> = Inr (st1, s) \<and>
     ReadKeyring ascii_lib (\<lambda>_ _. 0) False ring_loc empty_store (s\<lparr>s_pos := 0\<rparr>) = Inr ((n, st2), s) \<and>
     page_data ring_loc 1 st2 = page_data ring_loc 1 st1"
proof -
  have "length (key_image pvMoul (ring_data\<lparr>k_uoid := sample_uoid\<lparr>u_objID := 1\<rparr>\<rparr>)) = 33" by code_simp
  then have len: "length (ring_image pvMoul (ring_of ring_loc ring_sample)) < 2 ^ 32"
    by (simp add: ring_of_writable [OF ring_sample_writable] ring_sample_classes page_data_def ring_sample_vec ring_sample_cell
        ring_image_def ring_entry_image_def ring_body_def)
  have safe: "isSafeVer pvMoul" by (simp add: ver_eval)
  from keyring_roundtrip [OF ring_sample_invariant safe ring_sample_writable empty_store_facts(1,2,3) len]
  show ?thesis by blast
qed

text \<open>C11: Reading a valid identifier gives a handle to a key that stands in the store for it; keys that
  stood there still do; and reading an equal identifier at any time after gives a handle to the
  same key, whether ids are preserved or not.\<close>

theorem keys_interned:
  assumes "located st" "bounded st" "loc_isValid (u_location u)"
  shows "\<exists>b st1. rm_intern pres u st = (Some b, st1) \<and> located st1 \<and> bounded st1 \<and> stands_for b u st1 \<and>
    (\<forall>c w. stands_for c w st \<longrightarrow> stands_for c w st1) \<and>
    (\<forall>u' pres'. uoid_eq u u' \<longrightarrow> fst (rm_intern pres' u' st1) = Some b)"
proof -
  obtain b st1 where 1: "rm_intern pres u st = (Some b, st1)" "located st1" "bounded st1" "stands_for b u st1"
    "\<forall>c w. stands_for c w st \<longrightarrow> stands_for c w st1"
    using intern_spec [OF assms] by blast
  have "fst (rm_intern pres' u' st1) = Some b" if e: "uoid_eq u u'" for u' pres'
  proof -
    note home = uoid_eq_home [OF e]
    have v: "ks_vec (u_location u) (u_classType u) st1 = ks_vec (u_location u') (u_classType u') st1"
      using ks_vec_key [of "u_location u" "u_location u'" "u_classType u" st1] home by metis
    have b: "stands_for b u' st1"
      using 1(4) uoid_eq_trans [OF _ e, of "ks_uoid st1 b"] unfolding stands_for_def v by blast
    from home assms(3) have "loc_isValid (u_location u')" by simp
    from intern_spec [OF 1(2,3) this, of pres'] obtain c st2 where
      2: "rm_intern pres' u' st1 = (Some c, st2)" "located st2" "stands_for c u' st2"
      "\<forall>c w. stands_for c w st1 \<longrightarrow> stands_for c w st2" by blast
    from 2(4) b have "stands_for b u' st2" by blast
    from stands_for_unique [OF 2(2) this 2(3)] 2(1) show ?thesis by (metis fst_conv)
  qed
  with 1 show ?thesis by blast
qed

theorem keys_interned_witness:
  "\<exists>b st1. rm_intern False sample_uoid empty_store = (Some b, st1) \<and> stands_for b sample_uoid st1 \<and>
     fst (rm_intern True (sample_uoid\<lparr>u_objID := 3\<rparr>) st1) = Some b"
proof -
  have "loc_isValid (u_location sample_uoid)" by code_simp
  moreover have "uoid_eq sample_uoid (sample_uoid\<lparr>u_objID := 3\<rparr>)" by code_simp
  ultimately show ?thesis using keys_interned [OF empty_store_facts(1,2)] by blast
qed

end
