(* ===== verification/PageFile.thy ===== *)
theory PageFile
  imports Keyring SizedStream
begin

text \<open>
  Page files (\<open>src/core/ResManager/plResManager.cpp\<close>): the resource manager's list of pages,
  reading a page with its objects as stubs, and writing a page.  \<open>plCreatableStub\<close>
  (\<open>src/core/PRP/plCreatable.cpp\<close>) is an object whose content is kept as raw bytes, and
  \<open>hsKeyedObjectStub\<close> (\<open>src/core/PRP/KeyedObject/hsKeyedObject.cpp\<close>) the keyed object around it.
  \<open>ReadPage\<close> is modelled for its stub mode, in which it makes no other objects and does not ask the
  factory; the objects of a store are then stubs.

  An object is a value in the cell of the key that points to it.  The table of class versions, a
  static of \<open>pdUnifiedTypeMap\<close>, is a field of the manager's state.  Callbacks of the client for
  progress and for pages about to go are left out, and so is logging.
\<close>

section \<open>Objects\<close>

record ko_stub =
  so_key :: "nat option"
  so_class :: int
  so_data :: bytes

text \<open>The handles an object holds: its own key's.\<close>

definition so_keys :: "ko_stub \<Rightarrow> nat list" where
  "so_keys ob = (case so_key ob of None \<Rightarrow> [] | Some a \<Rightarrow> [a])"

type_synonym stub_store = "ko_stub key_store"

definition ks_setObj :: "nat \<Rightarrow> 'o \<Rightarrow> 'o key_store \<Rightarrow> 'o key_store" where
  "ks_setObj a ob st = st\<lparr>ks_cells := (ks_cells st)(a := (ks_cells st a)\<lparr>kc_obj := Some ob\<rparr>)\<rparr>"

definition ks_deleteObj :: "nat \<Rightarrow> stub_store \<Rightarrow> stub_store" where
  "ks_deleteObj a st = st\<lparr>ks_cells := cell_deleteObj so_keys a (ks_cells st)\<rparr>"

definition ks_setExtent :: "nat \<Rightarrow> u32 \<Rightarrow> u32 \<Rightarrow> stub_store \<Rightarrow> stub_store" where
  "ks_setExtent a off sz st = st\<lparr>ks_cells := (ks_cells st)(a := (ks_cells st a)
     \<lparr>kc_data := (kc_data (ks_cells st a))\<lparr>k_fileOff := off, k_objSize := sz\<rparr>\<rparr>)\<rparr>"

text \<open>
  \<open>ReadCreatable\<close> with \<open>mustStub\<close> set.  The length is an \<open>int\<close>, from which two is taken before it
  becomes a size; a negative one is more than can be allocated.
\<close>

definition ReadCreatable_stub :: "u32 \<Rightarrow> sized_stream \<Rightarrow> ((int \<times> bytes) \<times> sized_stream) result" where
  "ReadCreatable_stub stubLen z =
     rbind (sized_read 2 z) (\<lambda>(h, z1).
       let c = PlasmaToMapped (sint (un_le16 h)) (s_ver (z_base z)); n = sint stubLen - 2 in
       if n < - (2 ^ 31) then Inl UndefinedBehaviour
       else if n < 0 then Inl StdLengthError
       else rbind (sized_read (nat n) z1) (\<lambda>(d, z2). Inr ((c, d), z2)))"

definition WriteCreatable :: "ko_stub \<Rightarrow> unit io" where
  "WriteCreatable ob =
     io_bind getVer (\<lambda>v. let classIdx = MappedToPlasma (so_class ob) v in
     if classIdx = -1 then writeShort 0x8000
     else io_then (writeShort (word_of_int classIdx)) (st_write (so_data ob)))"

text \<open>
  Reading the key of an object.  An object the key has already is deleted, and the call of \<open>setObj\<close>
  that follows still asks it whether it is a stub; that is undefined.
\<close>

definition hsKeyedObject_key :: "st_lib \<Rightarrow> plasma_ver \<Rightarrow> bool \<Rightarrow> 'o key_store \<Rightarrow> (nat option \<times> 'o key_store) io" where
  "hsKeyedObject_key L rv pres st =
     io_bind getVer (\<lambda>v. if isMoul v then rm_readKey L rv pres st else rm_readUoid L rv pres st)"

definition hsKeyedObject_read :: "st_lib \<Rightarrow> plasma_ver \<Rightarrow> bool \<Rightarrow> int \<times> bytes \<Rightarrow> stub_store \<Rightarrow> (ko_stub \<times> stub_store) io" where
  "hsKeyedObject_read L rv pres = (\<lambda>(c, data) st.
     io_bind (hsKeyedObject_key L rv pres st) (\<lambda>(k, st1).
     let ob = \<lparr>so_key = k, so_class = c, so_data = data\<rparr> in
     case k of None \<Rightarrow> io_return (ob, st1)
     | Some a \<Rightarrow> if ks_loaded st1 a then io_throw UndefinedBehaviour else io_return (ob, ks_setObj a ob st1)))"

section \<open>The objects of a page\<close>

text \<open>One object: its creatable, its key from a memory stream over the stub's bytes, and the key of the
  index it belongs to, which need not be the same.\<close>

definition load_stub :: "st_lib \<Rightarrow> plasma_ver \<Rightarrow> bool \<Rightarrow> nat \<Rightarrow> stub_store \<Rightarrow> sized_stream \<Rightarrow> (stub_store \<times> sized_stream) result" where
  "load_stub L rv pres b st z =
     rbind (ReadCreatable_stub (k_objSize (kc_data (ks_cells st b))) z) (\<lambda>((c, data), z1).
     rbind (hsKeyedObject_read L rv pres (c, data) st \<lparr>s_ver = s_ver (z_base z1), s_data = data, s_pos = 0\<rparr>) (\<lambda>((ob, st1), _).
       Inr (ks_setObj b ob st1, z1)))"

text \<open>
  A failure inside the \<open>try\<close> block is logged, and the key loses its object; nothing else has changed
  by then but the position in the stream, which the next object sets anew.  A window that does not
  fit the file is made outside the block.
\<close>

definition read_object :: "st_lib \<Rightarrow> plasma_ver \<Rightarrow> bool \<Rightarrow> nat \<Rightarrow> u32 \<times> stub_store \<Rightarrow> (u32 \<times> stub_store) io" where
  "read_object L rv pres b = (\<lambda>(cnt, st).
     let d = kc_data (ks_cells st b) in
     if k_fileOff d = 0 then io_return (cnt, st)
     else io_then (st_seek (unat (k_fileOff d))) (\<lambda>s.
       rbind (sized_new s (unat (k_objSize d))) (\<lambda>z.
       case load_stub L rv pres b st z of
         Inr (st1, z1) \<Rightarrow> Inr ((cnt + 1, st1), z_base z1)
       | Inl UndefinedBehaviour \<Rightarrow> Inl UndefinedBehaviour
       | Inl e \<Rightarrow> Inr ((cnt, ks_deleteObj b st), s))))"

fun read_vec :: "st_lib \<Rightarrow> plasma_ver \<Rightarrow> bool \<Rightarrow> nat list \<Rightarrow> u32 \<times> stub_store \<Rightarrow> (u32 \<times> stub_store) io" where
  "read_vec L rv pres [] r = io_return r"
| "read_vec L rv pres (b # bs) r = io_bind (read_object L rv pres b r) (read_vec L rv pres bs)"

definition touch_all :: "pl_location \<Rightarrow> int list \<Rightarrow> 'o key_store \<Rightarrow> 'o key_store" where
  "touch_all loc types st = fold (\<lambda>t st. snd (ks_getKeys loc t False st)) types st"

fun read_types :: "st_lib \<Rightarrow> plasma_ver \<Rightarrow> bool \<Rightarrow> pl_location \<Rightarrow> int list \<Rightarrow> u32 \<times> stub_store \<Rightarrow> (u32 \<times> stub_store) io" where
  "read_types L rv pres loc [] r = io_return r"
| "read_types L rv pres loc (t # ts) r =
     (case ks_getKeys loc t False (snd r) of (kList, st) \<Rightarrow>
      io_bind (read_vec L rv pres kList (fst r, st)) (read_types L rv pres loc ts))"

definition ReadObjects :: "st_lib \<Rightarrow> plasma_ver \<Rightarrow> bool \<Rightarrow> pl_location \<Rightarrow> stub_store \<Rightarrow> (u32 \<times> stub_store) io" where
  "ReadObjects L rv pres loc st =
     (case ks_getTypes loc False st of (types, st1) \<Rightarrow> read_types L rv pres loc types (0, touch_all loc types st1))"

text \<open>Writing never fails under the contract of the streams, so that the \<open>try\<close> block has no part in it.\<close>

definition write_object :: "bool \<Rightarrow> nat \<Rightarrow> nat \<Rightarrow> u32 \<times> stub_store \<Rightarrow> (u32 \<times> stub_store) io" where
  "write_object pres j a = (\<lambda>(cnt, st).
     io_bind st_tell (\<lambda>pos.
     let off = word_of_nat pos; st1 = (if pres then st else ks_setID a (word_of_nat (j + 1)) st) in
     io_bind (case kc_obj (ks_cells st1 a) of
         Some ob \<Rightarrow> io_then (WriteCreatable ob) (io_return (cnt + 1))
       | None \<Rightarrow> io_then (writeShort 0x8000) (io_return cnt)) (\<lambda>cnt1.
     io_bind st_tell (\<lambda>epos. io_return (cnt1, ks_setExtent a off (word_of_nat epos - off) st1)))))"

fun write_vec :: "bool \<Rightarrow> nat \<Rightarrow> nat list \<Rightarrow> u32 \<times> stub_store \<Rightarrow> (u32 \<times> stub_store) io" where
  "write_vec pres j [] r = io_return r"
| "write_vec pres j (a # as) r = io_bind (write_object pres j a r) (write_vec pres (j + 1) as)"

fun write_types :: "bool \<Rightarrow> pl_location \<Rightarrow> int list \<Rightarrow> u32 \<times> stub_store \<Rightarrow> (u32 \<times> stub_store) io" where
  "write_types pres loc [] r = io_return r"
| "write_types pres loc (t # ts) r =
     (case ks_getKeys loc t False (snd r) of (kList, st) \<Rightarrow>
      io_bind (write_vec pres 0 kList (fst r, st)) (write_types pres loc ts))"

definition WriteObjects :: "bool \<Rightarrow> pl_location \<Rightarrow> stub_store \<Rightarrow> (u32 \<times> stub_store) io" where
  "WriteObjects pres loc st =
     (case ks_getTypes loc False st of (types, st1) \<Rightarrow> write_types pres loc types (0, st1))"

section \<open>Pages\<close>

record res_mgr =
  rm_ver :: plasma_ver
  rm_keys :: stub_store
  rm_pages :: "page_info list"
  rm_preserveIDs :: bool
  rm_verTable :: ver_table

definition rm_new :: "plasma_ver \<Rightarrow> bool \<Rightarrow> stub_store \<Rightarrow> ver_table \<Rightarrow> res_mgr" where
  "rm_new pv preserve st tab = \<lparr>rm_ver = pv, rm_keys = st, rm_pages = [], rm_preserveIDs = preserve, rm_verTable = tab\<rparr>"

definition rm_setVer :: "plasma_ver \<Rightarrow> bool \<Rightarrow> res_mgr \<Rightarrow> res_mgr" where
  "rm_setVer pv force rm = (if rm_ver rm = pvUnknown \<or> force then rm\<lparr>rm_ver := pv\<rparr> else rm)"

definition FindPage :: "pl_location \<Rightarrow> res_mgr \<Rightarrow> page_info option" where
  "FindPage loc rm = find (\<lambda>p. loc_eq (p_loc p) loc) (rm_pages rm)"

fun remove_page :: "pl_location \<Rightarrow> page_info list \<Rightarrow> page_info list" where
  "remove_page loc [] = []"
| "remove_page loc (p # ps) = (if loc_eq (p_loc p) loc then ps else p # remove_page loc ps)"

definition UnloadPage :: "pl_location \<Rightarrow> res_mgr \<Rightarrow> res_mgr" where
  "UnloadPage loc rm =
     (if FindPage loc rm = None then rm
      else rm\<lparr>rm_pages := remove_page loc (rm_pages rm), rm_keys := ks_delAll so_keys loc (rm_keys rm)\<rparr>)"

definition DelPage :: "pl_location \<Rightarrow> res_mgr \<Rightarrow> res_mgr" where
  "DelPage loc rm = rm\<lparr>rm_pages := filter (\<lambda>p. \<not> loc_eq (p_loc p) loc) (rm_pages rm)\<rparr>"

text \<open>
  \<open>ReadPage\<close> in stub mode: the page joins the list before its keys and objects are read.  \<open>prm\<close> is
  the second stream, when there is one.  The number of objects is set on the page that was
  registered last.
\<close>

definition ReadPage ::
    "st_lib \<Rightarrow> (bytes \<Rightarrow> bytes \<Rightarrow> int) \<Rightarrow> hs_stream option \<Rightarrow> res_mgr \<Rightarrow> (page_info \<times> res_mgr) io" where
  "ReadPage L ci prm rm =
     io_bind (page_read L (page_new, rm_verTable rm)) (\<lambda>(page, tab).
     let loc = p_loc page; rm1 = UnloadPage loc (rm\<lparr>rm_verTable := tab\<rparr>) in
     io_bind getVer (\<lambda>v.
     let rm2 = rm_setVer v True (rm1\<lparr>rm_pages := rm_pages rm1 @ [page]\<rparr>) in
     io_then (st_seek (unat (p_idxStart page)))
       (io_bind (ReadKeyring L ci (rm_preserveIDs rm2) loc (rm_keys rm2)) (\<lambda>(_, st1) s.
        rbind (ReadObjects L (rm_ver rm2) (rm_preserveIDs rm2) loc st1 (case prm of None \<Rightarrow> s | Some m \<Rightarrow> m)) (\<lambda>((n, st2), s1).
        let page1 = page\<lparr>p_numObjects := n\<rparr> in
        Inr ((page1, rm2\<lparr>rm_pages := (rm_pages rm2)[length (rm_pages rm1) := page1], rm_keys := st2\<rparr>),
             if prm = None then s1 else s))))))"

definition WritePage :: "page_info \<Rightarrow> res_mgr \<Rightarrow> (page_info \<times> res_mgr) io" where
  "WritePage page rm =
     io_then (setVer (rm_ver rm))
     (case ks_getTypes (p_loc page) False (rm_keys rm) of (types, st) \<Rightarrow>
      io_bind (page_write (page\<lparr>p_classList := types\<rparr>)) (\<lambda>p1.
      io_bind st_tell (\<lambda>dpos.
      let p2 = p1\<lparr>p_dataStart := word_of_nat dpos\<rparr> in
      io_bind (WriteObjects (rm_preserveIDs rm) (p_loc p2) st) (\<lambda>(n, st1).
      io_bind st_tell (\<lambda>ipos.
      let p3 = p2\<lparr>p_numObjects := n, p_idxStart := word_of_nat ipos\<rparr> in
      io_bind (WriteKeyring (p_loc p3) st1) (\<lambda>st2.
      io_bind st_tell (\<lambda>epos.
      let p4 = p3\<lparr>p_checksum := (if isNewPlasma (rm_ver rm) then word_of_nat epos else word_of_nat epos - p_dataStart p3)\<rparr> in
      io_then (page_writeSums p4) (io_return (p4, rm\<lparr>rm_keys := st2\<rparr>)))))))))"

definition ChangeLocation :: "pl_location \<Rightarrow> pl_location \<Rightarrow> res_mgr \<Rightarrow> res_mgr result" where
  "ChangeLocation from to rm =
     (let to' = to\<lparr>l_ver := l_ver from\<rparr> in
      rbind (ks_ChangeLocation from to' (rm_keys rm)) (\<lambda>st.
        Inr (rm\<lparr>rm_pages := map (\<lambda>p. if loc_eq (p_loc p) from then p\<lparr>p_loc := to'\<rparr> else p) (rm_pages rm), rm_keys := st\<rparr>)))"

section \<open>The store after its index is read\<close>

text \<open>Cells from \<open>n\<close> on point to no object, and the keys of the page are among them.\<close>

definition blank :: "nat \<Rightarrow> pl_location \<Rightarrow> 'o key_store \<Rightarrow> bool" where
  "blank n loc st \<longleftrightarrow> n \<le> ks_next st \<and> (\<forall>b \<ge> n. \<not> ks_loaded st b) \<and> (\<forall>t. \<forall>b \<in> set (kv_keys (ks_vec loc t st)). n \<le> b)"

lemma loaded_simps [simp]:
  "ks_loaded (ks_drop a st) b = ks_loaded st b"
  "ks_loaded (ks_add a st) b = ks_loaded st b"
  "ks_loaded (ks_setFlags l t f st) b = ks_loaded st b"
  "ks_loaded (ks_setID a i st) b = ks_loaded st b"
  by (simp_all add: ks_loaded_def ks_drop_def ks_add_def Let_def ks_push_def ks_mark_def ks_setID_def ks_upd_uoid_def
      ks_setFlags_def)

lemma find_touches: "ks_find a st = (r, st') \<Longrightarrow> st' = ks_touch (ks_loc st a) (ks_type st a) st"
  by (simp add: ks_find_def Let_def)

lemma blank_cong:
  "blank n loc st \<Longrightarrow> ks_next st \<le> ks_next st' \<Longrightarrow> (\<And>b. ks_loaded st' b \<Longrightarrow> ks_loaded st b) \<Longrightarrow>
   (\<And>t. set (kv_keys (ks_vec loc t st')) \<subseteq> set (kv_keys (ks_vec loc t st)) \<union> {ks_next st}) \<Longrightarrow> blank n loc st'"
  unfolding blank_def subset_iff by (metis Un_iff empty_iff insert_iff le_trans)

lemma blank_put:
  assumes "blank n loc st"
  shows "blank n loc (ring_put d st)"
proof -
  let ?a = "ks_next st"
  obtain s0 where alloc: "ks_alloc d st = (?a, s0)" and v0: "\<And>l t. ks_vec l t s0 = ks_vec l t st"
    and n0: "ks_next s0 = ?a + 1"
    by (rule alloc_cases [of d st]) (rule that)
  have "s0 = snd (ks_alloc d st)" by (simp add: alloc)
  then have o0: "ks_loaded s0 b \<Longrightarrow> ks_loaded st b" for b by (auto simp: ks_alloc_def ks_loaded_def split: if_splits)
  obtain r s1 where f: "ks_find ?a s0 = (r, s1)" by fastforce
  note s1 = find_touches [OF f]
  show ?thesis
  proof (cases r)
    case None
    then have p: "ring_put d st = ks_drop ?a (ks_add ?a s1)" by (simp add: ring_put_def alloc f)
    show ?thesis
      by (rule blank_cong [OF assms]) (auto simp: p s1 n0 v0 add_vec dest: o0 split: if_splits)
  next
    case (Some b)
    define s2 where "s2 = s1\<lparr>ks_cells := (ks_cells s1)
          (b := (ks_cells s1 b)\<lparr>kc_data := (kc_data (ks_cells s1 b))\<lparr>k_fileOff := k_fileOff d, k_objSize := k_objSize d\<rparr>\<rparr>)\<rparr>"
    have p: "ring_put d st = ks_drop ?a s2" by (simp add: ring_put_def alloc f Some s2_def)
    have "ks_loaded s2 = ks_loaded s1" by (auto simp: s2_def ks_loaded_def fun_eq_iff)
    then show ?thesis
      by (intro blank_cong [OF assms]) (auto simp: p s2_def s1 n0 v0 dest: o0)
  qed
qed

lemma blank_entry: "blank n loc st \<Longrightarrow> blank n loc (load_entry v loc st e)"
proof -
  assume b: "blank n loc st"
  obtain t f ds where e: "e = (t, f, ds)" by (cases e)
  have "blank n loc (ks_touch loc t st)" by (rule blank_cong [OF b]) auto
  then have "blank n loc (fold ring_put ds' (ks_touch loc t st))" for ds'
    by (induction ds' arbitrary: st rule: rev_induct) (simp_all add: blank_put)
  note c = this [of "map (key_decoded v) ds"]
  let ?st = "fold ring_put (map (key_decoded v) ds) (ks_touch loc t st)"
  have "kv_keys (ks_vec l u (ks_setFlags loc t g ?st)) = kv_keys (ks_vec l u ?st)" for l u g
    using ks_vec_key [of l loc t ?st] by (simp add: ks_setFlags_def)
  moreover have "ks_next (ks_setFlags loc t g ?st) = ks_next ?st" for g by (simp add: ks_setFlags_def)
  ultimately have "blank n loc (ks_setFlags loc t g ?st)" for g using c by (simp add: blank_def)
  then show ?thesis by (simp add: e load_entry_def)
qed

lemma sort_cells:
  fixes st :: "'o key_store"
  shows "ks_next (ks_sortKeys ci loc st) = ks_next st" "ks_loaded (ks_sortKeys ci loc st) b = ks_loaded st b"
proof -
  have ren: "ks_loaded (renumber ks i st) b = ks_loaded st b" for ks i and st :: "'o key_store"
    by (induction ks arbitrary: i st) simp_all
  have one: "ks_next (sort_type ci loc st t) = ks_next st" "ks_loaded (sort_type ci loc st t) b = ks_loaded st b"
    for t and st :: "'o key_store"
    using ren [of _ 0 st] by (simp_all add: sort_type_def Let_def ks_loaded_def)
  have all: "ks_next (foldl (sort_type ci loc) st ts) = ks_next st \<and> ks_loaded (foldl (sort_type ci loc) st ts) b = ks_loaded st b"
    for ts and st :: "'o key_store"
    by (induction ts arbitrary: st) (simp_all add: one)
  obtain ts st1 where g: "ks_getTypes loc False st = (ts, st1)" by fastforce
  show "ks_next (ks_sortKeys ci loc st) = ks_next st" "ks_loaded (ks_sortKeys ci loc st) b = ks_loaded st b"
    using all [of st1 ts] getTypes_eq [OF g] by (simp_all add: ks_sortKeys_def g ks_loaded_def)
qed

lemma sort_sets:
  assumes "located st"
  shows "set (kv_keys (ks_vec l t (ks_sortKeys ci loc st))) = set (kv_keys (ks_vec l t st))"
proof -
  obtain ts st1 where g: "ks_getTypes loc False st = (ts, st1)" by fastforce
  note W = sort.whole [OF assms g sortKeys_foldl [OF g, of ci]]
  show ?thesis
  proof (cases "loc_key l = loc_key loc \<and> t \<in> set type_space")
    case True
    then have "kv_keys (ks_vec l t (ks_sortKeys ci loc st)) = kv_keys (sort_out ci loc st t)"
      using W(3) [of t] ks_vec_key [of l loc t "ks_sortKeys ci loc st"] by simp
    moreover have "set (kv_keys (sort_out ci loc st t)) = set (kv_keys (ks_vec loc t st))"
      by (rule mset_eq_setD) (rule sort.permutes)
    ultimately show ?thesis using ks_vec_key [of l loc t st] True by simp
  next
    case False
    with W(5) [of l t] show ?thesis by (simp add: untouched_def)
  qed
qed

lemma ring_load_store:
  fixes st st0 :: "'o key_store" and st' :: "'p key_store"
  assumes st: "located st'" "numbered st'" "isSafeVer v" "page_writable L v loc st'"
    and st0: "located st0" "bounded st0" "\<And>t. page_data loc t st0 = []" "blank (ks_next st0) loc st0"
    and st2: "st2 = ring_load v ci False loc st0 (ring_of loc st')"
  shows "located st2" "bounded st2" "blank (ks_next st0) loc st2"
proof -
  let ?r = "ring_of loc st'"
  let ?st1 = "foldl (load_entry v loc) st0 ?r"
  note r = ring_of_writable [OF st(4)]
  have "list_all (entry_fits v loc) ?r" using writable_fits [OF st(4,1)] by (auto simp: r list_all_iff)
  moreover have "distinct (map fst ?r)" by (simp add: r o_def ring_classes_def)
  ultimately have L: "bounded ?st1" "located ?st1"
    using load_entries_new [OF st0(2,1), of v loc ?r] st0(3) by simp_all
  have B: "blank (ks_next st0) loc (foldl (load_entry v loc) st0 r)" for r
    using st0(4) by (induction r rule: rev_induct) (simp_all add: blank_entry)
  have e: "st2 = ks_sortKeys ci loc ?st1" by (simp add: st2 ring_load_def)
  show "located st2" unfolding e by (rule sorting_invariant(1) [OF L(2)])
  show "bounded st2" using L(1) by (simp add: e bounded_def sort_cells sort_sets [OF L(2)])
  show "blank (ks_next st0) loc st2" using B [of ?r] by (simp add: e blank_def sort_cells sort_sets [OF L(2)])
qed

section \<open>The objects on the wire\<close>

definition stub_image :: "plasma_ver \<Rightarrow> ko_stub \<Rightarrow> bytes" where
  "stub_image v ob = (let c = MappedToPlasma (so_class ob) v in
     if c = -1 then le16 0x8000 else le16 (word_of_int c) @ so_data ob)"

definition object_image :: "plasma_ver \<Rightarrow> ko_stub cells \<Rightarrow> nat \<Rightarrow> bytes" where
  "object_image v c a = (case kc_obj (c a) of Some ob \<Rightarrow> stub_image v ob | None \<Rightarrow> le16 0x8000)"

definition objects_image :: "plasma_ver \<Rightarrow> ko_stub cells \<Rightarrow> nat list \<Rightarrow> bytes" where
  "objects_image v c as = concat (map (object_image v c) as)"

definition loaded_count :: "ko_stub cells \<Rightarrow> nat list \<Rightarrow> u32" where
  "loaded_count c as = word_of_nat (length (filter (\<lambda>a. kc_obj (c a) \<noteq> None) as))"

text \<open>The cells after objects are written one after the other from a position on.\<close>

fun place :: "plasma_ver \<Rightarrow> nat \<Rightarrow> nat list \<Rightarrow> ko_stub cells \<Rightarrow> ko_stub cells" where
  "place v pos [] c = c"
| "place v pos (a # as) c =
     (let n = length (object_image v c a) in
      place v (pos + n) as (c(a := (c a)\<lparr>kc_data := (kc_data (c a))\<lparr>k_fileOff := word_of_nat pos, k_objSize := word_of_nat n\<rparr>\<rparr>)))"

lemma emits_WriteCreatable: "emits (WriteCreatable ob) v (stub_image v ob) () v"
  unfolding WriteCreatable_def stub_image_def Let_def
  by (rule emits_ver, rule emits_if [OF emits_prims(2) emits_then [OF emits_prims(2) emits_st_write]])

lemma place_obj [simp]: "kc_obj (place v pos as c b) = kc_obj (c b)"
  by (induction as arbitrary: pos c) (simp_all add: Let_def)

lemma place_uoid [simp]: "k_uoid (kc_data (place v pos as c b)) = k_uoid (kc_data (c b))"
  by (induction as arbitrary: pos c) (simp_all add: Let_def)

lemma object_image_cong: "(\<And>b. kc_obj (c' b) = kc_obj (c b)) \<Longrightarrow> object_image v c' = object_image v c"
  by (simp add: object_image_def fun_eq_iff)

lemma image_place [simp]:
  "object_image v (place w pos as c) = object_image v c"
  "object_image v (c(a := (c a)\<lparr>kc_data := d\<rparr>)) = object_image v c"
  by (rule object_image_cong, simp)+

lemma loaded_count_simps [simp]:
  "loaded_count c [] = 0"
  "loaded_count c (a # b # bs) = loaded_count c [a] + loaded_count c (b # bs)"
  "loaded_count c (as @ bs) = loaded_count c as + loaded_count c bs"
  by (simp_all add: loaded_count_def)

lemma loaded_count_cong: "(\<And>b. kc_obj (c' b) = kc_obj (c b)) \<Longrightarrow> loaded_count c' = loaded_count c"
  by (simp add: loaded_count_def fun_eq_iff)

lemma loaded_count_place [simp]:
  "loaded_count (place v pos as c) = loaded_count c"
  "loaded_count (c(a := (c a)\<lparr>kc_data := d\<rparr>)) = loaded_count c"
  by (rule loaded_count_cong, simp)+

lemma loaded_count_Cons: "loaded_count c (a # as) = loaded_count c [a] + loaded_count c as"
  by (cases as) simp_all

lemma place_append: "place v pos (as @ bs) c = place v (pos + length (objects_image v c as)) bs (place v pos as c)"
  by (induction as arbitrary: pos c) (simp_all add: Let_def objects_image_def add.assoc)

lemma place_other: "b \<notin> set as \<Longrightarrow> place v pos as c b = c b"
  by (induction as arbitrary: pos c) (simp_all add: Let_def)

lemma place_at:
  assumes "a \<notin> set as" "a \<notin> set bs"
  shows "kc_data (place v pos (as @ a # bs) c a) =
    (kc_data (c a))\<lparr>k_fileOff := word_of_nat (pos + length (objects_image v c as)), k_objSize := word_of_nat (length (object_image v c a))\<rparr>"
  using assms by (simp add: place_append Let_def place_other)

text \<open>The ids are already those the writer would give.\<close>

lemma setID_same: "ks_id st a = i \<Longrightarrow> ks_setID a i st = st"
  by (cases st) (auto simp: ks_setID_def ks_upd_uoid_def Let_def ks_id_def ks_uoid_def fun_eq_iff)

lemma write_object_emits:
  assumes "pres \<or> ks_id st a = word_of_nat (j + 1)"
  shows "write_object pres j a (cnt, st) \<lparr>s_ver = v, s_data = pre, s_pos = length pre\<rparr> =
    Inr ((cnt + loaded_count (ks_cells st) [a], st\<lparr>ks_cells := place v (length pre) [a] (ks_cells st)\<rparr>),
      \<lparr>s_ver = v, s_data = pre @ object_image v (ks_cells st) a, s_pos = length pre + length (object_image v (ks_cells st) a)\<rparr>)"
proof -
  have st1: "(if pres then st else ks_setID a (word_of_nat (j + 1)) st) = st"
    using assms setID_same [of st a] by auto
  let ?m = "case kc_obj (ks_cells st a) of
         Some ob \<Rightarrow> io_then (WriteCreatable ob) (io_return (cnt + 1))
       | None \<Rightarrow> io_then (writeShort 0x8000) (io_return cnt)"
  have "emits ?m v (object_image v (ks_cells st) a @ []) (cnt + loaded_count (ks_cells st) [a]) v"
    unfolding object_image_def
    by (cases "kc_obj (ks_cells st a)")
      (simp_all only: option.case loaded_count_def list.simps filter.simps simp_thms if_True if_False option.distinct,
       auto intro: emits_cong [OF emits_then [OF emits_prims(2) emits_return]]
        emits_cong [OF emits_then [OF emits_WriteCreatable emits_return]])
  from emitsD [OF this, of pre]
  show ?thesis
    unfolding write_object_def prod.case Let_def st1
    by (simp add: io_simps st_tell_def ks_setExtent_def Let_def)
qed

definition written :: "plasma_ver \<Rightarrow> nat \<Rightarrow> nat list \<Rightarrow> stub_store \<Rightarrow> stub_store \<Rightarrow> bool" where
  "written v pos as st st' \<longleftrightarrow> ks_cells st' = place v pos as (ks_cells st) \<and> ks_next st' = ks_next st \<and>
     (\<forall>l t. ks_vec l t st' = ks_vec l t st)"

lemma write_vec_emits:
  "pres \<or> map (ks_id st) as = nums j (length as) \<Longrightarrow> distinct as \<Longrightarrow>
   write_vec pres j as (cnt, st) \<lparr>s_ver = v, s_data = pre, s_pos = length pre\<rparr> =
    Inr ((cnt + loaded_count (ks_cells st) as, st\<lparr>ks_cells := place v (length pre) as (ks_cells st)\<rparr>),
      \<lparr>s_ver = v, s_data = pre @ objects_image v (ks_cells st) as, s_pos = length pre + length (objects_image v (ks_cells st) as)\<rparr>)"
proof (induction as arbitrary: st j cnt pre)
  case (Cons a as)
  define c where "c = place v (length pre) [a] (ks_cells st)"
  have c: "object_image v c = object_image v (ks_cells st)" "loaded_count c = loaded_count (ks_cells st)"
    "place v (length pre) (a # as) (ks_cells st) = place v (length pre + length (object_image v (ks_cells st) a)) as c"
    by (simp_all only: c_def image_place loaded_count_place) (simp add: Let_def)
  let ?st = "st\<lparr>ks_cells := c\<rparr>" and ?pre = "pre @ object_image v (ks_cells st) a"
  have id: "ks_id ?st = ks_id st" by (simp add: ks_id_def ks_uoid_def fun_eq_iff c_def del: place.simps)
  have "pres \<or> map (ks_id ?st) as = nums (j + 1) (length as)" unfolding id using Cons.prems(1) by auto
  note IH = Cons.IH [OF this, of "cnt + loaded_count (ks_cells st) [a]" ?pre]
  have "pres \<or> ks_id st a = word_of_nat (j + 1)" using Cons.prems(1) by auto
  from write_object_emits [OF this, of cnt v pre] IH Cons.prems(2)
  show ?case unfolding c(3)
    by (simp add: io_simps objects_image_def c loaded_count_Cons [of _ a as] add.assoc c_def [symmetric] del: place.simps)
qed (simp add: io_simps objects_image_def)

definition class_keys :: "pl_location \<Rightarrow> stub_store \<Rightarrow> int list \<Rightarrow> nat list" where
  "class_keys loc st ts = concat (map (\<lambda>t. kv_keys (ks_vec loc t st)) ts)"

lemma image_of_objs: "kc_obj \<circ> c' = kc_obj \<circ> c \<Longrightarrow> objects_image v c' as = objects_image v c as \<and> loaded_count c' as = loaded_count c as"
  by (simp add: objects_image_def loaded_count_def object_image_def [abs_def] fun_eq_iff)

lemma write_types_emits:
  "pres \<or> numbered st \<Longrightarrow> located st \<Longrightarrow> distinct ts \<Longrightarrow>
   \<exists>st'. write_types pres loc ts (cnt, st) \<lparr>s_ver = v, s_data = pre, s_pos = length pre\<rparr> =
     Inr ((cnt + loaded_count (ks_cells st) (class_keys loc st ts), st'),
       \<lparr>s_ver = v, s_data = pre @ objects_image v (ks_cells st) (class_keys loc st ts),
        s_pos = length pre + length (objects_image v (ks_cells st) (class_keys loc st ts))\<rparr>) \<and>
     written v (length pre) (class_keys loc st ts) st st'"
proof (induction ts arbitrary: st cnt pre)
  case (Cons t ts)
  let ?ks = "kv_keys (ks_vec loc t st)" and ?c = "ks_cells st"
  let ?st = "(ks_touch loc t st)\<lparr>ks_cells := place v (length pre) ?ks ?c\<rparr>" and ?pre = "pre @ objects_image v (ks_cells st) ?ks"
  have g: "ks_getKeys loc t False st = (?ks, ks_touch loc t st)" by (simp add: ks_getKeys_def)
  have id: "ks_id (ks_touch loc t st) = ks_id st" by (simp add: ks_id_def ks_uoid_def fun_eq_iff)
  have "pres \<or> map (ks_id (ks_touch loc t st)) ?ks = nums 0 (length ?ks)"
    using Cons.prems(1) by (auto simp: numbered_def id)
  note one = write_vec_emits [OF this locatedD(1) [OF Cons.prems(2)], of cnt v pre]
  have u: "ks_uoid ?st b = ks_uoid st b" for b by (simp add: ks_uoid_def)
  have v: "ks_vec l u ?st = ks_vec l u st" for l u by simp
  have l: "located ?st" using Cons.prems(2) by (simp add: located_def u ks_loc_def ks_type_def)
  have n: "pres \<or> numbered ?st" using Cons.prems(1) by (simp add: numbered_def u ks_id_def cong: map_cong)
  have ck: "class_keys loc ?st ts = class_keys loc st ts" by (simp add: class_keys_def)
  have objs: "kc_obj \<circ> place v (length pre) ?ks ?c = kc_obj \<circ> ?c" by (simp add: fun_eq_iff)
  note im = image_of_objs [OF objs, of v]
  obtain st' where IH: "write_types pres loc ts (cnt + loaded_count ?c ?ks, ?st) \<lparr>s_ver = v, s_data = ?pre, s_pos = length ?pre\<rparr> =
     Inr ((cnt + loaded_count ?c ?ks + loaded_count ?c (class_keys loc st ts), st'),
       \<lparr>s_ver = v, s_data = ?pre @ objects_image v ?c (class_keys loc st ts),
        s_pos = length ?pre + length (objects_image v ?c (class_keys loc st ts))\<rparr>)"
    and W: "written v (length ?pre) (class_keys loc st ts) ?st st'"
    using Cons.IH [OF n l, of "cnt + loaded_count ?c ?ks" ?pre] Cons.prems(3) im unfolding ck by auto
  have ks: "class_keys loc st (t # ts) = ?ks @ class_keys loc st ts" by (simp add: class_keys_def)
  show ?case
  proof (intro exI conjI)
    show "write_types pres loc (t # ts) (cnt, st) \<lparr>s_ver = v, s_data = pre, s_pos = length pre\<rparr> =
     Inr ((cnt + loaded_count ?c (class_keys loc st (t # ts)), st'),
       \<lparr>s_ver = v, s_data = pre @ objects_image v ?c (class_keys loc st (t # ts)),
        s_pos = length pre + length (objects_image v ?c (class_keys loc st (t # ts)))\<rparr>)"
      using one IH by (simp add: g io_simps ks objects_image_def add.assoc)
    show "written v (length pre) (class_keys loc st (t # ts)) st st'"
      using W by (simp add: written_def ks place_append)
  qed
qed (simp add: io_simps class_keys_def objects_image_def written_def)

section \<open>A page on the wire\<close>

definition page_classes :: "pl_location \<Rightarrow> stub_store \<Rightarrow> int list" where
  "page_classes loc st = filter (\<lambda>t. kv_keys (ks_vec loc t st) \<noteq> []) type_space"

definition page_keys :: "pl_location \<Rightarrow> stub_store \<Rightarrow> nat list" where
  "page_keys loc st = class_keys loc st (page_classes loc st)"

lemma WriteObjects_emits:
  assumes "located st" "numbered st"
  shows "\<exists>st'. WriteObjects pres loc st \<lparr>s_ver = v, s_data = pre, s_pos = length pre\<rparr> =
     Inr ((loaded_count (ks_cells st) (page_keys loc st), st'),
       \<lparr>s_ver = v, s_data = pre @ objects_image v (ks_cells st) (page_keys loc st),
        s_pos = length pre + length (objects_image v (ks_cells st) (page_keys loc st))\<rparr>) \<and>
     written v (length pre) (page_keys loc st) st st'"
proof -
  obtain ts st1 where g: "ks_getTypes loc False st = (ts, st1)" by fastforce
  note G = getTypes_eq [OF g]
  have ts: "ts = page_classes loc st" using G by (simp add: page_classes_def)
  have d: "distinct ts" by (simp add: ts page_classes_def)
  have ck: "class_keys loc st1 ts = page_keys loc st" using G by (simp add: class_keys_def page_keys_def ts)
  have c: "ks_cells st1 = ks_cells st" using G by simp
  have inv: "pres \<or> numbered st1" "located st1" using getTypes_invariant(1,2) [OF g] assms by simp_all
  from write_types_emits [OF inv d, of loc 0 v pre, unfolded c ck] obtain st' where
    "write_types pres loc ts (0, st1) \<lparr>s_ver = v, s_data = pre, s_pos = length pre\<rparr> =
     Inr ((0 + loaded_count (ks_cells st) (page_keys loc st), st'),
       \<lparr>s_ver = v, s_data = pre @ objects_image v (ks_cells st) (page_keys loc st),
        s_pos = length pre + length (objects_image v (ks_cells st) (page_keys loc st))\<rparr>)"
    "written v (length pre) (page_keys loc st) st1 st'" by blast
  then show ?thesis using G by (auto simp: WriteObjects_def g written_def)
qed

text \<open>The sums go where the header has room for them.\<close>

lemma write_patch:
  "st_write b' \<lparr>s_ver = v, s_data = pre @ b @ rest, s_pos = length pre\<rparr> =
     Inr ((), \<lparr>s_ver = v, s_data = pre @ b' @ rest, s_pos = length pre + length b'\<rparr>)" if "length b' = length b"
  using that by (simp add: st_write_def overwrite_patch)

definition sums_image :: "page_info \<Rightarrow> bytes" where
  "sums_image p = le32 (p_checksum p) @ le32 (p_dataStart p) @ le32 (p_idxStart p)"

definition sums_tail :: "plasma_ver \<Rightarrow> page_info \<Rightarrow> bytes" where
  "sums_tail v p = (if v = pvMoul then classes_image v p else [])"

lemma page_image_sums: "page_image v p = head_image v p @ sums_image p @ sums_tail v p"
  by (simp add: page_image_def sums_image_def sums_tail_def)

lemma length_sums_tail: "length (sums_tail v p) = (if v = pvMoul then 2 + 4 * length (p_classList p) else 0)"
proof -
  have "length (concat (map (class_image w) cs)) = 4 * length cs" for w cs
    by (induction cs) (simp_all add: class_image_def)
  then show ?thesis by (simp add: sums_tail_def classes_image_def)
qed

lemma page_writeSums_patch:
  assumes "p_dataStart p = word_of_nat (length (page_image v q))" "p_classList q = p_classList p"
    and "length (page_image v q) < 2 ^ 32"
  shows "page_writeSums p \<lparr>s_ver = v, s_data = page_image v q @ rest, s_pos = pos\<rparr> =
    Inr ((), \<lparr>s_ver = v, s_data = head_image v q @ sums_image p @ sums_tail v q @ rest, s_pos = pos\<rparr>)"
proof -
  let ?k = "length (sums_tail v q)" and ?h = "length (head_image v q)"
  have len: "length (page_image v q) = ?h + 12 + ?k" by (simp add: page_image_sums sums_image_def)
  have "p_dataStart p - 12 - (if isMoul v then 2 + 4 * word_of_nat (length (p_classList p)) else 0) = (word_of_nat ?h :: u32)"
    unfolding assms(1) len by (simp add: length_sums_tail isMoul_def assms(2))
  then have offs: "unat (p_dataStart p - 12 - (if isMoul v then 2 + 4 * word_of_nat (length (p_classList p)) else 0)) = ?h"
    using assms(3) len by (simp add: unat_of_nat take_bit_nat_eq_self)
  note W = write_patch [of "le32 x" "le32 y" v "head_image v q" for x y]
    write_patch [of "le32 x" "le32 y" v "head_image v q @ le32 z" for x y z]
    write_patch [of "le32 x" "le32 y" v "head_image v q @ le32 z @ le32 w" for x y z w, simplified, unfolded add.commute [of _ 8]]
  show ?thesis
    unfolding page_writeSums_def Let_def page_image_sums sums_image_def
    using W by (simp add: io_simps st_tell_def st_seek_def offs writeInt_def)
qed

text \<open>What \<open>WritePage\<close> leaves of the page, but for the version of its location.\<close>

definition page_filled :: "plasma_ver \<Rightarrow> page_info \<Rightarrow> u32 \<Rightarrow> nat \<Rightarrow> nat \<Rightarrow> nat \<Rightarrow> page_info" where
  "page_filled v p n dpos ipos epos = p\<lparr>p_dataStart := word_of_nat dpos, p_numObjects := n, p_idxStart := word_of_nat ipos,
     p_checksum := (if isNewPlasma v then word_of_nat epos else word_of_nat epos - word_of_nat dpos)\<rparr>"

lemma filled_images [simp]:
  "head_image v (page_filled w p n d i e) = head_image v p" "sums_tail v (page_filled w p n d i e) = sums_tail v p"
  "page_ok L v (page_filled w p n d i e) = page_ok L v p"
  by (simp_all add: page_filled_def head_image_def names_image_def classes_image_def sums_tail_def page_ok_def)

lemma page_writable_key: "loc_key l = loc_key l' \<Longrightarrow> page_writable L v l st = page_writable L v l' st"
  unfolding page_writable_def using ks_vec_key by metis

lemma written_facts:
  assumes "written v pos (page_keys loc st) st st1" "located st" "numbered st" "page_writable L v loc st"
  shows "located st1" "numbered st1" "page_writable L v loc st1"
proof -
  have u: "ks_uoid st1 b = ks_uoid st b" and l: "ks_loaded st1 b = ks_loaded st b" for b
    using assms(1) by (simp_all add: written_def ks_uoid_def ks_loaded_def)
  have v: "ks_vec l t st1 = ks_vec l t st" for l t using assms(1) by (simp add: written_def)
  show "located st1" using assms(2) by (simp add: located_def u v ks_loc_def ks_type_def)
  show "numbered st1" using assms(3) by (simp add: numbered_def u v ks_id_def cong: map_cong)
  show "page_writable L v loc st1"
    using assms(4) by (simp add: page_writable_def v l key_ok_def carried_def ks_uoid_data [symmetric] u)
qed

lemma WritePage_wire:
  assumes st: "located (rm_keys rm)" "numbered (rm_keys rm)" "page_writable L (rm_ver rm) (p_loc page) (rm_keys rm)"
    and ok: "page_ok L (rm_ver rm) p0" and p0: "p0 = page\<lparr>p_classList := page_classes (p_loc page) (rm_keys rm)\<rparr>"
    and defs: "H = length (page_image (rm_ver rm) p0)" "ks = page_keys (p_loc page) (rm_keys rm)"
      "Ob = objects_image (rm_ver rm) (ks_cells (rm_keys rm)) ks"
    and size: "\<And>st1. written (rm_ver rm) H ks (rm_keys rm) st1 \<Longrightarrow>
      H + length Ob + length (ring_image (rm_ver rm) (ring_of (p_loc page) st1)) < 2 ^ 31"
  shows "\<exists>st1 p4. WritePage page rm \<lparr>s_ver = w, s_data = [], s_pos = 0\<rparr> =
      (let v = rm_ver rm; f = page_image v p4 @ Ob @ ring_image v (ring_of (p_loc page) st1) in
       Inr ((p4\<lparr>p_loc := loc_write_ver v (p_loc page)\<rparr>, rm\<lparr>rm_keys := ring_store v (loc_write_ver v (p_loc page)) st1\<rparr>),
            \<lparr>s_ver = v, s_data = f, s_pos = length f\<rparr>)) \<and>
     p4 = page_filled (rm_ver rm) p0 (loaded_count (ks_cells (rm_keys rm)) ks) H (H + length Ob)
        (H + length Ob + length (ring_image (rm_ver rm) (ring_of (p_loc page) st1))) \<and>
     written (rm_ver rm) H ks (rm_keys rm) st1"
proof -
  let ?v = "rm_ver rm" and ?loc = "p_loc page"
  let ?l = "loc_write_ver ?v ?loc" and ?st = "rm_keys rm"
  have safe: "isSafeVer ?v" using ok by (simp add: page_ok_def)
  have key: "loc_key ?l = loc_key ?loc" by (simp add: loc_write_ver_safe [OF safe] loc_key_def)
  obtain ts s0 where g: "ks_getTypes ?loc False ?st = (ts, s0)" by fastforce
  note G = getTypes_eq [OF g]
  have ts: "page\<lparr>p_classList := ts\<rparr> = p0" using G by (simp add: p0 page_classes_def)
  have vecs: "ks_vec ?l t s = ks_vec ?loc t s" for t and s :: stub_store by (rule ks_vec_key [OF key])
  have pk: "page_keys ?l s0 = ks" using G vecs by (simp add: defs page_keys_def class_keys_def page_classes_def)
  have cells: "ks_cells s0 = ks_cells ?st" using G by simp
  let ?H = "page_image ?v p0"
  have inv0: "located s0" "numbered s0" using getTypes_invariant(1,2) [OF g] st by simp_all
  from WriteObjects_emits [OF inv0, of "rm_preserveIDs rm" ?l ?v ?H, unfolded pk cells, folded defs] obtain st1 where
    O: "WriteObjects (rm_preserveIDs rm) ?l s0 \<lparr>s_ver = ?v, s_data = ?H, s_pos = H\<rparr> =
     Inr ((loaded_count (ks_cells ?st) ks, st1), \<lparr>s_ver = ?v, s_data = ?H @ Ob, s_pos = H + length Ob\<rparr>)"
    and "written ?v H ks s0 st1" by (auto simp: defs)
  then have W: "written ?v H ks ?st st1" using G by (simp add: written_def)
  have "page_writable L ?v ?loc st1" "located st1" "numbered st1"
    using written_facts [OF W [unfolded defs(2)]] st by blast+
  then have w1: "page_writable L ?v ?l st1" "located st1" by (simp_all add: page_writable_key [OF key])
  have ring: "ring_of ?l st1 = ring_of ?loc st1"
    by (simp add: ring_of_def ring_entry_of_def [abs_def] ring_classes_def loaded_keys_def vecs)
  let ?R = "ring_image ?v (ring_of ?loc st1)"
  have size1: "H + length Ob + length ?R < 2 ^ 31" by (rule size [OF W])
  then have "length (ring_image ?v (ring_of ?l st1)) < 2 ^ 32" by (simp add: ring)
  note K = emitsD [OF keyring_wire(1) [OF w1(2) safe w1(1) this], of "?H @ Ob", unfolded ring]
  note P = emitsD [OF emits_page_write [OF ok], of "[]"]
  define p4 where "p4 = page_filled ?v p0 (loaded_count (ks_cells ?st) ks) H (H + length Ob) (H + length Ob + length ?R)"
  have H: "length (page_image ?v p0) = H" by (simp add: defs)
  have S: "page_writeSums (p4\<lparr>p_loc := ?l\<rparr>) \<lparr>s_ver = ?v, s_data = ?H @ Ob @ ?R, s_pos = pos\<rparr> =
     Inr ((), \<lparr>s_ver = ?v, s_data = page_image ?v p4 @ Ob @ ?R, s_pos = pos\<rparr>)" for pos
  proof -
    have "p_dataStart (p4\<lparr>p_loc := ?l\<rparr>) = word_of_nat (length ?H)" by (simp add: p4_def page_filled_def H)
    moreover have "p_classList p0 = p_classList (p4\<lparr>p_loc := ?l\<rparr>)" by (simp add: p4_def page_filled_def)
    ultimately have "page_writeSums (p4\<lparr>p_loc := ?l\<rparr>) \<lparr>s_ver = ?v, s_data = ?H @ Ob @ ?R, s_pos = pos\<rparr> =
      Inr ((), \<lparr>s_ver = ?v, s_data = head_image ?v p0 @ sums_image (p4\<lparr>p_loc := ?l\<rparr>) @ sums_tail ?v p0 @ Ob @ ?R, s_pos = pos\<rparr>)"
      using size1 H by (intro page_writeSums_patch) simp_all
    moreover have "page_image ?v p4 = head_image ?v p0 @ sums_image (p4\<lparr>p_loc := ?l\<rparr>) @ sums_tail ?v p0"
      unfolding page_image_sums p4_def filled_images by (simp add: sums_image_def)
    ultimately show ?thesis by simp
  qed
  have p4: "p0\<lparr>p_loc := ?l, p_dataStart := word_of_nat H, p_numObjects := n, p_idxStart := i, p_checksum := c\<rparr> =
      p0\<lparr>p_dataStart := word_of_nat H, p_numObjects := n, p_idxStart := i, p_checksum := c\<rparr>\<lparr>p_loc := ?l\<rparr>" for n i c by simp
  have len: "length (page_image ?v p4) = H"
    unfolding defs page_image_sums p4_def filled_images by (simp add: sums_image_def)
  have l0: "p_loc p0 = ?loc" by (simp add: p0)
  have "WritePage page rm \<lparr>s_ver = w, s_data = [], s_pos = 0\<rparr> =
       Inr ((p4\<lparr>p_loc := ?l\<rparr>, rm\<lparr>rm_keys := ring_store ?v ?l st1\<rparr>),
            \<lparr>s_ver = ?v, s_data = page_image ?v p4 @ Ob @ ?R, s_pos = length (page_image ?v p4 @ Ob @ ?R)\<rparr>)"
    using P O K S len
    by (cases "isNewPlasma ?v") (simp_all add: WritePage_def io_simps g ts st_tell_def H l0 Let_def p4_def page_filled_def p4)
  with W show ?thesis unfolding p4_def Let_def by blast
qed

section \<open>Reading the objects back\<close>

text \<open>Two stores with the same keys, as far as cells below \<open>n\<close> go.\<close>

definition same_keys :: "nat \<Rightarrow> stub_store \<Rightarrow> stub_store \<Rightarrow> bool" where
  "same_keys n st st' \<longleftrightarrow> ks_next st \<le> ks_next st' \<and> (\<forall>l t. ks_vec l t st' = ks_vec l t st) \<and>
     (\<forall>b < n. cell_data st' b = cell_data st b)"

lemma same_keys_refl [simp]: "same_keys n st st"
  by (simp add: same_keys_def)

lemma same_keys_trans: "same_keys n a b \<Longrightarrow> same_keys n b c \<Longrightarrow> same_keys n a c"
  by (simp add: same_keys_def)

lemma same_keys_facts:
  assumes "same_keys (ks_next st) st st'" "located st" "bounded st"
  shows "located st'" "bounded st'" "stands_for b u st' = stands_for b u st" "page_data l t st' = page_data l t st"
proof -
  have v: "ks_vec l t st' = ks_vec l t st" for l t using assms(1) by (simp add: same_keys_def)
  have d: "b \<in> set (kv_keys (ks_vec l t st)) \<Longrightarrow> cell_data st' b = cell_data st b" for b l t
    using assms(1,3) by (auto simp: same_keys_def bounded_def)
  show "located st'" by (rule located_on [OF assms(2)]) (auto simp: v d)
  show "bounded st'" using assms(1,3) by (fastforce simp: bounded_def v same_keys_def)
  show "stands_for b u st' = stands_for b u st" by (auto simp: stands_for_def v ks_uoid_data d)
  show "page_data l t st' = page_data l t st" by (auto simp: page_data_def v d)
qed

text \<open>Reading the identifier of a key that is there gives that key.\<close>

lemma intern_known:
  assumes "located st" "bounded st" "stands_for b u st" "loc_isValid (u_location u)"
  shows "\<exists>st'. rm_intern False u st = (Some b, st') \<and> same_keys (ks_next st) st st' \<and>
    (\<forall>c < ks_next st. kc_obj (ks_cells st' c) = kc_obj (ks_cells st c))"
proof -
  let ?a = "ks_next st" and ?l = "u_location u" and ?t = "u_classType u" and ?d = "key_data_new\<lparr>k_uoid := u\<rparr>"
  obtain s0 where alloc: "ks_alloc ?d st = (?a, s0)" and v0: "\<And>l t. ks_vec l t s0 = ks_vec l t st"
    and d0: "\<And>b. cell_data s0 b = (if b = ?a then ?d else cell_data st b)" and n0: "ks_next s0 = ?a + 1"
    by (rule alloc_cases [of ?d st]) (rule that)
  have "s0 = snd (ks_alloc ?d st)" by (simp add: alloc)
  then have o0: "c < ?a \<Longrightarrow> kc_obj (ks_cells s0 c) = kc_obj (ks_cells st c)" for c by (simp add: ks_alloc_def)
  have fresh: "c \<in> set (kv_keys (ks_vec l t st)) \<Longrightarrow> c < ?a" for c l t using assms(2) by (auto simp: bounded_def)
  have uo: "ks_uoid s0 c = (if c = ?a then u else ks_uoid st c)" for c by (simp add: ks_uoid_data d0)
  have lt: "ks_loc s0 ?a = ?l" "ks_type s0 ?a = ?t" by (simp_all add: ks_loc_def ks_type_def uo)
  let ?s1 = "ks_touch ?l ?t s0" and ?ks = "kv_keys (ks_vec ?l ?t st)"
  have b: "b \<in> set ?ks" "uoid_eq (ks_uoid s0 b) u" using assms(3) fresh uo by (fastforce simp: stands_for_def)+
  have uniq: "c = b" if "c \<in> set ?ks" "uoid_eq (ks_uoid s0 c) u" for c
    by (rule stands_for_unique [OF assms(1) _ assms(3)]) (use that fresh [OF that(1)] in \<open>simp add: stands_for_def uo\<close>)
  have find: "ks_find ?a s0 = (find (\<lambda>c. uoid_eq (ks_uoid s0 c) u) ?ks, ?s1)"
    by (simp add: ks_find_def Let_def lt v0 ks_uoid_cells(3)) (simp add: uo)
  have "find (\<lambda>c. uoid_eq (ks_uoid s0 c) u) ?ks = Some b"
  proof (cases "find (\<lambda>c. uoid_eq (ks_uoid s0 c) u) ?ks")
    case None
    with b show ?thesis by (simp add: find_None_iff)
  next
    case (Some c)
    then have "c \<in> set ?ks \<and> uoid_eq (ks_uoid s0 c) u" by (auto simp: find_Some_iff)
    with uniq Some show ?thesis by simp
  qed
  then have "rm_intern False u st = (Some b, ks_drop ?a (?s1\<lparr>ks_cells := cell_ref b (ks_cells ?s1)\<rparr>))" (is "_ = (_, ?st')")
    using assms(4) by (simp add: rm_intern_def alloc rm_AddKey_def find)
  moreover have "same_keys ?a st ?st'"
    by (simp add: same_keys_def v0 n0) (simp add: cell_data_def d0 [unfolded cell_data_def])
  moreover have "\<forall>c < ?a. kc_obj (ks_cells ?st' c) = kc_obj (ks_cells st c)" by (simp add: ks_drop_def o0)
  ultimately show ?thesis by blast
qed

text \<open>The key at the head of an object's bytes.\<close>

definition self_image :: "plasma_ver \<Rightarrow> pl_uoid \<Rightarrow> bytes" where
  "self_image v u = (if isMoul v then [1] else []) @ uoid_image v u"

lemma parses_self:
  assumes "uoid_ok L v u"
  shows "parses (hsKeyedObject_key L v pres st) v (self_image v u) (rm_intern pres (uoid_upd v uoid_new u) st) v"
proof -
  have u: "parses (rm_readUoid L v pres st) v (uoid_image v u) (rm_intern pres (uoid_upd v uoid_new u) st) v"
    unfolding rm_readUoid_def by (rule parses_ver) (simp only: simp_thms if_False, rule parses_bind_return [OF uoid.rd_parses [OF assms]])
  have k: "parses (rm_readKey L v pres st) v ([1] @ uoid_image v u) (rm_intern pres (uoid_upd v uoid_new u) st) v" if "isMoul v"
    unfolding rm_readKey_def
  proof (rule parses_ver)
    have "isUru v" using that by (simp add: isMoul_def ver_eval)
    moreover have "parses readBool v [1] True v" by (rule parses_cong [OF parses_readBool [of v True]]) simp_all
    ultimately show "parses (if v \<noteq> v then io_throw VersionMismatchException
      else if isUru v \<or> isUniversal v then io_bind readBool (\<lambda>ex. if ex then rm_readUoid L v pres st else io_return (None, st))
      else rm_readUoid L v pres st) v ([1] @ uoid_image v u) (rm_intern pres (uoid_upd v uoid_new u) st) v"
      using u by (simp only: simp_thms if_False if_True) (rule parses_bind [where x = True], assumption, simp)
  qed
  show ?thesis
    unfolding hsKeyedObject_key_def self_image_def
    by (rule parses_ver) (use u k in auto)
qed

text \<open>What a file must hold for a key of the store, for its object to be read.\<close>

definition object_at :: "st_lib \<Rightarrow> plasma_ver \<Rightarrow> bytes \<Rightarrow> stub_store \<Rightarrow> nat \<Rightarrow> int \<times> bytes \<Rightarrow> bool" where
  "object_at L v file st b = (\<lambda>(c, data). \<exists>pre post u rest.
     file = pre @ le16 (word_of_int (MappedToPlasma c v)) @ data @ post \<and> 0 < length pre \<and>
     k_fileOff (cell_data st b) = word_of_nat (length pre) \<and> k_objSize (cell_data st b) = word_of_nat (2 + length data) \<and>
     class_ok v c \<and> data = self_image v u @ rest \<and> uoid_ok L v u \<and>
     stands_for b (uoid_upd v uoid_new u) st \<and> loc_isValid (u_location u))"

lemma valid_upd [simp]: "loc_isValid (u_location (uoid_upd v old u)) = loc_isValid (u_location u)"
  by (simp add: uoid_upd_def loc_isValid_def)

lemma unat_small: "n < 2 ^ 32 \<Longrightarrow> unat (word_of_nat n :: u32) = n"
  by (simp add: unat_of_nat take_bit_nat_eq_self)

lemma sint_small: "n < 2 ^ 31 \<Longrightarrow> sint (word_of_nat n :: u32) = int n"
proof -
  assume n: "n < 2 ^ 31"
  have "sint (word_of_nat n :: u32) = signed_take_bit 31 (int n)" by (simp add: signed_of_nat)
  also have "\<dots> = int n" using n by (simp add: signed_take_bit_int_eq_self)
  finally show ?thesis .
qed

lemma load_stub_ok:
  assumes "located st" "bounded st" "object_at L v file st b (c, data)" "length file < 2 ^ 31" "\<not> ks_loaded st b"
    and s: "s = \<lparr>s_ver = v, s_data = file, s_pos = unat (k_fileOff (cell_data st b))\<rparr>"
  shows "\<exists>z z1 st1. sized_new s (unat (k_objSize (cell_data st b))) = Inr z \<and> load_stub L v False b st z = Inr (st1, z1) \<and>
    s_ver (z_base z1) = v \<and> s_data (z_base z1) = file \<and> same_keys (ks_next st) st st1 \<and>
    (\<forall>a < ks_next st. kc_obj (ks_cells st1 a) =
       (if a = b then Some \<lparr>so_key = Some b, so_class = c, so_data = data\<rparr> else kc_obj (ks_cells st a)))"
proof -
  obtain pre post u rest where f: "file = pre @ le16 (word_of_int (MappedToPlasma c v)) @ data @ post" "0 < length pre"
    and k: "k_fileOff (cell_data st b) = word_of_nat (length pre)" "k_objSize (cell_data st b) = word_of_nat (2 + length data)"
    and ok: "class_ok v c" "data = self_image v u @ rest" "uoid_ok L v u"
      "stands_for b (uoid_upd v uoid_new u) st" "loc_isValid (u_location u)"
    using assms(3) by (auto simp: object_at_def)
  let ?h = "word_of_int (MappedToPlasma c v) :: u16" and ?u = "uoid_upd v uoid_new u"
  have sizes: "unat (k_fileOff (cell_data st b)) = length pre" "unat (k_objSize (cell_data st b)) = 2 + length data"
    using assms(4) unfolding k by (intro unat_small; simp add: f)+
  have int: "sint (k_objSize (cell_data st b)) = int (2 + length data)"
    using assms(4) unfolding k by (intro sint_small) (simp add: f)
  let ?z = "\<lparr>z_base = s, z_length = 2 + length data, z_begin = length pre, z_pos = 0\<rparr>"
  let ?z1 = "\<lparr>z_base = s\<lparr>s_pos := length pre + (2 + length data)\<rparr>, z_length = 2 + length data, z_begin = length pre, z_pos = 2 + length data\<rparr>"
  have spos: "s = \<lparr>s_ver = v, s_data = file, s_pos = length pre\<rparr>" using s sizes by simp
  have z: "sized_new s (unat (k_objSize (cell_data st b))) = Inr ?z"
    using assms(4) unfolding sizes by (simp add: sized_new_def spos s_size_def f Let_def nat_less_iff)
  have cls: "PlasmaToMapped (sint ?h) v = c" using ok(1) by (intro m2p_short) (auto simp: class_ok_def)
  have cre: "ReadCreatable_stub (k_objSize (cell_data st b)) ?z = Inr ((c, data), ?z1)"
    using assms(4) unfolding ReadCreatable_stub_def int
    by (simp add: sized_read_def st_read_def spos f cls Let_def)
  obtain st1 where I: "rm_intern False ?u st = (Some b, st1)" "same_keys (ks_next st) st st1"
    "\<forall>a < ks_next st. kc_obj (ks_cells st1 a) = kc_obj (ks_cells st a)"
    using intern_known [OF assms(1,2) ok(4)] ok(5) by auto
  have bn: "b < ks_next st" using ok(4) assms(2) by (auto simp: stands_for_def bounded_def)
  have self: "hsKeyedObject_key L v False st \<lparr>s_ver = v, s_data = data, s_pos = 0\<rparr> =
     Inr ((Some b, st1), \<lparr>s_ver = v, s_data = data, s_pos = length (self_image v u)\<rparr>)"
    using parsesD [OF parses_self [OF ok(3)], of "[]" rest False st] assms(4) I(1) by (simp add: f ok(2))
  let ?ob = "\<lparr>so_key = Some b, so_class = c, so_data = data\<rparr>"
  have "\<not> ks_loaded st1 b" using assms(5) I(3) bn by (simp add: ks_loaded_def)
  then have "hsKeyedObject_read L v False (c, data) st \<lparr>s_ver = v, s_data = data, s_pos = 0\<rparr> =
     Inr ((?ob, ks_setObj b ?ob st1), \<lparr>s_ver = v, s_data = data, s_pos = length (self_image v u)\<rparr>)"
    by (simp add: hsKeyedObject_read_def io_simps self Let_def)
  then have L: "load_stub L v False b st ?z = Inr (ks_setObj b ?ob (ks_setObj b ?ob st1), ?z1)"
    using cre by (simp add: load_stub_def cell_data_def spos)
  let ?st = "ks_setObj b ?ob (ks_setObj b ?ob st1)"
  have "same_keys (ks_next st) st1 ?st" by (simp add: same_keys_def ks_setObj_def cell_data_def)
  from same_keys_trans [OF I(2) this] have "same_keys (ks_next st) st ?st" .
  moreover have "\<forall>a < ks_next st. kc_obj (ks_cells ?st a) = (if a = b then Some ?ob else kc_obj (ks_cells st a))"
    using I(3) by (simp add: ks_setObj_def)
  moreover have "s_ver (z_base ?z1) = v" "s_data (z_base ?z1) = file" by (simp_all add: spos)
  ultimately show ?thesis using z L by blast
qed

text \<open>A list of keys whose objects are read one after the other.\<close>

definition given :: "(int \<times> bytes) \<Rightarrow> nat \<Rightarrow> ko_stub" where
  "given = (\<lambda>(c, data) b. \<lparr>so_key = Some b, so_class = c, so_data = data\<rparr>)"

definition objects_read :: "(nat \<Rightarrow> int \<times> bytes) \<Rightarrow> nat list \<Rightarrow> stub_store \<Rightarrow> stub_store \<Rightarrow> bool" where
  "objects_read obj bs st st' \<longleftrightarrow> same_keys (ks_next st) st st' \<and>
     (\<forall>a < ks_next st. kc_obj (ks_cells st' a) = (if a \<in> set bs then Some (given (obj a) a) else kc_obj (ks_cells st a)))"

lemma read_object_ok:
  assumes "located st" "bounded st" "object_at L v file st b (obj b)" "length file < 2 ^ 31" "\<not> ks_loaded st b"
    and s: "s_ver s = v" "s_data s = file"
  shows "\<exists>st1 s1. read_object L v False b (cnt, st) s = Inr ((cnt + 1, st1), s1) \<and> s_ver s1 = v \<and> s_data s1 = file \<and>
     objects_read obj [b] st st1"
proof -
  obtain c data where o: "obj b = (c, data)" by (cases "obj b")
  let ?s = "\<lparr>s_ver = v, s_data = file, s_pos = unat (k_fileOff (cell_data st b))\<rparr>"
  have s1: "s\<lparr>s_pos := unat (k_fileOff (cell_data st b))\<rparr> = ?s" using s by simp
  obtain z z1 st1 where S: "sized_new ?s (unat (k_objSize (cell_data st b))) = Inr z" "load_stub L v False b st z = Inr (st1, z1)"
    "s_ver (z_base z1) = v" "s_data (z_base z1) = file" "same_keys (ks_next st) st st1"
    "\<forall>a < ks_next st. kc_obj (ks_cells st1 a) =
       (if a = b then Some \<lparr>so_key = Some b, so_class = c, so_data = data\<rparr> else kc_obj (ks_cells st a))"
    using load_stub_ok [OF assms(1,2) _ assms(4,5) refl, of L v c data] assms(3) unfolding o by blast
  have off: "k_fileOff (cell_data st b) \<noteq> 0"
  proof -
    obtain pre post where p: "pre \<noteq> []" "file = pre @ post" "k_fileOff (cell_data st b) = word_of_nat (length pre)"
      using assms(3) unfolding o object_at_def prod.case length_greater_0_conv by blast
    then have "unat (k_fileOff (cell_data st b)) = length pre" using assms(4) by (simp add: unat_small)
    then show ?thesis using p(1) by auto
  qed
  have "read_object L v False b (cnt, st) s = Inr ((cnt + 1, st1), z_base z1)"
    using off S(1,2) unfolding read_object_def Let_def prod.case cell_data_def [symmetric]
    by (simp add: io_simps st_seek_def s1)
  moreover have "objects_read obj [b] st st1" using S(5,6) by (simp add: objects_read_def o given_def)
  ultimately show ?thesis using S(3,4) by blast
qed

lemma object_at_same:
  assumes "same_keys (ks_next st) st st'" "located st" "bounded st" "object_at L v file st b x"
  shows "object_at L v file st' b x"
proof -
  have b: "b < ks_next st" using assms(3,4) by (auto simp: object_at_def stands_for_def bounded_def case_prod_beta)
  then have d: "cell_data st' b = cell_data st b" using assms(1) by (simp add: same_keys_def)
  show ?thesis
    using assms(4) unfolding object_at_def d same_keys_facts(3) [OF assms(1-3)] .
qed

lemma objects_read_trans:
  assumes "objects_read obj as st st1" "objects_read obj bs st1 st2"
  shows "objects_read obj (as @ bs) st st2"
proof -
  have n: "ks_next st \<le> ks_next st1" using assms(1) by (simp add: objects_read_def same_keys_def)
  have "same_keys (ks_next st) st1 st2" using assms(2) n by (simp add: objects_read_def same_keys_def)
  then show ?thesis using assms n by (auto simp: objects_read_def intro: same_keys_trans)
qed

lemma read_vec_ok:
  "located st \<Longrightarrow> bounded st \<Longrightarrow> \<forall>b \<in> set bs. object_at L v file st b (obj b) \<and> \<not> ks_loaded st b \<Longrightarrow> distinct bs \<Longrightarrow>
   length file < 2 ^ 31 \<Longrightarrow> s_ver s = v \<Longrightarrow> s_data s = file \<Longrightarrow>
   \<exists>st1 s1. read_vec L v False bs (cnt, st) s = Inr ((cnt + word_of_nat (length bs), st1), s1) \<and>
     s_ver s1 = v \<and> s_data s1 = file \<and> objects_read obj bs st st1"
proof (induction bs arbitrary: st s cnt)
  case (Cons b bs)
  from Cons.prems(3) have "object_at L v file st b (obj b)" "\<not> ks_loaded st b" by simp_all
  from read_object_ok [where obj = obj and cnt = cnt, OF Cons.prems(1,2) this(1) Cons.prems(5) this(2) Cons.prems(6,7)] obtain st1 s1 where
    one: "read_object L v False b (cnt, st) s = Inr ((cnt + 1, st1), s1)" "s_ver s1 = v" "s_data s1 = file" "objects_read obj [b] st st1"
    by blast
  have same: "same_keys (ks_next st) st st1" using one(4) by (simp add: objects_read_def)
  note F = same_keys_facts(1,2) [OF same Cons.prems(1,2)]
  have "object_at L v file st1 c (obj c) \<and> \<not> ks_loaded st1 c" if c: "c \<in> set bs" for c
  proof
    have oc: "object_at L v file st c (obj c)" "\<not> ks_loaded st c" using Cons.prems(3) c by simp_all
    then show "object_at L v file st1 c (obj c)" by (intro object_at_same [OF same Cons.prems(1,2)])
    have "c < ks_next st" using oc(1) Cons.prems(2) by (auto simp: object_at_def stands_for_def bounded_def case_prod_beta)
    then show "\<not> ks_loaded st1 c" using one(4) oc(2) c Cons.prems(4) by (auto simp: objects_read_def ks_loaded_def)
  qed
  then obtain st2 s2 where IH: "read_vec L v False bs (cnt + 1, st1) s1 = Inr ((cnt + 1 + word_of_nat (length bs), st2), s2)"
    "s_ver s2 = v" "s_data s2 = file" "objects_read obj bs st1 st2"
    using Cons.IH [OF F _ _ Cons.prems(5) one(2,3), of "cnt + 1"] Cons.prems(4) by auto
  have "objects_read obj (b # bs) st st2" using objects_read_trans [OF one(4) IH(4)] by simp
  with one(1) IH show ?case by (auto simp: io_simps add.assoc)
qed (simp add: io_simps objects_read_def)

lemma read_types_ok:
  "located st \<Longrightarrow> bounded st \<Longrightarrow> \<forall>b \<in> set (class_keys loc st ts). object_at L v file st b (obj b) \<and> \<not> ks_loaded st b \<Longrightarrow>
   distinct (class_keys loc st ts) \<Longrightarrow> length file < 2 ^ 31 \<Longrightarrow> s_ver s = v \<Longrightarrow> s_data s = file \<Longrightarrow>
   \<exists>st1 s1. read_types L v False loc ts (cnt, st) s = Inr ((cnt + word_of_nat (length (class_keys loc st ts)), st1), s1) \<and>
     s_ver s1 = v \<and> s_data s1 = file \<and> objects_read obj (class_keys loc st ts) st st1"
proof (induction ts arbitrary: st s cnt)
  case (Cons t ts)
  let ?ks = "kv_keys (ks_vec loc t st)" and ?st = "ks_touch loc t st"
  have g: "ks_getKeys loc t False st = (?ks, ?st)" by (simp add: ks_getKeys_def)
  have touch: "same_keys (ks_next st) st ?st" by (simp add: same_keys_def)
  note T = same_keys_facts(1,2) [OF touch Cons.prems(1,2)]
  have ck: "class_keys loc st (t # ts) = ?ks @ class_keys loc st ts" by (simp add: class_keys_def)
  have "\<forall>b \<in> set ?ks. object_at L v file ?st b (obj b) \<and> \<not> ks_loaded ?st b"
    using Cons.prems(3) object_at_same [OF touch Cons.prems(1,2)] by (auto simp: ck)
  moreover have "distinct ?ks" using Cons.prems(4) by (simp add: ck)
  ultimately obtain st1 s1 where one: "read_vec L v False ?ks (cnt, ?st) s = Inr ((cnt + word_of_nat (length ?ks), st1), s1)"
    "s_ver s1 = v" "s_data s1 = file" "objects_read obj ?ks ?st st1"
    using read_vec_ok [OF T _ _ Cons.prems(5-7), of ?ks L obj cnt] by blast
  have o1: "objects_read obj ?ks st st1" using one(4) by (simp add: objects_read_def same_keys_def)
  then have same: "same_keys (ks_next st) st st1" by (simp add: objects_read_def)
  note F = same_keys_facts(1,2) [OF same Cons.prems(1,2)]
  have ck1: "class_keys loc st1 ts = class_keys loc st ts" using same by (simp add: class_keys_def same_keys_def)
  have "object_at L v file st1 c (obj c) \<and> \<not> ks_loaded st1 c" if c: "c \<in> set (class_keys loc st ts)" for c
  proof
    have oc: "object_at L v file st c (obj c)" "\<not> ks_loaded st c" using Cons.prems(3) c by (simp_all add: ck)
    then show "object_at L v file st1 c (obj c)" by (intro object_at_same [OF same Cons.prems(1,2)])
    have "c < ks_next st" using oc(1) Cons.prems(2) by (auto simp: object_at_def stands_for_def bounded_def case_prod_beta)
    moreover have "c \<notin> set ?ks" using c Cons.prems(4) by (auto simp: ck)
    ultimately show "\<not> ks_loaded st1 c" using o1 oc(2) by (simp add: objects_read_def ks_loaded_def)
  qed
  then obtain st2 s2 where IH: "read_types L v False loc ts (cnt + word_of_nat (length ?ks), st1) s1 =
      Inr ((cnt + word_of_nat (length ?ks) + word_of_nat (length (class_keys loc st ts)), st2), s2)"
    "s_ver s2 = v" "s_data s2 = file" "objects_read obj (class_keys loc st ts) st1 st2"
    using Cons.IH [OF F _ _ Cons.prems(5) one(2,3), of "cnt + word_of_nat (length ?ks)"] Cons.prems(4)
    unfolding ck1 by (auto simp: ck)
  from objects_read_trans [OF o1 IH(4)] one(1) IH(1-3)
  show ?case by (simp add: g io_simps ck add.assoc)
qed (simp add: io_simps objects_read_def class_keys_def)

lemma touch_all_same: "ks_cells (touch_all loc ts st) = ks_cells st \<and> ks_next (touch_all loc ts st) = ks_next st \<and>
    (\<forall>l t. ks_vec l t (touch_all loc ts st) = ks_vec l t st)"
  by (induction ts arbitrary: st) (simp_all add: touch_all_def ks_getKeys_def)

lemma class_keys_distinct:
  assumes "located st"
  shows "distinct ts \<Longrightarrow> distinct (class_keys loc st ts)"
proof (induction ts)
  case (Cons t ts)
  have "set (kv_keys (ks_vec loc t st)) \<inter> set (class_keys loc st ts) = {}"
    using located_home(2) [OF assms] Cons.prems by (fastforce simp: class_keys_def)
  with Cons locatedD(1) [OF assms] show ?case by (simp add: class_keys_def)
qed (simp add: class_keys_def)

lemma page_keys_distinct: "located st \<Longrightarrow> distinct (page_keys loc st)"
  unfolding page_keys_def by (rule class_keys_distinct) (simp_all add: page_classes_def)

lemma ReadObjects_ok:
  assumes "located st" "bounded st" "\<forall>b \<in> set (page_keys loc st). object_at L v file st b (obj b) \<and> \<not> ks_loaded st b"
    and "length file < 2 ^ 31" "s_ver s = v" "s_data s = file"
  shows "\<exists>st1 s1. ReadObjects L v False loc st s = Inr ((word_of_nat (length (page_keys loc st)), st1), s1) \<and>
     objects_read obj (page_keys loc st) st st1"
proof -
  obtain ts st0 where g: "ks_getTypes loc False st = (ts, st0)" by fastforce
  let ?st = "touch_all loc ts st0"
  have t: "ks_cells ?st = ks_cells st" "ks_next ?st = ks_next st" "ks_vec l u ?st = ks_vec l u st" for l u
    using getTypes_eq [OF g] touch_all_same [of loc ts st0] by simp_all
  have same: "same_keys (ks_next st) st ?st" by (simp add: same_keys_def t cell_data_def)
  have ts: "ts = page_classes loc st" using getTypes_eq [OF g] by (simp add: page_classes_def)
  have ck: "class_keys loc ?st ts = page_keys loc st" by (simp add: class_keys_def page_keys_def t ts [symmetric])
  note T = same_keys_facts(1,2) [OF same assms(1,2)]
  have "\<forall>b \<in> set (page_keys loc st). object_at L v file ?st b (obj b) \<and> \<not> ks_loaded ?st b"
    using assms(3) object_at_same [OF same assms(1,2)] by (simp add: ks_loaded_def t)
  from read_types_ok [where loc = loc and ts = ts and cnt = 0, OF T, unfolded ck, OF this page_keys_distinct [OF assms(1)] assms(4-6)] obtain st1 s1 where
    "read_types L v False loc ts (0, ?st) s = Inr ((word_of_nat (length (page_keys loc st)), st1), s1)"
    "objects_read obj (page_keys loc st) ?st st1" unfolding ck by auto
  then show ?thesis by (auto simp: ReadObjects_def g objects_read_def same_keys_def t cell_data_def)
qed

section \<open>Properties\<close>

text \<open>
  The content of a page's objects, class by class in the order of the keys, and a page whose objects
  a file can carry: each key has its object, of the key's class, and the object's bytes begin with
  an identifier for that key.
\<close>

definition page_stubs :: "pl_location \<Rightarrow> int \<Rightarrow> stub_store \<Rightarrow> (int \<times> bytes) option list" where
  "page_stubs l t st = map (\<lambda>a. map_option (\<lambda>ob. (so_class ob, so_data ob)) (kc_obj (ks_cells st a))) (kv_keys (ks_vec l t st))"

definition stub_ok :: "st_lib \<Rightarrow> plasma_ver \<Rightarrow> stub_store \<Rightarrow> nat \<Rightarrow> bool" where
  "stub_ok L v st a \<longleftrightarrow> loc_isValid (ks_loc st a) \<and> (\<exists>ob u rest. kc_obj (ks_cells st a) = Some ob \<and> so_class ob = ks_type st a \<and>
     so_data ob = self_image v u @ rest \<and> uoid_ok L v u \<and> carried v (key_data_new\<lparr>k_uoid := u\<rparr>) \<and> uoid_eq u (ks_uoid st a))"

definition stubs_ok :: "st_lib \<Rightarrow> plasma_ver \<Rightarrow> pl_location \<Rightarrow> stub_store \<Rightarrow> bool" where
  "stubs_ok L v loc st \<longleftrightarrow> (\<forall>t. \<forall>a \<in> set (kv_keys (ks_vec loc t st)). stub_ok L v st a)"

definition content :: "stub_store \<Rightarrow> nat \<Rightarrow> int \<times> bytes" where
  "content st a = (so_class (the (kc_obj (ks_cells st a))), so_data (the (kc_obj (ks_cells st a))))"

lemma upd_carried: "carried v (key_data_new\<lparr>k_uoid := u\<rparr>) \<Longrightarrow> uoid_eq (uoid_upd v old u) w = uoid_eq u w"
  by (auto simp: carried_def uoid_upd_def uoid_eq_def loc_eq_def)

lemma key_written_fields [simp]:
  "k_fileOff (key_written v d) = k_fileOff d" "k_objSize (key_written v d) = k_objSize d"
  by (simp_all add: key_written_def)

lemma written_eq: "isSafeVer v \<Longrightarrow> uoid_eq (k_uoid (key_written v d)) w = uoid_eq (k_uoid d) w"
  by (simp add: key_written_def loc_write_ver_safe uoid_eq_def loc_eq_def)

lemma objects_back:
  assumes W: "written v (length pre) (page_keys loc st) st st1" and st: "located st" "page_writable L v loc st" "stubs_ok L v loc st"
    and st2: "located st2" "\<And>t. page_data loc t st2 = map (key_written v) (page_data loc t st1)"
    and pre: "0 < length pre" and whole: "file = pre @ objects_image v (ks_cells st) (page_keys loc st) @ post" and safe: "isSafeVer v"
    and i: "i < length (kv_keys (ks_vec loc t st2))"
  shows "object_at L v file st2 (kv_keys (ks_vec loc t st2) ! i) (content st (kv_keys (ks_vec loc t st) ! i))"
proof -
  let ?b = "kv_keys (ks_vec loc t st2) ! i" and ?a = "kv_keys (ks_vec loc t st) ! i" and ?ks = "page_keys loc st" and ?c = "ks_cells st"
  have v1: "ks_vec l u st1 = ks_vec l u st" for l u using W by (simp add: written_def)
  have same: "map (cell_data st2) (kv_keys (ks_vec loc t st2)) = map (\<lambda>a. key_written v (cell_data st1 a)) (kv_keys (ks_vec loc t st))"
    using st2(2) [of t] by (simp add: page_data_def v1)
  from arg_cong [OF this, of length] i have ia: "i < length (kv_keys (ks_vec loc t st))" by simp
  then have a: "?a \<in> set (kv_keys (ks_vec loc t st))" by simp
  have b: "?b \<in> set (kv_keys (ks_vec loc t st2))" using i by simp
  have d: "cell_data st2 ?b = key_written v (cell_data st1 ?a)" using arg_cong [OF same, of "\<lambda>xs. xs ! i"] i ia by simp
  have ty: "t \<in> set type_space" "class_ok v t" using writable_class [OF st(2,1) a] by simp_all
  then have "?a \<in> set ?ks" using a by (auto simp: page_keys_def class_keys_def page_classes_def)
  then obtain as bs where ks: "?ks = as @ ?a # bs" by (meson split_list)
  with page_keys_distinct [OF st(1), of loc] have "?a \<notin> set as" "?a \<notin> set bs" by auto
  from place_at [OF this, of v "length pre" ?c] W ks have c1: "cell_data st1 ?a = (cell_data st ?a)
      \<lparr>k_fileOff := word_of_nat (length pre + length (objects_image v ?c as)), k_objSize := word_of_nat (length (object_image v ?c ?a))\<rparr>"
    by (simp add: written_def cell_data_def)
  have "stub_ok L v st ?a" using st(3) a by (simp add: stubs_ok_def)
  then obtain ob u rest where ob: "loc_isValid (ks_loc st ?a)" "kc_obj (?c ?a) = Some ob" "so_class ob = ks_type st ?a" "so_data ob = self_image v u @ rest"
    "uoid_ok L v u" "carried v (key_data_new\<lparr>k_uoid := u\<rparr>)" "uoid_eq u (ks_uoid st ?a)"
    by (auto simp: stub_ok_def)
  have home: "loc_key (ks_loc st ?a) = loc_key loc" "ks_type st ?a = t" using locatedD(2) [OF st(1) a] by simp_all
  then have cls: "so_class ob = t" using ob(3) by simp
  have m: "MappedToPlasma t v \<noteq> -1" using ty(2) by (simp add: class_ok_def)
  have img: "object_image v ?c ?a = le16 (word_of_int (MappedToPlasma t v)) @ so_data ob"
    using m by (simp add: object_image_def stub_image_def ob(2) cls Let_def)
  note H = uoid_eq_home [OF ob(7)]
  have hu: "loc_key (u_location u) = loc_key loc" "u_classType u = t" "loc_isValid (u_location u)"
    using H home ob(1) by (simp_all add: ks_loc_def ks_type_def)
  let ?u = "uoid_upd v uoid_new u"
  have "uoid_eq (ks_uoid st2 ?b) ?u"
  proof -
    have k1: "k_uoid (cell_data st1 ?a) = ks_uoid st ?a" by (simp add: c1 ks_uoid_data)
    have "uoid_eq (ks_uoid st ?a) ?u"
      using ob(7) upd_carried [OF ob(6), of uoid_new "ks_uoid st ?a"] uoid_eq_sym by metis
    then show ?thesis unfolding ks_uoid_data d written_eq [OF safe] k1 unfolding ks_uoid_data by simp
  qed
  moreover have "?b \<in> set (kv_keys (ks_vec (u_location ?u) (u_classType ?u) st2))"
  proof -
    have "loc_key (u_location ?u) = loc_key loc" "u_classType ?u = t" using hu by (simp_all add: uoid_upd_def loc_key_def)
    with b ks_vec_key [of "u_location ?u" loc t st2] show ?thesis by simp
  qed
  ultimately have stands: "stands_for ?b ?u st2" by (simp add: stands_for_def)
  have ct: "content st ?a = (t, so_data ob)" by (simp add: content_def ob(2) cls)
  have fl: "file = (pre @ objects_image v ?c as) @ le16 (word_of_int (MappedToPlasma t v)) @ so_data ob @ objects_image v ?c bs @ post"
    unfolding whole ks by (simp add: objects_image_def img)
  show ?thesis
    unfolding object_at_def ct prod.case
  proof (intro exI conjI)
    show "k_fileOff (cell_data st2 ?b) = word_of_nat (length (pre @ objects_image v ?c as))" by (simp add: d c1)
    show "k_objSize (cell_data st2 ?b) = word_of_nat (2 + length (so_data ob))" by (simp add: d c1 img)
  qed (use fl pre ty(2) ob(4,5) stands hu(3) in simp_all)
qed

definition page_file_size :: "plasma_ver \<Rightarrow> page_info \<Rightarrow> stub_store \<Rightarrow> nat" where
  "page_file_size v page st =
     (let h = length (page_image v (page\<lparr>p_classList := page_classes (p_loc page) st\<rparr>)); ks = page_keys (p_loc page) st in
      h + length (objects_image v (ks_cells st) ks) +
      length (ring_image v (ring_of (p_loc page) (st\<lparr>ks_cells := place v h ks (ks_cells st)\<rparr>))))"

lemma ring_of_written:
  "written v h ks st st1 \<Longrightarrow> ring_of loc st1 = ring_of loc (st\<lparr>ks_cells := place v h ks (ks_cells st)\<rparr>)"
  by (simp add: ring_of_def ring_entry_of_def [abs_def] ring_classes_def loaded_keys_def ks_loaded_def [abs_def] cell_data_def [abs_def] written_def)

lemma page_keys_length:
  assumes "\<And>t. length (kv_keys (ks_vec loc t st2)) = length (kv_keys (ks_vec loc t st))"
  shows "length (page_keys loc st2) = length (page_keys loc st)"
proof -
  have "(kv_keys (ks_vec loc t st2) \<noteq> []) = (kv_keys (ks_vec loc t st) \<noteq> [])" for t using assms [of t] by auto
  then show ?thesis by (simp add: page_keys_def class_keys_def page_classes_def length_concat o_def assms)
qed

lemma page_keys_mem: "a \<in> set (page_keys loc st) \<longleftrightarrow> (\<exists>t \<in> set type_space. a \<in> set (kv_keys (ks_vec loc t st)))"
  by (auto simp: page_keys_def class_keys_def page_classes_def)

text \<open>The objects of the page in the store they are read into.\<close>

lemma page_objects_back:
  fixes loc :: pl_location
  assumes W: "written v (length pre) (page_keys loc st) st st1" and st: "located st" "page_writable L v loc st" "stubs_ok L v loc st"
    and st2: "located st2" "bounded st2" "\<And>t. page_data loc t st2 = map (key_written v) (page_data loc t st1)"
      "\<forall>t. \<forall>b \<in> set (kv_keys (ks_vec loc t st2)). \<not> ks_loaded st2 b"
    and pre: "0 < length pre" and whole: "file = pre @ objects_image v (ks_cells st) (page_keys loc st) @ post" and safe: "isSafeVer v"
    and s: "length file < 2 ^ 31" "s_ver s = v" "s_data s = file"
  shows "\<exists>st3 s3. ReadObjects L v False loc st2 s = Inr ((word_of_nat (length (page_keys loc st)), st3), s3) \<and>
     (\<forall>l t. page_data l t st3 = page_data l t st2) \<and> (\<forall>t. page_stubs loc t st3 = page_stubs loc t st) \<and>
     (\<forall>t. \<forall>b \<in> set (kv_keys (ks_vec loc t st3)). \<exists>ob. kc_obj (ks_cells st3 b) = Some ob \<and> so_key ob = Some b)"
proof -
  have v1: "ks_vec l u st1 = ks_vec l u st" for l u using W by (simp add: written_def)
  have len: "length (kv_keys (ks_vec loc t st2)) = length (kv_keys (ks_vec loc t st))" for t
    using arg_cong [OF st2(3) [of t], of length] by (simp add: page_data_def v1)
  define P where "P b x = (\<exists>t i. i < length (kv_keys (ks_vec loc t st2)) \<and> b = kv_keys (ks_vec loc t st2) ! i \<and>
      x = content st (kv_keys (ks_vec loc t st) ! i))" for b x
  have "\<forall>b \<in> set (page_keys loc st2). \<exists>x. P b x"
  proof
    fix b
    assume "b \<in> set (page_keys loc st2)"
    then obtain t where "b \<in> set (kv_keys (ks_vec loc t st2))" unfolding page_keys_mem by blast
    then obtain i where "i < length (kv_keys (ks_vec loc t st2))" "b = kv_keys (ks_vec loc t st2) ! i" by (metis in_set_conv_nth)
    then show "\<exists>x. P b x" unfolding P_def by blast
  qed
  then obtain obj where obj: "\<And>b. b \<in> set (page_keys loc st2) \<Longrightarrow> P b (obj b)" using bchoice [of _ P] by blast
  have ready: "\<forall>b \<in> set (page_keys loc st2). object_at L v file st2 b (obj b) \<and> \<not> ks_loaded st2 b"
  proof
    fix b
    assume b: "b \<in> set (page_keys loc st2)"
    from obj [OF this] obtain t i where i: "i < length (kv_keys (ks_vec loc t st2))" "b = kv_keys (ks_vec loc t st2) ! i"
      "obj b = content st (kv_keys (ks_vec loc t st) ! i)" by (auto simp: P_def)
    have "object_at L v file st2 b (obj b)"
      using objects_back [OF W st st2(1,3) pre whole safe i(1)] unfolding i(2) [symmetric] i(3) [symmetric] .
    moreover have "\<not> ks_loaded st2 b" unfolding i(2) using st2(4) nth_mem [OF i(1)] by blast
    ultimately show "object_at L v file st2 b (obj b) \<and> \<not> ks_loaded st2 b" ..
  qed
  from ReadObjects_ok [OF st2(1,2) this s] obtain st3 s3 where
    R: "ReadObjects L v False loc st2 s = Inr ((word_of_nat (length (page_keys loc st2)), st3), s3)" "objects_read obj (page_keys loc st2) st2 st3"
    by blast
  have same: "same_keys (ks_next st2) st2 st3" using R(2) by (simp add: objects_read_def)
  then have v3: "ks_vec l t st3 = ks_vec l t st2" for l t by (simp add: same_keys_def)
  have t_in: "b \<in> set (page_keys loc st2)" if "b \<in> set (kv_keys (ks_vec loc t st2))" for b t
  proof -
    from that len [of t] obtain a where a: "a \<in> set (kv_keys (ks_vec loc t st))" by (metis in_set_conv_nth)
    have "t \<in> set type_space" using writable_class(2) [OF st(2,1) a] by simp
    with that show ?thesis by (auto simp: page_keys_mem)
  qed
  have o3: "kc_obj (ks_cells st3 b) = Some (given (obj b) b)" if "b \<in> set (kv_keys (ks_vec loc t st2))" for b t
    using R(2) t_in [OF that] that st2(2) by (auto simp: objects_read_def bounded_def)
  have "page_stubs loc t st3 = page_stubs loc t st" for t
  proof (rule nth_equalityI)
    show "length (page_stubs loc t st3) = length (page_stubs loc t st)" by (simp add: page_stubs_def v3 len)
    fix i
    assume "i < length (page_stubs loc t st3)"
    then have i: "i < length (kv_keys (ks_vec loc t st2))" by (simp add: page_stubs_def v3)
    let ?b = "kv_keys (ks_vec loc t st2) ! i" and ?a = "kv_keys (ks_vec loc t st) ! i"
    have b: "?b \<in> set (kv_keys (ks_vec loc t st2))" using i by simp
    from obj [OF t_in [OF b]] obtain u j where j: "j < length (kv_keys (ks_vec loc u st2))" "?b = kv_keys (ks_vec loc u st2) ! j"
      "obj ?b = content st (kv_keys (ks_vec loc u st) ! j)" by (auto simp: P_def)
    have "?b \<in> set (kv_keys (ks_vec loc u st2))" using j by simp
    then have ut: "u = t" using locatedD(2) [OF st2(1) b] locatedD(2) [OF st2(1), of ?b loc u] by simp
    with j i locatedD(1) [OF st2(1), of loc t] have "j = i" by (simp add: nth_eq_iff_index_eq)
    with j(3) ut have ob: "obj ?b = content st ?a" by simp
    have "?a \<in> set (kv_keys (ks_vec loc t st))" using i len [of t] by simp
    with st(3) have "stub_ok L v st ?a" by (simp add: stubs_ok_def)
    then have "kc_obj (ks_cells st ?a) \<noteq> None" by (auto simp: stub_ok_def)
    then show "page_stubs loc t st3 ! i = page_stubs loc t st ! i"
      using i len [of t] o3 [OF b] ob by (auto simp: page_stubs_def v3 given_def content_def)
  qed
  moreover have "page_data l t st3 = page_data l t st2" for l t by (rule same_keys_facts(4) [OF same st2(1,2)])
  moreover have "\<exists>ob. kc_obj (ks_cells st3 b) = Some ob \<and> so_key ob = Some b" if "b \<in> set (kv_keys (ks_vec loc t st3))" for b t
    using o3 [of b t] that by (simp add: v3 given_def case_prod_beta)
  ultimately show ?thesis using R(1) page_keys_length [OF len] by auto
qed

text \<open>A page that can be written with all its objects, and a manager that has nothing of it yet.\<close>

definition page_writer :: "st_lib \<Rightarrow> page_info \<Rightarrow> res_mgr \<Rightarrow> bool" where
  "page_writer L page rm \<longleftrightarrow> located (rm_keys rm) \<and> numbered (rm_keys rm) \<and>
     page_writable L (rm_ver rm) (p_loc page) (rm_keys rm) \<and> stubs_ok L (rm_ver rm) (p_loc page) (rm_keys rm) \<and>
     page_ok L (rm_ver rm) (page\<lparr>p_classList := page_classes (p_loc page) (rm_keys rm)\<rparr>) \<and>
     page_file_size (rm_ver rm) page (rm_keys rm) < 2 ^ 31"

definition page_reader :: "pl_location \<Rightarrow> res_mgr \<Rightarrow> bool" where
  "page_reader loc rm \<longleftrightarrow> located (rm_keys rm) \<and> bounded (rm_keys rm) \<and> (\<forall>t. page_data loc t (rm_keys rm) = []) \<and>
     (\<forall>b \<ge> ks_next (rm_keys rm). \<not> ks_loaded (rm_keys rm) b) \<and> FindPage loc rm = None \<and> \<not> rm_preserveIDs rm \<and>
     length (rm_verTable rm) = 1280"

definition new_loc :: "page_info \<Rightarrow> res_mgr \<Rightarrow> pl_location" where
  "new_loc page rm = (p_loc page)\<lparr>l_ver := rm_ver rm\<rparr>"

lemma new_loc_vec [simp]: "ks_vec (new_loc page rm) t st = ks_vec (p_loc page) t st"
  by (rule ks_vec_key) (simp add: new_loc_def loc_key_def)

lemma new_loc_cong [simp]:
  "page_data (new_loc page rm) t st = page_data (p_loc page) t st"
  "page_stubs (new_loc page rm) t st' = page_stubs (p_loc page) t st'"
  "page_writable L v (new_loc page rm) st = page_writable L v (p_loc page) st"
  "stubs_ok L v (new_loc page rm) st' = stubs_ok L v (p_loc page) st'"
  "page_keys (new_loc page rm) st' = page_keys (p_loc page) st'"
  "ring_of (new_loc page rm) st = ring_of (p_loc page) st"
  by (simp_all add: page_data_def page_stubs_def page_writable_def stubs_ok_def page_keys_def class_keys_def page_classes_def
      ring_of_def ring_entry_of_def [abs_def] ring_classes_def loaded_keys_def)

lemma unload_none: "page_reader (p_loc page) rm0 \<Longrightarrow>
    UnloadPage (new_loc page rm) (rm0\<lparr>rm_verTable := tab\<rparr>) = rm0\<lparr>rm_verTable := tab\<rparr>"
  by (simp add: page_reader_def UnloadPage_def FindPage_def loc_eq_def new_loc_def)

text \<open>The file: the header with its sums, the objects, the index.  What the reader has after the index.\<close>

lemma page_file_written:
  assumes "page_writer L page rm"
  shows "\<exists>st1 p4 H Ob R. WritePage page rm \<lparr>s_ver = w, s_data = [], s_pos = 0\<rparr> =
       Inr ((p4\<lparr>p_loc := new_loc page rm\<rparr>, rm\<lparr>rm_keys := ring_store (rm_ver rm) (new_loc page rm) st1\<rparr>),
         \<lparr>s_ver = rm_ver rm, s_data = H @ Ob @ R, s_pos = length (H @ Ob @ R)\<rparr>) \<and>
     H = page_image (rm_ver rm) p4 \<and> Ob = objects_image (rm_ver rm) (ks_cells (rm_keys rm)) (page_keys (p_loc page) (rm_keys rm)) \<and>
     R = ring_image (rm_ver rm) (ring_of (p_loc page) st1) \<and> length (H @ Ob @ R) < 2 ^ 31 \<and>
     page_ok L (rm_ver rm) p4 \<and> unat (p_idxStart p4) = length (H @ Ob) \<and> p_age p4 = p_age page \<and> p_page p4 = p_page page \<and>
     p_loc p4 = p_loc page \<and> p_numObjects p4 = word_of_nat (length (page_keys (p_loc page) (rm_keys rm))) \<and>
     written (rm_ver rm) (length H) (page_keys (p_loc page) (rm_keys rm)) (rm_keys rm) st1"
proof -
  let ?v = "rm_ver rm" and ?loc = "p_loc page" and ?st = "rm_keys rm"
  let ?q = "page\<lparr>p_classList := page_classes ?loc ?st\<rparr>" and ?ks = "page_keys ?loc ?st"
  let ?H = "length (page_image ?v ?q)" and ?Ob = "objects_image ?v (ks_cells ?st) ?ks"
  have st: "located ?st" "numbered ?st" "page_writable L ?v ?loc ?st" and stubs: "stubs_ok L ?v ?loc ?st"
    and ok: "page_ok L ?v ?q" and size: "page_file_size ?v page ?st < 2 ^ 31"
    using assms by (simp_all add: page_writer_def)
  have fits: "?H + length ?Ob + length (ring_image ?v (ring_of ?loc st1)) < 2 ^ 31" if "written ?v ?H ?ks ?st st1" for st1
    using size by (simp add: ring_of_written [OF that] page_file_size_def Let_def)
  have lv: "loc_write_ver ?v ?loc = new_loc page rm" using ok by (simp add: loc_write_ver_safe page_ok_def new_loc_def)
  obtain st1 p4 where W: "WritePage page rm \<lparr>s_ver = w, s_data = [], s_pos = 0\<rparr> =
       Inr ((p4\<lparr>p_loc := new_loc page rm\<rparr>, rm\<lparr>rm_keys := ring_store ?v (new_loc page rm) st1\<rparr>),
         \<lparr>s_ver = ?v, s_data = page_image ?v p4 @ ?Ob @ ring_image ?v (ring_of ?loc st1),
           s_pos = length (page_image ?v p4 @ ?Ob @ ring_image ?v (ring_of ?loc st1))\<rparr>)"
    and p4: "p4 = page_filled ?v ?q (loaded_count (ks_cells ?st) ?ks) ?H (?H + length ?Ob)
        (?H + length ?Ob + length (ring_image ?v (ring_of ?loc st1)))"
    and wr: "written ?v ?H ?ks ?st st1"
    using WritePage_wire [OF st ok refl refl refl refl, of w, OF fits] unfolding Let_def lv by blast
  have H: "length (page_image ?v p4) = ?H" unfolding page_image_sums p4 filled_images by (simp add: sums_image_def)
  have "kc_obj (ks_cells ?st a) \<noteq> None" if "a \<in> set ?ks" for a
  proof -
    from that obtain t where "a \<in> set (kv_keys (ks_vec ?loc t ?st))" unfolding page_keys_mem by blast
    with stubs have "stub_ok L ?v ?st a" by (simp add: stubs_ok_def)
    then show ?thesis by (auto simp: stub_ok_def)
  qed
  then have "filter (\<lambda>a. kc_obj (ks_cells ?st a) \<noteq> None) ?ks = ?ks" by (intro filter_True) blast
  then have cnt: "loaded_count (ks_cells ?st) ?ks = word_of_nat (length ?ks)" by (simp only: loaded_count_def)
  have "p_age p4 = p_age page" "p_page p4 = p_page page" "p_loc p4 = p_loc page" "p_numObjects p4 = word_of_nat (length ?ks)"
    "p_idxStart p4 = word_of_nat (?H + length ?Ob)" "page_ok L ?v p4"
    using ok by (simp_all only: p4 filled_images cnt) (simp_all add: page_filled_def)
  moreover have "unat (word_of_nat (?H + length ?Ob) :: u32) = ?H + length ?Ob" using fits [OF wr] by (intro unat_small) simp
  moreover have "length (page_image ?v p4 @ ?Ob @ ring_image ?v (ring_of ?loc st1)) < 2 ^ 31" using fits [OF wr] H by simp
  ultimately have "unat (p_idxStart p4) = length (page_image ?v p4 @ ?Ob)" "written ?v (length (page_image ?v p4)) ?ks ?st st1"
    "p_age p4 = p_age page \<and> p_page p4 = p_page page \<and> p_loc p4 = p_loc page \<and> p_numObjects p4 = word_of_nat (length ?ks) \<and> page_ok L ?v p4"
    "length (page_image ?v p4 @ ?Ob @ ring_image ?v (ring_of ?loc st1)) < 2 ^ 31"
    using wr H by simp_all
  then show ?thesis using W by blast
qed

lemma page_file_index:
  assumes "page_writer L page rm" "page_reader (p_loc page) rm0"
    and p4: "page_ok L (rm_ver rm) p4" "p_loc p4 = p_loc page" "unat (p_idxStart p4) = length (H @ Ob)"
    and f: "H = page_image (rm_ver rm) p4" "R = ring_image (rm_ver rm) (ring_of (p_loc page) st1)" "length (H @ Ob @ R) < 2 ^ 31"
    and wr: "written (rm_ver rm) (length H) (page_keys (p_loc page) (rm_keys rm)) (rm_keys rm) st1"
  shows "\<exists>st2 cnt. page_read L (page_new, rm_verTable rm0) \<lparr>s_ver = w', s_data = H @ Ob @ R, s_pos = 0\<rparr> =
       Inr ((page_upd (rm_ver rm) page_new p4, page_table (rm_ver rm) (rm_verTable rm0)),
         \<lparr>s_ver = rm_ver rm, s_data = H @ Ob @ R, s_pos = length H\<rparr>) \<and>
     ReadKeyring L ci False (new_loc page rm) (rm_keys rm0) \<lparr>s_ver = rm_ver rm, s_data = H @ Ob @ R, s_pos = length (H @ Ob)\<rparr> =
       Inr ((cnt, st2), \<lparr>s_ver = rm_ver rm, s_data = H @ Ob @ R, s_pos = length (H @ Ob @ R)\<rparr>) \<and>
     located st2 \<and> bounded st2 \<and> (\<forall>t. \<forall>b \<in> set (kv_keys (ks_vec (new_loc page rm) t st2)). \<not> ks_loaded st2 b) \<and>
     (\<forall>t. page_data (new_loc page rm) t st2 = map (key_written (rm_ver rm)) (page_data (new_loc page rm) t st1))"
proof -
  let ?v = "rm_ver rm" and ?sr = "rm_keys rm0" and ?lv = "new_loc page rm"
  have st: "located (rm_keys rm)" "numbered (rm_keys rm)" "page_writable L ?v (p_loc page) (rm_keys rm)" and safe: "isSafeVer ?v"
    using assms(1) by (simp_all add: page_writer_def page_ok_def)
  have r0: "located ?sr" "bounded ?sr" "\<And>t. page_data ?lv t ?sr = []" "\<forall>b \<ge> ks_next ?sr. \<not> ks_loaded ?sr b" "length (rm_verTable rm0) = 1280"
    using assms(2) by (simp_all add: page_reader_def)
  have w1: "located st1" "numbered st1" "page_writable L ?v ?lv st1" using written_facts [OF wr st] by simp_all
  have "kv_keys (ks_vec ?lv t ?sr) = []" for t using r0(3) [of t] by (simp add: page_data_def)
  then have blank: "blank (ks_next ?sr) ?lv ?sr" using r0(4) by (simp add: blank_def)
  have rlen: "length (ring_image ?v (ring_of ?lv st1)) < 2 ^ 32" using f by simp
  define st2 where "st2 = ring_load ?v ci False ?lv ?sr (ring_of ?lv st1)"
  note S2 = ring_load_store [OF w1(1,2) safe w1(3) r0(1-3) blank st2_def]
  have "page_read L (page_new, rm_verTable rm0) \<lparr>s_ver = w', s_data = H @ Ob @ R, s_pos = 0\<rparr> =
       Inr ((page_upd ?v page_new p4, page_table ?v (rm_verTable rm0)), \<lparr>s_ver = ?v, s_data = H @ Ob @ R, s_pos = length H\<rparr>)"
    using parsesD [OF parses_page_read [OF p4(1) r0(5)], of "[]" "Ob @ R" page_new w'] f by simp
  moreover have "ReadKeyring L ci False ?lv ?sr \<lparr>s_ver = ?v, s_data = H @ Ob @ R, s_pos = length (H @ Ob)\<rparr> =
       Inr ((ring_count (ring_of ?lv st1), st2), \<lparr>s_ver = ?v, s_data = H @ Ob @ R, s_pos = length (H @ Ob @ R)\<rparr>)"
    using parsesD [OF keyring_wire(2) [OF w1(1) safe w1(3) rlen], of "H @ Ob" "[]" ci False ?sr] f
    by (simp add: st2_def add.assoc)
  moreover have "page_data ?lv t st2 = map (key_written ?v) (page_data ?lv t st1)" for t
    by (rule ring_load_data(1) [OF w1(1,2) safe w1(3) r0(1-3) rlen st2_def])
  moreover have "\<forall>t. \<forall>b \<in> set (kv_keys (ks_vec ?lv t st2)). \<not> ks_loaded st2 b" using S2(3) by (auto simp: blank_def)
  ultimately show ?thesis using S2(1,2) by blast
qed

text \<open>C1: A page file, written with all objects of the page and read back in stub mode, gives the page
  again: the header and the sums, for each class the same keys in the same order with the same
  names, ids, offsets and sizes, each with an object of the same class and the same bytes whose own
  key is that key; and the reader registers the page, takes its version from the file and counts as
  many objects as the writer did.\<close>

theorem page_file_roundtrip:
  assumes wr: "page_writer L page rm" and rd: "page_reader (p_loc page) rm0"
  shows "\<exists>p1 rm1 s p2 rm2 s2. WritePage page rm \<lparr>s_ver = w, s_data = [], s_pos = 0\<rparr> = Inr ((p1, rm1), s) \<and>
     ReadPage L ci None rm0 (s\<lparr>s_ver := w', s_pos := 0\<rparr>) = Inr ((p2, rm2), s2) \<and>
     p_age p2 = p_age page \<and> p_page p2 = p_page page \<and> p_loc p2 = (p_loc page)\<lparr>l_ver := rm_ver rm\<rparr> \<and>
     p_dataStart p2 = p_dataStart p1 \<and> p_idxStart p2 = p_idxStart p1 \<and> p_checksum p2 = p_checksum p1 \<and>
     p_numObjects p2 = p_numObjects p1 \<and> rm_ver rm2 = rm_ver rm \<and> rm_pages rm2 = rm_pages rm0 @ [p2] \<and>
     (\<forall>t. page_data (p_loc page) t (rm_keys rm2) = page_data (p_loc page) t (rm_keys rm1) \<and>
          page_stubs (p_loc page) t (rm_keys rm2) = page_stubs (p_loc page) t (rm_keys rm)) \<and>
     (\<forall>t. \<forall>b \<in> set (kv_keys (ks_vec (p_loc page) t (rm_keys rm2))).
        \<exists>ob. kc_obj (ks_cells (rm_keys rm2) b) = Some ob \<and> so_key ob = Some b)"
proof -
  let ?v = "rm_ver rm" and ?st = "rm_keys rm" and ?lv = "new_loc page rm" and ?ks = "page_keys (p_loc page) (rm_keys rm)"
  have st: "located ?st" "numbered ?st" "page_writable L ?v (p_loc page) ?st" "stubs_ok L ?v (p_loc page) ?st" and safe: "isSafeVer ?v"
    using wr by (simp_all add: page_writer_def page_ok_def)
  obtain st1 p4 H Ob R where W: "WritePage page rm \<lparr>s_ver = w, s_data = [], s_pos = 0\<rparr> =
       Inr ((p4\<lparr>p_loc := ?lv\<rparr>, rm\<lparr>rm_keys := ring_store ?v ?lv st1\<rparr>), \<lparr>s_ver = ?v, s_data = H @ Ob @ R, s_pos = length (H @ Ob @ R)\<rparr>)"
    and f: "H = page_image ?v p4" "Ob = objects_image ?v (ks_cells ?st) ?ks" "R = ring_image ?v (ring_of (p_loc page) st1)"
      "length (H @ Ob @ R) < 2 ^ 31"
    and p4: "page_ok L ?v p4" "unat (p_idxStart p4) = length (H @ Ob)" "p_age p4 = p_age page" "p_page p4 = p_page page"
      "p_loc p4 = p_loc page" "p_numObjects p4 = word_of_nat (length ?ks)"
    and w1: "written ?v (length H) ?ks ?st st1"
    using page_file_written [OF wr, of w] by blast
  let ?f = "H @ Ob @ R"
  obtain st2 cnt where P: "page_read L (page_new, rm_verTable rm0) \<lparr>s_ver = w', s_data = ?f, s_pos = 0\<rparr> =
       Inr ((page_upd ?v page_new p4, page_table ?v (rm_verTable rm0)), \<lparr>s_ver = ?v, s_data = ?f, s_pos = length H\<rparr>)"
    and K: "ReadKeyring L ci False ?lv (rm_keys rm0) \<lparr>s_ver = ?v, s_data = ?f, s_pos = length (H @ Ob)\<rparr> =
       Inr ((cnt, st2), \<lparr>s_ver = ?v, s_data = ?f, s_pos = length ?f\<rparr>)"
    and S2: "located st2" "bounded st2" "\<forall>t. \<forall>b \<in> set (kv_keys (ks_vec ?lv t st2)). \<not> ks_loaded st2 b"
      "\<forall>t. page_data ?lv t st2 = map (key_written ?v) (page_data ?lv t st1)"
    using page_file_index [OF wr rd p4(1,5,2) f(1,3,4) w1] by blast
  have pos: "0 < length H" by (simp add: f(1) page_image_def)
  have lvs: "page_writable L ?v ?lv ?st" "stubs_ok L ?v ?lv ?st" "written ?v (length H) (page_keys ?lv ?st) ?st st1"
    "?f = H @ objects_image ?v (ks_cells ?st) (page_keys ?lv ?st) @ R" using st w1 f(2) by simp_all
  obtain st3 s3 where O: "ReadObjects L ?v False ?lv st2 \<lparr>s_ver = ?v, s_data = ?f, s_pos = length ?f\<rparr> = Inr ((word_of_nat (length ?ks), st3), s3)"
    and O3: "\<forall>l t. page_data l t st3 = page_data l t st2" "\<forall>t. page_stubs ?lv t st3 = page_stubs ?lv t ?st"
     "\<forall>t. \<forall>b \<in> set (kv_keys (ks_vec ?lv t st3)). \<exists>ob. kc_obj (ks_cells st3 b) = Some ob \<and> so_key ob = Some b"
    using page_objects_back [where s = "\<lparr>s_ver = ?v, s_data = ?f, s_pos = length ?f\<rparr>",
        OF lvs(3) st(1) lvs(1,2) S2(1,2) spec [OF S2(4)] S2(3) pos lvs(4) safe f(4)] by auto
  define p2 where "p2 = (page_upd ?v page_new p4)\<lparr>p_numObjects := word_of_nat (length ?ks)\<rparr>"
  define rm2 where "rm2 = rm0\<lparr>rm_verTable := page_table ?v (rm_verTable rm0), rm_ver := ?v, rm_pages := rm_pages rm0 @ [p2], rm_keys := st3\<rparr>"
  have up: "p_loc (page_upd ?v page_new p4) = ?lv" "unat (p_idxStart (page_upd ?v page_new p4)) = length (H @ Ob)"
    using p4 by (simp_all add: page_upd_def new_loc_def)
  have R: "ReadPage L ci None rm0 \<lparr>s_ver = w', s_data = ?f, s_pos = 0\<rparr> = Inr ((p2, rm2), s3)"
    using P K O rd unload_none [OF rd]
    by (simp add: ReadPage_def io_simps Let_def up rm_setVer_def st_seek_def rm2_def p2_def page_reader_def)
  have D: "page_data (p_loc page) t st2 = page_data (p_loc page) t (ring_store ?v ?lv st1)" for t
    using S2(4) ring_store_data [OF written_facts(1) [OF w1 st(1-3)] safe, of L ?lv ?lv t] written_facts(3) [OF w1 st(1-3)]
    by simp
  have F: "p_age p2 = p_age page" "p_page p2 = p_page page" "p_loc p2 = (p_loc page)\<lparr>l_ver := ?v\<rparr>" "p_dataStart p2 = p_dataStart p4"
    "p_idxStart p2 = p_idxStart p4" "p_checksum p2 = p_checksum p4" "p_numObjects p2 = p_numObjects p4"
    using p4 by (simp_all add: p2_def page_upd_def)
  show ?thesis
    by (rule exI [of _ "p4\<lparr>p_loc := ?lv\<rparr>"], rule exI [of _ "rm\<lparr>rm_keys := ring_store ?v ?lv st1\<rparr>"],
        rule exI [of _ "\<lparr>s_ver = ?v, s_data = ?f, s_pos = length ?f\<rparr>"], rule exI [of _ p2], rule exI [of _ rm2], rule exI [of _ s3])
      (use O3 in \<open>simp add: W R F D rm2_def del: length_append\<close>)
qed

text \<open>A page with one object.\<close>

definition stub_sample :: ko_stub where
  "stub_sample = \<lparr>so_key = Some 0, so_class = 1, so_data = self_image pvMoul (sample_uoid\<lparr>u_objID := 1\<rparr>) @ [42]\<rparr>"

definition stub_base :: stub_store where
  "stub_base = \<lparr>ks_cells = (\<lambda>_. \<lparr>kc_data = ring_data, kc_obj = Some stub_sample, kc_refs = 2\<rparr>), ks_next = 1, ks_keys = []\<rparr>"

definition stub_page_store :: stub_store where "stub_page_store = ks_add 0 stub_base"

definition stub_empty :: stub_store where
  "stub_empty = \<lparr>ks_cells = (\<lambda>_. \<lparr>kc_data = key_data_new, kc_obj = None, kc_refs = 0\<rparr>), ks_next = 0, ks_keys = []\<rparr>"

definition stub_page :: page_info where
  "stub_page = (page_named [65, 104] [66])\<lparr>p_loc := ring_loc\<rparr>"

lemma stub_empty_facts: "located stub_empty" "bounded stub_empty" "page_data l t stub_empty = []" "\<not> ks_loaded stub_empty b"
  by (simp_all add: located_def bounded_def page_data_def stub_empty_def ks_vec_def ks_types_def kv_new_def ks_loaded_def)

lemma stub_base_facts: "ks_vec l t stub_base = kv_new" "cell_data stub_base a = ring_data" "ks_uoid stub_base a = sample_uoid\<lparr>u_objID := 0\<rparr>"
  by (simp_all add: stub_base_def ks_vec_def ks_types_def cell_data_def ks_uoid_def ring_data_def)

lemma stub_store_facts: "located stub_page_store" "numbered stub_page_store"
  "kv_keys (ks_vec l t stub_page_store) = (if loc_key l = loc_key ring_loc \<and> t = 1 then [0] else [])"
  "cell_data stub_page_store 0 = ring_data\<lparr>k_uoid := sample_uoid\<lparr>u_objID := 1\<rparr>\<rparr>"
  "kc_obj (ks_cells stub_page_store 0) = Some stub_sample"
proof -
  have "located stub_base" "numbered stub_base" "unregistered 0 stub_base" "ks_id stub_base 0 = 0"
    by (simp_all add: located_def numbered_def unregistered_def ks_id_def stub_base_facts)
  then show "located stub_page_store" "numbered stub_page_store"
    unfolding stub_page_store_def by (blast intro: located_add numbered_add)+
  show "kv_keys (ks_vec l t stub_page_store) = (if loc_key l = loc_key ring_loc \<and> t = 1 then [0] else [])"
    by (simp add: stub_page_store_def add_vec ks_home_def ks_loc_def ks_type_def ring_loc_def stub_base_facts)
      (simp add: sample_uoid_def)
  show "cell_data stub_page_store 0 = ring_data\<lparr>k_uoid := sample_uoid\<lparr>u_objID := 1\<rparr>\<rparr>"
    by (simp add: stub_page_store_def add_data with_id_def stub_base_facts) (simp add: ring_data_def)
  show "kc_obj (ks_cells stub_page_store 0) = Some stub_sample"
    by (simp add: stub_page_store_def stub_base_def ks_add_def Let_def ks_push_def ks_mark_def ks_setID_def ks_upd_uoid_def)
qed

lemma stub_store_writable: "page_writable ascii_lib pvMoul ring_loc stub_page_store"
proof -
  have "key_ok ascii_lib pvMoul (ring_data\<lparr>k_uoid := sample_uoid\<lparr>u_objID := 1\<rparr>\<rparr>)" by code_simp
  moreover have "carried pvMoul (ring_data\<lparr>k_uoid := sample_uoid\<lparr>u_objID := 1\<rparr>\<rparr>)" by code_simp
  ultimately show ?thesis by (simp add: page_writable_def stub_store_facts ks_loaded_def)
qed

lemma stub_store_stubs: "stubs_ok ascii_lib pvMoul ring_loc stub_page_store"
proof -
  let ?u = "sample_uoid\<lparr>u_objID := 1\<rparr>"
  have "uoid_ok ascii_lib pvMoul ?u" "carried pvMoul (key_data_new\<lparr>k_uoid := ?u\<rparr>)" "loc_isValid (u_location sample_uoid)"
    "uoid_eq ?u ?u" by code_simp+
  moreover have "ks_uoid stub_page_store 0 = ?u" by (simp add: ks_uoid_data stub_store_facts)
  ultimately have "stub_ok ascii_lib pvMoul stub_page_store 0"
    by (auto simp: stub_ok_def stub_store_facts stub_sample_def ks_loc_def ks_type_def)
      (auto simp: sample_uoid_def)
  then show ?thesis by (simp add: stubs_ok_def stub_store_facts)
qed

lemma one_class: "(1 :: int) \<in> set type_space" "distinct type_space"
  by (auto simp: type_space_def image_iff distinct_map inj_on_def intro!: bexI [of _ "1 :: nat"])

lemma stub_store_classes: "page_classes ring_loc stub_page_store = [1]" "page_keys ring_loc stub_page_store = [0]"
proof -
  have "page_classes ring_loc stub_page_store = filter (\<lambda>t. t = 1) type_space"
    by (simp add: page_classes_def stub_store_facts)
  then show "page_classes ring_loc stub_page_store = [1]" by (simp add: filter_one one_class)
  then show "page_keys ring_loc stub_page_store = [0]" by (simp add: page_keys_def class_keys_def stub_store_facts)
qed

lemma stub_page_ok: "page_ok ascii_lib pvMoul (stub_page\<lparr>p_classList := [1]\<rparr>)"
proof -
  have "st_valid ascii_lib [65, 104]" "st_valid ascii_lib [66]" "st_valid ascii_lib page_chapter" "class_ok pvMoul 1"
    "loc_ok pvMoul ring_loc" by code_simp+
  then show ?thesis
    by (simp add: page_ok_def isSafe_values stub_page_def page_named_def safe_str_ok_def release_preds)
qed

lemma stub_page_size: "page_file_size pvMoul stub_page stub_page_store < 2 ^ 31"
proof -
  let ?h = "length (page_image pvMoul (stub_page\<lparr>p_classList := [1]\<rparr>))"
  let ?st = "stub_page_store\<lparr>ks_cells := place pvMoul ?h [0] (ks_cells stub_page_store)\<rparr>"
  have loc: "p_loc stub_page = ring_loc" by (simp add: stub_page_def)
  have "length (loc_image pvMoul ring_loc) = 6" by code_simp
  then have h: "?h \<le> 100"
    by (simp add: page_image_def head_image_def names_image_def classes_image_def class_image_def stub_page_def
        page_named_def release_preds safe_str_image_def ver_neqs isSafe_values)
  have "length (stub_image pvMoul stub_sample) = 29" by code_simp
  then have o: "length (objects_image pvMoul (ks_cells stub_page_store) [0]) = 29"
    by (simp add: objects_image_def object_image_def stub_store_facts)
  have v: "ks_vec l t ?st = ks_vec l t stub_page_store" for l t by simp
  have l: "ks_loaded ?st 0" by (simp add: ks_loaded_def stub_store_facts)
  have k: "k_uoid (cell_data ?st 0) = sample_uoid\<lparr>u_objID := 1\<rparr>"
    using stub_store_facts(4) by (simp add: cell_data_def)
  have lk: "loaded_keys ring_loc t ?st = (if t = 1 then [0] else [])" for t
    unfolding loaded_keys_def v stub_store_facts(3) using l by simp
  then have "ring_classes ring_loc ?st = filter (\<lambda>t. t = 1) type_space" by (simp add: ring_classes_def)
  then have c: "ring_classes ring_loc ?st = [1]" by (simp add: filter_one one_class)
  have "length (uoid_image pvMoul (sample_uoid\<lparr>u_objID := 1\<rparr>)) = 25" by code_simp
  then have r: "length (ring_image pvMoul (ring_of ring_loc ?st)) \<le> 100"
    by (simp add: ring_of_def ring_entry_of_def c lk ring_image_def ring_entry_image_def ring_body_def key_image_def k del: place.simps)
  show ?thesis
    using h o r by (simp add: page_file_size_def Let_def loc stub_store_classes del: place.simps)
qed

lemma stub_page_writer: "page_writer ascii_lib stub_page (rm_new pvMoul False stub_page_store fCurrentVerTable0)"
  using stub_store_facts(1,2) stub_store_writable stub_store_stubs stub_page_ok stub_page_size
  by (simp add: page_writer_def rm_new_def stub_page_def stub_store_classes)

lemma stub_page_reader: "page_reader (p_loc stub_page) (rm_new pvUnknown False stub_empty fCurrentVerTable0)"
  by (simp add: page_reader_def rm_new_def stub_empty_facts FindPage_def fCurrentVerTable0_def)

theorem page_file_roundtrip_witness:
  "\<exists>p1 rm1 s p2 rm2 s2. WritePage stub_page (rm_new pvMoul False stub_page_store fCurrentVerTable0)
       \<lparr>s_ver = pvUnknown, s_data = [], s_pos = 0\<rparr> = Inr ((p1, rm1), s) \<and>
     ReadPage ascii_lib (\<lambda>_ _. 0) None (rm_new pvUnknown False stub_empty fCurrentVerTable0)
       (s\<lparr>s_ver := pvUnknown, s_pos := 0\<rparr>) = Inr ((p2, rm2), s2) \<and>
     page_stubs ring_loc 1 (rm_keys rm2) = [Some (1, so_data stub_sample)] \<and> rm_ver rm2 = pvMoul"
proof -
  let ?rm = "rm_new pvMoul False stub_page_store fCurrentVerTable0" and ?r0 = "rm_new pvUnknown False stub_empty fCurrentVerTable0"
  have loc: "p_loc stub_page = ring_loc" by (simp add: stub_page_def)
  have rm: "rm_keys ?rm = stub_page_store" "rm_ver ?rm = pvMoul" "rm_keys ?r0 = stub_empty"
    by (simp_all add: rm_new_def)
  have "page_stubs ring_loc 1 stub_page_store = [Some (1, so_data stub_sample)]"
    by (simp add: page_stubs_def stub_store_facts) (simp add: stub_sample_def)
  with page_file_roundtrip [OF stub_page_writer stub_page_reader, of pvUnknown "\<lambda>_ _. 0" pvUnknown] show ?thesis
    unfolding rm loc by fastforce
qed

section \<open>Pages in two files\<close>

text \<open>A second stream of another version than the manager's: no object can read its key.\<close>

definition extent_fits :: "hs_stream \<Rightarrow> stub_store \<Rightarrow> nat \<Rightarrow> bool" where
  "extent_fits m st b \<longleftrightarrow> unat (k_fileOff (cell_data st b)) + unat (k_objSize (cell_data st b)) \<le> length (s_data m)"

lemma deleteObj_simps [simp]:
  "ks_vec l t (ks_deleteObj b st) = ks_vec l t st" "cell_data (ks_deleteObj b st) = cell_data st"
  "ks_loaded (ks_deleteObj b st) c \<longleftrightarrow> c \<noteq> b \<and> ks_loaded st c"
proof -
  show "cell_data (ks_deleteObj b st) = cell_data st" by (simp add: ks_deleteObj_def cell_data_def fun_eq_iff)
  show "ks_loaded (ks_deleteObj b st) c \<longleftrightarrow> c \<noteq> b \<and> ks_loaded st c"
    by (auto simp: ks_deleteObj_def ks_loaded_def cell_deleteObj_def split: option.splits)
qed (simp add: ks_deleteObj_def)

lemma load_stub_other_version:
  assumes "s_ver (z_base z) \<noteq> rv" "unat (k_objSize (kc_data (ks_cells st b))) < 2 ^ 31"
  shows "\<exists>e. load_stub L rv pres b st z = Inl e \<and> e \<noteq> UndefinedBehaviour"
proof -
  let ?sz = "k_objSize (kc_data (ks_cells st b))"
  have i: "sint ?sz = int (unat ?sz)" using sint_small [OF assms(2)] by simp
  have small: "\<not> int (unat ?sz) - 2 < - (2 ^ 31)"
  proof -
    have "\<not> int n - 2 < - (2 ^ 31)" for n by simp
    then show ?thesis .
  qed
  have read: "sized_read n z' = Inl e \<Longrightarrow> e = FileReadException" for n z' e
    by (auto simp: sized_read_def st_read_def rbind_eq_Inl split: if_splits)
  have ver: "sized_read n z' = Inr (x, z'') \<Longrightarrow> s_ver (z_base z'') = s_ver (z_base z')" for n z' x z''
    by (auto simp: sized_read_def st_read_def rbind_eq_Inr split: if_splits)
  show ?thesis
  proof (cases "ReadCreatable_stub ?sz z")
    case (Inl e)
    then have "e \<noteq> UndefinedBehaviour"
      unfolding ReadCreatable_stub_def i Let_def if_not_P [OF small]
      by (auto simp: rbind_eq_Inl dest!: read split: if_splits)
    with Inl show ?thesis by (simp add: load_stub_def)
  next
    case (Inr r)
    then obtain c data z1 where r: "ReadCreatable_stub ?sz z = Inr ((c, data), z1)" by (metis surj_pair)
    then have "s_ver (z_base z1) = s_ver (z_base z)"
      unfolding ReadCreatable_stub_def Let_def
      by (auto simp: rbind_eq_Inr dest!: ver split: if_splits)
    then have "load_stub L rv pres b st z = Inl VersionMismatchException"
      using assms(1) by (simp add: load_stub_def r hsKeyedObject_read_def hsKeyedObject_key_def io_simps rm_readKey_def rm_readUoid_def)
    then show ?thesis by simp
  qed
qed

lemma sized_new_fits:
  assumes "p + n \<le> length (s_data S)" "length (s_data S) < 2 ^ 31"
  shows "sized_new (S\<lparr>s_pos := p\<rparr>) n = Inr \<lparr>z_base = S\<lparr>s_pos := p\<rparr>, z_length = n, z_begin = p, z_pos = 0\<rparr>"
proof -
  have "(int (length (s_data S)) - int p) mod 2 ^ 32 = int (length (s_data S)) - int p"
    using assms by (intro mod_pos_pos_trivial) auto
  then show ?thesis using assms by (simp add: sized_new_def Let_def s_size_def)
qed

definition emptied :: "nat list \<Rightarrow> stub_store \<Rightarrow> stub_store \<Rightarrow> bool" where
  "emptied bs st st' \<longleftrightarrow> (\<forall>l t. ks_vec l t st' = ks_vec l t st) \<and> cell_data st' = cell_data st \<and>
     (\<forall>b. ks_loaded st' b \<longrightarrow> ks_loaded st b) \<and> (\<forall>b \<in> set bs. k_fileOff (cell_data st b) \<noteq> 0 \<longrightarrow> \<not> ks_loaded st' b)"

lemma emptied_trans: "emptied as st st1 \<Longrightarrow> emptied bs st1 st2 \<Longrightarrow> emptied (as @ bs) st st2"
  by (auto simp: emptied_def)

definition same_file :: "hs_stream \<Rightarrow> hs_stream \<Rightarrow> bool" where
  "same_file m s \<longleftrightarrow> s_data s = s_data m \<and> s_ver s = s_ver m"

lemma read_object_other_version:
  assumes "same_file m s" "s_ver m \<noteq> rv" "length (s_data m) < 2 ^ 31" "extent_fits m st b"
  shows "\<exists>st' s'. read_object L rv pres b (cnt, st) s = Inr ((cnt, st'), s') \<and> emptied [b] st st' \<and> same_file m s'"
proof (cases "k_fileOff (cell_data st b) = 0")
  case True
  with assms(1) show ?thesis by (auto simp: read_object_def cell_data_def io_simps emptied_def)
next
  case False
  let ?s = "s\<lparr>s_pos := unat (k_fileOff (cell_data st b))\<rparr>" and ?n = "unat (k_objSize (cell_data st b))"
  let ?z = "\<lparr>z_base = ?s, z_length = ?n, z_begin = unat (k_fileOff (cell_data st b)), z_pos = 0\<rparr>"
  have fit: "unat (k_fileOff (cell_data st b)) + ?n \<le> length (s_data m)" using assms(4) by (simp add: extent_fits_def)
  have z: "sized_new ?s ?n = Inr ?z"
    using sized_new_fits [of "unat (k_fileOff (cell_data st b))" ?n s] assms(1,3) fit by (simp add: same_file_def)
  obtain e where e: "load_stub L rv pres b st ?z = Inl e" "e \<noteq> UndefinedBehaviour"
    using load_stub_other_version [of ?z rv st b] assms fit by (auto simp: same_file_def cell_data_def)
  have "read_object L rv pres b (cnt, st) s = Inr ((cnt, ks_deleteObj b st), ?s)"
    using False e unfolding read_object_def Let_def prod.case cell_data_def [symmetric]
    by (cases e) (simp_all add: io_simps st_seek_def z)
  moreover have "emptied [b] st (ks_deleteObj b st)" by (simp add: emptied_def)
  moreover have "same_file m ?s" using assms(1) by (simp add: same_file_def)
  ultimately show ?thesis by blast
qed

lemma read_vec_other_version:
  "same_file m s \<Longrightarrow> s_ver m \<noteq> rv \<Longrightarrow> length (s_data m) < 2 ^ 31 \<Longrightarrow> \<forall>b \<in> set bs. extent_fits m st b \<Longrightarrow>
   \<exists>st' s'. read_vec L rv pres bs (cnt, st) s = Inr ((cnt, st'), s') \<and> emptied bs st st' \<and> same_file m s'"
proof (induction bs arbitrary: st s)
  case (Cons b bs)
  have fb: "extent_fits m st b" using Cons.prems(4) by simp
  from read_object_other_version [OF Cons.prems(1-3) fb, of L pres cnt] obtain st1 s1 where
    one: "read_object L rv pres b (cnt, st) s = Inr ((cnt, st1), s1)" "emptied [b] st st1" "same_file m s1" by blast
  have "\<forall>b \<in> set bs. extent_fits m st1 b" using Cons.prems(4) one(2) by (simp add: extent_fits_def emptied_def)
  from Cons.IH [OF one(3) Cons.prems(2,3) this] obtain st2 s2 where
    two: "read_vec L rv pres bs (cnt, st1) s1 = Inr ((cnt, st2), s2)" "emptied bs st1 st2" "same_file m s2" by blast
  have "emptied (b # bs) st st2" using emptied_trans [OF one(2) two(2)] by simp
  then show ?case using one(1) two(1,3) by (auto simp: io_simps)
qed (simp add: io_simps emptied_def)

lemma read_types_other_version:
  "same_file m s \<Longrightarrow> s_ver m \<noteq> rv \<Longrightarrow> length (s_data m) < 2 ^ 31 \<Longrightarrow> \<forall>b \<in> set (class_keys loc st ts). extent_fits m st b \<Longrightarrow>
   \<exists>st' s'. read_types L rv pres loc ts (cnt, st) s = Inr ((cnt, st'), s') \<and> emptied (class_keys loc st ts) st st' \<and> same_file m s'"
proof (induction ts arbitrary: st s)
  case (Cons t ts)
  let ?ks = "kv_keys (ks_vec loc t st)" and ?st = "ks_touch loc t st"
  have g: "ks_getKeys loc t False st = (?ks, ?st)" by (simp add: ks_getKeys_def)
  have ck: "class_keys loc st (t # ts) = ?ks @ class_keys loc st ts" by (simp add: class_keys_def)
  have "\<forall>b \<in> set ?ks. extent_fits m ?st b" using Cons.prems(4) by (simp add: ck extent_fits_def)
  from read_vec_other_version [OF Cons.prems(1-3) this, of L pres cnt] obtain st1 s1 where
    one: "read_vec L rv pres ?ks (cnt, ?st) s = Inr ((cnt, st1), s1)" "emptied ?ks ?st st1" "same_file m s1" by blast
  have e1: "emptied ?ks st st1" using one(2) by (simp add: emptied_def)
  have ck1: "class_keys loc st1 ts = class_keys loc st ts" using e1 by (simp add: class_keys_def emptied_def)
  have "\<forall>b \<in> set (class_keys loc st1 ts). extent_fits m st1 b"
    using Cons.prems(4) e1 unfolding ck1 by (simp add: ck extent_fits_def emptied_def)
  from Cons.IH [OF one(3) Cons.prems(2,3) this] obtain st2 s2 where
    two: "read_types L rv pres loc ts (cnt, st1) s1 = Inr ((cnt, st2), s2)" "emptied (class_keys loc st ts) st1 st2" "same_file m s2"
    unfolding ck1 by blast
  have "emptied (class_keys loc st (t # ts)) st st2" unfolding ck by (rule emptied_trans [OF e1 two(2)])
  then show ?case using one(1) two(1,3) by (auto simp: g io_simps)
qed (simp add: io_simps emptied_def class_keys_def)

text \<open>C33: When a page is read from a pair of files, \<open>.prx\<close> and \<open>.prm\<close>, the stream of the second has the
  version it was made with, not the one the first was found to have: no object of the page is
  loaded, however good the files are.\<close>

theorem split_page_loads_nothing:
  assumes "page_read L (page_new, rm_verTable rm) prx = Inr ((page, tab), s1)"
    and "ReadKeyring L ci (rm_preserveIDs rm) (p_loc page) (rm_keys (UnloadPage (p_loc page) (rm\<lparr>rm_verTable := tab\<rparr>)))
           (s1\<lparr>s_pos := unat (p_idxStart page)\<rparr>) = Inr ((n, st1), s2)"
    and "s_ver prm \<noteq> s_ver s1" "length (s_data prm) < 2 ^ 31" "\<forall>b \<in> set (page_keys (p_loc page) st1). extent_fits prm st1 b"
  shows "\<exists>p rm'. ReadPage L ci (Some prm) rm prx = Inr ((p, rm'), s2) \<and> p_numObjects p = 0 \<and>
     (\<forall>b \<in> set (page_keys (p_loc page) st1). k_fileOff (cell_data st1 b) \<noteq> 0 \<longrightarrow> \<not> ks_loaded (rm_keys rm') b)"
proof -
  let ?loc = "p_loc page"
  obtain ts st0 where g: "ks_getTypes ?loc False st1 = (ts, st0)" by fastforce
  let ?st = "touch_all ?loc ts st0"
  have t: "ks_cells ?st = ks_cells st1" "ks_vec l u ?st = ks_vec l u st1" for l u
    using getTypes_eq [OF g] touch_all_same [of ?loc ts st0] by simp_all
  have ts: "ts = page_classes ?loc st1" using getTypes_eq [OF g] by (simp add: page_classes_def)
  have ck: "class_keys ?loc ?st ts = page_keys ?loc st1" by (simp add: class_keys_def page_keys_def t ts [symmetric])
  have d: "cell_data ?st = cell_data st1" by (simp add: cell_data_def t fun_eq_iff)
  have "\<forall>b \<in> set (class_keys ?loc ?st ts). extent_fits prm ?st b"
    using assms(5) by (simp add: ck extent_fits_def d)
  from read_types_other_version [OF _ assms(3,4) this, of prm L "rm_preserveIDs rm" 0] obtain st2 s3 where
    R: "read_types L (s_ver s1) (rm_preserveIDs rm) ?loc ts (0, ?st) prm = Inr ((0, st2), s3)"
    and E: "emptied (page_keys ?loc st1) ?st st2" by (auto simp: same_file_def ck)
  have O: "ReadObjects L (s_ver s1) (rm_preserveIDs rm) ?loc st1 prm = Inr ((0, st2), s3)"
    by (simp add: ReadObjects_def g R)
  have pres: "rm_preserveIDs (UnloadPage ?loc (rm\<lparr>rm_verTable := tab\<rparr>)) = rm_preserveIDs rm" by (simp add: UnloadPage_def)
  show ?thesis
    using assms(1,2) O E by (simp add: ReadPage_def io_simps Let_def rm_setVer_def st_seek_def pres emptied_def d)
qed

lemma object_at_fits: "object_at L v file st b x \<Longrightarrow> length file < 2 ^ 31 \<Longrightarrow> s_data m = file \<Longrightarrow> extent_fits m st b"
proof -
  assume "object_at L v file st b x" "length file < 2 ^ 31" "s_data m = file"
  moreover obtain c d where "x = (c, d)" by (cases x)
  ultimately obtain pre post where p: "file = pre @ le16 (word_of_int (MappedToPlasma c v)) @ d @ post"
    "k_fileOff (cell_data st b) = word_of_nat (length pre)" "k_objSize (cell_data st b) = word_of_nat (2 + length d)" and m: "s_data m = file"
    "length file < 2 ^ 31"
    unfolding object_at_def by blast
  then have "unat (k_fileOff (cell_data st b)) = length pre" "unat (k_objSize (cell_data st b)) = 2 + length d"
    unfolding p(2,3) by (intro unat_small; simp)+
  then show ?thesis using p(1) m by (simp add: extent_fits_def)
qed

theorem split_page_loads_nothing_witness:
  "\<exists>f p rm' s. ReadPage ascii_lib (\<lambda>_ _. 0) (Some \<lparr>s_ver = pvUnknown, s_data = f, s_pos = 0\<rparr>)
       (rm_new pvUnknown False stub_empty fCurrentVerTable0) \<lparr>s_ver = pvUnknown, s_data = f, s_pos = 0\<rparr> = Inr ((p, rm'), s) \<and>
     p_numObjects p = 0"
proof -
  let ?rm = "rm_new pvMoul False stub_page_store fCurrentVerTable0" and ?r0 = "rm_new pvUnknown False stub_empty fCurrentVerTable0"
  let ?L = ascii_lib and ?loc = "p_loc stub_page" and ?st = stub_page_store and ?lv = "new_loc stub_page ?rm"
  have rm: "rm_keys ?rm = ?st" "rm_ver ?rm = pvMoul" "rm_keys ?r0 = stub_empty" "rm_preserveIDs ?r0 = False"
    by (simp_all add: rm_new_def)
  have wr: "page_writer ?L stub_page ?rm" by (rule stub_page_writer)
  have rd: "page_reader ?loc ?r0" by (rule stub_page_reader)
  obtain st1 p4 H Ob R where f: "H = page_image pvMoul p4" "Ob = objects_image pvMoul (ks_cells ?st) (page_keys ?loc ?st)"
      "R = ring_image pvMoul (ring_of ?loc st1)" "length (H @ Ob @ R) < 2 ^ 31"
    and p4: "page_ok ?L pvMoul p4" "unat (p_idxStart p4) = length (H @ Ob)" "p_age p4 = p_age stub_page" "p_loc p4 = ?loc"
    and w1: "written pvMoul (length H) (page_keys ?loc ?st) ?st st1"
    using page_file_written [OF wr, of pvUnknown] unfolding rm by blast
  let ?f = "H @ Ob @ R"
  obtain st2 cnt where P: "page_read ?L (page_new, rm_verTable ?r0) \<lparr>s_ver = pvUnknown, s_data = ?f, s_pos = 0\<rparr> =
       Inr ((page_upd pvMoul page_new p4, page_table pvMoul (rm_verTable ?r0)), \<lparr>s_ver = pvMoul, s_data = ?f, s_pos = length H\<rparr>)"
    and K: "ReadKeyring ?L (\<lambda>_ _. 0) False ?lv stub_empty \<lparr>s_ver = pvMoul, s_data = ?f, s_pos = length (H @ Ob)\<rparr> =
       Inr ((cnt, st2), \<lparr>s_ver = pvMoul, s_data = ?f, s_pos = length ?f\<rparr>)"
    and S2: "located st2" "\<forall>t. page_data ?lv t st2 = map (key_written pvMoul) (page_data ?lv t st1)"
    using page_file_index [OF wr rd, unfolded rm, OF p4(1,4,2) f(1,3,4) w1, of pvUnknown "\<lambda>_ _. 0"] by blast
  have up: "p_loc (page_upd pvMoul page_new p4) = ?lv" "unat (p_idxStart (page_upd pvMoul page_new p4)) = length (H @ Ob)"
    "p_age (page_upd pvMoul page_new p4) = [65, 104]"
    using p4 by (simp_all add: page_upd_def new_loc_def rm stub_page_def page_named_def)
  let ?m = "\<lparr>s_ver = pvUnknown, s_data = ?f, s_pos = 0\<rparr>"
  have st: "located ?st" "page_writable ?L pvMoul ?lv ?st" "stubs_ok ?L pvMoul ?lv ?st" and safe: "isSafeVer pvMoul"
    using wr by (simp_all add: page_writer_def page_ok_def rm)
  have pos: "0 < length H" by (simp add: f(1) page_image_def)
  have lvs: "written pvMoul (length H) (page_keys ?lv ?st) ?st st1" "?f = H @ objects_image pvMoul (ks_cells ?st) (page_keys ?lv ?st) @ R"
    using w1 f(2) by simp_all
  have fit: "\<forall>b \<in> set (page_keys ?lv st2). extent_fits ?m st2 b"
  proof
    fix b
    assume "b \<in> set (page_keys ?lv st2)"
    then obtain t i where i: "i < length (kv_keys (ks_vec ?lv t st2))" "b = kv_keys (ks_vec ?lv t st2) ! i"
      unfolding page_keys_mem by (metis in_set_conv_nth)
    from objects_back [OF lvs(1) st S2(1) spec [OF S2(2)] pos lvs(2) safe i(1)] show "extent_fits ?m st2 b"
      unfolding i(2) by (rule object_at_fits) (use f(4) in simp_all)
  qed
  let ?pg = "page_upd pvMoul page_new p4" and ?tab = "page_table pvMoul (rm_verTable ?r0)"
  have K1: "ReadKeyring ?L (\<lambda>_ _. 0) (rm_preserveIDs ?r0) (p_loc ?pg) (rm_keys (UnloadPage (p_loc ?pg) (?r0\<lparr>rm_verTable := ?tab\<rparr>)))
      (\<lparr>s_ver = pvMoul, s_data = ?f, s_pos = length H\<rparr>\<lparr>s_pos := unat (p_idxStart ?pg)\<rparr>) =
      Inr ((cnt, st2), \<lparr>s_ver = pvMoul, s_data = ?f, s_pos = length ?f\<rparr>)"
    using K unfolding up unload_none [OF rd] by (simp add: rm)
  have v: "s_ver ?m \<noteq> s_ver \<lparr>s_ver = pvMoul, s_data = ?f, s_pos = length H\<rparr>" by (simp add: ver_values)
  have l: "length (s_data ?m) < 2 ^ 31" using f(4) by simp
  have fit1: "\<forall>b \<in> set (page_keys (p_loc ?pg) st2). extent_fits ?m st2 b" unfolding up by (rule fit)
  from split_page_loads_nothing [OF P K1 v l fit1] show ?thesis by blast
qed

end
