(* ===== verification/RadixSort.thy ===== *)
theory RadixSort
  imports Prelude "HOL-Library.Multiset"
begin

text \<open>
  The in-place radix sort of linked lists, \<open>src/core/Util/hsRadixSort\<close>.  Elements live in a
  memory addressed by naturals and are chained by their \<open>fNext\<close> pointers; the sorter object holds
  the head of its list and the first and last element of 256 buckets.  A null pointer is
  \<open>None\<close>.  The loops follow pointers and need not end on a cyclic list, so they are partial
  functions: \<open>None\<close> as their result means that the C++ loops forever or dereferences a null
  pointer.  The theorems show that on a proper list neither happens, and what \<open>sort\<close> returns for
  every combination of its flags.
\<close>

section \<open>Elements, memory and the sorter\<close>

text \<open>The key is a union; the sort only reads its unsigned member.\<close>

record 'd rs_elem =
  re_key :: u32
  re_data :: 'd
  re_next :: "nat option"

record 'd rs =
  rs_mem :: "nat \<Rightarrow> 'd rs_elem"
  rs_list :: "nat option"
  rs_heads :: "nat \<Rightarrow> nat option"
  rs_tails :: "nat \<Rightarrow> nat option"

definition kFloat :: u32 where "kFloat = 0"
definition kSigned :: u32 where "kSigned = 1"
definition kUnsigned :: u32 where "kUnsigned = 2"
definition kReverse :: u32 where "kReverse = 4"

definition hsRadixSort_new :: "(nat \<Rightarrow> 'd rs_elem) \<Rightarrow> 'd rs" where
  "hsRadixSort_new mem =
     \<lparr>rs_mem = mem, rs_list = None, rs_heads = (\<lambda>_. None), rs_tails = (\<lambda>_. None)\<rparr>"

text \<open>\<open>p->fNext = q\<close>.\<close>

definition rs_link :: "nat \<Rightarrow> nat option \<Rightarrow> 'd rs \<Rightarrow> 'd rs" where
  "rs_link p q st = st\<lparr>rs_mem := (rs_mem st)(p := (rs_mem st p)\<lparr>re_next := q\<rparr>)\<rparr>"

section \<open>The operations\<close>

definition rs_digit :: "nat \<Rightarrow> u32 \<Rightarrow> nat" where
  "rs_digit i k = unat (drop_bit (8 * i) k AND 0xFF)"

text \<open>One element goes to the end of its bucket.\<close>

definition rs_put :: "nat \<Rightarrow> nat \<Rightarrow> 'd rs \<Rightarrow> 'd rs" where
  "rs_put i a st =
     (let key = rs_digit i (re_key (rs_mem st a));
          st1 = (case rs_tails st key of
                   Some t \<Rightarrow> rs_link t (Some a) st
                 | None \<Rightarrow> st\<lparr>rs_heads := (rs_heads st)(key := Some a)\<rparr>);
          st2 = rs_link a None st1
      in st2\<lparr>rs_tails := (rs_tails st2)(key := Some a)\<rparr>)"

text \<open>The inner loop of one pass; \<open>it\<close> is the element after the one in \<open>fList\<close>.\<close>

partial_function (option) rs_scan :: "nat \<Rightarrow> nat option \<Rightarrow> 'd rs \<Rightarrow> 'd rs option" where
  "rs_scan i it st =
     (case it of
        None \<Rightarrow> Some st
      | Some b \<Rightarrow>
          (case rs_list st of
             None \<Rightarrow> None
           | Some a \<Rightarrow>
               (let st1 = (rs_put i a st)\<lparr>rs_list := Some b\<rparr>
                in rs_scan i (re_next (rs_mem st1 b)) st1)))"

text \<open>The body of the loops that chain buckets together, for the bucket \<open>k\<close>, and these loops.\<close>

definition rs_gather1 :: "nat \<Rightarrow> nat option \<times> nat option \<times> 'd rs \<Rightarrow> (nat option \<times> nat option \<times> 'd rs) option" where
  "rs_gather1 k = (\<lambda>(head, tail, st).
     Option.bind
       (case rs_heads st k of
          None \<Rightarrow> Some (head, tail, st)
        | Some x \<Rightarrow>
            (case head of
               Some h \<Rightarrow> (case tail of
                            None \<Rightarrow> None
                          | Some t \<Rightarrow> Some (head, rs_tails st k, rs_link t (Some x) st))
             | None \<Rightarrow> Some (Some x, rs_tails st k, st)))
       (\<lambda>(head', tail', st'). Some (head', tail',
          st'\<lparr>rs_tails := (rs_tails st')(k := None), rs_heads := (rs_heads st')(k := None)\<rparr>)))"

fun rs_gather :: "nat list \<Rightarrow> nat option \<times> nat option \<times> 'd rs \<Rightarrow> (nat option \<times> nat option \<times> 'd rs) option" where
  "rs_gather [] s = Some s"
| "rs_gather (k # ks) s = Option.bind (rs_gather1 k s) (rs_gather ks)"

definition rs_collapse :: "'d rs \<Rightarrow> 'd rs option" where
  "rs_collapse st =
     map_option (\<lambda>(head, tail, st'). st'\<lparr>rs_list := head\<rparr>) (rs_gather [0..<256] (None, None, st))"

text \<open>The loop of \<open>reverse\<close> stops at the last element, before linking it.\<close>

partial_function (option) rs_reverse_loop :: "nat \<Rightarrow> 'd rs \<Rightarrow> 'd rs option" where
  "rs_reverse_loop nxt st =
     (case re_next (rs_mem st nxt) of
        None \<Rightarrow> Some st
      | Some nnext \<Rightarrow> rs_reverse_loop nnext ((rs_link nxt (rs_list st) st)\<lparr>rs_list := Some nxt\<rparr>))"

definition rs_reverse :: "'d rs \<Rightarrow> 'd rs option" where
  "rs_reverse st =
     (case rs_list st of
        None \<Rightarrow> Some st
      | Some a \<Rightarrow>
          (case re_next (rs_mem st a) of
             None \<Rightarrow> Some st
           | Some b \<Rightarrow> rs_reverse_loop b (rs_link a None st)))"

definition rs_unpackSigned :: "'d rs \<Rightarrow> 'd rs option" where
  "rs_unpackSigned st =
     Option.bind (rs_gather (map (\<lambda>i. i + 128) [0..<128]) (None, None, st)) (\<lambda>s1.
     map_option (\<lambda>(head, tail, st'). st'\<lparr>rs_list := head\<rparr>) (rs_gather [0..<128] s1))"

definition rs_unpackFloat :: "'d rs \<Rightarrow> 'd rs option" where
  "rs_unpackFloat st =
     Option.bind (rs_gather (map (\<lambda>i. i + 128) [0..<128]) (None, None, st)) (\<lambda>(head, tail, st1).
     Option.bind (rs_reverse (st1\<lparr>rs_list := head\<rparr>)) (\<lambda>st2.
     map_option (\<lambda>(head', tail', st'). st'\<lparr>rs_list := head'\<rparr>)
       (rs_gather [0..<128] (rs_list st2, head, st2))))"

text \<open>One of the four passes: all elements but the last in the loop, the last one after it.\<close>

definition rs_pass :: "nat \<Rightarrow> 'd rs \<Rightarrow> 'd rs option" where
  "rs_pass i st =
     (case rs_list st of
        None \<Rightarrow> None
      | Some a \<Rightarrow>
          Option.bind (rs_scan i (re_next (rs_mem st a)) st) (\<lambda>st1.
          case rs_list st1 of
            None \<Rightarrow> None
          | Some z \<Rightarrow> rs_collapse (rs_put i z st1)))"

fun rs_passes :: "nat list \<Rightarrow> 'd rs \<Rightarrow> 'd rs option" where
  "rs_passes [] st = Some st"
| "rs_passes (i # is) st = Option.bind (rs_pass i st) (rs_passes is)"

definition rs_sort :: "nat option \<Rightarrow> u32 \<Rightarrow> 'd rs \<Rightarrow> (nat option \<times> 'd rs) option" where
  "rs_sort inp flags st =
     (case inp of
        None \<Rightarrow> Some (inp, st)
      | Some a \<Rightarrow>
          (case re_next (rs_mem st a) of
             None \<Rightarrow> Some (inp, st)
           | Some _ \<Rightarrow>
               Option.bind (rs_passes [0..<4] (st\<lparr>rs_list := inp\<rparr>)) (\<lambda>st1.
               Option.bind
                 (if flags AND kSigned \<noteq> 0 then rs_unpackSigned st1
                  else if flags AND kFloat \<noteq> 0 then rs_unpackFloat st1
                  else Some st1) (\<lambda>st2.
               map_option (\<lambda>st3. (rs_list st3, st3))
                 (if flags AND kReverse \<noteq> 0 then rs_reverse st2 else Some st2)))))"

section \<open>Proper lists\<close>

text \<open>The list that starts at \<open>p\<close> consists of the addresses \<open>xs\<close> and ends with a null pointer.\<close>

fun rs_chain :: "(nat \<Rightarrow> 'd rs_elem) \<Rightarrow> nat option \<Rightarrow> nat list \<Rightarrow> bool" where
  "rs_chain m p [] = (p = None)"
| "rs_chain m p (x # xs) = (p = Some x \<and> rs_chain m (re_next (m x)) xs)"

lemma rs_chain_None [simp]: "rs_chain m None xs \<longleftrightarrow> xs = []"
  by (cases xs) auto

lemma rs_chain_cong:
  "(\<And>x. x \<in> set xs \<Longrightarrow> re_next (m x) = re_next (m' x)) \<Longrightarrow> rs_chain m p xs = rs_chain m' p xs"
  by (induction xs arbitrary: p) auto

lemma rs_chain_unique: "rs_chain m p xs \<Longrightarrow> rs_chain m p ys \<Longrightarrow> xs = ys"
proof (induction xs arbitrary: p ys)
  case (Cons x xs)
  then show ?case by (cases ys) auto
qed simp

lemma rs_chain_suffix: "rs_chain m p (us @ x # vs) \<Longrightarrow> rs_chain m (Some x) (x # vs)"
  by (induction us arbitrary: p) auto

lemma rs_chain_distinct: "rs_chain m p xs \<Longrightarrow> distinct xs"
proof (induction xs arbitrary: p)
  case (Cons x xs)
  have "x \<notin> set xs"
  proof
    assume "x \<in> set xs"
    then obtain us vs where xs: "xs = us @ x # vs" by (auto simp: in_set_conv_decomp)
    have "rs_chain m (Some x) (x # vs)"
      using Cons.prems unfolding xs by (auto dest: rs_chain_suffix)
    moreover have "rs_chain m (Some x) (x # xs)" using Cons.prems by simp
    ultimately have "x # vs = x # xs" by (rule rs_chain_unique)
    then show False using xs by simp
  qed
  then show ?case using Cons by auto
qed simp

lemma rs_chain_hd: "rs_chain m p xs \<Longrightarrow> p = (if xs = [] then None else Some (hd xs))"
  by (cases xs) auto

lemma rs_chain_append:
  "rs_chain m p xs \<Longrightarrow> rs_chain m q ys \<Longrightarrow> distinct (xs @ ys) \<Longrightarrow> xs \<noteq> [] \<Longrightarrow>
   rs_chain (m(last xs := (m (last xs))\<lparr>re_next := q\<rparr>)) p (xs @ ys)"
proof (induction xs arbitrary: p)
  case (Cons x xs)
  let ?m = "m(last (x # xs) := (m (last (x # xs)))\<lparr>re_next := q\<rparr>)"
  show ?case
  proof (cases "xs = []")
    case True
    have "rs_chain ?m q ys = rs_chain m q ys"
      using Cons.prems(3) True by (intro rs_chain_cong) auto
    then show ?thesis using Cons.prems True by (simp add: fun_upd_def)
  next
    case False
    have "x \<noteq> last xs" using Cons.prems(3) last_in_set [OF False] by auto
    then show ?thesis using Cons False by auto
  qed
qed simp

text \<open>What the sorter never changes: the keys and the data of all elements.\<close>

definition rs_same :: "(nat \<Rightarrow> 'd rs_elem) \<Rightarrow> (nat \<Rightarrow> 'd rs_elem) \<Rightarrow> bool" where
  "rs_same m m' = (\<forall>x. re_key (m' x) = re_key (m x) \<and> re_data (m' x) = re_data (m x))"

lemma rs_same_refl [simp]: "rs_same m m"
  by (simp add: rs_same_def)

lemma rs_same_trans [trans]: "rs_same m m' \<Longrightarrow> rs_same m' m'' \<Longrightarrow> rs_same m m''"
  by (simp add: rs_same_def)

lemma rs_same_link [simp]: "rs_same (rs_mem st) (rs_mem (rs_link p q st))"
  by (simp add: rs_same_def rs_link_def)

lemma rs_link_fields [simp]:
  "rs_list (rs_link p q st) = rs_list st"
  "rs_heads (rs_link p q st) = rs_heads st"
  "rs_tails (rs_link p q st) = rs_tails st"
  by (simp_all add: rs_link_def)

lemma rs_chain_link:
  "p \<notin> set xs \<Longrightarrow> rs_chain (rs_mem (rs_link p q st)) r xs = rs_chain (rs_mem st) r xs"
  by (rule rs_chain_cong) (auto simp: rs_link_def)

section \<open>Buckets\<close>

text \<open>The buckets hold the lists \<open>B k\<close>, which share no element.\<close>

definition rs_buckets :: "'d rs \<Rightarrow> (nat \<Rightarrow> nat list) \<Rightarrow> bool" where
  "rs_buckets st B \<longleftrightarrow>
     (\<forall>k. rs_chain (rs_mem st) (rs_heads st k) (B k) \<and>
          rs_tails st k = (if B k = [] then None else Some (last (B k)))) \<and>
     (\<forall>k l. k \<noteq> l \<longrightarrow> set (B k) \<inter> set (B l) = {})"

definition rs_clean :: "'d rs \<Rightarrow> bool" where
  "rs_clean st \<longleftrightarrow> rs_heads st = (\<lambda>_. None) \<and> rs_tails st = (\<lambda>_. None)"

lemma rs_buckets_empty: "rs_buckets st (\<lambda>_. []) \<longleftrightarrow> rs_clean st"
  by (auto simp: rs_buckets_def rs_clean_def fun_eq_iff)

lemma rs_bucketsD:
  assumes "rs_buckets st B"
  shows "rs_chain (rs_mem st) (rs_heads st k) (B k)"
    and "rs_tails st k = (if B k = [] then None else Some (last (B k)))"
    and "rs_heads st k = (if B k = [] then None else Some (hd (B k)))"
    and "distinct (B k)"
    and "k \<noteq> l \<Longrightarrow> set (B k) \<inter> set (B l) = {}"
  using assms rs_chain_hd [of "rs_mem st" "rs_heads st k" "B k"]
    rs_chain_distinct [of "rs_mem st" "rs_heads st k" "B k"]
  unfolding rs_buckets_def by blast+

lemma rs_put_buckets:
  assumes B: "rs_buckets st B" and a: "\<And>k. a \<notin> set (B k)"
    and d_def: "d = rs_digit i (re_key (rs_mem st a))"
  shows "rs_buckets (rs_put i a st) (B(d := B d @ [a]))"
    and "rs_list (rs_put i a st) = rs_list st"
    and "rs_same (rs_mem st) (rs_mem (rs_put i a st))"
    and "\<And>x. x \<noteq> a \<Longrightarrow> (\<And>k. x \<notin> set (B k)) \<Longrightarrow> rs_mem (rs_put i a st) x = rs_mem st x"
proof -
  let ?st = "rs_put i a st"
  show "rs_list ?st = rs_list st"
    by (simp add: rs_put_def Let_def rs_link_def split: option.split)
  show "rs_same (rs_mem st) (rs_mem ?st)"
    by (simp add: rs_put_def Let_def rs_link_def rs_same_def split: option.split)
  have tl: "rs_tails st d = (if B d = [] then None else Some (last (B d)))"
    by (rule rs_bucketsD(2) [OF B])
  show frame: "rs_mem ?st x = rs_mem st x" if "x \<noteq> a" "\<And>k. x \<notin> set (B k)" for x
    using that(1) tl that(2) [of d] last_in_set [of "B d"]
    by (auto simp: rs_put_def Let_def rs_link_def d_def split: if_splits)
  have next_a: "re_next (rs_mem ?st a) = None"
    by (simp add: rs_put_def Let_def rs_link_def split: option.split)
  have heads: "rs_heads ?st = (rs_heads st)(d := (if B d = [] then Some a else rs_heads st d))"
    using tl by (auto simp: rs_put_def Let_def rs_link_def d_def split: if_splits)
  have tails: "rs_tails ?st = (rs_tails st)(d := Some a)"
    by (simp add: rs_put_def Let_def rs_link_def d_def split: option.split)
  have other: "rs_chain (rs_mem ?st) (rs_heads st k) (B k)" if "k \<noteq> d" for k
  proof -
    have "rs_mem ?st x = rs_mem st x" if x: "x \<in> set (B k)" for x
    proof -
      have "x \<noteq> a" using a x by blast
      moreover have "x \<notin> set (B d)" using x \<open>k \<noteq> d\<close> rs_bucketsD(5) [OF B, of k d] by blast
      ultimately show ?thesis
        using tl last_in_set [of "B d"] by (auto simp: rs_put_def Let_def rs_link_def d_def split: if_splits)
    qed
    then show ?thesis
      using rs_bucketsD(1) [OF B, of k] rs_chain_cong [of "B k" "rs_mem ?st" "rs_mem st"] by simp
  qed
  have own: "rs_chain (rs_mem ?st) (rs_heads ?st d) (B d @ [a])"
  proof (cases "B d = []")
    case True
    then show ?thesis by (simp add: heads next_a)
  next
    case False
    let ?m = "(rs_mem st)(a := (rs_mem st a)\<lparr>re_next := None\<rparr>)"
    have la: "last (B d) \<noteq> a" using a [of d] last_in_set [OF False] by blast
    have mem: "rs_mem ?st = ?m(last (B d) := (?m (last (B d)))\<lparr>re_next := Some a\<rparr>)"
      using False la tl by (auto simp: rs_put_def Let_def rs_link_def d_def fun_eq_iff)
    have "rs_chain ?m (rs_heads st d) (B d) = rs_chain (rs_mem st) (rs_heads st d) (B d)"
      using a [of d] by (intro rs_chain_cong) auto
    then have c1: "rs_chain ?m (rs_heads st d) (B d)" using rs_bucketsD(1) [OF B] by simp
    have "rs_chain (?m(last (B d) := (?m (last (B d)))\<lparr>re_next := Some a\<rparr>)) (rs_heads st d) (B d @ [a])"
      by (rule rs_chain_append [OF c1]) (use a [of d] rs_bucketsD(4) [OF B] False in auto)
    then show ?thesis using False by (simp add: heads mem)
  qed
  show "rs_buckets ?st (B(d := B d @ [a]))"
    unfolding rs_buckets_def
  proof (intro conjI allI impI)
    fix k
    show "rs_chain (rs_mem ?st) (rs_heads ?st k) ((B(d := B d @ [a])) k)"
      using own other [of k] by (cases "k = d") (simp_all add: heads)
    show "rs_tails ?st k = (if (B(d := B d @ [a])) k = [] then None else Some (last ((B(d := B d @ [a])) k)))"
      using rs_bucketsD(2) [OF B, of k] by (simp add: tails)
  next
    fix k l :: nat
    assume "k \<noteq> l"
    then show "set ((B(d := B d @ [a])) k) \<inter> set ((B(d := B d @ [a])) l) = {}"
      using rs_bucketsD(5) [OF B, of k l] a by auto
  qed
qed

lemma rs_buckets_list [simp]: "rs_buckets (st\<lparr>rs_list := p\<rparr>) B = rs_buckets st B"
  by (simp add: rs_buckets_def)

lemma rs_clean_list [simp]: "rs_clean (st\<lparr>rs_list := p\<rparr>) = rs_clean st"
  by (simp add: rs_clean_def)

lemma rs_put_mem_list [simp]: "rs_mem ((rs_put i a st)\<lparr>rs_list := p\<rparr>) = rs_mem (rs_put i a st)"
  by simp

text \<open>What one pass puts into the buckets.\<close>

definition rs_split :: "nat \<Rightarrow> (nat \<Rightarrow> 'd rs_elem) \<Rightarrow> nat list \<Rightarrow> nat \<Rightarrow> nat list" where
  "rs_split i m xs k = filter (\<lambda>x. rs_digit i (re_key (m x)) = k) xs"

lemma rs_split_simps [simp]:
  "rs_split i m [] k = []"
  "rs_split i m (xs @ ys) k = rs_split i m xs k @ rs_split i m ys k"
  by (simp_all add: rs_split_def)

lemma rs_split_same: "rs_same m m' \<Longrightarrow> rs_split i m' xs k = rs_split i m xs k"
  by (simp add: rs_split_def rs_same_def)

lemma rs_scan_runs:
  assumes "rs_chain (rs_mem st) it todo" "rs_list st = Some a" "rs_buckets st B"
    and "\<And>k. set (B k) \<inter> set (a # todo) = {}" "distinct (a # todo)"
  shows "\<exists>st'. rs_scan i it st = Some st' \<and> rs_list st' = Some (last (a # todo)) \<and>
    rs_buckets st' (\<lambda>k. B k @ rs_split i (rs_mem st) (butlast (a # todo)) k) \<and>
    rs_same (rs_mem st) (rs_mem st') \<and>
    (\<forall>x. x \<notin> set (butlast (a # todo)) \<longrightarrow> (\<forall>k. x \<notin> set (B k)) \<longrightarrow> rs_mem st' x = rs_mem st x)"
  using assms
proof (induction todo arbitrary: st it a B)
  case Nil
  then have "it = None" by simp
  then have "rs_scan i it st = Some st" by (subst rs_scan.simps) simp
  then show ?case using Nil by simp
next
  case (Cons b todo)
  let ?d = "rs_digit i (re_key (rs_mem st a))"
  let ?st = "(rs_put i a st)\<lparr>rs_list := Some b\<rparr>"
  let ?B = "B(?d := B ?d @ [a])"
  note put = rs_put_buckets [where i = i and a = a, OF Cons.prems(3) _ refl]
  have a: "\<And>k. a \<notin> set (B k)" using Cons.prems(4) by auto
  have it: "it = Some b" "rs_chain (rs_mem st) (re_next (rs_mem st b)) todo"
    using Cons.prems(1) by simp_all
  have step: "rs_scan i it st = rs_scan i (re_next (rs_mem ?st b)) ?st"
    using it(1) Cons.prems(2) by (subst rs_scan.simps) (simp add: Let_def)
  have mem: "rs_mem ?st x = rs_mem st x" if "x \<in> set (b # todo)" for x
    unfolding rs_put_mem_list
    by (rule put(4) [OF a]) (use Cons.prems(4,5) that in auto)
  have "rs_chain (rs_mem ?st) (re_next (rs_mem ?st b)) todo = rs_chain (rs_mem st) (re_next (rs_mem ?st b)) todo"
    by (rule rs_chain_cong) (use mem in auto)
  then have c: "rs_chain (rs_mem ?st) (re_next (rs_mem ?st b)) todo"
    using it(2) mem [of b] by simp
  have B: "rs_buckets ?st ?B" using put(1) [OF a] by simp
  have disj: "set (?B k) \<inter> set (b # todo) = {}" for k
    using Cons.prems(4) [of k] Cons.prems(5) by auto
  have same: "rs_same (rs_mem st) (rs_mem ?st)" using put(3) [OF a] by simp
  obtain st' where st': "rs_scan i (re_next (rs_mem ?st b)) ?st = Some st'"
      "rs_list st' = Some (last (b # todo))"
      "rs_buckets st' (\<lambda>k. ?B k @ rs_split i (rs_mem ?st) (butlast (b # todo)) k)"
      "rs_same (rs_mem ?st) (rs_mem st')"
      "\<forall>x. x \<notin> set (butlast (b # todo)) \<longrightarrow> (\<forall>k. x \<notin> set (?B k)) \<longrightarrow> rs_mem st' x = rs_mem ?st x"
    using Cons.IH [OF c _ B disj] Cons.prems(5) by auto
  have "(\<lambda>k. ?B k @ rs_split i (rs_mem ?st) (butlast (b # todo)) k) =
      (\<lambda>k. B k @ rs_split i (rs_mem st) (butlast (a # b # todo)) k)"
    unfolding rs_split_same [OF same] by (auto simp: rs_split_def fun_eq_iff)
  moreover have "rs_mem st' x = rs_mem st x"
    if x: "x \<notin> set (butlast (a # b # todo))" "\<forall>k. x \<notin> set (B k)" for x
  proof -
    have "x \<noteq> a" using x(1) by simp
    then have "rs_mem st' x = rs_mem ?st x" using st'(5) x by simp
    also have "\<dots> = rs_mem st x"
      unfolding rs_put_mem_list by (rule put(4) [OF a \<open>x \<noteq> a\<close>]) (use x(2) in simp)
    finally show ?thesis .
  qed
  ultimately show ?case
    using st' step rs_same_trans [OF same st'(4)] by simp
qed

text \<open>Chaining the buckets \<open>ks\<close> behind a list collected so far.\<close>

lemma rs_buckets_clear:
  assumes B: "rs_buckets st B"
  shows "rs_buckets (st\<lparr>rs_tails := (rs_tails st)(k := None), rs_heads := (rs_heads st)(k := None)\<rparr>) (B(k := []))"
  (is "rs_buckets ?st ?B")
  unfolding rs_buckets_def
proof (intro conjI allI impI)
  fix l l' :: nat
  show "rs_chain (rs_mem ?st) (rs_heads ?st l) (?B l)"
    using rs_bucketsD(1) [OF B, of l] by (cases "l = k") simp_all
  show "rs_tails ?st l = (if ?B l = [] then None else Some (last (?B l)))"
    using rs_bucketsD(2) [OF B, of l] by (cases "l = k") simp_all
  show "set (?B l) \<inter> set (?B l') = {}" if "l \<noteq> l'"
    using rs_bucketsD(5) [OF B that] by simp
qed

lemma rs_gather1_runs:
  assumes acc: "rs_chain (rs_mem st) head acc" "acc \<noteq> [] \<Longrightarrow> tail = Some (last acc)"
    and B: "rs_buckets st B" and disj: "\<And>l. set (B l) \<inter> set acc = {}"
  shows "\<exists>head' tail' st'. rs_gather1 k (head, tail, st) = Some (head', tail', st') \<and>
    rs_chain (rs_mem st') head' (acc @ B k) \<and>
    (acc @ B k \<noteq> [] \<longrightarrow> tail' = Some (last (acc @ B k))) \<and> rs_buckets st' (B(k := [])) \<and>
    rs_same (rs_mem st) (rs_mem st') \<and> rs_list st' = rs_list st \<and>
    (\<forall>x. x \<notin> set acc \<longrightarrow> rs_mem st' x = rs_mem st x)"
proof (cases "B k = []")
  case True
  then have "rs_heads st k = None" "rs_tails st k = None"
    using rs_bucketsD(2,3) [OF B, of k] by simp_all
  then have "rs_gather1 k (head, tail, st) = Some (head, tail,
      st\<lparr>rs_tails := (rs_tails st)(k := None), rs_heads := (rs_heads st)(k := None)\<rparr>)"
    by (simp add: rs_gather1_def)
  moreover have "B(k := []) = B" using True by auto
  moreover have "rs_tails st = (rs_tails st)(k := None)" "rs_heads st = (rs_heads st)(k := None)"
    using \<open>rs_heads st k = None\<close> \<open>rs_tails st k = None\<close> by auto
  then have "rs_buckets (st\<lparr>rs_tails := (rs_tails st)(k := None), rs_heads := (rs_heads st)(k := None)\<rparr>) B"
    using B by simp
  ultimately show ?thesis using acc True by simp
next
  case False
  let ?clear = "\<lambda>s. s\<lparr>rs_tails := (rs_tails s)(k := None), rs_heads := (rs_heads s)(k := None)\<rparr>"
  have h: "rs_heads st k = Some (hd (B k))" and t: "rs_tails st k = Some (last (B k))"
    using rs_bucketsD(2,3) [OF B, of k] False by simp_all
  show ?thesis
  proof (cases "acc = []")
    case True
    then have "head = None" using acc(1) by simp
    then have "rs_gather1 k (head, tail, st) = Some (rs_heads st k, rs_tails st k, ?clear st)"
      by (simp add: rs_gather1_def h)
    moreover have "rs_buckets (?clear st) (B(k := []))"
      by (rule rs_buckets_clear [OF B])
    ultimately show ?thesis
      using True False t rs_bucketsD(1) [OF B, of k] by simp
  next
    case acc_ne: False
    let ?st = "rs_link (last acc) (rs_heads st k) st"
    obtain h0 where head: "head = Some h0" using rs_chain_hd [OF acc(1)] acc_ne by auto
    have g: "rs_gather1 k (head, tail, st) = Some (head, rs_tails st k, ?clear ?st)"
      using acc(2) [OF acc_ne] by (simp add: rs_gather1_def h head)
    have mem: "rs_mem ?st x = rs_mem st x" if "x \<notin> set acc" for x
      using that last_in_set [OF acc_ne] by (auto simp: rs_link_def)
    have "rs_chain (rs_mem ?st) head (acc @ B k)"
      unfolding rs_link_def
      using rs_chain_append [OF acc(1) rs_bucketsD(1) [OF B, of k] _ acc_ne]
        rs_chain_distinct [OF acc(1)] rs_bucketsD(4) [OF B, of k] disj [of k] by auto
    moreover have "rs_buckets (?clear ?st) (B(k := []))"
    proof (rule rs_buckets_clear)
      have "rs_chain (rs_mem ?st) (rs_heads st l) (B l)" for l
      proof -
        have "last acc \<notin> set (B l)" using disj [of l] last_in_set [OF acc_ne] by blast
        then show ?thesis using rs_bucketsD(1) [OF B, of l] by (simp add: rs_chain_link)
      qed
      then show "rs_buckets ?st B"
        using B by (simp add: rs_buckets_def)
    qed
    ultimately show ?thesis using g False t mem by simp
  qed
qed

lemma rs_gather_runs:
  assumes "rs_chain (rs_mem st) head acc" "acc \<noteq> [] \<Longrightarrow> tail = Some (last acc)"
    and "rs_buckets st B" "\<And>l. set (B l) \<inter> set acc = {}" "distinct ks"
  shows "\<exists>head' tail' st'. rs_gather ks (head, tail, st) = Some (head', tail', st') \<and>
    rs_chain (rs_mem st') head' (acc @ concat (map B ks)) \<and>
    rs_buckets st' (\<lambda>k. if k \<in> set ks then [] else B k) \<and>
    rs_same (rs_mem st) (rs_mem st') \<and> rs_list st' = rs_list st \<and>
    (\<forall>x. x \<notin> set acc \<longrightarrow> x \<notin> set (concat (map B ks)) \<longrightarrow> rs_mem st' x = rs_mem st x)"
  using assms
proof (induction ks arbitrary: head tail st acc B)
  case Nil
  then show ?case by auto
next
  case (Cons k ks)
  obtain h1 t1 st1 where g1: "rs_gather1 k (head, tail, st) = Some (h1, t1, st1)"
      "rs_chain (rs_mem st1) h1 (acc @ B k)"
      "acc @ B k \<noteq> [] \<longrightarrow> t1 = Some (last (acc @ B k))" "rs_buckets st1 (B(k := []))"
      "rs_same (rs_mem st) (rs_mem st1)" "rs_list st1 = rs_list st"
      "\<forall>x. x \<notin> set acc \<longrightarrow> rs_mem st1 x = rs_mem st x"
    using rs_gather1_runs [OF Cons.prems(1-4), of k] by blast
  have disj: "set ((B(k := [])) l) \<inter> set (acc @ B k) = {}" for l
    using Cons.prems(4) [of l] rs_bucketsD(5) [OF Cons.prems(3), of l k] by auto
  have mp: "map (B(k := [])) ks = map B ks" using Cons.prems(5) by auto
  have ne: "acc @ B k \<noteq> [] \<Longrightarrow> t1 = Some (last (acc @ B k))" using g1(3) by blast
  have dks: "distinct ks" using Cons.prems(5) by simp
  obtain h2 t2 st2 where g2: "rs_gather ks (h1, t1, st1) = Some (h2, t2, st2)"
      "rs_chain (rs_mem st2) h2 ((acc @ B k) @ concat (map B ks))"
      "rs_buckets st2 (\<lambda>l. if l \<in> set ks then [] else (B(k := [])) l)"
      "rs_same (rs_mem st1) (rs_mem st2)" "rs_list st2 = rs_list st1"
      "\<forall>x. x \<notin> set (acc @ B k) \<longrightarrow> x \<notin> set (concat (map B ks)) \<longrightarrow> rs_mem st2 x = rs_mem st1 x"
    using Cons.IH [OF g1(2) ne g1(4) disj dks] unfolding mp by blast
  have "(\<lambda>l. if l \<in> set ks then [] else (B(k := [])) l) = (\<lambda>l. if l \<in> set (k # ks) then [] else B l)"
    by auto
  then show ?case
    using g1 g2 rs_same_trans [OF g1(5) g2(4)] by auto
qed

section \<open>Sorting by digits\<close>

lemma unat_and_FF: "unat ((w :: 'a::len word) AND 0xFF) = unat w mod 256"
proof -
  have "w AND 0xFF = take_bit 8 w" by (simp add: take_bit_eq_mask mask_eq_exp_minus_1)
  then show ?thesis by (simp add: unsigned_take_bit_eq take_bit_nat_def)
qed

lemma unat_u32_less: "unat (k :: u32) < 2 ^ 32"
  by (rule order_less_le_trans [OF unsigned_less]) simp

lemma rs_digit_eq: "rs_digit i k = unat k div 256 ^ i mod 256"
proof -
  have "(2::nat) ^ (8 * i) = 256 ^ i" by (simp add: power_mult)
  moreover have "take_bit 32 (unat k) = unat k"
    using unat_u32_less [of k] by (intro take_bit_nat_eq_self) simp
  ultimately show ?thesis by (simp add: rs_digit_def unat_and_FF unsigned_drop_bit_eq drop_bit_nat_def)
qed

lemma rs_digit_less: "rs_digit i k < 256"
  by (simp add: rs_digit_eq)

lemma sorted_map_lex:
  fixes f g h :: "'a \<Rightarrow> nat"
  assumes "\<And>x y. h x \<le> h y \<longleftrightarrow> f x < f y \<or> f x = f y \<and> g x \<le> g y"
    and "sorted (map f ys)" "\<And>c. sorted (map g (filter (\<lambda>x. f x = c) ys))"
  shows "sorted (map h ys)"
  using assms(2,3)
proof (induction ys)
  case (Cons y ys)
  have "sorted (map g (filter (\<lambda>x. f x = c) ys))" for c
    using Cons.prems(2) [of c] by (simp split: if_splits)
  then have "sorted (map h ys)" using Cons by simp
  moreover have "h y \<le> h z" if "z \<in> set ys" for z
    using Cons.prems(1) Cons.prems(2) [of "f y"] that assms(1) [of y z] by (cases "f y = f z") auto
  ultimately show ?case by simp
qed simp

lemma sort_key_lex:
  fixes f g h :: "'a \<Rightarrow> nat"
  assumes lex: "\<And>x y. h x \<le> h y \<longleftrightarrow> f x < f y \<or> f x = f y \<and> g x \<le> g y"
  shows "sort_key f (sort_key g xs) = sort_key h xs"
proof (rule sym, rule properties_for_sort_key)
  let ?ys = "sort_key f (sort_key g xs)"
  show "mset ?ys = mset xs" by simp
  have "h x = h y \<longleftrightarrow> f x = f y \<and> g x = g y" for x y
    using lex [of x y] lex [of y x] by linarith
  then have eq: "filter (\<lambda>x. h k = h x) zs = filter (\<lambda>x. g x = g k) (filter (\<lambda>x. f x = f k) zs)"
    and eq': "filter (\<lambda>x. h k = h x) zs = filter (\<lambda>x. f x = f k) (filter (\<lambda>x. g x = g k) zs)" for k zs
    by (auto intro!: filter_cong)
  show "filter (\<lambda>x. h k = h x) ?ys = filter (\<lambda>x. h k = h x) xs" if "k \<in> set ?ys" for k
  proof -
    have "filter (\<lambda>x. h k = h x) ?ys = filter (\<lambda>x. h k = h x) (sort_key g xs)"
      unfolding eq sort_key_stable ..
    also have "\<dots> = filter (\<lambda>x. h k = h x) xs"
      unfolding eq' sort_key_stable ..
    finally show ?thesis .
  qed
  show "sorted (map h ?ys)"
    by (rule sorted_map_lex [OF lex sorted_sort_key]) (simp add: sort_key_stable sorted_filter)
qed

text \<open>The lowest \<open>j\<close> bytes of a key.\<close>

definition rs_low :: "nat \<Rightarrow> (nat \<Rightarrow> 'd rs_elem) \<Rightarrow> nat \<Rightarrow> nat" where
  "rs_low j m a = unat (re_key (m a)) mod 256 ^ j"

lemma rs_low_0: "sort_key (rs_low 0 m) xs = xs"
proof -
  have "sorted (map (rs_low 0 m) xs)" by (induction xs) (auto simp: rs_low_def)
  then show ?thesis by (intro properties_for_sort_key) simp_all
qed

lemma rs_low_4: "rs_low 4 m a = unat (re_key (m a))"
  using unat_u32_less [of "re_key (m a)"] by (simp add: rs_low_def)

lemma rs_low_step:
  "sort_key (\<lambda>a. rs_digit j (re_key (m a))) (sort_key (rs_low j m) xs) = sort_key (rs_low (Suc j) m) xs"
proof (rule sort_key_lex)
  fix a b
  let ?p = "(256::nat) ^ j"
  define q where "q x = unat (re_key (m x)) div ?p mod 256" for x
  define r where "r x = unat (re_key (m x)) mod ?p" for x
  have split: "rs_low (Suc j) m x = ?p * q x + r x" for x
    unfolding rs_low_def q_def r_def using mod_mult2_eq [of "unat (re_key (m x))" ?p 256]
    by (simp add: mult.commute)
  have r: "r x < ?p" for x by (simp add: r_def)
  have lt: "?p * q x + r x < ?p * q y + r y" if "q x < q y" for x y
  proof -
    have "?p * Suc (q x) \<le> ?p * q y" using that by (intro mult_le_mono2) simp
    then show ?thesis using r [of x] by simp
  qed
  show "rs_low (Suc j) m a \<le> rs_low (Suc j) m b \<longleftrightarrow>
      rs_digit j (re_key (m a)) < rs_digit j (re_key (m b)) \<or>
      rs_digit j (re_key (m a)) = rs_digit j (re_key (m b)) \<and> rs_low j m a \<le> rs_low j m b"
    unfolding split unfolding rs_digit_eq q_def [symmetric] rs_low_def r_def [symmetric]
    using lt [of a b] lt [of b a] by (cases "q a" "q b" rule: linorder_cases) auto
qed


text \<open>Concatenating the buckets of a digit is a stable sort by that digit.\<close>

lemma sort_key_upto:
  fixes f :: "'a \<Rightarrow> nat"
  shows "sort_key f (filter (\<lambda>x. f x < Suc n) xs) =
    sort_key f (filter (\<lambda>x. f x < n) xs) @ filter (\<lambda>x. f x = n) xs"
proof (rule properties_for_sort_key)
  let ?ys = "sort_key f (filter (\<lambda>x. f x < n) xs) @ filter (\<lambda>x. f x = n) xs"
  show "mset ?ys = mset (filter (\<lambda>x. f x < Suc n) xs)"
    by (induction xs) auto
  show "filter (\<lambda>x. f k = f x) ?ys = filter (\<lambda>x. f k = f x) (filter (\<lambda>x. f x < Suc n) xs)"
    if "k \<in> set ?ys" for k
  proof -
    have sw: "(\<lambda>x. f k = f x) = (\<lambda>x. f x = f k)" by auto
    have all: "filter (\<lambda>x. f x = f k) (filter P xs) = filter (\<lambda>x. f x = f k) xs"
      if "\<And>x. f x = f k \<Longrightarrow> P x" for P
      unfolding filter_filter by (rule filter_cong) (use that in auto)
    have none: "filter (\<lambda>x. f x = f k) (filter P xs) = []" if "\<And>x. f x = f k \<Longrightarrow> \<not> P x" for P
      using that by (auto simp: filter_empty_conv)
    have "f k \<le> n" using that by auto
    then consider "n = f k" | "f k < n" by linarith
    then show ?thesis
      unfolding sw filter_append sort_key_stable
      by cases (simp_all only: all none less_Suc_eq append_Nil append_Nil2 simp_thms less_irrefl nat_neq_iff)
  qed
  show "sorted (map f ?ys)"
  proof -
    have "sorted (map f (filter (\<lambda>x. f x = n) xs))" by (induction xs) auto
    then show ?thesis by (auto simp: sorted_append)
  qed
qed

lemma sort_key_buckets:
  fixes f :: "'a \<Rightarrow> nat"
  shows "concat (map (\<lambda>k. filter (\<lambda>x. f x = k) xs) [0..<n]) = sort_key f (filter (\<lambda>x. f x < n) xs)"
  by (induction n) (simp_all add: sort_key_upto)

section \<open>What sort returns\<close>

lemma rs_collapse_runs:
  assumes B: "rs_buckets st B" and out: "\<And>k. 256 \<le> k \<Longrightarrow> B k = []"
  shows "\<exists>st'. rs_collapse st = Some st' \<and>
    rs_chain (rs_mem st') (rs_list st') (concat (map B [0..<256])) \<and> rs_clean st' \<and>
    rs_same (rs_mem st) (rs_mem st') \<and>
    (\<forall>x. x \<notin> set (concat (map B [0..<256])) \<longrightarrow> rs_mem st' x = rs_mem st x)"
proof -
  obtain head tail st' where g: "rs_gather [0..<256] (None, None, st) = Some (head, tail, st')"
      "rs_chain (rs_mem st') head ([] @ concat (map B [0..<256]))"
      "rs_buckets st' (\<lambda>k. if k \<in> set [0..<256] then [] else B k)"
      "rs_same (rs_mem st) (rs_mem st')"
      "\<forall>x. x \<notin> set [] \<longrightarrow> x \<notin> set (concat (map B [0..<256])) \<longrightarrow> rs_mem st' x = rs_mem st x"
    using rs_gather_runs [of st None "[]" None B "[0..<256]"] B by fastforce
  have "(\<lambda>k. if k \<in> set [0..<256] then [] else B k) = (\<lambda>_. [])" using out by auto
  then have "rs_clean st'" using g(3) by (simp only: rs_buckets_empty)
  then show ?thesis
    using g by (intro exI [of _ "st'\<lparr>rs_list := head\<rparr>"]) (simp add: rs_collapse_def)
qed

text \<open>One pass sorts the list stably by one byte of the keys.\<close>

lemma rs_pass_runs:
  assumes c: "rs_chain (rs_mem st) (rs_list st) xs" and ne: "xs \<noteq> []" and cl: "rs_clean st"
  shows "\<exists>st'. rs_pass i st = Some st' \<and>
    rs_chain (rs_mem st') (rs_list st') (sort_key (\<lambda>a. rs_digit i (re_key (rs_mem st a))) xs) \<and>
    rs_clean st' \<and> rs_same (rs_mem st) (rs_mem st') \<and>
    (\<forall>x. x \<notin> set xs \<longrightarrow> rs_mem st' x = rs_mem st x)"
proof -
  let ?S = "rs_split i (rs_mem st)"
  obtain a todo where xs: "xs = a # todo" using ne by (cases xs) auto
  have d: "distinct (a # todo)" using rs_chain_distinct [OF c] xs by simp
  have a: "rs_list st = Some a" "rs_chain (rs_mem st) (re_next (rs_mem st a)) todo"
    using c xs by simp_all
  have e: "rs_buckets st (\<lambda>_. [])" using cl by (simp add: rs_buckets_empty)
  obtain st1 where s1: "rs_scan i (re_next (rs_mem st a)) st = Some st1"
      "rs_list st1 = Some (last xs)" "rs_buckets st1 (?S (butlast xs))"
      "rs_same (rs_mem st) (rs_mem st1)"
      "\<forall>x. x \<notin> set (butlast xs) \<longrightarrow> rs_mem st1 x = rs_mem st x"
    using rs_scan_runs [OF a(2,1) e _ d, of i] unfolding xs by (auto simp del: butlast.simps last.simps)
  let ?z = "last xs" and ?B = "?S (butlast xs)"
  have "distinct (butlast xs @ [?z])"
    unfolding append_butlast_last_id [OF ne] by (rule rs_chain_distinct [OF c])
  then have z: "?z \<notin> set (?B k)" for k by (auto simp: rs_split_def)
  let ?d = "rs_digit i (re_key (rs_mem st1 ?z))"
  note put = rs_put_buckets [where i = i and a = ?z, OF s1(3) _ refl, OF z]
  have "?d = rs_digit i (re_key (rs_mem st ?z))" using s1(4) by (simp add: rs_same_def)
  then have "?B(?d := ?B ?d @ [?z]) = ?S (butlast xs @ [?z])"
    by (auto simp: rs_split_def fun_eq_iff)
  then have B: "rs_buckets (rs_put i ?z st1) (?S xs)" using put(1) ne by simp
  have out: "?S xs k = []" if "256 \<le> k" for k
    using that rs_digit_less [of i] by (auto simp: rs_split_def filter_empty_conv not_less dest: leD)
  have srt: "concat (map (?S xs) [0..<256]) = sort_key (\<lambda>a. rs_digit i (re_key (rs_mem st a))) xs"
    unfolding rs_split_def sort_key_buckets by (simp add: rs_digit_less)
  obtain st2 where s2: "rs_collapse (rs_put i ?z st1) = Some st2"
      "rs_chain (rs_mem st2) (rs_list st2) (sort_key (\<lambda>a. rs_digit i (re_key (rs_mem st a))) xs)"
      "rs_clean st2" "rs_same (rs_mem (rs_put i ?z st1)) (rs_mem st2)"
      "\<forall>x. x \<notin> set xs \<longrightarrow> rs_mem st2 x = rs_mem (rs_put i ?z st1) x"
    using rs_collapse_runs [OF B out] unfolding srt by auto
  have "rs_mem st2 x = rs_mem st x" if x: "x \<notin> set xs" for x
  proof -
    have bl: "x \<notin> set (butlast xs)" using x in_set_butlastD by fast
    have "x \<noteq> ?z" using x ne by auto
    moreover have "x \<notin> set (?B k)" for k using bl by (simp add: rs_split_def)
    ultimately have "rs_mem (rs_put i ?z st1) x = rs_mem st1 x" by (rule put(4))
    then show ?thesis using s2(5) s1(5) x bl by simp
  qed
  moreover have "rs_same (rs_mem st) (rs_mem st2)"
    using rs_same_trans [OF rs_same_trans [OF s1(4) put(3)] s2(4)] .
  ultimately show ?thesis
    using s1 s2 a(1) by (simp add: rs_pass_def)
qed

lemma rs_passes_run:
  assumes "rs_chain (rs_mem st) (rs_list st) (sort_key (rs_low i (rs_mem st)) xs)"
    and "xs \<noteq> []" "rs_clean st" "i \<le> j"
  shows "\<exists>st'. rs_passes [i..<j] st = Some st' \<and>
    rs_chain (rs_mem st') (rs_list st') (sort_key (rs_low j (rs_mem st)) xs) \<and>
    rs_clean st' \<and> rs_same (rs_mem st) (rs_mem st') \<and>
    (\<forall>x. x \<notin> set xs \<longrightarrow> rs_mem st' x = rs_mem st x)"
  using assms
proof (induction "j - i" arbitrary: i st)
  case 0
  then show ?case by simp
next
  case (Suc n)
  then have ij: "[i..<j] = i # [Suc i..<j]" by (simp add: upt_conv_Cons)
  let ?ys = "sort_key (rs_low i (rs_mem st)) xs"
  have ne: "?ys \<noteq> []" using Suc.prems(2) by (metis length_sort length_0_conv)
  obtain st1 where s1: "rs_pass i st = Some st1"
      "rs_chain (rs_mem st1) (rs_list st1) (sort_key (rs_low (Suc i) (rs_mem st)) xs)"
      "rs_clean st1" "rs_same (rs_mem st) (rs_mem st1)"
      "\<forall>x. x \<notin> set xs \<longrightarrow> rs_mem st1 x = rs_mem st x"
    using rs_pass_runs [OF Suc.prems(1) ne Suc.prems(3), of i] unfolding rs_low_step by auto
  have low: "rs_low k (rs_mem st1) = rs_low k (rs_mem st)" for k
    using s1(4) by (auto simp: rs_low_def rs_same_def)
  have "\<exists>st'. rs_passes [Suc i..<j] st1 = Some st' \<and>
    rs_chain (rs_mem st') (rs_list st') (sort_key (rs_low j (rs_mem st1)) xs) \<and>
    rs_clean st' \<and> rs_same (rs_mem st1) (rs_mem st') \<and>
    (\<forall>x. x \<notin> set xs \<longrightarrow> rs_mem st' x = rs_mem st1 x)"
    by (rule Suc.hyps(1)) (use Suc s1(2,3) low in auto)
  then show ?case
    using s1 ij rs_same_trans [OF s1(4)] low by auto
qed

text \<open>Reversing loses the last element of the list: it is never linked in.\<close>

lemma rs_reverse_loop_runs:
  assumes "rs_chain (rs_mem st) (Some nxt) (nxt # rest)" "rs_chain (rs_mem st) (rs_list st) acc"
    and "set acc \<inter> set (nxt # rest) = {}"
  shows "\<exists>st'. rs_reverse_loop nxt st = Some st' \<and>
    rs_chain (rs_mem st') (rs_list st') (rev (butlast (nxt # rest)) @ acc) \<and>
    (rs_clean st \<longrightarrow> rs_clean st') \<and> rs_same (rs_mem st) (rs_mem st') \<and>
    (\<forall>x. x \<notin> set (nxt # rest) \<longrightarrow> rs_mem st' x = rs_mem st x)"
  using assms
proof (induction rest arbitrary: nxt st acc)
  case Nil
  then have "rs_reverse_loop nxt st = Some st"
    by (subst rs_reverse_loop.simps) simp
  then show ?case using Nil by simp
next
  case (Cons b rest)
  let ?st = "(rs_link nxt (rs_list st) st)\<lparr>rs_list := Some nxt\<rparr>"
  have d: "distinct (nxt # b # rest)" by (rule rs_chain_distinct [OF Cons.prems(1)])
  have nb: "re_next (rs_mem st nxt) = Some b" "rs_chain (rs_mem st) (Some b) (b # rest)"
    using Cons.prems(1) by simp_all
  have step: "rs_reverse_loop nxt st = rs_reverse_loop b ?st"
    using nb(1) by (subst rs_reverse_loop.simps) simp
  have mem: "rs_mem ?st x = rs_mem st x" if "x \<noteq> nxt" for x
    using that by (simp add: rs_link_def)
  have mem_nxt: "re_next (rs_mem ?st nxt) = rs_list st"
    by (simp add: rs_link_def)
  have c1: "rs_chain (rs_mem ?st) (Some b) (b # rest)"
    using nb(2) rs_chain_link [of nxt "b # rest" "rs_list st" st "Some b"] d by simp
  have "rs_chain (rs_mem ?st) (rs_list st) acc = rs_chain (rs_mem st) (rs_list st) acc"
    using rs_chain_link [of nxt acc "rs_list st" st] Cons.prems(3) by simp
  then have c2: "rs_chain (rs_mem ?st) (rs_list ?st) (nxt # acc)"
    using Cons.prems(2) mem_nxt by simp
  have disj: "set (nxt # acc) \<inter> set (b # rest) = {}" using Cons.prems(3) d by auto
  have cl: "rs_clean ?st = rs_clean st" by (simp add: rs_clean_def)
  obtain st' where st': "rs_reverse_loop b ?st = Some st'"
      "rs_chain (rs_mem st') (rs_list st') (rev (butlast (b # rest)) @ nxt # acc)"
      "rs_clean ?st \<longrightarrow> rs_clean st'" "rs_same (rs_mem ?st) (rs_mem st')"
      "\<forall>x. x \<notin> set (b # rest) \<longrightarrow> rs_mem st' x = rs_mem ?st x"
    using Cons.IH [OF c1 c2 disj] by blast
  have "rs_same (rs_mem st) (rs_mem ?st)" by simp
  then have "rs_same (rs_mem st) (rs_mem st')" using st'(4) by (rule rs_same_trans)
  then show ?case using st' step mem cl by auto
qed

lemma rs_reverse_runs:
  assumes c: "rs_chain (rs_mem st) (rs_list st) xs" and cl: "rs_clean st"
  shows "\<exists>st'. rs_reverse st = Some st' \<and>
    rs_chain (rs_mem st') (rs_list st') (if length xs \<le> 1 then xs else rev (butlast xs)) \<and>
    rs_clean st' \<and> rs_same (rs_mem st) (rs_mem st') \<and>
    (\<forall>x. x \<notin> set xs \<longrightarrow> rs_mem st' x = rs_mem st x)"
proof (cases "length xs \<le> 1")
  case True
  then have "rs_reverse st = Some st"
    using c by (cases xs) (auto simp: rs_reverse_def)
  then show ?thesis using True c cl by simp
next
  case False
  then obtain a b rest where xs: "xs = a # b # rest"
    by (cases xs; cases "tl xs") auto
  let ?st = "rs_link a None st"
  have d: "distinct (a # b # rest)" using rs_chain_distinct [OF c] xs by simp
  have ab: "rs_list st = Some a" "re_next (rs_mem st a) = Some b"
      "rs_chain (rs_mem st) (Some b) (b # rest)"
    using c xs by simp_all
  have mem: "rs_mem ?st x = rs_mem st x" if "x \<noteq> a" for x
    using that by (simp add: rs_link_def)
  have c1: "rs_chain (rs_mem ?st) (Some b) (b # rest)"
    using ab(3) rs_chain_link [of a "b # rest" None st "Some b"] d by simp
  have c2: "rs_chain (rs_mem ?st) (rs_list ?st) [a]" using ab(1) by (simp add: rs_link_def)
  have disj: "set [a] \<inter> set (b # rest) = {}" using d by simp
  obtain st' where st': "rs_reverse_loop b ?st = Some st'"
      "rs_chain (rs_mem st') (rs_list st') (rev (butlast (b # rest)) @ [a])"
      "rs_clean ?st \<longrightarrow> rs_clean st'" "rs_same (rs_mem ?st) (rs_mem st')"
      "\<forall>x. x \<notin> set (b # rest) \<longrightarrow> rs_mem st' x = rs_mem ?st x"
    using rs_reverse_loop_runs [OF c1 c2 disj] by blast
  have "rs_same (rs_mem st) (rs_mem ?st)" by simp
  then have "rs_same (rs_mem st) (rs_mem st')" using st'(4) by (rule rs_same_trans)
  moreover have "rs_clean ?st" using cl by (simp add: rs_clean_def)
  moreover have "rs_reverse st = rs_reverse_loop b ?st" by (simp add: rs_reverse_def ab)
  ultimately show ?thesis using st' mem xs by auto
qed

text \<open>\<open>unpackSigned\<close> runs after \<open>collapse\<close> has emptied the buckets, so it collects nothing.\<close>

lemma rs_gather_clean:
  "rs_clean st \<Longrightarrow> rs_gather ks (None, None, st) = Some (None, None, st)"
proof (induction ks)
  case (Cons k ks)
  have "rs_tails st = (rs_tails st)(k := None)" "rs_heads st = (rs_heads st)(k := None)"
    using Cons.prems by (auto simp: rs_clean_def)
  then have "rs_gather1 k (None, None, st) = Some (None, None, st)"
    using Cons.prems by (simp add: rs_gather1_def rs_clean_def)
  then show ?case using Cons by simp
qed simp

lemma rs_unpackSigned_empty:
  "rs_clean st \<Longrightarrow> rs_unpackSigned st = Some (st\<lparr>rs_list := None\<rparr>)"
  by (simp add: rs_unpackSigned_def rs_gather_clean)

definition rs_order :: "u32 \<Rightarrow> (nat \<Rightarrow> 'd rs_elem) \<Rightarrow> nat list \<Rightarrow> nat list" where
  "rs_order flags m xs =
     (let ys = sort_key (\<lambda>a. unat (re_key (m a))) xs
      in if length xs \<le> 1 then xs
         else if flags AND kSigned \<noteq> 0 then []
         else if flags AND kReverse \<noteq> 0 then rev (butlast ys)
         else ys)"

text \<open>C16: On any proper list, and for every combination of flags, \<open>sort\<close> returns, touches no element
  outside the list and no key or data, leaves the sorter ready for the next call, and the list it
  returns is the stable sort of its input by the keys read as unsigned numbers; with \<open>kReverse\<close>
  that list reversed less the element with the greatest key, and with \<open>kSigned\<close> the empty list.
\<close>

theorem radix_sort_result:
  assumes c: "rs_chain (rs_mem st) inp xs" and cl: "rs_clean st"
  shows "\<exists>out st'. rs_sort inp flags st = Some (out, st') \<and>
    rs_chain (rs_mem st') out (rs_order flags (rs_mem st) xs) \<and> rs_clean st' \<and>
    rs_same (rs_mem st) (rs_mem st') \<and> (\<forall>x. x \<notin> set xs \<longrightarrow> rs_mem st' x = rs_mem st x)"
proof (cases "length xs \<le> 1")
  case True
  then have "rs_sort inp flags st = Some (inp, st)"
    using c by (cases xs) (auto simp: rs_sort_def)
  then show ?thesis using True c cl by (simp add: rs_order_def)
next
  case False
  let ?ys = "sort_key (\<lambda>a. unat (re_key (rs_mem st a))) xs"
  have ne: "xs \<noteq> []" and len: "\<not> length ?ys \<le> 1" using False by auto
  obtain a b where ab: "inp = Some a" "re_next (rs_mem st a) = Some b"
    using c False by (cases xs; cases "tl xs") auto
  obtain st1 where s1: "rs_passes [0..<4] (st\<lparr>rs_list := inp\<rparr>) = Some st1"
      "rs_chain (rs_mem st1) (rs_list st1) ?ys" "rs_clean st1" "rs_same (rs_mem st) (rs_mem st1)"
      "\<forall>x. x \<notin> set xs \<longrightarrow> rs_mem st1 x = rs_mem st x"
    using rs_passes_run [of "st\<lparr>rs_list := inp\<rparr>" 0 xs 4] c ne cl
    by (auto simp: rs_low_0 rs_low_4 [abs_def])
  have sort: "rs_sort inp flags st =
      Option.bind (if flags AND kSigned \<noteq> 0 then rs_unpackSigned st1 else Some st1) (\<lambda>st2.
        map_option (\<lambda>st3. (rs_list st3, st3))
          (if flags AND kReverse \<noteq> 0 then rs_reverse st2 else Some st2))"
    by (simp add: rs_sort_def ab s1(1) [unfolded ab] kFloat_def)
  define st2 zs where "st2 = (if flags AND kSigned \<noteq> 0 then st1\<lparr>rs_list := None\<rparr> else st1)"
    and "zs = (if flags AND kSigned \<noteq> 0 then [] else ?ys)"
  have s2: "rs_chain (rs_mem st2) (rs_list st2) zs" "rs_clean st2" "rs_mem st2 = rs_mem st1"
    using s1 by (simp_all add: st2_def zs_def)
  have "rs_sort inp flags st = map_option (\<lambda>st3. (rs_list st3, st3))
          (if flags AND kReverse \<noteq> 0 then rs_reverse st2 else Some st2)"
    using s1(3) by (simp add: sort st2_def rs_unpackSigned_empty)
  moreover obtain st3 where "rs_reverse st2 = Some st3"
      "rs_chain (rs_mem st3) (rs_list st3) (if length zs \<le> 1 then zs else rev (butlast zs))"
      "rs_clean st3" "rs_same (rs_mem st2) (rs_mem st3)"
      "\<forall>x. x \<notin> set zs \<longrightarrow> rs_mem st3 x = rs_mem st2 x"
    using rs_reverse_runs [OF s2(1,2)] by blast
  moreover have "rs_same (rs_mem st) (rs_mem st3)"
    using s1(4) \<open>rs_same (rs_mem st2) (rs_mem st3)\<close> unfolding s2(3) by (rule rs_same_trans)
  moreover have "rs_order flags (rs_mem st) xs = (if flags AND kReverse \<noteq> 0
      then (if length zs \<le> 1 then zs else rev (butlast zs)) else zs)"
    using False len by (simp add: rs_order_def zs_def Let_def)
  moreover have "set zs \<subseteq> set xs" by (simp add: zs_def)
  ultimately show ?thesis
    using s1(4,5) s2 by (cases "flags AND kReverse = 0") auto
qed

definition rs_example :: "nat \<Rightarrow> char rs_elem" where
  "rs_example = (\<lambda>_. \<lparr>re_key = 0, re_data = CHR ''z'', re_next = None\<rparr>)
     (10 := \<lparr>re_key = 300, re_data = CHR ''a'', re_next = Some 20\<rparr>,
      20 := \<lparr>re_key = 5, re_data = CHR ''b'', re_next = Some 30\<rparr>,
      30 := \<lparr>re_key = 300, re_data = CHR ''c'', re_next = None\<rparr>)"

theorem radix_sort_result_witness:
  "\<exists>out st'. rs_sort (Some 10) kUnsigned (hsRadixSort_new rs_example) = Some (out, st') \<and>
     rs_chain (rs_mem st') out [20, 10, 30] \<and> map (re_data \<circ> rs_mem st') [20, 10, 30] = ''bac''"
proof -
  let ?st = "hsRadixSort_new rs_example"
  have c: "rs_chain (rs_mem ?st) (Some 10) [10, 20, 30]"
    by (simp add: hsRadixSort_new_def rs_example_def)
  have cl: "rs_clean ?st" by (simp add: hsRadixSort_new_def rs_clean_def)
  have "rs_order kUnsigned (rs_mem ?st) [10, 20, 30] = [20, 10, 30]"
    by (simp add: rs_order_def hsRadixSort_new_def rs_example_def kSigned_def kUnsigned_def kReverse_def
        sort_key_def)
  moreover have "map (re_data \<circ> rs_mem ?st) [20, 10, 30] = ''bac''"
    by (simp add: hsRadixSort_new_def rs_example_def)
  ultimately show ?thesis
    using radix_sort_result [OF c cl, of kUnsigned] by (fastforce simp: rs_same_def)
qed

end
