(* ===== verification/ClassIds.thy ===== *)
theory ClassIds
  imports Main
begin

text \<open>
  The class indices the factory has cases for, as the enumeration of
  \<open>src/core/ResManager/pdUnifiedTypeMap.h\<close> numbers them: abbreviations that only serve to write the
  \<open>switch\<close> as the code has it.
\<close>

abbreviation (input) kSceneNode :: int where "kSceneNode \<equiv> 0"
abbreviation (input) kSceneObject :: int where "kSceneObject \<equiv> 1"
abbreviation (input) kKeyedObject :: int where "kKeyedObject \<equiv> 2"
abbreviation (input) kBitmap :: int where "kBitmap \<equiv> 3"
abbreviation (input) kMipmap :: int where "kMipmap \<equiv> 4"
abbreviation (input) kCubicEnvironmap :: int where "kCubicEnvironmap \<equiv> 5"
abbreviation (input) kLayer :: int where "kLayer \<equiv> 6"
abbreviation (input) kGMaterial :: int where "kGMaterial \<equiv> 7"
abbreviation (input) kParticleSystem :: int where "kParticleSystem \<equiv> 8"
abbreviation (input) kParticleEffect :: int where "kParticleEffect \<equiv> 9"
abbreviation (input) kParticleCollisionEffectBeat :: int where "kParticleCollisionEffectBeat \<equiv> 10"
abbreviation (input) kParticleFadeVolumeEffect :: int where "kParticleFadeVolumeEffect \<equiv> 11"
abbreviation (input) kBoundInterface :: int where "kBoundInterface \<equiv> 12"
abbreviation (input) kRenderTarget :: int where "kRenderTarget \<equiv> 13"
abbreviation (input) kCubicRenderTarget :: int where "kCubicRenderTarget \<equiv> 14"
abbreviation (input) kObjInterface :: int where "kObjInterface \<equiv> 16"
abbreviation (input) kAudioInterface :: int where "kAudioInterface \<equiv> 17"
abbreviation (input) kAudible :: int where "kAudible \<equiv> 18"
abbreviation (input) kAudibleNull :: int where "kAudibleNull \<equiv> 19"
abbreviation (input) kWinAudible :: int where "kWinAudible \<equiv> 20"
abbreviation (input) kCoordinateInterface :: int where "kCoordinateInterface \<equiv> 21"
abbreviation (input) kDrawInterface :: int where "kDrawInterface \<equiv> 22"
abbreviation (input) kDrawable :: int where "kDrawable \<equiv> 23"
abbreviation (input) kPhysical :: int where "kPhysical \<equiv> 26"
abbreviation (input) kSimulationInterface :: int where "kSimulationInterface \<equiv> 28"
abbreviation (input) kCameraModifier :: int where "kCameraModifier \<equiv> 29"
abbreviation (input) kModifier :: int where "kModifier \<equiv> 30"
abbreviation (input) kSingleModifier :: int where "kSingleModifier \<equiv> 31"
abbreviation (input) kDetectorModifier :: int where "kDetectorModifier \<equiv> 36"
abbreviation (input) kMultiModifier :: int where "kMultiModifier \<equiv> 39"
abbreviation (input) kSynchedObject :: int where "kSynchedObject \<equiv> 40"
abbreviation (input) kSoundBuffer :: int where "kSoundBuffer \<equiv> 41"
abbreviation (input) kAliasModifier :: int where "kAliasModifier \<equiv> 42"
abbreviation (input) kPickingDetector :: int where "kPickingDetector \<equiv> 43"
abbreviation (input) kCollisionDetector :: int where "kCollisionDetector \<equiv> 44"
abbreviation (input) kLogicModifier :: int where "kLogicModifier \<equiv> 45"
abbreviation (input) kConditionalObject :: int where "kConditionalObject \<equiv> 46"
abbreviation (input) kANDConditionalObject :: int where "kANDConditionalObject \<equiv> 47"
abbreviation (input) kORConditionalObject :: int where "kORConditionalObject \<equiv> 48"
abbreviation (input) kPickedConditionalObject :: int where "kPickedConditionalObject \<equiv> 49"
abbreviation (input) kActivatorConditionalObject :: int where "kActivatorConditionalObject \<equiv> 50"
abbreviation (input) kKeyPressConditionalObject :: int where "kKeyPressConditionalObject \<equiv> 52"
abbreviation (input) kAnimationEventConditionalObject :: int where "kAnimationEventConditionalObject \<equiv> 53"
abbreviation (input) kControlEventConditionalObject :: int where "kControlEventConditionalObject \<equiv> 54"
abbreviation (input) kObjectInBoxConditionalObject :: int where "kObjectInBoxConditionalObject \<equiv> 55"
abbreviation (input) kLocalPlayerInBoxConditionalObject :: int where "kLocalPlayerInBoxConditionalObject \<equiv> 56"
abbreviation (input) kObjectIntersectPlaneConditionalObject :: int where "kObjectIntersectPlaneConditionalObject \<equiv> 57"
abbreviation (input) kLocalPlayerIntersectPlaneConditionalObject :: int where "kLocalPlayerIntersectPlaneConditionalObject \<equiv> 58"
abbreviation (input) kSpawnModifier :: int where "kSpawnModifier \<equiv> 61"
abbreviation (input) kFacingConditionalObject :: int where "kFacingConditionalObject \<equiv> 62"
abbreviation (input) kGenericPhysical :: int where "kGenericPhysical \<equiv> 63"
abbreviation (input) kViewFaceModifier :: int where "kViewFaceModifier \<equiv> 64"
abbreviation (input) kLayerInterface :: int where "kLayerInterface \<equiv> 65"
abbreviation (input) kLayerAnimation :: int where "kLayerAnimation \<equiv> 67"
abbreviation (input) kLayerDepth :: int where "kLayerDepth \<equiv> 68"
abbreviation (input) kLayerMovie :: int where "kLayerMovie \<equiv> 69"
abbreviation (input) kLayerBink :: int where "kLayerBink \<equiv> 70"
abbreviation (input) kLayerAVI :: int where "kLayerAVI \<equiv> 71"
abbreviation (input) kSound :: int where "kSound \<equiv> 72"
abbreviation (input) kWin32Sound :: int where "kWin32Sound \<equiv> 73"
abbreviation (input) kDrawableSpans :: int where "kDrawableSpans \<equiv> 76"
abbreviation (input) kLogicModBase :: int where "kLogicModBase \<equiv> 79"
abbreviation (input) kFogEnvironment :: int where "kFogEnvironment \<equiv> 80"
abbreviation (input) k2WayWinAudible :: int where "k2WayWinAudible \<equiv> 83"
abbreviation (input) kLightInfo :: int where "kLightInfo \<equiv> 84"
abbreviation (input) kDirectionalLightInfo :: int where "kDirectionalLightInfo \<equiv> 85"
abbreviation (input) kOmniLightInfo :: int where "kOmniLightInfo \<equiv> 86"
abbreviation (input) kSpotLightInfo :: int where "kSpotLightInfo \<equiv> 87"
abbreviation (input) kCameraBrain :: int where "kCameraBrain \<equiv> 93"
abbreviation (input) kCameraBrain_Default :: int where "kCameraBrain_Default \<equiv> 94"
abbreviation (input) kCameraBrain_Drive :: int where "kCameraBrain_Drive \<equiv> 95"
abbreviation (input) kCameraBrain_Fixed :: int where "kCameraBrain_Fixed \<equiv> 96"
abbreviation (input) kCameraBrain_FixedPan :: int where "kCameraBrain_FixedPan \<equiv> 97"
abbreviation (input) kGUIClickMapCtrl :: int where "kGUIClickMapCtrl \<equiv> 98"
abbreviation (input) kOccluder :: int where "kOccluder \<equiv> 103"
abbreviation (input) kMobileOccluder :: int where "kMobileOccluder \<equiv> 104"
abbreviation (input) kLimitedDirLightInfo :: int where "kLimitedDirLightInfo \<equiv> 106"
abbreviation (input) kAGAnim :: int where "kAGAnim \<equiv> 107"
abbreviation (input) kAGModifier :: int where "kAGModifier \<equiv> 108"
abbreviation (input) kAGMasterMod :: int where "kAGMasterMod \<equiv> 109"
abbreviation (input) kCameraBrain_Avatar :: int where "kCameraBrain_Avatar \<equiv> 110"
abbreviation (input) kCameraRegionDetector :: int where "kCameraRegionDetector \<equiv> 111"
abbreviation (input) kCameraBrain_FP :: int where "kCameraBrain_FP \<equiv> 112"
abbreviation (input) kLineFollowMod :: int where "kLineFollowMod \<equiv> 113"
abbreviation (input) kSeekPointMod :: int where "kSeekPointMod \<equiv> 118"
abbreviation (input) kOneShotMod :: int where "kOneShotMod \<equiv> 119"
abbreviation (input) kRandomCommandMod :: int where "kRandomCommandMod \<equiv> 120"
abbreviation (input) kRandomSoundMod :: int where "kRandomSoundMod \<equiv> 121"
abbreviation (input) kPostEffectMod :: int where "kPostEffectMod \<equiv> 122"
abbreviation (input) kObjectInVolumeDetector :: int where "kObjectInVolumeDetector \<equiv> 123"
abbreviation (input) kResponderModifier :: int where "kResponderModifier \<equiv> 124"
abbreviation (input) kAxisAnimModifier :: int where "kAxisAnimModifier \<equiv> 125"
abbreviation (input) kFollowMod :: int where "kFollowMod \<equiv> 127"
abbreviation (input) kWin32StreamingSound :: int where "kWin32StreamingSound \<equiv> 132"
abbreviation (input) kPythonMod :: int where "kPythonMod \<equiv> 133"
abbreviation (input) kActivatorActivatorConditionalObject :: int where "kActivatorActivatorConditionalObject \<equiv> 134"
abbreviation (input) kSoftVolume :: int where "kSoftVolume \<equiv> 135"
abbreviation (input) kSoftVolumeSimple :: int where "kSoftVolumeSimple \<equiv> 136"
abbreviation (input) kSoftVolumeComplex :: int where "kSoftVolumeComplex \<equiv> 137"
abbreviation (input) kSoftVolumeUnion :: int where "kSoftVolumeUnion \<equiv> 138"
abbreviation (input) kSoftVolumeIntersect :: int where "kSoftVolumeIntersect \<equiv> 139"
abbreviation (input) kSoftVolumeInvert :: int where "kSoftVolumeInvert \<equiv> 140"
abbreviation (input) kWin32LinkSound :: int where "kWin32LinkSound \<equiv> 141"
abbreviation (input) kLayerLinkAnimation :: int where "kLayerLinkAnimation \<equiv> 142"
abbreviation (input) kArmatureMod :: int where "kArmatureMod \<equiv> 143"
abbreviation (input) kCameraBrain_Freelook :: int where "kCameraBrain_Freelook \<equiv> 144"
abbreviation (input) kArmatureLODMod :: int where "kArmatureLODMod \<equiv> 149"
abbreviation (input) kWin32StaticSound :: int where "kWin32StaticSound \<equiv> 150"
abbreviation (input) kGUIDialogMod :: int where "kGUIDialogMod \<equiv> 152"
abbreviation (input) kCameraBrain1 :: int where "kCameraBrain1 \<equiv> 153"
abbreviation (input) kCameraBrain1_Drive :: int where "kCameraBrain1_Drive \<equiv> 156"
abbreviation (input) kCameraBrain1_POA :: int where "kCameraBrain1_POA \<equiv> 157"
abbreviation (input) kCameraBrain1_Avatar :: int where "kCameraBrain1_Avatar \<equiv> 158"
abbreviation (input) kCameraBrain1_Fixed :: int where "kCameraBrain1_Fixed \<equiv> 159"
abbreviation (input) kCameraBrain1_POAFixed :: int where "kCameraBrain1_POAFixed \<equiv> 160"
abbreviation (input) kGUIButtonMod :: int where "kGUIButtonMod \<equiv> 161"
abbreviation (input) kPythonFileMod :: int where "kPythonFileMod \<equiv> 162"
abbreviation (input) kGUIControlMod :: int where "kGUIControlMod \<equiv> 163"
abbreviation (input) kExcludeRegionModifier :: int where "kExcludeRegionModifier \<equiv> 164"
abbreviation (input) kGUIDraggableMod :: int where "kGUIDraggableMod \<equiv> 165"
abbreviation (input) kVolumeSensorConditionalObject :: int where "kVolumeSensorConditionalObject \<equiv> 166"
abbreviation (input) kVolActivatorConditionalObject :: int where "kVolActivatorConditionalObject \<equiv> 167"
abbreviation (input) kMsgForwarder :: int where "kMsgForwarder \<equiv> 168"
abbreviation (input) kBlower :: int where "kBlower \<equiv> 169"
abbreviation (input) kGUIListBoxMod :: int where "kGUIListBoxMod \<equiv> 170"
abbreviation (input) kGUITextBoxMod :: int where "kGUITextBoxMod \<equiv> 171"
abbreviation (input) kGUIEditBoxMod :: int where "kGUIEditBoxMod \<equiv> 172"
abbreviation (input) kDynamicTextMap :: int where "kDynamicTextMap \<equiv> 173"
abbreviation (input) kSittingModifier :: int where "kSittingModifier \<equiv> 174"
abbreviation (input) kGUIUpDownPairMod :: int where "kGUIUpDownPairMod \<equiv> 175"
abbreviation (input) kGUIValueCtrl :: int where "kGUIValueCtrl \<equiv> 176"
abbreviation (input) kGUIKnobCtrl :: int where "kGUIKnobCtrl \<equiv> 177"
abbreviation (input) kAvLadderMod :: int where "kAvLadderMod \<equiv> 178"
abbreviation (input) kCameraBrain1_FirstPerson :: int where "kCameraBrain1_FirstPerson \<equiv> 179"
abbreviation (input) kClothingItem :: int where "kClothingItem \<equiv> 181"
abbreviation (input) kClothingOutfit :: int where "kClothingOutfit \<equiv> 182"
abbreviation (input) kClothingBase :: int where "kClothingBase \<equiv> 183"
abbreviation (input) kGUIDragBarCtrl :: int where "kGUIDragBarCtrl \<equiv> 185"
abbreviation (input) kGUICheckBoxCtrl :: int where "kGUICheckBoxCtrl \<equiv> 186"
abbreviation (input) kGUIRadioGroupCtrl :: int where "kGUIRadioGroupCtrl \<equiv> 187"
abbreviation (input) kGUIDynDisplayCtrl :: int where "kGUIDynDisplayCtrl \<equiv> 189"
abbreviation (input) kRailCameraMod :: int where "kRailCameraMod \<equiv> 192"
abbreviation (input) kMultistageBehMod :: int where "kMultistageBehMod \<equiv> 193"
abbreviation (input) kCameraBrain1_Circle :: int where "kCameraBrain1_Circle \<equiv> 194"
abbreviation (input) kParticleWindEffect :: int where "kParticleWindEffect \<equiv> 195"
abbreviation (input) kAnimEventModifier :: int where "kAnimEventModifier \<equiv> 196"
abbreviation (input) kGUISkin :: int where "kGUISkin \<equiv> 198"
abbreviation (input) kParticleCollisionEffect :: int where "kParticleCollisionEffect \<equiv> 200"
abbreviation (input) kParticleCollisionEffectDie :: int where "kParticleCollisionEffectDie \<equiv> 201"
abbreviation (input) kParticleCollisionEffectBounce :: int where "kParticleCollisionEffectBounce \<equiv> 202"
abbreviation (input) kInterfaceInfoModifier :: int where "kInterfaceInfoModifier \<equiv> 203"
abbreviation (input) kSharedMesh :: int where "kSharedMesh \<equiv> 204"
abbreviation (input) kArmatureEffectsMgr :: int where "kArmatureEffectsMgr \<equiv> 205"
abbreviation (input) kVehicleModifier :: int where "kVehicleModifier \<equiv> 207"
abbreviation (input) kParticleLocalWind :: int where "kParticleLocalWind \<equiv> 208"
abbreviation (input) kParticleUniformWind :: int where "kParticleUniformWind \<equiv> 209"
abbreviation (input) kInstanceDrawInterface :: int where "kInstanceDrawInterface \<equiv> 210"
abbreviation (input) kShadowMaster :: int where "kShadowMaster \<equiv> 211"
abbreviation (input) kShadowCaster :: int where "kShadowCaster \<equiv> 212"
abbreviation (input) kPointShadowMaster :: int where "kPointShadowMaster \<equiv> 213"
abbreviation (input) kDirectShadowMaster :: int where "kDirectShadowMaster \<equiv> 214"
abbreviation (input) kHKSubWorld :: int where "kHKSubWorld \<equiv> 226"
abbreviation (input) kArmatureEffect :: int where "kArmatureEffect \<equiv> 227"
abbreviation (input) kArmatureEffectFootSound :: int where "kArmatureEffectFootSound \<equiv> 228"
abbreviation (input) kEAXListenerMod :: int where "kEAXListenerMod \<equiv> 229"
abbreviation (input) kDynaDecalMgr :: int where "kDynaDecalMgr \<equiv> 230"
abbreviation (input) kObjectInVolumeAndFacingDetector :: int where "kObjectInVolumeAndFacingDetector \<equiv> 231"
abbreviation (input) kDynaFootMgr :: int where "kDynaFootMgr \<equiv> 232"
abbreviation (input) kDynaRippleMgr :: int where "kDynaRippleMgr \<equiv> 233"
abbreviation (input) kDynaBulletMgr :: int where "kDynaBulletMgr \<equiv> 234"
abbreviation (input) kPrintShape :: int where "kPrintShape \<equiv> 236"
abbreviation (input) kDynaPuddleMgr :: int where "kDynaPuddleMgr \<equiv> 237"
abbreviation (input) kGUIMultiLineEditCtrl :: int where "kGUIMultiLineEditCtrl \<equiv> 238"
abbreviation (input) kLayerAnimationBase :: int where "kLayerAnimationBase \<equiv> 239"
abbreviation (input) kLayerSDLAnimation :: int where "kLayerSDLAnimation \<equiv> 240"
abbreviation (input) kATCAnim :: int where "kATCAnim \<equiv> 241"
abbreviation (input) kAgeGlobalAnim :: int where "kAgeGlobalAnim \<equiv> 242"
abbreviation (input) kSubworldRegionDetector :: int where "kSubworldRegionDetector \<equiv> 243"
abbreviation (input) kNPCSpawnMod :: int where "kNPCSpawnMod \<equiv> 245"
abbreviation (input) kActivePrintShape :: int where "kActivePrintShape \<equiv> 246"
abbreviation (input) kDynaWakeMgr :: int where "kDynaWakeMgr \<equiv> 249"
abbreviation (input) kWaveSet7 :: int where "kWaveSet7 \<equiv> 251"
abbreviation (input) kPanicLinkRegion :: int where "kPanicLinkRegion \<equiv> 252"
abbreviation (input) kWin32GroupedSound :: int where "kWin32GroupedSound \<equiv> 253"
abbreviation (input) kFilterCoordInterface :: int where "kFilterCoordInterface \<equiv> 254"
abbreviation (input) kStereizer :: int where "kStereizer \<equiv> 255"
abbreviation (input) kShader :: int where "kShader \<equiv> 261"
abbreviation (input) kDynamicEnvMap :: int where "kDynamicEnvMap \<equiv> 262"
abbreviation (input) kSimpleRegionSensor :: int where "kSimpleRegionSensor \<equiv> 263"
abbreviation (input) kMorphSequence :: int where "kMorphSequence \<equiv> 264"
abbreviation (input) kEmoteAnim :: int where "kEmoteAnim \<equiv> 265"
abbreviation (input) kDynaRippleVSMgr :: int where "kDynaRippleVSMgr \<equiv> 266"
abbreviation (input) kWaveSet6 :: int where "kWaveSet6 \<equiv> 267"
abbreviation (input) kGUIProgressCtrl :: int where "kGUIProgressCtrl \<equiv> 268"
abbreviation (input) kMaintainersMarkerModifier :: int where "kMaintainersMarkerModifier \<equiv> 269"
abbreviation (input) kMorphDataSet :: int where "kMorphDataSet \<equiv> 271"
abbreviation (input) kHardRegion :: int where "kHardRegion \<equiv> 272"
abbreviation (input) kHardRegionPlanes :: int where "kHardRegionPlanes \<equiv> 273"
abbreviation (input) kHardRegionComplex :: int where "kHardRegionComplex \<equiv> 274"
abbreviation (input) kHardRegionUnion :: int where "kHardRegionUnion \<equiv> 275"
abbreviation (input) kHardRegionIntersect :: int where "kHardRegionIntersect \<equiv> 276"
abbreviation (input) kHardRegionInvert :: int where "kHardRegionInvert \<equiv> 277"
abbreviation (input) kVisRegion :: int where "kVisRegion \<equiv> 278"
abbreviation (input) kRegionBase :: int where "kRegionBase \<equiv> 280"
abbreviation (input) kGUIPopUpMenu :: int where "kGUIPopUpMenu \<equiv> 281"
abbreviation (input) kGUIMenuItem :: int where "kGUIMenuItem \<equiv> 282"
abbreviation (input) kFont :: int where "kFont \<equiv> 284"
abbreviation (input) kRelevanceRegion :: int where "kRelevanceRegion \<equiv> 286"
abbreviation (input) kImageLibMod :: int where "kImageLibMod \<equiv> 290"
abbreviation (input) kParticleFlockEffect :: int where "kParticleFlockEffect \<equiv> 291"
abbreviation (input) kWaveSetBase :: int where "kWaveSetBase \<equiv> 294"
abbreviation (input) kPhysicalSndGroup :: int where "kPhysicalSndGroup \<equiv> 295"
abbreviation (input) kDynaTorpedoMgr :: int where "kDynaTorpedoMgr \<equiv> 297"
abbreviation (input) kDynaTorpedoVSMgr :: int where "kDynaTorpedoVSMgr \<equiv> 298"
abbreviation (input) kClusterGroup :: int where "kClusterGroup \<equiv> 299"
abbreviation (input) kGameMarkerModifier :: int where "kGameMarkerModifier \<equiv> 300"
abbreviation (input) kLODMipmap :: int where "kLODMipmap \<equiv> 301"
abbreviation (input) kSwimDetector :: int where "kSwimDetector \<equiv> 302"
abbreviation (input) kFadeOpacityMod :: int where "kFadeOpacityMod \<equiv> 303"
abbreviation (input) kDistOpacityMod :: int where "kDistOpacityMod \<equiv> 305"
abbreviation (input) kArmatureModBase :: int where "kArmatureModBase \<equiv> 306"
abbreviation (input) kSwimRegionInterface :: int where "kSwimRegionInterface \<equiv> 307"
abbreviation (input) kSwimCircularCurrentRegion :: int where "kSwimCircularCurrentRegion \<equiv> 308"
abbreviation (input) kParticleFollowSystemEffect :: int where "kParticleFollowSystemEffect \<equiv> 309"
abbreviation (input) kSwimStraightCurrentRegion :: int where "kSwimStraightCurrentRegion \<equiv> 310"
abbreviation (input) kObjectFlocker :: int where "kObjectFlocker \<equiv> 311"
abbreviation (input) kGrassShaderMod :: int where "kGrassShaderMod \<equiv> 312"
abbreviation (input) kDynamicCamMap :: int where "kDynamicCamMap \<equiv> 313"
abbreviation (input) kAutoWalkRegion :: int where "kAutoWalkRegion \<equiv> 317"
abbreviation (input) kCrossfade :: int where "kCrossfade \<equiv> 318"
abbreviation (input) kParticleFadeOutEffect :: int where "kParticleFadeOutEffect \<equiv> 319"
abbreviation (input) kWindBoneMod :: int where "kWindBoneMod \<equiv> 321"
abbreviation (input) kCameraBrain_NovicePlus :: int where "kCameraBrain_NovicePlus \<equiv> 322"
abbreviation (input) kPythonFileModConditionalObject :: int where "kPythonFileModConditionalObject \<equiv> 324"
abbreviation (input) kCameraBrainUru :: int where "kCameraBrainUru \<equiv> 330"
abbreviation (input) kCameraBrainUru_Drive :: int where "kCameraBrainUru_Drive \<equiv> 332"
abbreviation (input) kCameraBrainUru_Follow :: int where "kCameraBrainUru_Follow \<equiv> 333"
abbreviation (input) kCameraBrainUru_Fixed :: int where "kCameraBrainUru_Fixed \<equiv> 334"
abbreviation (input) kLadderModifier :: int where "kLadderModifier \<equiv> 336"
abbreviation (input) kCameraBrainUru_FirstPerson :: int where "kCameraBrainUru_FirstPerson \<equiv> 337"
abbreviation (input) kCameraBrainUru_Circle :: int where "kCameraBrainUru_Circle \<equiv> 338"
abbreviation (input) kEAXReverbEffect :: int where "kEAXReverbEffect \<equiv> 339"
abbreviation (input) kSpawnMod :: int where "kSpawnMod \<equiv> 340"
abbreviation (input) kCameraBrain_Novice :: int where "kCameraBrain_Novice \<equiv> 341"
abbreviation (input) kDirectMusicSound :: int where "kDirectMusicSound \<equiv> 343"
abbreviation (input) kElevatorModifier :: int where "kElevatorModifier \<equiv> 347"
abbreviation (input) kCameraBrain_Expert :: int where "kCameraBrain_Expert \<equiv> 348"
abbreviation (input) kEAXEffect :: int where "kEAXEffect \<equiv> 352"
abbreviation (input) kCameraBrain_M5 :: int where "kCameraBrain_M5 \<equiv> 355"
abbreviation (input) kAGAnimBink :: int where "kAGAnimBink \<equiv> 356"
abbreviation (input) kNodeRegionModifier :: int where "kNodeRegionModifier \<equiv> 358"
abbreviation (input) kRidingAnimatedPhysicalDetector :: int where "kRidingAnimatedPhysicalDetector \<equiv> 360"
abbreviation (input) kVolumeSensorConditionalObjectNoArbitration :: int where "kVolumeSensorConditionalObjectNoArbitration \<equiv> 361"
abbreviation (input) kCameraBrain_Ground :: int where "kCameraBrain_Ground \<equiv> 367"
abbreviation (input) kCameraBrain_Flight :: int where "kCameraBrain_Flight \<equiv> 368"
abbreviation (input) kMessage :: int where "kMessage \<equiv> 514"
abbreviation (input) kAnimCmdMsg :: int where "kAnimCmdMsg \<equiv> 518"
abbreviation (input) kCameraMsg :: int where "kCameraMsg \<equiv> 522"
abbreviation (input) kNetMsgPagingRoom :: int where "kNetMsgPagingRoom \<equiv> 536"
abbreviation (input) kReceiver :: int where "kReceiver \<equiv> 539"
abbreviation (input) kController :: int where "kController \<equiv> 554"
abbreviation (input) kLeafController :: int where "kLeafController \<equiv> 555"
abbreviation (input) kScaleController :: int where "kScaleController \<equiv> 556"
abbreviation (input) kRotController :: int where "kRotController \<equiv> 557"
abbreviation (input) kPosController :: int where "kPosController \<equiv> 558"
abbreviation (input) kScalarController :: int where "kScalarController \<equiv> 559"
abbreviation (input) kPoint3Controller :: int where "kPoint3Controller \<equiv> 560"
abbreviation (input) kScaleValueController :: int where "kScaleValueController \<equiv> 561"
abbreviation (input) kQuatController :: int where "kQuatController \<equiv> 562"
abbreviation (input) kMatrix33Controller :: int where "kMatrix33Controller \<equiv> 563"
abbreviation (input) kMatrix44Controller :: int where "kMatrix44Controller \<equiv> 564"
abbreviation (input) kEaseController :: int where "kEaseController \<equiv> 565"
abbreviation (input) kSimpleScaleController :: int where "kSimpleScaleController \<equiv> 566"
abbreviation (input) kSimpleRotController :: int where "kSimpleRotController \<equiv> 567"
abbreviation (input) kCompoundRotController :: int where "kCompoundRotController \<equiv> 568"
abbreviation (input) kSimplePosController :: int where "kSimplePosController \<equiv> 569"
abbreviation (input) kCompoundPosController :: int where "kCompoundPosController \<equiv> 570"
abbreviation (input) kTMController :: int where "kTMController \<equiv> 571"
abbreviation (input) kTimerCallbackMsg :: int where "kTimerCallbackMsg \<equiv> 586"
abbreviation (input) kEventCallbackMsg :: int where "kEventCallbackMsg \<equiv> 587"
abbreviation (input) kLoadCloneMsg :: int where "kLoadCloneMsg \<equiv> 590"
abbreviation (input) kEnableMsg :: int where "kEnableMsg \<equiv> 591"
abbreviation (input) kWarpMsg :: int where "kWarpMsg \<equiv> 592"
abbreviation (input) kAnimTimeConvert :: int where "kAnimTimeConvert \<equiv> 596"
abbreviation (input) kSoundMsg :: int where "kSoundMsg \<equiv> 597"
abbreviation (input) kSpaceTree :: int where "kSpaceTree \<equiv> 600"
abbreviation (input) kNetMessage :: int where "kNetMessage \<equiv> 601"
abbreviation (input) kNetMsgRoomsList :: int where "kNetMsgRoomsList \<equiv> 606"
abbreviation (input) kNetMsgGroupOwner :: int where "kNetMsgGroupOwner \<equiv> 607"
abbreviation (input) kNetMsgGameStateRequest :: int where "kNetMsgGameStateRequest \<equiv> 608"
abbreviation (input) kNetMsgObject :: int where "kNetMsgObject \<equiv> 611"
abbreviation (input) kLinkInDoneMsg :: int where "kLinkInDoneMsg \<equiv> 613"
abbreviation (input) kNetMsgGameMessage :: int where "kNetMsgGameMessage \<equiv> 614"
abbreviation (input) kNetMsgStream :: int where "kNetMsgStream \<equiv> 615"
abbreviation (input) kServerReplyMsg :: int where "kServerReplyMsg \<equiv> 618"
abbreviation (input) kNetMsgStreamHelper :: int where "kNetMsgStreamHelper \<equiv> 620"
abbreviation (input) kNetMsgObjectHelper :: int where "kNetMsgObjectHelper \<equiv> 621"
abbreviation (input) kNetMsgStreamedObject :: int where "kNetMsgStreamedObject \<equiv> 630"
abbreviation (input) kNetMsgSharedState :: int where "kNetMsgSharedState \<equiv> 631"
abbreviation (input) kNetMsgTestAndSet :: int where "kNetMsgTestAndSet \<equiv> 632"
abbreviation (input) kMessageWithCallbacks :: int where "kMessageWithCallbacks \<equiv> 638"
abbreviation (input) kSimulationMsg :: int where "kSimulationMsg \<equiv> 655"
abbreviation (input) kAvatarMsg :: int where "kAvatarMsg \<equiv> 658"
abbreviation (input) kAvTaskMsg :: int where "kAvTaskMsg \<equiv> 659"
abbreviation (input) kAvSeekMsg :: int where "kAvSeekMsg \<equiv> 660"
abbreviation (input) kAvOneShotMsg :: int where "kAvOneShotMsg \<equiv> 661"
abbreviation (input) kSimStateMsg :: int where "kSimStateMsg \<equiv> 676"
abbreviation (input) kNetMsgMembersListReq :: int where "kNetMsgMembersListReq \<equiv> 680"
abbreviation (input) kNetMsgMembersList :: int where "kNetMsgMembersList \<equiv> 681"
abbreviation (input) kNetMsgMemberInfoHelper :: int where "kNetMsgMemberInfoHelper \<equiv> 682"
abbreviation (input) kNetMsgMemberListHelper :: int where "kNetMsgMemberListHelper \<equiv> 683"
abbreviation (input) kNetMsgMemberUpdate :: int where "kNetMsgMemberUpdate \<equiv> 684"
abbreviation (input) kNetMsgServerToClient :: int where "kNetMsgServerToClient \<equiv> 685"
abbreviation (input) kNetMsgInitialAgeStateSent :: int where "kNetMsgInitialAgeStateSent \<equiv> 691"
abbreviation (input) kAgeLinkStruct :: int where "kAgeLinkStruct \<equiv> 703"
abbreviation (input) kNetMsgSDLState :: int where "kNetMsgSDLState \<equiv> 712"
abbreviation (input) kConvexVolume :: int where "kConvexVolume \<equiv> 721"
abbreviation (input) kParticleGenerator :: int where "kParticleGenerator \<equiv> 722"
abbreviation (input) kSimpleParticleGenerator :: int where "kSimpleParticleGenerator \<equiv> 723"
abbreviation (input) kParticleEmitter :: int where "kParticleEmitter \<equiv> 724"
abbreviation (input) kAGChannel :: int where "kAGChannel \<equiv> 725"
abbreviation (input) kMatrixChannel :: int where "kMatrixChannel \<equiv> 726"
abbreviation (input) kMatrixTimeScale :: int where "kMatrixTimeScale \<equiv> 727"
abbreviation (input) kMatrixBlend :: int where "kMatrixBlend \<equiv> 728"
abbreviation (input) kMatrixControllerChannel :: int where "kMatrixControllerChannel \<equiv> 729"
abbreviation (input) kQuatPointCombine :: int where "kQuatPointCombine \<equiv> 730"
abbreviation (input) kPointChannel :: int where "kPointChannel \<equiv> 731"
abbreviation (input) kPointConstant :: int where "kPointConstant \<equiv> 732"
abbreviation (input) kPointBlend :: int where "kPointBlend \<equiv> 733"
abbreviation (input) kQuatChannel :: int where "kQuatChannel \<equiv> 734"
abbreviation (input) kQuatConstant :: int where "kQuatConstant \<equiv> 735"
abbreviation (input) kQuatBlend :: int where "kQuatBlend \<equiv> 736"
abbreviation (input) kLinkToAgeMsg :: int where "kLinkToAgeMsg \<equiv> 737"
abbreviation (input) kAnimPath :: int where "kAnimPath \<equiv> 742"
abbreviation (input) kNotifyMsg :: int where "kNotifyMsg \<equiv> 744"
abbreviation (input) kCursorChangeMsg :: int where "kCursorChangeMsg \<equiv> 746"
abbreviation (input) kTransitionMsg :: int where "kTransitionMsg \<equiv> 750"
abbreviation (input) kVolumeIsect :: int where "kVolumeIsect \<equiv> 752"
abbreviation (input) kSphereIsect :: int where "kSphereIsect \<equiv> 753"
abbreviation (input) kConeIsect :: int where "kConeIsect \<equiv> 754"
abbreviation (input) kCylinderIsect :: int where "kCylinderIsect \<equiv> 755"
abbreviation (input) kParallelIsect :: int where "kParallelIsect \<equiv> 756"
abbreviation (input) kConvexIsect :: int where "kConvexIsect \<equiv> 757"
abbreviation (input) kComplexIsect :: int where "kComplexIsect \<equiv> 758"
abbreviation (input) kUnionIsect :: int where "kUnionIsect \<equiv> 759"
abbreviation (input) kIntersectionIsect :: int where "kIntersectionIsect \<equiv> 760"
abbreviation (input) kLinkEffectsTriggerMsg :: int where "kLinkEffectsTriggerMsg \<equiv> 763"
abbreviation (input) kResponderEnableMsg :: int where "kResponderEnableMsg \<equiv> 765"
abbreviation (input) kResponderMsg :: int where "kResponderMsg \<equiv> 769"
abbreviation (input) kOneShotMsg :: int where "kOneShotMsg \<equiv> 770"
abbreviation (input) kPointTimeScale :: int where "kPointTimeScale \<equiv> 773"
abbreviation (input) kPointControllerChannel :: int where "kPointControllerChannel \<equiv> 774"
abbreviation (input) kQuatTimeScale :: int where "kQuatTimeScale \<equiv> 775"
abbreviation (input) kAGApplicator :: int where "kAGApplicator \<equiv> 776"
abbreviation (input) kMatrixChannelApplicator :: int where "kMatrixChannelApplicator \<equiv> 777"
abbreviation (input) kPointChannelApplicator :: int where "kPointChannelApplicator \<equiv> 778"
abbreviation (input) kLightDiffuseApplicator :: int where "kLightDiffuseApplicator \<equiv> 779"
abbreviation (input) kLightAmbientApplicator :: int where "kLightAmbientApplicator \<equiv> 780"
abbreviation (input) kLightSpecularApplicator :: int where "kLightSpecularApplicator \<equiv> 781"
abbreviation (input) kOmniApplicator :: int where "kOmniApplicator \<equiv> 782"
abbreviation (input) kQuatChannelApplicator :: int where "kQuatChannelApplicator \<equiv> 783"
abbreviation (input) kScalarChannel :: int where "kScalarChannel \<equiv> 784"
abbreviation (input) kScalarTimeScale :: int where "kScalarTimeScale \<equiv> 785"
abbreviation (input) kScalarBlend :: int where "kScalarBlend \<equiv> 786"
abbreviation (input) kScalarControllerChannel :: int where "kScalarControllerChannel \<equiv> 787"
abbreviation (input) kScalarChannelApplicator :: int where "kScalarChannelApplicator \<equiv> 788"
abbreviation (input) kSpotInnerApplicator :: int where "kSpotInnerApplicator \<equiv> 789"
abbreviation (input) kSpotOuterApplicator :: int where "kSpotOuterApplicator \<equiv> 790"
abbreviation (input) kATCEaseCurve :: int where "kATCEaseCurve \<equiv> 793"
abbreviation (input) kConstAccelEaseCurve :: int where "kConstAccelEaseCurve \<equiv> 794"
abbreviation (input) kSplineEaseCurve :: int where "kSplineEaseCurve \<equiv> 795"
abbreviation (input) kNetMsgSDLStateBCast :: int where "kNetMsgSDLStateBCast \<equiv> 804"
abbreviation (input) kNetMsgGameMessageDirected :: int where "kNetMsgGameMessageDirected \<equiv> 809"
abbreviation (input) kScalarConstant :: int where "kScalarConstant \<equiv> 811"
abbreviation (input) kMatrixConstant :: int where "kMatrixConstant \<equiv> 812"
abbreviation (input) kExcludeRegionMsg :: int where "kExcludeRegionMsg \<equiv> 816"
abbreviation (input) kOneTimeParticleGenerator :: int where "kOneTimeParticleGenerator \<equiv> 817"
abbreviation (input) kParticleApplicator :: int where "kParticleApplicator \<equiv> 818"
abbreviation (input) kParticleLifeMinApplicator :: int where "kParticleLifeMinApplicator \<equiv> 819"
abbreviation (input) kParticleLifeMaxApplicator :: int where "kParticleLifeMaxApplicator \<equiv> 820"
abbreviation (input) kParticlePPSApplicator :: int where "kParticlePPSApplicator \<equiv> 821"
abbreviation (input) kParticleAngleApplicator :: int where "kParticleAngleApplicator \<equiv> 822"
abbreviation (input) kParticleVelMinApplicator :: int where "kParticleVelMinApplicator \<equiv> 823"
abbreviation (input) kParticleVelMaxApplicator :: int where "kParticleVelMaxApplicator \<equiv> 824"
abbreviation (input) kParticleScaleMinApplicator :: int where "kParticleScaleMinApplicator \<equiv> 825"
abbreviation (input) kParticleScaleMaxApplicator :: int where "kParticleScaleMaxApplicator \<equiv> 826"
abbreviation (input) kPointControllerCacheChannel :: int where "kPointControllerCacheChannel \<equiv> 830"
abbreviation (input) kScalarControllerCacheChannel :: int where "kScalarControllerCacheChannel \<equiv> 831"
abbreviation (input) kAvatarInputStateMsg :: int where "kAvatarInputStateMsg \<equiv> 834"
abbreviation (input) kAgeInfoStruct :: int where "kAgeInfoStruct \<equiv> 835"
abbreviation (input) kLinkingMgrMsg :: int where "kLinkingMgrMsg \<equiv> 838"
abbreviation (input) kArmatureBrain :: int where "kArmatureBrain \<equiv> 854"
abbreviation (input) kAvBrainHuman :: int where "kAvBrainHuman \<equiv> 855"
abbreviation (input) kAvBrainCritter :: int where "kAvBrainCritter \<equiv> 856"
abbreviation (input) kAvBrainDrive :: int where "kAvBrainDrive \<equiv> 857"
abbreviation (input) kAvBrainGeneric :: int where "kAvBrainGeneric \<equiv> 859"
abbreviation (input) kInputIfaceMgrMsg :: int where "kInputIfaceMgrMsg \<equiv> 862"
abbreviation (input) kKIMsg :: int where "kKIMsg \<equiv> 863"
abbreviation (input) kMatrixDelayedCorrectionApplicator :: int where "kMatrixDelayedCorrectionApplicator \<equiv> 865"
abbreviation (input) kAvPushBrainMsg :: int where "kAvPushBrainMsg \<equiv> 866"
abbreviation (input) kAvPopBrainMsg :: int where "kAvPopBrainMsg \<equiv> 867"
abbreviation (input) kAvTask :: int where "kAvTask \<equiv> 869"
abbreviation (input) kAvAnimTask :: int where "kAvAnimTask \<equiv> 870"
abbreviation (input) kAvSeekTask :: int where "kAvSeekTask \<equiv> 871"
abbreviation (input) kAvOneShotTask :: int where "kAvOneShotTask \<equiv> 873"
abbreviation (input) kAvTaskBrain :: int where "kAvTaskBrain \<equiv> 875"
abbreviation (input) kAnimStage :: int where "kAnimStage \<equiv> 876"
abbreviation (input) kClientGuid :: int where "kClientGuid \<equiv> 882"
abbreviation (input) kAvBrainGenericMsg :: int where "kAvBrainGenericMsg \<equiv> 906"
abbreviation (input) kAvTaskSeek :: int where "kAvTaskSeek \<equiv> 907"
abbreviation (input) kArmatureEffectStateMsg :: int where "kArmatureEffectStateMsg \<equiv> 910"
abbreviation (input) kBoundsIsect :: int where "kBoundsIsect \<equiv> 912"
abbreviation (input) kSoundVolumeApplicator :: int where "kSoundVolumeApplicator \<equiv> 927"
abbreviation (input) kOmniCutoffApplicator :: int where "kOmniCutoffApplicator \<equiv> 931"
abbreviation (input) kNetMsgRelevanceRegions :: int where "kNetMsgRelevanceRegions \<equiv> 935"
abbreviation (input) kATCChannel :: int where "kATCChannel \<equiv> 938"
abbreviation (input) kScalarSDLChannel :: int where "kScalarSDLChannel \<equiv> 939"
abbreviation (input) kLoadAvatarMsg :: int where "kLoadAvatarMsg \<equiv> 940"
abbreviation (input) kNetMsgLoadClone :: int where "kNetMsgLoadClone \<equiv> 942"
abbreviation (input) kNetMsgPlayerPage :: int where "kNetMsgPlayerPage \<equiv> 943"
abbreviation (input) kSubWorldMsg :: int where "kSubWorldMsg \<equiv> 954"
abbreviation (input) kMatrixDifferenceApp :: int where "kMatrixDifferenceApp \<equiv> 955"
abbreviation (input) kAvBrainPirahna :: int where "kAvBrainPirahna \<equiv> 960"
abbreviation (input) kCrossfadeMsg :: int where "kCrossfadeMsg \<equiv> 962"
abbreviation (input) kOmniSqApplicator :: int where "kOmniSqApplicator \<equiv> 965"
abbreviation (input) kCompoundController :: int where "kCompoundController \<equiv> 970"
abbreviation (input) kAvBrainAvatar :: int where "kAvBrainAvatar \<equiv> 973"
abbreviation (input) kAvBrainSwim :: int where "kAvBrainSwim \<equiv> 1063"
abbreviation (input) kClimbMsg :: int where "kClimbMsg \<equiv> 1099"
abbreviation (input) kAvBrainClimb :: int where "kAvBrainClimb \<equiv> 1101"
abbreviation (input) kSwimMsg :: int where "kSwimMsg \<equiv> 1104"
abbreviation (input) kMorphDelta :: int where "kMorphDelta \<equiv> 1105"
abbreviation (input) kMatrixControllerCacheChannel :: int where "kMatrixControllerCacheChannel \<equiv> 1106"
abbreviation (input) kAvBrainCoop :: int where "kAvBrainCoop \<equiv> 1113"
abbreviation (input) kSimSuppressMsg :: int where "kSimSuppressMsg \<equiv> 1114"
abbreviation (input) kAvOneShotLinkTask :: int where "kAvOneShotLinkTask \<equiv> 1154"
abbreviation (input) kAvBrainQuab :: int where "kAvBrainQuab \<equiv> 1171"
abbreviation (input) kEventCallbackSetupMsg :: int where "kEventCallbackSetupMsg \<equiv> 1234"
abbreviation (input) kRelativeMatrixChannelApplicator :: int where "kRelativeMatrixChannelApplicator \<equiv> 1235"
abbreviation (input) kAccountUpdateMsg :: int where "kAccountUpdateMsg \<equiv> 1244"
abbreviation (input) kRideAnimatedPhysMsg :: int where "kRideAnimatedPhysMsg \<equiv> 1252"
abbreviation (input) kAvBrainRideAnimatedPhysical :: int where "kAvBrainRideAnimatedPhysical \<equiv> 1253"

end
