(* ===== verification/ClassNames.thy ===== *)
theory ClassNames
  imports TypeMap
begin

text \<open>
  The names of the classes (\<open>fClassNames\<close>, \<open>ClassName\<close> and \<open>ClassIndex\<close> of
  \<open>src/core/ResManager/pdUnifiedTypeMap.cpp\<close>).  A C string is a \<^typ>\<open>string\<close>, a null pointer
  is \<open>None\<close>.  The table is cut into 24 parts, which start at the indices of \<open>part_starts\<close>.
\<close>

section \<open>The table\<close>

definition fClassNames1 :: "string option list" where
  "fClassNames1 = (
     [Some ''plSceneNode'', Some ''plSceneObject'', Some ''hsKeyedObject'', Some ''plBitmap'', Some
     ''plMipmap'', Some ''plCubicEnvironmap'', Some ''plLayer'', Some ''hsGMaterial'', Some
     ''plParticleSystem'', Some ''plParticleEffect'', Some ''plParticleCollisionEffectBeat'', Some
     ''plParticleFadeVolumeEffect'', Some ''plBoundInterface'', Some ''plRenderTarget'', Some
     ''plCubicRenderTarget'', Some ''plCubicRenderTargetModifier'', Some ''plObjInterface'', Some
     ''plAudioInterface'', Some ''plAudible'', Some ''plAudibleNull'', Some ''plWinAudible'', Some
     ''plCoordinateInterface'', Some ''plDrawInterface'', Some ''plDrawable'', Some ''plDrawableMesh'',
     Some ''plDrawableIce'', Some ''plPhysical'', Some ''plPhysicalMesh'', Some
     ''plSimulationInterface'', Some ''plCameraModifier'', Some ''plModifier'', Some
     ''plSingleModifier'', Some ''plSimpleModifier'', Some ''plSimpleTMModifier'', Some
     ''plRandomTMModifier'', Some ''plInterestingModifier'', Some ''plDetectorModifier'', Some
     ''plSimplePhysicalMesh'', Some ''plCompoundPhysicalMesh'', Some ''plMultiModifier'', Some
     ''plSynchedObject'', Some ''plSoundBuffer'', Some ''plAliasModifier'', Some ''plPickingDetector'',
     Some ''plCollisionDetector'', Some ''plLogicModifier'', Some ''plConditionalObject'', Some
     ''plANDConditionalObject'', Some ''plORConditionalObject'', Some ''plPickedConditionalObject'', Some
     ''plActivatorConditionalObject'', Some ''plTimerCallbackManager'', Some
     ''plKeyPressConditionalObject''])"

definition fClassNames2 :: "string option list" where
  "fClassNames2 = (
     [Some ''plAnimationEventConditionalObject'', Some ''plControlEventConditionalObject'', Some
     ''plObjectInBoxConditionalObject'', Some ''plLocalPlayerInBoxConditionalObject'', Some
     ''plObjectIntersectPlaneConditionalObject'', Some ''plLocalPlayerIntersectPlaneConditionalObject'',
     Some ''plPortalDrawable'', Some ''plPortalPhysical'', Some ''plSpawnModifier'', Some
     ''plFacingConditionalObject'', Some ''plGenericPhysical'', Some ''plViewFaceModifier'', Some
     ''plLayerInterface'', Some ''plLayerWrapper'', Some ''plLayerAnimation'', Some ''plLayerDepth'',
     Some ''plLayerMovie'', Some ''plLayerBink'', Some ''plLayerAVI'', Some ''plSound'', Some
     ''plWin32Sound'', Some ''plLayerOr'', Some ''plAudioSystem'', Some ''plDrawableSpans'', Some
     ''plDrawablePatchSet'', Some ''plInputManager'', Some ''plLogicModBase'', Some ''plFogEnvironment'',
     Some ''plNetApp'', Some ''plNetClientMgr'', Some ''pl2WayWinAudible'', Some ''plLightInfo'', Some
     ''plDirectionalLightInfo'', Some ''plOmniLightInfo'', Some ''plSpotLightInfo'', Some
     ''plLightSpace'', Some ''plNetClientApp'', Some ''plNetServerApp'', Some ''plClient'', Some
     ''plCompoundTMModifier'', Some ''plCameraBrain'', Some ''plCameraBrain_Default'', Some
     ''plCameraBrain_Drive'', Some ''plCameraBrain_Fixed'', Some ''plCameraBrain_FixedPan'', Some
     ''pfGUIClickMapCtrl'', Some ''plListener'', Some ''plAvatarMod'', Some ''plAvatarAnim'', Some
     ''plAvatarAnimMgr'', Some ''plOccluder'', Some ''plMobileOccluder''])"

definition fClassNames3 :: "string option list" where
  "fClassNames3 = (
     [Some ''plLayerShadowBase'', Some ''plLimitedDirLightInfo'', Some ''plAGAnim'', Some
     ''plAGModifier'', Some ''plAGMasterMod'', Some ''plCameraBrain_Avatar'', Some
     ''plCameraRegionDetector'', Some ''plCameraBrain_FP'', Some ''plLineFollowMod'', Some
     ''plLightModifier'', Some ''plOmniModifier'', Some ''plSpotModifier'', Some ''plLtdDirModifier'',
     Some ''plSeekPointMod'', Some ''plOneShotMod'', Some ''plRandomCommandMod'', Some
     ''plRandomSoundMod'', Some ''plPostEffectMod'', Some ''plObjectInVolumeDetector'', Some
     ''plResponderModifier'', Some ''plAxisAnimModifier'', Some ''plLayerLightBase'', Some
     ''plFollowMod'', Some ''plTransitionMgr'', Some ''plInventoryMod'', Some ''plInventoryObjMod'', Some
     ''plLinkEffectsMgr'', Some ''plWin32StreamingSound'', Some ''plPythonMod'', Some
     ''plActivatorActivatorConditionalObject'', Some ''plSoftVolume'', Some ''plSoftVolumeSimple'', Some
     ''plSoftVolumeComplex'', Some ''plSoftVolumeUnion'', Some ''plSoftVolumeIntersect'', Some
     ''plSoftVolumeInvert'', Some ''plWin32LinkSound'', Some ''plLayerLinkAnimation'', Some
     ''plArmatureMod'', Some ''plCameraBrain_Freelook'', Some ''plHavokConstraintsMod'', Some
     ''plHingeConstraintMod'', Some ''plWheelConstraintMod'', Some ''plStrongSpringConstraintMod'', Some
     ''plArmatureLODMod'', Some ''plWin32StaticSound'', Some ''pfGameGUIMgr'', Some ''pfGUIDialogMod'',
     Some ''plCameraBrain1'', Some ''plVirtualCam1'', None, Some ''plCameraBrain1_Drive'', Some
     ''plCameraBrain1_POA''])"

definition fClassNames4 :: "string option list" where
  "fClassNames4 = (
     [Some ''plCameraBrain1_Avatar'', Some ''plCameraBrain1_Fixed'', Some ''plCameraBrain1_POAFixed'',
     Some ''pfGUIButtonMod'', Some ''plPythonFileMod'', Some ''pfGUIControlMod'', Some
     ''plExcludeRegionModifier'', Some ''pfGUIDraggableMod'', Some ''plVolumeSensorConditionalObject'',
     Some ''plVolActivatorConditionalObject'', Some ''plMsgForwarder'', Some ''plBlower'', Some
     ''pfGUIListBoxMod'', Some ''pfGUITextBoxMod'', Some ''pfGUIEditBoxMod'', Some ''plDynamicTextMap'',
     Some ''plSittingModifier'', Some ''pfGUIUpDownPairMod'', Some ''pfGUIValueCtrl'', Some
     ''pfGUIKnobCtrl'', Some ''plAvLadderMod'', Some ''plCameraBrain1_FirstPerson'', Some
     ''plCloneSpawnModifier'', Some ''plClothingItem'', Some ''plClothingOutfit'', Some
     ''plClothingBase'', Some ''plClothingMgr'', Some ''pfGUIDragBarCtrl'', Some ''pfGUICheckBoxCtrl'',
     Some ''pfGUIRadioGroupCtrl'', Some ''pfPlayerBookMod'', Some ''pfGUIDynDisplayCtrl'', Some
     ''plLayerProject'', Some ''plInputInterfaceMgr'', Some ''plRailCameraMod'', Some
     ''plMultistageBehMod'', Some ''plCameraBrain1_Circle'', Some ''plParticleWindEffect'', Some
     ''plAnimEventModifier'', Some ''plAutoProfile'', Some ''pfGUISkin'', Some ''plAVIWriter'', Some
     ''plParticleCollisionEffect'', Some ''plParticleCollisionEffectDie'', Some
     ''plParticleCollisionEffectBounce'', Some ''plInterfaceInfoModifier'', Some ''plSharedMesh'', Some
     ''plArmatureEffectsMgr'', Some ''pfMarkerMgr'', Some ''plVehicleModifier''])"

definition fClassNames5 :: "string option list" where
  "fClassNames5 = (
     [Some ''plParticleLocalWind'', Some ''plParticleUniformWind'', Some ''plInstanceDrawInterface'',
     Some ''plShadowMaster'', Some ''plShadowCaster'', Some ''plPointShadowMaster'', Some
     ''plDirectShadowMaster'', Some ''plSDLModifier'', Some ''plPhysicalSDLModifier'', Some
     ''plClothingSDLModifier'', Some ''plAvatarSDLModifier'', Some ''plAGMasterSDLModifier'', Some
     ''plPythonSDLModifier'', Some ''plLayerSDLModifier'', Some ''plAnimTimeConvertSDLModifier'', Some
     ''plResponderSDLModifier'', Some ''plSoundSDLModifier'', Some ''plResManagerHelper'', Some
     ''plHKSubWorld'', Some ''plArmatureEffect'', Some ''plArmatureEffectFootSound'', Some
     ''plEAXListenerMod'', Some ''plDynaDecalMgr'', Some ''plObjectInVolumeAndFacingDetector'', Some
     ''plDynaFootMgr'', Some ''plDynaRippleMgr'', Some ''plDynaBulletMgr'', Some ''plDecalEnableMod'',
     Some ''plPrintShape'', Some ''plDynaPuddleMgr'', Some ''pfGUIMultiLineEditCtrl'', Some
     ''plLayerAnimationBase'', Some ''plLayerSDLAnimation'', Some ''plATCAnim'', Some
     ''plAgeGlobalAnim'', Some ''plSubworldRegionDetector'', Some ''plAvatarMgr'', Some
     ''plNPCSpawnMod'', Some ''plActivePrintShape'', Some ''plExcludeRegionSDLModifier'', Some
     ''plLOSDispatch'', Some ''plDynaWakeMgr'', Some ''plSimulationMgr'', Some ''plWaveSet7'', Some
     ''plPanicLinkRegion'', Some ''plWin32GroupedSound'', Some ''plFilterCoordInterface'', Some
     ''plStereizer'', Some ''plCCRMgr'', Some ''plCCRSpecialist'', Some ''plCCRSeniorSpecialist''])"

definition fClassNames6 :: "string option list" where
  "fClassNames6 = (
     [Some ''plCCRShiftSupervisor'', Some ''plCCRGameOperator'', Some ''plShader'', Some
     ''plDynamicEnvMap'', Some ''plSimpleRegionSensor'', Some ''plMorphSequence'', Some ''plEmoteAnim'',
     Some ''plDynaRippleVSMgr'', Some ''plWaveSet6'', Some ''pfGUIProgressCtrl'', Some
     ''plMaintainersMarkerModifier'', Some ''plMorphSequenceSDLMod'', Some ''plMorphDataSet'', Some
     ''plHardRegion'', Some ''plHardRegionPlanes'', Some ''plHardRegionComplex'', Some
     ''plHardRegionUnion'', Some ''plHardRegionIntersect'', Some ''plHardRegionInvert'', Some
     ''plVisRegion'', Some ''plVisMgr'', Some ''plRegionBase'', Some ''pfGUIPopUpMenu'', Some
     ''pfGUIMenuItem'', Some ''plCoopCoordinator'', Some ''plFont'', Some ''plFontCache'', Some
     ''plRelevanceRegion'', Some ''plRelevanceMgr'', Some ''pfJournalBook'', Some
     ''plLayerTargetContainer'', Some ''plImageLibMod'', Some ''plParticleFlockEffect'', Some
     ''plParticleSDLMod'', Some ''plAgeLoader'', Some ''plWaveSetBase'', Some ''plPhysicalSndGroup'',
     Some ''pfBookData'', Some ''plDynaTorpedoMgr'', Some ''plDynaTorpedoVSMgr'', Some
     ''plClusterGroup'', Some ''plGameMarkerModifier'', Some ''plLODMipmap'', Some ''plSwimDetector'',
     Some ''plFadeOpacityMod'', Some ''plFadeOpacityLay'', Some ''plDistOpacityMod'', Some
     ''plArmatureModBase'', Some ''plSwimRegionInterface'', Some ''plSwimCircularCurrentRegion'', Some
     ''plParticleFollowSystemEffect'', Some ''plSwimStraightCurrentRegion'', Some ''pfObjectFlocker'',
     Some ''plGrassShaderMod''])"

definition fClassNames7 :: "string option list" where
  "fClassNames7 = (
     [Some ''plDynamicCamMap''] @ replicate 3 None @ [Some ''plAutoWalkRegion'', Some ''plCrossfade'',
     Some ''plParticleFadeOutEffect'', Some ''pfSecurePreloader'', Some ''plWindBoneMod'', Some
     ''plCameraBrain_NovicePlus'', Some ''pfSubtitleMgr'', Some ''plPythonFileModConditionalObject'',
     Some ''plLayerTransform'', Some ''plBubbleShaderMod'', Some ''plLineFollowModBase'', Some
     ''plClientApp'', Some ''pfGUICreditsCtrl'', Some ''plCameraBrainUru'', Some ''plVirtualCamera'',
     Some ''plCameraBrainUru_Drive'', Some ''plCameraBrainUru_Follow'', Some ''plCameraBrainUru_Fixed'',
     Some ''pfGUISketchCtrl'', Some ''plLadderModifier'', Some ''plCameraBrainUru_FirstPerson'', Some
     ''plCameraBrainUru_Circle'', Some ''plEAXReverbEffect'', Some ''plSpawnMod'', Some
     ''plCameraBrain_Novice'', Some ''plAvatarPhysicalSDLModifier'', Some ''plDirectMusicSound'', Some
     ''plClientSessionMgr'', Some ''plSDLVarChangeNotifier'', Some ''plInterestWellModifier'', Some
     ''plElevatorModifier'', Some ''plCameraBrain_Expert'', Some ''plPagingRegionModifier'', Some
     ''plGuidepathModifier'', Some ''pfNodeMgr'', Some ''plEAXEffect'', Some ''plEAXPitchShifter'', Some
     ''plIKModifier'', Some ''plCameraBrain_M5'', Some ''plAGAnimBink'', Some ''plTreeShader'', Some
     ''plNodeRegionModifier'', Some ''plPiranhaRegionModifier'', Some
     ''plRidingAnimatedPhysicalDetector''])"

definition fClassNames8 :: "string option list" where
  "fClassNames8 = (
     [Some ''plVolumeSensorConditionalObjectNoArbitration'', Some ''plFXMaterial'', Some
     ''plMovableMod'', Some ''plMaterial'', Some ''plEffect'', Some ''plParticleBulletEffect'', Some
     ''plCameraBrain_Ground'', Some ''plCameraBrain_Flight''] @ replicate 107 None)"

definition fClassNames9 :: "string option list" where
  "fClassNames9 = (
     replicate 36 None @ [Some ''plObjRefMsg'', Some ''plNodeRefMsg'', Some ''plMessage'', Some
     ''plRefMsg'', Some ''plGenRefMsg'', Some ''plTimeMsg'', Some ''plAnimCmdMsg'', Some
     ''plParticleUpdateMsg'', Some ''plLayRefMsg'', Some ''plMatRefMsg'', Some ''plCameraMsg'', Some
     ''plInputEventMsg'', Some ''plKeyEventMsg'', Some ''plMouseEventMsg'', Some ''plEvalMsg'', Some
     ''plTransformMsg'', Some ''plControlEventMsg'', Some ''plVaultCCRNode'', Some ''plLOSRequestMsg'',
     Some ''plLOSHitMsg'', Some ''plSingleModMsg'', Some ''plMultiModMsg'', Some
     ''plAvatarPhysicsEnableCallbackMsg'', Some ''plMemberUpdateMsg'', Some ''plNetMsgPagingRoom'', Some
     ''plActivatorMsg'', Some ''plDispatch'', Some ''plReceiver'', Some ''plMeshRefMsg'', Some
     ''hsGRenderProcs'', Some ''hsSfxAngleFade'', Some ''hsSfxDistFade'', Some ''hsSfxDistShade'', Some
     ''hsSfxGlobalShade'', Some ''hsSfxIntenseAlpha'', Some ''hsSfxObjDistFade'', Some
     ''hsSfxObjDistShade'', Some ''hsDynamicValue''])"

definition fClassNames10 :: "string option list" where
  "fClassNames10 = (
     [Some ''hsDynamicScalar'', Some ''hsDynamicColorRGBA'', Some ''hsDynamicMatrix33'', Some
     ''hsDynamicMatrix44'', Some ''plController'', Some ''plLeafController'', Some ''plScaleController'',
     Some ''plRotController'', Some ''plPosController'', Some ''plScalarController'', Some
     ''plPoint3Controller'', Some ''plScaleValueController'', Some ''plQuatController'', Some
     ''plMatrix33Controller'', Some ''plMatrix44Controller'', Some ''plEaseController'', Some
     ''plSimpleScaleController'', Some ''plSimpleRotController'', Some ''plCompoundRotController'', Some
     ''plSimplePosController'', Some ''plCompoundPosController'', Some ''plTMController'', Some
     ''hsFogControl'', Some ''plIntRefMsg'', Some ''plCollisionReactor'', Some ''plCorrectionMsg'', Some
     ''plPhysicalModifier'', Some ''plPickedMsg'', Some ''plCollideMsg'', Some ''plTriggerMsg'', Some
     ''plInterestingModMsg'', Some ''plDebugKeyEventMsg'', Some ''plPhysicalProperties'', Some
     ''plSimplePhys'', Some ''plMatrixUpdateMsg'', Some ''plCondRefMsg'', Some ''plTimerCallbackMsg'',
     Some ''plEventCallbackMsg'', Some ''plSpawnModMsg'', Some ''plSpawnRequestMsg'', Some
     ''plLoadCloneMsg'', Some ''plEnableMsg'', Some ''plWarpMsg'', Some ''plAttachMsg'', Some
     ''pfConsole'', Some ''plRenderMsg'', Some ''plAnimTimeConvert'', Some ''plSoundMsg'', Some
     ''plInterestingPing'', Some ''plNodeCleanupMsg'', Some ''plSpaceTree'', Some ''plNetMessage'', Some
     ''plNetMsgJoinReq''])"

definition fClassNames11 :: "string option list" where
  "fClassNames11 = (
     [Some ''plNetMsgJoinAck'', Some ''plNetMsgLeave'', Some ''plNetMsgPing'', Some
     ''plNetMsgRoomsList'', Some ''plNetMsgGroupOwner'', Some ''plNetMsgGameStateRequest'', Some
     ''plNetMsgSessionReset'', Some ''plNetMsgOmnibus'', Some ''plNetMsgObject'', Some
     ''plCCRInvisibleMsg'', Some ''plLinkInDoneMsg'', Some ''plNetMsgGameMessage'', Some
     ''plNetMsgStream'', Some ''plAudioSysMsg'', Some ''plDispatchBase'', Some ''plServerReplyMsg'', Some
     ''plDeviceRecreateMsg'', Some ''plNetMsgStreamHelper'', Some ''plNetMsgObjectHelper'', Some
     ''plIMouseXEventMsg'', Some ''plIMouseYEventMsg'', Some ''plIMouseBEventMsg'', Some
     ''plLogicTriggerMsg'', Some ''plPipeline'', Some ''plDX8Pipeline'', Some ''plNetMsgVoice'', Some
     ''plLightRefMsg'', Some ''plNetMsgStreamedObject'', Some ''plNetMsgSharedState'', Some
     ''plNetMsgTestAndSet'', Some ''plNetMsgGetSharedState'', Some ''plSharedStateMsg'', Some
     ''plNetGenericServerTask'', Some ''plNetLookupServerGetAgeInfoFromVaultTask'', Some
     ''plLoadAgeMsg'', Some ''plMessageWithCallbacks'', Some ''plClientMsg'', Some ''plClientRefMsg'',
     Some ''plNetMsgObjStateRequest'', Some ''plCCRPetitionMsg'', Some ''plVaultCCRInitializationTask'',
     Some ''plNetServerMsg'', Some ''plNetServerMsgWithContext'', Some ''plNetServerMsgRegisterServer'',
     Some ''plNetServerMsgUnregisterServer'', Some ''plNetServerMsgStartProcess'', Some
     ''plNetServerMsgRegisterProcess'', Some ''plNetServerMsgUnregisterProcess''])"

definition fClassNames12 :: "string option list" where
  "fClassNames12 = (
     [Some ''plNetServerMsgFindProcess'', Some ''plNetServerMsgProcessFound'', Some
     ''plNetMsgRoutingInfo'', Some ''plNetServerSessionInfo'', Some ''plSimulationMsg'', Some
     ''plSimulationSynchMsg'', Some ''plHKSimulationSynchMsg'', Some ''plAvatarMsg'', Some
     ''plAvTaskMsg'', Some ''plAvSeekMsg'', Some ''plAvOneShotMsg'', Some ''plSatisfiedMsg'', Some
     ''plNetMsgObjectListHelper'', Some ''plNetMsgObjectUpdateFilter'', Some ''plProxyDrawMsg'', Some
     ''plSelfDestructMsg'', Some ''plSimInfluenceMsg'', Some ''plForceMsg'', Some ''plOffsetForceMsg'',
     Some ''plTorqueMsg'', Some ''plImpulseMsg'', Some ''plOffsetImpulseMsg'', Some
     ''plAngularImpulseMsg'', Some ''plDampMsg'', Some ''plShiftMassMsg'', Some ''plSimStateMsg'', Some
     ''plFreezeMsg'', Some ''plEventGroupMsg'', Some ''plSuspendEventMsg'', Some
     ''plNetMsgMembersListReq'', Some ''plNetMsgMembersList'', Some ''plNetMsgMemberInfoHelper'', Some
     ''plNetMsgMemberListHelper'', Some ''plNetMsgMemberUpdate'', Some ''plNetMsgServerToClient'', Some
     ''plNetMsgCreatePlayer'', Some ''plNetMsgAuthenticateHello'', Some
     ''plNetMsgAuthenticateChallenge'', Some ''plConnectedToVaultMsg'', Some ''plCCRCommunicationMsg'',
     Some ''plNetMsgInitialAgeStateSent'', Some ''plInitialAgeStateLoadedMsg'', Some
     ''plNetServerMsgFindServerBase'', Some ''plNetServerMsgFindServerReplyBase'', Some
     ''plNetServerMsgFindAuthServer''])"

definition fClassNames13 :: "string option list" where
  "fClassNames13 = (
     [Some ''plNetServerMsgFindAuthServerReply'', Some ''plNetServerMsgFindVaultServer'', Some
     ''plNetServerMsgFindVaultServerReply'', Some ''plAvTaskSeekDoneMsg'', Some
     ''plAvatarSpawnNotifyMsg'', Some ''plNetServerMsgVaultTask'', Some ''plNetMsgVaultTask'', Some
     ''plAgeLinkStruct'', Some ''plVaultAgeInfoNode'', Some ''plNetMsgStreamableHelper'', Some
     ''plNetMsgReceiversListHelper'', Some ''plNetMsgListenListUpdate'', Some ''plNetServerMsgPing'',
     Some ''plNetMsgAlive'', Some ''plNetMsgTerminated'', Some ''plSDLModifierMsg'', Some
     ''plNetMsgSDLState'', Some ''plNetServerMsgSessionReset'', Some ''plCCRBanLinkingMsg'', Some
     ''plCCRSilencePlayerMsg'', Some ''plRenderRequestMsg'', Some ''plRenderRequestAck'', Some
     ''plNetMember'', Some ''plNetGameMember'', Some ''plNetTransportMember'', Some ''plConvexVolume'',
     Some ''plParticleGenerator'', Some ''plSimpleParticleGenerator'', Some ''plParticleEmitter'', Some
     ''plAGChannel'', Some ''plMatrixChannel'', Some ''plMatrixTimeScale'', Some ''plMatrixBlend'', Some
     ''plMatrixControllerChannel'', Some ''plQuatPointCombine'', Some ''plPointChannel'', Some
     ''plPointConstant'', Some ''plPointBlend'', Some ''plQuatChannel'', Some ''plQuatConstant'', Some
     ''plQuatBlend'', Some ''plLinkToAgeMsg'', Some ''plPlayerPageMsg'', Some ''plCmdIfaceModMsg'', Some
     ''plNetServerMsgPlsUpdatePlayer'', Some ''plListenerMsg'', Some ''plAnimPath''])"

definition fClassNames14 :: "string option list" where
  "fClassNames14 = (
     [Some ''plClothingUpdateBCMsg'', Some ''plNotifyMsg'', Some ''plFakeOutMsg'', Some
     ''plCursorChangeMsg'', Some ''plNodeChangeMsg'', Some ''plAvEnableMsg'', Some ''plLinkCallbackMsg'',
     Some ''plTransitionMsg'', Some ''plConsoleMsg'', Some ''plVolumeIsect'', Some ''plSphereIsect'',
     Some ''plConeIsect'', Some ''plCylinderIsect'', Some ''plParallelIsect'', Some ''plConvexIsect'',
     Some ''plComplexIsect'', Some ''plUnionIsect'', Some ''plIntersectionIsect'', Some ''plModulator'',
     Some ''plInventoryMsg'', Some ''plLinkEffectsTriggerMsg'', Some ''plLinkEffectBCMsg'', Some
     ''plResponderEnableMsg'', Some ''plNetServerMsgHello'', Some ''plNetServerMsgHelloReply'', Some
     ''plNetServerMember'', Some ''plResponderMsg'', Some ''plOneShotMsg'', Some
     ''plVaultAgeInfoListNode'', Some ''plNetServerMsgServerRegistered'', Some ''plPointTimeScale'', Some
     ''plPointControllerChannel'', Some ''plQuatTimeScale'', Some ''plAGApplicator'', Some
     ''plMatrixChannelApplicator'', Some ''plPointChannelApplicator'', Some ''plLightDiffuseApplicator'',
     Some ''plLightAmbientApplicator'', Some ''plLightSpecularApplicator'', Some ''plOmniApplicator'',
     Some ''plQuatChannelApplicator'', Some ''plScalarChannel'', Some ''plScalarTimeScale'', Some
     ''plScalarBlend'', Some ''plScalarControllerChannel'', Some ''plScalarChannelApplicator'', Some
     ''plSpotInnerApplicator'', Some ''plSpotOuterApplicator''])"

definition fClassNames15 :: "string option list" where
  "fClassNames15 = (
     [Some ''plNetServerMsgPlsRoutableMsg'', Some ''plPuppetBrainMsg'', Some ''plATCEaseCurve'', Some
     ''plConstAccelEaseCurve'', Some ''plSplineEaseCurve'', Some ''plVaultAgeInfoInitializationTask'',
     Some ''pfGameGUIMsg'', Some ''plNetServerMsgVaultRequestGameState'', Some
     ''plNetServerMsgVaultGameState'', Some ''plNetServerMsgVaultGameStateSave'', Some
     ''plNetServerMsgVaultGameStateSaved'', Some ''plNetServerMsgVaultGameStateLoad'', Some
     ''plNetClientTask'', Some ''plNetMsgSDLStateBCast'', Some ''plReplaceGeometryMsg'', Some
     ''plNetServerMsgExitProcess'', Some ''plNetServerMsgSaveGameState'', Some ''plDniCoordinateInfo'',
     Some ''plNetMsgGameMessageDirected'', Some ''plLinkOutUnloadMsg'', Some ''plScalarConstant'', Some
     ''plMatrixConstant'', Some ''plAGCmdMsg'', Some ''plParticleTransferMsg'', Some
     ''plParticleKillMsg'', Some ''plExcludeRegionMsg'', Some ''plOneTimeParticleGenerator'', Some
     ''plParticleApplicator'', Some ''plParticleLifeMinApplicator'', Some
     ''plParticleLifeMaxApplicator'', Some ''plParticlePPSApplicator'', Some
     ''plParticleAngleApplicator'', Some ''plParticleVelMinApplicator'', Some
     ''plParticleVelMaxApplicator'', Some ''plParticleScaleMinApplicator'', Some
     ''plParticleScaleMaxApplicator''])"

definition fClassNames16 :: "string option list" where
  "fClassNames16 = (
     [Some ''plDynamicTextMsg'', Some ''plCameraTargetFadeMsg'', Some ''plAgeLoadedMsg'', Some
     ''plPointControllerCacheChannel'', Some ''plScalarControllerCacheChannel'', Some
     ''plLinkEffectsTriggerPrepMsg'', Some ''plLinkEffectPrepBCMsg'', Some ''plAvatarInputStateMsg'',
     Some ''plAgeInfoStruct'', Some ''plSDLNotificationMsg'', Some ''plNetClientConnectAgeVaultTask'',
     Some ''plLinkingMgrMsg'', Some ''plVaultNotifyMsg'', Some ''plPlayerInfo'', Some
     ''plSwapSpansRefMsg'', Some ''pfKI'', Some ''plDISpansMsg'', Some ''plNetMsgCreatableHelper'', Some
     ''plServerGuid'', Some ''plNetMsgRequestMyVaultPlayerList'', Some ''plDelayedTransformMsg'', Some
     ''plSuperVNodeMgrInitTask'', Some ''plElementRefMsg'', Some ''plClothingMsg'', Some
     ''plEventGroupEnableMsg'', Some ''pfGUINotifyMsg'', Some ''plAvBrain'', Some ''plArmatureBrain'',
     Some ''plAvBrainHuman'', Some ''plAvBrainCritter'', Some ''plAvBrainDrive'', Some
     ''plAvBrainSample'', Some ''plAvBrainGeneric'', Some ''plAvBrainPuppet'', Some ''plAvBrainLadder'',
     Some ''plInputIfaceMgrMsg'', Some ''pfKIMsg'', Some ''plRemoteAvatarInfoMsg'', Some
     ''plMatrixDelayedCorrectionApplicator'', Some ''plAvPushBrainMsg'', Some ''plAvPopBrainMsg'', Some
     ''plRoomLoadNotifyMsg'', Some ''plAvTask'', Some ''plAvAnimTask'', Some ''plAvSeekTask'', Some
     ''plAvBlendedSeekTask'', Some ''plAvOneShotTask'', Some ''plAvEnableTask'', Some ''plAvTaskBrain'',
     Some ''plAnimStage'', Some ''plNetClientMember'', Some ''plNetClientCommTask''])"

definition fClassNames17 :: "string option list" where
  "fClassNames17 = (
     [Some ''plNetServerMsgAuthRequest'', Some ''plNetServerMsgAuthReply'', Some
     ''plNetClientCommAuthTask'', Some ''plClientGuid'', Some ''plNetMsgVaultPlayerList'', Some
     ''plNetMsgSetMyActivePlayer'', Some ''plNetServerMsgRequestAccountPlayerList'', Some
     ''plNetServerMsgAccountPlayerList'', Some ''plNetMsgPlayerCreated'', Some
     ''plNetServerMsgVaultCreatePlayer'', Some ''plNetServerMsgVaultPlayerCreated'', Some
     ''plNetMsgFindAge'', Some ''plNetMsgFindAgeReply'', Some ''plNetClientConnectPrepTask'', Some
     ''plNetClientAuthTask'', Some ''plNetClientGetPlayerVaultTask'', Some
     ''plNetClientSetActivePlayerTask'', Some ''plNetClientFindAgeTask'', Some ''plNetClientLeaveTask'',
     Some ''plNetClientJoinTask'', Some ''plNetClientCalibrateTask'', Some ''plNetMsgDeletePlayer'', Some
     ''plNetServerMsgVaultDeletePlayer'', Some ''plNetCoreStatsSummary'', Some
     ''plCreatableGenericValue'', Some ''plCreatableListHelper'', Some ''plCreatableStream'', Some
     ''plAvBrainGenericMsg'', Some ''plAvTaskSeek'', Some ''plAGInstanceCallbackMsg'', Some
     ''plArmatureEffectMsg'', Some ''plArmatureEffectStateMsg'', Some ''plShadowCastMsg'', Some
     ''plBoundsIsect'', Some ''plNetClientCommLeaveTask'', Some ''plResMgrHelperMsg'', Some
     ''plNetMsgAuthenticateResponse'', Some ''plNetMsgAccountAuthenticated'', Some
     ''plNetClientCommSendPeriodicAliveTask''])"

definition fClassNames18 :: "string option list" where
  "fClassNames18 = (
     [Some ''plNetClientCommCheckServerSilenceTask'', Some ''plNetClientCommPingTask'', Some
     ''plNetClientCommFindAgeTask'', Some ''plNetClientCommSetActivePlayerTask'', Some
     ''plNetClientCommGetPlayerListTask'', Some ''plNetClientCommCreatePlayerTask'', Some
     ''plNetClientCommJoinAgeTask'', Some ''plVaultAdminInitializationTask'', Some
     ''plMultistageModMsg'', Some ''plSoundVolumeApplicator'', Some ''plCutter'', Some ''plBulletMsg'',
     Some ''plDynaDecalEnableMsg'', Some ''plOmniCutoffApplicator'', Some ''plArmatureUpdateMsg'', Some
     ''plAvatarFootMsg'', Some ''plNetOwnershipMsg'', Some ''plNetMsgRelevanceRegions'', Some
     ''plParticleFlockMsg'', Some ''plAvatarBehaviorNotifyMsg'', Some ''plATCChannel'', Some
     ''plScalarSDLChannel'', Some ''plLoadAvatarMsg'', Some ''plAvatarSetTypeMsg'', Some
     ''plNetMsgLoadClone'', Some ''plNetMsgPlayerPage'', Some ''plVNodeInitTask'', Some
     ''plRippleShapeMsg'', Some ''plEventManager'', Some ''plVaultNeighborhoodInitializationTask'', Some
     ''plNetServerMsgAgentRecoveryRequest'', Some ''plNetServerMsgFrontendRecoveryRequest'', Some
     ''plNetServerMsgBackendRecoveryRequest'', Some ''plNetServerMsgAgentRecoveryData'', Some
     ''plNetServerMsgFrontendRecoveryData'', Some ''plNetServerMsgBackendRecoveryData'', Some
     ''plSubWorldMsg'', Some ''plMatrixDifferenceApp'', Some ''plAvBrainUser'', Some ''plDX9Pipeline'',
     Some ''plDXPipeline'', Some ''plPlayerMsg'', Some ''plAvBrainPirahna'', Some ''plAxisEventMsg''])"

definition fClassNames19 :: "string option list" where
  "fClassNames19 = (
     [Some ''plCrossfadeMsg'', Some ''pfSubtitleMsg'', Some ''plSDLStoreMsg'', Some
     ''plOmniSqApplicator'', Some ''plPreResourceMsg'', Some ''hsDynamicColorRGBA'', Some
     ''hsDynamicMatrix33'', Some ''hsDynamicMatrix44'', Some ''plCompoundController'', Some
     ''plNetClientMgrMsg'', Some ''plAgeLoaderMsg'', Some ''plAvBrainAvatar'', Some
     ''pfPythonNotifyMsg'', Some ''plNCAgeJoinerMsg'', Some ''plAvTaskDumbSeek'', Some
     ''plAvTaskSmartSeek'', Some ''plCreatableUuid'', Some ''plPreloaderMsg'', Some
     ''plNetCommAuthConnectedMsg'', Some ''plNetCommAuthMsg'', Some ''plNetCommFileListMsg'', Some
     ''plNetCommFileDownloadMsg'', Some ''plNetCommLinkToAgeMsg'', Some ''plNetCommPlayerListMsg'', Some
     ''plNetCommActivePlayerMsg'', Some ''plNetCommCreatePlayerMsg'', Some ''plNetCommDeletePlayerMsg'',
     Some ''plNetCommPublicAgeListMsg'', Some ''plNetCommPublicAgeMsg'', Some
     ''plNetCommRegisterAgeMsg'', Some ''plAnimEvalMsg'', Some ''plAvBrainFlight'', Some
     ''plAvBrainNPC'', Some ''plAvBrainBlimp'', Some ''plAvBrainFlightNPC'', Some
     ''plParticleBulletHitMsg'', Some ''pfPanicLinkMsg'', Some ''plAvTaskOneShot''] @ replicate 24 None)"

definition fClassNames20 :: "string option list" where
  "fClassNames20 = (
     replicate 33 None @ [Some ''plVaultGameServerInitializationTask'', Some
     ''plNetClientFindDefaultAgeTask'', Some ''plVaultAgeNode'', Some ''plVaultAgeInitializationTask'',
     Some ''plSetListenerMsg'', Some ''plVaultSystemNode'', Some ''plAvBrainSwim'', Some
     ''plNetMsgVault'', Some ''plNetServerMsgVault'', Some ''plVaultTask'', Some ''plVaultConnectTask'',
     Some ''plVaultNegotiateManifestTask'', Some ''plVaultFetchNodesTask'', Some ''plVaultSaveNodeTask'',
     Some ''plVaultFindNodeTask'', Some ''plVaultAddNodeRefTask'', Some ''plVaultRemoveNodeRefTask'',
     Some ''plVaultSendNodeTask'', Some ''plVaultNotifyOperationCallbackTask'', Some
     ''plVNodeMgrInitializationTask'', Some ''plVaultPlayerInitializationTask'', Some
     ''plNetVaultServerInitializationTask'', Some ''plCommonNeighborhoodsInitTask'', Some
     ''plVaultNodeRef'', Some ''plVaultNode'', Some ''plVaultFolderNode'', Some ''plVaultImageNode'',
     Some ''plVaultTextNoteNode''])"

definition fClassNames21 :: "string option list" where
  "fClassNames21 = (
     [Some ''plVaultSDLNode'', Some ''plVaultAgeLinkNode'', Some ''plVaultChronicleNode'', Some
     ''plVaultPlayerInfoNode'', Some ''plVaultMgrNode'', Some ''plVaultPlayerNode'', Some
     ''plSynchEnableMsg'', Some ''plNetVaultServerNode'', Some ''plVaultAdminNode'', Some
     ''plVaultGameServerNode'', Some ''plVaultPlayerInfoListNode'', Some ''plAvatarStealthModeMsg'', Some
     ''plEventCallbackInterceptMsg'', Some ''plDynamicEnvMapMsg'', Some ''plClimbMsg'', Some
     ''plIfaceFadeAvatarMsg'', Some ''plAvBrainClimb'', Some ''plSharedMeshBCMsg'', Some
     ''plNetVoiceListMsg'', Some ''plSwimMsg'', Some ''plMorphDelta'', Some
     ''plMatrixControllerCacheChannel'', Some ''plVaultMarkerNode'', Some ''pfMarkerMsg'', Some
     ''plPipeResMakeMsg'', Some ''plPipeRTMakeMsg'', Some ''plPipeGeoMakeMsg'', Some ''plAvCoopMsg'',
     Some ''plAvBrainCoop'', Some ''plSimSuppressMsg'', Some ''plVaultMarkerListNode'', Some
     ''plAvTaskOrient'', Some ''plAgeBeginLoadingMsg'', Some ''plSetNetGroupIDMsg'', Some
     ''pfBackdoorMsg'', Some ''plNetMsgPython'', Some ''pfPythonMsg'', Some ''plStateDataRecord'', Some
     ''plNetClientCommDeletePlayerTask'', Some ''plNetMsgSetTimeout'', Some ''plNetMsgActivePlayerSet'',
     Some ''plNetClientCommSetTimeoutTask'', Some ''plNetRoutableMsgOmnibus'', Some
     ''plNetMsgGetPublicAgeList'', Some ''plNetMsgPublicAgeList'', Some ''plNetMsgCreatePublicAge''])"

definition fClassNames22 :: "string option list" where
  "fClassNames22 = (
     [Some ''plNetMsgPublicAgeCreated'', Some ''plNetServerMsgEnvelope'', Some
     ''plNetClientCommGetPublicAgeListTask'', Some ''plNetClientCommCreatePublicAgeTask'', Some
     ''plNetServerMsgPendingMsgs'', Some ''plNetServerMsgRequestPendingMsgs'', Some ''plDbInterface'',
     Some ''plDbProxyInterface'', Some ''plDBGenericSQLDB'', Some ''plMySqlDB'', Some
     ''plNetGenericDatabase'', Some ''plNetVaultDatabase'', Some ''plNetServerMsgPlsUpdatePlayerReply'',
     Some ''plVaultDisconnectTask'', Some ''plNetClientCommSetAgePublicTask'', Some
     ''plNetClientCommRegisterOwnedAge'', Some ''plNetClientCommUnregisterOwnerAge'', Some
     ''plNetClientCommRegisterVisitAge'', Some ''plNetClientCommUnregisterVisitAge'', Some
     ''plNetMsgRemovePublicAge'', Some ''plNetMsgPublicAgeRemoved'', Some
     ''plNetClientCommRemovePublicAgeTask'', Some ''plCCRMessage'', Some ''plAvOneShotLinkTask'', Some
     ''plNetAuthDatabase'', Some ''plAvatarOpacityCallbackMsg'', Some ''plAGDetachCallbackMsg'', Some
     ''pfMovieEventMsg'', Some ''plMovieMsg'', Some ''plPipeTexMakeMsg'', Some ''plEventLog'', Some
     ''plDbEventLog'', Some ''plSyslogEventLog'', Some ''plCaptureRenderMsg'', Some ''plAgeLoaded2Msg'',
     Some ''plPseudoLinkEffectMsg'', Some ''plPseudoLinkAnimTriggerMsg'', Some
     ''plPseudoLinkAnimCallbackMsg'', Some ''pfClimbingWallMsg'', Some ''plClimbEventMsg''])"

definition fClassNames23 :: "string option list" where
  "fClassNames23 = (
     [Some ''plAvBrainQuab'', Some ''plSDLGameTimeElapsedVar'', Some ''plLinkEffectsDoneMsg'', Some
     ''plSDLVar'', Some ''plSDLStructVar'', Some ''plSDLBoolVar'', Some ''plSDLCharVar'', Some
     ''plSDLByteVar'', Some ''plSDLIntVar'', Some ''plSDLUIntVar'', Some ''plSDLFloatVar'', Some
     ''plSDLDoubleVar'', Some ''plSDLStringVar'', Some ''plSDLTimeVar'', Some ''plSDLUoidVar'', Some
     ''plSDLVector3Var'', Some ''plSDLPoint3Var'', Some ''plSDLQuaternionVar'', Some
     ''plSDLMatrix44Var'', Some ''plSDLRGBAVar'', Some ''plSDLAgeTimeOfDayVar'', Some
     ''plSDLAgeTimeElapsedVar'', Some ''plSDLMetaDoubleVar'', Some ''plSDLFixedArrayStructVar'', Some
     ''plSDLFixedArrayBoolVar'', Some ''plSDLFixedArrayCharVar'', Some ''plSDLFixedArrayByteVar'', Some
     ''plSDLFixedArrayIntVar'', Some ''plSDLFixedArrayUIntVar'', Some ''plSDLFixedArrayFloatVar'', Some
     ''plSDLFixedArrayDoubleVar'', Some ''plSDLFixedArrayStringVar'', Some ''plSDLFixedArrayTimeVar'',
     Some ''plSDLFixedArrayUoidVar'', Some ''plSDLFixedArrayVector3Var'', Some
     ''plSDLFixedArrayPoint3Var'', Some ''plSDLFixedArrayQuaternionVar'', Some
     ''plSDLFixedArrayMatrix44Var'', Some ''plSDLFixedArrayRGBAVar'', Some ''plSDLDynArrayStructVar'',
     Some ''plSDLDynArrayBoolVar'', Some ''plSDLDynArrayCharVar'', Some ''plSDLDynArrayByteVar'', Some
     ''plSDLDynArrayIntVar'', Some ''plSDLDynArrayUIntVar'', Some ''plSDLDynArrayFloatVar'', Some
     ''plSDLDynArrayDoubleVar''])"

definition fClassNames24 :: "string option list" where
  "fClassNames24 = (
     [Some ''plSDLDynArrayStringVar'', Some ''plSDLDynArrayTimeVar'', Some ''plSDLDynArrayUoidVar'', Some
     ''plSDLDynArrayVector3Var'', Some ''plSDLDynArrayPoint3Var'', Some ''plSDLDynArrayQuaternionVar'',
     Some ''plSDLDynArrayMatrix44Var'', Some ''plSDLDynArrayRGBAVar'', Some ''plSDLArrayVar'', Some
     ''plSDLVarChangeMsg'', Some ''plAvBrainPath'', Some ''plSDLBufferVar'', Some
     ''plSDLFixedArrayBufferVar'', Some ''plSDLDynArrayBufferVar'', Some ''plMatrixBorrowedChannel'',
     Some ''plNodeRegionMsg'', Some ''plEventCallbackSetupMsg'', Some
     ''plRelativeMatrixChannelApplicator'', Some ''plPiranhaRegionMsg'', Some ''pfGameMgrMsg'', Some
     ''pfGameCliMsg'', Some ''pfGameCli'', Some ''pfGmTicTacToe'', Some ''pfGmHeek'', Some
     ''pfGmMarker'', Some ''pfGmBlueSpiral'', Some ''plAccountUpdateMsg'', Some ''plAIMsg'', Some
     ''plAIBrainCreatedMsg'', Some ''pfGmClimbingWall'', Some ''plAIArrivedAtGoalMsg'', Some
     ''pfGmVarSync'', Some ''plLinearVelocityMsg'', Some ''plAngularVelocityMsg'', Some
     ''plRideAnimatedPhysMsg'', Some ''plAvBrainRideAnimatedPhysical''] @ replicate 26 None)"

definition fClassNames :: "string option list" where
  "fClassNames = fClassNames1 @ fClassNames2 @ fClassNames3 @ fClassNames4 @ fClassNames5 @ fClassNames6 @ fClassNames7 @ fClassNames8 @ fClassNames9 @ fClassNames10 @ fClassNames11 @ fClassNames12 @ fClassNames13 @ fClassNames14 @ fClassNames15 @ fClassNames16 @ fClassNames17 @ fClassNames18 @ fClassNames19 @ fClassNames20 @ fClassNames21 @ fClassNames22 @ fClassNames23 @ fClassNames24"

section \<open>Operations\<close>

definition ClassName :: "int \<Rightarrow> string option" where
  "ClassName typeIdx = (if typeIdx < 0 \<or> typeIdx \<ge> TYPESPACE_MAX then None else fClassNames ! nat typeIdx)"

definition ClassName_ver :: "int \<Rightarrow> plasma_ver \<Rightarrow> string option result" where
  "ClassName_ver typeIdx ver =
     (if \<not> isValid ver then Inl BadVersionException
      else Inr (ClassName (PlasmaToMapped typeIdx ver)))"

fun index_loop :: "string \<Rightarrow> int \<Rightarrow> string option list \<Rightarrow> int" where
  "index_loop typeName i [] = -1"
| "index_loop typeName i (n # rest) = (if n = Some typeName then i else index_loop typeName (i + 1) rest)"

definition ClassIndex :: "string \<Rightarrow> int" where
  "ClassIndex typeName = index_loop typeName 0 fClassNames"

section \<open>Where the parts stand\<close>

lemma lengths [simp]:
  "length fClassNames1 = 53"
  "length fClassNames2 = 52"
  "length fClassNames3 = 53"
  "length fClassNames4 = 50"
  "length fClassNames5 = 51"
  "length fClassNames6 = 54"
  "length fClassNames7 = 48"
  "length fClassNames8 = 115"
  "length fClassNames9 = 74"
  "length fClassNames10 = 53"
  "length fClassNames11 = 48"
  "length fClassNames12 = 45"
  "length fClassNames13 = 47"
  "length fClassNames14 = 48"
  "length fClassNames15 = 36"
  "length fClassNames16 = 52"
  "length fClassNames17 = 39"
  "length fClassNames18 = 44"
  "length fClassNames19 = 62"
  "length fClassNames20 = 61"
  "length fClassNames21 = 46"
  "length fClassNames22 = 40"
  "length fClassNames23 = 47"
  "length fClassNames24 = 62"
  by (simp_all add: fClassNames1_def fClassNames2_def fClassNames3_def fClassNames4_def fClassNames5_def
    fClassNames6_def fClassNames7_def fClassNames8_def fClassNames9_def fClassNames10_def
    fClassNames11_def fClassNames12_def fClassNames13_def fClassNames14_def fClassNames15_def
    fClassNames16_def fClassNames17_def fClassNames18_def fClassNames19_def fClassNames20_def
    fClassNames21_def fClassNames22_def fClassNames23_def fClassNames24_def)

lemma length_fClassNames: "length fClassNames = 1280"
  by (simp add: fClassNames_def)

section \<open>Names and indices\<close>

lemma index_loop_sound:
  "index_loop n i tab = j \<Longrightarrow> j = -1 \<or> (i \<le> j \<and> j < i + int (length tab) \<and> tab ! nat (j - i) = Some n)"
proof (induction tab arbitrary: i)
  case (Cons m tab)
  show ?case
  proof (cases "m = Some n")
    case False
    with Cons have "j = -1 \<or> (i + 1 \<le> j \<and> j < i + 1 + int (length tab) \<and> tab ! nat (j - (i + 1)) = Some n)" by simp
    then show ?thesis
    proof (elim disjE)
      assume j: "i + 1 \<le> j \<and> j < i + 1 + int (length tab) \<and> tab ! nat (j - (i + 1)) = Some n"
      then have "i + 1 \<le> j" by simp
      then have "nat (j - i) = Suc (nat (j - (i + 1)))" by arith
      with j show ?thesis by simp
    qed simp
  qed (use Cons.prems in simp)
qed simp

lemma index_loop_complete:
  "k < length tab \<Longrightarrow> tab ! k = Some n \<Longrightarrow> 0 \<le> i \<Longrightarrow> i \<le> index_loop n i tab \<and> index_loop n i tab \<le> i + int k"
proof (induction tab arbitrary: i k)
  case (Cons m tab)
  show ?case
  proof (cases "m = Some n")
    case False
    with Cons.prems obtain k' where k: "k = Suc k'" "k' < length tab" "tab ! k' = Some n" by (cases k) auto
    from Cons.IH [OF k(2,3), of "i + 1"] Cons.prems(3) False k(1) show ?thesis by simp
  qed simp
qed simp

lemma ClassIndex_sound: "ClassIndex n = i \<Longrightarrow> i = -1 \<or> (0 \<le> i \<and> ClassName i = Some n)"
  using index_loop_sound [of n 0 fClassNames i]
  by (auto simp: ClassIndex_def ClassName_def length_fClassNames TYPESPACE_MAX_def)

lemma ClassName_range: "ClassName i = Some n \<Longrightarrow> 0 \<le> i \<and> i < 1280"
  by (simp add: ClassName_def TYPESPACE_MAX_def split: if_splits)

lemma ClassIndex_complete: "ClassName i = Some n \<Longrightarrow> 0 \<le> ClassIndex n \<and> ClassIndex n \<le> i"
  using index_loop_complete [of "nat i" fClassNames n 0] ClassName_range [of i n]
  by (auto simp: ClassIndex_def ClassName_def length_fClassNames TYPESPACE_MAX_def split: if_splits)

lemma ClassName_ClassIndex: "ClassName i = Some n \<Longrightarrow> ClassName (ClassIndex n) = Some n"
  using ClassIndex_sound [OF refl, of n] ClassIndex_complete [of i n] by simp

end
