(* ===== verification/ClassFactory.thy ===== *)
theory ClassFactory
  imports ClassNames ClassIds
begin

text \<open>
  The class factory (\<open>src/core/ResManager/plFactory.cpp\<close>).  An object it makes is named by the class
  whose constructor is called; the function an application may install with \<open>SetOverride\<close> is a
  parameter that answers in the same way.  The \<open>switch\<close> is a list of its cases, cut where the
  parts of the table of names end.
\<close>

section \<open>The switch\<close>

datatype action = New string | Abstract | NotImpl

definition switch1 :: "(int \<times> action) list" where
  "switch1 = [
     (kSceneNode, New ''plSceneNode''),
     (kSceneObject, New ''plSceneObject''),
     (kKeyedObject, Abstract),
     (kBitmap, New ''plBitmap''),
     (kMipmap, New ''plMipmap''),
     (kCubicEnvironmap, New ''plCubicEnvironmap''),
     (kLayer, New ''plLayer''),
     (kGMaterial, New ''hsGMaterial''),
     (kParticleSystem, New ''plParticleSystem''),
     (kParticleEffect, New ''plParticleEffect''),
     (kParticleCollisionEffectBeat, New ''plParticleCollisionEffectBeat''),
     (kParticleFadeVolumeEffect, New ''plParticleFadeVolumeEffect''),
     (kBoundInterface, New ''plBoundInterface''),
     (kRenderTarget, New ''plRenderTarget''),
     (kCubicRenderTarget, New ''plCubicRenderTarget''),
     (kObjInterface, New ''plObjInterface''),
     (kAudioInterface, New ''plAudioInterface''),
     (kAudible, New ''plAudible''),
     (kAudibleNull, New ''plAudibleNull''),
     (kWinAudible, New ''plWinAudible''),
     (kCoordinateInterface, New ''plCoordinateInterface''),
     (kDrawInterface, New ''plDrawInterface''),
     (kDrawable, Abstract),
     (kPhysical, Abstract),
     (kSimulationInterface, New ''plSimulationInterface''),
     (kCameraModifier, New ''plCameraModifier''),
     (kModifier, Abstract),
     (kSingleModifier, Abstract),
     (kDetectorModifier, New ''plDetectorModifier''),
     (kMultiModifier, Abstract),
     (kSynchedObject, Abstract),
     (kSoundBuffer, New ''plSoundBuffer''),
     (kAliasModifier, New ''plAliasModifier''),
     (kPickingDetector, New ''plPickingDetector''),
     (kCollisionDetector, New ''plCollisionDetector''),
     (kLogicModifier, New ''plLogicModifier''),
     (kConditionalObject, New ''plConditionalObject''),
     (kANDConditionalObject, New ''plANDConditionalObject''),
     (kORConditionalObject, New ''plORConditionalObject''),
     (kPickedConditionalObject, New ''plPickedConditionalObject''),
     (kActivatorConditionalObject, New ''plActivatorConditionalObject''),
     (kKeyPressConditionalObject, New ''plKeyPressConditionalObject'')]"

definition switch2 :: "(int \<times> action) list" where
  "switch2 = [
     (kAnimationEventConditionalObject, New ''plAnimationEventConditionalObject''),
     (kControlEventConditionalObject, New ''plControlEventConditionalObject''),
     (kObjectInBoxConditionalObject, New ''plObjectInBoxConditionalObject''),
     (kLocalPlayerInBoxConditionalObject, New ''plLocalPlayerInBoxConditionalObject''),
     (kObjectIntersectPlaneConditionalObject, New ''plObjectIntersectPlaneConditionalObject''),
     (kLocalPlayerIntersectPlaneConditionalObject, New ''plLocalPlayerIntersectPlaneConditionalObject''),
     (kSpawnModifier, New ''plSpawnModifier''),
     (kFacingConditionalObject, New ''plFacingConditionalObject''),
     (kGenericPhysical, New ''plGenericPhysical''),
     (kViewFaceModifier, New ''plViewFaceModifier''),
     (kLayerInterface, New ''plLayerInterface''),
     (kLayerAnimation, New ''plLayerAnimation''),
     (kLayerDepth, New ''plLayerDepth''),
     (kLayerMovie, New ''plLayerMovie''),
     (kLayerBink, New ''plLayerBink''),
     (kLayerAVI, New ''plLayerAVI''),
     (kSound, New ''plSound''),
     (kWin32Sound, New ''plWin32Sound''),
     (kDrawableSpans, New ''plDrawableSpans''),
     (kLogicModBase, New ''plLogicModBase''),
     (kFogEnvironment, New ''plFogEnvironment''),
     (k2WayWinAudible, New ''pl2WayWinAudible''),
     (kLightInfo, New ''plLightInfo''),
     (kDirectionalLightInfo, New ''plDirectionalLightInfo''),
     (kOmniLightInfo, New ''plOmniLightInfo''),
     (kSpotLightInfo, New ''plSpotLightInfo''),
     (kCameraBrain, Abstract),
     (kCameraBrain_Default, NotImpl),
     (kCameraBrain_Drive, NotImpl),
     (kCameraBrain_Fixed, NotImpl),
     (kCameraBrain_FixedPan, NotImpl),
     (kGUIClickMapCtrl, New ''pfGUIClickMapCtrl''),
     (kOccluder, New ''plOccluder''),
     (kMobileOccluder, New ''plMobileOccluder'')]"

definition switch3 :: "(int \<times> action) list" where
  "switch3 = [
     (kLimitedDirLightInfo, New ''plLimitedDirLightInfo''),
     (kAGAnim, New ''plAGAnim''),
     (kAGModifier, New ''plAGModifier''),
     (kAGMasterMod, New ''plAGMasterMod''),
     (kCameraBrain_Avatar, NotImpl),
     (kCameraRegionDetector, New ''plCameraRegionDetector''),
     (kCameraBrain_FP, NotImpl),
     (kLineFollowMod, New ''plLineFollowMod''),
     (kSeekPointMod, New ''plSeekPointMod''),
     (kOneShotMod, New ''plOneShotMod''),
     (kRandomCommandMod, New ''plRandomCommandMod''),
     (kRandomSoundMod, New ''plRandomSoundMod''),
     (kPostEffectMod, New ''plPostEffectMod''),
     (kObjectInVolumeDetector, New ''plObjectInVolumeDetector''),
     (kResponderModifier, New ''plResponderModifier''),
     (kAxisAnimModifier, New ''plAxisAnimModifier''),
     (kFollowMod, New ''plFollowMod''),
     (kWin32StreamingSound, New ''plWin32StreamingSound''),
     (kPythonMod, New ''plPythonMod''),
     (kActivatorActivatorConditionalObject, New ''plActivatorActivatorConditionalObject''),
     (kSoftVolume, New ''plSoftVolume''),
     (kSoftVolumeSimple, New ''plSoftVolumeSimple''),
     (kSoftVolumeComplex, New ''plSoftVolumeComplex''),
     (kSoftVolumeUnion, New ''plSoftVolumeUnion''),
     (kSoftVolumeIntersect, New ''plSoftVolumeIntersect''),
     (kSoftVolumeInvert, New ''plSoftVolumeInvert''),
     (kWin32LinkSound, New ''plWin32LinkSound''),
     (kLayerLinkAnimation, New ''plLayerLinkAnimation''),
     (kArmatureMod, New ''plArmatureMod''),
     (kCameraBrain_Freelook, NotImpl),
     (kArmatureLODMod, New ''plArmatureLODMod''),
     (kWin32StaticSound, New ''plWin32StaticSound''),
     (kGUIDialogMod, New ''pfGUIDialogMod''),
     (kCameraBrain1, New ''plCameraBrain1''),
     (kCameraBrain1_Drive, New ''plCameraBrain1_Drive''),
     (kCameraBrain1_POA, NotImpl)]"

definition switch4 :: "(int \<times> action) list" where
  "switch4 = [
     (kCameraBrain1_Avatar, New ''plCameraBrain1_Avatar''),
     (kCameraBrain1_Fixed, New ''plCameraBrain1_Fixed''),
     (kCameraBrain1_POAFixed, NotImpl),
     (kGUIButtonMod, New ''pfGUIButtonMod''),
     (kPythonFileMod, New ''plPythonFileMod''),
     (kGUIControlMod, Abstract),
     (kExcludeRegionModifier, New ''plExcludeRegionModifier''),
     (kGUIDraggableMod, New ''pfGUIDraggableMod''),
     (kVolumeSensorConditionalObject, New ''plVolumeSensorConditionalObject''),
     (kVolActivatorConditionalObject, New ''plVolActivatorConditionalObject''),
     (kMsgForwarder, New ''plMsgForwarder''),
     (kBlower, New ''plBlower''),
     (kGUIListBoxMod, New ''pfGUIListBoxMod''),
     (kGUITextBoxMod, New ''pfGUITextBoxMod''),
     (kGUIEditBoxMod, New ''pfGUIEditBoxMod''),
     (kDynamicTextMap, New ''plDynamicTextMap''),
     (kSittingModifier, New ''plSittingModifier''),
     (kGUIUpDownPairMod, New ''pfGUIUpDownPairMod''),
     (kGUIValueCtrl, Abstract),
     (kGUIKnobCtrl, New ''pfGUIKnobCtrl''),
     (kAvLadderMod, New ''plAvLadderMod''),
     (kCameraBrain1_FirstPerson, New ''plCameraBrain1_FirstPerson''),
     (kClothingItem, New ''plClothingItem''),
     (kClothingOutfit, New ''plClothingOutfit''),
     (kClothingBase, New ''plClothingBase''),
     (kGUIDragBarCtrl, New ''pfGUIDragBarCtrl''),
     (kGUICheckBoxCtrl, New ''pfGUICheckBoxCtrl''),
     (kGUIRadioGroupCtrl, New ''pfGUIRadioGroupCtrl''),
     (kGUIDynDisplayCtrl, New ''pfGUIDynDisplayCtrl''),
     (kRailCameraMod, New ''plRailCameraMod''),
     (kMultistageBehMod, New ''plMultistageBehMod''),
     (kCameraBrain1_Circle, New ''plCameraBrain1_Circle''),
     (kParticleWindEffect, New ''plParticleWindEffect''),
     (kAnimEventModifier, New ''plAnimEventModifier''),
     (kGUISkin, New ''pfGUISkin''),
     (kParticleCollisionEffect, New ''plParticleCollisionEffect''),
     (kParticleCollisionEffectDie, New ''plParticleCollisionEffectDie''),
     (kParticleCollisionEffectBounce, New ''plParticleCollisionEffectBounce''),
     (kInterfaceInfoModifier, New ''plInterfaceInfoModifier''),
     (kSharedMesh, New ''plSharedMesh''),
     (kArmatureEffectsMgr, New ''plArmatureEffectsMgr''),
     (kVehicleModifier, New ''plVehicleModifier'')]"

definition switch5 :: "(int \<times> action) list" where
  "switch5 = [
     (kParticleLocalWind, New ''plParticleLocalWind''),
     (kParticleUniformWind, New ''plParticleUniformWind''),
     (kInstanceDrawInterface, New ''plInstanceDrawInterface''),
     (kShadowMaster, New ''plShadowMaster''),
     (kShadowCaster, New ''plShadowCaster''),
     (kPointShadowMaster, New ''plPointShadowMaster''),
     (kDirectShadowMaster, New ''plDirectShadowMaster''),
     (kHKSubWorld, New ''plHKSubWorld''),
     (kArmatureEffect, Abstract),
     (kArmatureEffectFootSound, New ''plArmatureEffectFootSound''),
     (kEAXListenerMod, New ''plEAXListenerMod''),
     (kDynaDecalMgr, New ''plDynaDecalMgr''),
     (kObjectInVolumeAndFacingDetector, New ''plObjectInVolumeAndFacingDetector''),
     (kDynaFootMgr, New ''plDynaFootMgr''),
     (kDynaRippleMgr, New ''plDynaRippleMgr''),
     (kDynaBulletMgr, New ''plDynaBulletMgr''),
     (kPrintShape, New ''plPrintShape''),
     (kDynaPuddleMgr, New ''plDynaPuddleMgr''),
     (kGUIMultiLineEditCtrl, New ''pfGUIMultiLineEditCtrl''),
     (kLayerAnimationBase, Abstract),
     (kLayerSDLAnimation, New ''plLayerSDLAnimation''),
     (kATCAnim, New ''plATCAnim''),
     (kAgeGlobalAnim, New ''plAgeGlobalAnim''),
     (kSubworldRegionDetector, New ''plSubworldRegionDetector''),
     (kNPCSpawnMod, New ''plNPCSpawnMod''),
     (kActivePrintShape, New ''plActivePrintShape''),
     (kDynaWakeMgr, New ''plDynaWakeMgr''),
     (kWaveSet7, New ''plWaveSet7''),
     (kPanicLinkRegion, New ''plPanicLinkRegion''),
     (kWin32GroupedSound, New ''plWin32GroupedSound''),
     (kFilterCoordInterface, New ''plFilterCoordInterface''),
     (kStereizer, New ''plStereizer'')]"

definition switch6 :: "(int \<times> action) list" where
  "switch6 = [
     (kShader, New ''plShader''),
     (kDynamicEnvMap, New ''plDynamicEnvMap''),
     (kSimpleRegionSensor, New ''plSimpleRegionSensor''),
     (kMorphSequence, New ''plMorphSequence''),
     (kEmoteAnim, New ''plEmoteAnim''),
     (kDynaRippleVSMgr, New ''plDynaRippleVSMgr''),
     (kWaveSet6, New ''plWaveSet6''),
     (kGUIProgressCtrl, New ''pfGUIProgressCtrl''),
     (kMaintainersMarkerModifier, New ''plMaintainersMarkerModifier''),
     (kMorphDataSet, New ''plMorphDataSet''),
     (kHardRegion, New ''plHardRegion''),
     (kHardRegionPlanes, New ''plHardRegionPlanes''),
     (kHardRegionComplex, New ''plHardRegionComplex''),
     (kHardRegionUnion, New ''plHardRegionUnion''),
     (kHardRegionIntersect, New ''plHardRegionIntersect''),
     (kHardRegionInvert, New ''plHardRegionInvert''),
     (kVisRegion, New ''plVisRegion''),
     (kRegionBase, Abstract),
     (kGUIPopUpMenu, New ''pfGUIPopUpMenu''),
     (kGUIMenuItem, New ''pfGUIMenuItem''),
     (kFont, New ''plFont''),
     (kRelevanceRegion, New ''plRelevanceRegion''),
     (kImageLibMod, New ''plImageLibMod''),
     (kParticleFlockEffect, New ''plParticleFlockEffect''),
     (kWaveSetBase, Abstract),
     (kPhysicalSndGroup, New ''plPhysicalSndGroup''),
     (kDynaTorpedoMgr, New ''plDynaTorpedoMgr''),
     (kDynaTorpedoVSMgr, New ''plDynaTorpedoVSMgr''),
     (kClusterGroup, New ''plClusterGroup''),
     (kGameMarkerModifier, New ''plGameMarkerModifier''),
     (kLODMipmap, New ''plLODMipmap''),
     (kSwimDetector, New ''plSwimDetector''),
     (kFadeOpacityMod, New ''plFadeOpacityMod''),
     (kDistOpacityMod, New ''plDistOpacityMod''),
     (kArmatureModBase, Abstract),
     (kSwimRegionInterface, New ''plSwimRegionInterface''),
     (kSwimCircularCurrentRegion, New ''plSwimCircularCurrentRegion''),
     (kParticleFollowSystemEffect, New ''plParticleFollowSystemEffect''),
     (kSwimStraightCurrentRegion, New ''plSwimStraightCurrentRegion''),
     (kObjectFlocker, New ''pfObjectFlocker''),
     (kGrassShaderMod, New ''plGrassShaderMod'')]"

definition switch7 :: "(int \<times> action) list" where
  "switch7 = [
     (kDynamicCamMap, New ''plDynamicCamMap''),
     (kAutoWalkRegion, New ''plAutoWalkRegion''),
     (kCrossfade, New ''plCrossfade''),
     (kParticleFadeOutEffect, New ''plParticleFadeOutEffect''),
     (kWindBoneMod, New ''plWindBoneMod''),
     (kCameraBrain_NovicePlus, New ''plCameraBrain_NovicePlus''),
     (kPythonFileModConditionalObject, New ''plPythonFileModConditionalObject''),
     (kCameraBrainUru, New ''plCameraBrain1''),
     (kCameraBrainUru_Drive, New ''plCameraBrain1_Drive''),
     (kCameraBrainUru_Follow, New ''plCameraBrain1_Avatar''),
     (kCameraBrainUru_Fixed, New ''plCameraBrain1_Fixed''),
     (kLadderModifier, New ''plLadderModifier''),
     (kCameraBrainUru_FirstPerson, New ''plCameraBrain1_FirstPerson''),
     (kCameraBrainUru_Circle, New ''plCameraBrain1_Circle''),
     (kEAXReverbEffect, New ''plEAXReverbEffect''),
     (kSpawnMod, New ''plSpawnMod''),
     (kCameraBrain_Novice, New ''plCameraBrain_Novice''),
     (kDirectMusicSound, New ''plDirectMusicSound''),
     (kElevatorModifier, New ''plElevatorModifier''),
     (kCameraBrain_Expert, New ''plCameraBrain_Expert''),
     (kEAXEffect, New ''plEAXEffect''),
     (kCameraBrain_M5, New ''plCameraBrain_M5''),
     (kAGAnimBink, New ''plAGAnimBink''),
     (kNodeRegionModifier, New ''plNodeRegionModifier''),
     (kRidingAnimatedPhysicalDetector, New ''plRidingAnimatedPhysicalDetector'')]"

definition switch8 :: "(int \<times> action) list" where
  "switch8 = [
     (kVolumeSensorConditionalObjectNoArbitration, New ''plVolumeSensorConditionalObjectNoArbitration''),
     (kCameraBrain_Ground, New ''plCameraBrain_Ground''),
     (kCameraBrain_Flight, New ''plCameraBrain_Flight'')]"

definition switch9 :: "(int \<times> action) list" where
  "switch9 = [
     (kMessage, Abstract),
     (kAnimCmdMsg, New ''plAnimCmdMsg''),
     (kCameraMsg, New ''plCameraMsg''),
     (kNetMsgPagingRoom, New ''plNetMsgPagingRoom''),
     (kReceiver, Abstract)]"

definition switch10 :: "(int \<times> action) list" where
  "switch10 = [
     (kController, Abstract),
     (kLeafController, New ''plLeafController''),
     (kScaleController, Abstract),
     (kRotController, Abstract),
     (kPosController, Abstract),
     (kScalarController, New ''plScalarController''),
     (kPoint3Controller, New ''plPoint3Controller''),
     (kScaleValueController, New ''plScaleValueController''),
     (kQuatController, New ''plQuatController''),
     (kMatrix33Controller, New ''plMatrix33Controller''),
     (kMatrix44Controller, New ''plMatrix44Controller''),
     (kEaseController, New ''plEaseController''),
     (kSimpleScaleController, New ''plSimpleScaleController''),
     (kSimpleRotController, New ''plSimpleRotController''),
     (kCompoundRotController, New ''plCompoundRotController''),
     (kSimplePosController, New ''plSimplePosController''),
     (kCompoundPosController, New ''plCompoundPosController''),
     (kTMController, New ''plTMController''),
     (kTimerCallbackMsg, New ''plTimerCallbackMsg''),
     (kEventCallbackMsg, New ''plEventCallbackMsg''),
     (kLoadCloneMsg, New ''plLoadCloneMsg''),
     (kEnableMsg, New ''plEnableMsg''),
     (kWarpMsg, New ''plWarpMsg''),
     (kAnimTimeConvert, New ''plAnimTimeConvert''),
     (kSoundMsg, New ''plSoundMsg''),
     (kSpaceTree, New ''plSpaceTree''),
     (kNetMessage, Abstract)]"

definition switch11 :: "(int \<times> action) list" where
  "switch11 = [
     (kNetMsgRoomsList, New ''plNetMsgRoomsList''),
     (kNetMsgGroupOwner, New ''plNetMsgGroupOwner''),
     (kNetMsgGameStateRequest, New ''plNetMsgGameStateRequest''),
     (kNetMsgObject, New ''plNetMsgObject''),
     (kLinkInDoneMsg, New ''plLinkInDoneMsg''),
     (kNetMsgGameMessage, New ''plNetMsgGameMessage''),
     (kNetMsgStream, New ''plNetMsgStream''),
     (kServerReplyMsg, New ''plServerReplyMsg''),
     (kNetMsgStreamHelper, New ''plNetMsgStreamHelper''),
     (kNetMsgObjectHelper, NotImpl),
     (kNetMsgStreamedObject, New ''plNetMsgStreamedObject''),
     (kNetMsgSharedState, New ''plNetMsgSharedState''),
     (kNetMsgTestAndSet, New ''plNetMsgTestAndSet''),
     (kMessageWithCallbacks, Abstract)]"

definition switch12 :: "(int \<times> action) list" where
  "switch12 = [
     (kSimulationMsg, Abstract),
     (kAvatarMsg, Abstract),
     (kAvTaskMsg, New ''plAvTaskMsg''),
     (kAvSeekMsg, New ''plAvSeekMsg''),
     (kAvOneShotMsg, New ''plAvOneShotMsg''),
     (kSimStateMsg, Abstract),
     (kNetMsgMembersListReq, New ''plNetMsgMembersListReq''),
     (kNetMsgMembersList, New ''plNetMsgMembersList''),
     (kNetMsgMemberInfoHelper, New ''plNetMsgMemberInfoHelper''),
     (kNetMsgMemberListHelper, NotImpl),
     (kNetMsgMemberUpdate, New ''plNetMsgMemberUpdate''),
     (kNetMsgServerToClient, Abstract),
     (kNetMsgInitialAgeStateSent, New ''plNetMsgInitialAgeStateSent'')]"

definition switch13 :: "(int \<times> action) list" where
  "switch13 = [
     (kAgeLinkStruct, New ''plAgeLinkStruct''),
     (kNetMsgSDLState, New ''plNetMsgSDLState''),
     (kConvexVolume, New ''plConvexVolume''),
     (kParticleGenerator, Abstract),
     (kSimpleParticleGenerator, New ''plSimpleParticleGenerator''),
     (kParticleEmitter, New ''plParticleEmitter''),
     (kAGChannel, Abstract),
     (kMatrixChannel, New ''plMatrixChannel''),
     (kMatrixTimeScale, New ''plMatrixTimeScale''),
     (kMatrixBlend, New ''plMatrixBlend''),
     (kMatrixControllerChannel, New ''plMatrixControllerChannel''),
     (kQuatPointCombine, New ''plQuatPointCombine''),
     (kPointChannel, New ''plPointChannel''),
     (kPointConstant, New ''plPointConstant''),
     (kPointBlend, New ''plPointBlend''),
     (kQuatChannel, New ''plQuatChannel''),
     (kQuatConstant, New ''plQuatConstant''),
     (kQuatBlend, New ''plQuatBlend''),
     (kLinkToAgeMsg, New ''plLinkToAgeMsg''),
     (kAnimPath, New ''plAnimPath'')]"

definition switch14 :: "(int \<times> action) list" where
  "switch14 = [
     (kNotifyMsg, New ''plNotifyMsg''),
     (kCursorChangeMsg, New ''plCursorChangeMsg''),
     (kTransitionMsg, New ''plTransitionMsg''),
     (kVolumeIsect, Abstract),
     (kSphereIsect, New ''plSphereIsect''),
     (kConeIsect, New ''plConeIsect''),
     (kCylinderIsect, New ''plCylinderIsect''),
     (kParallelIsect, New ''plParallelIsect''),
     (kConvexIsect, New ''plConvexIsect''),
     (kComplexIsect, New ''plComplexIsect''),
     (kUnionIsect, New ''plUnionIsect''),
     (kIntersectionIsect, New ''plIntersectionIsect''),
     (kLinkEffectsTriggerMsg, New ''plLinkEffectsTriggerMsg''),
     (kResponderEnableMsg, New ''plResponderEnableMsg''),
     (kResponderMsg, New ''plResponderMsg''),
     (kOneShotMsg, New ''plOneShotMsg''),
     (kPointTimeScale, New ''plPointTimeScale''),
     (kPointControllerChannel, New ''plPointControllerChannel''),
     (kQuatTimeScale, New ''plQuatTimeScale''),
     (kAGApplicator, Abstract),
     (kMatrixChannelApplicator, New ''plMatrixChannelApplicator''),
     (kPointChannelApplicator, New ''plPointChannelApplicator''),
     (kLightDiffuseApplicator, New ''plLightDiffuseApplicator''),
     (kLightAmbientApplicator, New ''plLightAmbientApplicator''),
     (kLightSpecularApplicator, New ''plLightSpecularApplicator''),
     (kOmniApplicator, New ''plOmniApplicator''),
     (kQuatChannelApplicator, New ''plQuatChannelApplicator''),
     (kScalarChannel, New ''plScalarChannel''),
     (kScalarTimeScale, New ''plScalarTimeScale''),
     (kScalarBlend, New ''plScalarBlend''),
     (kScalarControllerChannel, New ''plScalarControllerChannel''),
     (kScalarChannelApplicator, New ''plScalarChannelApplicator''),
     (kSpotInnerApplicator, New ''plSpotInnerApplicator''),
     (kSpotOuterApplicator, New ''plSpotOuterApplicator'')]"

definition switch15 :: "(int \<times> action) list" where
  "switch15 = [
     (kATCEaseCurve, New ''plATCEaseCurve''),
     (kConstAccelEaseCurve, New ''plConstAccelEaseCurve''),
     (kSplineEaseCurve, New ''plSplineEaseCurve''),
     (kNetMsgSDLStateBCast, New ''plNetMsgSDLStateBCast''),
     (kNetMsgGameMessageDirected, New ''plNetMsgGameMessageDirected''),
     (kScalarConstant, New ''plScalarConstant''),
     (kMatrixConstant, New ''plMatrixConstant''),
     (kExcludeRegionMsg, New ''plExcludeRegionMsg''),
     (kOneTimeParticleGenerator, New ''plOneTimeParticleGenerator''),
     (kParticleApplicator, New ''plParticleApplicator''),
     (kParticleLifeMinApplicator, New ''plParticleLifeMinApplicator''),
     (kParticleLifeMaxApplicator, New ''plParticleLifeMaxApplicator''),
     (kParticlePPSApplicator, New ''plParticlePPSApplicator''),
     (kParticleAngleApplicator, New ''plParticleAngleApplicator''),
     (kParticleVelMinApplicator, New ''plParticleVelMinApplicator''),
     (kParticleVelMaxApplicator, New ''plParticleVelMaxApplicator''),
     (kParticleScaleMinApplicator, New ''plParticleScaleMinApplicator''),
     (kParticleScaleMaxApplicator, New ''plParticleScaleMaxApplicator'')]"

definition switch16 :: "(int \<times> action) list" where
  "switch16 = [
     (kPointControllerCacheChannel, New ''plPointControllerCacheChannel''),
     (kScalarControllerCacheChannel, New ''plScalarControllerCacheChannel''),
     (kAvatarInputStateMsg, New ''plAvatarInputStateMsg''),
     (kAgeInfoStruct, New ''plAgeInfoStruct''),
     (kLinkingMgrMsg, New ''plLinkingMgrMsg''),
     (kArmatureBrain, New ''plArmatureBrain''),
     (kAvBrainHuman, New ''plAvBrainHuman''),
     (kAvBrainCritter, New ''plAvBrainCritter''),
     (kAvBrainDrive, New ''plAvBrainDrive''),
     (kAvBrainGeneric, New ''plAvBrainGeneric''),
     (kInputIfaceMgrMsg, New ''plInputIfaceMgrMsg''),
     (kKIMsg, New ''pfKIMsg''),
     (kMatrixDelayedCorrectionApplicator, New ''plMatrixDelayedCorrectionApplicator''),
     (kAvPushBrainMsg, New ''plAvPushBrainMsg''),
     (kAvPopBrainMsg, New ''plAvPopBrainMsg''),
     (kAvTask, Abstract),
     (kAvAnimTask, New ''plAvAnimTask''),
     (kAvSeekTask, New ''plAvSeekTask''),
     (kAvOneShotTask, New ''plAvOneShotTask''),
     (kAvTaskBrain, New ''plAvTaskBrain''),
     (kAnimStage, New ''plAnimStage'')]"

definition switch17 :: "(int \<times> action) list" where
  "switch17 = [
     (kClientGuid, New ''plClientGuid''),
     (kAvBrainGenericMsg, New ''plAvBrainGenericMsg''),
     (kAvTaskSeek, New ''plAvTaskSeek''),
     (kArmatureEffectStateMsg, New ''plArmatureEffectStateMsg''),
     (kBoundsIsect, New ''plBoundsIsect'')]"

definition switch18 :: "(int \<times> action) list" where
  "switch18 = [
     (kSoundVolumeApplicator, New ''plSoundVolumeApplicator''),
     (kOmniCutoffApplicator, New ''plOmniCutoffApplicator''),
     (kNetMsgRelevanceRegions, New ''plNetMsgRelevanceRegions''),
     (kATCChannel, New ''plATCChannel''),
     (kScalarSDLChannel, New ''plScalarSDLChannel''),
     (kLoadAvatarMsg, New ''plLoadAvatarMsg''),
     (kNetMsgLoadClone, New ''plNetMsgLoadClone''),
     (kNetMsgPlayerPage, New ''plNetMsgPlayerPage''),
     (kSubWorldMsg, New ''plSubWorldMsg''),
     (kMatrixDifferenceApp, New ''plMatrixDifferenceApp''),
     (kAvBrainPirahna, New ''plAvBrainPirahna'')]"

definition switch19 :: "(int \<times> action) list" where
  "switch19 = [
     (kCrossfadeMsg, New ''plCrossfadeMsg''),
     (kOmniSqApplicator, New ''plOmniSqApplicator''),
     (kCompoundController, New ''plCompoundController''),
     (kAvBrainAvatar, New ''plAvBrainAvatar'')]"

definition switch20 :: "(int \<times> action) list" where
  "switch20 = [
     (kAvBrainSwim, New ''plAvBrainSwim'')]"

definition switch21 :: "(int \<times> action) list" where
  "switch21 = [
     (kClimbMsg, New ''plClimbMsg''),
     (kAvBrainClimb, New ''plAvBrainClimb''),
     (kSwimMsg, New ''plSwimMsg''),
     (kMorphDelta, New ''plMorphDelta''),
     (kMatrixControllerCacheChannel, New ''plMatrixControllerCacheChannel''),
     (kAvBrainCoop, New ''plAvBrainCoop''),
     (kSimSuppressMsg, New ''plSimSuppressMsg'')]"

definition switch22 :: "(int \<times> action) list" where
  "switch22 = [
     (kAvOneShotLinkTask, New ''plAvOneShotLinkTask'')]"

definition switch23 :: "(int \<times> action) list" where
  "switch23 = [
     (kAvBrainQuab, New ''plAvBrainQuab'')]"

definition switch24 :: "(int \<times> action) list" where
  "switch24 = [
     (kEventCallbackSetupMsg, New ''plEventCallbackSetupMsg''),
     (kRelativeMatrixChannelApplicator, New ''plRelativeMatrixChannelApplicator''),
     (kAccountUpdateMsg, New ''plAccountUpdateMsg''),
     (kRideAnimatedPhysMsg, New ''plRideAnimatedPhysMsg''),
     (kAvBrainRideAnimatedPhysical, New ''plAvBrainRideAnimatedPhysical'')]"

definition switch_cases :: "(int \<times> action) list" where
  "switch_cases = switch1 @ switch2 @ switch3 @ switch4 @ switch5 @ switch6 @ switch7 @ switch8 @ switch9 @ switch10 @ switch11 @ switch12 @ switch13 @ switch14 @ switch15 @ switch16 @ switch17 @ switch18 @ switch19 @ switch20 @ switch21 @ switch22 @ switch23 @ switch24"

fun switch_on :: "int \<Rightarrow> (int \<times> action) list \<Rightarrow> action option" where
  "switch_on i [] = None"
| "switch_on i ((k, a) # r) = (if i = k then Some a else switch_on i r)"

section \<open>Operations\<close>

type_synonym override = "(int \<Rightarrow> string option) option"

definition Create_switch :: "int \<Rightarrow> string option" where
  "Create_switch typeIdx =
     (case switch_on typeIdx switch_cases of
        Some (New c) \<Rightarrow> Some c
      | Some Abstract \<Rightarrow> None
      | Some NotImpl \<Rightarrow> None
      | None \<Rightarrow> None)"

definition Create :: "override \<Rightarrow> int \<Rightarrow> string option" where
  "Create fOverride typeIdx =
     (if typeIdx < 0 then None
      else case fOverride of
        None \<Rightarrow> Create_switch typeIdx
      | Some over \<Rightarrow> (case over typeIdx of Some c \<Rightarrow> Some c | None \<Rightarrow> Create_switch typeIdx))"

definition Create_ver :: "override \<Rightarrow> int \<Rightarrow> plasma_ver \<Rightarrow> string option result" where
  "Create_ver fOverride typeIdx ver =
     (if typeIdx < 0 then Inr None
      else if \<not> isValid ver then Inl BadVersionException
      else Inr (Create fOverride (PlasmaToMapped typeIdx ver)))"

definition Create_name :: "override \<Rightarrow> string \<Rightarrow> string option" where
  "Create_name fOverride typeName = Create fOverride (ClassIndex typeName)"

definition factory_ClassName :: "int \<Rightarrow> string option" where
  "factory_ClassName typeIdx = (if typeIdx < 0 then None else ClassName typeIdx)"

definition factory_ClassName_ver :: "int \<Rightarrow> plasma_ver \<Rightarrow> string option result" where
  "factory_ClassName_ver typeIdx ver = (if typeIdx < 0 then Inr None else ClassName_ver typeIdx ver)"

section \<open>The switch against the table of names\<close>

text \<open>
  \<open>agree i names cases\<close> walks through the names from index \<open>i\<close> and the cases in step.  A case that
  makes an object of another class than the table names must be one of \<open>uru_brains\<close>.
\<close>

definition uru_brains :: "(int \<times> string) list" where
  "uru_brains = [
     (kCameraBrainUru, ''plCameraBrain1''),
     (kCameraBrainUru_Drive, ''plCameraBrain1_Drive''),
     (kCameraBrainUru_Follow, ''plCameraBrain1_Avatar''),
     (kCameraBrainUru_Fixed, ''plCameraBrain1_Fixed''),
     (kCameraBrainUru_FirstPerson, ''plCameraBrain1_FirstPerson''),
     (kCameraBrainUru_Circle, ''plCameraBrain1_Circle'')]"

fun agree :: "int \<Rightarrow> string option list \<Rightarrow> (int \<times> action) list \<Rightarrow> bool" where
  "agree i names [] = True"
| "agree i [] (x # r) = False"
| "agree i (m # names) ((k, a) # r) =
     (if k = i
      then (case a of New c \<Rightarrow> m = Some c \<or> (k, c) \<in> set uru_brains | _ \<Rightarrow> m \<noteq> None) \<and> agree (i + 1) names r
      else agree (i + 1) names ((k, a) # r))"

lemma agree1: "agree 0 fClassNames1 switch1"
  by code_simp

lemma agree2: "agree 53 fClassNames2 switch2"
  by code_simp

lemma agree3: "agree 105 fClassNames3 switch3"
  by code_simp

lemma agree4: "agree 158 fClassNames4 switch4"
  by code_simp

lemma agree5: "agree 208 fClassNames5 switch5"
  by code_simp

lemma agree6: "agree 259 fClassNames6 switch6"
  by code_simp

lemma agree7: "agree 313 fClassNames7 switch7"
  by code_simp

lemma agree8: "agree 361 fClassNames8 switch8"
  by code_simp

lemma agree9: "agree 476 fClassNames9 switch9"
  by code_simp

lemma agree10: "agree 550 fClassNames10 switch10"
  by code_simp

lemma agree11: "agree 603 fClassNames11 switch11"
  by code_simp

lemma agree12: "agree 651 fClassNames12 switch12"
  by code_simp

lemma agree13: "agree 696 fClassNames13 switch13"
  by code_simp

lemma agree14: "agree 743 fClassNames14 switch14"
  by code_simp

lemma agree15: "agree 791 fClassNames15 switch15"
  by code_simp

lemma agree16: "agree 827 fClassNames16 switch16"
  by code_simp

lemma agree17: "agree 879 fClassNames17 switch17"
  by code_simp

lemma agree18: "agree 918 fClassNames18 switch18"
  by code_simp

lemma agree19: "agree 962 fClassNames19 switch19"
  by code_simp

lemma agree20: "agree 1024 fClassNames20 switch20"
  by code_simp

lemma agree21: "agree 1085 fClassNames21 switch21"
  by code_simp

lemma agree22: "agree 1131 fClassNames22 switch22"
  by code_simp

lemma agree23: "agree 1171 fClassNames23 switch23"
  by code_simp

lemma agree24: "agree 1218 fClassNames24 switch24"
  by code_simp

lemmas agree_parts = agree1 agree2 agree3 agree4 agree5 agree6 agree7 agree8 agree9 agree10 agree11
  agree12 agree13 agree14 agree15 agree16 agree17 agree18 agree19 agree20 agree21 agree22 agree23 agree24

lemma agree_keys: "agree i names cases \<Longrightarrow> x \<in> set cases \<Longrightarrow> i \<le> fst x \<and> fst x < i + int (length names)"
proof (induction i names cases rule: agree.induct)
  case (3 i m names k a r)
  show ?case
  proof (cases "k = i")
    case True
    with "3.prems"(1) have r: "agree (i + 1) names r" by simp
    from "3.prems"(2) consider "x = (k, a)" | "x \<in> set r" by auto
    then show ?thesis
    proof cases
      case 2
      from "3.IH"(1) [OF True r 2] show ?thesis by simp
    qed (use True in simp)
  next
    case False
    with "3.prems"(1) have r: "agree (i + 1) names ((k, a) # r)" by simp
    from "3.IH"(2) [OF False r "3.prems"(2)] show ?thesis by simp
  qed
qed simp_all

lemma agree_skip: "agree (i + int (length names)) names2 cases \<Longrightarrow> agree i (names @ names2) cases"
proof (induction names arbitrary: i)
  case (Cons m names)
  then have rest: "agree (i + 1) (names @ names2) cases" by (simp add: add.assoc)
  show ?case
  proof (cases cases)
    case (Cons x r)
    obtain k a where x: "x = (k, a)" by (cases x)
    from agree_keys [OF rest, of x] Cons have "k \<noteq> i" by (auto simp: x)
    with rest show ?thesis by (simp add: Cons x)
  qed simp
qed simp

lemma agree_append:
  "agree i names cases \<Longrightarrow> agree (i + int (length names)) names2 cases2 \<Longrightarrow> agree i (names @ names2) (cases @ cases2)"
proof (induction i names cases rule: agree.induct)
  case (1 i names)
  then show ?case by (simp add: agree_skip)
next
  case (3 i m names k a r)
  show ?case
  proof (cases "k = i")
    case True
    with 3 show ?thesis by (simp add: add.assoc)
  next
    case False
    with 3 show ?thesis by (simp add: add.assoc)
  qed
qed simp

lemma agree_next:
  "agree i names cases \<Longrightarrow> i + int (length names) = j \<Longrightarrow> agree j names2 cases2 \<Longrightarrow>
     agree i (names @ names2) (cases @ cases2)"
  using agree_append by blast

lemma agree_all: "agree 0 fClassNames switch_cases"
  unfolding fClassNames_def switch_cases_def
  by (rule agree_next, rule agree_parts, simp)+ (rule agree_parts)

lemma switch_on_mem: "switch_on j cases = Some a \<Longrightarrow> (j, a) \<in> set cases"
  by (induction cases) (auto split: if_splits)

lemma nth_later: "i + 1 \<le> j \<Longrightarrow> (m # names) ! nat (j - i) = names ! nat (j - (i + 1))" for i j :: int
proof -
  assume "i + 1 \<le> j"
  then have "nat (j - i) = Suc (nat (j - (i + 1)))" by arith
  then show ?thesis by (simp only: nth_Cons_Suc)
qed

lemma agree_sound:
  "agree i names cases \<Longrightarrow> switch_on j cases = Some a \<Longrightarrow>
     (case a of New c \<Rightarrow> names ! nat (j - i) = Some c \<or> (j, c) \<in> set uru_brains | _ \<Rightarrow> names ! nat (j - i) \<noteq> None)"
proof (induction i names cases rule: agree.induct)
  case (3 i m names k b r)
  show ?case
  proof (cases "k = i")
    case True
    show ?thesis
    proof (cases "j = k")
      case False
      with "3.prems"(2) have sw: "switch_on j r = Some a" by simp
      from True "3.prems"(1) have r: "agree (i + 1) names r" by simp
      from agree_keys [OF r switch_on_mem [OF sw]] have "i + 1 \<le> j" by simp
      with "3.IH"(1) [OF True r sw] show ?thesis by (simp only: nth_later)
    qed (use "3.prems" True in \<open>auto split: action.splits\<close>)
  next
    case False
    with "3.prems"(1) have r: "agree (i + 1) names ((k, b) # r)" by simp
    from agree_keys [OF r switch_on_mem [OF "3.prems"(2)]] have "i + 1 \<le> j" by simp
    with "3.IH"(2) [OF False r "3.prems"(2)] show ?thesis by (simp only: nth_later)
  qed
qed simp_all

lemma switch_range: "switch_on j switch_cases = Some a \<Longrightarrow> 0 \<le> j \<and> j < 1280"
  by (drule switch_on_mem, drule agree_keys [OF agree_all]) (simp add: length_fClassNames)

lemma Create_switch_named: "Create_switch i = Some c \<Longrightarrow> ClassName i = Some c \<or> (i, c) \<in> set uru_brains"
  using agree_sound [OF agree_all, of i] switch_range [of i]
  by (fastforce simp: Create_switch_def ClassName_def TYPESPACE_MAX_def split: option.splits action.splits)

lemma Create_named:
  "Create fOverride i = Some c \<Longrightarrow> \<forall>over. fOverride = Some over \<longrightarrow> over i = None \<Longrightarrow>
     ClassName i = Some c \<or> (i, c) \<in> set uru_brains"
  using Create_switch_named by (auto simp: Create_def split: if_splits option.splits)

section \<open>Camera brains of the later formats\<close>

text \<open>The class indices the camera brains answer with (\<open>CREATABLE\<close> in \<open>plCameraBrain.h\<close>).\<close>

fun brain_ClassIndex :: "string \<Rightarrow> int" where
  "brain_ClassIndex c =
     (if c = ''plCameraBrain1'' then kCameraBrain1
      else if c = ''plCameraBrain1_Drive'' then kCameraBrain1_Drive
      else if c = ''plCameraBrain1_Avatar'' then kCameraBrain1_Avatar
      else if c = ''plCameraBrain1_FirstPerson'' then kCameraBrain1_FirstPerson
      else if c = ''plCameraBrain1_Fixed'' then kCameraBrain1_Fixed
      else if c = ''plCameraBrain1_Circle'' then kCameraBrain1_Circle
      else -1)"

section \<open>Properties\<close>

text \<open>C12: An object made for a class index, for the index of an engine or for a name is of the class
  the table names there, as long as no override makes another; only the six indices of the camera
  brains of the later formats make brains of Uru.\<close>

theorem factory_makes_named_class:
  assumes "\<And>over i. fOverride = Some over \<Longrightarrow> over i = None"
  shows "(Create fOverride t = Some c \<longrightarrow> ClassName t = Some c \<or> (t, c) \<in> set uru_brains) \<and>
    (Create_name fOverride n = Some c \<longrightarrow> n = c \<or> (ClassIndex n, c) \<in> set uru_brains) \<and>
    (Create_ver fOverride p v = Inr (Some c) \<longrightarrow>
       ClassName_ver p v = Inr (Some c) \<or> (PlasmaToMapped p v, c) \<in> set uru_brains)"
proof -
  have named: "Create fOverride i = Some c \<Longrightarrow> ClassName i = Some c \<or> (i, c) \<in> set uru_brains" for i
    using Create_named [of fOverride i c] assms by blast
  moreover have "Create_name fOverride n = Some c \<Longrightarrow> n = c \<or> (ClassIndex n, c) \<in> set uru_brains"
    using named [of "ClassIndex n"] ClassIndex_sound [OF refl, of n]
    by (auto simp: Create_name_def Create_def)
  moreover have "Create_ver fOverride p v = Inr (Some c) \<Longrightarrow>
      ClassName_ver p v = Inr (Some c) \<or> (PlasmaToMapped p v, c) \<in> set uru_brains"
    using named [of "PlasmaToMapped p v"] by (auto simp: Create_ver_def ClassName_ver_def split: if_splits)
  ultimately show ?thesis by blast
qed

theorem factory_makes_named_class_witness:
  "ClassName kSceneNode = Some ''plSceneNode''"
proof -
  have "Create None kSceneNode = Some ''plSceneNode''" by code_simp
  with factory_makes_named_class [of None kSceneNode "''plSceneNode''" "''''" 0 pvMoul] show ?thesis
    by (auto simp: uru_brains_def)
qed

lemma agree_lookup: "agree i names cases \<Longrightarrow> (j, a) \<in> set cases \<Longrightarrow> switch_on j cases = Some a"
proof (induction i names cases rule: agree.induct)
  case (3 i m names k b r)
  show ?case
  proof (cases "k = i")
    case True
    with "3.prems"(1) have r: "agree (i + 1) names r" by simp
    from agree_keys [OF r, of "(k, a)"] True have "(k, a) \<notin> set r" by auto
    with "3.IH"(1) [OF True r] "3.prems"(2) show ?thesis by auto
  next
    case False
    with "3.prems"(1) have r: "agree (i + 1) names ((k, b) # r)" by simp
    from "3.IH"(2) [OF False r "3.prems"(2)] show ?thesis .
  qed
qed simp_all

lemma uru_brains_made: "list_all (\<lambda>(i, c). Create_switch i = Some c) uru_brains"
proof -
  have "list_all (\<lambda>(i, c). (i, New c) \<in> set switch7) uru_brains"
    by code_simp
  moreover have "set switch7 \<subseteq> set switch_cases" by (auto simp: switch_cases_def)
  ultimately show ?thesis
    using agree_lookup [OF agree_all] by (fastforce simp: list_all_iff Create_switch_def)
qed

lemma uru_brains_there: "list_all (\<lambda>(i, c). 0 \<le> MappedToPlasma i pvEoa) uru_brains"
  by code_simp

lemma uru_brains_gone: "list_all (\<lambda>(i, c). MappedToPlasma (brain_ClassIndex c) pvEoa = -1) uru_brains"
  by code_simp


end
