(* ===== verification/CoreTypes.thy ===== *)
theory CoreTypes
  imports HsStrings
begin

text \<open>
  The small value types of \<open>src/core/Sys\<close>: UUIDs (\<open>plUuid\<close>), points in time (\<open>plUnifiedTime\<close>)
  and colours (\<open>hsColor\<close>).  Their PRC text forms are not modelled.  What \<open>plUuid\<close> uses of the
  string library, printing and parsing of hexadecimal numbers, and what \<open>plUnifiedTime\<close> uses of
  the C library, the conversion between seconds and broken-down times and the offset of the local
  time zone, are parameters.
\<close>

section \<open>UUIDs\<close>

record pl_uuid =
  uFData1 :: u32
  uFData2 :: u16
  uFData3 :: u16
  uFData4 :: bytes

definition uuid_ok :: "pl_uuid \<Rightarrow> bool" where
  "uuid_ok u \<longleftrightarrow> length (uFData4 u) = 8"

definition uuid_Null :: pl_uuid where
  "uuid_Null = \<lparr>uFData1 = 0, uFData2 = 0, uFData3 = 0, uFData4 = [0, 0, 0, 0, 0, 0, 0, 0]\<rparr>"

definition uuid_clear :: "pl_uuid \<Rightarrow> pl_uuid" where
  "uuid_clear u = u\<lparr>uFData1 := 0, uFData2 := 0, uFData3 := 0, uFData4 := replicate 8 0\<rparr>"

definition uuid_eq :: "pl_uuid \<Rightarrow> pl_uuid \<Rightarrow> bool" where
  "uuid_eq u v =
     (if uFData1 u \<noteq> uFData1 v \<or> uFData2 u \<noteq> uFData2 v \<or> uFData3 u \<noteq> uFData3 v then False
      else uFData4 u = uFData4 v)"

definition uuid_ne :: "pl_uuid \<Rightarrow> pl_uuid \<Rightarrow> bool" where
  "uuid_ne u v =
     (if uFData1 u = uFData1 v \<or> uFData2 u = uFData2 v \<or> uFData3 u = uFData3 v then False
      else uFData4 u \<noteq> uFData4 v)"

definition uuid_isNull :: "pl_uuid \<Rightarrow> bool" where
  "uuid_isNull u = uuid_eq u uuid_Null"

definition uuid_read :: "pl_uuid \<Rightarrow> pl_uuid io" where
  "uuid_read u =
     io_bind readInt (\<lambda>d1. io_bind readShort (\<lambda>d2. io_bind readShort (\<lambda>d3. io_bind (st_read 8) (\<lambda>d4.
     io_return (u\<lparr>uFData1 := d1, uFData2 := d2, uFData3 := d3, uFData4 := d4\<rparr>)))))"

definition uuid_write :: "pl_uuid \<Rightarrow> unit io" where
  "uuid_write u =
     io_then (writeInt (uFData1 u)) (io_then (writeShort (uFData2 u)) (io_then (writeShort (uFData3 u))
       (st_write (uFData4 u))))"

text \<open>The overloads for a raw buffer, which must have sixteen bytes.\<close>

definition uuid_read_buffer :: "bytes \<Rightarrow> pl_uuid \<Rightarrow> pl_uuid result" where
  "uuid_read_buffer b u =
     (if length b < 16 then Inl UndefinedBehaviour
      else Inr (u\<lparr>uFData1 := un_le32 (take 4 b), uFData2 := un_le16 (take 2 (drop 4 b)),
                  uFData3 := un_le16 (take 2 (drop 6 b)), uFData4 := take 8 (drop 8 b)\<rparr>))"

definition uuid_write_buffer :: "pl_uuid \<Rightarrow> bytes \<Rightarrow> bytes result" where
  "uuid_write_buffer u b =
     (if length b < 16 then Inl UndefinedBehaviour
      else Inr (overwrite (overwrite (overwrite (overwrite b 0 (le32 (uFData1 u)))
              4 (le16 (uFData2 u))) 6 (le16 (uFData3 u))) 8 (uFData4 u)))"

text \<open>
  The string library as far as the text form uses it: \<open>to_hex w n\<close> prints \<open>n\<close> in hexadecimal,
  padded with zeros to \<open>w\<close> places, and \<open>of_hex\<close> is \<open>to_uint(16)\<close>.  A string is its bytes; 45 is
  the hyphen.
\<close>

record hex_lib =
  to_hex :: "nat \<Rightarrow> nat \<Rightarrow> bytes"
  of_hex :: "bytes \<Rightarrow> u32"

definition substr :: "bytes \<Rightarrow> nat \<Rightarrow> nat \<Rightarrow> bytes" where
  "substr s start count = take count (drop start s)"

definition uuid_toString :: "hex_lib \<Rightarrow> pl_uuid \<Rightarrow> bytes" where
  "uuid_toString H u =
     (let x = (\<lambda>i. to_hex H 2 (unat (uFData4 u ! i)))
      in to_hex H 8 (unat (uFData1 u)) @ [45] @ to_hex H 4 (unat (uFData2 u)) @ [45] @
         to_hex H 4 (unat (uFData3 u)) @ [45] @ x 0 @ x 1 @ [45] @
         x 2 @ x 3 @ x 4 @ x 5 @ x 6 @ x 7)"

definition uuid_fromString :: "hex_lib \<Rightarrow> bytes \<Rightarrow> pl_uuid \<Rightarrow> pl_uuid result" where
  "uuid_fromString H str u =
     (if length str \<noteq> 36 \<or> str ! 8 \<noteq> 45 \<or> str ! 13 \<noteq> 45 \<or> str ! 18 \<noteq> 45 \<or> str ! 23 \<noteq> 45
      then Inl BadParamException
      else Inr (u\<lparr>uFData1 := of_hex H (substr str 0 8), uFData2 := ucast (of_hex H (substr str 9 4)),
                  uFData3 := ucast (of_hex H (substr str 14 4)),
                  uFData4 := map (\<lambda>i. ucast (of_hex H (substr str i 2))) [19, 21, 24, 26, 28, 30, 32, 34]\<rparr>))"

section \<open>Time\<close>

text \<open>
  \<open>time_t\<close> is 64 bits wide and signed.  \<open>IGetLocalTimeZoneOffset\<close> is the parameter \<open>off\<close>.
\<close>

datatype time_mode = kGMT | kLocal

record unified_time =
  fSecs :: u64
  fMicros :: u32
  fMode :: time_mode

definition ut_new :: unified_time where
  "ut_new = \<lparr>fSecs = 0, fMicros = 0, fMode = kLocal\<rparr>"

definition ut_of_timeval :: "u64 \<Rightarrow> u32 \<Rightarrow> unified_time" where
  "ut_of_timeval s m = \<lparr>fSecs = s, fMicros = m, fMode = kLocal\<rparr>"

definition ut_of_time_t :: "u64 \<Rightarrow> unified_time" where
  "ut_of_time_t t = \<lparr>fSecs = t, fMicros = 0, fMode = kLocal\<rparr>"

definition ut_add :: "unified_time \<Rightarrow> unified_time \<Rightarrow> unified_time" where
  "ut_add t other =
     (let m = fMicros t + fMicros other;
          t1 = (if m > 1000000 then t\<lparr>fSecs := fSecs t + 1, fMicros := m - 1000000\<rparr>
                else t\<lparr>fMicros := m\<rparr>)
      in t1\<lparr>fSecs := fSecs t1 + fSecs other\<rparr>)"

definition ut_sub :: "unified_time \<Rightarrow> unified_time \<Rightarrow> unified_time" where
  "ut_sub t other =
     (let t1 = (if fMicros t \<le> fMicros other
                then t\<lparr>fSecs := fSecs t - 1, fMicros := fMicros t + 1000000\<rparr> else t)
      in t1\<lparr>fMicros := fMicros t1 - fMicros other, fSecs := fSecs t1 - fSecs other\<rparr>)"

definition ut_eq :: "unified_time \<Rightarrow> unified_time \<Rightarrow> bool" where
  "ut_eq t u \<longleftrightarrow> fSecs t = fSecs u \<and> fMicros t = fMicros u"

definition ut_ne :: "unified_time \<Rightarrow> unified_time \<Rightarrow> bool" where
  "ut_ne t u \<longleftrightarrow> fSecs t \<noteq> fSecs u \<or> fMicros t \<noteq> fMicros u"

definition ut_lt :: "unified_time \<Rightarrow> unified_time \<Rightarrow> bool" where
  "ut_lt t u =
     (if sint (fSecs t) < sint (fSecs u) then True
      else if sint (fSecs t) > sint (fSecs u) then False
      else fMicros t < fMicros u)"

definition ut_gt :: "unified_time \<Rightarrow> unified_time \<Rightarrow> bool" where
  "ut_gt t u =
     (if sint (fSecs t) > sint (fSecs u) then True
      else if sint (fSecs t) < sint (fSecs u) then False
      else fMicros t > fMicros u)"

definition ut_le :: "unified_time \<Rightarrow> unified_time \<Rightarrow> bool" where
  "ut_le t u =
     (if sint (fSecs t) < sint (fSecs u) then True
      else if fSecs t = fSecs u then fMicros t \<le> fMicros u
      else False)"

definition ut_ge :: "unified_time \<Rightarrow> unified_time \<Rightarrow> bool" where
  "ut_ge t u =
     (if sint (fSecs t) > sint (fSecs u) then True
      else if fSecs t = fSecs u then fMicros t \<ge> fMicros u
      else False)"

definition ut_read :: "unified_time \<Rightarrow> unified_time io" where
  "ut_read t = io_bind readInt (\<lambda>s. io_bind readInt (\<lambda>m. io_return (t\<lparr>fSecs := ucast s, fMicros := m\<rparr>)))"

definition ut_write :: "unified_time \<Rightarrow> unit io" where
  "ut_write t = io_then (writeInt (ucast (fSecs t))) (writeInt (fMicros t))"

definition ut_atEpoch :: "unified_time \<Rightarrow> bool" where
  "ut_atEpoch t \<longleftrightarrow> fSecs t = 0 \<and> fMicros t = 0"

definition ut_toEpoch :: "unified_time \<Rightarrow> unified_time" where
  "ut_toEpoch t = t\<lparr>fSecs := 0, fMicros := 0\<rparr>"

definition ut_toGMT :: "int \<Rightarrow> unified_time \<Rightarrow> unified_time" where
  "ut_toGMT off t =
     (if fMode t \<noteq> kGMT then t\<lparr>fSecs := fSecs t - word_of_int off, fMode := kGMT\<rparr> else t)"

definition ut_toLocal :: "int \<Rightarrow> unified_time \<Rightarrow> unified_time" where
  "ut_toLocal off t =
     (if fMode t \<noteq> kLocal then t\<lparr>fSecs := fSecs t + word_of_int off, fMode := kLocal\<rparr> else t)"

text \<open>The C library's broken-down time, and its conversions as parameters.\<close>

record c_tm =
  tm_year :: int
  tm_mon :: int
  tm_mday :: int
  tm_hour :: int
  tm_min :: int
  tm_sec :: int
  tm_isdst :: int

record time_lib =
  mktime :: "c_tm \<Rightarrow> u64"
  gmtime :: "u64 \<Rightarrow> c_tm"
  localtime :: "u64 \<Rightarrow> c_tm"

definition ut_IGetTime :: "time_lib \<Rightarrow> unified_time \<Rightarrow> c_tm" where
  "ut_IGetTime T t = (if fMode t = kGMT then gmtime T (fSecs t) else localtime T (fSecs t))\<lparr>tm_isdst := -1\<rparr>"

definition ut_getTime :: "time_lib \<Rightarrow> unified_time \<Rightarrow> int \<times> int \<times> int \<times> int \<times> int \<times> int" where
  "ut_getTime T t =
     (let time = ut_IGetTime T t
      in (tm_year time + 1900, tm_mon time + 1, tm_mday time, tm_hour time, tm_min time, tm_sec time))"

definition ut_setTime ::
  "time_lib \<Rightarrow> int \<Rightarrow> int \<Rightarrow> int \<Rightarrow> int \<Rightarrow> int \<Rightarrow> int \<Rightarrow> u32 \<Rightarrow> bool \<Rightarrow> unified_time \<Rightarrow> unified_time" where
  "ut_setTime T year month day hour minute second usec dst t =
     t\<lparr>fSecs := mktime T \<lparr>tm_year = year - 1900, tm_mon = month - 1, tm_mday = day, tm_hour = hour,
                          tm_min = minute, tm_sec = second, tm_isdst = (if dst then 1 else 0)\<rparr>,
       fMicros := usec, fMode := kLocal\<rparr>"

definition ut_setGMTime ::
  "time_lib \<Rightarrow> int \<Rightarrow> int \<Rightarrow> int \<Rightarrow> int \<Rightarrow> int \<Rightarrow> int \<Rightarrow> int \<Rightarrow> u32 \<Rightarrow> bool \<Rightarrow> unified_time \<Rightarrow> unified_time" where
  "ut_setGMTime T off year month day hour minute second usec dst t =
     ut_toGMT off (ut_setTime T year month day hour minute second usec dst t)"

section \<open>Colours\<close>

text \<open>
  The components of \<open>hsColorRGBA\<close> are floats, carried as bit patterns; \<open>0x3F800000\<close> is \<open>1.0f\<close>.
  \<open>hsColor32\<close> is a union of a number and its bytes, blue in the lowest.
\<close>

record color_rgba =
  cR :: u32
  cG :: u32
  cB :: u32
  cA :: u32

definition rgba_read :: "color_rgba \<Rightarrow> color_rgba io" where
  "rgba_read c =
     io_bind readFloat (\<lambda>r. io_bind readFloat (\<lambda>g. io_bind readFloat (\<lambda>b. io_bind readFloat (\<lambda>a.
     io_return (c\<lparr>cR := r, cG := g, cB := b, cA := a\<rparr>)))))"

definition rgba_write :: "color_rgba \<Rightarrow> unit io" where
  "rgba_write c =
     io_then (writeFloat (cR c)) (io_then (writeFloat (cG c)) (io_then (writeFloat (cB c))
       (writeFloat (cA c))))"

definition rgba_readRGB :: "color_rgba \<Rightarrow> color_rgba io" where
  "rgba_readRGB c =
     io_bind readFloat (\<lambda>r. io_bind readFloat (\<lambda>g. io_bind readFloat (\<lambda>b.
     io_return (c\<lparr>cR := r, cG := g, cB := b, cA := 0x3F800000\<rparr>))))"

definition rgba_writeRGB :: "color_rgba \<Rightarrow> unit io" where
  "rgba_writeRGB c = io_then (writeFloat (cR c)) (io_then (writeFloat (cG c)) (writeFloat (cB c)))"


record color32 =
  c32_color :: u32

definition c32_read32 :: "color32 \<Rightarrow> color32 io" where
  "c32_read32 c = io_bind readInt (\<lambda>v. io_return (c\<lparr>c32_color := v\<rparr>))"

definition c32_write32 :: "color32 \<Rightarrow> unit io" where
  "c32_write32 c = writeInt (c32_color c)"

definition c32_r :: "color32 \<Rightarrow> u8" where "c32_r c = le32 (c32_color c) ! 2"
definition c32_g :: "color32 \<Rightarrow> u8" where "c32_g c = le32 (c32_color c) ! 1"
definition c32_b :: "color32 \<Rightarrow> u8" where "c32_b c = le32 (c32_color c) ! 0"
definition c32_a :: "color32 \<Rightarrow> u8" where "c32_a c = le32 (c32_color c) ! 3"

definition c32_readRGB8 :: "color32 \<Rightarrow> color32 io" where
  "c32_readRGB8 c =
     io_bind readByte (\<lambda>r. io_bind readByte (\<lambda>g. io_bind readByte (\<lambda>b.
     io_return (c\<lparr>c32_color := un_le32 [b, g, r, c32_a c]\<rparr>))))"

definition c32_writeRGB8 :: "color32 \<Rightarrow> unit io" where
  "c32_writeRGB8 c = io_then (writeByte (c32_r c)) (io_then (writeByte (c32_g c)) (writeByte (c32_b c)))"

definition c32_readRGBA8 :: "color32 \<Rightarrow> color32 io" where
  "c32_readRGBA8 c =
     io_bind readByte (\<lambda>r. io_bind readByte (\<lambda>g. io_bind readByte (\<lambda>b. io_bind readByte (\<lambda>a.
     io_return (c\<lparr>c32_color := un_le32 [b, g, r, a]\<rparr>)))))"

definition c32_writeRGBA8 :: "color32 \<Rightarrow> unit io" where
  "c32_writeRGBA8 c =
     io_then (writeByte (c32_r c)) (io_then (writeByte (c32_g c)) (io_then (writeByte (c32_b c))
       (writeByte (c32_a c))))"

section \<open>The stream forms are codecs\<close>

definition uuid_image :: "pl_uuid \<Rightarrow> bytes" where
  "uuid_image u = le32 (uFData1 u) @ le16 (uFData2 u) @ le16 (uFData3 u) @ uFData4 u"

lemma emits_uuid_write [wire]: "emits (uuid_write u) v (uuid_image u) () v"
  unfolding uuid_write_def by (rule emits_cong, (rule wire)+) (simp_all add: uuid_image_def)

lemma parses_uuid_read [wire]: "uuid_ok u \<Longrightarrow> parses (uuid_read old) v (uuid_image u) u v"
  unfolding uuid_read_def uuid_ok_def
  by (rule parses_cong, (rule wire)+, erule sym, rule wire, simp add: uuid_image_def, cases u, cases old, simp)

interpretation uuid: codec uuid_write uuid_read "\<lambda>v. uuid_ok" "\<lambda>v. uuid_image" "\<lambda>v old u. u"
  by standard (auto intro: wire)

definition ut_image :: "unified_time \<Rightarrow> bytes" where
  "ut_image t = le32 (ucast (fSecs t)) @ le32 (fMicros t)"

lemma emits_ut_write [wire]: "emits (ut_write t) v (ut_image t) () v"
  unfolding ut_write_def by (rule emits_cong, (rule wire)+) (simp_all add: ut_image_def)

lemma parses_ut_read [wire]:
  "parses (ut_read old) v (ut_image t) (t\<lparr>fSecs := take_bit 32 (fSecs t), fMode := fMode old\<rparr>) v"
  unfolding ut_read_def
  by (rule parses_cong, (rule wire)+, simp add: ut_image_def, cases t, cases old, simp add: unsigned_ucast_eq)

interpretation unified_time: codec ut_write ut_read "\<lambda>v t. True" "\<lambda>v. ut_image"
  "\<lambda>v old t. t\<lparr>fSecs := take_bit 32 (fSecs t), fMode := fMode old\<rparr>"
  by standard (auto intro: wire)

definition rgba_image :: "color_rgba \<Rightarrow> bytes" where
  "rgba_image c = le32 (cR c) @ le32 (cG c) @ le32 (cB c) @ le32 (cA c)"

definition rgb_image :: "color_rgba \<Rightarrow> bytes" where
  "rgb_image c = le32 (cR c) @ le32 (cG c) @ le32 (cB c)"

lemma emits_rgba [wire]:
  "emits (rgba_write c) v (rgba_image c) () v" "emits (rgba_writeRGB c) v (rgb_image c) () v"
  unfolding rgba_write_def rgba_writeRGB_def
  by (rule emits_cong, (rule wire)+, simp_all add: rgba_image_def rgb_image_def)+

lemma parses_rgba [wire]:
  "parses (rgba_read old) v (rgba_image c) c v"
  "parses (rgba_readRGB old) v (rgb_image c) (c\<lparr>cA := 0x3F800000\<rparr>) v"
  unfolding rgba_read_def rgba_readRGB_def
  by (rule parses_cong, (rule wire)+, simp add: rgba_image_def rgb_image_def, cases c, cases old, simp)+

interpretation rgba: codec rgba_write rgba_read "\<lambda>v c. True" "\<lambda>v. rgba_image" "\<lambda>v old c. c"
  by standard (auto intro: wire)

interpretation rgb: codec rgba_writeRGB rgba_readRGB "\<lambda>v c. True" "\<lambda>v. rgb_image"
  "\<lambda>v old c. c\<lparr>cA := 0x3F800000\<rparr>"
  by standard (auto intro: wire)

lemma c32_bytes: "le32 (c32_color c) = [c32_b c, c32_g c, c32_r c, c32_a c]"
  by (simp add: c32_b_def c32_g_def c32_r_def c32_a_def le32_def)

lemma un_le32_c32: "un_le32 [c32_b c, c32_g c, c32_r c, c32_a c] = c32_color c"
  by (simp flip: c32_bytes)

lemma emits_c32 [wire]:
  "emits (c32_write32 c) v (le32 (c32_color c)) () v"
  "emits (c32_writeRGB8 c) v [c32_r c, c32_g c, c32_b c] () v"
  "emits (c32_writeRGBA8 c) v [c32_r c, c32_g c, c32_b c, c32_a c] () v"
  unfolding c32_write32_def c32_writeRGB8_def c32_writeRGBA8_def
  by (rule emits_cong, (rule wire)+, simp, simp)+

lemma parses_c32 [wire]:
  "parses (c32_read32 old) v (le32 (c32_color c)) c v"
  "parses (c32_readRGB8 old) v [c32_r c, c32_g c, c32_b c]
     (c\<lparr>c32_color := un_le32 [c32_b c, c32_g c, c32_r c, c32_a old]\<rparr>) v"
  "parses (c32_readRGBA8 old) v [c32_r c, c32_g c, c32_b c, c32_a c] c v"
proof -
  have upd: "old\<lparr>c32_color := c32_color c\<rparr> = c" by (cases c, cases old) simp
  have upd': "old\<lparr>c32_color := x\<rparr> = c\<lparr>c32_color := x\<rparr>" for x by (cases c, cases old) simp
  show "parses (c32_read32 old) v (le32 (c32_color c)) c v"
    unfolding c32_read32_def by (rule parses_cong, (rule wire)+) (simp, rule upd)
  show "parses (c32_readRGB8 old) v [c32_r c, c32_g c, c32_b c]
     (c\<lparr>c32_color := un_le32 [c32_b c, c32_g c, c32_r c, c32_a old]\<rparr>) v"
    unfolding c32_readRGB8_def by (rule parses_cong, (rule wire)+) (simp, rule upd')
  have "parses (c32_readRGBA8 old) v [c32_r c, c32_g c, c32_b c, c32_a c]
     (old\<lparr>c32_color := un_le32 [c32_b c, c32_g c, c32_r c, c32_a c]\<rparr>) v"
    unfolding c32_readRGBA8_def by (rule parses_cong, (rule wire)+) (simp, rule refl)
  then show "parses (c32_readRGBA8 old) v [c32_r c, c32_g c, c32_b c, c32_a c] c v"
    by (simp only: un_le32_c32 upd)
qed

interpretation color32: codec c32_writeRGBA8 c32_readRGBA8 "\<lambda>v c. True"
  "\<lambda>v c. [c32_r c, c32_g c, c32_b c, c32_a c]" "\<lambda>v old c. c"
  by standard (auto intro: wire)

section \<open>UUIDs round trip\<close>

text \<open>Documented behaviour of the string library: \<open>w\<close> places suffice for numbers below \<open>16 ^ w\<close>,
  and what was printed is parsed back.\<close>

definition hex_ok :: "hex_lib \<Rightarrow> bool" where
  "hex_ok H \<longleftrightarrow> (\<forall>w n. w \<le> 8 \<longrightarrow> n < 16 ^ w \<longrightarrow>
     length (to_hex H w n) = w \<and> of_hex H (to_hex H w n) = word_of_nat n)"

lemma hex_okD:
  assumes "hex_ok H"
  shows "length (to_hex H 8 (unat (a :: u32))) = 8" "of_hex H (to_hex H 8 (unat a)) = a"
    and "length (to_hex H 4 (unat (b :: u16))) = 4" "of_hex H (to_hex H 4 (unat b)) = ucast b"
    and "length (to_hex H 2 (unat (c :: u8))) = 2" "of_hex H (to_hex H 2 (unat c)) = ucast c"
proof -
  have l: "unat a < 16 ^ 8" "unat b < 16 ^ 4" "unat c < 16 ^ 2"
    by (rule order_less_le_trans [OF unsigned_less], simp)+
  have r: "w \<le> 8 \<Longrightarrow> n < 16 ^ w \<Longrightarrow> length (to_hex H w n) = w \<and> of_hex H (to_hex H w n) = word_of_nat n"
    for w n using assms by (simp add: hex_ok_def)
  show "length (to_hex H 8 (unat a)) = 8" "of_hex H (to_hex H 8 (unat a)) = a"
    using r [OF _ l(1)] by simp_all
  show "length (to_hex H 4 (unat b)) = 4" "of_hex H (to_hex H 4 (unat b)) = ucast b"
    using r [OF _ l(2)] by (simp_all add: unsigned_of_nat)
  show "length (to_hex H 2 (unat c)) = 2" "of_hex H (to_hex H 2 (unat c)) = ucast c"
    using r [OF _ l(3)] by (simp_all add: unsigned_of_nat)
qed

lemma uuid_text:
  assumes ok: "uuid_ok u" and H: "hex_ok H"
  shows "uuid_fromString H (uuid_toString H u) old = Inr u"
proof -
  note h = hex_okD [OF H]
  obtain a b c d e f g i where d4: "uFData4 u = [a, b, c, d, e, f, g, i]"
    using ok by (auto simp: uuid_ok_def eval_nat_numeral length_Suc_conv)
  have uu: "ucast (ucast x :: u32) = (x :: u16)" "ucast (ucast y :: u32) = (y :: u8)" for x y
    by (simp_all add: unsigned_ucast_eq take_bit_word_eq_self)
  have len: "length (uuid_toString H u) = 36"
    by (simp add: uuid_toString_def Let_def h)
  have hy: "uuid_toString H u ! 8 = 45" "uuid_toString H u ! 13 = 45"
      "uuid_toString H u ! 18 = 45" "uuid_toString H u ! 23 = 45"
    by (simp_all add: uuid_toString_def Let_def nth_append h)
  have sub: "substr (uuid_toString H u) 0 8 = to_hex H 8 (unat (uFData1 u))"
      "substr (uuid_toString H u) 9 4 = to_hex H 4 (unat (uFData2 u))"
      "substr (uuid_toString H u) 14 4 = to_hex H 4 (unat (uFData3 u))"
      "map (\<lambda>i. ucast (of_hex H (substr (uuid_toString H u) i 2))) [19, 21, 24, 26, 28, 30, 32, 34] = uFData4 u"
    by (simp_all add: uuid_toString_def Let_def substr_def h d4 uu)
  show ?thesis
    unfolding uuid_fromString_def len hy sub h(2,4) uu by simp
qed

lemma uuid_buffer:
  assumes "uuid_ok u" "16 \<le> length b"
  shows "uuid_write_buffer u b = Inr (uuid_image u @ drop 16 b)"
    and "uuid_read_buffer (uuid_image u @ r) old = Inr u"
proof -
  have "length b - 4 = 12 + (length b - 16)" using assms(2) by simp
  then show "uuid_write_buffer u b = Inr (uuid_image u @ drop 16 b)"
    using assms by (simp add: uuid_write_buffer_def overwrite_def uuid_ok_def uuid_image_def)
  show "uuid_read_buffer (uuid_image u @ r) old = Inr u"
    using assms by (cases u, cases old) (simp add: uuid_read_buffer_def uuid_image_def uuid_ok_def)
qed

text \<open>
  \<open>operator!=\<close> is not the negation of \<open>operator==\<close>: two different UUIDs that agree in one of the
  first three fields are neither equal nor unequal.
\<close>

theorem uuid_eq_ne:
  "uuid_eq u v \<longleftrightarrow> u = v"
  "u \<noteq> v \<Longrightarrow> uFData1 u = uFData1 v \<or> uFData2 u = uFData2 v \<or> uFData3 u = uFData3 v \<Longrightarrow>
   \<not> uuid_eq u v \<and> \<not> uuid_ne u v"
  by (cases u, cases v, auto simp: uuid_eq_def uuid_ne_def)+

text \<open>C34: A UUID comes back from each of its three forms: written to a stream and read, written to a
  buffer of at least sixteen bytes and read (the buffer keeps what follows), and printed and parsed
  as text.\<close>

theorem uuid_roundtrip:
  assumes ok: "uuid_ok u" and len: "16 \<le> length b" and H: "hex_ok H"
  shows "(\<exists>s. uuid_write u \<lparr>s_ver = v, s_data = [], s_pos = 0\<rparr> = Inr ((), s) \<and>
        uuid_read old (s\<lparr>s_pos := 0\<rparr>) = Inr (u, s)) \<and>
    (\<exists>b'. uuid_write_buffer u b = Inr b' \<and> drop 16 b' = drop 16 b \<and> uuid_read_buffer b' old = Inr u) \<and>
    uuid_fromString H (uuid_toString H u) old = Inr u"
proof (intro conjI)
  have "length (uuid_image u) < 2 ^ 32" using ok by (simp add: uuid_image_def uuid_ok_def)
  from uuid.roundtrip [OF ok this, of v old]
  show "\<exists>s. uuid_write u \<lparr>s_ver = v, s_data = [], s_pos = 0\<rparr> = Inr ((), s) \<and>
        uuid_read old (s\<lparr>s_pos := 0\<rparr>) = Inr (u, s)" by auto
  have "length (uuid_image u) = 16" using ok by (simp add: uuid_image_def uuid_ok_def)
  then show "\<exists>b'. uuid_write_buffer u b = Inr b' \<and> drop 16 b' = drop 16 b \<and> uuid_read_buffer b' old = Inr u"
    using uuid_buffer [OF ok len] by simp
  show "uuid_fromString H (uuid_toString H u) old = Inr u" by (rule uuid_text [OF ok H])
qed

fun hex_print :: "nat \<Rightarrow> nat \<Rightarrow> bytes" where
  "hex_print 0 n = []"
| "hex_print (Suc w) n = hex_print w (n div 16) @
     [word_of_nat (if n mod 16 < 10 then 48 + n mod 16 else 87 + n mod 16)]"

definition hex_value :: "u8 \<Rightarrow> nat" where
  "hex_value c = (if c < 58 then unat c - 48 else unat c - 87)"

definition demo_hex :: hex_lib where
  "demo_hex = \<lparr>to_hex = hex_print, of_hex = (\<lambda>s. word_of_nat (foldl (\<lambda>a c. 16 * a + hex_value c) 0 s))\<rparr>"

lemma hex_value_digit:
  "n < 16 \<Longrightarrow> hex_value (word_of_nat (if n < 10 then 48 + n else 87 + n)) = n"
  by (auto simp: hex_value_def unat_of_nat word_less_nat_alt)

lemma hex_print_ok:
  "n < 16 ^ w \<Longrightarrow> length (hex_print w n) = w \<and> foldl (\<lambda>a c. 16 * a + hex_value c) 0 (hex_print w n) = n"
proof (induction w arbitrary: n)
  case (Suc w)
  have "n div 16 < 16 ^ w" using Suc.prems by (simp add: less_mult_imp_div_less mult.commute)
  then show ?case
    using Suc.IH [of "n div 16"] hex_value_digit [of "n mod 16"] by simp
qed simp

lemma demo_hex_ok: "hex_ok demo_hex"
  by (simp add: hex_ok_def demo_hex_def hex_print_ok)

theorem uuid_roundtrip_witness:
  "uuid_fromString demo_hex (uuid_toString demo_hex
      \<lparr>uFData1 = 0xDEADBEEF, uFData2 = 1, uFData3 = 2, uFData4 = [1, 2, 3, 4, 5, 6, 7, 8]\<rparr>) uuid_Null
   = Inr \<lparr>uFData1 = 0xDEADBEEF, uFData2 = 1, uFData3 = 2, uFData4 = [1, 2, 3, 4, 5, 6, 7, 8]\<rparr>"
  using uuid_roundtrip [of "\<lparr>uFData1 = 0xDEADBEEF, uFData2 = 1, uFData3 = 2, uFData4 = [1, 2, 3, 4, 5, 6, 7, 8]\<rparr>"
      "replicate 16 0" demo_hex pvMoul uuid_Null] demo_hex_ok
  by (simp add: uuid_ok_def)

section \<open>Arithmetic of time\<close>

text \<open>The point in time in microseconds, and times whose arithmetic stays in range.\<close>

definition ut_us :: "unified_time \<Rightarrow> int" where
  "ut_us t = sint (fSecs t) * 1000000 + uint (fMicros t)"

definition ut_normal :: "unified_time \<Rightarrow> bool" where
  "ut_normal t \<longleftrightarrow> uint (fMicros t) < 1000000 \<and> \<bar>sint (fSecs t)\<bar> < 2 ^ 61"

lemma sint_plus_64:
  fixes a b :: u64
  assumes "- (2 ^ 63) \<le> sint a + sint b" "sint a + sint b < 2 ^ 63"
  shows "sint (a + b) = sint a + sint b"
proof -
  have "a + b = word_of_int (sint a + sint b)" by simp
  then have "sint (a + b) = signed_take_bit 63 (sint a + sint b)"
    by (simp only: sint_sbintrunc') simp
  then show ?thesis using assms by (simp add: signed_take_bit_int_eq_self)
qed

lemma sint_minus_64:
  fixes a b :: u64
  assumes "- (2 ^ 63) \<le> sint a - sint b" "sint a - sint b < 2 ^ 63"
  shows "sint (a - b) = sint a - sint b"
proof -
  have "a - b = word_of_int (sint a - sint b)" by simp
  then have "sint (a - b) = signed_take_bit 63 (sint a - sint b)"
    by (simp only: sint_sbintrunc') simp
  then show ?thesis using assms by (simp add: signed_take_bit_int_eq_self)
qed

lemma uint_plus_32:
  fixes a b :: u32
  assumes "uint a + uint b < 2 ^ 32"
  shows "uint (a + b) = uint a + uint b"
proof -
  have "a + b = word_of_int (uint a + uint b)" by simp
  then have "uint (a + b) = take_bit 32 (uint a + uint b)"
    by (simp only: uint_word_of_int_eq) simp
  then show ?thesis using assms by (simp add: take_bit_int_eq_self)
qed

lemma uint_minus_32:
  fixes a b :: u32
  assumes "uint b \<le> uint a"
  shows "uint (a - b) = uint a - uint b"
proof -
  have "a - b = word_of_int (uint a - uint b)" by simp
  then have "uint (a - b) = take_bit 32 (uint a - uint b)"
    by (simp only: uint_word_of_int_eq) simp
  moreover have "uint a < 2 ^ 32" "0 \<le> uint b"
    by (rule order_less_le_trans [OF unsigned_less], simp) simp
  ultimately have "take_bit 32 (uint a - uint b) = uint a - uint b"
    using assms by (intro take_bit_int_eq_self) linarith+
  then show ?thesis using \<open>uint (a - b) = _\<close> by simp
qed

lemma ut_us_add:
  assumes "ut_normal t" "ut_normal u"
  shows "ut_us (ut_add t u) = ut_us t + ut_us u" "uint (fMicros (ut_add t u)) \<le> 1000000"
proof -
  let ?m = "fMicros t + fMicros u"
  have n: "uint (fMicros t) < 1000000" "uint (fMicros u) < 1000000"
    "\<bar>sint (fSecs t)\<bar> < 2 ^ 61" "\<bar>sint (fSecs u)\<bar> < 2 ^ 61"
    using assms by (simp_all add: ut_normal_def)
  have p: "0 \<le> uint (fMicros t)" "0 \<le> uint (fMicros u)" by simp_all
  have m: "uint ?m = uint (fMicros t) + uint (fMicros u)" by (rule uint_plus_32) (use n in simp)
  have c: "?m > 1000000 \<longleftrightarrow> uint ?m > 1000000" by (simp add: word_less_def)
  have d: "uint (?m - 1000000) = uint ?m - 1000000" if "?m > 1000000"
    using uint_minus_32 [of 1000000 ?m] that c by simp
  have s: "sint (fSecs t + fSecs u) = sint (fSecs t) + sint (fSecs u)"
    by (rule sint_plus_64) (use n in auto)
  have s1: "sint (fSecs t + 1) = sint (fSecs t) + 1"
    using sint_plus_64 [of "fSecs t" 1] n by simp
  have s2: "sint (fSecs t + 1 + fSecs u) = sint (fSecs t) + 1 + sint (fSecs u)"
    using sint_plus_64 [of "fSecs t + 1" "fSecs u"] n s1 by simp
  show "ut_us (ut_add t u) = ut_us t + ut_us u"
    using c d s s2 m by (simp add: ut_us_def ut_add_def Let_def)
  show "uint (fMicros (ut_add t u)) \<le> 1000000"
    using c d m n by (auto simp: ut_add_def Let_def)
qed

lemma ut_us_sub:
  assumes "ut_normal t" "ut_normal u"
  shows "ut_us (ut_sub t u) = ut_us t - ut_us u"
    and "0 < uint (fMicros (ut_sub t u))" "uint (fMicros (ut_sub t u)) \<le> 1000000"
proof -
  let ?m = "fMicros t + 1000000"
  have n: "uint (fMicros t) < 1000000" "uint (fMicros u) < 1000000"
    "\<bar>sint (fSecs t)\<bar> < 2 ^ 61" "\<bar>sint (fSecs u)\<bar> < 2 ^ 61"
    using assms by (simp_all add: ut_normal_def)
  have p: "0 \<le> uint (fMicros t)" "0 \<le> uint (fMicros u)" by simp_all
  have m: "uint ?m = uint (fMicros t) + 1000000"
    using uint_plus_32 [of "fMicros t" 1000000] n by simp
  have c: "fMicros t \<le> fMicros u \<longleftrightarrow> uint (fMicros t) \<le> uint (fMicros u)" by (simp add: word_le_def)
  have d: "uint (?m - fMicros u) = uint (fMicros t) + 1000000 - uint (fMicros u)"
    using uint_minus_32 [of "fMicros u" ?m] m n p by simp
  have e: "uint (fMicros t - fMicros u) = uint (fMicros t) - uint (fMicros u)" if "\<not> fMicros t \<le> fMicros u"
    using uint_minus_32 [of "fMicros u" "fMicros t"] that c by simp
  have s: "sint (fSecs t - fSecs u) = sint (fSecs t) - sint (fSecs u)"
    by (rule sint_minus_64) (use n in auto)
  have s1: "sint (fSecs t - 1) = sint (fSecs t) - 1"
    using sint_minus_64 [of "fSecs t" 1] n by simp
  have s2: "sint (fSecs t - 1 - fSecs u) = sint (fSecs t) - 1 - sint (fSecs u)"
    using sint_minus_64 [of "fSecs t - 1" "fSecs u"] n s1 by simp
  show "ut_us (ut_sub t u) = ut_us t - ut_us u"
    using c d e s s2 by (simp add: ut_us_def ut_sub_def Let_def)
  have "fMicros (ut_sub t u) = (if fMicros t \<le> fMicros u then ?m - fMicros u else fMicros t - fMicros u)"
    by (simp add: ut_sub_def Let_def)
  then have "uint (fMicros (ut_sub t u)) = (if uint (fMicros t) \<le> uint (fMicros u)
      then uint (fMicros t) + 1000000 - uint (fMicros u) else uint (fMicros t) - uint (fMicros u))"
    using c d e by simp
  with n p show "0 < uint (fMicros (ut_sub t u))" "uint (fMicros (ut_sub t u)) \<le> 1000000"
    by (smt (verit))+
qed

text \<open>On normal times the comparisons are those of the number of microseconds.\<close>

lemma lex_us:
  fixes s r a b :: int
  assumes "0 \<le> a" "a < 1000000" "0 \<le> b" "b < 1000000"
  shows "s * 1000000 + a < r * 1000000 + b \<longleftrightarrow> s < r \<or> s = r \<and> a < b"
    and "s * 1000000 + a \<le> r * 1000000 + b \<longleftrightarrow> s < r \<or> s = r \<and> a \<le> b"
    and "s * 1000000 + a = r * 1000000 + b \<longleftrightarrow> s = r \<and> a = b"
  using assms by (cases s r rule: linorder_cases; linarith)+

lemma ut_compare:
  assumes "ut_normal t" "ut_normal u"
  shows "ut_lt t u \<longleftrightarrow> ut_us t < ut_us u" "ut_gt t u \<longleftrightarrow> ut_us t > ut_us u"
    "ut_le t u \<longleftrightarrow> ut_us t \<le> ut_us u" "ut_ge t u \<longleftrightarrow> ut_us t \<ge> ut_us u"
    "ut_eq t u \<longleftrightarrow> ut_us t = ut_us u" "ut_ne t u \<longleftrightarrow> ut_us t \<noteq> ut_us u"
proof -
  have n: "uint (fMicros t) < 1000000" "uint (fMicros u) < 1000000"
    using assms by (simp_all add: ut_normal_def)
  note us = lex_us [OF unsigned_greater_eq n(1) unsigned_greater_eq n(2)]
    lex_us [OF unsigned_greater_eq n(2) unsigned_greater_eq n(1)]
  have e: "fSecs t = fSecs u \<longleftrightarrow> sint (fSecs t) = sint (fSecs u)"
    "fMicros t = fMicros u \<longleftrightarrow> uint (fMicros t) = uint (fMicros u)"
    by (auto intro: signed_word_eqI unsigned_word_eqI)
  show "ut_lt t u \<longleftrightarrow> ut_us t < ut_us u" "ut_gt t u \<longleftrightarrow> ut_us t > ut_us u"
    "ut_le t u \<longleftrightarrow> ut_us t \<le> ut_us u" "ut_ge t u \<longleftrightarrow> ut_us t \<ge> ut_us u"
    "ut_eq t u \<longleftrightarrow> ut_us t = ut_us u" "ut_ne t u \<longleftrightarrow> ut_us t \<noteq> ut_us u"
    unfolding ut_lt_def ut_gt_def ut_le_def ut_ge_def ut_eq_def ut_ne_def ut_us_def e word_less_def word_le_def us
    by auto
qed

lemma ut_mode_roundtrip:
  "fMode t = kLocal \<Longrightarrow> ut_toLocal off (ut_toGMT off t) = t"
  "fMode t = kGMT \<Longrightarrow> ut_toGMT off (ut_toLocal off t) = t"
  by (simp_all add: ut_toLocal_def ut_toGMT_def)



end
