(* ===== verification/MathTypes.thy ===== *)
theory MathTypes
  imports HsStrings
begin

text \<open>
  Vectors, planes, quaternions, matrices and affine parts as objects store them
  (\<open>src/core/Math\<close>): \<open>hsVector3\<close>, \<open>hsPlane3\<close>, \<open>hsQuat\<close>, \<open>hsMatrix33\<close>, \<open>hsMatrix44\<close>,
  \<open>hsAffineParts\<close>.  A \<open>float\<close> is its 32 bits, as it is on the stream; the only thing asked of
  one is whether it equals 0 (two patterns do) or 1 (one does).  The arithmetic is not modelled.
\<close>

section \<open>Vectors, planes, quaternions\<close>

record hs_vector3 =
  v_X :: u32
  v_Y :: u32
  v_Z :: u32

definition vec3_zero :: hs_vector3 where
  "vec3_zero = \<lparr>v_X = 0, v_Y = 0, v_Z = 0\<rparr>"

definition vec3_read :: "hs_vector3 io" where
  "vec3_read = io_bind readFloat (\<lambda>x. io_bind readFloat (\<lambda>y. io_bind readFloat (\<lambda>z.
     io_return \<lparr>v_X = x, v_Y = y, v_Z = z\<rparr>)))"

definition vec3_write :: "hs_vector3 \<Rightarrow> unit io" where
  "vec3_write p = io_then (writeFloat (v_X p)) (io_then (writeFloat (v_Y p)) (writeFloat (v_Z p)))"

record hs_plane3 =
  p_N :: hs_vector3
  p_W :: u32

definition plane_read :: "hs_plane3 io" where
  "plane_read = io_bind vec3_read (\<lambda>n. io_bind readFloat (\<lambda>w. io_return \<lparr>p_N = n, p_W = w\<rparr>))"

definition plane_write :: "hs_plane3 \<Rightarrow> unit io" where
  "plane_write p = io_then (vec3_write (p_N p)) (writeFloat (p_W p))"

record hs_quat =
  q_X :: u32
  q_Y :: u32
  q_Z :: u32
  q_W :: u32

definition quat_read :: "hs_quat io" where
  "quat_read = io_bind readFloat (\<lambda>x. io_bind readFloat (\<lambda>y. io_bind readFloat (\<lambda>z. io_bind readFloat (\<lambda>w.
     io_return \<lparr>q_X = x, q_Y = y, q_Z = z, q_W = w\<rparr>))))"

definition quat_write :: "hs_quat \<Rightarrow> unit io" where
  "quat_write q = io_then (writeFloat (q_X q)) (io_then (writeFloat (q_Y q))
     (io_then (writeFloat (q_Z q)) (writeFloat (q_W q))))"

section \<open>Matrices\<close>

text \<open>
  The array \<open>data\<close> of a matrix is kept by columns and written by rows: \<open>DATA(y, x)\<close> is element
  \<open>y + x * n\<close>.
\<close>

type_synonym matrix = "u32 list"

definition mat_data :: "nat \<Rightarrow> nat \<Rightarrow> nat \<Rightarrow> nat" where
  "mat_data n y x = y + x * n"

definition mat_order :: "nat \<Rightarrow> nat list" where
  "mat_order n = concat (map (\<lambda>y. map (\<lambda>x. mat_data n y x) [0..<n]) [0..<n])"

definition mat_identity :: "nat \<Rightarrow> matrix" where
  "mat_identity n = fold (\<lambda>i d. d[mat_data n i i := 0x3F800000]) [0..<n] (replicate (n * n) 0)"

text \<open>The loops of the reader assign every element, so they start from any array of the right size.\<close>

definition mat_read :: "nat \<Rightarrow> matrix io" where
  "mat_read n = io_bind (io_repeat (n * n) readFloat) (\<lambda>fs.
     io_return (fold (\<lambda>(i, f) d. d[i := f]) (zip (mat_order n) fs) (replicate (n * n) 0)))"

definition mat_write :: "nat \<Rightarrow> matrix \<Rightarrow> unit io" where
  "mat_write n m = io_each (\<lambda>i. writeFloat (m ! i)) (mat_order n)"

definition m33_read :: "matrix io" where
  "m33_read = mat_read 3"

definition m33_write :: "matrix \<Rightarrow> unit io" where
  "m33_write = mat_write 3"

text \<open>The comparisons of \<open>IsIdentity\<close> are those of floating point: minus zero equals zero.\<close>

definition float_is_0 :: "u32 \<Rightarrow> bool" where
  "float_is_0 f \<longleftrightarrow> f AND 0x7FFFFFFF = 0"

definition float_is_1 :: "u32 \<Rightarrow> bool" where
  "float_is_1 f \<longleftrightarrow> f = 0x3F800000"

definition m44_IsIdentity :: "matrix \<Rightarrow> bool" where
  "m44_IsIdentity m \<longleftrightarrow> list_all (\<lambda>y. list_all (\<lambda>x.
     if x = y then float_is_1 (m ! mat_data 4 y x) else float_is_0 (m ! mat_data 4 y x)) [0..<4]) [0..<4]"

definition m44_read :: "matrix io" where
  "m44_read = io_bind getVer (\<lambda>v.
     io_bind (io_opt (isLive v \<or> isHexIsle v) readBool True) (\<lambda>hasData.
     if hasData then mat_read 4 else io_return (mat_identity 4)))"

definition m44_write :: "matrix \<Rightarrow> unit io" where
  "m44_write m = io_bind getVer (\<lambda>v.
     let flag = isLive v \<or> isHexIsle v; hasData = (if flag then \<not> m44_IsIdentity m else True) in
     io_then (io_when flag (writeBool hasData)) (io_when hasData (mat_write 4 m)))"

section \<open>Affine parts\<close>

record hs_affine_parts =
  a_I :: u32
  a_T :: hs_vector3
  a_Q :: hs_quat
  a_U :: hs_quat
  a_K :: hs_vector3
  a_F :: u32

definition affine_read :: "hs_affine_parts io" where
  "affine_read = io_bind getVer (\<lambda>v.
     io_bind (io_opt (\<not> isMoul v) readInt 0) (\<lambda>i.
     io_bind vec3_read (\<lambda>t. io_bind quat_read (\<lambda>q. io_bind quat_read (\<lambda>u. io_bind vec3_read (\<lambda>k.
     io_bind readFloat (\<lambda>f.
     io_return \<lparr>a_I = i, a_T = t, a_Q = q, a_U = u, a_K = k, a_F = f\<rparr>)))))))"

definition affine_write :: "hs_affine_parts \<Rightarrow> unit io" where
  "affine_write p = io_bind getVer (\<lambda>v.
     io_then (io_when (\<not> isMoul v) (writeInt (a_I p)))
     (io_then (vec3_write (a_T p)) (io_then (quat_write (a_Q p)) (io_then (quat_write (a_U p))
     (io_then (vec3_write (a_K p)) (writeFloat (a_F p)))))))"

section \<open>On the wire\<close>

definition vec3_image :: "hs_vector3 \<Rightarrow> bytes" where
  "vec3_image p = le32 (v_X p) @ le32 (v_Y p) @ le32 (v_Z p)"

definition plane_image :: "hs_plane3 \<Rightarrow> bytes" where
  "plane_image p = vec3_image (p_N p) @ le32 (p_W p)"

definition quat_image :: "hs_quat \<Rightarrow> bytes" where
  "quat_image q = le32 (q_X q) @ le32 (q_Y q) @ le32 (q_Z q) @ le32 (q_W q)"

definition mat_image :: "nat \<Rightarrow> matrix \<Rightarrow> bytes" where
  "mat_image n m = concat (map (\<lambda>i. le32 (m ! i)) (mat_order n))"

definition m44_image :: "plasma_ver \<Rightarrow> matrix \<Rightarrow> bytes" where
  "m44_image v m =
     (if isLive v \<or> isHexIsle v then if m44_IsIdentity m then [0] else 1 # mat_image 4 m else mat_image 4 m)"

definition affine_image :: "plasma_ver \<Rightarrow> hs_affine_parts \<Rightarrow> bytes" where
  "affine_image v p = (if \<not> isMoul v then le32 (a_I p) else []) @
     vec3_image (a_T p) @ quat_image (a_Q p) @ quat_image (a_U p) @ vec3_image (a_K p) @ le32 (a_F p)"

text \<open>What reading makes of a matrix: the flag of the later formats turns a minus zero into a zero.\<close>

definition m44_carried :: "plasma_ver \<Rightarrow> matrix \<Rightarrow> matrix" where
  "m44_carried v m = (if (isLive v \<or> isHexIsle v) \<and> m44_IsIdentity m then mat_identity 4 else m)"

lemma emits_vec3 [wire]: "emits (vec3_write p) v (vec3_image p) () v"
  unfolding vec3_write_def vec3_image_def by (rule wire)+

lemma parses_vec3 [wire]: "parses vec3_read v (vec3_image p) p v"
  unfolding vec3_read_def vec3_image_def
  by (rule parses_eq, rule parses_bind [OF parses_prims(5)], rule parses_bind [OF parses_prims(5)],
      rule parses_bind_return [OF parses_prims(5)]) simp

lemma emits_plane [wire]: "emits (plane_write p) v (plane_image p) () v"
  unfolding plane_write_def plane_image_def by (rule wire)+

lemma parses_plane [wire]: "parses plane_read v (plane_image p) p v"
  unfolding plane_read_def plane_image_def
  by (rule parses_eq, rule parses_bind [OF parses_vec3], rule parses_bind_return [OF parses_prims(5)]) simp

lemma emits_quat [wire]: "emits (quat_write q) v (quat_image q) () v"
  unfolding quat_write_def quat_image_def by (rule wire)+

lemma parses_quat [wire]: "parses quat_read v (quat_image q) q v"
  unfolding quat_read_def quat_image_def
  by (rule parses_eq, rule parses_bind [OF parses_prims(5)], rule parses_bind [OF parses_prims(5)],
      rule parses_bind [OF parses_prims(5)], rule parses_bind_return [OF parses_prims(5)]) simp

lemma emits_mat [wire]: "emits (mat_write n m) v (mat_image n m) () v"
  unfolding mat_write_def mat_image_def by (rule wire)+

text \<open>Reading stores every element once, so nothing of the old matrix is left.\<close>

lemma fold_update:
  "fold (\<lambda>(i, f) d. d[i := f]) (zip is (map g is)) d = map (\<lambda>i. if i \<in> set is then g i else d ! i) [0..<length d]"
proof (induction "is" arbitrary: d)
  case Nil
  then show ?case by (simp add: map_nth)
next
  case (Cons j js)
  then show ?case by (auto simp: nth_list_update)
qed

lemma mat_order_3: "mat_order 3 = [0, 3, 6, 1, 4, 7, 2, 5, 8]"
  by (simp add: mat_order_def mat_data_def upt_rec)

lemma mat_order_4: "mat_order 4 = [0, 4, 8, 12, 1, 5, 9, 13, 2, 6, 10, 14, 3, 7, 11, 15]"
  by (simp add: mat_order_def mat_data_def upt_rec)

lemma mat_order_range:
  assumes "n = 3 \<or> n = 4"
  shows "distinct (mat_order n)" "set (mat_order n) = {0..<n * n}" "length (mat_order n) = n * n"
proof -
  show 1: "distinct (mat_order n)" "length (mat_order n) = n * n" using assms by (auto simp: mat_order_3 mat_order_4)
  have 2: "set (mat_order n) \<subseteq> {0..<n * n}" using assms by (auto simp: mat_order_3 mat_order_4)
  show "set (mat_order n) = {0..<n * n}"
    by (rule card_subset_eq [OF _ 2]) (simp_all add: distinct_card [OF 1(1)] 1(2))
qed

lemma parses_mat:
  assumes n: "n = 3 \<or> n = 4" and m: "length m = n * n"
  shows "parses (mat_read n) v (mat_image n m) m v"
proof -
  note r = mat_order_range [OF n]
  have p: "parses (io_repeat (n * n) readFloat) v (concat (map (\<lambda>i. le32 (m ! i)) (mat_order n)))
      (map (\<lambda>i. m ! i) (mat_order n)) v"
    by (rule parses_repeat) (simp_all add: r(3) parses_prims)
  have "fold (\<lambda>(i, f) d. d[i := f]) (zip (mat_order n) (map (\<lambda>i. m ! i) (mat_order n))) (replicate (n * n) 0) = m"
    unfolding fold_update r(2) by (simp add: m list_eq_iff_nth_eq)
  with parses_bind_return [OF p, of "\<lambda>fs. fold (\<lambda>(i, f) d. d[i := f]) (zip (mat_order n) fs) (replicate (n * n) 0)"]
  show ?thesis by (simp add: mat_read_def mat_image_def)
qed

lemma parses_m33: "length m = 9 \<Longrightarrow> parses m33_read v (mat_image 3 m) m v"
  unfolding m33_read_def by (rule parses_mat) simp_all

lemma emits_m44 [wire]: "emits (m44_write m) v (m44_image v m) () v"
proof -
  let ?f = "isLive v \<or> isHexIsle v"
  let ?d = "if ?f then \<not> m44_IsIdentity m else True"
  have "emits (io_then (io_when ?f (writeBool ?d)) (io_when ?d (mat_write 4 m))) v
      ((if ?f then [if ?d then 1 else 0] else []) @ (if ?d then mat_image 4 m else [])) () v"
    by (rule emits_then emits_when emits_prims emits_mat)+
  then show ?thesis unfolding m44_write_def Let_def m44_image_def
    by (intro emits_ver) (auto split: if_splits)
qed

lemma parses_m44:
  assumes "length m = 16"
  shows "parses m44_read v (m44_image v m) (m44_carried v m) v"
proof -
  let ?f = "isLive v \<or> isHexIsle v"
  let ?d = "if ?f then \<not> m44_IsIdentity m else True"
  have m: "parses (mat_read 4) v (mat_image 4 m) m v" by (rule parses_mat) (simp_all add: assms)
  have "parses (io_bind (io_opt ?f readBool True)
        (\<lambda>hasData. if hasData then mat_read 4 else io_return (mat_identity 4))) v
      ((if ?f then [if ?d then 1 else 0] else []) @ (if ?d then mat_image 4 m else []))
      (if ?d then m else mat_identity 4) v"
    by (rule parses_bind, rule parses_opt, rule parses_readBool, simp, rule parses_if [OF m parses_return])
  then show ?thesis unfolding m44_read_def m44_image_def m44_carried_def
    by (intro parses_ver) (auto split: if_splits)
qed

lemma emits_affine [wire]: "emits (affine_write p) v (affine_image v p) () v"
  unfolding affine_write_def affine_image_def
  by (rule emits_ver) (rule emits_then emits_when emits_prims emits_vec3 emits_quat)+

lemma parses_affine:
  "parses affine_read v (affine_image v p) (if isMoul v then p\<lparr>a_I := 0\<rparr> else p) v"
  unfolding affine_read_def affine_image_def
  by (rule parses_eq, rule parses_ver, rule parses_bind [OF parses_opt [where x = "if isMoul v then 0 else a_I p"]],
      simp add: parses_prims, simp, rule parses_bind [OF parses_vec3], rule parses_bind [OF parses_quat],
      rule parses_bind [OF parses_quat], rule parses_bind [OF parses_vec3], rule parses_bind_return [OF parses_prims(5)]) simp

interpretation vector3: codec vec3_write "\<lambda>_. vec3_read" "\<lambda>_ _. True" "\<lambda>_. vec3_image" "\<lambda>_ _ p. p"
  by unfold_locales (auto intro: emits_vec3 parses_vec3)

interpretation quat: codec quat_write "\<lambda>_. quat_read" "\<lambda>_ _. True" "\<lambda>_. quat_image" "\<lambda>_ _ p. p"
  by unfold_locales (auto intro: emits_quat parses_quat)

interpretation affine: codec affine_write "\<lambda>_. affine_read" "\<lambda>_ _. True" affine_image
  "\<lambda>v _ p. if isMoul v then p\<lparr>a_I := 0\<rparr> else p"
  by unfold_locales (blast intro: emits_affine, rule parses_affine)

end
