(* ===== verification/ObjectIO.thy ===== *)
theory ObjectIO
  imports PageFile CoreTypes BitVector
begin

text \<open>
  Objects that hold keys: the calculus for readers and writers that pass the manager's key store
  along, and the base classes \<open>hsKeyedObject\<close> and \<open>plSynchedObject\<close> of
  \<open>src/core/PRP\<close>.

  A handle is the address of key data in the store.  An object is a record; a derived class extends
  the record of its base class, and its reader calls the base class's reader first, as the C++ does.
  The object type \<open>'o\<close> of a store is left open: it is what a cell records of the object that its
  key points to, and \<open>this\<close> is the value recorded for the object that is being read.

  Writing may change an object (a bit vector is compacted, lists of keys are put in load order), so a
  writer returns it.  The callbacks that \<open>readKeyNotify\<close> registers are not modelled.
\<close>

section \<open>Passing the key store\<close>

type_synonym ('o, 'a) kio = "'o key_store \<Rightarrow> ('a \<times> 'o key_store) io"

definition k_return :: "'a \<Rightarrow> ('o, 'a) kio" where
  "k_return x st = io_return (x, st)"

definition k_throw :: "hs_exn \<Rightarrow> ('o, 'a) kio" where
  "k_throw e st = io_throw e"

definition k_bind :: "('o, 'a) kio \<Rightarrow> ('a \<Rightarrow> ('o, 'b) kio) \<Rightarrow> ('o, 'b) kio" where
  "k_bind m f st = io_bind (m st) (\<lambda>(x, st1). f x st1)"

definition k_then :: "('o, 'a) kio \<Rightarrow> ('o, 'b) kio \<Rightarrow> ('o, 'b) kio" where
  "k_then m k = k_bind m (\<lambda>_. k)"

definition k_lift :: "'a io \<Rightarrow> ('o, 'a) kio" where
  "k_lift m st = io_bind m (\<lambda>x. io_return (x, st))"

definition k_when :: "bool \<Rightarrow> ('o, unit) kio \<Rightarrow> ('o, unit) kio" where
  "k_when c m = (if c then m else k_return ())"

fun k_repeat :: "nat \<Rightarrow> ('o, 'a) kio \<Rightarrow> ('o, 'a list) kio" where
  "k_repeat 0 m = k_return []"
| "k_repeat (Suc n) m = k_bind m (\<lambda>x. k_bind (k_repeat n m) (\<lambda>xs. k_return (x # xs)))"

fun k_each :: "('a \<Rightarrow> ('o, unit) kio) \<Rightarrow> 'a list \<Rightarrow> ('o, unit) kio" where
  "k_each f [] = k_return ()"
| "k_each f (x # xs) = k_then (f x) (k_each f xs)"

text \<open>What the readers and writers of objects use of the manager.\<close>

record mgr =
  me_lib :: st_lib
  me_ver :: plasma_ver
  me_pres :: bool

definition mgr_readKey :: "mgr \<Rightarrow> ('o, nat option) kio" where
  "mgr_readKey M st = rm_readKey (me_lib M) (me_ver M) (me_pres M) st"

definition mgr_readUoid :: "mgr \<Rightarrow> ('o, nat option) kio" where
  "mgr_readUoid M st = rm_readUoid (me_lib M) (me_ver M) (me_pres M) st"

definition mgr_writeKey :: "mgr \<Rightarrow> nat option \<Rightarrow> ('o, unit) kio" where
  "mgr_writeKey M k st = io_bind (rm_writeKey (me_ver M) k st) (\<lambda>st1. io_return ((), st1))"

definition mgr_writeUoid :: "mgr \<Rightarrow> nat option \<Rightarrow> ('o, unit) kio" where
  "mgr_writeUoid M k st = io_bind (rm_writeUoid (me_ver M) k st) (\<lambda>st1. io_return ((), st1))"

text \<open>A null key has no list of callbacks: \<open>readKeyNotify\<close> dereferences it.\<close>

definition mgr_readKeyNotify :: "mgr \<Rightarrow> ('o, nat option) kio" where
  "mgr_readKeyNotify M =
     k_bind (mgr_readKey M) (\<lambda>k. case k of None \<Rightarrow> k_throw UndefinedBehaviour | Some a \<Rightarrow> k_return (Some a))"

section \<open>Keyed objects\<close>

record keyed_object =
  myKey :: "nat option"

definition ko_read :: "mgr \<Rightarrow> 'o \<Rightarrow> 'z keyed_object_scheme \<Rightarrow> ('o, 'z keyed_object_scheme) kio" where
  "ko_read M this ob =
     k_bind (k_bind (k_lift getVer) (\<lambda>v. if isMoul v then mgr_readKey M else mgr_readUoid M)) (\<lambda>k.
     case k of None \<Rightarrow> k_return (ob\<lparr>myKey := None\<rparr>)
     | Some a \<Rightarrow> (\<lambda>st. if ks_loaded st a then io_throw UndefinedBehaviour
                      else io_return (ob\<lparr>myKey := Some a\<rparr>, ks_setObj a this st)))"

definition ko_write :: "mgr \<Rightarrow> 'z keyed_object_scheme \<Rightarrow> ('o, 'z keyed_object_scheme) kio" where
  "ko_write M ob =
     k_then (k_bind (k_lift getVer) (\<lambda>v. if isMoul v then mgr_writeKey M (myKey ob) else mgr_writeUoid M (myKey ob)))
       (k_return ob)"

section \<open>Synched objects\<close>

record synched_object = keyed_object +
  fSynchFlags :: u32
  fSDLExcludeList :: "bytes list"
  fSDLVolatileList :: "bytes list"

definition kDontDirty :: u32 where "kDontDirty = 0x1"
definition kExcludePersistentState :: u32 where "kExcludePersistentState = 0x10"
definition kExcludeAllPersistentState :: u32 where "kExcludeAllPersistentState = 0x20"
definition kHasVolatileState :: u32 where "kHasVolatileState = 0x40"

definition read_names :: "st_lib \<Rightarrow> bytes list io" where
  "read_names L = io_bind readShort (\<lambda>count.
     io_repeat (unat count) (io_bind readShort (\<lambda>len. readStr L (unat len))))"

text \<open>
  The loop counter of the writer is an \<open>unsigned short\<close>: with more names than it counts the loop
  never ends, which is no result either.
\<close>

definition write_names :: "bytes list \<Rightarrow> unit io" where
  "write_names ns =
     (if 65536 \<le> length ns then io_throw UndefinedBehaviour
      else io_then (writeShort (word_of_nat (length ns)))
        (io_each (\<lambda>n. io_then (writeShort (word_of_nat (length n))) (writeStr n)) ns))"

definition so_read :: "mgr \<Rightarrow> 'o \<Rightarrow> 'z synched_object_scheme \<Rightarrow> ('o, 'z synched_object_scheme) kio" where
  "so_read M this ob0 =
     k_bind (ko_read M this ob0) (\<lambda>ob1.
     let ob = ob1\<lparr>fSDLExcludeList := [], fSDLVolatileList := []\<rparr> in
     k_bind (k_lift getVer) (\<lambda>v.
     k_bind (k_lift (if v < MAKE_VERSION 2 0 57 0 then io_return 0 else readInt)) (\<lambda>flags.
     if isUru v \<or> isUniversal v then
       k_bind (k_lift (io_opt (flags AND kExcludePersistentState \<noteq> 0) (read_names (me_lib M)) [])) (\<lambda>ex.
       k_bind (k_lift (io_opt (flags AND kHasVolatileState \<noteq> 0) (read_names (me_lib M)) [])) (\<lambda>vo.
       k_return (ob\<lparr>fSynchFlags := flags, fSDLExcludeList := ex, fSDLVolatileList := vo\<rparr>)))
     else
       let flags = flags AND NOT 0x8 in
       k_bind (k_lift (io_opt (flags AND 0x6 = 0) (read_names (me_lib M)) [])) (\<lambda>ex.
       k_return (ob\<lparr>fSynchFlags :=
           (if flags AND 0x1 \<noteq> 0 then kDontDirty else 0) OR
           (if flags AND 0x2 \<noteq> 0 then kExcludePersistentState else 0) OR
           (if flags AND 0x4 \<noteq> 0 then kExcludeAllPersistentState else 0),
         fSDLExcludeList := ex\<rparr>)))))"

definition eoa_flags :: "u32 \<Rightarrow> u32" where
  "eoa_flags fl =
     (if fl AND kDontDirty \<noteq> 0 then 0x1 else 0) OR
     (if fl AND kExcludePersistentState \<noteq> 0 then 0x2 else 0) OR
     (if fl AND kExcludeAllPersistentState \<noteq> 0 then 0x4 else 0)"

definition so_write :: "mgr \<Rightarrow> 'z synched_object_scheme \<Rightarrow> ('o, 'z synched_object_scheme) kio" where
  "so_write M ob0 =
     k_bind (ko_write M ob0) (\<lambda>ob.
     k_bind (k_lift getVer) (\<lambda>v.
     k_then (k_lift
       (if isUru v \<or> isUniversal v then
          io_then (writeInt (fSynchFlags ob))
          (io_then (io_when (fSynchFlags ob AND kExcludePersistentState \<noteq> 0) (write_names (fSDLExcludeList ob)))
            (io_when (fSynchFlags ob AND kHasVolatileState \<noteq> 0) (write_names (fSDLVolatileList ob))))
        else
          io_then (writeInt (eoa_flags (fSynchFlags ob)))
            (io_when (eoa_flags (fSynchFlags ob) AND 0x6 = 0) (write_names (fSDLExcludeList ob)))))
       (k_return ob)))"

definition so_setExclude :: "bytes \<Rightarrow> 'z synched_object_scheme \<Rightarrow> 'z synched_object_scheme" where
  "so_setExclude sdl ob = ob\<lparr>fSynchFlags := fSynchFlags ob OR kExcludePersistentState,
     fSDLExcludeList := fSDLExcludeList ob @ [sdl]\<rparr>"

definition so_setVolatile :: "bytes \<Rightarrow> 'z synched_object_scheme \<Rightarrow> 'z synched_object_scheme" where
  "so_setVolatile sdl ob = ob\<lparr>fSynchFlags := fSynchFlags ob OR kHasVolatileState,
     fSDLVolatileList := fSDLVolatileList ob @ [sdl]\<rparr>"

definition so_clearExcludes :: "'z synched_object_scheme \<Rightarrow> 'z synched_object_scheme" where
  "so_clearExcludes ob = ob\<lparr>fSDLExcludeList := [], fSynchFlags := fSynchFlags ob AND NOT kExcludePersistentState\<rparr>"

definition so_clearVolatiles :: "'z synched_object_scheme \<Rightarrow> 'z synched_object_scheme" where
  "so_clearVolatiles ob = ob\<lparr>fSDLVolatileList := [], fSynchFlags := fSynchFlags ob AND NOT kHasVolatileState\<rparr>"

section \<open>What writers emit and readers parse, with keys\<close>

text \<open>
  Keys as a writer sees them: \<open>U a\<close> is the identifier of the key at \<open>a\<close> and \<open>B a\<close> its object, if it is
  loaded.  Writing a location sets the version it carries, and nothing else changes.
\<close>

definition same_but_ver :: "pl_uoid \<Rightarrow> pl_uoid \<Rightarrow> bool" where
  "same_but_ver u w \<longleftrightarrow> (\<exists>x. u = w\<lparr>u_location := (u_location w)\<lparr>l_ver := x\<rparr>\<rparr>)"

lemma same_but_ver_refl [simp]: "same_but_ver u u"
proof -
  have l: "(u_location u)\<lparr>l_ver := l_ver (u_location u)\<rparr> = u_location u" by (cases "u_location u") simp
  have "u\<lparr>u_location := u_location u\<rparr> = u" by (cases u) simp
  then have "u = u\<lparr>u_location := (u_location u)\<lparr>l_ver := l_ver (u_location u)\<rparr>\<rparr>" unfolding l by (rule sym)
  then show ?thesis unfolding same_but_ver_def by (rule exI)
qed

lemma same_but_ver_image:
  assumes "same_but_ver u w" "isSafeVer v"
  shows "uoid_image v u = uoid_image v w" "uoid_carried L v u = uoid_carried L v w"
proof -
  obtain x where u: "u = w\<lparr>u_location := (u_location w)\<lparr>l_ver := x\<rparr>\<rparr>" using assms(1) unfolding same_but_ver_def by (rule exE)
  have i: "loc_image v (l\<lparr>l_ver := x\<rparr>) = loc_image v l" for l
    using safe_not_universal [OF assms(2)] by (simp add: loc_image_def split: sum.split)
  have k: "loc_ok v (l\<lparr>l_ver := x\<rparr>) = loc_ok v l" for l by (simp add: loc_ok_def)
  show "uoid_image v u = uoid_image v w" "uoid_carried L v u = uoid_carried L v w"
    unfolding u by (simp_all add: uoid_image_def uoid_carried_def uoid_contents_def i k)
qed

definition named :: "(nat \<Rightarrow> pl_uoid) \<Rightarrow> (nat \<Rightarrow> 'o option) \<Rightarrow> 'o key_store \<Rightarrow> bool" where
  "named U B st \<longleftrightarrow> (\<forall>a. same_but_ver (ks_uoid st a) (U a) \<and> kc_obj (ks_cells st a) = B a)"

definition wr_frame :: "'o key_store \<Rightarrow> 'o key_store \<Rightarrow> bool" where
  "wr_frame st st' \<longleftrightarrow> ks_keys st' = ks_keys st \<and> ks_next st' = ks_next st \<and>
     (\<forall>a. kc_obj (ks_cells st' a) = kc_obj (ks_cells st a) \<and> kc_refs (ks_cells st' a) = kc_refs (ks_cells st a))"

lemma wr_frame_refl [simp]: "wr_frame st st"
  by (simp add: wr_frame_def)

lemma wr_frame_trans: "wr_frame a b \<Longrightarrow> wr_frame b c \<Longrightarrow> wr_frame a c"
  by (simp add: wr_frame_def)

definition kemits :: "(nat \<Rightarrow> pl_uoid) \<Rightarrow> (nat \<Rightarrow> 'o option) \<Rightarrow> ('o, 'a) kio \<Rightarrow> plasma_ver \<Rightarrow> bytes \<Rightarrow> 'a \<Rightarrow> bool" where
  "kemits U B m v bs x \<longleftrightarrow> (\<forall>st. named U B st \<longrightarrow>
     (\<exists>st'. emits (m st) v bs (x, st') v \<and> named U B st' \<and> wr_frame st st'))"

named_theorems kwire \<open>introduction rules of the calculus with keys\<close>

lemma kemitsI:
  "(\<And>st. named U B st \<Longrightarrow> \<exists>st'. emits (m st) v bs (x, st') v \<and> named U B st' \<and> wr_frame st st') \<Longrightarrow> kemits U B m v bs x"
  by (simp add: kemits_def)

lemma kemitsD:
  assumes "kemits U B m v bs x" "named U B st"
  obtains st' where "emits (m st) v bs (x, st') v" "named U B st'" "wr_frame st st'"
  using assms unfolding kemits_def by blast

lemma kemits_return [kwire]: "kemits U B (k_return x) v [] x"
  by (rule kemitsI, rule exI, intro conjI, unfold k_return_def, rule emits_return, assumption, rule wr_frame_refl)

lemma kemits_bind [kwire]:
  assumes "kemits U B m v bs x" "kemits U B (f x) v cs y"
  shows "kemits U B (k_bind m f) v (bs @ cs) y"
proof (rule kemitsI)
  fix st :: "'a key_store"
  assume "named U B st"
  with assms(1) obtain st1 where 1: "emits (m st) v bs (x, st1) v" "named U B st1" "wr_frame st st1" by (rule kemitsD)
  from assms(2) 1(2) obtain st2 where 2: "emits (f x st1) v cs (y, st2) v" "named U B st2" "wr_frame st1 st2" by (rule kemitsD)
  have "emits (k_bind m f st) v (bs @ cs) (y, st2) v"
    unfolding k_bind_def by (rule emits_bind [OF 1(1)]) (simp add: 2(1))
  then show "\<exists>st'. emits (k_bind m f st) v (bs @ cs) (y, st') v \<and> named U B st' \<and> wr_frame st st'"
    using 2(2) wr_frame_trans [OF 1(3) 2(3)] by blast
qed

lemma kemits_then [kwire]:
  "kemits U B m v bs x \<Longrightarrow> kemits U B k v cs y \<Longrightarrow> kemits U B (k_then m k) v (bs @ cs) y"
  unfolding k_then_def by (rule kemits_bind)

lemma kemits_lift: "emits m v bs x v \<Longrightarrow> kemits U B (k_lift m) v bs x"
proof (rule kemitsI)
  fix st :: "'b key_store"
  assume m: "emits m v bs x v" and n: "named U B st"
  have "emits (k_lift m st) v (bs @ []) (x, st) v"
    unfolding k_lift_def by (rule emits_bind [OF m emits_return])
  then show "\<exists>st'. emits (k_lift m st) v bs (x, st') v \<and> named U B st' \<and> wr_frame st st'"
    using n wr_frame_refl by auto
qed

lemma kemits_ver: "kemits U B (f v) v bs x \<Longrightarrow> kemits U B (k_bind (k_lift getVer) f) v bs x"
  using kemits_bind [OF kemits_lift [OF emits_getVer], of U B f v bs x] by simp

lemma kemits_each:
  "(\<And>x. x \<in> set xs \<Longrightarrow> kemits U B (f x) v (e x) ()) \<Longrightarrow> kemits U B (k_each f xs) v (concat (map e xs)) ()"
proof (induction xs)
  case Nil
  then show ?case by (simp add: kemits_return)
next
  case (Cons x xs)
  then show ?case using kemits_then [of U B "f x" v "e x" "()" "k_each f xs" "concat (map e xs)" "()"] by simp
qed

lemma kemits_cong: "kemits U B m v bs x \<Longrightarrow> bs = bs' \<Longrightarrow> x = x' \<Longrightarrow> kemits U B m v bs' x'"
  by simp

subsection \<open>Writing a key\<close>

definition ref_image :: "plasma_ver \<Rightarrow> (nat \<Rightarrow> pl_uoid) \<Rightarrow> nat option \<Rightarrow> bytes" where
  "ref_image v U k =
     (if isUru v then case k of None \<Rightarrow> [0] | Some a \<Rightarrow> 1 # uoid_image v (U a)
      else uoid_image v (case k of None \<Rightarrow> uoid_new | Some a \<Rightarrow> U a))"

definition self_ref_image :: "plasma_ver \<Rightarrow> (nat \<Rightarrow> pl_uoid) \<Rightarrow> nat option \<Rightarrow> bytes" where
  "self_ref_image v U k =
     (if isMoul v then ref_image v U k else uoid_image v (case k of None \<Rightarrow> uoid_new | Some a \<Rightarrow> U a))"

text \<open>
  Keys a format can carry: those with an identifier it can carry and a valid location; a null key in
  Uru's formats, and in the others when the library accepts the empty name.
\<close>

definition null_ok :: "st_lib \<Rightarrow> plasma_ver \<Rightarrow> bool" where
  "null_ok L v \<longleftrightarrow> uoid_carried L v uoid_new"

definition ref_ok :: "st_lib \<Rightarrow> plasma_ver \<Rightarrow> (nat \<Rightarrow> pl_uoid) \<Rightarrow> nat option \<Rightarrow> bool" where
  "ref_ok L v U k \<longleftrightarrow> isSafeVer v \<and>
     (case k of None \<Rightarrow> isUru v \<or> null_ok L v | Some a \<Rightarrow> uoid_ok L v (U a) \<and> loc_isValid (u_location (U a)))"

definition self_ok :: "st_lib \<Rightarrow> plasma_ver \<Rightarrow> (nat \<Rightarrow> pl_uoid) \<Rightarrow> nat option \<Rightarrow> bool" where
  "self_ok L v U k \<longleftrightarrow> ref_ok L v U k \<and> (k = None \<longrightarrow> isMoul v \<or> null_ok L v)"

lemma named_upd:
  assumes "named U B st" "same_but_ver u (U a)"
  shows "named U B (ks_upd_uoid a (\<lambda>_. u) st)" "wr_frame st (ks_upd_uoid a (\<lambda>_. u) st)"
  using assms by (auto simp: named_def ks_upd_uoid_def Let_def ks_uoid_def wr_frame_def)

lemma emits_rm_writeUoid:
  assumes n: "named U B st" and sf: "isSafeVer v"
    and ok: "uoid_carried L v (case k of None \<Rightarrow> uoid_new | Some a \<Rightarrow> U a)"
  shows "\<exists>st'. emits (rm_writeUoid v k st) v (uoid_image v (case k of None \<Rightarrow> uoid_new | Some a \<Rightarrow> U a)) st' v \<and>
    named U B st' \<and> wr_frame st st'"
proof (cases k)
  case None
  have "emits (rm_writeUoid v k st) v (uoid_image v uoid_new @ []) st v"
    unfolding rm_writeUoid_def None
    by (rule emits_ver, simp only: option.case simp_thms if_False, rule emits_bind [OF emits_uoid_carried emits_return])
      (use ok None in simp)
  then show ?thesis using n None by auto
next
  case (Some a)
  have s: "same_but_ver (ks_uoid st a) (U a)" using n by (simp add: named_def)
  have c: "uoid_carried L v (ks_uoid st a)" using ok Some same_but_ver_image(2) [OF s sf] by simp
  let ?u = "(ks_uoid st a)\<lparr>u_location := loc_write_ver v (u_location (ks_uoid st a))\<rparr>"
  have "emits (rm_writeUoid v k st) v (uoid_image v (ks_uoid st a) @ []) (ks_upd_uoid a (\<lambda>_. ?u) st) v"
    unfolding rm_writeUoid_def Some
    by (rule emits_ver, simp only: option.case simp_thms if_False, rule emits_bind [OF emits_uoid_carried [OF c] emits_return])
  moreover have "same_but_ver ?u (U a)"
    using s by (auto simp: same_but_ver_def loc_write_ver_safe [OF sf])
  ultimately show ?thesis
    using named_upd [OF n, of ?u a] same_but_ver_image(1) [OF s sf] Some by auto
qed

lemma ref_carried: "ref_ok L v U k \<Longrightarrow> \<not> isUru v \<or> k \<noteq> None \<Longrightarrow>
  isSafeVer v \<and> uoid_carried L v (case k of None \<Rightarrow> uoid_new | Some a \<Rightarrow> U a)"
  by (auto simp: ref_ok_def null_ok_def uoid_ok_carried split: option.splits)

lemma kemits_writeUoid:
  assumes "isSafeVer v" "uoid_carried L v (case k of None \<Rightarrow> uoid_new | Some a \<Rightarrow> U a)" "me_ver M = v"
  shows "kemits U B (mgr_writeUoid M k) v (uoid_image v (case k of None \<Rightarrow> uoid_new | Some a \<Rightarrow> U a)) ()"
proof (rule kemitsI)
  fix st :: "'a key_store"
  assume "named U B st"
  from emits_rm_writeUoid [OF this assms(1,2)] obtain st' where
    e: "emits (rm_writeUoid v k st) v (uoid_image v (case k of None \<Rightarrow> uoid_new | Some a \<Rightarrow> U a)) st' v"
    "named U B st'" "wr_frame st st'" by blast
  have "emits (mgr_writeUoid M k st) v (uoid_image v (case k of None \<Rightarrow> uoid_new | Some a \<Rightarrow> U a) @ []) ((), st') v"
    unfolding mgr_writeUoid_def assms(3) by (rule emits_bind [OF e(1) emits_return])
  with e show "\<exists>st'. emits (mgr_writeUoid M k st) v (uoid_image v (case k of None \<Rightarrow> uoid_new | Some a \<Rightarrow> U a)) ((), st') v \<and>
      named U B st' \<and> wr_frame st st'" by auto
qed

lemma kemits_writeKey [kwire]:
  assumes ok: "ref_ok L v U k" and M: "me_ver M = v"
  shows "kemits U B (mgr_writeKey M k) v (ref_image v U k) ()"
proof (rule kemitsI)
  fix st :: "'a key_store"
  assume n: "named U B st"
  have sf: "isSafeVer v" using ok by (simp add: ref_ok_def)
  have nu: "\<not> isUniversal v" by (rule safe_not_universal [OF sf])
  have np: "isNewPlasma v = (\<not> isUru v)" using safe_uru(1) [OF sf] by blast
  have w: "emits (io_when (isUru v \<or> isUniversal v) (writeBool (k \<noteq> None))) v
      (if isUru v then [if k \<noteq> None then 1 else 0] else []) () v"
    using emits_prims(7) nu by (simp add: io_when_def emits_return)
  have "\<exists>st'. emits (rm_writeKey v k st) v (ref_image v U k) st' v \<and> named U B st' \<and> wr_frame st st'"
  proof (cases "isUru v \<and> k = None")
    case True
    have "emits (io_bind getVer (\<lambda>va. if k \<noteq> None \<or> isNewPlasma va then rm_writeUoid v k st else io_return st)) v [] st v"
      using True np by (intro emits_ver) (simp add: emits_return)
    from emits_then [OF w this] have "emits (rm_writeKey v k st) v ([0] @ []) st v"
      unfolding rm_writeKey_def using True by (intro emits_ver) simp
    then show ?thesis using n True by (auto simp: ref_image_def)
  next
    case False
    let ?u = "case k of None \<Rightarrow> uoid_new | Some a \<Rightarrow> U a"
    have c: "uoid_carried L v ?u" using ref_carried [OF ok] False by auto
    obtain st' where e: "emits (rm_writeUoid v k st) v (uoid_image v ?u) st' v" "named U B st'" "wr_frame st st'"
      using emits_rm_writeUoid [OF n sf c] by blast
    have "emits (io_bind getVer (\<lambda>va. if k \<noteq> None \<or> isNewPlasma va then rm_writeUoid v k st else io_return st)) v
        (uoid_image v ?u) st' v"
      using e(1) False np by (intro emits_ver) auto
    from emits_then [OF w this]
    have "emits (rm_writeKey v k st) v ((if isUru v then [1] else []) @ uoid_image v ?u) st' v"
      unfolding rm_writeKey_def using False by (intro emits_ver) (auto split: if_splits)
    then show ?thesis using e(2,3) False by (auto simp: ref_image_def split: option.splits)
  qed
  then obtain st' where e: "emits (rm_writeKey v k st) v (ref_image v U k) st' v" "named U B st'" "wr_frame st st'" by blast
  have "emits (mgr_writeKey M k st) v (ref_image v U k @ []) ((), st') v"
    unfolding mgr_writeKey_def M by (rule emits_bind [OF e(1) emits_return])
  with e show "\<exists>st'. emits (mgr_writeKey M k st) v (ref_image v U k) ((), st') v \<and> named U B st' \<and> wr_frame st st'" by auto
qed

subsection \<open>Resolving an identifier\<close>

lemma intern_objects:
  assumes "rm_intern pres u st = (r, st')"
  shows "ks_next st' = ks_next st + 1"
    and "kc_obj (ks_cells st' c) = (if c = ks_next st then None else kc_obj (ks_cells st c))"
proof -
  define s0 where "s0 = snd (ks_alloc (key_data_new\<lparr>k_uoid := u\<rparr>) st)"
  have al: "ks_alloc (key_data_new\<lparr>k_uoid := u\<rparr>) st = (ks_next st, s0)" by (simp add: s0_def ks_alloc_def)
  have s0: "ks_next s0 = ks_next st + 1" "kc_obj (ks_cells s0 c) = (if c = ks_next st then None else kc_obj (ks_cells st c))" for c
    by (simp_all add: s0_def ks_alloc_def)
  have dr: "kc_obj (ks_cells (ks_drop a s) c) = kc_obj (ks_cells s c)" for a c and s :: "'a key_store"
    by (simp add: ks_drop_def)
  have id: "ks_next (ks_setID a i s) = ks_next s" "kc_obj (ks_cells (ks_setID a i s) c) = kc_obj (ks_cells s c)"
    for a i c and s :: "'a key_store"
    by (simp_all add: ks_setID_def ks_upd_uoid_def Let_def)
  have ad: "ks_next s1 = ks_next s" "kc_obj (ks_cells s1 c) = kc_obj (ks_cells s c)"
    if "rm_AddKey a s = (b, s1)" for a b c and s s1 :: "'a key_store"
    using that
    by (auto simp: rm_AddKey_def ks_find_def Let_def ks_add_def ks_push_def ks_mark_def id split: option.splits prod.splits)
  obtain b s1 where add: "rm_AddKey (ks_next st) s0 = (b, s1)" by fastforce
  show "ks_next st' = ks_next st + 1"
    "kc_obj (ks_cells st' c) = (if c = ks_next st then None else kc_obj (ks_cells st c))"
    using assms unfolding rm_intern_def al
    by (simp_all add: dr id s0 add ad [OF add] split: if_splits) (auto simp: dr id s0 ad [OF add])
qed

text \<open>An identifier with no valid location is a null key.\<close>

lemma intern_invalid:
  assumes "located st" "bounded st" "\<not> loc_isValid (u_location u)"
  shows "\<exists>st'. rm_intern pres u st = (None, st') \<and> located st' \<and> bounded st' \<and>
    (\<forall>c w. stands_for c w st' = stands_for c w st)"
proof -
  obtain s0 where s0: "ks_alloc (key_data_new\<lparr>k_uoid := u\<rparr>) st = (ks_next st, s0)" "\<And>l t. ks_vec l t s0 = ks_vec l t st"
    "\<And>b. cell_data s0 b = (if b = ks_next st then key_data_new\<lparr>k_uoid := u\<rparr> else cell_data st b)"
    "ks_next s0 = ks_next st + 1"
    by (rule alloc_cases [of "key_data_new\<lparr>k_uoid := u\<rparr>" st]) (rule that)
  let ?st = "ks_drop (ks_next st) s0"
  have fresh: "b \<in> set (kv_keys (ks_vec l t st)) \<Longrightarrow> b \<noteq> ks_next st" for b l t
    using assms(2) by (auto simp: bounded_def)
  have "rm_intern pres u st = (None, ?st)" using s0(1) assms(3) by (simp add: rm_intern_def)
  moreover have "located ?st" by (rule located_on [OF assms(1)]) (use fresh in \<open>auto simp: s0\<close>)
  moreover have "bounded ?st" using assms(2) by (auto simp: bounded_def s0 less_Suc_eq)
  moreover have "stands_for c w ?st = stands_for c w st" for c w
    using fresh by (auto simp: stands_for_def ks_uoid_data s0)
  ultimately show ?thesis by blast
qed

subsection \<open>Readers\<close>

text \<open>
  What reading does to the store.  Keys that stand in it go on standing for the same identifiers.
  The object \<open>this\<close> becomes the object of its own key, whose identifier is in \<open>S\<close>, and no other
  key changes its object.
\<close>

definition rd_inv :: "'o key_store \<Rightarrow> bool" where
  "rd_inv st \<longleftrightarrow> located st \<and> bounded st"

definition grows :: "'o key_store \<Rightarrow> 'o key_store \<Rightarrow> bool" where
  "grows st st' \<longleftrightarrow> (\<forall>c w. stands_for c w st \<longrightarrow> stands_for c w st')"

definition rd_step :: "pl_uoid set \<Rightarrow> 'o \<Rightarrow> 'o key_store \<Rightarrow> 'o key_store \<Rightarrow> bool" where
  "rd_step S this st st' \<longleftrightarrow> rd_inv st' \<and> grows st st' \<and> ks_next st \<le> ks_next st' \<and>
     (\<forall>w \<in> S. \<forall>c. stands_for c w st' \<longrightarrow> kc_obj (ks_cells st' c) = Some this) \<and>
     (\<forall>c < ks_next st. (\<forall>w \<in> S. \<not> stands_for c w st') \<longrightarrow> kc_obj (ks_cells st' c) = kc_obj (ks_cells st c))"

definition unloaded :: "pl_uoid set \<Rightarrow> 'o key_store \<Rightarrow> bool" where
  "unloaded S st \<longleftrightarrow> (\<forall>w \<in> S. \<forall>c. stands_for c w st \<longrightarrow> \<not> ks_loaded st c)"

text \<open>
  \<open>kparses W this S m v bs R X\<close>: wherever \<open>bs\<close> stands in a stream of version \<open>v\<close>, the reader \<open>m\<close>
  consumes it and returns \<open>X f\<close>, where \<open>f\<close> takes each written handle \<open>a\<close> of \<open>R\<close> to the handle that
  stands for its identifier \<open>W a\<close> from then on.
\<close>

definition resolves :: "(nat \<Rightarrow> pl_uoid) \<Rightarrow> nat set \<Rightarrow> (nat \<Rightarrow> nat) \<Rightarrow> 'o key_store \<Rightarrow> bool" where
  "resolves W R f st \<longleftrightarrow> (\<forall>a \<in> R. stands_for (f a) (W a) st)"

definition kparses ::
    "(nat \<Rightarrow> pl_uoid) \<Rightarrow> 'o \<Rightarrow> pl_uoid set \<Rightarrow> ('o, 'a) kio \<Rightarrow> plasma_ver \<Rightarrow> bytes \<Rightarrow> nat set \<Rightarrow> ((nat \<Rightarrow> nat) \<Rightarrow> 'a) \<Rightarrow> bool" where
  "kparses W this S m v bs R X \<longleftrightarrow> (\<forall>st. rd_inv st \<longrightarrow> unloaded S st \<longrightarrow>
     (\<exists>st' x. parses (m st) v bs (x, st') v \<and> rd_step S this st st' \<and> (\<exists>f. resolves W R f st') \<and>
       (\<forall>f st''. rd_inv st'' \<longrightarrow> grows st' st'' \<longrightarrow> resolves W R f st'' \<longrightarrow> x = X f)))"

lemma grows_refl [simp]: "grows st st"
  by (simp add: grows_def)

lemma grows_trans: "grows a b \<Longrightarrow> grows b c \<Longrightarrow> grows a c"
  by (simp add: grows_def)

lemma resolves_grows: "resolves W R f st \<Longrightarrow> grows st st' \<Longrightarrow> resolves W R f st'"
  by (simp add: resolves_def grows_def)

lemma resolves_Un: "resolves W (R \<union> Q) f st \<longleftrightarrow> resolves W R f st \<and> resolves W Q f st"
  by (auto simp: resolves_def)

lemma rd_step_refl: "rd_inv st \<Longrightarrow> rd_step {} this st st"
  by (simp add: rd_step_def)

lemma rd_step_trans:
  assumes 1: "rd_step S this st st1" and 2: "rd_step {} this st1 st2" and S: "\<And>w. w \<in> S \<Longrightarrow> \<exists>c. stands_for c w st1"
    and b: "rd_inv st1"
  shows "rd_step S this st st2"
proof -
  have loc: "located st2" using 2 by (simp add: rd_step_def rd_inv_def)
  have same: "stands_for c w st1" if "w \<in> S" "stands_for c w st2" for c w
  proof -
    obtain b where b: "stands_for b w st1" using S [OF \<open>w \<in> S\<close>] by blast
    then have "stands_for b w st2" using 2 by (simp add: rd_step_def grows_def)
    then have "b = c" by (rule stands_for_unique [OF loc _ that(2)])
    with b show ?thesis by simp
  qed
  have old: "c < ks_next st1" if "stands_for c w st1" for c w
    using that b by (auto simp: stands_for_def rd_inv_def bounded_def)
  have own: "kc_obj (ks_cells st2 c) = Some this" if "w \<in> S" "stands_for c w st2" for c w
    using same [OF that] old [OF same [OF that]] 1 2 \<open>w \<in> S\<close> unfolding rd_step_def by (metis empty_iff)
  have other: "kc_obj (ks_cells st2 c) = kc_obj (ks_cells st c)"
    if "c < ks_next st" "\<forall>w \<in> S. \<not> stands_for c w st2" for c
  proof -
    have "\<forall>w \<in> S. \<not> stands_for c w st1" using that(2) 2 by (auto simp: rd_step_def grows_def)
    then have "kc_obj (ks_cells st1 c) = kc_obj (ks_cells st c)" using 1 that(1) by (simp add: rd_step_def)
    moreover have "c < ks_next st1" using 1 that(1) by (simp add: rd_step_def)
    ultimately show ?thesis using 2 by (simp add: rd_step_def)
  qed
  show ?thesis
    using 1 2 own other grows_trans unfolding rd_step_def by (meson le_trans)
qed

lemma kparsesI:
  "(\<And>st. rd_inv st \<Longrightarrow> unloaded S st \<Longrightarrow>
     \<exists>st' x. parses (m st) v bs (x, st') v \<and> rd_step S this st st' \<and> (\<exists>f. resolves W R f st') \<and>
       (\<forall>f st''. rd_inv st'' \<longrightarrow> grows st' st'' \<longrightarrow> resolves W R f st'' \<longrightarrow> x = X f)) \<Longrightarrow>
   kparses W this S m v bs R X"
  by (simp add: kparses_def)

lemma kparsesD:
  assumes "kparses W this S m v bs R X" "rd_inv st" "unloaded S st"
  obtains st' x where "parses (m st) v bs (x, st') v" "rd_step S this st st'" "\<exists>f. resolves W R f st'"
    "\<And>f st''. rd_inv st'' \<Longrightarrow> grows st' st'' \<Longrightarrow> resolves W R f st'' \<Longrightarrow> x = X f"
  using assms unfolding kparses_def by blast

lemma unloaded_empty [simp]: "unloaded {} st"
  by (simp add: unloaded_def)

lemma kparses_return:
  fixes this :: 'o
  shows "kparses W this {} (k_return x) v [] {} (\<lambda>f. x)"
proof (rule kparsesI)
  fix st :: "'o key_store"
  assume i: "rd_inv st"
  have "parses (k_return x st) v [] (x, st) v" unfolding k_return_def by (rule parses_return)
  with rd_step_refl [OF i] show "\<exists>st' y. parses (k_return x st) v [] (y, st') v \<and> rd_step {} this st st' \<and>
      (\<exists>f. resolves W {} f st') \<and> (\<forall>f st''. rd_inv st'' \<longrightarrow> grows st' st'' \<longrightarrow> resolves W {} f st'' \<longrightarrow> y = x)"
    by (auto simp: resolves_def)
qed

text \<open>The identifiers in \<open>S\<close> must be among those resolved, so that later steps keep the object in place.\<close>

lemma kparses_bind:
  fixes this :: 'o
  assumes 1: "kparses W this S m v bs R X" and 2: "\<And>x. kparses W this {} (F x) v cs Q (Y x)" and S: "S \<subseteq> W ` R"
  shows "kparses W this S (k_bind m F) v (bs @ cs) (R \<union> Q) (\<lambda>f. Y (X f) f)"
proof (rule kparsesI)
  fix st :: "'o key_store"
  assume i: "rd_inv st" and u: "unloaded S st"
  from 1 i u obtain st1 x where a: "parses (m st) v bs (x, st1) v" "rd_step S this st st1" "\<exists>f. resolves W R f st1"
    "\<And>f st''. rd_inv st'' \<Longrightarrow> grows st1 st'' \<Longrightarrow> resolves W R f st'' \<Longrightarrow> x = X f" by (rule kparsesD) blast
  have i1: "rd_inv st1" using a(2) by (simp add: rd_step_def)
  from 2 [of x] i1 unloaded_empty obtain st2 y where b: "parses (F x st1) v cs (y, st2) v" "rd_step {} this st1 st2"
    "\<exists>f. resolves W Q f st2"
    "\<And>f st''. rd_inv st'' \<Longrightarrow> grows st2 st'' \<Longrightarrow> resolves W Q f st'' \<Longrightarrow> y = Y x f" by (rule kparsesD) blast
  have g: "grows st1 st2" and i2: "rd_inv st2" using b(2) by (simp_all add: rd_step_def)
  have p: "parses (k_bind m F st) v (bs @ cs) (y, st2) v"
    unfolding k_bind_def by (rule parses_bind [OF a(1)]) (simp add: b(1))
  have st: "\<exists>c. stands_for c w st1" if "w \<in> S" for w
    using S a(3) that by (auto simp: resolves_def)
  have step: "rd_step S this st st2" by (rule rd_step_trans [OF a(2) b(2) st i1])
  obtain f1 f2 where f: "resolves W R f1 st1" "resolves W Q f2 st2" using a(3) b(3) by blast
  have "resolves W (R \<union> Q) (\<lambda>a. if a \<in> R then f1 a else f2 a) st2"
    using resolves_grows [OF f(1) g] f(2) by (auto simp: resolves_def)
  moreover have "y = Y (X f) f" if "rd_inv st''" "grows st2 st''" "resolves W (R \<union> Q) f st''" for f st''
    using a(4) [OF that(1) grows_trans [OF g that(2)]] b(4) [OF that(1,2)] that(3) by (auto simp: resolves_Un)
  ultimately show "\<exists>st' x. parses (k_bind m F st) v (bs @ cs) (x, st') v \<and> rd_step S this st st' \<and>
      (\<exists>f. resolves W (R \<union> Q) f st') \<and>
      (\<forall>f st''. rd_inv st'' \<longrightarrow> grows st' st'' \<longrightarrow> resolves W (R \<union> Q) f st'' \<longrightarrow> x = Y (X f) f)"
    using p step by blast
qed

lemma kparses_lift:
  fixes this :: 'o
  assumes "parses m v bs x v"
  shows "kparses W this {} (k_lift m) v bs {} (\<lambda>f. x)"
proof (rule kparsesI)
  fix st :: "'o key_store"
  assume i: "rd_inv st"
  have "parses (k_lift m st) v bs (x, st) v"
    unfolding k_lift_def by (rule parses_bind_return [OF assms])
  with rd_step_refl [OF i] show "\<exists>st' y. parses (k_lift m st) v bs (y, st') v \<and> rd_step {} this st st' \<and>
      (\<exists>f. resolves W {} f st') \<and> (\<forall>f st''. rd_inv st'' \<longrightarrow> grows st' st'' \<longrightarrow> resolves W {} f st'' \<longrightarrow> y = x)"
    by (auto simp: resolves_def)
qed

lemma kparses_lift_bind:
  fixes this :: 'o
  assumes m: "parses m v bs x v" and F: "kparses W this S (F x) v cs R X"
  shows "kparses W this S (k_bind (k_lift m) F) v (bs @ cs) R X"
proof (rule kparsesI)
  fix st :: "'o key_store"
  assume "rd_inv st" "unloaded S st"
  with F obtain st' y where a: "parses (F x st) v cs (y, st') v" "rd_step S this st st'" "\<exists>f. resolves W R f st'"
    "\<And>f st''. rd_inv st'' \<Longrightarrow> grows st' st'' \<Longrightarrow> resolves W R f st'' \<Longrightarrow> y = X f" by (rule kparsesD) blast
  have "parses (k_bind (k_lift m) F st) v (bs @ cs) (y, st') v"
    unfolding k_bind_def k_lift_def
    by (rule parses_bind [OF parses_bind_return [OF m]]) (simp add: a(1))
  with a show "\<exists>st' x. parses (k_bind (k_lift m) F st) v (bs @ cs) (x, st') v \<and> rd_step S this st st' \<and>
      (\<exists>f. resolves W R f st') \<and> (\<forall>f st''. rd_inv st'' \<longrightarrow> grows st' st'' \<longrightarrow> resolves W R f st'' \<longrightarrow> x = X f)"
    by blast
qed

lemma kparses_ver: "kparses W this S (F v) v bs R X \<Longrightarrow> kparses W this S (k_bind (k_lift getVer) F) v bs R X"
  using kparses_lift_bind [OF parses_getVer, of W this S F v bs R X] by simp

lemma kparses_cong:
  "kparses W this S m v bs R X \<Longrightarrow> bs = bs' \<Longrightarrow> R = R' \<Longrightarrow> X = X' \<Longrightarrow> kparses W this S m v bs' R' X'"
  by simp

text \<open>Only the values of \<open>f\<close> on \<open>R\<close> matter.\<close>

lemma kparses_value:
  "kparses W this S m v bs R X \<Longrightarrow> (\<And>f. X f = X' f) \<Longrightarrow> kparses W this S m v bs R X'"
  by (simp add: kparses_def)

subsection \<open>Reading a key\<close>

definition wire_id :: "plasma_ver \<Rightarrow> (nat \<Rightarrow> pl_uoid) \<Rightarrow> nat \<Rightarrow> pl_uoid" where
  "wire_id v U a = uoid_upd v uoid_new (U a)"

lemma wire_id_valid [simp]: "loc_isValid (u_location (wire_id v U a)) = loc_isValid (u_location (U a))"
  by (simp add: wire_id_def)

lemma parses_readUoid_data:
  assumes "parses (uoid_read L uoid_new) v bs u v"
  shows "parses (rm_readUoid L v pres st) v bs (rm_intern pres u st) v"
  unfolding rm_readUoid_def
  by (rule parses_ver) (simp only: simp_thms if_False, rule parses_bind_return [OF assms])

text \<open>How a handle that stands for an identifier is found again through any later store.\<close>

lemma resolved:
  assumes "stands_for b w st'" "rd_inv st''" "grows st' st''" "stands_for c w st''"
  shows "c = b"
  using assms stands_for_unique [of st'' c w b] by (auto simp: rd_inv_def grows_def)

text \<open>An identifier resolved, and the keys that have objects.\<close>

lemma intern_key:
  fixes this :: 'o
  assumes i: "rd_inv (st :: 'o key_store)" and v: "loc_isValid (u_location w)"
  obtains b st' where "rm_intern pres w st = (Some b, st')" "rd_step {} this st st'" "stands_for b w st'"
    "ks_loaded st' b \<Longrightarrow> stands_for b w st \<and> ks_loaded st b"
proof -
  obtain b st' where I: "rm_intern pres w st = (Some b, st')" "located st'" "bounded st'" "stands_for b w st'"
    "\<forall>c u. stands_for c u st \<longrightarrow> stands_for c u st'" "\<forall>c u. stands_for c u st' \<longrightarrow> c = ks_next st \<or> stands_for c u st"
    using intern_spec [of st w pres] i v by (auto simp: rd_inv_def)
  note ob = intern_objects [OF I(1)]
  have "rd_step {} this st st'" using I ob by (simp add: rd_step_def rd_inv_def grows_def)
  moreover have "stands_for b w st \<and> ks_loaded st b" if "ks_loaded st' b"
    using that I(4,6) ob(2) [of b] by (auto simp: ks_loaded_def split: if_splits)
  ultimately show thesis using I(1,4) by (intro that)
qed

lemma parses_key_bytes:
  fixes this :: 'o
  assumes M: "me_lib M = L" "me_ver M = v" and sf: "isSafeVer v" and i: "rd_inv (st :: 'o key_store)"
    and ok: "case k of None \<Rightarrow> null_ok L v | Some a \<Rightarrow> uoid_ok L v (U a) \<and> loc_isValid (u_location (U a))"
  shows "\<exists>st' r. parses (mgr_readUoid M st) v (uoid_image v (case k of None \<Rightarrow> uoid_new | Some a \<Rightarrow> U a)) (r, st') v \<and>
    rd_step {} this st st' \<and>
    (case k of None \<Rightarrow> r = None
     | Some a \<Rightarrow> \<exists>b. r = Some b \<and> stands_for b (wire_id v U a) st' \<and>
         (ks_loaded st' b \<longrightarrow> stands_for b (wire_id v U a) st \<and> ks_loaded st b))"
proof (cases k)
  case None
  let ?u = "(uoid_upd v uoid_new uoid_new)\<lparr>u_classType := class_wire v (u_classType uoid_new)\<rparr>"
  have c: "uoid_carried L v uoid_new" using ok None by (simp add: null_ok_def)
  have "\<not> loc_isValid (u_location ?u)" by (simp add: uoid_new_def uoid_upd_def loc_isValid_def loc_new_def)
  then obtain st' where I: "rm_intern (me_pres M) ?u st = (None, st')" "located st'" "bounded st'"
    "\<forall>c w. stands_for c w st' = stands_for c w st"
    using intern_invalid [of st ?u "me_pres M"] i by (auto simp: rd_inv_def)
  have "parses (mgr_readUoid M st) v (uoid_image v uoid_new) (None, st') v"
    unfolding mgr_readUoid_def M using parses_readUoid_data [OF parses_uoid_carried [OF c], of "me_pres M" st] I(1) by simp
  moreover have "rd_step {} this st st'"
    using I intern_objects [OF I(1)] by (simp add: rd_step_def rd_inv_def grows_def)
  ultimately show ?thesis using None by auto
next
  case (Some a)
  then have c: "uoid_ok L v (U a)" "loc_isValid (u_location (wire_id v U a))" using ok by simp_all
  obtain b st' where I: "rm_intern (me_pres M) (wire_id v U a) st = (Some b, st')" "rd_step {} this st st'"
    "stands_for b (wire_id v U a) st'"
    "ks_loaded st' b \<Longrightarrow> stands_for b (wire_id v U a) st \<and> ks_loaded st b"
    by (rule intern_key [OF i c(2)]) blast
  have "parses (mgr_readUoid M st) v (uoid_image v (U a)) (Some b, st') v"
    unfolding mgr_readUoid_def M
    using parses_readUoid_data [OF parses_uoid_read [OF c(1)], of "me_pres M" st] I(1) by (simp add: wire_id_def)
  then show ?thesis using I Some by auto
qed

lemma parses_ref_bytes:
  fixes this :: 'o
  assumes M: "me_lib M = L" "me_ver M = v" and i: "rd_inv (st :: 'o key_store)" and ok: "ref_ok L v U k"
  shows "\<exists>st' r. parses (mgr_readKey M st) v (ref_image v U k) (r, st') v \<and> rd_step {} this st st' \<and>
    (case k of None \<Rightarrow> r = None
     | Some a \<Rightarrow> \<exists>b. r = Some b \<and> stands_for b (wire_id v U a) st' \<and>
         (ks_loaded st' b \<longrightarrow> stands_for b (wire_id v U a) st \<and> ks_loaded st b))"
proof -
  have sf: "isSafeVer v" using ok by (simp add: ref_ok_def)
  have nu: "\<not> isUniversal v" by (rule safe_not_universal [OF sf])
  have key: "parses (mgr_readKey M st) v bs r v"
    if "parses (if isUru v then io_bind readBool (\<lambda>ex. if ex then mgr_readUoid M st else io_return (None, st))
                else mgr_readUoid M st) v bs r v" for bs r
    unfolding mgr_readKey_def rm_readKey_def M
    by (rule parses_ver, simp only: simp_thms if_False nu) (use that in \<open>unfold mgr_readUoid_def M\<close>)
  have bool: "parses readBool v [if t then 1 else 0] t v" for t by (rule parses_readBool)
  show ?thesis
  proof (cases "isUru v \<and> k = None")
    case True
    have "parses (mgr_readKey M st) v ([if False then 1 else 0] @ []) (None, st) v"
      by (rule key) (use True in \<open>simp only: if_True simp_thms\<close>, rule parses_bind [OF bool], simp add: parses_return)
    then have "parses (mgr_readKey M st) v (ref_image v U k) (None, st) v" using True by (simp add: ref_image_def)
    then show ?thesis using True rd_step_refl [OF i] by auto
  next
    case False
    let ?u = "case k of None \<Rightarrow> uoid_new | Some a \<Rightarrow> U a"
    have ok': "case k of None \<Rightarrow> null_ok L v | Some a \<Rightarrow> uoid_ok L v (U a) \<and> loc_isValid (u_location (U a))"
      using ok False by (auto simp: ref_ok_def split: option.splits)
    obtain st' r where p: "parses (mgr_readUoid M st) v (uoid_image v ?u) (r, st') v" "rd_step {} this st st'"
      "case k of None \<Rightarrow> r = None | Some a \<Rightarrow> \<exists>b. r = Some b \<and> stands_for b (wire_id v U a) st' \<and>
         (ks_loaded st' b \<longrightarrow> stands_for b (wire_id v U a) st \<and> ks_loaded st b)"
      using parses_key_bytes [OF M sf i ok', of this] by blast
    have "parses (mgr_readKey M st) v (ref_image v U k) (r, st') v"
    proof (cases "isUru v")
      case True
      then obtain a where k: "k = Some a" using False by auto
      have q: "parses (mgr_readUoid M st) v (uoid_image v (U a)) (r, st') v" using p(1) k by simp
      have "parses (mgr_readKey M st) v ([if True then 1 else 0] @ uoid_image v (U a)) (r, st') v"
        by (rule key, unfold if_P [OF True], rule parses_bind [OF bool], unfold if_True, rule q)
      then show ?thesis using True k by (simp add: ref_image_def)
    next
      case nUru: False
      show ?thesis by (rule key) (use nUru p(1) in \<open>simp add: ref_image_def\<close>)
    qed
    with p show ?thesis by blast
  qed
qed

lemma kparses_key_gen:
  fixes this :: 'o
  assumes "\<And>st :: 'o key_store. rd_inv st \<Longrightarrow> \<exists>st' r. parses (m st) v bs (r, st') v \<and> rd_step {} this st st' \<and>
    (case k of None \<Rightarrow> r = None | Some a \<Rightarrow> \<exists>b. r = Some b \<and> stands_for b (W a) st')"
  shows "kparses W this {} m v bs (set_option k) (\<lambda>f. map_option f k)"
proof (rule kparsesI)
  fix st :: "'o key_store"
  assume "rd_inv st"
  from assms [OF this] obtain st' r where p: "parses (m st) v bs (r, st') v" "rd_step {} this st st'"
    "case k of None \<Rightarrow> r = None | Some a \<Rightarrow> \<exists>b. r = Some b \<and> stands_for b (W a) st'" by blast
  have "\<exists>f. resolves W (set_option k) f st'"
    using p(3) by (cases k) (auto simp: resolves_def)
  moreover have "r = map_option f k" if "rd_inv st''" "grows st' st''" "resolves W (set_option k) f st''" for f st''
    using p(3) that resolved [OF _ that(1,2)] by (cases k) (auto simp: resolves_def)
  ultimately show "\<exists>st' x. parses (m st) v bs (x, st') v \<and> rd_step {} this st st' \<and>
      (\<exists>f. resolves W (set_option k) f st') \<and>
      (\<forall>f st''. rd_inv st'' \<longrightarrow> grows st' st'' \<longrightarrow> resolves W (set_option k) f st'' \<longrightarrow> x = map_option f k)"
    using p by blast
qed

lemma kparses_readKey:
  assumes "me_lib M = L" "me_ver M = v" "ref_ok L v U k"
  shows "kparses (wire_id v U) this {} (mgr_readKey M) v (ref_image v U k) (set_option k) (\<lambda>f. map_option f k)"
  by (rule kparses_key_gen) (use parses_ref_bytes [OF assms(1,2) _ assms(3)] in \<open>fastforce split: option.splits\<close>)

lemma kparses_readUoid:
  assumes "me_lib M = L" "me_ver M = v" "isSafeVer v"
    and "case k of None \<Rightarrow> null_ok L v | Some a \<Rightarrow> uoid_ok L v (U a) \<and> loc_isValid (u_location (U a))"
  shows "kparses (wire_id v U) this {} (mgr_readUoid M) v
    (uoid_image v (case k of None \<Rightarrow> uoid_new | Some a \<Rightarrow> U a)) (set_option k) (\<lambda>f. map_option f k)"
  by (rule kparses_key_gen) (use parses_key_bytes [OF assms(1-3) _ assms(4)] in \<open>fastforce split: option.splits\<close>)

text \<open>A key that is not null comes back as one, so the callback has somewhere to go.\<close>

lemma kparses_readKeyNotify:
  assumes "me_lib M = L" "me_ver M = v" "ref_ok L v U (Some a)"
  shows "kparses (wire_id v U) this {} (mgr_readKeyNotify M) v (ref_image v U (Some a)) {a} (\<lambda>f. Some (f a))"
proof (rule kparses_key_gen [where k = "Some a", simplified])
  fix st :: "'a key_store"
  assume "rd_inv st"
  from parses_ref_bytes [OF assms(1,2) this assms(3), of this] obtain st' b where
    p: "parses (mgr_readKey M st) v (ref_image v U (Some a)) (Some b, st') v" "rd_step {} this st st'"
    "stands_for b (wire_id v U a) st'" by auto
  have "parses (mgr_readKeyNotify M st) v (ref_image v U (Some a) @ []) (Some b, st') v"
    unfolding mgr_readKeyNotify_def k_bind_def
    by (rule parses_bind [OF p(1)]) (simp add: k_return_def parses_return)
  then show "\<exists>st' r. parses (mgr_readKeyNotify M st) v (ref_image v U (Some a)) (r, st') v \<and> rd_step {} this st st' \<and>
      (\<exists>b. r = Some b \<and> stands_for b (wire_id v U a) st')" using p by auto
qed

lemma kparses_repeat:
  assumes "\<And>x. x \<in> set xs \<Longrightarrow> kparses W this {} m v (e x) (R x) (X x)" "n = length xs"
  shows "kparses W this {} (k_repeat n m) v (concat (map e xs)) (\<Union> (R ` set xs)) (\<lambda>f. map (\<lambda>x. X x f) xs)"
  using assms
proof (induction xs arbitrary: n)
  case Nil
  then show ?case by (simp add: kparses_return)
next
  case (Cons x xs)
  have 1: "kparses W this {} m v (e x) (R x) (X x)" by (rule Cons.prems) simp
  have 2: "kparses W this {} (k_repeat (length xs) m) v (concat (map e xs)) (\<Union> (R ` set xs)) (\<lambda>f. map (\<lambda>x. X x f) xs)"
    by (rule Cons.IH) (simp_all add: Cons.prems)
  have 3: "kparses W this {} (k_bind (k_repeat (length xs) m) (\<lambda>xs. k_return (y # xs))) v (concat (map e xs) @ [])
      (\<Union> (R ` set xs) \<union> {}) (\<lambda>f. y # map (\<lambda>x. X x f) xs)" for y
    by (rule kparses_bind [OF 2 kparses_return]) simp
  have "kparses W this {} (k_bind m (\<lambda>y. k_bind (k_repeat (length xs) m) (\<lambda>xs. k_return (y # xs)))) v
      (e x @ concat (map e xs) @ []) (R x \<union> (\<Union> (R ` set xs) \<union> {})) (\<lambda>f. X x f # map (\<lambda>x. X x f) xs)"
    by (rule kparses_bind [OF 1 3]) simp
  then show ?case using Cons.prems(2) by simp
qed

subsection \<open>Lists of keys\<close>

text \<open>A count and as many keys, the form in which objects keep their children.\<close>

definition read_keys :: "mgr \<Rightarrow> ('o, nat option list) kio" where
  "read_keys M = k_bind (k_lift readInt) (\<lambda>n. k_repeat (unat n) (mgr_readKey M))"

definition read_keys_notify :: "mgr \<Rightarrow> ('o, nat option list) kio" where
  "read_keys_notify M = k_bind (k_lift readInt) (\<lambda>n. k_repeat (unat n) (mgr_readKeyNotify M))"

definition write_keys :: "mgr \<Rightarrow> nat option list \<Rightarrow> ('o, unit) kio" where
  "write_keys M ks = k_then (k_lift (writeInt (word_of_nat (length ks)))) (k_each (mgr_writeKey M) ks)"

definition keys_image :: "plasma_ver \<Rightarrow> (nat \<Rightarrow> pl_uoid) \<Rightarrow> nat option list \<Rightarrow> bytes" where
  "keys_image v U ks = le32 (word_of_nat (length ks)) @ concat (map (ref_image v U) ks)"

definition keys_ok :: "st_lib \<Rightarrow> plasma_ver \<Rightarrow> (nat \<Rightarrow> pl_uoid) \<Rightarrow> nat option list \<Rightarrow> bool" where
  "keys_ok L v U ks \<longleftrightarrow> length ks < 2 ^ 32 \<and> (\<forall>k \<in> set ks. ref_ok L v U k)"

definition keys_refs :: "nat option list \<Rightarrow> nat set" where
  "keys_refs ks = \<Union> (set_option ` set ks)"

lemma kemits_write_keys:
  "keys_ok L v U ks \<Longrightarrow> me_ver M = v \<Longrightarrow> kemits U B (write_keys M ks) v (keys_image v U ks) ()"
  unfolding write_keys_def keys_image_def
  by (rule kemits_then [OF kemits_lift [OF emits_prims(3)]], rule kemits_each, rule kemits_writeKey)
    (auto simp: keys_ok_def)

lemma kparses_read_keys:
  assumes "keys_ok L v U ks" "me_lib M = L" "me_ver M = v"
  shows "kparses (wire_id v U) this {} (read_keys M) v (keys_image v U ks) (keys_refs ks) (\<lambda>f. map (map_option f) ks)"
  unfolding read_keys_def keys_image_def keys_refs_def
  by (rule kparses_lift_bind [OF parses_prims(3)], rule kparses_repeat, rule kparses_readKey [OF assms(2,3)])
    (use assms(1) in \<open>simp_all add: keys_ok_def unat_of_nat\<close>)

lemma kparses_read_keys_notify:
  assumes "keys_ok L v U ks" "None \<notin> set ks" "me_lib M = L" "me_ver M = v"
  shows "kparses (wire_id v U) this {} (read_keys_notify M) v (keys_image v U ks) (keys_refs ks)
    (\<lambda>f. map (map_option f) ks)"
  unfolding read_keys_notify_def keys_image_def keys_refs_def
proof (rule kparses_lift_bind [OF parses_prims(3)], rule kparses_repeat)
  fix k
  assume k: "k \<in> set ks"
  then have "k \<noteq> None" using assms(2) by metis
  then obtain a where a: "k = Some a" by blast
  show "kparses (wire_id v U) this {} (mgr_readKeyNotify M) v (ref_image v U k) (set_option k) (\<lambda>f. map_option f k)"
    using kparses_readKeyNotify [OF assms(3,4), of U a this] assms(1) k a by (simp add: keys_ok_def)
qed (use assms(1) in \<open>simp add: keys_ok_def unat_of_nat\<close>)

subsection \<open>The key of an object\<close>

lemma setObj_frame:
  "rd_inv (ks_setObj a ob st) = rd_inv st" "stands_for c w (ks_setObj a ob st) = stands_for c w st"
  "ks_next (ks_setObj a ob st) = ks_next st"
  "kc_obj (ks_cells (ks_setObj a ob st) c) = (if c = a then Some ob else kc_obj (ks_cells st c))"
proof -
  have d: "cell_data (ks_setObj a ob st) c = cell_data st c" for c by (simp add: ks_setObj_def cell_data_def)
  have v: "ks_vec l t (ks_setObj a ob st) = ks_vec l t st" for l t by (simp add: ks_setObj_def ks_vec_def ks_types_def)
  show "stands_for c w (ks_setObj a ob st) = stands_for c w st" by (simp add: stands_for_def v ks_uoid_data d)
  show "rd_inv (ks_setObj a ob st) = rd_inv st"
    by (simp add: rd_inv_def located_def bounded_def v ks_loc_def ks_type_def ks_uoid_data d) (simp add: ks_setObj_def)
qed (simp_all add: ks_setObj_def)

lemma rd_step_setObj:
  assumes s: "rd_step {} this st st1" and b: "stands_for b w st1"
  shows "rd_step {w} this st (ks_setObj b this st1)"
proof -
  have i1: "rd_inv st1" using s by (simp add: rd_step_def)
  have u: "stands_for c w st1 \<longleftrightarrow> c = b" for c using resolved [OF b i1 grows_refl] b by metis
  show ?thesis using s by (simp add: rd_step_def grows_def setObj_frame u)
qed

lemma kparses_key_self:
  fixes this :: 'o
  assumes m: "\<And>st :: 'o key_store. rd_inv st \<Longrightarrow> \<exists>st' r. parses (m st) v bs (r, st') v \<and> rd_step {} this st st' \<and>
      (case k of None \<Rightarrow> r = None
       | Some a \<Rightarrow> \<exists>b. r = Some b \<and> stands_for b (W a) st' \<and> (ks_loaded st' b \<longrightarrow> stands_for b (W a) st \<and> ks_loaded st b))"
  shows "kparses W this (W ` set_option k)
    (k_bind m (\<lambda>k. case k of None \<Rightarrow> k_return (ob\<lparr>myKey := None\<rparr>)
       | Some a \<Rightarrow> (\<lambda>st. if ks_loaded st a then io_throw UndefinedBehaviour
                        else io_return (ob\<lparr>myKey := Some a\<rparr>, ks_setObj a this st))))
    v bs (set_option k) (\<lambda>f. ob\<lparr>myKey := map_option f k\<rparr>)"
    (is "kparses W this ?S ?m v bs ?R ?X")
proof (rule kparsesI)
  fix st :: "'o key_store"
  assume i: "rd_inv st" and u: "unloaded ?S st"
  from m [OF i] obtain st1 r where p: "parses (m st) v bs (r, st1) v" "rd_step {} this st st1"
    "case k of None \<Rightarrow> r = None
     | Some a \<Rightarrow> \<exists>b. r = Some b \<and> stands_for b (W a) st1 \<and> (ks_loaded st1 b \<longrightarrow> stands_for b (W a) st \<and> ks_loaded st b)" by blast
  have i1: "rd_inv st1" using p(2) by (simp add: rd_step_def)
  show "\<exists>st' x. parses (?m st) v bs (x, st') v \<and> rd_step ?S this st st' \<and> (\<exists>f. resolves W ?R f st') \<and>
      (\<forall>f st''. rd_inv st'' \<longrightarrow> grows st' st'' \<longrightarrow> resolves W ?R f st'' \<longrightarrow> x = ?X f)"
  proof (cases k)
    case None
    have "parses (?m st) v (bs @ []) (ob\<lparr>myKey := None\<rparr>, st1) v"
      unfolding k_bind_def by (rule parses_bind [OF p(1)]) (use p(3) None in \<open>simp add: k_return_def parses_return\<close>)
    then show ?thesis using None p(2) by (auto simp: resolves_def)
  next
    case (Some a)
    then obtain b where b: "r = Some b" "stands_for b (W a) st1" "\<not> ks_loaded st1 b"
      using p(3) u by (auto simp: unloaded_def)
    let ?st = "ks_setObj b this st1"
    have 1: "parses (?m st) v (bs @ []) (ob\<lparr>myKey := Some b\<rparr>, ?st) v"
      unfolding k_bind_def by (rule parses_bind [OF p(1)]) (use b in \<open>simp add: parses_return\<close>)
    have 2: "rd_step ?S this st ?st" using rd_step_setObj [OF p(2) b(2)] by (simp add: Some)
    have 3: "b = f a" if "rd_inv st''" "grows ?st st''" "resolves W ?R f st''" for f st''
      using resolved [of b "W a" ?st st'' "f a"] that b(2) Some by (simp add: setObj_frame resolves_def)
    have 4: "resolves W ?R (\<lambda>_. b) ?st" using b(2) Some by (simp add: resolves_def setObj_frame)
    show ?thesis
    proof (rule exI [of _ ?st], rule exI [of _ "ob\<lparr>myKey := Some b\<rparr>"], intro conjI allI impI)
      show "ob\<lparr>myKey := Some b\<rparr> = ?X f" if "rd_inv st''" "grows ?st st''" "resolves W ?R f st''" for f st''
        using 3 [OF that] by (simp add: Some)
    qed (use 1 2 4 in \<open>simp, fast, blast\<close>)
  qed
qed

definition ko_ok :: "st_lib \<Rightarrow> plasma_ver \<Rightarrow> (nat \<Rightarrow> pl_uoid) \<Rightarrow> 'z keyed_object_scheme \<Rightarrow> bool" where
  "ko_ok L v U ob \<longleftrightarrow> self_ok L v U (myKey ob)"

definition ko_image :: "plasma_ver \<Rightarrow> (nat \<Rightarrow> pl_uoid) \<Rightarrow> 'z keyed_object_scheme \<Rightarrow> bytes" where
  "ko_image v U ob = self_ref_image v U (myKey ob)"

definition ko_refs :: "'z keyed_object_scheme \<Rightarrow> nat set" where
  "ko_refs ob = set_option (myKey ob)"

definition ko_carry :: "(nat \<Rightarrow> nat) \<Rightarrow> 'z keyed_object_scheme \<Rightarrow> 'z keyed_object_scheme \<Rightarrow> 'z keyed_object_scheme" where
  "ko_carry f ob old = old\<lparr>myKey := map_option f (myKey ob)\<rparr>"

definition self_ids :: "plasma_ver \<Rightarrow> (nat \<Rightarrow> pl_uoid) \<Rightarrow> 'z keyed_object_scheme \<Rightarrow> pl_uoid set" where
  "self_ids v U ob = wire_id v U ` set_option (myKey ob)"

lemma kemits_ko_write:
  assumes "ko_ok L v U ob" "me_ver M = v"
  shows "kemits U B (ko_write M ob) v (ko_image v U ob) ob"
proof -
  have sf: "isSafeVer v" using assms(1) by (simp add: ko_ok_def self_ok_def ref_ok_def)
  have k: "kemits U B (mgr_writeKey M (myKey ob)) v (ref_image v U (myKey ob)) ()"
    using assms by (intro kemits_writeKey [of L]) (simp_all add: ko_ok_def self_ok_def)
  have u: "kemits U B (mgr_writeUoid M (myKey ob)) v (uoid_image v (case myKey ob of None \<Rightarrow> uoid_new | Some a \<Rightarrow> U a)) ()"
    if "\<not> isMoul v"
    by (rule kemits_writeUoid [OF sf _ assms(2)])
      (use assms(1) that in \<open>auto simp: ko_ok_def self_ok_def ref_ok_def null_ok_def uoid_ok_carried split: option.splits\<close>)
  have "kemits U B (if isMoul v then mgr_writeKey M (myKey ob) else mgr_writeUoid M (myKey ob)) v (ko_image v U ob) ()"
    using k u by (simp add: ko_image_def self_ref_image_def)
  then have "kemits U B (k_bind (k_lift getVer) (\<lambda>v. if isMoul v then mgr_writeKey M (myKey ob) else mgr_writeUoid M (myKey ob)))
      v (ko_image v U ob) ()" by (rule kemits_ver)
  from kemits_then [OF this kemits_return] show ?thesis by (simp add: ko_write_def)
qed

lemma kparses_ko_read:
  fixes this :: 'o
  assumes ok: "ko_ok L v U ob" and M: "me_lib M = L" "me_ver M = v"
  shows "kparses (wire_id v U) this (self_ids v U ob) (ko_read M this old) v (ko_image v U ob) (ko_refs ob)
    (\<lambda>f. ko_carry f ob old)"
  unfolding ko_read_def self_ids_def ko_refs_def ko_carry_def
proof (rule kparses_key_self)
  fix st :: "'o key_store"
  assume i: "rd_inv st"
  have r: "ref_ok L v U (myKey ob)" and sf: "isSafeVer v" using ok by (simp_all add: ko_ok_def self_ok_def ref_ok_def)
  let ?Q = "\<lambda>st' r. rd_step {} this st st' \<and>
    (case myKey ob of None \<Rightarrow> r = None | Some a \<Rightarrow> \<exists>b. r = Some b \<and> stands_for b (wire_id v U a) st' \<and>
       (ks_loaded st' b \<longrightarrow> stands_for b (wire_id v U a) st \<and> ks_loaded st b))"
  let ?m = "k_bind (k_lift getVer) (\<lambda>v. if isMoul v then mgr_readKey M else mgr_readUoid M)"
  have ver: "parses (?m st) v bs x v" if "parses ((if isMoul v then mgr_readKey M else mgr_readUoid M) st) v bs x v" for bs x
    unfolding k_bind_def k_lift_def
    using parses_bind [OF parses_bind_return [OF parses_getVer, where f = "\<lambda>x. (x, st)"], of _ v bs x v] that by simp
  have "\<exists>st' r. parses ((if isMoul v then mgr_readKey M else mgr_readUoid M) st) v (ko_image v U ob) (r, st') v \<and> ?Q st' r"
  proof (cases "isMoul v")
    case True
    then show ?thesis using parses_ref_bytes [OF M i r, of this] by (simp add: ko_image_def self_ref_image_def)
  next
    case False
    have "case myKey ob of None \<Rightarrow> null_ok L v | Some a \<Rightarrow> uoid_ok L v (U a) \<and> loc_isValid (u_location (U a))"
      using ok False by (auto simp: ko_ok_def self_ok_def ref_ok_def split: option.splits)
    then show ?thesis using parses_key_bytes [OF M sf i, of U "myKey ob" this] False by (simp add: ko_image_def self_ref_image_def)
  qed
  then show "\<exists>st' r. parses (?m st) v (ko_image v U ob) (r, st') v \<and> ?Q st' r" using ver by blast
qed

text \<open>The last step of a reader builds the object from what was read.\<close>

lemma kparses_conv:
  "kparses W this S m v bs R X \<Longrightarrow> R = R' \<Longrightarrow> (\<And>f. X f = X' f) \<Longrightarrow> kparses W this S m v bs R' X'"
  by (simp add: kparses_def)

lemma kparses_bind_return:
  assumes "kparses W this S m v bs R X" "S \<subseteq> W ` R"
  shows "kparses W this S (k_bind m (\<lambda>x. k_return (g x))) v bs R (\<lambda>f. g (X f))"
  using kparses_bind [OF assms(1) kparses_return assms(2), of g] by simp

lemma kparses_lift_return:
  "parses m v bs x v \<Longrightarrow> kparses W this {} (k_bind (k_lift m) (\<lambda>x. k_return (g x))) v bs {} (\<lambda>f. g x)"
  by (rule kparses_bind_return [OF kparses_lift]) simp_all

lemma parses_opt_else:
  "(c \<Longrightarrow> parses m v bs x v) \<Longrightarrow> parses (io_opt c m d) v (if c then bs else []) (if c then x else d) v"
  by (simp add: io_opt_def parses_return)

subsection \<open>Synched objects\<close>

definition so_names_image :: "bytes list \<Rightarrow> bytes" where
  "so_names_image ns = le16 (word_of_nat (length ns)) @ concat (map (\<lambda>n. le16 (word_of_nat (length n)) @ n) ns)"

definition names_ok :: "st_lib \<Rightarrow> bytes list \<Rightarrow> bool" where
  "names_ok L ns \<longleftrightarrow> length ns < 65536 \<and> (\<forall>n \<in> set ns. length n < 65536 \<and> st_valid L n)"

lemma parses_readStr: "st_valid L s \<Longrightarrow> n = length s \<Longrightarrow> parses (readStr L n) v s s v"
  unfolding readStr_def by (rule parses_read_map) simp_all

lemma emits_write_names: "names_ok L ns \<Longrightarrow> emits (write_names ns) v (so_names_image ns) () v"
proof -
  assume ok: "names_ok L ns"
  have "emits (io_then (writeShort (word_of_nat (length ns)))
      (io_each (\<lambda>n. io_then (writeShort (word_of_nat (length n))) (writeStr n)) ns)) v (so_names_image ns) () v"
    unfolding so_names_image_def writeStr_def by (rule wire)+
  with ok show ?thesis by (simp add: write_names_def names_ok_def)
qed

lemma parses_read_names: "names_ok L ns \<Longrightarrow> parses (read_names L) v (so_names_image ns) ns v"
  unfolding read_names_def so_names_image_def
  by (rule parses_bind [OF parses_prims(2)], rule parses_repeat_id, simp add: names_ok_def unat_len16,
      rule parses_bind [OF parses_prims(2)], rule parses_readStr) (auto simp: names_ok_def unat_len16)

text \<open>
  What the formats carry.  Uru's keeps a list when its flag is set.  The later one has three of the
  flags and, when neither flag of exclusion is set, the list of exclusions.
\<close>

definition so_image :: "plasma_ver \<Rightarrow> (nat \<Rightarrow> pl_uoid) \<Rightarrow> 'z synched_object_scheme \<Rightarrow> bytes" where
  "so_image v U ob = ko_image v U ob @
     (if isUru v then le32 (fSynchFlags ob) @
        (if fSynchFlags ob AND kExcludePersistentState \<noteq> 0 then so_names_image (fSDLExcludeList ob) else []) @
        (if fSynchFlags ob AND kHasVolatileState \<noteq> 0 then so_names_image (fSDLVolatileList ob) else [])
      else le32 (eoa_flags (fSynchFlags ob)) @
        (if eoa_flags (fSynchFlags ob) AND 0x6 = 0 then so_names_image (fSDLExcludeList ob) else []))"

definition so_ok :: "st_lib \<Rightarrow> plasma_ver \<Rightarrow> (nat \<Rightarrow> pl_uoid) \<Rightarrow> 'z synched_object_scheme \<Rightarrow> bool" where
  "so_ok L v U ob \<longleftrightarrow> ko_ok L v U ob \<and> names_ok L (fSDLExcludeList ob) \<and> names_ok L (fSDLVolatileList ob)"

definition so_carry :: "plasma_ver \<Rightarrow> (nat \<Rightarrow> nat) \<Rightarrow> 'z synched_object_scheme \<Rightarrow> 'z synched_object_scheme \<Rightarrow>
    'z synched_object_scheme" where
  "so_carry v f ob old =
     (if isUru v then (ko_carry f ob old)\<lparr>fSynchFlags := fSynchFlags ob,
        fSDLExcludeList := if fSynchFlags ob AND kExcludePersistentState \<noteq> 0 then fSDLExcludeList ob else [],
        fSDLVolatileList := if fSynchFlags ob AND kHasVolatileState \<noteq> 0 then fSDLVolatileList ob else []\<rparr>
      else (ko_carry f ob old)\<lparr>fSynchFlags := fSynchFlags ob AND 0x31,
        fSDLExcludeList := if fSynchFlags ob AND 0x30 = 0 then fSDLExcludeList ob else [],
        fSDLVolatileList := []\<rparr>)"

lemma mask_bit: "(w :: u32) AND push_bit n 1 = (if bit w n then push_bit n 1 else 0)"
  by (rule bit_word_eqI) (auto simp: bit_simps)

lemmas mask_bits = mask_bit [of _ 0, simplified] mask_bit [of _ 1, simplified] mask_bit [of _ 2, simplified]
  mask_bit [of _ 4, simplified] mask_bit [of _ 5, simplified] mask_bit [of _ 6, simplified]

lemma eoa_flags_bits:
  "eoa_flags fl = (if bit fl 0 then 1 else 0) OR (if bit fl 4 then 2 else 0) OR (if bit fl 5 then 4 else 0)"
  by (simp add: eoa_flags_def kDontDirty_def kExcludePersistentState_def kExcludeAllPersistentState_def mask_bits
      and_one_eq odd_iff_mod_2_eq_one [symmetric] bit_0)

lemma and_0x31: "(fl :: u32) AND 0x31 = (if bit fl 0 then 1 else 0) OR (if bit fl 4 then 0x10 else 0) OR (if bit fl 5 then 0x20 else 0)"
proof -
  have "(0x31 :: u32) = 1 OR (0x10 OR 0x20)" by simp
  then have "fl AND 0x31 = fl AND 1 OR (fl AND 0x10 OR fl AND 0x20)" by (metis bit.conj_disj_distrib)
  then show ?thesis by (simp add: mask_bits bit_0 and_one_eq odd_iff_mod_2_eq_one [symmetric] or.assoc)
qed

lemma and_0x30: "(fl :: u32) AND 0x30 = 0 \<longleftrightarrow> \<not> bit fl 4 \<and> \<not> bit fl 5"
proof -
  have "(0x30 :: u32) = 0x10 OR 0x20" by simp
  then have "fl AND 0x30 = fl AND 0x10 OR fl AND 0x20" by (metis bit.conj_disj_distrib)
  then show ?thesis by (simp add: mask_bits)
qed

lemma eoa_flags_back:
  "eoa_flags fl AND NOT 0x8 = eoa_flags fl"
  "eoa_flags fl AND 0x6 = 0 \<longleftrightarrow> fl AND 0x30 = 0"
  "(if eoa_flags fl AND 0x1 \<noteq> 0 then kDontDirty else 0) OR
   (if eoa_flags fl AND 0x2 \<noteq> 0 then kExcludePersistentState else 0) OR
   (if eoa_flags fl AND 0x4 \<noteq> 0 then kExcludeAllPersistentState else 0) = fl AND 0x31"
  unfolding eoa_flags_bits and_0x31 and_0x30 kDontDirty_def kExcludePersistentState_def kExcludeAllPersistentState_def
  by (cases "bit fl 0"; cases "bit fl 4"; cases "bit fl 5"; simp)+

lemma kemits_so_write:
  assumes ok: "so_ok L v U ob" and M: "me_ver M = v"
  shows "kemits U B (so_write M ob) v (so_image v U ob) ob"
proof -
  have sf: "\<not> isUniversal v"
    using ok safe_not_universal [of v] by (simp add: so_ok_def ko_ok_def self_ok_def ref_ok_def)
  have n: "emits (write_names (fSDLExcludeList ob)) v (so_names_image (fSDLExcludeList ob)) () v"
    "emits (write_names (fSDLVolatileList ob)) v (so_names_image (fSDLVolatileList ob)) () v"
    using ok emits_write_names by (auto simp: so_ok_def)
  have k: "kemits U B (ko_write M ob) v (ko_image v U ob) ob"
    using ok M by (intro kemits_ko_write [of L]) (simp_all add: so_ok_def)
  show ?thesis
    unfolding so_write_def so_image_def
    by (rule kemits_cong, rule kemits_bind [OF k], rule kemits_ver, rule kemits_then [OF kemits_lift kemits_return],
        rule emits_if, (rule emits_then emits_prims emits_when n)+) (simp_all add: sf)
qed

lemma kparses_so_read:
  assumes ok: "so_ok L v U ob" and M: "me_lib M = L" "me_ver M = v"
  shows "kparses (wire_id v U) this (self_ids v U ob) (so_read M this old) v (so_image v U ob) (ko_refs ob)
    (\<lambda>f. so_carry v f ob old)"
proof -
  have sf: "isSafeVer v" using ok by (simp add: so_ok_def ko_ok_def self_ok_def ref_ok_def)
  then have v: "\<not> isUniversal v" "\<not> v < MAKE_VERSION 2 0 57 0" by (auto simp: ver_eval)
  have n: "parses (read_names (me_lib M)) v (so_names_image (fSDLExcludeList ob)) (fSDLExcludeList ob) v"
    "parses (read_names (me_lib M)) v (so_names_image (fSDLVolatileList ob)) (fSDLVolatileList ob) v"
    using ok M parses_read_names by (auto simp: so_ok_def)
  have k: "kparses (wire_id v U) this (self_ids v U ob) (ko_read M this old) v (ko_image v U ob) (ko_refs ob)
    (\<lambda>f. ko_carry f ob old)"
    using ok M by (intro kparses_ko_read) (simp_all add: so_ok_def)
  have s: "self_ids v U ob \<subseteq> wire_id v U ` ko_refs ob" by (simp add: self_ids_def ko_refs_def)
  show ?thesis
  proof (cases "isUru v")
    case True
    show ?thesis
      unfolding so_read_def so_image_def Let_def if_P [OF True]
      by (rule kparses_conv, rule kparses_bind [OF k _ s], rule kparses_ver, simp only: v True if_True if_False simp_thms,
          rule kparses_lift_bind [OF parses_prims(3)], rule kparses_lift_bind [OF parses_opt_else [OF n(1)]],
          rule kparses_lift_return [OF parses_opt_else [OF n(2)]]) (simp_all add: True so_carry_def ko_carry_def)
  next
    case False
    show ?thesis
      unfolding so_read_def so_image_def Let_def if_not_P [OF False]
      by (rule kparses_conv, rule kparses_bind [OF k _ s], rule kparses_ver, simp only: v False if_False simp_thms,
          rule kparses_lift_bind [OF parses_prims(3)], unfold eoa_flags_back(1,3),
          rule kparses_lift_return [OF parses_opt_else [OF n(1)]])
        (simp_all add: False so_carry_def eoa_flags_back ko_carry_def)
  qed
qed

section \<open>The contract of a class that holds keys\<close>

text \<open>
  \<open>wr\<close> and \<open>rd\<close> are the class's \<open>write\<close> and \<open>read\<close>; \<open>ok\<close> says which objects a version carries;
  \<open>after\<close> is the object as writing leaves it, and \<open>enc\<close> its image.  \<open>refs\<close> are the handles it holds and
  \<open>ids\<close> the identifier of its own key.  \<open>carry v f ob old\<close> is what reading the image of \<open>ob\<close> makes of
  \<open>old\<close> when the reader's handle for the key \<open>a\<close> is \<open>f a\<close>.
\<close>

definition ks_objs :: "'o key_store \<Rightarrow> nat \<Rightarrow> 'o option" where
  "ks_objs st a = kc_obj (ks_cells st a)"

locale key_codec =
  fixes wr :: "mgr \<Rightarrow> 'r \<Rightarrow> ('o, 'r) kio"
    and rd :: "mgr \<Rightarrow> 'o \<Rightarrow> 'r \<Rightarrow> ('o, 'r) kio"
    and ok :: "st_lib \<Rightarrow> plasma_ver \<Rightarrow> (nat \<Rightarrow> pl_uoid) \<Rightarrow> (nat \<Rightarrow> 'o option) \<Rightarrow> 'r \<Rightarrow> bool"
    and enc :: "plasma_ver \<Rightarrow> (nat \<Rightarrow> pl_uoid) \<Rightarrow> 'r \<Rightarrow> bytes"
    and after :: "(nat \<Rightarrow> 'o option) \<Rightarrow> 'r \<Rightarrow> 'r"
    and refs :: "'r \<Rightarrow> nat set"
    and ids :: "plasma_ver \<Rightarrow> (nat \<Rightarrow> pl_uoid) \<Rightarrow> 'r \<Rightarrow> pl_uoid set"
    and carry :: "plasma_ver \<Rightarrow> (nat \<Rightarrow> nat) \<Rightarrow> 'r \<Rightarrow> 'r \<Rightarrow> 'r"
  assumes wr_emits: "ok L v U B ob \<Longrightarrow> me_ver M = v \<Longrightarrow> kemits U B (wr M ob) v (enc v U (after B ob)) (after B ob)"
    and rd_parses: "ok L v U B ob \<Longrightarrow> me_lib M = L \<Longrightarrow> me_ver M = v \<Longrightarrow>
      kparses (wire_id v U) this (ids v U ob) (rd M this old) v (enc v U (after B ob)) (refs (after B ob))
        (\<lambda>f. carry v f (after B ob) old)"
begin

text \<open>
  Written to an empty stream, rewound, and read through any other manager whose store does not
  already have an object for this key: nothing is left over, each handle stands for the identifier the
  written one stood for, and the object is attached to its key.
\<close>

lemma roundtrip:
  assumes "ok (me_lib M) (me_ver M) (ks_uoid st) (ks_objs st) ob" "me_lib M' = me_lib M" "me_ver M' = me_ver M"
    and "rd_inv st2" "unloaded (ids (me_ver M) (ks_uoid st) ob) st2"
    and "length (enc (me_ver M) (ks_uoid st) (after (ks_objs st) ob)) < 2 ^ 32"
  shows "\<exists>st1 s st3 f. wr M ob st \<lparr>s_ver = me_ver M, s_data = [], s_pos = 0\<rparr> = Inr ((after (ks_objs st) ob, st1), s) \<and>
     wr_frame st st1 \<and>
     rd M' this old st2 (s\<lparr>s_pos := 0\<rparr>) = Inr ((carry (me_ver M) f (after (ks_objs st) ob) old, st3), s) \<and> s_eof s \<and>
     resolves (wire_id (me_ver M) (ks_uoid st)) (refs (after (ks_objs st) ob)) f st3 \<and>
     rd_step (ids (me_ver M) (ks_uoid st) ob) this st2 st3"
proof -
  let ?v = "me_ver M" and ?U = "ks_uoid st" and ?B = "ks_objs st"
  have "named ?U ?B st" by (simp add: named_def ks_objs_def)
  with wr_emits [OF assms(1) refl] obtain st1 where
    e: "emits (wr M ob st) ?v (enc ?v ?U (after ?B ob)) (after ?B ob, st1) ?v" "wr_frame st st1" by (rule kemitsD)
  from rd_parses [OF assms(1,2,3), of this old] assms(4,5) obtain st3 x where
    p: "parses (rd M' this old st2) ?v (enc ?v ?U (after ?B ob)) (x, st3) ?v" "rd_step (ids ?v ?U ob) this st2 st3"
    "\<exists>f. resolves (wire_id ?v ?U) (refs (after ?B ob)) f st3"
    "\<And>f st''. rd_inv st'' \<Longrightarrow> grows st3 st'' \<Longrightarrow> resolves (wire_id ?v ?U) (refs (after ?B ob)) f st'' \<Longrightarrow>
      x = carry ?v f (after ?B ob) old" by (rule kparsesD) blast
  from p(3) obtain f where f: "resolves (wire_id ?v ?U) (refs (after ?B ob)) f st3" by (rule exE)
  have "rd_inv st3" using p(2) by (simp add: rd_step_def)
  then have x: "x = carry ?v f (after ?B ob) old" using p(4) [OF _ grows_refl f] by blast
  show ?thesis
    using emitsD [OF e(1), of "[]"] parsesD [OF p(1), of "[]" "[]"] assms(6) e(2) p(2) f
    by (simp add: s_eof_def x) blast
qed

end

text \<open>
  The rules that follow the structure of a reader or a writer, most specific first; a class adds those
  for its own parts.
\<close>

lemmas kread = kparses_ver kparses_lift_return kparses_lift_bind kparses_bind_return kparses_bind kparses_return

lemmas kwrite = kemits_ver kemits_return kemits_then kemits_bind kemits_lift

lemma self_ids_refs [simp]: "self_ids v U ob \<subseteq> wire_id v U ` (ko_refs ob \<union> R)"
  "self_ids v U ob \<subseteq> wire_id v U ` ko_refs ob"
  by (auto simp: self_ids_def ko_refs_def)

interpretation keyed: key_codec ko_write ko_read "\<lambda>L v U B. ko_ok L v U" ko_image "\<lambda>B ob. ob" ko_refs self_ids
  "\<lambda>v f. ko_carry f"
  by unfold_locales (auto intro: kemits_ko_write kparses_ko_read)

interpretation synched: key_codec so_write so_read "\<lambda>L v U B. so_ok L v U" so_image "\<lambda>B ob. ob" ko_refs self_ids so_carry
  by unfold_locales (auto intro: kemits_so_write kparses_so_read)

end
