(* ===== verification/SceneObjects.thy ===== *)
theory SceneObjects
  imports ObjectIO MathTypes Keys
begin

text \<open>
  The scene of a page (\<open>src/core/PRP/Object\<close>, \<open>src/core/PRP/plSceneNode\<close>): the node of a page, its
  scene objects, and the interfaces that give a scene object its place, its drawables, its sounds and
  its physics.  Each class is a record over its base class's, its \<open>read\<close> and \<open>write\<close>, and an
  interpretation of \<open>key_codec\<close>.
\<close>

section \<open>Scene nodes\<close>

record scene_node = keyed_object +
  fSceneObjects :: "nat option list"
  fPoolObjects :: "nat option list"

definition sn_read :: "mgr \<Rightarrow> 'o \<Rightarrow> 'z scene_node_scheme \<Rightarrow> ('o, 'z scene_node_scheme) kio" where
  "sn_read M this old =
     k_bind (ko_read M this old) (\<lambda>ob.
     k_bind (read_keys M) (\<lambda>objs.
     k_bind (read_keys M) (\<lambda>pool.
     k_return (ob\<lparr>fSceneObjects := objs, fPoolObjects := pool\<rparr>))))"

definition sn_write :: "mgr \<Rightarrow> 'z scene_node_scheme \<Rightarrow> ('o, 'z scene_node_scheme) kio" where
  "sn_write M ob0 =
     k_bind (ko_write M ob0) (\<lambda>ob.
     k_then (write_keys M (fSceneObjects ob))
     (k_then (write_keys M (fPoolObjects ob))
     (k_return ob)))"

section \<open>Interfaces\<close>

record obj_interface = synched_object +
  fOwner :: "nat option"
  fProps :: hs_bit_vector

definition oi_read :: "mgr \<Rightarrow> 'o \<Rightarrow> 'z obj_interface_scheme \<Rightarrow> ('o, 'z obj_interface_scheme) kio" where
  "oi_read M this old =
     k_bind (so_read M this old) (\<lambda>ob.
     k_bind (mgr_readKey M) (\<lambda>owner.
     k_bind (k_lift (bv_read (fProps ob))) (\<lambda>props.
     k_return (ob\<lparr>fOwner := owner, fProps := props\<rparr>))))"

definition oi_write :: "mgr \<Rightarrow> 'z obj_interface_scheme \<Rightarrow> ('o, 'z obj_interface_scheme) kio" where
  "oi_write M ob0 =
     k_bind (so_write M ob0) (\<lambda>ob.
     k_then (mgr_writeKey M (fOwner ob))
     (k_bind (k_lift (bv_write (fProps ob))) (\<lambda>props.
     k_return (ob\<lparr>fProps := props\<rparr>))))"

record audio_interface = obj_interface +
  fAudible :: "nat option"

definition ai_read :: "mgr \<Rightarrow> 'o \<Rightarrow> 'z audio_interface_scheme \<Rightarrow> ('o, 'z audio_interface_scheme) kio" where
  "ai_read M this old =
     k_bind (oi_read M this old) (\<lambda>ob.
     k_bind (mgr_readKey M) (\<lambda>k. k_return (ob\<lparr>fAudible := k\<rparr>)))"

definition ai_write :: "mgr \<Rightarrow> 'z audio_interface_scheme \<Rightarrow> ('o, 'z audio_interface_scheme) kio" where
  "ai_write M ob0 = k_bind (oi_write M ob0) (\<lambda>ob. k_then (mgr_writeKey M (fAudible ob)) (k_return ob))"

record coordinate_interface = obj_interface +
  fLocalToParent :: matrix
  fParentToLocal :: matrix
  fLocalToWorld :: matrix
  fWorldToLocal :: matrix
  fChildren :: "nat option list"

definition ci_read :: "mgr \<Rightarrow> 'o \<Rightarrow> 'z coordinate_interface_scheme \<Rightarrow> ('o, 'z coordinate_interface_scheme) kio" where
  "ci_read M this old =
     k_bind (oi_read M this old) (\<lambda>ob.
     k_bind (k_lift m44_read) (\<lambda>lp.
     k_bind (k_lift m44_read) (\<lambda>pl.
     k_bind (k_lift m44_read) (\<lambda>lw.
     k_bind (k_lift m44_read) (\<lambda>wl.
     k_bind (read_keys_notify M) (\<lambda>ch.
     k_return (ob\<lparr>fLocalToParent := lp, fParentToLocal := pl, fLocalToWorld := lw, fWorldToLocal := wl,
       fChildren := ch\<rparr>)))))))"

definition ci_write :: "mgr \<Rightarrow> 'z coordinate_interface_scheme \<Rightarrow> ('o, 'z coordinate_interface_scheme) kio" where
  "ci_write M ob0 =
     k_bind (oi_write M ob0) (\<lambda>ob.
     k_then (k_lift (m44_write (fLocalToParent ob)))
     (k_then (k_lift (m44_write (fParentToLocal ob)))
     (k_then (k_lift (m44_write (fLocalToWorld ob)))
     (k_then (k_lift (m44_write (fWorldToLocal ob)))
     (k_then (write_keys M (fChildren ob))
     (k_return ob))))))"

text \<open>The two vectors of a draw interface are kept at one length by all its operations.\<close>

record draw_interface = obj_interface +
  fDrawables :: "(nat option \<times> u32) list"
  fRegions :: "nat option list"

definition di_read :: "mgr \<Rightarrow> 'o \<Rightarrow> 'z draw_interface_scheme \<Rightarrow> ('o, 'z draw_interface_scheme) kio" where
  "di_read M this old =
     k_bind (oi_read M this old) (\<lambda>ob.
     k_bind (k_bind (k_lift readInt) (\<lambda>n. k_repeat (unat n)
       (k_bind (k_lift readInt) (\<lambda>i. k_bind (mgr_readKey M) (\<lambda>k. k_return (k, i)))))) (\<lambda>ds.
     k_bind (read_keys M) (\<lambda>rs.
     k_return (ob\<lparr>fDrawables := ds, fRegions := rs\<rparr>))))"

definition di_write :: "mgr \<Rightarrow> 'z draw_interface_scheme \<Rightarrow> ('o, 'z draw_interface_scheme) kio" where
  "di_write M ob0 =
     k_bind (oi_write M ob0) (\<lambda>ob.
     k_then (k_then (k_lift (writeInt (word_of_nat (length (fDrawables ob)))))
       (k_each (\<lambda>(k, i). k_then (k_lift (writeInt i)) (mgr_writeKey M k)) (fDrawables ob)))
     (k_then (write_keys M (fRegions ob))
     (k_return ob)))"

record instance_draw_interface = draw_interface +
  fTargetID :: u32
  fDrawable :: "nat option"

definition idi_read :: "mgr \<Rightarrow> 'o \<Rightarrow> 'z instance_draw_interface_scheme \<Rightarrow> ('o, 'z instance_draw_interface_scheme) kio" where
  "idi_read M this old =
     k_bind (di_read M this old) (\<lambda>ob.
     k_bind (k_lift readInt) (\<lambda>i.
     k_bind (mgr_readKey M) (\<lambda>k. k_return (ob\<lparr>fTargetID := i, fDrawable := k\<rparr>))))"

definition idi_write :: "mgr \<Rightarrow> 'z instance_draw_interface_scheme \<Rightarrow> ('o, 'z instance_draw_interface_scheme) kio" where
  "idi_write M ob0 =
     k_bind (di_write M ob0) (\<lambda>ob.
     k_then (k_lift (writeInt (fTargetID ob)))
     (k_then (mgr_writeKey M (fDrawable ob))
     (k_return ob)))"

record simulation_interface = obj_interface +
  fPhysical :: "nat option"
  fUruInt :: u32

text \<open>Uru's format holds the properties twice; the second reading replaces the first.\<close>

definition si_read :: "mgr \<Rightarrow> 'o \<Rightarrow> 'z simulation_interface_scheme \<Rightarrow> ('o, 'z simulation_interface_scheme) kio" where
  "si_read M this old =
     k_bind (oi_read M this old) (\<lambda>ob0.
     k_bind (k_lift getVer) (\<lambda>v.
     k_bind (if isUru v then
         k_bind (k_lift (bv_read (fProps ob0))) (\<lambda>props.
         k_bind (k_lift readInt) (\<lambda>i. k_return (ob0\<lparr>fProps := props, fUruInt := i\<rparr>)))
       else k_return ob0) (\<lambda>ob.
     k_bind (mgr_readKey M) (\<lambda>k. k_return (ob\<lparr>fPhysical := k\<rparr>)))))"

definition si_write :: "mgr \<Rightarrow> 'z simulation_interface_scheme \<Rightarrow> ('o, 'z simulation_interface_scheme) kio" where
  "si_write M ob0 =
     k_bind (oi_write M ob0) (\<lambda>ob1.
     k_bind (k_lift getVer) (\<lambda>v.
     k_bind (if isUru v then
         k_bind (k_lift (bv_write (fProps ob1))) (\<lambda>props.
         k_then (k_lift (writeInt (fUruInt ob1))) (k_return (ob1\<lparr>fProps := props\<rparr>)))
       else k_return ob1) (\<lambda>ob.
     k_then (mgr_writeKey M (fPhysical ob)) (k_return ob))))"

section \<open>Scene objects\<close>

text \<open>
  Writing puts the interfaces and the modifiers in load order.  \<open>obj_after\<close> stands for the virtual
  method \<open>orderAfter\<close>; a search that goes round for ever is no result.
\<close>

definition order_keys :: "('o \<Rightarrow> 'o \<Rightarrow> bool) \<Rightarrow> (nat \<Rightarrow> 'o option) \<Rightarrow> nat option list \<Rightarrow> nat option list option" where
  "order_keys obj_after B ks = map_option (map (map_option fst))
     (hsOrderKeys (key_orderAfter obj_after) (map (map_option (\<lambda>a. (a, B a))) ks))"

definition k_order :: "('o \<Rightarrow> 'o \<Rightarrow> bool) \<Rightarrow> nat option list \<Rightarrow> ('o, nat option list) kio" where
  "k_order obj_after ks st = (case order_keys obj_after (ks_objs st) ks of
     None \<Rightarrow> io_throw UndefinedBehaviour | Some r \<Rightarrow> io_return (r, st))"

record scene_object = synched_object +
  fDrawIntf :: "nat option"
  fSimIntf :: "nat option"
  fCoordIntf :: "nat option"
  fAudioIntf :: "nat option"
  fInterfaces :: "nat option list"
  fModifiers :: "nat option list"
  fSceneNode :: "nat option"

definition sc_read :: "mgr \<Rightarrow> 'o \<Rightarrow> 'z scene_object_scheme \<Rightarrow> ('o, 'z scene_object_scheme) kio" where
  "sc_read M this old =
     k_bind (so_read M this old) (\<lambda>ob.
     k_bind (mgr_readKey M) (\<lambda>dr.
     k_bind (mgr_readKey M) (\<lambda>si.
     k_bind (mgr_readKey M) (\<lambda>co.
     k_bind (mgr_readKey M) (\<lambda>au.
     k_bind (read_keys M) (\<lambda>ifs.
     k_bind (read_keys_notify M) (\<lambda>mods.
     k_bind (mgr_readKey M) (\<lambda>node.
     k_return (ob\<lparr>fDrawIntf := dr, fSimIntf := si, fCoordIntf := co, fAudioIntf := au,
       fInterfaces := ifs, fModifiers := mods, fSceneNode := node\<rparr>)))))))))"

definition sc_write :: "('o \<Rightarrow> 'o \<Rightarrow> bool) \<Rightarrow> mgr \<Rightarrow> 'z scene_object_scheme \<Rightarrow> ('o, 'z scene_object_scheme) kio" where
  "sc_write obj_after M ob0 =
     k_bind (so_write M ob0) (\<lambda>ob.
     k_then (mgr_writeKey M (fDrawIntf ob))
     (k_then (mgr_writeKey M (fSimIntf ob))
     (k_then (mgr_writeKey M (fCoordIntf ob))
     (k_then (mgr_writeKey M (fAudioIntf ob))
     (k_bind (k_order obj_after (fInterfaces ob)) (\<lambda>ifs.
     k_bind (k_order obj_after (fModifiers ob)) (\<lambda>mods.
     k_then (write_keys M ifs)
     (k_then (write_keys M mods)
     (k_then (mgr_writeKey M (fSceneNode ob))
     (k_return (ob\<lparr>fInterfaces := ifs, fModifiers := mods\<rparr>)))))))))))"

section \<open>On the wire\<close>

definition sn_image :: "plasma_ver \<Rightarrow> (nat \<Rightarrow> pl_uoid) \<Rightarrow> 'z scene_node_scheme \<Rightarrow> bytes" where
  "sn_image v U ob = ko_image v U ob @ keys_image v U (fSceneObjects ob) @ keys_image v U (fPoolObjects ob)"

definition sn_ok :: "st_lib \<Rightarrow> plasma_ver \<Rightarrow> (nat \<Rightarrow> pl_uoid) \<Rightarrow> 'z scene_node_scheme \<Rightarrow> bool" where
  "sn_ok L v U ob \<longleftrightarrow> ko_ok L v U ob \<and> keys_ok L v U (fSceneObjects ob) \<and> keys_ok L v U (fPoolObjects ob)"

definition sn_refs :: "'z scene_node_scheme \<Rightarrow> nat set" where
  "sn_refs ob = ko_refs ob \<union> keys_refs (fSceneObjects ob) \<union> keys_refs (fPoolObjects ob)"

definition sn_carry :: "(nat \<Rightarrow> nat) \<Rightarrow> 'z scene_node_scheme \<Rightarrow> 'z scene_node_scheme \<Rightarrow> 'z scene_node_scheme" where
  "sn_carry f ob old = (ko_carry f ob old)\<lparr>fSceneObjects := map (map_option f) (fSceneObjects ob),
     fPoolObjects := map (map_option f) (fPoolObjects ob)\<rparr>"

lemma kemits_sn_write:
  assumes "sn_ok L v U ob" "me_ver M = v"
  shows "kemits U B (sn_write M ob) v (sn_image v U ob) ob"
proof -
  note a = assms [unfolded sn_ok_def]
  note wr = kemits_ko_write [of L, OF _ a(2)] kemits_write_keys [of L, OF _ a(2)]
  show ?thesis unfolding sn_write_def sn_image_def
    by (rule kemits_cong, (rule kwrite wr | simp add: a)+)
qed

lemma kparses_sn_read:
  assumes "sn_ok L v U ob" "me_lib M = L" "me_ver M = v"
  shows "kparses (wire_id v U) this (self_ids v U ob) (sn_read M this old) v (sn_image v U ob) (sn_refs ob)
    (\<lambda>f. sn_carry f ob old)"
proof -
  note a = assms [unfolded sn_ok_def]
  note rd = kparses_ko_read [OF _ a(2,3)] kparses_read_keys [OF _ a(2,3)]
  show ?thesis unfolding sn_read_def sn_image_def
    by (rule kparses_conv, (rule kread rd | simp add: a sn_refs_def sn_carry_def Un_assoc)+)
qed

interpretation scene_node: key_codec sn_write sn_read "\<lambda>L v U B. sn_ok L v U" sn_image "\<lambda>B ob. ob" sn_refs self_ids
  "\<lambda>v f. sn_carry f"
  by unfold_locales (auto intro: kemits_sn_write kparses_sn_read)

text \<open>
  Writing compacts the properties of an interface; the names of the bits are not on the stream.
\<close>

lemma compact_compact [simp]: "bv_compact (bv_compact bv) = bv_compact bv"
proof -
  have "fBits (bv_compact (bv_compact bv)) = fBits (bv_compact bv)"
    by (rule compact_canonical) (simp add: bv_get_compact)
  moreover have "fBitNames (bv_compact b) = fBitNames b" for b by (simp add: bv_compact_def Let_def)
  ultimately show ?thesis by (cases "bv_compact bv") (simp add: hs_bit_vector.defs bv_compact_def Let_def split: if_splits)
qed

lemma bv_image_compact [simp]: "bv_image (bv_compact bv) = bv_image bv" "bv_ok v (bv_compact bv) = bv_ok v bv"
  by (simp_all add: bv_image_def bv_ok_def)

definition oi_after :: "'z obj_interface_scheme \<Rightarrow> 'z obj_interface_scheme" where
  "oi_after ob = ob\<lparr>fProps := bv_compact (fProps ob)\<rparr>"

definition oi_image :: "plasma_ver \<Rightarrow> (nat \<Rightarrow> pl_uoid) \<Rightarrow> 'z obj_interface_scheme \<Rightarrow> bytes" where
  "oi_image v U ob = so_image v U ob @ ref_image v U (fOwner ob) @ bv_image (fProps ob)"

definition oi_ok :: "st_lib \<Rightarrow> plasma_ver \<Rightarrow> (nat \<Rightarrow> pl_uoid) \<Rightarrow> 'z obj_interface_scheme \<Rightarrow> bool" where
  "oi_ok L v U ob \<longleftrightarrow> so_ok L v U ob \<and> ref_ok L v U (fOwner ob) \<and> bv_ok v (fProps ob)"

definition oi_refs :: "'z obj_interface_scheme \<Rightarrow> nat set" where
  "oi_refs ob = ko_refs ob \<union> set_option (fOwner ob)"

definition oi_carry :: "plasma_ver \<Rightarrow> (nat \<Rightarrow> nat) \<Rightarrow> 'z obj_interface_scheme \<Rightarrow> 'z obj_interface_scheme \<Rightarrow>
    'z obj_interface_scheme" where
  "oi_carry v f ob old = (so_carry v f ob old)\<lparr>fOwner := map_option f (fOwner ob),
     fProps := (fProps old)\<lparr>fBits := fBits (bv_compact (fProps ob))\<rparr>\<rparr>"

lemma kemits_oi_write:
  assumes "oi_ok L v U ob" "me_ver M = v"
  shows "kemits U B (oi_write M ob) v (oi_image v U ob) (oi_after ob)"
proof -
  note a = assms [unfolded oi_ok_def]
  note wr = kemits_so_write [of L, OF _ a(2)] kemits_writeKey [of L, OF _ a(2)] emits_bv_write
  show ?thesis unfolding oi_write_def oi_image_def
    by (rule kemits_cong, (rule kwrite wr | simp add: a oi_after_def)+)
qed

lemma so_carry_props [simp]: "fProps (so_carry v f ob old) = fProps old" for ob :: "'z obj_interface_scheme"
  by (simp add: so_carry_def ko_carry_def)

lemma kparses_oi_read:
  assumes "oi_ok L v U ob" "me_lib M = L" "me_ver M = v"
  shows "kparses (wire_id v U) this (self_ids v U ob) (oi_read M this old) v (oi_image v U ob) (oi_refs ob)
    (\<lambda>f. oi_carry v f ob old)"
proof -
  note a = assms [unfolded oi_ok_def]
  note rd = kparses_so_read [OF _ a(2,3)] kparses_readKey [OF a(2,3)] parses_bv_read
  show ?thesis unfolding oi_read_def oi_image_def
    by (rule kparses_conv, (rule kread rd | simp add: a oi_refs_def oi_carry_def Un_assoc)+)
qed

lemma oi_after_simps [simp]:
  "oi_image v U (oi_after ob) = oi_image v U ob" "oi_ok L v U (oi_after ob) = oi_ok L v U ob"
  "oi_refs (oi_after ob) = oi_refs ob" "oi_carry v f (oi_after ob) old = oi_carry v f ob old"
  by (simp_all add: oi_after_def oi_image_def oi_ok_def oi_refs_def oi_carry_def so_image_def so_ok_def so_carry_def
      ko_image_def ko_ok_def ko_refs_def ko_carry_def)

lemma oi_refs_self [simp]: "self_ids v U ob \<subseteq> wire_id v U ` oi_refs ob" "self_ids v U ob \<subseteq> wire_id v U ` (oi_refs ob \<union> R)"
  by (auto simp: oi_refs_def self_ids_def ko_refs_def)

interpretation obj_interface: key_codec oi_write oi_read "\<lambda>L v U B. oi_ok L v U" oi_image "\<lambda>B. oi_after" oi_refs self_ids
  oi_carry
  by unfold_locales (auto intro: kemits_oi_write kparses_oi_read)

definition ai_image :: "plasma_ver \<Rightarrow> (nat \<Rightarrow> pl_uoid) \<Rightarrow> 'z audio_interface_scheme \<Rightarrow> bytes" where
  "ai_image v U ob = oi_image v U ob @ ref_image v U (fAudible ob)"

definition ai_ok :: "st_lib \<Rightarrow> plasma_ver \<Rightarrow> (nat \<Rightarrow> pl_uoid) \<Rightarrow> 'z audio_interface_scheme \<Rightarrow> bool" where
  "ai_ok L v U ob \<longleftrightarrow> oi_ok L v U ob \<and> ref_ok L v U (fAudible ob)"

lemma ai_after_simps [simp]:
  "fAudible (oi_after ob) = fAudible ob" "ai_image v U (oi_after ob) = ai_image v U ob"
  by (simp_all add: ai_image_def) (simp_all add: oi_after_def)

lemma kemits_ai_write:
  assumes "ai_ok L v U ob" "me_ver M = v"
  shows "kemits U B (ai_write M ob) v (ai_image v U ob) (oi_after ob)"
proof -
  note a = assms [unfolded ai_ok_def]
  note wr = kemits_oi_write [of L, OF _ a(2)] kemits_writeKey [of L, OF _ a(2)]
  show ?thesis unfolding ai_write_def ai_image_def
    by (rule kemits_cong, (rule kwrite wr | simp add: a)+)
qed

lemma kparses_ai_read:
  assumes "ai_ok L v U ob" "me_lib M = L" "me_ver M = v"
  shows "kparses (wire_id v U) this (self_ids v U ob) (ai_read M this old) v (ai_image v U ob)
    (oi_refs ob \<union> set_option (fAudible ob)) (\<lambda>f. (oi_carry v f ob old)\<lparr>fAudible := map_option f (fAudible ob)\<rparr>)"
proof -
  note a = assms [unfolded ai_ok_def]
  note rd = kparses_oi_read [OF _ a(2,3)] kparses_readKey [OF a(2,3)]
  show ?thesis unfolding ai_read_def ai_image_def
    by (rule kparses_conv, (rule kread rd | simp add: a)+)
qed

interpretation audio_interface: key_codec ai_write ai_read "\<lambda>L v U B. ai_ok L v U" ai_image "\<lambda>B. oi_after"
  "\<lambda>ob. oi_refs ob \<union> set_option (fAudible ob)" self_ids
  "\<lambda>v f ob old. (oi_carry v f ob old)\<lparr>fAudible := map_option f (fAudible ob)\<rparr>"
  by unfold_locales (auto intro: kemits_ai_write kparses_ai_read)

subsection \<open>Coordinate interfaces\<close>

definition ci_image :: "plasma_ver \<Rightarrow> (nat \<Rightarrow> pl_uoid) \<Rightarrow> 'z coordinate_interface_scheme \<Rightarrow> bytes" where
  "ci_image v U ob = oi_image v U ob @ m44_image v (fLocalToParent ob) @ m44_image v (fParentToLocal ob) @
     m44_image v (fLocalToWorld ob) @ m44_image v (fWorldToLocal ob) @ keys_image v U (fChildren ob)"

definition ci_ok :: "st_lib \<Rightarrow> plasma_ver \<Rightarrow> (nat \<Rightarrow> pl_uoid) \<Rightarrow> 'z coordinate_interface_scheme \<Rightarrow> bool" where
  "ci_ok L v U ob \<longleftrightarrow> oi_ok L v U ob \<and> keys_ok L v U (fChildren ob) \<and> None \<notin> set (fChildren ob) \<and>
     list_all (\<lambda>m. length m = 16) [fLocalToParent ob, fParentToLocal ob, fLocalToWorld ob, fWorldToLocal ob]"

definition ci_carry :: "plasma_ver \<Rightarrow> (nat \<Rightarrow> nat) \<Rightarrow> 'z coordinate_interface_scheme \<Rightarrow> 'z coordinate_interface_scheme \<Rightarrow>
    'z coordinate_interface_scheme" where
  "ci_carry v f ob old = (oi_carry v f ob old)\<lparr>
     fLocalToParent := m44_carried v (fLocalToParent ob), fParentToLocal := m44_carried v (fParentToLocal ob),
     fLocalToWorld := m44_carried v (fLocalToWorld ob), fWorldToLocal := m44_carried v (fWorldToLocal ob),
     fChildren := map (map_option f) (fChildren ob)\<rparr>"

lemma ci_after_simps [simp]:
  "fLocalToParent (oi_after ob) = fLocalToParent ob" "fParentToLocal (oi_after ob) = fParentToLocal ob"
  "fLocalToWorld (oi_after ob) = fLocalToWorld ob" "fWorldToLocal (oi_after ob) = fWorldToLocal ob"
  "fChildren (oi_after ob) = fChildren ob" "ci_image v U (oi_after ob) = ci_image v U ob"
  "ci_carry v f (oi_after ob) old = ci_carry v f ob old"
  by (simp_all add: ci_image_def ci_carry_def) (simp_all add: oi_after_def)

lemma kemits_ci_write:
  assumes "ci_ok L v U ob" "me_ver M = v"
  shows "kemits U B (ci_write M ob) v (ci_image v U ob) (oi_after ob)"
proof -
  note a = assms [unfolded ci_ok_def list.pred_inject]
  note wr = kemits_oi_write [of L, OF _ a(2)] kemits_write_keys [of L, OF _ a(2)] emits_m44
  show ?thesis unfolding ci_write_def ci_image_def
    by (rule kemits_cong, (rule kwrite wr | simp add: a)+)
qed

lemma kparses_ci_read:
  assumes "ci_ok L v U ob" "me_lib M = L" "me_ver M = v"
  shows "kparses (wire_id v U) this (self_ids v U ob) (ci_read M this old) v (ci_image v U ob)
    (oi_refs ob \<union> keys_refs (fChildren ob)) (\<lambda>f. ci_carry v f ob old)"
proof -
  note a = assms [unfolded ci_ok_def list.pred_inject]
  note rd = kparses_oi_read [OF _ a(2,3)] kparses_read_keys_notify [OF _ _ a(2,3)] parses_m44
  show ?thesis unfolding ci_read_def ci_image_def
    by (rule kparses_conv, (rule kread rd | simp add: a ci_carry_def)+)
qed

interpretation coordinate_interface: key_codec ci_write ci_read "\<lambda>L v U B. ci_ok L v U" ci_image "\<lambda>B. oi_after"
  "\<lambda>ob. oi_refs ob \<union> keys_refs (fChildren ob)" self_ids ci_carry
  by unfold_locales (auto intro: kemits_ci_write kparses_ci_read)

subsection \<open>Draw interfaces\<close>

definition draw_image :: "plasma_ver \<Rightarrow> (nat \<Rightarrow> pl_uoid) \<Rightarrow> (nat option \<times> u32) list \<Rightarrow> bytes" where
  "draw_image v U ds = le32 (word_of_nat (length ds)) @ concat (map (\<lambda>(k, i). le32 i @ ref_image v U k) ds)"

definition di_image :: "plasma_ver \<Rightarrow> (nat \<Rightarrow> pl_uoid) \<Rightarrow> 'z draw_interface_scheme \<Rightarrow> bytes" where
  "di_image v U ob = oi_image v U ob @ draw_image v U (fDrawables ob) @ keys_image v U (fRegions ob)"

definition di_ok :: "st_lib \<Rightarrow> plasma_ver \<Rightarrow> (nat \<Rightarrow> pl_uoid) \<Rightarrow> 'z draw_interface_scheme \<Rightarrow> bool" where
  "di_ok L v U ob \<longleftrightarrow> oi_ok L v U ob \<and> keys_ok L v U (map fst (fDrawables ob)) \<and> keys_ok L v U (fRegions ob)"

definition di_refs :: "'z draw_interface_scheme \<Rightarrow> nat set" where
  "di_refs ob = oi_refs ob \<union> keys_refs (map fst (fDrawables ob)) \<union> keys_refs (fRegions ob)"

definition di_carry :: "plasma_ver \<Rightarrow> (nat \<Rightarrow> nat) \<Rightarrow> 'z draw_interface_scheme \<Rightarrow> 'z draw_interface_scheme \<Rightarrow>
    'z draw_interface_scheme" where
  "di_carry v f ob old = (oi_carry v f ob old)\<lparr>
     fDrawables := map (\<lambda>(k, i). (map_option f k, i)) (fDrawables ob),
     fRegions := map (map_option f) (fRegions ob)\<rparr>"

lemma di_after_simps [simp]:
  "fDrawables (oi_after ob) = fDrawables ob" "fRegions (oi_after ob) = fRegions ob"
  "di_image v U (oi_after ob) = di_image v U ob" "di_refs (oi_after ob) = di_refs ob"
  "di_carry v f (oi_after ob) old = di_carry v f ob old"
  by (simp_all add: di_image_def di_carry_def di_refs_def) (simp_all add: oi_after_def)

lemma kemits_draws:
  assumes "keys_ok L v U (map fst ds)" "me_ver M = v"
  shows "kemits U B (k_then (k_lift (writeInt (word_of_nat (length ds))))
      (k_each (\<lambda>(k, i). k_then (k_lift (writeInt i)) (mgr_writeKey M k)) ds)) v (draw_image v U ds) ()"
  unfolding draw_image_def
proof (rule kemits_then [OF kemits_lift [OF emits_prims(3)]], rule kemits_each)
  fix d
  assume d: "d \<in> set ds"
  obtain k i where ki: "d = (k, i)" by (cases d)
  have "ref_ok L v U k" using assms(1) d ki by (force simp: keys_ok_def)
  then have "kemits U B (k_then (k_lift (writeInt i)) (mgr_writeKey M k)) v (le32 i @ ref_image v U k) ()"
    by (rule kemits_then [OF kemits_lift [OF emits_prims(3)] kemits_writeKey]) (rule assms(2))
  then show "kemits U B (case d of (k, i) \<Rightarrow> k_then (k_lift (writeInt i)) (mgr_writeKey M k)) v
      (case d of (k, i) \<Rightarrow> le32 i @ ref_image v U k) ()" by (simp add: ki)
qed

lemma kparses_draws:
  assumes ok: "keys_ok L v U (map fst ds)" and M: "me_lib M = L" "me_ver M = v"
  shows "kparses (wire_id v U) this {} (k_bind (k_lift readInt) (\<lambda>n. k_repeat (unat n)
      (k_bind (k_lift readInt) (\<lambda>i. k_bind (mgr_readKey M) (\<lambda>k. k_return (k, i)))))) v (draw_image v U ds)
    (keys_refs (map fst ds)) (\<lambda>f. map (\<lambda>(k, i). (map_option f k, i)) ds)"
proof -
  let ?rd = "k_bind (k_lift readInt) (\<lambda>i. k_bind (mgr_readKey M) (\<lambda>k. k_return (k, i)))"
  have one: "kparses (wire_id v U) this {} ?rd v (case d of (k, i) \<Rightarrow> le32 i @ ref_image v U k) (set_option (fst d))
      (\<lambda>f. (map_option f (fst d), snd d))" if d: "d \<in> set ds" for d
  proof -
    obtain k i where ki: "d = (k, i)" by (cases d)
    have "ref_ok L v U k" using ok d ki by (force simp: keys_ok_def)
    note rd = kparses_readKey [OF M this] parses_prims(3)
    have "kparses (wire_id v U) this {} ?rd v (le32 i @ ref_image v U k) (set_option k) (\<lambda>f. (map_option f k, i))"
      by (rule kread rd | simp)+
    then show ?thesis by (simp add: ki)
  qed
  show ?thesis unfolding draw_image_def
    by (rule kparses_conv, rule kparses_lift_bind [OF parses_prims(3)], rule kparses_repeat, rule one)
      (use ok in \<open>simp_all add: keys_ok_def keys_refs_def unat_of_nat case_prod_unfold\<close>)
qed

lemma kemits_di_write:
  assumes "di_ok L v U ob" "me_ver M = v"
  shows "kemits U B (di_write M ob) v (di_image v U ob) (oi_after ob)"
proof -
  note a = assms [unfolded di_ok_def]
  note wr = kemits_oi_write [of L, OF _ a(2)] kemits_draws [of L, OF _ a(2)] kemits_write_keys [of L, OF _ a(2)]
  have b: "kemits U B (k_bind (oi_write M ob) F) v (oi_image v U ob @ cs) x" if "kemits U B (F (oi_after ob)) v cs x" for F cs x
    by (rule kemits_bind [OF wr(1)]) (simp_all add: a that)
  have d: "kemits U B (k_then (k_then (k_lift (writeInt (word_of_nat (length (fDrawables ob)))))
      (k_each (\<lambda>(k, i). k_then (k_lift (writeInt i)) (mgr_writeKey M k)) (fDrawables ob))) k) v
      (draw_image v U (fDrawables ob) @ cs) x" if "kemits U B k v cs x" for k cs x
    by (rule kemits_then [OF wr(2)]) (simp_all add: a that)
  have r: "kemits U B (write_keys M (fRegions ob)) v (keys_image v U (fRegions ob)) ()" by (rule wr) (simp add: a)
  show ?thesis unfolding di_write_def di_image_def
    by (rule b, unfold di_after_simps, rule d, rule kemits_cong, rule kemits_then [OF r kemits_return]) simp_all
qed

lemma kparses_di_read:
  assumes "di_ok L v U ob" "me_lib M = L" "me_ver M = v"
  shows "kparses (wire_id v U) this (self_ids v U ob) (di_read M this old) v (di_image v U ob) (di_refs ob)
    (\<lambda>f. di_carry v f ob old)"
proof -
  note a = assms [unfolded di_ok_def]
  note rd = kparses_oi_read [OF _ a(2,3)] kparses_draws [OF _ a(2,3)] kparses_read_keys [OF _ a(2,3)]
  show ?thesis unfolding di_read_def di_image_def
    by (rule kparses_conv, rule kparses_bind [OF rd(1)], simp add: a, rule kparses_bind [OF rd(2)], simp add: a,
        rule kparses_bind_return [OF rd(3)]) (simp_all add: a di_refs_def di_carry_def Un_assoc)
qed

interpretation draw_interface: key_codec di_write di_read "\<lambda>L v U B. di_ok L v U" di_image "\<lambda>B. oi_after" di_refs self_ids
  di_carry
  by unfold_locales (auto intro: kemits_di_write kparses_di_read)

definition idi_image :: "plasma_ver \<Rightarrow> (nat \<Rightarrow> pl_uoid) \<Rightarrow> 'z instance_draw_interface_scheme \<Rightarrow> bytes" where
  "idi_image v U ob = di_image v U ob @ le32 (fTargetID ob) @ ref_image v U (fDrawable ob)"

definition idi_ok :: "st_lib \<Rightarrow> plasma_ver \<Rightarrow> (nat \<Rightarrow> pl_uoid) \<Rightarrow> 'z instance_draw_interface_scheme \<Rightarrow> bool" where
  "idi_ok L v U ob \<longleftrightarrow> di_ok L v U ob \<and> ref_ok L v U (fDrawable ob)"

definition idi_carry :: "plasma_ver \<Rightarrow> (nat \<Rightarrow> nat) \<Rightarrow> 'z instance_draw_interface_scheme \<Rightarrow>
    'z instance_draw_interface_scheme \<Rightarrow> 'z instance_draw_interface_scheme" where
  "idi_carry v f ob old = (di_carry v f ob old)\<lparr>fTargetID := fTargetID ob, fDrawable := map_option f (fDrawable ob)\<rparr>"

lemma idi_after_simps [simp]:
  "fTargetID (oi_after ob) = fTargetID ob" "fDrawable (oi_after ob) = fDrawable ob"
  "idi_image v U (oi_after ob) = idi_image v U ob" "idi_carry v f (oi_after ob) old = idi_carry v f ob old"
  by (simp_all add: idi_image_def idi_carry_def) (simp_all add: oi_after_def)

lemma kemits_idi_write:
  assumes "idi_ok L v U ob" "me_ver M = v"
  shows "kemits U B (idi_write M ob) v (idi_image v U ob) (oi_after ob)"
proof -
  note a = assms [unfolded idi_ok_def]
  note wr = kemits_di_write [of L, OF _ a(2)] kemits_writeKey [of L, OF _ a(2)] emits_prims(3)
  show ?thesis unfolding idi_write_def idi_image_def
    by (rule kemits_cong, (rule kwrite wr | simp add: a)+)
qed

lemma di_refs_self [simp]: "self_ids v U ob \<subseteq> wire_id v U ` (di_refs ob \<union> R)" "self_ids v U ob \<subseteq> wire_id v U ` di_refs ob"
  by (auto simp: di_refs_def oi_refs_def self_ids_def ko_refs_def)

lemma kparses_idi_read:
  assumes "idi_ok L v U ob" "me_lib M = L" "me_ver M = v"
  shows "kparses (wire_id v U) this (self_ids v U ob) (idi_read M this old) v (idi_image v U ob)
    (di_refs ob \<union> set_option (fDrawable ob)) (\<lambda>f. idi_carry v f ob old)"
proof -
  note a = assms [unfolded idi_ok_def]
  note rd = kparses_di_read [OF _ a(2,3)] kparses_readKey [OF a(2,3)] parses_prims(3)
  show ?thesis unfolding idi_read_def idi_image_def
    by (rule kparses_conv, (rule kread rd | simp add: a idi_carry_def)+)
qed

interpretation instance_draw_interface: key_codec idi_write idi_read "\<lambda>L v U B. idi_ok L v U" idi_image "\<lambda>B. oi_after"
  "\<lambda>ob. di_refs ob \<union> set_option (fDrawable ob)" self_ids idi_carry
  by unfold_locales (auto intro: kemits_idi_write kparses_idi_read)

subsection \<open>Simulation interfaces\<close>

definition si_image :: "plasma_ver \<Rightarrow> (nat \<Rightarrow> pl_uoid) \<Rightarrow> 'z simulation_interface_scheme \<Rightarrow> bytes" where
  "si_image v U ob = oi_image v U ob @ (if isUru v then bv_image (fProps ob) @ le32 (fUruInt ob) else []) @
     ref_image v U (fPhysical ob)"

definition si_ok :: "st_lib \<Rightarrow> plasma_ver \<Rightarrow> (nat \<Rightarrow> pl_uoid) \<Rightarrow> 'z simulation_interface_scheme \<Rightarrow> bool" where
  "si_ok L v U ob \<longleftrightarrow> oi_ok L v U ob \<and> ref_ok L v U (fPhysical ob)"

definition si_carry :: "plasma_ver \<Rightarrow> (nat \<Rightarrow> nat) \<Rightarrow> 'z simulation_interface_scheme \<Rightarrow> 'z simulation_interface_scheme \<Rightarrow>
    'z simulation_interface_scheme" where
  "si_carry v f ob old =
     (if isUru v then (oi_carry v f ob old)\<lparr>fUruInt := fUruInt ob\<rparr> else oi_carry v f ob old)
       \<lparr>fPhysical := map_option f (fPhysical ob)\<rparr>"

lemma si_after_simps [simp]:
  "fPhysical (oi_after ob) = fPhysical ob" "fUruInt (oi_after ob) = fUruInt ob" "fProps (oi_after ob) = bv_compact (fProps ob)"
  "si_image v U (oi_after ob) = si_image v U ob" "si_carry v f (oi_after ob) old = si_carry v f ob old"
  by (simp_all add: si_image_def si_carry_def) (simp_all add: oi_after_def)

lemma oi_after_again [simp]: "(oi_after ob)\<lparr>fProps := bv_compact (fProps ob)\<rparr> = oi_after ob"
  by (simp add: oi_after_def)

lemma kemits_si_write:
  assumes "si_ok L v U ob" "me_ver M = v"
  shows "kemits U B (si_write M ob) v (si_image v U ob) (oi_after ob)"
proof -
  note a = assms [unfolded si_ok_def]
  note wr = kemits_oi_write [of L, OF _ a(2)] kemits_writeKey [of L, OF _ a(2)] emits_prims(3) emits_bv_write
  have t: "kemits U B (k_bind (k_lift (bv_write (fProps (oi_after ob)))) (\<lambda>props.
         k_then (k_lift (writeInt (fUruInt (oi_after ob)))) (k_return ((oi_after ob)\<lparr>fProps := props\<rparr>)))) v
      (bv_image (fProps ob) @ le32 (fUruInt ob)) (oi_after ob)"
    by (rule kemits_cong, (rule kwrite wr | simp)+)
  have "kemits U B (if isUru v then k_bind (k_lift (bv_write (fProps (oi_after ob)))) (\<lambda>props.
         k_then (k_lift (writeInt (fUruInt (oi_after ob)))) (k_return ((oi_after ob)\<lparr>fProps := props\<rparr>)))
       else k_return (oi_after ob)) v (if isUru v then bv_image (fProps ob) @ le32 (fUruInt ob) else []) (oi_after ob)"
    using t kemits_return [of U B "oi_after ob" v] by simp
  note wr = wr this
  show ?thesis unfolding si_write_def si_image_def
    by (rule kemits_cong, rule kemits_bind [OF wr(1)], simp add: a, rule kemits_ver, rule kemits_bind [OF wr(5)],
        rule kemits_then [OF wr(2) kemits_return]) (simp_all add: a)
qed

lemma oi_carry_props: "fProps (oi_carry v f ob old) = (fProps old)\<lparr>fBits := fBits (bv_compact (fProps ob))\<rparr>"
  by (simp add: oi_carry_def)

lemma kparses_si_read:
  fixes ob :: "'z simulation_interface_scheme" and this :: 'o
  assumes "si_ok L v U ob" "me_lib M = L" "me_ver M = v"
  shows "kparses (wire_id v U) this (self_ids v U ob) (si_read M this old) v (si_image v U ob)
    (oi_refs ob \<union> set_option (fPhysical ob)) (\<lambda>f. si_carry v f ob old)"
proof -
  note a = assms [unfolded si_ok_def]
  have bv: "bv_ok v (fProps ob)" using a(1) by (simp add: oi_ok_def)
  note rd = kparses_oi_read [OF _ a(2,3)] kparses_readKey [OF a(2,3)]
  have t: "kparses (wire_id v U) this {} (if isUru v then
         k_bind (k_lift (bv_read (fProps x))) (\<lambda>props.
         k_bind (k_lift readInt) (\<lambda>i. k_return (x\<lparr>fProps := props, fUruInt := i\<rparr>)))
       else k_return x) v (if isUru v then bv_image (fProps ob) @ le32 (fUruInt ob) else []) {}
     (\<lambda>_. if isUru v then x\<lparr>fProps := (fProps x)\<lparr>fBits := fBits (bv_compact (fProps ob))\<rparr>, fUruInt := fUruInt ob\<rparr> else x)"
    for x :: "'z simulation_interface_scheme"
  proof (cases "isUru v")
    case True
    have "kparses (wire_id v U) this {} (k_bind (k_lift (bv_read (fProps x))) (\<lambda>props.
         k_bind (k_lift readInt) (\<lambda>i. k_return (x\<lparr>fProps := props, fUruInt := i\<rparr>)))) v
       (bv_image (fProps ob) @ le32 (fUruInt ob)) {}
       (\<lambda>_. x\<lparr>fProps := (fProps x)\<lparr>fBits := fBits (bv_compact (fProps ob))\<rparr>, fUruInt := fUruInt ob\<rparr>)"
      by (rule kparses_lift_bind [OF parses_bv_read [OF bv]], rule kparses_lift_return [OF parses_prims(3)])
    then show ?thesis by (simp add: True)
  qed (simp add: kparses_return)
  show ?thesis unfolding si_read_def si_image_def
    by (rule kparses_conv, rule kparses_bind [OF rd(1)], simp add: a, rule kparses_ver, rule kparses_bind [OF t],
        rule kparses_bind_return [OF rd(2)]) (simp_all add: a si_carry_def oi_carry_props)
qed

interpretation simulation_interface: key_codec si_write si_read "\<lambda>L v U B. si_ok L v U" si_image "\<lambda>B. oi_after"
  "\<lambda>ob. oi_refs ob \<union> set_option (fPhysical ob)" self_ids si_carry
  by unfold_locales (auto intro: kemits_si_write kparses_si_read)

subsection \<open>Scene objects\<close>

definition sc_image :: "plasma_ver \<Rightarrow> (nat \<Rightarrow> pl_uoid) \<Rightarrow> 'z scene_object_scheme \<Rightarrow> bytes" where
  "sc_image v U ob = so_image v U ob @ ref_image v U (fDrawIntf ob) @ ref_image v U (fSimIntf ob) @
     ref_image v U (fCoordIntf ob) @ ref_image v U (fAudioIntf ob) @ keys_image v U (fInterfaces ob) @
     keys_image v U (fModifiers ob) @ ref_image v U (fSceneNode ob)"

definition sc_wire_ok :: "st_lib \<Rightarrow> plasma_ver \<Rightarrow> (nat \<Rightarrow> pl_uoid) \<Rightarrow> 'z scene_object_scheme \<Rightarrow> bool" where
  "sc_wire_ok L v U ob \<longleftrightarrow> so_ok L v U ob \<and> list_all (ref_ok L v U) [fDrawIntf ob, fSimIntf ob, fCoordIntf ob, fAudioIntf ob, fSceneNode ob] \<and>
     keys_ok L v U (fInterfaces ob) \<and> keys_ok L v U (fModifiers ob) \<and> None \<notin> set (fModifiers ob)"

definition sc_refs :: "'z scene_object_scheme \<Rightarrow> nat set" where
  "sc_refs ob = ko_refs ob \<union> keys_refs [fDrawIntf ob, fSimIntf ob, fCoordIntf ob, fAudioIntf ob, fSceneNode ob] \<union>
     keys_refs (fInterfaces ob) \<union> keys_refs (fModifiers ob)"

definition sc_carry :: "plasma_ver \<Rightarrow> (nat \<Rightarrow> nat) \<Rightarrow> 'z scene_object_scheme \<Rightarrow> 'z scene_object_scheme \<Rightarrow>
    'z scene_object_scheme" where
  "sc_carry v f ob old = (so_carry v f ob old)\<lparr>fDrawIntf := map_option f (fDrawIntf ob), fSimIntf := map_option f (fSimIntf ob),
     fCoordIntf := map_option f (fCoordIntf ob), fAudioIntf := map_option f (fAudioIntf ob),
     fInterfaces := map (map_option f) (fInterfaces ob), fModifiers := map (map_option f) (fModifiers ob),
     fSceneNode := map_option f (fSceneNode ob)\<rparr>"

text \<open>The object that writing leaves has its lists in order; the order is one of the keys there are.\<close>

definition sc_after :: "('o \<Rightarrow> 'o \<Rightarrow> bool) \<Rightarrow> (nat \<Rightarrow> 'o option) \<Rightarrow> 'z scene_object_scheme \<Rightarrow> 'z scene_object_scheme" where
  "sc_after obj_after B ob = ob\<lparr>fInterfaces := the (order_keys obj_after B (fInterfaces ob)),
     fModifiers := the (order_keys obj_after B (fModifiers ob))\<rparr>"

definition order_free :: "('o \<Rightarrow> 'o \<Rightarrow> bool) \<Rightarrow> (nat \<Rightarrow> 'o option) \<Rightarrow> nat option list \<Rightarrow> bool" where
  "order_free obj_after B ks \<longleftrightarrow>
     acyclic {(y, x). {x, y} \<subseteq> map_option (\<lambda>a. (a, B a)) ` set ks \<and> key_orderAfter obj_after x y}"

lemma order_keys_perm:
  assumes "order_free obj_after B ks"
  shows "\<exists>r. order_keys obj_after B ks = Some r \<and> mset r = mset ks"
proof -
  let ?ks = "map (map_option (\<lambda>a. (a, B a))) ks"
  have "acyclic {(y, x). x \<in> set ?ks \<and> y \<in> set ?ks \<and> key_orderAfter obj_after x y}"
    using assms by (simp add: order_free_def conj_ac)
  then have "acyclic (after_on (key_orderAfter obj_after) (set ?ks))" by (simp add: after_on_def)
  from order_loop_ok [OF this, of "[]"] obtain r where r: "hsOrderKeys (key_orderAfter obj_after) ?ks = Some r" "mset r = mset ?ks"
    by (auto simp: hsOrderKeys_def in_order_def)
  have "mset (map (map_option fst) r) = mset (map (map_option fst) ?ks)" by (simp only: mset_map r(2))
  also have "map (map_option fst) ?ks = ks" by (simp add: option.map_comp comp_def option.map_ident)
  finally show ?thesis using r(1) by (simp add: order_keys_def)
qed

definition sc_ok :: "('o \<Rightarrow> 'o \<Rightarrow> bool) \<Rightarrow> st_lib \<Rightarrow> plasma_ver \<Rightarrow> (nat \<Rightarrow> pl_uoid) \<Rightarrow> (nat \<Rightarrow> 'o option) \<Rightarrow>
    'z scene_object_scheme \<Rightarrow> bool" where
  "sc_ok obj_after L v U B ob \<longleftrightarrow> sc_wire_ok L v U ob \<and>
     order_free obj_after B (fInterfaces ob) \<and> order_free obj_after B (fModifiers ob)"

lemma keys_ok_mset: "mset r = mset ks \<Longrightarrow> keys_ok L v U r = keys_ok L v U ks"
  by (metis keys_ok_def mset_eq_setD mset_eq_length)

lemma sc_after_ok:
  assumes "sc_ok obj_after L v U B ob"
  shows "sc_wire_ok L v U (sc_after obj_after B ob)"
    "order_keys obj_after B (fInterfaces ob) = Some (fInterfaces (sc_after obj_after B ob))"
    "order_keys obj_after B (fModifiers ob) = Some (fModifiers (sc_after obj_after B ob))"
    "mset (fInterfaces (sc_after obj_after B ob)) = mset (fInterfaces ob)"
    "mset (fModifiers (sc_after obj_after B ob)) = mset (fModifiers ob)"
proof -
  obtain r s where r: "order_keys obj_after B (fInterfaces ob) = Some r" "mset r = mset (fInterfaces ob)"
    and s: "order_keys obj_after B (fModifiers ob) = Some s" "mset s = mset (fModifiers ob)"
    using assms order_keys_perm by (auto simp: sc_ok_def) blast
  show "sc_wire_ok L v U (sc_after obj_after B ob)"
    using assms r s keys_ok_mset [OF r(2)] keys_ok_mset [OF s(2)] mset_eq_setD [OF s(2)]
    by (simp add: sc_ok_def sc_wire_ok_def sc_after_def so_ok_def ko_ok_def)
  show "order_keys obj_after B (fInterfaces ob) = Some (fInterfaces (sc_after obj_after B ob))"
    "order_keys obj_after B (fModifiers ob) = Some (fModifiers (sc_after obj_after B ob))"
    "mset (fInterfaces (sc_after obj_after B ob)) = mset (fInterfaces ob)"
    "mset (fModifiers (sc_after obj_after B ob)) = mset (fModifiers ob)"
    using r s by (simp_all add: sc_after_def)
qed

lemma kemits_order:
  assumes "order_keys obj_after B ks = Some r"
  shows "kemits U B (k_order obj_after ks) v [] r"
proof (rule kemitsI)
  fix st :: "'a key_store"
  assume n: "named U B st"
  then have "ks_objs st = B" by (auto simp: named_def ks_objs_def)
  then have "k_order obj_after ks st = io_return (r, st)" using assms by (simp add: k_order_def)
  then show "\<exists>st'. emits (k_order obj_after ks st) v [] (r, st') v \<and> named U B st' \<and> wr_frame st st'"
    using n wr_frame_refl emits_return by metis
qed

lemma kemits_sc_write:
  assumes "sc_ok obj_after L v U B ob" "me_ver M = v"
  shows "kemits U B (sc_write obj_after M ob) v (sc_image v U (sc_after obj_after B ob)) (sc_after obj_after B ob)"
proof -
  let ?o = "sc_after obj_after B ob"
  note a = assms [unfolded sc_ok_def sc_wire_ok_def list.pred_inject]
  note b = sc_after_ok [OF assms(1)]
  have k: "keys_ok L v U (fInterfaces ?o)" "keys_ok L v U (fModifiers ?o)" using b(1) by (simp_all add: sc_wire_ok_def)
  note wr = kemits_so_write [of L, OF _ a(2)] kemits_writeKey [of L, OF _ a(2)]
    kemits_order [OF b(2)] kemits_order [OF b(3)] kemits_write_keys [OF k(1) a(2)] kemits_write_keys [OF k(2) a(2)]
  have f: "fDrawIntf ?o = fDrawIntf ob" "fSimIntf ?o = fSimIntf ob" "fCoordIntf ?o = fCoordIntf ob"
    "fAudioIntf ?o = fAudioIntf ob" "fSceneNode ?o = fSceneNode ob" "so_image v U ?o = so_image v U ob"
    by (simp_all add: sc_after_def so_image_def ko_image_def)
  have o: "ob\<lparr>fInterfaces := fInterfaces ?o, fModifiers := fModifiers ?o\<rparr> = ?o" by (simp add: sc_after_def)
  show ?thesis unfolding sc_write_def sc_image_def
    by (rule kemits_cong, (rule kwrite wr | simp add: a f o)+)
qed

lemma kparses_sc_read:
  assumes "sc_wire_ok L v U ob" "me_lib M = L" "me_ver M = v"
  shows "kparses (wire_id v U) this (self_ids v U ob) (sc_read M this old) v (sc_image v U ob) (sc_refs ob)
    (\<lambda>f. sc_carry v f ob old)"
proof -
  note a = assms [unfolded sc_wire_ok_def list.pred_inject]
  note rd = kparses_so_read [OF _ a(2,3)] kparses_readKey [OF a(2,3)] kparses_read_keys [OF _ a(2,3)]
    kparses_read_keys_notify [OF _ _ a(2,3)]
  show ?thesis unfolding sc_read_def sc_image_def
    by (rule kparses_conv, (rule kread rd | simp add: a sc_carry_def)+) (auto simp: sc_refs_def keys_refs_def sc_carry_def)
qed

interpretation scene_object: key_codec "sc_write obj_after" sc_read "sc_ok obj_after" sc_image "sc_after obj_after"
  sc_refs self_ids sc_carry
proof (unfold_locales, goal_cases)
  case (1 L v U B ob M)
  then show ?case by (rule kemits_sc_write)
next
  case (2 L v U B ob M this old)
  have "self_ids v U (sc_after obj_after B ob) = self_ids v U ob" by (simp add: self_ids_def sc_after_def)
  with kparses_sc_read [OF sc_after_ok(1) [OF 2(1)] 2(2,3), of this old] show ?case by simp
qed

section \<open>Properties\<close>


definition scene_store :: "nat key_store" where
  "scene_store = \<lparr>ks_cells = (\<lambda>a. \<lparr>kc_data = key_data_new\<lparr>k_uoid := if a = 0 then sample_uoid else
       sample_uoid\<lparr>u_objID := word_of_nat a, u_objName := [65]\<rparr>\<rparr>, kc_obj = if a \<in> {2, 3} then Some a else None, kc_refs = 1\<rparr>),
     ks_next = 4, ks_keys = []\<rparr>"

definition bare_store :: "nat key_store" where
  "bare_store = \<lparr>ks_cells = (\<lambda>_. \<lparr>kc_data = key_data_new, kc_obj = None, kc_refs = 0\<rparr>), ks_next = 0, ks_keys = []\<rparr>"

lemma bare_store_facts: "located bare_store" "bounded bare_store" "\<not> ks_loaded bare_store c"
  by (simp_all add: located_def bounded_def bare_store_def ks_vec_def ks_types_def kv_new_def ks_loaded_def)

definition sample_scene :: scene_object where
  "sample_scene = \<lparr>myKey = Some 0, fSynchFlags = 0x10, fSDLExcludeList = [[65]], fSDLVolatileList = [],
     fDrawIntf = Some 1, fSimIntf = None, fCoordIntf = None, fAudioIntf = None, fInterfaces = [],
     fModifiers = [Some 3, Some 2], fSceneNode = Some 0\<rparr>"

definition sample_mgr :: mgr where
  "sample_mgr = \<lparr>me_lib = ascii_lib, me_ver = pvMoul, me_pres = False\<rparr>"


text \<open>A coordinate interface comes back with its owner, its properties, its children and its four
  matrices; only the formats with a flag for the identity turn a minus zero in an identity
  matrix into a zero.\<close>

theorem coordinate_interface_roundtrip:
  fixes st st2 :: "'o key_store"
  assumes "ci_ok (me_lib M) (me_ver M) (ks_uoid st) ob"
    and "me_lib M' = me_lib M" "me_ver M' = me_ver M" "located st2" "bounded st2"
    and "\<And>a c. myKey ob = Some a \<Longrightarrow> stands_for c (wire_id (me_ver M) (ks_uoid st) a) st2 \<Longrightarrow> \<not> ks_loaded st2 c"
    and "length (ci_image (me_ver M) (ks_uoid st) ob) < 2 ^ 32"
  shows "\<exists>st1 s st3 f. ci_write M ob st \<lparr>s_ver = me_ver M, s_data = [], s_pos = 0\<rparr> = Inr ((oi_after ob, st1), s) \<and>
     ci_read M' this old st2 (s\<lparr>s_pos := 0\<rparr>) = Inr ((ci_carry (me_ver M) f ob old, st3), s) \<and> s_eof s \<and>
     (\<forall>a \<in> oi_refs ob \<union> keys_refs (fChildren ob). stands_for (f a) (wire_id (me_ver M) (ks_uoid st) a) st3)"
proof -
  have "unloaded (self_ids (me_ver M) (ks_uoid st) ob) st2" using assms(6) by (auto simp: unloaded_def self_ids_def)
  with coordinate_interface.roundtrip [OF assms(1-3), of st2 this old] assms(4,5,7)
  show ?thesis by (auto simp: rd_inv_def resolves_def)
qed

theorem coordinate_interface_roundtrip_witness:
  "\<exists>st1 s st3 f. let ob = \<lparr>myKey = Some 0, fSynchFlags = 0, fSDLExcludeList = [], fSDLVolatileList = [], fOwner = Some 1,
       fProps = bv_empty, fLocalToParent = mat_identity 4, fParentToLocal = replicate 16 7, fLocalToWorld = mat_identity 4,
       fWorldToLocal = mat_identity 4, fChildren = [Some 2, Some 3]\<rparr> :: coordinate_interface in
     ci_write sample_mgr ob scene_store \<lparr>s_ver = pvMoul, s_data = [], s_pos = 0\<rparr> = Inr ((oi_after ob, st1), s) \<and>
     ci_read sample_mgr 9 ob bare_store (s\<lparr>s_pos := 0\<rparr>) = Inr ((ci_carry pvMoul f ob ob, st3), s)"
proof -
  let ?ob = "\<lparr>myKey = Some 0, fSynchFlags = 0, fSDLExcludeList = [], fSDLVolatileList = [], fOwner = Some 1,
       fProps = bv_empty, fLocalToParent = mat_identity 4, fParentToLocal = replicate 16 7, fLocalToWorld = mat_identity 4,
       fWorldToLocal = mat_identity 4, fChildren = [Some 2, Some 3]\<rparr> :: coordinate_interface"
  let ?U = "ks_uoid scene_store"
  have k: "list_all (\<lambda>a. ref_ok ascii_lib pvMoul ?U (Some a)) [0, 1, 2, 3]" "self_ok ascii_lib pvMoul ?U (Some 0)" by code_simp+
  have b: "fBits (bv_compact bv_empty) = []" "length (mat_identity 4) = 16" by code_simp+
  have ok: "ci_ok (me_lib sample_mgr) (me_ver sample_mgr) ?U ?ob"
    using k by (simp add: ci_ok_def oi_ok_def so_ok_def ko_ok_def names_ok_def keys_ok_def bv_ok_def b sample_mgr_def)
  have "length (ci_image (me_ver sample_mgr) ?U ?ob) = 181" by code_simp
  then have len: "length (ci_image (me_ver sample_mgr) ?U ?ob) < 2 ^ 32" by simp
  from coordinate_interface_roundtrip [OF ok refl refl bare_store_facts(1,2) _ len, of 9 ?ob] show ?thesis
    by (fastforce simp: bare_store_facts sample_mgr_def Let_def)
qed





end
