(* ===== verification/MD5.thy ===== *)
theory MD5
  imports HsStrings
begin

text \<open>
  The MD5 sums of \<open>src/core/Util/plMD5\<close>: the unrolled block function, the two loops that feed it
  and pad the last block, and the textual form of a sum.  The reference is the algorithm of RFC
  1321: one loop of sixty-four steps over rotating variables, folded over the padded message.

  The buffer for a block is not initialised; its contents are a parameter, and the theorems hold for
  any.  A C string is its bytes without the terminator.
\<close>

section \<open>Sums and their text\<close>

type_synonym md5_hash = "u32 \<times> u32 \<times> u32 \<times> u32"

definition md5_hash_new :: md5_hash where
  "md5_hash_new = (0xd98c1dd4, 0x04b2008f, 0x980980e9, 0x7e42f8ec)"

definition kHexTable :: bytes where
  "kHexTable = [48, 49, 50, 51, 52, 53, 54, 55, 56, 57, 97, 98, 99, 100, 101, 102]"

definition charToHex :: "u8 \<Rightarrow> int" where
  "charToHex ch =
     (if 48 \<le> ch \<and> ch \<le> 57 then uint ch - 48
      else if 97 \<le> ch \<and> ch \<le> 102 then uint ch - 87
      else if 65 \<le> ch \<and> ch \<le> 70 then uint ch - 55
      else -1)"

definition hash8 :: "md5_hash \<Rightarrow> bytes" where
  "hash8 h = (case h of (a, b, c, d) \<Rightarrow> le32 a @ le32 b @ le32 c @ le32 d)"

definition hash32 :: "bytes \<Rightarrow> md5_hash" where
  "hash32 bs = (un_le32 (take 4 bs), un_le32 (take 4 (drop 4 bs)), un_le32 (take 4 (drop 8 bs)), un_le32 (take 4 (drop 12 bs)))"

definition hex_byte :: "u8 \<Rightarrow> bytes" where
  "hex_byte b = [kHexTable ! unat (drop_bit 4 (b AND 0xF0)), kHexTable ! unat (b AND 0x0F)]"

definition md5_toHex :: "md5_hash \<Rightarrow> bytes" where
  "md5_toHex h = concat (map hex_byte (hash8 h))"

fun from_hex_bytes :: "bytes \<Rightarrow> bytes result" where
  "from_hex_bytes (x # y # r) =
     (let ch1 = charToHex x; ch2 = charToHex y in
      if ch1 = -1 \<or> ch2 = -1 then Inl BadParamException
      else rbind (from_hex_bytes r) (\<lambda>bs.
        Inr ((push_bit 4 (word_of_int ch1) AND 0xF0 OR word_of_int ch2 AND 0x0F) # bs)))"
| "from_hex_bytes _ = Inr []"

definition md5_fromHex :: "bytes \<Rightarrow> md5_hash result" where
  "md5_fromHex hex =
     (if length hex \<noteq> 32 then Inl BadParamException
      else rbind (from_hex_bytes hex) (\<lambda>bs. Inr (hash32 bs)))"

definition md5_eq :: "md5_hash \<Rightarrow> md5_hash \<Rightarrow> bool" where
  "md5_eq a b \<longleftrightarrow> hash8 a = hash8 b"

definition md5_ne :: "md5_hash \<Rightarrow> md5_hash \<Rightarrow> bool" where
  "md5_ne a b \<longleftrightarrow> hash8 a \<noteq> hash8 b"

definition md5_hash_read :: "md5_hash io" where
  "md5_hash_read = io_bind readInt (\<lambda>a. io_bind readInt (\<lambda>b. io_bind readInt (\<lambda>c. io_bind readInt (\<lambda>d.
     io_return (a, b, c, d)))))"

definition md5_hash_write :: "md5_hash \<Rightarrow> unit io" where
  "md5_hash_write h = (case h of (a, b, c, d) \<Rightarrow>
     io_then (writeInt a) (io_then (writeInt b) (io_then (writeInt c) (writeInt d))))"

section \<open>The block function\<close>

definition kShiftArray :: "nat list list" where
  "kShiftArray = [[7, 12, 17, 22], [5, 9, 14, 20], [4, 11, 16, 23], [6, 10, 15, 21]]"

definition kBaseArray :: "u32 list" where
  "kBaseArray =
    [0xd76aa478, 0xe8c7b756, 0x242070db, 0xc1bdceee, 0xf57c0faf, 0x4787c62a,
     0xa8304613, 0xfd469501, 0x698098d8, 0x8b44f7af, 0xffff5bb1, 0x895cd7be,
     0x6b901122, 0xfd987193, 0xa679438e, 0x49b40821, 0xf61e2562, 0xc040b340,
     0x265e5a51, 0xe9b6c7aa, 0xd62f105d, 0x02441453, 0xd8a1e681, 0xe7d3fbc8,
     0x21e1cde6, 0xc33707d6, 0xf4d50d87, 0x455a14ed, 0xa9e3e905, 0xfcefa3f8,
     0x676f02d9, 0x8d2a4c8a, 0xfffa3942, 0x8771f681, 0x6d9d6122, 0xfde5380c,
     0xa4beea44, 0x4bdecfa9, 0xf6bb4b60, 0xbebfbc70, 0x289b7ec6, 0xeaa127fa,
     0xd4ef3085, 0x04881d05, 0xd9d4d039, 0xe6db99e5, 0x1fa27cf8, 0xc4ac5665,
     0xf4292244, 0x432aff97, 0xab9423a7, 0xfc93a039, 0x655b59c3, 0x8f0ccc92,
     0xffeff47d, 0x85845dd1, 0x6fa87e4f, 0xfe2ce6e0, 0xa3014314, 0x4e0811a1,
     0xf7537e82, 0xbd3af235, 0x2ad7d2bb, 0xeb86d391]"

definition kPadArray :: bytes where
  "kPadArray = 0x80 # replicate 63 0"

definition ROTL :: "u32 \<Rightarrow> nat \<Rightarrow> u32" where
  "ROTL x n = push_bit n x OR drop_bit (32 - n) x"

text \<open>The macros assign to their first argument; here they return its new value.\<close>

definition R1 :: "u32 \<Rightarrow> u32 \<Rightarrow> u32 \<Rightarrow> u32 \<Rightarrow> u32 \<Rightarrow> nat \<Rightarrow> u32 \<Rightarrow> u32" where
  "R1 a b c d x s k = ROTL (a + ((b AND c) OR (NOT b AND d)) + x + k) s + b"

definition R2 :: "u32 \<Rightarrow> u32 \<Rightarrow> u32 \<Rightarrow> u32 \<Rightarrow> u32 \<Rightarrow> nat \<Rightarrow> u32 \<Rightarrow> u32" where
  "R2 a b c d x s k = ROTL (a + ((b AND d) OR (c AND NOT d)) + x + k) s + b"

definition R3 :: "u32 \<Rightarrow> u32 \<Rightarrow> u32 \<Rightarrow> u32 \<Rightarrow> u32 \<Rightarrow> nat \<Rightarrow> u32 \<Rightarrow> u32" where
  "R3 a b c d x s k = ROTL (a + (b XOR c XOR d) + x + k) s + b"

definition R4 :: "u32 \<Rightarrow> u32 \<Rightarrow> u32 \<Rightarrow> u32 \<Rightarrow> u32 \<Rightarrow> nat \<Rightarrow> u32 \<Rightarrow> u32" where
  "R4 a b c d x s k = ROTL (a + (c XOR (b OR NOT d)) + x + k) s + b"

type_synonym md5_ctx = "u32 \<times> u32 \<times> u32 \<times> u32"

definition md5_init :: md5_ctx where
  "md5_init = (0x67452301, 0xefcdab89, 0x98badcfe, 0x10325476)"

definition md5_round1 :: "u32 list \<Rightarrow> md5_ctx \<Rightarrow> md5_ctx" where
  "md5_round1 x = (\<lambda>(a, b, c, d).
     let a = R1 a b c d (x ! 0) (kShiftArray ! 0 ! 0) (kBaseArray ! 0) in
     let d = R1 d a b c (x ! 1) (kShiftArray ! 0 ! 1) (kBaseArray ! 1) in
     let c = R1 c d a b (x ! 2) (kShiftArray ! 0 ! 2) (kBaseArray ! 2) in
     let b = R1 b c d a (x ! 3) (kShiftArray ! 0 ! 3) (kBaseArray ! 3) in
     let a = R1 a b c d (x ! 4) (kShiftArray ! 0 ! 0) (kBaseArray ! 4) in
     let d = R1 d a b c (x ! 5) (kShiftArray ! 0 ! 1) (kBaseArray ! 5) in
     let c = R1 c d a b (x ! 6) (kShiftArray ! 0 ! 2) (kBaseArray ! 6) in
     let b = R1 b c d a (x ! 7) (kShiftArray ! 0 ! 3) (kBaseArray ! 7) in
     let a = R1 a b c d (x ! 8) (kShiftArray ! 0 ! 0) (kBaseArray ! 8) in
     let d = R1 d a b c (x ! 9) (kShiftArray ! 0 ! 1) (kBaseArray ! 9) in
     let c = R1 c d a b (x ! 10) (kShiftArray ! 0 ! 2) (kBaseArray ! 10) in
     let b = R1 b c d a (x ! 11) (kShiftArray ! 0 ! 3) (kBaseArray ! 11) in
     let a = R1 a b c d (x ! 12) (kShiftArray ! 0 ! 0) (kBaseArray ! 12) in
     let d = R1 d a b c (x ! 13) (kShiftArray ! 0 ! 1) (kBaseArray ! 13) in
     let c = R1 c d a b (x ! 14) (kShiftArray ! 0 ! 2) (kBaseArray ! 14) in
     let b = R1 b c d a (x ! 15) (kShiftArray ! 0 ! 3) (kBaseArray ! 15) in
     (a, b, c, d))"

definition md5_round2 :: "u32 list \<Rightarrow> md5_ctx \<Rightarrow> md5_ctx" where
  "md5_round2 x = (\<lambda>(a, b, c, d).
     let a = R2 a b c d (x ! 1) (kShiftArray ! 1 ! 0) (kBaseArray ! 16) in
     let d = R2 d a b c (x ! 6) (kShiftArray ! 1 ! 1) (kBaseArray ! 17) in
     let c = R2 c d a b (x ! 11) (kShiftArray ! 1 ! 2) (kBaseArray ! 18) in
     let b = R2 b c d a (x ! 0) (kShiftArray ! 1 ! 3) (kBaseArray ! 19) in
     let a = R2 a b c d (x ! 5) (kShiftArray ! 1 ! 0) (kBaseArray ! 20) in
     let d = R2 d a b c (x ! 10) (kShiftArray ! 1 ! 1) (kBaseArray ! 21) in
     let c = R2 c d a b (x ! 15) (kShiftArray ! 1 ! 2) (kBaseArray ! 22) in
     let b = R2 b c d a (x ! 4) (kShiftArray ! 1 ! 3) (kBaseArray ! 23) in
     let a = R2 a b c d (x ! 9) (kShiftArray ! 1 ! 0) (kBaseArray ! 24) in
     let d = R2 d a b c (x ! 14) (kShiftArray ! 1 ! 1) (kBaseArray ! 25) in
     let c = R2 c d a b (x ! 3) (kShiftArray ! 1 ! 2) (kBaseArray ! 26) in
     let b = R2 b c d a (x ! 8) (kShiftArray ! 1 ! 3) (kBaseArray ! 27) in
     let a = R2 a b c d (x ! 13) (kShiftArray ! 1 ! 0) (kBaseArray ! 28) in
     let d = R2 d a b c (x ! 2) (kShiftArray ! 1 ! 1) (kBaseArray ! 29) in
     let c = R2 c d a b (x ! 7) (kShiftArray ! 1 ! 2) (kBaseArray ! 30) in
     let b = R2 b c d a (x ! 12) (kShiftArray ! 1 ! 3) (kBaseArray ! 31) in
     (a, b, c, d))"

definition md5_round3 :: "u32 list \<Rightarrow> md5_ctx \<Rightarrow> md5_ctx" where
  "md5_round3 x = (\<lambda>(a, b, c, d).
     let a = R3 a b c d (x ! 5) (kShiftArray ! 2 ! 0) (kBaseArray ! 32) in
     let d = R3 d a b c (x ! 8) (kShiftArray ! 2 ! 1) (kBaseArray ! 33) in
     let c = R3 c d a b (x ! 11) (kShiftArray ! 2 ! 2) (kBaseArray ! 34) in
     let b = R3 b c d a (x ! 14) (kShiftArray ! 2 ! 3) (kBaseArray ! 35) in
     let a = R3 a b c d (x ! 1) (kShiftArray ! 2 ! 0) (kBaseArray ! 36) in
     let d = R3 d a b c (x ! 4) (kShiftArray ! 2 ! 1) (kBaseArray ! 37) in
     let c = R3 c d a b (x ! 7) (kShiftArray ! 2 ! 2) (kBaseArray ! 38) in
     let b = R3 b c d a (x ! 10) (kShiftArray ! 2 ! 3) (kBaseArray ! 39) in
     let a = R3 a b c d (x ! 13) (kShiftArray ! 2 ! 0) (kBaseArray ! 40) in
     let d = R3 d a b c (x ! 0) (kShiftArray ! 2 ! 1) (kBaseArray ! 41) in
     let c = R3 c d a b (x ! 3) (kShiftArray ! 2 ! 2) (kBaseArray ! 42) in
     let b = R3 b c d a (x ! 6) (kShiftArray ! 2 ! 3) (kBaseArray ! 43) in
     let a = R3 a b c d (x ! 9) (kShiftArray ! 2 ! 0) (kBaseArray ! 44) in
     let d = R3 d a b c (x ! 12) (kShiftArray ! 2 ! 1) (kBaseArray ! 45) in
     let c = R3 c d a b (x ! 15) (kShiftArray ! 2 ! 2) (kBaseArray ! 46) in
     let b = R3 b c d a (x ! 2) (kShiftArray ! 2 ! 3) (kBaseArray ! 47) in
     (a, b, c, d))"

definition md5_round4 :: "u32 list \<Rightarrow> md5_ctx \<Rightarrow> md5_ctx" where
  "md5_round4 x = (\<lambda>(a, b, c, d).
     let a = R4 a b c d (x ! 0) (kShiftArray ! 3 ! 0) (kBaseArray ! 48) in
     let d = R4 d a b c (x ! 7) (kShiftArray ! 3 ! 1) (kBaseArray ! 49) in
     let c = R4 c d a b (x ! 14) (kShiftArray ! 3 ! 2) (kBaseArray ! 50) in
     let b = R4 b c d a (x ! 5) (kShiftArray ! 3 ! 3) (kBaseArray ! 51) in
     let a = R4 a b c d (x ! 12) (kShiftArray ! 3 ! 0) (kBaseArray ! 52) in
     let d = R4 d a b c (x ! 3) (kShiftArray ! 3 ! 1) (kBaseArray ! 53) in
     let c = R4 c d a b (x ! 10) (kShiftArray ! 3 ! 2) (kBaseArray ! 54) in
     let b = R4 b c d a (x ! 1) (kShiftArray ! 3 ! 3) (kBaseArray ! 55) in
     let a = R4 a b c d (x ! 8) (kShiftArray ! 3 ! 0) (kBaseArray ! 56) in
     let d = R4 d a b c (x ! 15) (kShiftArray ! 3 ! 1) (kBaseArray ! 57) in
     let c = R4 c d a b (x ! 6) (kShiftArray ! 3 ! 2) (kBaseArray ! 58) in
     let b = R4 b c d a (x ! 13) (kShiftArray ! 3 ! 3) (kBaseArray ! 59) in
     let a = R4 a b c d (x ! 4) (kShiftArray ! 3 ! 0) (kBaseArray ! 60) in
     let d = R4 d a b c (x ! 11) (kShiftArray ! 3 ! 1) (kBaseArray ! 61) in
     let c = R4 c d a b (x ! 2) (kShiftArray ! 3 ! 2) (kBaseArray ! 62) in
     let b = R4 b c d a (x ! 9) (kShiftArray ! 3 ! 3) (kBaseArray ! 63) in
     (a, b, c, d))"

definition block_words :: "bytes \<Rightarrow> u32 list" where
  "block_words block = map (\<lambda>i. un_le32 (take 4 (drop (4 * i) block))) [0..<16]"

definition processBlock :: "bytes \<Rightarrow> md5_ctx \<Rightarrow> md5_ctx" where
  "processBlock block ctx =
     (let x = block_words block in
      case ctx of (fA, fB, fC, fD) \<Rightarrow>
      case md5_round4 x (md5_round3 x (md5_round2 x (md5_round1 x (fA, fB, fC, fD)))) of (a, b, c, d) \<Rightarrow>
      (fA + a, fB + b, fC + c, fD + d))"

section \<open>Hashing\<close>

definition memcpy :: "nat \<Rightarrow> bytes \<Rightarrow> bytes \<Rightarrow> bytes" where
  "memcpy i bs buf = take i buf @ bs @ drop (i + length bs) buf"

text \<open>The end of both functions: \<open>buf\<close> begins with the \<open>lastSize\<close> bytes that are left.\<close>

definition md5_final :: "nat \<Rightarrow> nat \<Rightarrow> bytes \<Rightarrow> md5_ctx \<Rightarrow> md5_hash" where
  "md5_final sz lastSize buf0 ctx0 =
     (let (buf, ctx) =
        (if 56 \<le> lastSize then
           (replicate 64 0, processBlock (memcpy lastSize (take (64 - lastSize) kPadArray) buf0) ctx0)
         else (memcpy lastSize (take (56 - lastSize) kPadArray) buf0, ctx0));
      bitSize = le32 (word_of_nat (sz * 2 ^ 3)) @ le32 (word_of_nat (sz div 2 ^ 29)) in
      processBlock (memcpy 56 bitSize buf) ctx)"

function md5_string_loop :: "bytes \<Rightarrow> nat \<Rightarrow> bytes \<times> md5_ctx \<Rightarrow> nat \<times> bytes \<times> md5_ctx" where
  "md5_string_loop str pos s =
     (if pos + 64 \<le> length str then
        let buf = memcpy 0 (take 64 (drop pos str)) (fst s) in
        md5_string_loop str (pos + 64) (buf, processBlock buf (snd s))
      else (pos, s))"
  by pat_completeness auto
termination by (relation "measure (\<lambda>(str, pos, s). length str - pos)") auto

definition hashString :: "bytes \<Rightarrow> bytes \<Rightarrow> md5_hash" where
  "hashString buf0 str =
     (case md5_string_loop str 0 (buf0, md5_init) of (pos, buf, ctx) \<Rightarrow>
      let lastSize = length str - pos in
      md5_final (length str) lastSize (memcpy 0 (take lastSize (drop pos str)) buf) ctx)"

text \<open>The stream is read from where it stands; its size is asked once, at the start.\<close>

function md5_stream_loop :: "nat \<Rightarrow> nat \<Rightarrow> bytes \<times> md5_ctx \<Rightarrow> (nat \<times> bytes \<times> md5_ctx) io" where
  "md5_stream_loop sz pos s =
     (if pos + 64 \<le> sz then
        io_bind (st_read 64) (\<lambda>bs.
        let buf = memcpy 0 bs (fst s) in
        md5_stream_loop sz (pos + 64) (buf, processBlock buf (snd s)))
      else io_return (pos, s))"
  by pat_completeness auto
termination by (relation "measure (\<lambda>(sz, pos, s). sz - pos)") auto

definition hashStream :: "bytes \<Rightarrow> md5_hash io" where
  "hashStream buf0 = io_bind (\<lambda>s. Inr (s_size s, s)) (\<lambda>sz.
     io_bind (md5_stream_loop sz 0 (buf0, md5_init)) (\<lambda>(pos, buf, ctx).
     let lastSize = sz - pos in
     io_bind (st_read lastSize) (\<lambda>bs. io_return (md5_final sz lastSize (memcpy 0 bs buf) ctx))))"

section \<open>The algorithm of RFC 1321\<close>

definition rfc_f :: "nat \<Rightarrow> u32 \<Rightarrow> u32 \<Rightarrow> u32 \<Rightarrow> u32" where
  "rfc_f i b c d =
     (if i < 16 then (b AND c) OR (NOT b AND d)
      else if i < 32 then (b AND d) OR (c AND NOT d)
      else if i < 48 then b XOR c XOR d
      else c XOR (b OR NOT d))"

definition rfc_g :: "nat \<Rightarrow> nat" where
  "rfc_g i =
     (if i < 16 then i
      else if i < 32 then (5 * i + 1) mod 16
      else if i < 48 then (3 * i + 5) mod 16
      else (7 * i) mod 16)"

definition rfc_shift :: "nat \<Rightarrow> nat" where
  "rfc_shift i = [7, 12, 17, 22, 5, 9, 14, 20, 4, 11, 16, 23, 6, 10, 15, 21] ! (i div 16 * 4 + i mod 4)"

definition rfc_step :: "u32 list \<Rightarrow> nat \<Rightarrow> md5_ctx \<Rightarrow> md5_ctx" where
  "rfc_step x i = (\<lambda>(a, b, c, d).
     (d, ROTL (a + rfc_f i b c d + x ! rfc_g i + kBaseArray ! i) (rfc_shift i) + b, b, c))"

definition rfc_block :: "bytes \<Rightarrow> md5_ctx \<Rightarrow> md5_ctx" where
  "rfc_block block ctx =
     (case (ctx, fold (rfc_step (block_words block)) [0..<64] ctx) of
        ((a0, b0, c0, d0), (a, b, c, d)) \<Rightarrow> (a0 + a, b0 + b, c0 + c, d0 + d))"

definition rfc_padded :: "bytes \<Rightarrow> bytes" where
  "rfc_padded m = m @ [0x80] @ replicate ((119 - length m mod 64) mod 64) 0 @ le64 (word_of_nat (8 * length m))"

function blocks :: "bytes \<Rightarrow> bytes list" where
  "blocks m = (if length m < 64 then [] else take 64 m # blocks (drop 64 m))"
  by pat_completeness auto
termination by (relation "measure length") auto

definition rfc_md5 :: "bytes \<Rightarrow> md5_hash" where
  "rfc_md5 m = fold rfc_block (blocks (rfc_padded m)) md5_init"

declare blocks.simps [simp del]

text \<open>Four steps update the variables one after the other and leave each in its place again.\<close>

lemma rfc_four:
  "rfc_step x (i + 3) (rfc_step x (i + 2) (rfc_step x (i + 1) (rfc_step x i (a, b, c, d)))) =
     (let a = ROTL (a + rfc_f i b c d + x ! rfc_g i + kBaseArray ! i) (rfc_shift i) + b;
          d = ROTL (d + rfc_f (i + 1) a b c + x ! rfc_g (i + 1) + kBaseArray ! (i + 1)) (rfc_shift (i + 1)) + a;
          c = ROTL (c + rfc_f (i + 2) d a b + x ! rfc_g (i + 2) + kBaseArray ! (i + 2)) (rfc_shift (i + 2)) + d;
          b = ROTL (b + rfc_f (i + 3) c d a + x ! rfc_g (i + 3) + kBaseArray ! (i + 3)) (rfc_shift (i + 3)) + c
      in (a, b, c, d))"
  by (simp add: rfc_step_def Let_def)

lemma case_prod_let: "case_prod f (Let t g) = Let t (\<lambda>x. case_prod f (g x))"
  by (simp add: Let_def)

definition rfc_quad :: "u32 list \<Rightarrow> nat \<Rightarrow> md5_ctx \<Rightarrow> md5_ctx" where
  "rfc_quad x i ctx = rfc_step x (i + 3) (rfc_step x (i + 2) (rfc_step x (i + 1) (rfc_step x i ctx)))"

lemma rfc_quads:
  assumes "j = i + 16" "k = i + 4" "l = i + 8" "m = i + 12"
  shows "fold (rfc_step x) [i..<j] ctx = rfc_quad x m (rfc_quad x l (rfc_quad x k (rfc_quad x i ctx)))"
proof -
  have "[i..<i + 16] = map (\<lambda>k. k + i) [0..<16]" using map_add_upt [of i 16] by (simp add: add.commute)
  also have "[0..<16] = [0, 1, 2, 3, 4, 5, 6, 7, 8, 9, 10, 11, 12, 13, 14, 15]" by (simp add: upt_conv_Cons)
  finally show ?thesis by (simp add: rfc_quad_def ac_simps assms)
qed

text \<open>Four lines of the unrolled code.\<close>

definition four_lines :: "(u32 \<Rightarrow> u32 \<Rightarrow> u32 \<Rightarrow> u32 \<Rightarrow> u32 \<Rightarrow> nat \<Rightarrow> u32 \<Rightarrow> u32) \<Rightarrow> u32 list \<Rightarrow>
    nat \<Rightarrow> nat \<times> nat \<times> nat \<times> nat \<Rightarrow> nat \<times> nat \<times> nat \<times> nat \<Rightarrow> md5_ctx \<Rightarrow> md5_ctx" where
  "four_lines R x k = (\<lambda>(g0, g1, g2, g3) (s0, s1, s2, s3) (a, b, c, d).
     let a = R a b c d (x ! g0) s0 (kBaseArray ! k);
         d = R d a b c (x ! g1) s1 (kBaseArray ! (k + 1));
         c = R c d a b (x ! g2) s2 (kBaseArray ! (k + 2));
         b = R b c d a (x ! g3) s3 (kBaseArray ! (k + 3))
     in (a, b, c, d))"

lemma quad_lines:
  assumes f: "\<And>j. j \<in> {i, i + 1, i + 2, i + 3} \<Longrightarrow> rfc_f j = F"
    and R: "\<And>a b c d y s k. R a b c d y s k = ROTL (a + F b c d + y + k) s + b"
  shows "rfc_quad x i = four_lines R x i (rfc_g i, rfc_g (i + 1), rfc_g (i + 2), rfc_g (i + 3))
    (rfc_shift i, rfc_shift (i + 1), rfc_shift (i + 2), rfc_shift (i + 3))"
proof
  fix ctx :: md5_ctx
  obtain a b c d where ctx: "ctx = (a, b, c, d)" by (cases ctx)
  have g: "rfc_f i = F" "rfc_f (i + 1) = F" "rfc_f (i + 2) = F" "rfc_f (i + 3) = F" by (rule f, simp)+
  show "rfc_quad x i ctx = four_lines R x i (rfc_g i, rfc_g (i + 1), rfc_g (i + 2), rfc_g (i + 3))
    (rfc_shift i, rfc_shift (i + 1), rfc_shift (i + 2), rfc_shift (i + 3)) ctx"
    by (simp only: ctx rfc_quad_def rfc_four four_lines_def R g prod.case)
qed

lemma quad_round1:
  "0 \<le> i \<Longrightarrow> i + 3 < 16 \<Longrightarrow> rfc_quad x i = four_lines R1 x i (rfc_g i, rfc_g (i + 1), rfc_g (i + 2), rfc_g (i + 3))
    (rfc_shift i, rfc_shift (i + 1), rfc_shift (i + 2), rfc_shift (i + 3))"
  by (rule quad_lines [where F = "\<lambda>b c d. (b AND c) OR (NOT b AND d)"]) (auto simp: rfc_f_def R1_def fun_eq_iff)

lemma quad_round2:
  "16 \<le> i \<Longrightarrow> i + 3 < 32 \<Longrightarrow> rfc_quad x i = four_lines R2 x i (rfc_g i, rfc_g (i + 1), rfc_g (i + 2), rfc_g (i + 3))
    (rfc_shift i, rfc_shift (i + 1), rfc_shift (i + 2), rfc_shift (i + 3))"
  by (rule quad_lines [where F = "\<lambda>b c d. (b AND d) OR (c AND NOT d)"]) (auto simp: rfc_f_def R2_def fun_eq_iff)

lemma quad_round3:
  "32 \<le> i \<Longrightarrow> i + 3 < 48 \<Longrightarrow> rfc_quad x i = four_lines R3 x i (rfc_g i, rfc_g (i + 1), rfc_g (i + 2), rfc_g (i + 3))
    (rfc_shift i, rfc_shift (i + 1), rfc_shift (i + 2), rfc_shift (i + 3))"
  by (rule quad_lines [where F = "\<lambda>b c d. b XOR c XOR d"]) (auto simp: rfc_f_def R3_def fun_eq_iff)

lemma quad_round4:
  "48 \<le> i \<Longrightarrow> i + 3 < 64 \<Longrightarrow> rfc_quad x i = four_lines R4 x i (rfc_g i, rfc_g (i + 1), rfc_g (i + 2), rfc_g (i + 3))
    (rfc_shift i, rfc_shift (i + 1), rfc_shift (i + 2), rfc_shift (i + 3))"
  by (rule quad_lines [where F = "\<lambda>b c d. c XOR (b OR NOT d)"]) (auto simp: rfc_f_def R4_def fun_eq_iff)

lemma shifts:
  "kShiftArray ! 0 ! 0 = 7" "kShiftArray ! 0 ! 1 = 12" "kShiftArray ! 0 ! 2 = 17" "kShiftArray ! 0 ! 3 = 22"
  "kShiftArray ! 1 ! 0 = 5" "kShiftArray ! 1 ! 1 = 9" "kShiftArray ! 1 ! 2 = 14" "kShiftArray ! 1 ! 3 = 20"
  "kShiftArray ! 2 ! 0 = 4" "kShiftArray ! 2 ! 1 = 11" "kShiftArray ! 2 ! 2 = 16" "kShiftArray ! 2 ! 3 = 23"
  "kShiftArray ! 3 ! 0 = 6" "kShiftArray ! 3 ! 1 = 10" "kShiftArray ! 3 ! 2 = 15" "kShiftArray ! 3 ! 3 = 21"
  by (simp_all add: kShiftArray_def)

lemma idx:
  "(0 :: nat) + 1 = 1" "Suc 0 = 1" "Suc 1 = 2" "(0 :: nat) + 2 = 2" "(0 :: nat) + 3 = 3" "(4 :: nat) + 1 = 5"
  "(4 :: nat) + 2 = 6" "(4 :: nat) + 3 = 7" "(8 :: nat) + 1 = 9" "(8 :: nat) + 2 = 10"
  "(8 :: nat) + 3 = 11" "(12 :: nat) + 1 = 13" "(12 :: nat) + 2 = 14" "(12 :: nat) + 3 = 15"
  "(16 :: nat) + 1 = 17" "(16 :: nat) + 2 = 18" "(16 :: nat) + 3 = 19" "(20 :: nat) + 1 = 21"
  "(20 :: nat) + 2 = 22" "(20 :: nat) + 3 = 23" "(24 :: nat) + 1 = 25" "(24 :: nat) + 2 = 26"
  "(24 :: nat) + 3 = 27" "(28 :: nat) + 1 = 29" "(28 :: nat) + 2 = 30" "(28 :: nat) + 3 = 31"
  "(32 :: nat) + 1 = 33" "(32 :: nat) + 2 = 34" "(32 :: nat) + 3 = 35" "(36 :: nat) + 1 = 37"
  "(36 :: nat) + 2 = 38" "(36 :: nat) + 3 = 39" "(40 :: nat) + 1 = 41" "(40 :: nat) + 2 = 42"
  "(40 :: nat) + 3 = 43" "(44 :: nat) + 1 = 45" "(44 :: nat) + 2 = 46" "(44 :: nat) + 3 = 47"
  "(48 :: nat) + 1 = 49" "(48 :: nat) + 2 = 50" "(48 :: nat) + 3 = 51" "(52 :: nat) + 1 = 53"
  "(52 :: nat) + 2 = 54" "(52 :: nat) + 3 = 55" "(56 :: nat) + 1 = 57" "(56 :: nat) + 2 = 58"
  "(56 :: nat) + 3 = 59" "(60 :: nat) + 1 = 61" "(60 :: nat) + 2 = 62" "(60 :: nat) + 3 = 63"
  by simp_all

lemma round1: "md5_round1 x ctx = fold (rfc_step x) [0..<16] ctx"
proof -
  note q = quad_round1 [of 0, simplified rfc_g_def rfc_shift_def, simplified] quad_round1 [of 4, simplified rfc_g_def rfc_shift_def, simplified]
    quad_round1 [of 8, simplified rfc_g_def rfc_shift_def, simplified] quad_round1 [of 12, simplified rfc_g_def rfc_shift_def, simplified]
  have e: "fold (rfc_step x) [0..<16] ctx = rfc_quad x 12 (rfc_quad x 8 (rfc_quad x 4 (rfc_quad x 0 ctx)))"
    by (rule rfc_quads) simp_all
  show ?thesis
    unfolding e md5_round1_def shifts
    by (cases ctx) (simp only: q four_lines_def case_prod_let prod.case idx)
qed

lemma round2: "md5_round2 x ctx = fold (rfc_step x) [16..<32] ctx"
proof -
  note q = quad_round2 [of 16, simplified rfc_g_def rfc_shift_def, simplified] quad_round2 [of 20, simplified rfc_g_def rfc_shift_def, simplified]
    quad_round2 [of 24, simplified rfc_g_def rfc_shift_def, simplified] quad_round2 [of 28, simplified rfc_g_def rfc_shift_def, simplified]
  have e: "fold (rfc_step x) [16..<32] ctx = rfc_quad x 28 (rfc_quad x 24 (rfc_quad x 20 (rfc_quad x 16 ctx)))"
    by (rule rfc_quads) simp_all
  show ?thesis
    unfolding e md5_round2_def shifts
    by (cases ctx) (simp only: q four_lines_def case_prod_let prod.case idx)
qed

lemma round3: "md5_round3 x ctx = fold (rfc_step x) [32..<48] ctx"
proof -
  note q = quad_round3 [of 32, simplified rfc_g_def rfc_shift_def, simplified] quad_round3 [of 36, simplified rfc_g_def rfc_shift_def, simplified]
    quad_round3 [of 40, simplified rfc_g_def rfc_shift_def, simplified] quad_round3 [of 44, simplified rfc_g_def rfc_shift_def, simplified]
  have e: "fold (rfc_step x) [32..<48] ctx = rfc_quad x 44 (rfc_quad x 40 (rfc_quad x 36 (rfc_quad x 32 ctx)))"
    by (rule rfc_quads) simp_all
  show ?thesis
    unfolding e md5_round3_def shifts
    by (cases ctx) (simp only: q four_lines_def case_prod_let prod.case idx)
qed

lemma round4: "md5_round4 x ctx = fold (rfc_step x) [48..<64] ctx"
proof -
  note q = quad_round4 [of 48, simplified rfc_g_def rfc_shift_def, simplified] quad_round4 [of 52, simplified rfc_g_def rfc_shift_def, simplified]
    quad_round4 [of 56, simplified rfc_g_def rfc_shift_def, simplified] quad_round4 [of 60, simplified rfc_g_def rfc_shift_def, simplified]
  have e: "fold (rfc_step x) [48..<64] ctx = rfc_quad x 60 (rfc_quad x 56 (rfc_quad x 52 (rfc_quad x 48 ctx)))"
    by (rule rfc_quads) simp_all
  show ?thesis
    unfolding e md5_round4_def shifts
    by (cases ctx) (simp only: q four_lines_def case_prod_let prod.case idx)
qed

lemma processBlock_rfc: "processBlock = rfc_block"
proof (intro ext)
  fix block :: bytes and ctx :: md5_ctx
  let ?x = "block_words block"
  have "[0..<64] = [0..<16] @ [16..<32] @ [32..<48] @ [48..<64]"
    using upt_add_eq_append [of 0 16 48] upt_add_eq_append [of 16 32 32] upt_add_eq_append [of 32 48 16] by simp
  then have "fold (rfc_step ?x) [0..<64] ctx = md5_round4 ?x (md5_round3 ?x (md5_round2 ?x (md5_round1 ?x ctx)))"
    by (simp add: round1 round2 round3 round4)
  then show "processBlock block ctx = rfc_block block ctx"
    by (simp add: processBlock_def rfc_block_def Let_def split: prod.split)
qed

section \<open>The loops\<close>

lemma memcpy_end: "i + length bs = length buf \<Longrightarrow> memcpy i bs buf = take i buf @ bs"
  by (simp add: memcpy_def)

lemma blocks_append: "length m = 64 * k \<Longrightarrow> blocks (m @ r) = blocks m @ blocks r"
proof (induction k arbitrary: m)
  case 0
  then show ?case by (simp add: blocks.simps [of "[]"])
next
  case (Suc k)
  then have "blocks (drop 64 m @ r) = blocks (drop 64 m) @ blocks r" by (intro Suc.IH) simp
  then show ?case using Suc.prems by (simp add: blocks.simps [of "m @ r"] blocks.simps [of m])
qed

lemma blocks_one: "length b = 64 \<Longrightarrow> blocks b = [b]"
  by (simp add: blocks.simps [of b] blocks.simps [of "[]"])

text \<open>
  Both loops: whole blocks are hashed, at most sixty-three bytes are left, and the buffer keeps its
  size.
\<close>

lemma string_loop:
  assumes "length (fst s) = 64" "pos \<le> length str"
  shows "\<exists>buf. length buf = 64 \<and> md5_string_loop str pos s =
    (pos + (length str - pos) div 64 * 64, buf,
     fold processBlock (blocks (take ((length str - pos) div 64 * 64) (drop pos str))) (snd s))"
  using assms
proof (induction str pos s rule: md5_string_loop.induct)
  case (1 str pos s)
  show ?case
  proof (cases "pos + 64 \<le> length str")
    case True
    let ?n = "length str - pos" and ?b = "take 64 (drop pos str)"
    have m: "memcpy 0 ?b (fst s) = ?b" using True 1(2) by (simp add: memcpy_def)
    obtain buf where buf: "length buf = 64" "md5_string_loop str (pos + 64) (?b, processBlock ?b (snd s)) =
        (pos + 64 + (length str - (pos + 64)) div 64 * 64, buf,
         fold processBlock (blocks (take ((length str - (pos + 64)) div 64 * 64) (drop (pos + 64) str))) (processBlock ?b (snd s)))"
      using 1(1) [OF True refl] 1(2,3) True by (auto simp: m)
    have n: "?n div 64 = Suc ((length str - (pos + 64)) div 64)" using True le_div_geq [of 64 ?n] by simp
    let ?k = "(length str - (pos + 64)) div 64 * 64"
    have "take (64 + ?k) (drop pos str) = ?b @ take ?k (drop (pos + 64) str)" by (simp add: take_add add.commute)
    then have "blocks (take (?n div 64 * 64) (drop pos str)) = ?b # blocks (take ?k (drop (pos + 64) str))"
      using True blocks_append [of ?b 1] blocks_one [of ?b] by (simp add: n)
    then show ?thesis
      using buf True by (subst md5_string_loop.simps) (simp add: m n Let_def)
  next
    case False
    then have "(length str - pos) div 64 = 0" by simp
    then show ?thesis using False 1(2) by (subst md5_string_loop.simps) (auto simp: blocks.simps [of "[]"])
  qed
qed

lemma bit_of_nat_word: "bit (word_of_nat n :: 'a::len word) k \<longleftrightarrow> k < LENGTH('a) \<and> bit n k"
  by transfer (auto simp: bit_take_bit_iff bit_of_nat_iff)

lemma le32_twice: "le32 (word_of_nat (n * 2 ^ 3)) @ le32 (word_of_nat (n div 2 ^ 29)) = le64 (word_of_nat (8 * n))"
proof -
  have "le32 (word_of_nat N) @ le32 (word_of_nat (drop_bit 32 N)) = le64 (word_of_nat N)" for N
    unfolding le32_def le64_def
    by (auto intro!: bit_word_eqI simp: bit_simps bit_of_nat_word)
  moreover have "n div 2 ^ 29 = drop_bit 32 (8 * n)" by (simp add: drop_bit_eq_div)
  moreover have "n * 2 ^ 3 = 8 * n" by simp
  ultimately show ?thesis by (simp only:)
qed

lemma memcpy_end_of: "length xs = i \<Longrightarrow> length ys = length bs \<Longrightarrow> memcpy i bs (xs @ ys) = xs @ bs"
  by (simp add: memcpy_def)

lemma kPad: "k \<le> 64 \<Longrightarrow> 0 < k \<Longrightarrow> take k kPadArray = 0x80 # replicate (k - 1) 0"
  by (cases k) (simp_all add: kPadArray_def take_replicate min_def)

lemma final_rfc:
  assumes r: "length r < 64" and junk: "length r + length junk = 64" and n: "n mod 64 = length r"
  shows "md5_final n (length r) (r @ junk) ctx =
    fold rfc_block (blocks (r @ [0x80] @ replicate ((119 - n mod 64) mod 64) 0 @ le64 (word_of_nat (8 * n)))) ctx"
proof -
  let ?bits = "le64 (word_of_nat (8 * n))"
  have bits: "le32 (word_of_nat (n * 2 ^ 3)) @ le32 (word_of_nat (n div 2 ^ 29)) = ?bits" by (rule le32_twice)
  have lb: "length ?bits = 8" by (simp add: le64_def)
  show ?thesis
  proof (cases "56 \<le> length r")
    case True
    let ?b1 = "r @ 0x80 # replicate (63 - length r) 0" and ?b2 = "replicate 56 0 @ ?bits"
    have z: "(119 - n mod 64) mod 64 = (63 - length r) + 56" using True r n by simp
    have "memcpy (length r) (take (64 - length r) kPadArray) (r @ junk) = ?b1"
      using r junk by (simp add: memcpy_def kPad)
    moreover have "memcpy 56 ?bits (replicate 64 0) = ?b2" by (simp add: memcpy_def lb)
    ultimately have "md5_final n (length r) (r @ junk) ctx = rfc_block ?b2 (rfc_block ?b1 ctx)"
      using True by (simp add: md5_final_def bits [simplified] Let_def processBlock_rfc)
    moreover have "blocks (?b1 @ ?b2) = [?b1, ?b2]"
      using blocks_append [of ?b1 1 ?b2] blocks_one [of ?b1] blocks_one [of ?b2] r lb by simp
    moreover have "?b1 @ ?b2 = r @ [0x80] @ replicate ((119 - n mod 64) mod 64) 0 @ ?bits"
      by (simp add: z replicate_add)
    ultimately have e: "md5_final n (length r) (r @ junk) ctx = fold rfc_block [?b1, ?b2] ctx"
      "blocks (r @ [0x80] @ replicate ((119 - n mod 64) mod 64) 0 @ ?bits) = [?b1, ?b2]"
      by (simp_all only: fold_simps)
    show ?thesis unfolding e ..
  next
    case False
    let ?b = "r @ 0x80 # replicate (55 - length r) 0 @ ?bits"
    have z: "(119 - n mod 64) mod 64 = 55 - length r" using False n by (simp add: mod_if)
    have m: "memcpy (length r) (take (56 - length r) kPadArray) (r @ junk) = r @ 0x80 # replicate (55 - length r) 0 @ drop (56 - length r) junk"
      using False by (simp add: memcpy_def kPad)
    have "memcpy 56 ?bits ((r @ 0x80 # replicate (55 - length r) 0) @ drop (56 - length r) junk) =
        (r @ 0x80 # replicate (55 - length r) 0) @ ?bits"
      using False junk lb by (intro memcpy_end_of) simp_all
    then have "md5_final n (length r) (r @ junk) ctx = rfc_block ?b ctx"
      using False by (simp add: md5_final_def bits [simplified] Let_def processBlock_rfc m)
    moreover have "blocks ?b = [?b]" using False lb by (intro blocks_one) simp
    ultimately show ?thesis using z by simp
  qed
qed

lemma hashString_rfc:
  assumes "length buf0 = 64"
  shows "hashString buf0 str = rfc_md5 str"
proof -
  let ?p = "length str div 64 * 64"
  let ?r = "drop ?p str"
  obtain buf where buf: "length buf = 64" "md5_string_loop str 0 (buf0, md5_init) =
      (?p, buf, fold processBlock (blocks (take ?p str)) md5_init)"
    using string_loop [of "(buf0, md5_init)" 0 str] assms by auto
  have r: "length ?r < 64" "length str - ?p = length ?r" "length str mod 64 = length ?r"
    by (simp_all add: minus_div_mult_eq_mod)
  have len: "length ?r + length (drop (length ?r) buf) = 64" using r(1) buf(1) by (simp only: length_drop)
  have m: "memcpy 0 ?r buf = ?r @ drop (length ?r) buf" by (simp add: memcpy_def)
  have "hashString buf0 str = md5_final (length str) (length ?r) (?r @ drop (length ?r) buf)
      (fold processBlock (blocks (take ?p str)) md5_init)"
    unfolding hashString_def buf(2) prod.case Let_def r(2) take_all [OF order_refl] m ..
  also have "\<dots> = fold rfc_block (blocks (?r @ [0x80] @ replicate ((119 - length str mod 64) mod 64) 0 @
      le64 (word_of_nat (8 * length str)))) (fold rfc_block (blocks (take ?p str)) md5_init)"
    unfolding processBlock_rfc by (rule final_rfc [OF r(1) len r(3)])
  also have "\<dots> = fold rfc_block (blocks (take ?p str @ ?r @ [0x80] @ replicate ((119 - length str mod 64) mod 64) 0 @
      le64 (word_of_nat (8 * length str)))) md5_init"
    by (subst blocks_append [of _ "length str div 64"]) simp_all
  also have "take ?p str @ ?r @ [0x80] @ replicate ((119 - length str mod 64) mod 64) 0 @ le64 (word_of_nat (8 * length str)) =
      rfc_padded str" by (simp only: rfc_padded_def append_assoc [symmetric] append_take_drop_id)
  finally show ?thesis by (simp add: rfc_md5_def)
qed

lemma stream_loop:
  "md5_stream_loop (length data) pos s \<lparr>s_ver = v, s_data = data, s_pos = pos\<rparr> =
     (case md5_string_loop data pos s of (p, b, c) \<Rightarrow> Inr ((p, b, c), \<lparr>s_ver = v, s_data = data, s_pos = p\<rparr>))"
proof (induction data pos s rule: md5_string_loop.induct)
  case (1 data pos s)
  show ?case
  proof (cases "pos + 64 \<le> length data")
    case True
    then have "md5_stream_loop (length data) pos s \<lparr>s_ver = v, s_data = data, s_pos = pos\<rparr> =
      (let buf = memcpy 0 (take 64 (drop pos data)) (fst s) in
        md5_stream_loop (length data) (pos + 64) (buf, processBlock buf (snd s)) \<lparr>s_ver = v, s_data = data, s_pos = pos + 64\<rparr>)"
      by (subst md5_stream_loop.simps) (simp add: io_simps st_read_def Let_def)
    also have "\<dots> = (let buf = memcpy 0 (take 64 (drop pos data)) (fst s) in
        case md5_string_loop data (pos + 64) (buf, processBlock buf (snd s)) of (p, b, c) \<Rightarrow>
          Inr ((p, b, c), \<lparr>s_ver = v, s_data = data, s_pos = p\<rparr>))"
      using 1 [OF True refl] by (simp only: Let_def)
    also have "\<dots> = (case md5_string_loop data pos s of (p, b, c) \<Rightarrow> Inr ((p, b, c), \<lparr>s_ver = v, s_data = data, s_pos = p\<rparr>))"
      using True by (subst (2) md5_string_loop.simps) (simp only: Let_def if_True)
    finally show ?thesis .
  next
    case False
    then show ?thesis
      by (subst md5_string_loop.simps, subst md5_stream_loop.simps) (simp add: io_simps)
  qed
qed

lemma hashStream_eq:
  assumes "length buf0 = 64"
  shows "hashStream buf0 \<lparr>s_ver = v, s_data = data, s_pos = 0\<rparr> =
    Inr (hashString buf0 data, \<lparr>s_ver = v, s_data = data, s_pos = length data\<rparr>)"
proof -
  let ?p = "length data div 64 * 64"
  obtain buf where buf: "md5_string_loop data 0 (buf0, md5_init) =
      (?p, buf, fold processBlock (blocks (take ?p data)) md5_init)"
    using string_loop [of "(buf0, md5_init)" 0 data] assms by auto
  have p: "?p \<le> length data" by simp
  show ?thesis
    unfolding hashStream_def hashString_def io_bind_def
    by (simp only: rbind_def sum.case prod.case s_size_def hs_stream.simps stream_loop buf)
      (use p in \<open>simp add: io_simps st_read_def Let_def\<close>)
qed

section \<open>Hexadecimal\<close>

definition lower :: "u8 \<Rightarrow> u8" where
  "lower c = (if 65 \<le> c \<and> c \<le> 70 then c + 32 else c)"

lemma kHexTable_back: "n < 16 \<Longrightarrow> charToHex (kHexTable ! n) = int n"
proof -
  have "list_all (\<lambda>n. charToHex (kHexTable ! n) = int n) [0..<16]" by code_simp
  then show "n < 16 \<Longrightarrow> charToHex (kHexTable ! n) = int n" by (simp add: list_all_iff)
qed

lemma nibbles:
  "unat (drop_bit 4 (b AND 0xF0) :: u8) < 16" "unat ((b :: u8) AND 0x0F) < 16"
  "push_bit 4 (drop_bit 4 (b AND 0xF0)) AND 0xF0 OR (b AND 0x0F) AND 0x0F = b"
proof -
  have m: "(0x0F :: u8) = mask 4" "(0xF0 :: u8) = NOT (mask 4)" by code_simp+
  have f: "drop_bit 4 (b AND 0xF0) = drop_bit 4 b AND mask 4"
    unfolding m by (rule bit_word_eqI) (auto simp: bit_simps)
  show "unat (drop_bit 4 (b AND 0xF0) :: u8) < 16"
    unfolding f by (simp add: take_bit_eq_mask [symmetric] unsigned_take_bit_eq) (simp add: take_bit_eq_mod)
  show "unat (b AND 0x0F) < 16"
    unfolding m by (simp add: take_bit_eq_mask [symmetric] unsigned_take_bit_eq) (simp add: take_bit_eq_mod)
  show "push_bit 4 (drop_bit 4 (b AND 0xF0)) AND 0xF0 OR (b AND 0x0F) AND 0x0F = b"
    unfolding m by (rule bit_word_eqI) (auto simp: bit_simps)
qed

lemma from_hex_byte: "from_hex_bytes (hex_byte b @ r) = rbind (from_hex_bytes r) (\<lambda>bs. Inr (b # bs))"
proof -
  have "uint w \<noteq> - 1" for w :: u8 using uint_nonnegative [of w] by linarith
  then show ?thesis using nibbles [of b] by (simp add: hex_byte_def kHexTable_back Let_def)
qed

lemma from_to_hex: "from_hex_bytes (concat (map hex_byte bs)) = Inr bs"
  by (induction bs) (simp_all add: from_hex_byte)

lemma hash32_hash8 [simp]: "hash32 (hash8 h) = h"
  by (cases h) (simp add: hash32_def hash8_def)

lemma length_hex [simp]: "length (concat (map hex_byte bs)) = 2 * length bs"
  by (induction bs) (simp_all add: hex_byte_def)

lemma length_hash8 [simp]: "length (hash8 h) = 16"
  by (cases h) (simp add: hash8_def)

lemma from_hex_defined:
  "even (length cs) \<Longrightarrow> (\<exists>bs. from_hex_bytes cs = Inr bs) \<longleftrightarrow> list_all (\<lambda>c. charToHex c \<noteq> -1) cs"
proof (induction cs rule: from_hex_bytes.induct)
  case (1 x y r)
  show ?case
  proof (cases "charToHex x = -1 \<or> charToHex y = -1")
    case False
    then have "(\<exists>bs. from_hex_bytes r = Inr bs) \<longleftrightarrow> list_all (\<lambda>c. charToHex c \<noteq> -1) r" using 1 by simp
    then show ?thesis using False by (cases "from_hex_bytes r") (auto simp: Let_def)
  qed (auto simp: Let_def)
qed simp_all

section \<open>Properties\<close>



text \<open>The text of a sum leads back to it, and a text is accepted exactly when it has thirty-two
  characters, all of them hexadecimal digits of either case.\<close>

theorem md5_hex_roundtrip:
  "md5_fromHex (md5_toHex h) = Inr h \<and>
   ((\<exists>h'. md5_fromHex hex = Inr h') \<longleftrightarrow> length hex = 32 \<and> list_all (\<lambda>c. charToHex c \<noteq> -1) hex)"
proof -
  have "md5_fromHex (md5_toHex h) = Inr h" by (simp add: md5_fromHex_def md5_toHex_def from_to_hex)
  moreover have "(\<exists>h'. md5_fromHex hex = Inr h') \<longleftrightarrow> length hex = 32 \<and> list_all (\<lambda>c. charToHex c \<noteq> -1) hex"
    using from_hex_defined [of hex] by (auto simp: md5_fromHex_def rbind_eq_Inr hash32_def)
  ultimately show ?thesis by simp
qed

definition md5_image :: "md5_hash \<Rightarrow> bytes" where
  "md5_image h = hash8 h"

interpretation md5_hash: codec md5_hash_write "\<lambda>_. md5_hash_read" "\<lambda>_ _. True" "\<lambda>_. md5_image" "\<lambda>_ _ h. h"
proof (unfold_locales, goal_cases)
  case (1 v h)
  obtain a b c d where h: "h = (a, b, c, d)" by (cases h)
  have "emits (md5_hash_write h) v (md5_image h) () v"
    unfolding h md5_hash_write_def md5_image_def hash8_def prod.case by (rule wire)+
  then show ?case by blast
next
  case (2 v h old)
  obtain a b c d where h: "h = (a, b, c, d)" by (cases h)
  show ?case
    unfolding h md5_hash_read_def md5_image_def hash8_def prod.case
    by (rule parses_bind [OF parses_prims(3)], rule parses_bind [OF parses_prims(3)],
        rule parses_bind [OF parses_prims(3)], rule parses_bind_return [OF parses_prims(3)])
qed

end
