(* ===== verification/SumFile.thy ===== *)
theory SumFile
  imports MD5
begin

text \<open>
  The sum files that list the files of an installation with their MD5 sums
  (\<open>src/core/Util/hsSumFile\<close>).  The abstraction is a map from paths to entries.
\<close>

datatype update_result = kNotNeeded | kUpdated | kAdded

record file_info =
  fi_path :: bytes
  fi_hash :: md5_hash
  fi_timestamp :: u32
  fi_unknown :: u32

definition file_info_new :: file_info where
  "file_info_new = \<lparr>fi_path = [], fi_hash = md5_hash_new, fi_timestamp = 0, fi_unknown = 0\<rparr>"

definition fi_isValid :: "file_info \<Rightarrow> bool" where
  "fi_isValid fi \<longleftrightarrow> fi_path fi \<noteq> []"

record sum_file =
  sf_unknown :: u32
  sf_files :: "file_info list"

definition sum_file_new :: sum_file where
  "sum_file_new = \<lparr>sf_unknown = 0, sf_files = []\<rparr>"

definition fi_read :: "st_lib \<Rightarrow> file_info io" where
  "fi_read L = io_bind (readSafeStr L) (\<lambda>path. io_bind md5_hash_read (\<lambda>h. io_bind readInt (\<lambda>t. io_bind readInt (\<lambda>u.
     io_return \<lparr>fi_path = path, fi_hash = h, fi_timestamp = t, fi_unknown = u\<rparr>))))"

definition fi_write :: "file_info \<Rightarrow> unit io" where
  "fi_write fi = io_then (writeSafeStr (fi_path fi)) (io_then (md5_hash_write (fi_hash fi))
     (io_then (writeInt (fi_timestamp fi)) (writeInt (fi_unknown fi))))"

definition sf_read :: "st_lib \<Rightarrow> sum_file io" where
  "sf_read L = io_bind readInt (\<lambda>n. io_bind readInt (\<lambda>u.
     io_bind (io_repeat (unat n) (fi_read L)) (\<lambda>fs. io_return \<lparr>sf_unknown = u, sf_files = fs\<rparr>)))"

definition sf_write :: "sum_file \<Rightarrow> unit io" where
  "sf_write sf = io_then (writeInt (word_of_nat (length (sf_files sf)))) (io_then (writeInt (sf_unknown sf))
     (io_each fi_write (sf_files sf)))"

text \<open>The iterator that \<open>find_if\<close> returns: the first entry of that path.\<close>

fun fi_index :: "bytes \<Rightarrow> file_info list \<Rightarrow> nat option" where
  "fi_index path [] = None"
| "fi_index path (f # fs) = (if fi_path f = path then Some 0 else map_option Suc (fi_index path fs))"

definition findFile :: "bytes \<Rightarrow> sum_file \<Rightarrow> file_info" where
  "findFile path sf = (case fi_index path (sf_files sf) of None \<Rightarrow> file_info_new | Some i \<Rightarrow> sf_files sf ! i)"

definition updateFile :: "bytes \<Rightarrow> bytes \<Rightarrow> u32 \<Rightarrow> sum_file \<Rightarrow> (update_result \<times> sum_file) io" where
  "updateFile buf0 path modTime sf = io_bind (hashStream buf0) (\<lambda>hash.
     case fi_index path (sf_files sf) of
       None \<Rightarrow> io_return (kAdded, sf\<lparr>sf_files := sf_files sf @
         [\<lparr>fi_path = path, fi_hash = hash, fi_timestamp = modTime, fi_unknown = 0\<rparr>]\<rparr>)
     | Some i \<Rightarrow> let fi = sf_files sf ! i in
         io_return (if md5_eq hash (fi_hash fi) then kNotNeeded else kUpdated,
           sf\<lparr>sf_files := (sf_files sf)[i := fi\<lparr>fi_timestamp := modTime, fi_hash := hash\<rparr>]\<rparr>))"

definition removeFile :: "bytes \<Rightarrow> sum_file \<Rightarrow> sum_file" where
  "removeFile path sf = (case fi_index path (sf_files sf) of None \<Rightarrow> sf
     | Some i \<Rightarrow> sf\<lparr>sf_files := take i (sf_files sf) @ drop (i + 1) (sf_files sf)\<rparr>)"

section \<open>On the wire\<close>

definition fi_image :: "plasma_ver \<Rightarrow> file_info \<Rightarrow> bytes" where
  "fi_image v fi = safe_str_image v (fi_path fi) @ md5_image (fi_hash fi) @ le32 (fi_timestamp fi) @ le32 (fi_unknown fi)"

definition sf_image :: "plasma_ver \<Rightarrow> sum_file \<Rightarrow> bytes" where
  "sf_image v sf = le32 (word_of_nat (length (sf_files sf))) @ le32 (sf_unknown sf) @ concat (map (fi_image v) (sf_files sf))"

definition sf_ok :: "st_lib \<Rightarrow> plasma_ver \<Rightarrow> sum_file \<Rightarrow> bool" where
  "sf_ok L v sf \<longleftrightarrow> length (sf_files sf) < 2 ^ 32 \<and> (\<forall>fi \<in> set (sf_files sf). safe_str_ok L v (fi_path fi))"

lemma emits_md5 [wire]: "emits (md5_hash_write h) v (md5_image h) () v"
  unfolding md5_hash_write_def md5_image_def hash8_def by (cases h) (simp only: prod.case, (rule wire)+)

lemma parses_md5 [wire]: "parses md5_hash_read v (md5_image h) h v"
  using md5_hash.rd_parses by simp

lemma safe_str_lengths: "safe_str_ok L v s \<Longrightarrow> isSafeVer v \<and> length s < (if isNewPlasma v then 65536 else 4096)"
  by (auto simp: safe_str_ok_def)

lemma emits_fi: "safe_str_ok L v (fi_path fi) \<Longrightarrow> emits (fi_write fi) v (fi_image v fi) () v"
  unfolding fi_write_def fi_image_def
  by (rule emits_then [OF emits_writeSafeStr], simp_all add: safe_str_lengths del: if_split) ((rule wire)+)

lemma parses_fi: "safe_str_ok L v (fi_path fi) \<Longrightarrow> parses (fi_read L) v (fi_image v fi) fi v"
  unfolding fi_read_def fi_image_def
  by (rule parses_eq, rule parses_bind [OF parses_readSafeStr], assumption, rule parses_bind [OF parses_md5],
      rule parses_bind [OF parses_prims(3)], rule parses_bind_return [OF parses_prims(3)]) simp

interpretation sum_file: codec sf_write "\<lambda>_. sf_read L" "sf_ok L" sf_image "\<lambda>_ _ sf. sf"
proof (unfold_locales, goal_cases)
  case (1 v sf)
  have "emits (sf_write sf) v (sf_image v sf) () v"
    unfolding sf_write_def sf_image_def
    by (rule emits_then [OF emits_prims(3)], rule emits_then [OF emits_prims(3)], rule emits_each, rule emits_fi [of L])
      (use 1 in \<open>simp add: sf_ok_def\<close>)
  then show ?case by blast
next
  case (2 v sf old)
  show ?case
    unfolding sf_read_def sf_image_def
    by (rule parses_eq, rule parses_bind [OF parses_prims(3)], rule parses_bind [OF parses_prims(3)],
        rule parses_bind_return [OF parses_repeat_id], rule_tac [2] parses_fi)
      (use 2 in \<open>simp_all add: sf_ok_def unat_of_nat\<close>)
qed

section \<open>The files as a map\<close>

definition by_path :: "file_info list \<Rightarrow> bytes \<Rightarrow> file_info option" where
  "by_path fs = map_of (map (\<lambda>fi. (fi_path fi, fi)) fs)"

definition sf_map :: "sum_file \<Rightarrow> bytes \<Rightarrow> file_info option" where
  "sf_map sf = by_path (sf_files sf)"

definition sf_distinct :: "sum_file \<Rightarrow> bool" where
  "sf_distinct sf \<longleftrightarrow> distinct (map fi_path (sf_files sf))"

lemma by_path_None: "by_path fs path = None \<longleftrightarrow> path \<notin> fi_path ` set fs"
  by (simp add: by_path_def map_of_eq_None_iff image_image)

lemma by_path_simps [simp]:
  "by_path [] = Map.empty" "by_path (f # fs) = (by_path fs)(fi_path f \<mapsto> f)" "by_path (fs @ gs) = by_path gs ++ by_path fs"
  by (simp_all add: by_path_def)

lemma fi_index_map:
  "fi_index path fs = None \<longleftrightarrow> path \<notin> fi_path ` set fs"
  "fi_index path fs = Some i \<Longrightarrow> i < length fs \<and> fi_path (fs ! i) = path \<and> by_path fs path = Some (fs ! i)"
  by (induction fs arbitrary: i) (auto split: if_splits)

lemma md5_eq_eq: "md5_eq a b \<longleftrightarrow> a = b"
  by (metis hash32_hash8 md5_eq_def)

text \<open>The entry of a path stands alone between two parts that do not have the path.\<close>

lemma by_path_split:
  assumes "distinct (map fi_path fs)" "i < length fs"
  shows "by_path (take i fs @ g # drop (i + 1) fs) = (by_path (take i fs @ drop (i + 1) fs))(fi_path g := by_path (take i fs @ g # drop (i + 1) fs) (fi_path g))"
    "by_path (take i fs @ drop (i + 1) fs) (fi_path (fs ! i)) = None"
    "fi_path g = fi_path (fs ! i) \<Longrightarrow> by_path (take i fs @ g # drop (i + 1) fs) (fi_path g) = Some g"
proof -
  have "fs = take i fs @ fs ! i # drop (i + 1) fs" using assms(2) by (simp add: id_take_nth_drop)
  then have d: "distinct (map fi_path (take i fs @ fs ! i # drop (i + 1) fs))" using assms(1) by metis
  then have n: "by_path (take i fs) (fi_path (fs ! i)) = None" "by_path (drop (i + 1) fs) (fi_path (fs ! i)) = None"
    by (auto simp: by_path_None)
  then show "by_path (take i fs @ drop (i + 1) fs) (fi_path (fs ! i)) = None" by (simp add: map_add_def)
  show "by_path (take i fs @ g # drop (i + 1) fs) = (by_path (take i fs @ drop (i + 1) fs))(fi_path g := by_path (take i fs @ g # drop (i + 1) fs) (fi_path g))"
    by (auto simp: fun_eq_iff map_add_def split: option.splits)
  show "by_path (take i fs @ g # drop (i + 1) fs) (fi_path g) = Some g" if "fi_path g = fi_path (fs ! i)"
    using n(1) that by (simp add: map_add_def)
qed

lemma updateFile_map:
  assumes d: "sf_distinct sf" and b: "length buf0 = 64"
  shows "\<exists>r sf'. updateFile buf0 path t sf \<lparr>s_ver = v, s_data = data, s_pos = 0\<rparr> =
       Inr ((r, sf'), \<lparr>s_ver = v, s_data = data, s_pos = length data\<rparr>) \<and> sf_distinct sf' \<and>
     (\<exists>u. sf_map sf' = (sf_map sf)(path \<mapsto> \<lparr>fi_path = path, fi_hash = rfc_md5 data, fi_timestamp = t, fi_unknown = u\<rparr>)) \<and>
     r = (case sf_map sf path of None \<Rightarrow> kAdded | Some fi \<Rightarrow> if fi_hash fi = rfc_md5 data then kNotNeeded else kUpdated)"
proof -
  have h: "hashStream buf0 \<lparr>s_ver = v, s_data = data, s_pos = 0\<rparr> = Inr (rfc_md5 data, \<lparr>s_ver = v, s_data = data, s_pos = length data\<rparr>)"
    using hashStream_eq [OF b] hashString_rfc [OF b] by simp
  show ?thesis
  proof (cases "fi_index path (sf_files sf)")
    case None
    then have n: "path \<notin> fi_path ` set (sf_files sf)" "by_path (sf_files sf) path = None" by (simp_all add: fi_index_map by_path_None)
    have "by_path (sf_files sf @ [x]) = (by_path (sf_files sf))(path \<mapsto> x)" if "fi_path x = path" for x
      using n(2) that by (auto simp: fun_eq_iff map_add_def split: option.splits)
    then show ?thesis
      using None d n by (auto simp: updateFile_def io_simps h sf_distinct_def sf_map_def simp del: by_path_simps)
  next
    case (Some i)
    let ?fs = "sf_files sf"
    let ?g = "(?fs ! i)\<lparr>fi_timestamp := t, fi_hash := rfc_md5 data\<rparr>"
    note i = fi_index_map(2) [OF Some]
    note s = by_path_split [OF d [unfolded sf_distinct_def], of i]
    have u: "?fs[i := ?g] = take i ?fs @ ?g # drop (i + 1) ?fs" using i by (simp add: upd_conv_take_nth_drop)
    have o: "?fs = take i ?fs @ ?fs ! i # drop (i + 1) ?fs" using i by (simp add: id_take_nth_drop)
    have p: "fi_path ?g = path" "fi_path (?fs ! i) = path" using i by simp_all
    have "by_path (?fs[i := ?g]) = (by_path (take i ?fs @ drop (i + 1) ?fs))(path \<mapsto> ?g)"
      using s(1) [of ?g] s(3) [of ?g] i p unfolding u by simp
    moreover have "by_path ?fs = (by_path (take i ?fs @ drop (i + 1) ?fs))(path := by_path ?fs path)"
      using s(1) [of "?fs ! i"] i p(2) o by metis
    then have "(by_path ?fs)(path \<mapsto> ?g) = (by_path (take i ?fs @ drop (i + 1) ?fs))(path \<mapsto> ?g)" by (metis fun_upd_upd)
    ultimately have m: "by_path (?fs[i := ?g]) = (by_path ?fs)(path \<mapsto> ?g)" by simp
    have dd: "map fi_path (?fs[i := ?g]) = map fi_path ?fs" using i by (simp add: map_update list_update_same_conv)
    have g: "?g = \<lparr>fi_path = path, fi_hash = rfc_md5 data, fi_timestamp = t, fi_unknown = fi_unknown (?fs ! i)\<rparr>"
      using i by (cases "?fs ! i") simp
    have "updateFile buf0 path t sf \<lparr>s_ver = v, s_data = data, s_pos = 0\<rparr> =
      Inr ((if fi_hash (?fs ! i) = rfc_md5 data then kNotNeeded else kUpdated, sf\<lparr>sf_files := ?fs[i := ?g]\<rparr>),
        \<lparr>s_ver = v, s_data = data, s_pos = length data\<rparr>)"
      using Some by (auto simp: updateFile_def io_simps h Let_def md5_eq_eq)
    moreover have "sf_distinct (sf\<lparr>sf_files := ?fs[i := ?g]\<rparr>)" using d by (simp add: sf_distinct_def dd)
    moreover have "sf_map (sf\<lparr>sf_files := ?fs[i := ?g]\<rparr>) = (sf_map sf)(path \<mapsto> \<lparr>fi_path = path, fi_hash = rfc_md5 data,
        fi_timestamp = t, fi_unknown = fi_unknown (?fs ! i)\<rparr>)" by (simp add: sf_map_def m flip: g)
    moreover have "sf_map sf path = Some (?fs ! i)" using i by (simp add: sf_map_def)
    ultimately show ?thesis by auto
  qed
qed

lemma removeFile_map:
  assumes "sf_distinct sf"
  shows "sf_distinct (removeFile path sf)" "sf_map (removeFile path sf) = (sf_map sf)(path := None)"
proof -
  have "sf_distinct (removeFile path sf) \<and> sf_map (removeFile path sf) = (sf_map sf)(path := None)"
  proof (cases "fi_index path (sf_files sf)")
    case None
    then have "sf_map sf path = None" by (simp add: sf_map_def by_path_None fi_index_map)
    then show ?thesis using None assms by (auto simp: removeFile_def fun_eq_iff)
  next
    case (Some i)
    let ?fs = "sf_files sf"
    note i = fi_index_map(2) [OF Some]
    note s = by_path_split [OF assms [unfolded sf_distinct_def], of i]
    have o: "?fs = take i ?fs @ ?fs ! i # drop (i + 1) ?fs" using i by (simp add: id_take_nth_drop)
    have "distinct (map fi_path (take i ?fs @ ?fs ! i # drop (i + 1) ?fs))" using assms o by (metis sf_distinct_def)
    then have d: "distinct (map fi_path (take i ?fs @ drop (i + 1) ?fs))" by simp
    have "by_path ?fs = (by_path (take i ?fs @ drop (i + 1) ?fs))(path := by_path ?fs path)"
      using s(1) [of "?fs ! i"] i o by metis
    then have "by_path (take i ?fs @ drop (i + 1) ?fs) = (by_path ?fs)(path := None)"
      using s(2) i by (metis fun_upd_idem fun_upd_upd)
    then show ?thesis using Some d by (simp add: removeFile_def sf_map_def sf_distinct_def del: by_path_simps)
  qed
  then show "sf_distinct (removeFile path sf)" "sf_map (removeFile path sf) = (sf_map sf)(path := None)" by simp_all
qed

lemma findFile_map: "findFile path sf = (case sf_map sf path of None \<Rightarrow> file_info_new | Some fi \<Rightarrow> fi)"
proof (cases "fi_index path (sf_files sf)")
  case None
  then have "sf_map sf path = None" by (simp add: sf_map_def by_path_None fi_index_map)
  then show ?thesis using None by (simp add: findFile_def)
next
  case (Some i)
  then show ?thesis using fi_index_map(2) [OF Some] by (simp add: findFile_def sf_map_def)
qed

text \<open>C38: A sum file is a map from paths to entries.  Updating a file gives its path the MD5 of the stream and
  the time, tells whether that was needed, and touches no other path; removing a path
  takes it out; paths stay distinct, and a look-up finds what the map has.\<close>

theorem sum_file_is_map:
  assumes "distinct (map fi_path (sf_files sf))" "length buf0 = 64"
  shows "\<exists>r sf'. updateFile buf0 path t sf \<lparr>s_ver = v, s_data = data, s_pos = 0\<rparr> =
       Inr ((r, sf'), \<lparr>s_ver = v, s_data = data, s_pos = length data\<rparr>) \<and>
     r = (if path \<notin> fi_path ` set (sf_files sf) then kAdded
          else if fi_hash (findFile path sf) = rfc_md5 data then kNotNeeded else kUpdated) \<and>
     fi_hash (findFile path sf') = rfc_md5 data \<and> fi_timestamp (findFile path sf') = t \<and>
     (\<forall>q. q \<noteq> path \<longrightarrow> findFile q sf' = findFile q sf) \<and>
     distinct (map fi_path (sf_files sf')) \<and>
     distinct (map fi_path (sf_files (removeFile path sf))) \<and>
     (\<forall>q. findFile q (removeFile path sf) = (if q = path then file_info_new else findFile q sf))"
proof -
  have d: "sf_distinct sf" using assms(1) by (simp add: sf_distinct_def)
  obtain r sf' u where u: "updateFile buf0 path t sf \<lparr>s_ver = v, s_data = data, s_pos = 0\<rparr> =
       Inr ((r, sf'), \<lparr>s_ver = v, s_data = data, s_pos = length data\<rparr>)" "sf_distinct sf'"
    "sf_map sf' = (sf_map sf)(path \<mapsto> \<lparr>fi_path = path, fi_hash = rfc_md5 data, fi_timestamp = t, fi_unknown = u\<rparr>)"
    "r = (case sf_map sf path of None \<Rightarrow> kAdded | Some fi \<Rightarrow> if fi_hash fi = rfc_md5 data then kNotNeeded else kUpdated)"
    using updateFile_map [OF d assms(2), of path t v data] by blast
  have "sf_map sf path = None \<longleftrightarrow> path \<notin> fi_path ` set (sf_files sf)" by (simp add: sf_map_def by_path_None)
  then have "r = (if path \<notin> fi_path ` set (sf_files sf) then kAdded
      else if fi_hash (findFile path sf) = rfc_md5 data then kNotNeeded else kUpdated)"
    unfolding u(4) findFile_map by (auto split: option.splits)
  with u(1,2,3) removeFile_map [OF d, of path] show ?thesis by (auto simp: findFile_map sf_distinct_def)
qed

theorem sum_file_is_map_witness:
  "\<exists>r sf'. updateFile (replicate 64 9) [65] 5 sum_file_new \<lparr>s_ver = pvMoul, s_data = [], s_pos = 0\<rparr> =
       Inr ((r, sf'), \<lparr>s_ver = pvMoul, s_data = [], s_pos = 0\<rparr>) \<and> r = kAdded \<and> fi_timestamp (findFile [65] sf') = 5"
  using sum_file_is_map [of sum_file_new "replicate 64 9" "[65]" 5 pvMoul "[]"] by (auto simp: sum_file_new_def)

end
