(* ===== verification/ServerGuid.thy ===== *)
theory ServerGuid
  imports HsStrings
begin

text \<open>
  The eight-byte identifiers of ages and servers (\<open>src/core/Vault/plServerGuid\<close>).  The array is a
  list of eight bytes; a string is its bytes.
\<close>

type_synonym server_guid = bytes

definition guid_new :: server_guid where "guid_new = [0, 0, 0, 0, 0, 0, 0, 0]"

definition guid_eq :: "server_guid \<Rightarrow> server_guid \<Rightarrow> bool" where
  "guid_eq g other \<longleftrightarrow>
     g ! 0 = other ! 0 \<and> g ! 1 = other ! 1 \<and> g ! 2 = other ! 2 \<and> g ! 3 = other ! 3 \<and>
     g ! 4 = other ! 4 \<and> g ! 5 = other ! 5 \<and> g ! 6 = other ! 6 \<and> g ! 7 = other ! 7"

definition guid_ne :: "server_guid \<Rightarrow> server_guid \<Rightarrow> bool" where
  "guid_ne g other \<longleftrightarrow> \<not> guid_eq g other"

text \<open>\<open>%02X\<close> of a byte.\<close>

definition digit_X :: "u8 \<Rightarrow> u8" where
  "digit_X d = (if d < 10 then 48 + d else 55 + d)"

definition byte_02X :: "u8 \<Rightarrow> bytes" where
  "byte_02X b = [digit_X (drop_bit 4 b), digit_X (b AND 0x0F)]"

definition guid_toString :: "server_guid \<Rightarrow> bytes" where
  "guid_toString g =
     byte_02X (g ! 0) @ byte_02X (g ! 1) @ byte_02X (g ! 2) @ byte_02X (g ! 3) @
     byte_02X (g ! 4) @ byte_02X (g ! 5) @ byte_02X (g ! 6) @ byte_02X (g ! 7)"

text \<open>The value of a digit; a \<open>char\<close> above \<open>0x7F\<close> is negative, and no digit either way.\<close>

definition guid_digit :: "u8 \<Rightarrow> u8 result" where
  "guid_digit x =
     (if 48 \<le> x \<and> x \<le> 57 then Inr (x - 48)
      else if 65 \<le> x \<and> x \<le> 70 then Inr (x - 65 + 10)
      else if 97 \<le> x \<and> x \<le> 102 then Inr (x - 97 + 10)
      else Inl BadParamException)"

fun guid_pairs :: "bytes \<Rightarrow> server_guid result" where
  "guid_pairs (x # y # r) =
     rbind (guid_digit x) (\<lambda>hi. rbind (guid_digit y) (\<lambda>lo. rbind (guid_pairs r) (\<lambda>bs.
       Inr ((push_bit 4 hi + lo) # bs))))"
| "guid_pairs _ = Inr []"

definition guid_FromString :: "bytes \<Rightarrow> server_guid result" where
  "guid_FromString str = (if length str \<noteq> 16 then Inl BadParamException else guid_pairs str)"

definition guid_read :: "server_guid io" where "guid_read = st_read 8"

definition guid_write :: "server_guid \<Rightarrow> unit io" where "guid_write g = st_write (take 8 g)"

section \<open>Text and stream\<close>

lemma digit_back: "d < 16 \<Longrightarrow> guid_digit (digit_X d) = Inr d"
proof -
  assume "d < 16"
  then have "unat d \<in> set [0..<16]" by (simp add: word_less_nat_alt)
  moreover have "list_all (\<lambda>k. guid_digit (digit_X (word_of_nat k)) = Inr (word_of_nat k)) [0..<16]"
    by code_simp
  ultimately have "guid_digit (digit_X (word_of_nat (unat d))) = Inr (word_of_nat (unat d))"
    unfolding list_all_iff by blast
  then show ?thesis by simp
qed

lemma low_mask: "(0x0F :: u8) = mask 4"
  by code_simp

lemma nibbles_add: "push_bit 4 (drop_bit 4 b) + (b AND 0x0F) = (b :: u8)"
  unfolding low_mask by (simp add: bits_ident flip: take_bit_eq_mask)

lemma nibble_less: "drop_bit 4 b < (16 :: u8)" "b AND 0x0F < (16 :: u8)"
proof -
  have "unat b < 256" using unsigned_less [of b] by simp
  then have "unat (drop_bit 4 b) < 16" by (simp add: drop_bit_eq_div unat_div)
  then show "drop_bit 4 b < 16" by (simp add: word_less_nat_alt)
  have "unat (b AND 0x0F) < 16"
    unfolding low_mask by (simp add: unsigned_take_bit_eq flip: take_bit_eq_mask) (simp add: take_bit_eq_mod)
  then show "b AND 0x0F < 16" by (simp add: word_less_nat_alt)
qed

lemma guid_pairs_byte: "guid_pairs (byte_02X b @ r) = rbind (guid_pairs r) (\<lambda>bs. Inr (b # bs))"
  using digit_back [OF nibble_less(1) [of b]] digit_back [OF nibble_less(2) [of b]]
  by (simp add: byte_02X_def nibbles_add)

lemma length_byte_02X [simp]: "length (byte_02X b) = 2"
  by (simp add: byte_02X_def)

lemma guid_elems: "length g = 8 \<Longrightarrow> g = [g ! 0, g ! 1, g ! 2, g ! 3, g ! 4, g ! 5, g ! 6, g ! 7]"
  by (auto simp: numeral_eq_Suc length_Suc_conv)

text \<open>The text of an identifier leads back to it, in capitals or not.\<close>

lemma guid_text: "length g = 8 \<Longrightarrow> guid_FromString (guid_toString g) = Inr g"
proof -
  assume g: "length g = 8"
  have "guid_pairs (guid_toString g) = Inr [g ! 0, g ! 1, g ! 2, g ! 3, g ! 4, g ! 5, g ! 6, g ! 7]"
    using guid_pairs_byte [of "g ! 7" "[]"] by (simp add: guid_toString_def guid_pairs_byte)
  with guid_elems [OF g] show ?thesis by (simp add: guid_FromString_def guid_toString_def)
qed

lemma guid_FromString_length: "guid_FromString str = Inr g \<Longrightarrow> length g = 8"
proof -
  have "guid_pairs s = Inr bs \<Longrightarrow> length bs = length s div 2" for s bs
    by (induction s arbitrary: bs rule: guid_pairs.induct)
      (auto simp: rbind_def split: sum.splits)
  then show "guid_FromString str = Inr g \<Longrightarrow> length g = 8"
    by (fastforce simp: guid_FromString_def split: if_splits)
qed

lemma guid_eq_iff: "length g = 8 \<Longrightarrow> length h = 8 \<Longrightarrow> guid_eq g h \<longleftrightarrow> g = h"
proof -
  assume g: "length g = 8" and h: "length h = 8"
  have "g = h" if "guid_eq g h"
    using that guid_elems [OF g] guid_elems [OF h] unfolding guid_eq_def by presburger
  then show ?thesis by (auto simp: guid_eq_def)
qed

lemma emits_guid_write [wire]: "length g = 8 \<Longrightarrow> emits (guid_write g) v g () v"
  unfolding guid_write_def by (simp add: emits_st_write)

lemma parses_guid_read [wire]: "length g = 8 \<Longrightarrow> parses guid_read v g g v"
  unfolding guid_read_def by (rule parses_st_read) simp

interpretation server_guid: codec guid_write "\<lambda>_. guid_read" "\<lambda>v g. length g = 8" "\<lambda>v g. g" "\<lambda>_ _ g. g"
  by unfold_locales (auto intro: emits_guid_write parses_guid_read)

end
