(* ===== verification/VaultNode.thy ===== *)
theory VaultNode
  imports ServerGuid BitVector CoreTypes
begin

text \<open>
  The nodes of the vault (\<open>src/core/Vault/plVaultNode\<close>): a record of optional fields, of which a bit
  vector says which are there.  The C arrays are lists of their length, a blob is its bytes or the
  null pointer it starts as; blobs are shared by counted pointers, and no operation changes the bytes
  of a blob that is shared.  The abstraction of a node is a finite map from field numbers to values.
\<close>

section \<open>State\<close>

abbreviation (input) "kFieldNodeID \<equiv> 0 :: nat"
abbreviation (input) "kFieldNodeType \<equiv> 1 :: nat"
abbreviation (input) "kFieldPermissions \<equiv> 2 :: nat"
abbreviation (input) "kFieldOwner \<equiv> 3 :: nat"
abbreviation (input) "kFieldGroup \<equiv> 4 :: nat"
abbreviation (input) "kFieldAutoTime \<equiv> 5 :: nat"
abbreviation (input) "kFieldCreator \<equiv> 6 :: nat"
abbreviation (input) "kFieldModifyTime \<equiv> 7 :: nat"
abbreviation (input) "kFieldCreateAgeTime \<equiv> 9 :: nat"
abbreviation (input) "kFieldCreateAgeName \<equiv> 10 :: nat"
abbreviation (input) "kFieldCreateAgeGuid \<equiv> 11 :: nat"
abbreviation (input) "kFieldInt32_1 \<equiv> 12 :: nat"
abbreviation (input) "kFieldUInt32_1 \<equiv> 16 :: nat"
abbreviation (input) "kFieldString64_1 \<equiv> 20 :: nat"
abbreviation (input) "kFieldIString64_1 \<equiv> 26 :: nat"
abbreviation (input) "kFieldText_1 \<equiv> 28 :: nat"
abbreviation (input) "kFieldBlob_1 \<equiv> 30 :: nat"
abbreviation (input) "kFieldBlob_2 \<equiv> 31 :: nat"
abbreviation (input) "kFieldGuid_1 \<equiv> 32 :: nat"
abbreviation (input) "kFieldGuid_2 \<equiv> 33 :: nat"

type_synonym vault_blob = "bytes option"

record vault_node =
  fFields :: hs_bit_vector
  fNodeID :: u32
  fOwner :: u32
  fGroup :: u32
  fCreator :: u32
  fNodeType :: u32
  fPermissions :: u32
  fAutoTime :: unified_time
  fModifyTime :: unified_time
  fCreateAgeTime :: unified_time
  fCreateAgeGuid :: server_guid
  fGuid1 :: server_guid
  fGuid2 :: server_guid
  fCreateAgeName :: bytes
  fInt32 :: "u32 list"
  fUInt32 :: "u32 list"
  fString64 :: "bytes list"
  fIString64 :: "bytes list"
  fText :: "bytes list"
  fBlob1 :: vault_blob
  fBlob2 :: vault_blob

definition kDefaultPermissions :: u32 where "kDefaultPermissions = 0x17"

definition vn_new :: vault_node where
  "vn_new = \<lparr>fFields = bv_empty, fNodeID = 0, fOwner = 0, fGroup = 0, fCreator = 0, fNodeType = 0,
     fPermissions = kDefaultPermissions, fAutoTime = ut_new, fModifyTime = ut_new, fCreateAgeTime = ut_new,
     fCreateAgeGuid = guid_new, fGuid1 = guid_new, fGuid2 = guid_new, fCreateAgeName = [],
     fInt32 = [0, 0, 0, 0], fUInt32 = [0, 0, 0, 0], fString64 = [[], [], [], [], [], []],
     fIString64 = [[], []], fText = [[], []], fBlob1 = None, fBlob2 = None\<rparr>"

section \<open>Fields\<close>

definition hasField :: "nat \<Rightarrow> vault_node \<Rightarrow> bool" where
  "hasField f n \<longleftrightarrow> bv_get (fFields n) f"

definition mark_field :: "nat \<Rightarrow> vault_node \<Rightarrow> vault_node" where
  "mark_field f n = n\<lparr>fFields := bv_set f True (fFields n)\<rparr>"

definition delField :: "nat \<Rightarrow> vault_node \<Rightarrow> vault_node" where
  "delField f n = n\<lparr>fFields := bv_set f False (fFields n)\<rparr>"

definition makeField :: "nat \<Rightarrow> vault_node \<Rightarrow> vault_node" where
  "makeField f n0 =
     (let n = mark_field f n0 in
      if f = kFieldNodeID then n\<lparr>fNodeID := 0\<rparr>
      else if f = kFieldNodeType then n\<lparr>fNodeType := 0\<rparr>
      else if f = kFieldPermissions then n\<lparr>fPermissions := 0\<rparr>
      else if f = kFieldOwner then n\<lparr>fOwner := 0\<rparr>
      else if f = kFieldGroup then n\<lparr>fGroup := 0\<rparr>
      else if f = kFieldAutoTime then n\<lparr>fAutoTime := ut_new\<rparr>
      else if f = kFieldCreator then n\<lparr>fCreator := 0\<rparr>
      else if f = kFieldModifyTime then n\<lparr>fModifyTime := ut_new\<rparr>
      else if f = kFieldCreateAgeTime then n\<lparr>fCreateAgeTime := ut_new\<rparr>
      else if f = kFieldCreateAgeName then n\<lparr>fCreateAgeName := []\<rparr>
      else if f = kFieldCreateAgeGuid then n\<lparr>fCreateAgeGuid := guid_new\<rparr>
      else if kFieldInt32_1 \<le> f \<and> f < kFieldUInt32_1 then n\<lparr>fInt32 := (fInt32 n)[f - kFieldInt32_1 := 0]\<rparr>
      else if kFieldUInt32_1 \<le> f \<and> f < kFieldString64_1 then n\<lparr>fUInt32 := (fUInt32 n)[f - kFieldUInt32_1 := 0]\<rparr>
      else if kFieldString64_1 \<le> f \<and> f < kFieldIString64_1 then n\<lparr>fString64 := (fString64 n)[f - kFieldString64_1 := []]\<rparr>
      else if kFieldIString64_1 \<le> f \<and> f < kFieldText_1 then n\<lparr>fIString64 := (fIString64 n)[f - kFieldIString64_1 := []]\<rparr>
      else if kFieldText_1 \<le> f \<and> f < kFieldBlob_1 then n\<lparr>fText := (fText n)[f - kFieldText_1 := []]\<rparr>
      else if f = kFieldBlob_1 then n\<lparr>fBlob1 := None\<rparr>
      else if f = kFieldBlob_2 then n\<lparr>fBlob2 := None\<rparr>
      else if f = kFieldGuid_1 then n\<lparr>fGuid1 := guid_new\<rparr>
      else if f = kFieldGuid_2 then n\<lparr>fGuid2 := guid_new\<rparr>
      else n)"

section \<open>Reading and writing fields\<close>

text \<open>The numbered members of an array have one definition each for all, with the index from zero.\<close>

definition getNodeID :: "vault_node \<Rightarrow> u32" where "getNodeID n = (if hasField kFieldNodeID n then fNodeID n else 0)"
definition getOwner :: "vault_node \<Rightarrow> u32" where "getOwner n = (if hasField kFieldOwner n then fOwner n else 0)"
definition getGroup :: "vault_node \<Rightarrow> u32" where "getGroup n = (if hasField kFieldGroup n then fGroup n else 0)"
definition getCreator :: "vault_node \<Rightarrow> u32" where "getCreator n = (if hasField kFieldCreator n then fCreator n else 0)"
definition getNodeType :: "vault_node \<Rightarrow> u32" where "getNodeType n = (if hasField kFieldNodeType n then fNodeType n else 0)"
definition getPermissions :: "vault_node \<Rightarrow> u32" where
  "getPermissions n = (if hasField kFieldPermissions n then fPermissions n else 0)"
definition getAutoTime :: "vault_node \<Rightarrow> unified_time" where
  "getAutoTime n = (if hasField kFieldAutoTime n then fAutoTime n else ut_new)"
definition getModifyTime :: "vault_node \<Rightarrow> unified_time" where
  "getModifyTime n = (if hasField kFieldModifyTime n then fModifyTime n else ut_new)"
definition getCreateAgeTime :: "vault_node \<Rightarrow> unified_time" where
  "getCreateAgeTime n = (if hasField kFieldCreateAgeTime n then fCreateAgeTime n else ut_new)"
definition getCreateAgeGuid :: "vault_node \<Rightarrow> server_guid" where
  "getCreateAgeGuid n = (if hasField kFieldCreateAgeGuid n then fCreateAgeGuid n else guid_new)"
definition getGuid1 :: "vault_node \<Rightarrow> server_guid" where "getGuid1 n = (if hasField kFieldGuid_1 n then fGuid1 n else guid_new)"
definition getGuid2 :: "vault_node \<Rightarrow> server_guid" where "getGuid2 n = (if hasField kFieldGuid_2 n then fGuid2 n else guid_new)"
definition getCreateAgeName :: "vault_node \<Rightarrow> bytes" where
  "getCreateAgeName n = (if hasField kFieldCreateAgeName n then fCreateAgeName n else [])"
definition getInt32 :: "nat \<Rightarrow> vault_node \<Rightarrow> u32" where
  "getInt32 i n = (if hasField (kFieldInt32_1 + i) n then fInt32 n ! i else 0)"
definition getUInt32 :: "nat \<Rightarrow> vault_node \<Rightarrow> u32" where
  "getUInt32 i n = (if hasField (kFieldUInt32_1 + i) n then fUInt32 n ! i else 0)"
definition getString64 :: "nat \<Rightarrow> vault_node \<Rightarrow> bytes" where
  "getString64 i n = (if hasField (kFieldString64_1 + i) n then fString64 n ! i else [])"
definition getIString64 :: "nat \<Rightarrow> vault_node \<Rightarrow> bytes" where
  "getIString64 i n = (if hasField (kFieldIString64_1 + i) n then fIString64 n ! i else [])"
definition getText :: "nat \<Rightarrow> vault_node \<Rightarrow> bytes" where
  "getText i n = (if hasField (kFieldText_1 + i) n then fText n ! i else [])"
definition getBlob_1 :: "vault_node \<Rightarrow> vault_blob" where "getBlob_1 n = (if hasField kFieldBlob_1 n then fBlob1 n else None)"
definition getBlob_2 :: "vault_node \<Rightarrow> vault_blob" where "getBlob_2 n = (if hasField kFieldBlob_2 n then fBlob2 n else None)"

definition setNodeID :: "u32 \<Rightarrow> vault_node \<Rightarrow> vault_node" where "setNodeID x n = (mark_field kFieldNodeID n)\<lparr>fNodeID := x\<rparr>"
definition setOwner :: "u32 \<Rightarrow> vault_node \<Rightarrow> vault_node" where "setOwner x n = (mark_field kFieldOwner n)\<lparr>fOwner := x\<rparr>"
definition setGroup :: "u32 \<Rightarrow> vault_node \<Rightarrow> vault_node" where "setGroup x n = (mark_field kFieldGroup n)\<lparr>fGroup := x\<rparr>"
definition setCreator :: "u32 \<Rightarrow> vault_node \<Rightarrow> vault_node" where "setCreator x n = (mark_field kFieldCreator n)\<lparr>fCreator := x\<rparr>"
definition setNodeType :: "u32 \<Rightarrow> vault_node \<Rightarrow> vault_node" where "setNodeType x n = (mark_field kFieldNodeType n)\<lparr>fNodeType := x\<rparr>"
definition setPermissions :: "u32 \<Rightarrow> vault_node \<Rightarrow> vault_node" where
  "setPermissions x n = (mark_field kFieldPermissions n)\<lparr>fPermissions := x\<rparr>"
definition setAutoTime :: "unified_time \<Rightarrow> vault_node \<Rightarrow> vault_node" where
  "setAutoTime x n = (mark_field kFieldAutoTime n)\<lparr>fAutoTime := x\<rparr>"
definition setModifyTime :: "unified_time \<Rightarrow> vault_node \<Rightarrow> vault_node" where
  "setModifyTime x n = (mark_field kFieldModifyTime n)\<lparr>fModifyTime := x\<rparr>"
definition setCreateAgeTime :: "unified_time \<Rightarrow> vault_node \<Rightarrow> vault_node" where
  "setCreateAgeTime x n = (mark_field kFieldCreateAgeTime n)\<lparr>fCreateAgeTime := x\<rparr>"
definition setCreateAgeGuid :: "server_guid \<Rightarrow> vault_node \<Rightarrow> vault_node" where
  "setCreateAgeGuid x n = (mark_field kFieldCreateAgeGuid n)\<lparr>fCreateAgeGuid := x\<rparr>"
definition setGuid1 :: "server_guid \<Rightarrow> vault_node \<Rightarrow> vault_node" where "setGuid1 x n = (mark_field kFieldGuid_1 n)\<lparr>fGuid1 := x\<rparr>"
definition setGuid2 :: "server_guid \<Rightarrow> vault_node \<Rightarrow> vault_node" where "setGuid2 x n = (mark_field kFieldGuid_2 n)\<lparr>fGuid2 := x\<rparr>"
definition setCreateAgeName :: "bytes \<Rightarrow> vault_node \<Rightarrow> vault_node" where
  "setCreateAgeName x n = (mark_field kFieldCreateAgeName n)\<lparr>fCreateAgeName := x\<rparr>"
definition setInt32 :: "nat \<Rightarrow> u32 \<Rightarrow> vault_node \<Rightarrow> vault_node" where
  "setInt32 i x n = (mark_field (kFieldInt32_1 + i) n)\<lparr>fInt32 := (fInt32 n)[i := x]\<rparr>"
definition setUInt32 :: "nat \<Rightarrow> u32 \<Rightarrow> vault_node \<Rightarrow> vault_node" where
  "setUInt32 i x n = (mark_field (kFieldUInt32_1 + i) n)\<lparr>fUInt32 := (fUInt32 n)[i := x]\<rparr>"
definition setString64 :: "nat \<Rightarrow> bytes \<Rightarrow> vault_node \<Rightarrow> vault_node" where
  "setString64 i x n = (mark_field (kFieldString64_1 + i) n)\<lparr>fString64 := (fString64 n)[i := x]\<rparr>"
definition setIString64 :: "nat \<Rightarrow> bytes \<Rightarrow> vault_node \<Rightarrow> vault_node" where
  "setIString64 i x n = (mark_field (kFieldIString64_1 + i) n)\<lparr>fIString64 := (fIString64 n)[i := x]\<rparr>"
definition setText :: "nat \<Rightarrow> bytes \<Rightarrow> vault_node \<Rightarrow> vault_node" where
  "setText i x n = (mark_field (kFieldText_1 + i) n)\<lparr>fText := (fText n)[i := x]\<rparr>"
definition setBlob_1 :: "vault_blob \<Rightarrow> vault_node \<Rightarrow> vault_node" where "setBlob_1 x n = (mark_field kFieldBlob_1 n)\<lparr>fBlob1 := x\<rparr>"
definition setBlob_2 :: "vault_blob \<Rightarrow> vault_node \<Rightarrow> vault_node" where "setBlob_2 x n = (mark_field kFieldBlob_2 n)\<lparr>fBlob2 := x\<rparr>"

text \<open>\<open>copy\<close> takes over every member.\<close>

definition vn_copy :: "vault_node \<Rightarrow> vault_node \<Rightarrow> vault_node" where
  "vn_copy ini this = this\<lparr>fFields := fFields ini, fNodeID := fNodeID ini, fOwner := fOwner ini, fGroup := fGroup ini,
     fCreator := fCreator ini, fNodeType := fNodeType ini, fPermissions := fPermissions ini,
     fAutoTime := fAutoTime ini, fModifyTime := fModifyTime ini, fCreateAgeTime := fCreateAgeTime ini,
     fCreateAgeGuid := fCreateAgeGuid ini, fGuid1 := fGuid1 ini, fGuid2 := fGuid2 ini,
     fCreateAgeName := fCreateAgeName ini, fBlob1 := fBlob1 ini, fBlob2 := fBlob2 ini,
     fInt32 := fInt32 ini, fUInt32 := fUInt32 ini, fString64 := fString64 ini,
     fIString64 := fIString64 ini, fText := fText ini\<rparr>"

section \<open>Stream form\<close>

definition blob_read :: "vault_blob io" where
  "blob_read = io_bind readInt (\<lambda>sz. io_bind (st_read (unat sz)) (\<lambda>d. io_return (Some d)))"

definition blob_write :: "vault_blob \<Rightarrow> unit io" where
  "blob_write b = (case b of None \<Rightarrow> io_throw UndefinedBehaviour
     | Some d \<Rightarrow> io_then (writeInt (word_of_nat (length d))) (st_write d))"

definition blob_getSize :: "vault_blob \<Rightarrow> nat" where
  "blob_getSize b = (case b of None \<Rightarrow> 0 | Some d \<Rightarrow> length d)"

definition blob_setData :: "nat \<Rightarrow> bytes \<Rightarrow> vault_blob" where
  "blob_setData sz data = Some (take sz data)"

definition str16_read :: "st_lib \<Rightarrow> bytes io" where
  "str16_read L = io_bind readShort (\<lambda>len. readStr L (unat len))"

definition str16_write :: "bytes \<Rightarrow> unit io" where
  "str16_write s = io_then (writeShort (word_of_nat (length s))) (writeStr s)"

text \<open>The members of an array, each if its bit is set; \<open>f\<close> is the bit of the first.\<close>

fun opt_members :: "hs_bit_vector \<Rightarrow> nat \<Rightarrow> 'a io \<Rightarrow> 'a list \<Rightarrow> 'a list io" where
  "opt_members F f rd [] = io_return []"
| "opt_members F f rd (x # xs) =
     io_bind (io_opt (bv_get F f) rd x) (\<lambda>y.
     io_bind (opt_members F (Suc f) rd xs) (\<lambda>ys. io_return (y # ys)))"

fun put_members :: "hs_bit_vector \<Rightarrow> nat \<Rightarrow> ('a \<Rightarrow> unit io) \<Rightarrow> 'a list \<Rightarrow> unit io" where
  "put_members F f wr [] = io_return ()"
| "put_members F f wr (x # xs) = io_then (io_when (bv_get F f) (wr x)) (put_members F (Suc f) wr xs)"

definition vn_read :: "st_lib \<Rightarrow> vault_node \<Rightarrow> vault_node io" where
  "vn_read L n =
     io_bind (bv_read (fFields n)) (\<lambda>F.
     io_bind readInt (\<lambda>id.
     io_bind readByte (\<lambda>ty.
     io_bind readInt (\<lambda>perm.
     io_bind readInt (\<lambda>owner.
     io_bind readInt (\<lambda>grp.
     io_bind (ut_read (fAutoTime n)) (\<lambda>auto.
     io_bind (io_opt (bv_get F kFieldCreator) readInt (fCreator n)) (\<lambda>creator.
     io_bind (io_opt (bv_get F kFieldModifyTime) (ut_read (fModifyTime n)) (fModifyTime n)) (\<lambda>modify.
     io_bind (io_opt (bv_get F kFieldCreateAgeTime) (ut_read (fCreateAgeTime n)) (fCreateAgeTime n)) (\<lambda>atime.
     io_bind (io_opt (bv_get F kFieldCreateAgeName) (str16_read L) (fCreateAgeName n)) (\<lambda>aname.
     io_bind (io_opt (bv_get F kFieldCreateAgeGuid) guid_read (fCreateAgeGuid n)) (\<lambda>aguid.
     io_bind (opt_members F kFieldInt32_1 readInt (fInt32 n)) (\<lambda>ints.
     io_bind (opt_members F kFieldUInt32_1 readInt (fUInt32 n)) (\<lambda>uints.
     io_bind (opt_members F kFieldString64_1 (str16_read L) (fString64 n)) (\<lambda>strs.
     io_bind (opt_members F kFieldIString64_1 (str16_read L) (fIString64 n)) (\<lambda>istrs.
     io_bind (opt_members F kFieldText_1 (str16_read L) (fText n)) (\<lambda>texts.
     io_bind (io_opt (bv_get F kFieldBlob_1) blob_read (fBlob1 n)) (\<lambda>b1.
     io_bind (io_opt (bv_get F kFieldBlob_2) blob_read (fBlob2 n)) (\<lambda>b2.
     io_bind (io_opt (bv_get F kFieldGuid_1) guid_read (fGuid1 n)) (\<lambda>g1.
     io_bind (io_opt (bv_get F kFieldGuid_2) guid_read (fGuid2 n)) (\<lambda>g2.
     io_return (n\<lparr>fFields := F, fNodeID := id, fOwner := owner, fGroup := grp, fCreator := creator,
       fNodeType := ucast ty, fPermissions := perm, fAutoTime := auto, fModifyTime := modify,
       fCreateAgeTime := atime, fCreateAgeGuid := aguid, fGuid1 := g1, fGuid2 := g2, fCreateAgeName := aname,
       fInt32 := ints, fUInt32 := uints, fString64 := strs, fIString64 := istrs, fText := texts,
       fBlob1 := b1, fBlob2 := b2\<rparr>))))))))))))))))))))))"

definition vn_write :: "vault_node \<Rightarrow> vault_node io" where
  "vn_write n =
     io_bind (bv_write (fFields n)) (\<lambda>F.
     io_then (writeInt (fNodeID n))
     (io_then (writeByte (ucast (fNodeType n)))
     (io_then (writeInt (fPermissions n))
     (io_then (writeInt (fOwner n))
     (io_then (writeInt (fGroup n))
     (io_then (ut_write (fAutoTime n))
     (io_then (io_when (bv_get F kFieldCreator) (writeInt (fCreator n)))
     (io_then (io_when (bv_get F kFieldModifyTime) (ut_write (fModifyTime n)))
     (io_then (io_when (bv_get F kFieldCreateAgeTime) (ut_write (fCreateAgeTime n)))
     (io_then (io_when (bv_get F kFieldCreateAgeName) (str16_write (fCreateAgeName n)))
     (io_then (io_when (bv_get F kFieldCreateAgeGuid) (guid_write (fCreateAgeGuid n)))
     (io_then (put_members F kFieldInt32_1 writeInt (fInt32 n))
     (io_then (put_members F kFieldUInt32_1 writeInt (fUInt32 n))
     (io_then (put_members F kFieldString64_1 str16_write (fString64 n))
     (io_then (put_members F kFieldIString64_1 str16_write (fIString64 n))
     (io_then (put_members F kFieldText_1 str16_write (fText n))
     (io_then (io_when (bv_get F kFieldBlob_1) (blob_write (fBlob1 n)))
     (io_then (io_when (bv_get F kFieldBlob_2) (blob_write (fBlob2 n)))
     (io_then (io_when (bv_get F kFieldGuid_1) (guid_write (fGuid1 n)))
     (io_then (io_when (bv_get F kFieldGuid_2) (guid_write (fGuid2 n)))
     (io_return (n\<lparr>fFields := F\<rparr>))))))))))))))))))))))"

section \<open>On the wire\<close>

definition blob_image :: "vault_blob \<Rightarrow> bytes" where
  "blob_image b = le32 (word_of_nat (blob_getSize b)) @ (case b of None \<Rightarrow> [] | Some d \<Rightarrow> d)"

definition blob_ok :: "vault_blob \<Rightarrow> bool" where
  "blob_ok b \<longleftrightarrow> b \<noteq> None \<and> blob_getSize b < 2 ^ 32"

definition str16_image :: "bytes \<Rightarrow> bytes" where
  "str16_image s = le16 (word_of_nat (length s)) @ s"

definition str16_ok :: "st_lib \<Rightarrow> bytes \<Rightarrow> bool" where
  "str16_ok L s \<longleftrightarrow> st_valid L s \<and> length s < 65536"

fun members_image :: "(nat \<Rightarrow> bool) \<Rightarrow> nat \<Rightarrow> ('a \<Rightarrow> bytes) \<Rightarrow> 'a list \<Rightarrow> bytes" where
  "members_image B f e [] = []"
| "members_image B f e (x # xs) = (if B f then e x else []) @ members_image B (Suc f) e xs"

text \<open>The members that come back, beside what the target held at those whose bit is not set.\<close>

fun members_carry :: "(nat \<Rightarrow> bool) \<Rightarrow> nat \<Rightarrow> 'a list \<Rightarrow> 'a list \<Rightarrow> 'a list" where
  "members_carry B f (x # xs) (y # ys) = (if B f then y else x) # members_carry B (Suc f) xs ys"
| "members_carry B f _ _ = []"

fun members_ok :: "(nat \<Rightarrow> bool) \<Rightarrow> nat \<Rightarrow> ('a \<Rightarrow> bool) \<Rightarrow> 'a list \<Rightarrow> bool" where
  "members_ok B f ok [] = True"
| "members_ok B f ok (x # xs) = ((B f \<longrightarrow> ok x) \<and> members_ok B (Suc f) ok xs)"

lemma emits_blob [wire]: "blob_ok b \<Longrightarrow> emits (blob_write b) v (blob_image b) () v"
  unfolding blob_write_def blob_image_def blob_ok_def blob_getSize_def
  by (cases b) (auto intro!: emits_then emits_prims emits_st_write)

lemma parses_blob [wire]: "blob_ok b \<Longrightarrow> parses blob_read v (blob_image b) b v"
  unfolding blob_read_def blob_image_def blob_ok_def
  by (cases b) (auto simp: blob_getSize_def unat_of_nat intro!: parses_bind [OF parses_prims(3)] parses_bind_return
      parses_st_read)

lemma emits_str16 [wire]: "emits (str16_write s) v (str16_image s) () v"
  unfolding str16_write_def str16_image_def writeStr_def by (rule emits_then, (rule wire)+)

lemma parses_str16 [wire]: "str16_ok L s \<Longrightarrow> parses (str16_read L) v (str16_image s) s v"
  unfolding str16_read_def str16_image_def readStr_def str16_ok_def
  by (rule parses_bind [OF parses_prims(2)], rule parses_eq, rule parses_bind_return, rule parses_st_read)
    (simp_all add: unat_len16)

lemma emits_members [wire]:
  "members_ok (bv_get F) f (\<lambda>x. emits (wr x) v (e x) () v) xs \<Longrightarrow>
     emits (put_members F f wr xs) v (members_image (bv_get F) f e xs) () v"
proof (induction xs arbitrary: f)
  case (Cons x xs)
  have "emits (io_when (bv_get F f) (wr x)) v (if bv_get F f then e x else []) () v"
    using Cons.prems by (intro emits_when) simp
  from emits_then [OF this Cons.IH] Cons.prems show ?case by simp
qed (simp add: emits_return)

lemma parses_members [wire]:
  "length old = length xs \<Longrightarrow> members_ok (bv_get F) f (\<lambda>x. parses rd v (e x) x v) xs \<Longrightarrow>
     parses (opt_members F f rd old) v (members_image (bv_get F) f e xs) (members_carry (bv_get F) f old xs) v"
proof (induction xs arbitrary: f old)
  case (Cons x xs)
  then obtain o0 os where old: "old = o0 # os" "length os = length xs" by (cases old) auto
  have hd: "parses (io_opt (bv_get F f) rd o0) v (if bv_get F f then e x else []) (if bv_get F f then x else o0) v"
    using Cons.prems(2) by (intro parses_opt) simp_all
  have tl: "parses (opt_members F (Suc f) rd os) v (members_image (bv_get F) (Suc f) e xs) (members_carry (bv_get F) (Suc f) os xs) v"
    using Cons.prems(2) by (intro Cons.IH [OF old(2)]) simp
  show ?case
    unfolding old opt_members.simps members_image.simps
    by (rule parses_eq, rule parses_bind [OF hd parses_bind_return [OF tl]]) simp
qed (simp add: parses_return)

definition vn_shape :: "vault_node \<Rightarrow> bool" where
  "vn_shape n \<longleftrightarrow> length (fInt32 n) = 4 \<and> length (fUInt32 n) = 4 \<and> length (fString64 n) = 6 \<and>
     length (fIString64 n) = 2 \<and> length (fText n) = 2 \<and>
     length (fCreateAgeGuid n) = 8 \<and> length (fGuid1 n) = 8 \<and> length (fGuid2 n) = 8"

definition vn_ok :: "st_lib \<Rightarrow> plasma_ver \<Rightarrow> vault_node \<Rightarrow> bool" where
  "vn_ok L v n \<longleftrightarrow> (let B = bv_get (fFields n) in
     bv_ok v (fFields n) \<and> vn_shape n \<and>
     (B kFieldCreateAgeName \<longrightarrow> str16_ok L (fCreateAgeName n)) \<and>
     members_ok B kFieldString64_1 (str16_ok L) (fString64 n) \<and>
     members_ok B kFieldIString64_1 (str16_ok L) (fIString64 n) \<and>
     members_ok B kFieldText_1 (str16_ok L) (fText n) \<and>
     (B kFieldBlob_1 \<longrightarrow> blob_ok (fBlob1 n)) \<and> (B kFieldBlob_2 \<longrightarrow> blob_ok (fBlob2 n)))"

definition vn_image :: "vault_node \<Rightarrow> bytes" where
  "vn_image n = (let B = bv_get (fFields n) in
     bv_image (fFields n) @ le32 (fNodeID n) @ [ucast (fNodeType n)] @ le32 (fPermissions n) @
     le32 (fOwner n) @ le32 (fGroup n) @ ut_image (fAutoTime n) @
     (if B kFieldCreator then le32 (fCreator n) else []) @
     (if B kFieldModifyTime then ut_image (fModifyTime n) else []) @
     (if B kFieldCreateAgeTime then ut_image (fCreateAgeTime n) else []) @
     (if B kFieldCreateAgeName then str16_image (fCreateAgeName n) else []) @
     (if B kFieldCreateAgeGuid then fCreateAgeGuid n else []) @
     members_image B kFieldInt32_1 le32 (fInt32 n) @
     members_image B kFieldUInt32_1 le32 (fUInt32 n) @
     members_image B kFieldString64_1 str16_image (fString64 n) @
     members_image B kFieldIString64_1 str16_image (fIString64 n) @
     members_image B kFieldText_1 str16_image (fText n) @
     (if B kFieldBlob_1 then blob_image (fBlob1 n) else []) @
     (if B kFieldBlob_2 then blob_image (fBlob2 n) else []) @
     (if B kFieldGuid_1 then fGuid1 n else []) @
     (if B kFieldGuid_2 then fGuid2 n else []))"

text \<open>A time loses the seconds from \<open>2 ^ 32\<close> on and takes the mode of the target.\<close>

definition ut_carry :: "unified_time \<Rightarrow> unified_time \<Rightarrow> unified_time" where
  "ut_carry old t = t\<lparr>fSecs := take_bit 32 (fSecs t), fMode := fMode old\<rparr>"

definition vn_carry :: "vault_node \<Rightarrow> vault_node \<Rightarrow> vault_node" where
  "vn_carry old n = (let B = bv_get (fFields n) in
     old\<lparr>fFields := (fFields old)\<lparr>fBits := fBits (bv_compact (fFields n))\<rparr>,
       fNodeID := fNodeID n, fOwner := fOwner n, fGroup := fGroup n,
       fCreator := (if B kFieldCreator then fCreator n else fCreator old),
       fNodeType := ucast (ucast (fNodeType n) :: u8), fPermissions := fPermissions n,
       fAutoTime := ut_carry (fAutoTime old) (fAutoTime n),
       fModifyTime := (if B kFieldModifyTime then ut_carry (fModifyTime old) (fModifyTime n) else fModifyTime old),
       fCreateAgeTime := (if B kFieldCreateAgeTime then ut_carry (fCreateAgeTime old) (fCreateAgeTime n)
         else fCreateAgeTime old),
       fCreateAgeGuid := (if B kFieldCreateAgeGuid then fCreateAgeGuid n else fCreateAgeGuid old),
       fGuid1 := (if B kFieldGuid_1 then fGuid1 n else fGuid1 old),
       fGuid2 := (if B kFieldGuid_2 then fGuid2 n else fGuid2 old),
       fCreateAgeName := (if B kFieldCreateAgeName then fCreateAgeName n else fCreateAgeName old),
       fInt32 := members_carry B kFieldInt32_1 (fInt32 old) (fInt32 n),
       fUInt32 := members_carry B kFieldUInt32_1 (fUInt32 old) (fUInt32 n),
       fString64 := members_carry B kFieldString64_1 (fString64 old) (fString64 n),
       fIString64 := members_carry B kFieldIString64_1 (fIString64 old) (fIString64 n),
       fText := members_carry B kFieldText_1 (fText old) (fText n),
       fBlob1 := (if B kFieldBlob_1 then fBlob1 n else fBlob1 old),
       fBlob2 := (if B kFieldBlob_2 then fBlob2 n else fBlob2 old)\<rparr>)"

lemma bits_compact [simp]: "bv_get (bv_compact bv) = bv_get bv"
  by (simp add: fun_eq_iff bv_get_compact)

lemma bits_carried [simp]: "bv_get (old\<lparr>fBits := fBits (bv_compact bv)\<rparr>) = bv_get bv"
  using bv_get_cong [of "old\<lparr>fBits := fBits (bv_compact bv)\<rparr>" "bv_compact bv"]
  by (simp add: fun_eq_iff bv_get_compact)

lemma members_ok_mono: "members_ok B f P xs \<Longrightarrow> (\<And>x. P x \<Longrightarrow> Q x) \<Longrightarrow> members_ok B f Q xs"
  by (induction xs arbitrary: f) auto

lemma members_ok_all: "(\<And>x. P x) \<Longrightarrow> members_ok B f P xs"
  by (induction xs arbitrary: f) auto

lemmas emits_int_members = emits_members [OF members_ok_all, OF emits_prims(3)]
lemmas emits_str_members = emits_members [OF members_ok_all, OF emits_str16]

lemma emits_vn:
  assumes "vn_ok L v n"
  shows "emits (vn_write n) v (vn_image n) (n\<lparr>fFields := bv_compact (fFields n)\<rparr>) v"
proof -
  note ok = assms [unfolded vn_ok_def vn_shape_def Let_def]
  note put = emits_when [OF emits_prims(3)] emits_when [OF emits_ut_write] emits_when [OF emits_str16]
    emits_when [OF emits_guid_write] emits_when [OF emits_blob] emits_int_members emits_str_members
    emits_prims emits_ut_write
  show ?thesis
    unfolding vn_write_def
    by (rule emits_cong, rule emits_bind [OF emits_bv_write], (rule emits_then put emits_return | simp add: ok)+)
      (simp_all add: vn_image_def Let_def)
qed

lemma parses_opt_if:
  "c = b \<Longrightarrow> (b \<Longrightarrow> parses m v bs x v) \<Longrightarrow>
     parses (io_opt c m d) v (if b then bs else []) (if b then x else d) v"
  by (simp add: io_opt_def parses_return)

lemma parses_opt_members:
  "bv_get F = B \<Longrightarrow> length old = length xs \<Longrightarrow> members_ok B f (\<lambda>x. parses rd v (e x) x v) xs \<Longrightarrow>
     parses (opt_members F f rd old) v (members_image B f e xs) (members_carry B f old xs) v"
  using parses_members by blast

lemmas parses_int_members = parses_opt_members [OF _ _ members_ok_all, OF _ _ parses_prims(3)]

lemma parses_str_members:
  "bv_get F = B \<Longrightarrow> length old = length xs \<Longrightarrow> members_ok B f (str16_ok L) xs \<Longrightarrow>
     parses (opt_members F f (str16_read L) old) v (members_image B f str16_image xs) (members_carry B f old xs) v"
  by (erule parses_opt_members, assumption, erule members_ok_mono, rule parses_str16)

lemma parses_vn:
  assumes "vn_ok L v n" "vn_shape old"
  shows "parses (vn_read L old) v (vn_image n) (vn_carry old n) v"
proof -
  note ok = assms(1) [unfolded vn_ok_def vn_shape_def Let_def] and sh = assms(2) [unfolded vn_shape_def]
  note bound = parses_bind [OF parses_bv_read [of v]] parses_bind [OF parses_prims(3)] parses_bind [OF parses_prims(1)]
    parses_bind [OF parses_ut_read]
    parses_bind [OF parses_opt_if [OF _ parses_prims(3)]] parses_bind [OF parses_opt_if [OF _ parses_ut_read]]
    parses_bind [OF parses_opt_if [OF _ parses_str16]] parses_bind [OF parses_opt_if [OF _ parses_guid_read]]
    parses_bind [OF parses_opt_if [OF _ parses_blob]]
    parses_bind [OF parses_int_members] parses_bind [OF parses_str_members]
    parses_bind_return [OF parses_opt_if [OF _ parses_guid_read]]
  show ?thesis
    unfolding vn_read_def vn_image_def vn_carry_def ut_carry_def Let_def
    by (rule bound bits_carried bits_carried [THEN fun_cong] | simp add: ok sh)+
qed

interpretation vault_node: codec vn_write "\<lambda>_. vn_read L vn_new" "vn_ok L" "\<lambda>v. vn_image" "\<lambda>v _. vn_carry vn_new" for L
proof (unfold_locales, goal_cases)
  case (1 v n)
  then show ?case using emits_vn by blast
next
  case (2 v n old)
  have "vn_shape vn_new" by (simp add: vn_shape_def vn_new_def guid_new_def)
  with 2 show ?case by (rule parses_vn)
qed

section \<open>Nodes as maps\<close>

text \<open>The value of a field; a time is its two counts, which is what comparing times looks at.\<close>

datatype field_value = VInt u32 | VTime u64 u32 | VGuid server_guid | VStr bytes | VBlob vault_blob

definition time_value :: "unified_time \<Rightarrow> field_value" where
  "time_value t = VTime (fSecs t) (fMicros t)"

definition vn_member :: "vault_node \<Rightarrow> nat \<Rightarrow> field_value option" where
  "vn_member n f =
     (if f = kFieldNodeID then Some (VInt (fNodeID n))
      else if f = kFieldNodeType then Some (VInt (fNodeType n))
      else if f = kFieldPermissions then Some (VInt (fPermissions n))
      else if f = kFieldOwner then Some (VInt (fOwner n))
      else if f = kFieldGroup then Some (VInt (fGroup n))
      else if f = kFieldAutoTime then Some (time_value (fAutoTime n))
      else if f = kFieldCreator then Some (VInt (fCreator n))
      else if f = kFieldModifyTime then Some (time_value (fModifyTime n))
      else if f = kFieldCreateAgeTime then Some (time_value (fCreateAgeTime n))
      else if f = kFieldCreateAgeName then Some (VStr (fCreateAgeName n))
      else if f = kFieldCreateAgeGuid then Some (VGuid (fCreateAgeGuid n))
      else if kFieldInt32_1 \<le> f \<and> f < kFieldUInt32_1 then Some (VInt (fInt32 n ! (f - kFieldInt32_1)))
      else if kFieldUInt32_1 \<le> f \<and> f < kFieldString64_1 then Some (VInt (fUInt32 n ! (f - kFieldUInt32_1)))
      else if kFieldString64_1 \<le> f \<and> f < kFieldIString64_1 then Some (VStr (fString64 n ! (f - kFieldString64_1)))
      else if kFieldIString64_1 \<le> f \<and> f < kFieldText_1 then Some (VStr (fIString64 n ! (f - kFieldIString64_1)))
      else if kFieldText_1 \<le> f \<and> f < kFieldBlob_1 then Some (VStr (fText n ! (f - kFieldText_1)))
      else if f = kFieldBlob_1 then Some (VBlob (fBlob1 n))
      else if f = kFieldBlob_2 then Some (VBlob (fBlob2 n))
      else if f = kFieldGuid_1 then Some (VGuid (fGuid1 n))
      else if f = kFieldGuid_2 then Some (VGuid (fGuid2 n))
      else None)"

definition vn_map :: "vault_node \<Rightarrow> nat \<Rightarrow> field_value option" where
  "vn_map n f = (if hasField f n then vn_member n f else None)"

lemma hasField_mark [simp]: "hasField g (mark_field f n) \<longleftrightarrow> g = f \<or> hasField g n"
  by (auto simp: hasField_def mark_field_def bv_get_set)

lemma vn_member_fields [simp]: "vn_member (n\<lparr>fFields := F\<rparr>) = vn_member n"
  by (simp add: vn_member_def fun_eq_iff)

lemma vn_member_mark [simp]: "vn_member (mark_field f n) = vn_member n"
  by (simp add: mark_field_def)

text \<open>A node whose bits and members are those of another but at one field.\<close>

lemma vn_map_upd:
  "fFields m = bv_set f True (fFields n) \<Longrightarrow> vn_member m = (vn_member n)(f := Some x) \<Longrightarrow>
     vn_map m = (vn_map n)(f \<mapsto> x)"
  by (auto simp: vn_map_def hasField_def bv_get_set fun_eq_iff)

lemma fFields_mark [simp]: "fFields (mark_field f n) = bv_set f True (fFields n)"
  by (simp add: mark_field_def)

lemmas vn_set_defs = setNodeID_def setOwner_def setGroup_def setCreator_def setNodeType_def setPermissions_def
  setAutoTime_def setModifyTime_def setCreateAgeTime_def setCreateAgeGuid_def setGuid1_def setGuid2_def
  setCreateAgeName_def setInt32_def setUInt32_def setString64_def setIString64_def setText_def setBlob_1_def setBlob_2_def

lemma vn_map_setters:
  "vn_map (setNodeID w n) = (vn_map n)(0 \<mapsto> VInt w)"
  "vn_map (setNodeType w n) = (vn_map n)(1 \<mapsto> VInt w)"
  "vn_map (setPermissions w n) = (vn_map n)(2 \<mapsto> VInt w)"
  "vn_map (setOwner w n) = (vn_map n)(3 \<mapsto> VInt w)"
  "vn_map (setGroup w n) = (vn_map n)(4 \<mapsto> VInt w)"
  "vn_map (setAutoTime t n) = (vn_map n)(5 \<mapsto> time_value t)"
  "vn_map (setCreator w n) = (vn_map n)(6 \<mapsto> VInt w)"
  "vn_map (setModifyTime t n) = (vn_map n)(7 \<mapsto> time_value t)"
  "vn_map (setCreateAgeTime t n) = (vn_map n)(9 \<mapsto> time_value t)"
  "vn_map (setCreateAgeName s n) = (vn_map n)(10 \<mapsto> VStr s)"
  "vn_map (setCreateAgeGuid g n) = (vn_map n)(11 \<mapsto> VGuid g)"
  "vn_map (setBlob_1 b n) = (vn_map n)(30 \<mapsto> VBlob b)"
  "vn_map (setBlob_2 b n) = (vn_map n)(31 \<mapsto> VBlob b)"
  "vn_map (setGuid1 g n) = (vn_map n)(32 \<mapsto> VGuid g)"
  "vn_map (setGuid2 g n) = (vn_map n)(33 \<mapsto> VGuid g)"
  unfolding vn_set_defs by (rule vn_map_upd; simp add: fun_eq_iff vn_member_def mark_field_def)+

lemma vn_map_array_setters:
  "vn_shape n \<Longrightarrow> i < 4 \<Longrightarrow> vn_map (setInt32 i w n) = (vn_map n)(12 + i \<mapsto> VInt w)"
  "vn_shape n \<Longrightarrow> i < 4 \<Longrightarrow> vn_map (setUInt32 i w n) = (vn_map n)(16 + i \<mapsto> VInt w)"
  "vn_shape n \<Longrightarrow> i < 6 \<Longrightarrow> vn_map (setString64 i s n) = (vn_map n)(20 + i \<mapsto> VStr s)"
  "vn_shape n \<Longrightarrow> i < 2 \<Longrightarrow> vn_map (setIString64 i s n) = (vn_map n)(26 + i \<mapsto> VStr s)"
  "vn_shape n \<Longrightarrow> i < 2 \<Longrightarrow> vn_map (setText i s n) = (vn_map n)(28 + i \<mapsto> VStr s)"
  unfolding vn_set_defs
  by (rule vn_map_upd; auto simp: fun_eq_iff vn_member_def mark_field_def vn_shape_def nth_list_update)+

lemma vn_member_at:
  "vn_member n 0 = Some (VInt (fNodeID n))" "vn_member n 1 = Some (VInt (fNodeType n))"
  "vn_member n 2 = Some (VInt (fPermissions n))" "vn_member n 3 = Some (VInt (fOwner n))"
  "vn_member n 4 = Some (VInt (fGroup n))" "vn_member n 5 = Some (time_value (fAutoTime n))"
  "vn_member n 6 = Some (VInt (fCreator n))" "vn_member n 7 = Some (time_value (fModifyTime n))"
  "vn_member n 9 = Some (time_value (fCreateAgeTime n))" "vn_member n 10 = Some (VStr (fCreateAgeName n))"
  "vn_member n 11 = Some (VGuid (fCreateAgeGuid n))"
  "i < 4 \<Longrightarrow> vn_member n (12 + i) = Some (VInt (fInt32 n ! i))"
  "i < 4 \<Longrightarrow> vn_member n (16 + i) = Some (VInt (fUInt32 n ! i))"
  "i < 6 \<Longrightarrow> vn_member n (20 + i) = Some (VStr (fString64 n ! i))"
  "i < 2 \<Longrightarrow> vn_member n (26 + i) = Some (VStr (fIString64 n ! i))"
  "i < 2 \<Longrightarrow> vn_member n (28 + i) = Some (VStr (fText n ! i))"
  "vn_member n 30 = Some (VBlob (fBlob1 n))" "vn_member n 31 = Some (VBlob (fBlob2 n))"
  "vn_member n 32 = Some (VGuid (fGuid1 n))" "vn_member n 33 = Some (VGuid (fGuid2 n))"
  by (simp_all add: vn_member_def)

lemma vn_member_none: "f = 8 \<or> 34 \<le> f \<Longrightarrow> vn_member n f = None"
  by (elim disjE) (simp_all add: vn_member_def)

lemma field_cases:
  obtains "f = 0" | "f = 1" | "f = 2" | "f = 3" | "f = 4" | "f = 5" | "f = 6" | "f = 7" | "f = 9" | "f = 10" | "f = 11"
  | i where "f = 12 + i" "i < 4" | i where "f = 16 + i" "i < 4" | i where "f = 20 + i" "i < 6"
  | i where "f = 26 + i" "i < 2" | i where "f = 28 + i" "i < 2"
  | "f = 30" | "f = 31" | "f = 32" | "f = 33" | "f = 8 \<or> 34 \<le> (f :: nat)"
proof -
  have arr: "\<exists>i. f = a + i \<and> i < b - a" if "a \<le> f" "f < b" for a b
    using that by (intro exI [of _ "f - a"]) simp
  consider "f < 8" | "f = 8 \<or> 34 \<le> f" | "9 \<le> f \<and> f < 12" | "12 \<le> f \<and> f < 16" | "16 \<le> f \<and> f < 20" | "20 \<le> f \<and> f < 26"
    | "26 \<le> f \<and> f < 28" | "28 \<le> f \<and> f < 30" | "30 \<le> f \<and> f < 34" by linarith
  then show thesis
  proof cases
    case 1
    then have "f = 0 \<or> f = 1 \<or> f = 2 \<or> f = 3 \<or> f = 4 \<or> f = 5 \<or> f = 6 \<or> f = 7" by linarith
    with that(1-8) show ?thesis by blast
  next
    case 3
    then have "f = 9 \<or> f = 10 \<or> f = 11" by linarith
    with that(9-11) show ?thesis by blast
  next
    case 9
    then have "f = 30 \<or> f = 31 \<or> f = 32 \<or> f = 33" by linarith
    with that(17-20) show ?thesis by blast
  qed (use that(12-16,21) arr [of 12 16] arr [of 16 20] arr [of 20 26] arr [of 26 28] arr [of 28 30] in auto)
qed

lemma vn_map_delField: "vn_map (delField f n) = (vn_map n)(f := None)"
  by (auto simp: vn_map_def hasField_def delField_def bv_get_set fun_eq_iff)

text \<open>What \<open>makeField\<close> puts into a field: what a new node holds, but for its permissions.\<close>

definition made_value :: "nat \<Rightarrow> field_value option" where
  "made_value f = (if f = kFieldPermissions then Some (VInt 0) else vn_member vn_new f)"

lemma vn_member_new_arrays:
  "i < 4 \<Longrightarrow> [0, 0, 0, 0 :: u32] ! i = 0" "i < 6 \<Longrightarrow> [[], [], [], [], [], [] :: bytes] ! i = []"
  "i < 2 \<Longrightarrow> [[], [] :: bytes] ! i = []"
  by (auto simp: nth_Cons less_Suc_eq numeral_eq_Suc split: nat.splits)

lemma made_value_at:
  "made_value 0 = Some (VInt 0)" "made_value 1 = Some (VInt 0)" "made_value 2 = Some (VInt 0)"
  "made_value 3 = Some (VInt 0)" "made_value 4 = Some (VInt 0)" "made_value 5 = Some (time_value ut_new)"
  "made_value 6 = Some (VInt 0)" "made_value 7 = Some (time_value ut_new)" "made_value 9 = Some (time_value ut_new)"
  "made_value 10 = Some (VStr [])" "made_value 11 = Some (VGuid guid_new)"
  "i < 4 \<Longrightarrow> made_value (12 + i) = Some (VInt 0)" "i < 4 \<Longrightarrow> made_value (16 + i) = Some (VInt 0)"
  "i < 6 \<Longrightarrow> made_value (20 + i) = Some (VStr [])" "i < 2 \<Longrightarrow> made_value (26 + i) = Some (VStr [])"
  "i < 2 \<Longrightarrow> made_value (28 + i) = Some (VStr [])"
  "made_value 30 = Some (VBlob None)" "made_value 31 = Some (VBlob None)"
  "made_value 32 = Some (VGuid guid_new)" "made_value 33 = Some (VGuid guid_new)"
  "f = 8 \<or> 34 \<le> f \<Longrightarrow> made_value f = None"
  by (simp_all add: made_value_def vn_member_none vn_member_at vn_member_new_arrays del: One_nat_def)
    (auto simp: vn_new_def vn_member_new_arrays)

lemma makeField_sets:
  "makeField 0 n = setNodeID 0 n" "makeField 1 n = setNodeType 0 n" "makeField 2 n = setPermissions 0 n"
  "makeField 3 n = setOwner 0 n" "makeField 4 n = setGroup 0 n" "makeField 5 n = setAutoTime ut_new n"
  "makeField 6 n = setCreator 0 n" "makeField 7 n = setModifyTime ut_new n" "makeField 9 n = setCreateAgeTime ut_new n"
  "makeField 10 n = setCreateAgeName [] n" "makeField 11 n = setCreateAgeGuid guid_new n"
  "i < 4 \<Longrightarrow> makeField (12 + i) n = setInt32 i 0 n" "i < 4 \<Longrightarrow> makeField (16 + i) n = setUInt32 i 0 n"
  "i < 6 \<Longrightarrow> makeField (20 + i) n = setString64 i [] n" "i < 2 \<Longrightarrow> makeField (26 + i) n = setIString64 i [] n"
  "i < 2 \<Longrightarrow> makeField (28 + i) n = setText i [] n"
  "makeField 30 n = setBlob_1 None n" "makeField 31 n = setBlob_2 None n"
  "makeField 32 n = setGuid1 guid_new n" "makeField 33 n = setGuid2 guid_new n"
  by (simp_all add: makeField_def vn_set_defs mark_field_def Let_def)

lemma makeField_none: "f = 8 \<or> 34 \<le> f \<Longrightarrow> makeField f n = mark_field f n"
  by (elim disjE) (simp_all add: makeField_def Let_def)

lemma vn_map_makeField:
  assumes "vn_shape n"
  shows "vn_map (makeField f n) = (vn_map n)(f := made_value f)"
proof (cases f rule: field_cases)
  case 21
  then show ?thesis by (auto simp: makeField_none made_value_at vn_map_def vn_member_none fun_eq_iff)
qed (simp_all add: makeField_sets made_value_at vn_map_setters vn_map_array_setters assms del: One_nat_def)


section \<open>Reading fields\<close>

definition int_of :: "field_value option \<Rightarrow> u32" where "int_of x = (case x of Some (VInt w) \<Rightarrow> w | _ \<Rightarrow> 0)"
definition guid_of :: "field_value option \<Rightarrow> server_guid" where "guid_of x = (case x of Some (VGuid g) \<Rightarrow> g | _ \<Rightarrow> guid_new)"
definition str_of :: "field_value option \<Rightarrow> bytes" where "str_of x = (case x of Some (VStr s) \<Rightarrow> s | _ \<Rightarrow> [])"
definition blob_of :: "field_value option \<Rightarrow> vault_blob" where "blob_of x = (case x of Some (VBlob b) \<Rightarrow> b | _ \<Rightarrow> None)"
definition time_of :: "field_value option \<Rightarrow> field_value" where
  "time_of x = (case x of Some (VTime s m) \<Rightarrow> VTime s m | _ \<Rightarrow> VTime 0 0)"

lemmas vn_get_defs = getNodeID_def getOwner_def getGroup_def getCreator_def getNodeType_def getPermissions_def
  getAutoTime_def getModifyTime_def getCreateAgeTime_def getCreateAgeGuid_def getGuid1_def getGuid2_def
  getCreateAgeName_def getInt32_def getUInt32_def getString64_def getIString64_def getText_def getBlob_1_def getBlob_2_def

lemma vn_getters:
  "getNodeID n = int_of (vn_map n 0)" "getNodeType n = int_of (vn_map n 1)"
  "getPermissions n = int_of (vn_map n 2)" "getOwner n = int_of (vn_map n 3)"
  "getGroup n = int_of (vn_map n 4)" "time_value (getAutoTime n) = time_of (vn_map n 5)"
  "getCreator n = int_of (vn_map n 6)" "time_value (getModifyTime n) = time_of (vn_map n 7)"
  "time_value (getCreateAgeTime n) = time_of (vn_map n 9)" "getCreateAgeName n = str_of (vn_map n 10)"
  "getCreateAgeGuid n = guid_of (vn_map n 11)"
  "getBlob_1 n = blob_of (vn_map n 30)" "getBlob_2 n = blob_of (vn_map n 31)"
  "getGuid1 n = guid_of (vn_map n 32)" "getGuid2 n = guid_of (vn_map n 33)"
  by (simp_all add: vn_get_defs vn_map_def vn_member_def int_of_def guid_of_def str_of_def blob_of_def time_of_def
      time_value_def ut_new_def)

lemma vn_array_getters:
  "i < 4 \<Longrightarrow> getInt32 i n = int_of (vn_map n (12 + i))"
  "i < 4 \<Longrightarrow> getUInt32 i n = int_of (vn_map n (16 + i))"
  "i < 6 \<Longrightarrow> getString64 i n = str_of (vn_map n (20 + i))"
  "i < 2 \<Longrightarrow> getIString64 i n = str_of (vn_map n (26 + i))"
  "i < 2 \<Longrightarrow> getText i n = str_of (vn_map n (28 + i))"
  by (simp_all add: vn_get_defs vn_map_def vn_member_def int_of_def str_of_def)

section \<open>What a file carries\<close>

lemma members_carry_nth:
  "length xs = length ys \<Longrightarrow> i < length ys \<Longrightarrow> B (f + i) \<Longrightarrow> members_carry B f xs ys ! i = ys ! i"
proof (induction B f xs ys arbitrary: i rule: members_carry.induct)
  case (1 B f x xs y ys)
  then show ?case by (cases i) simp_all
qed simp_all

lemma length_members_carry [simp]: "length xs = length ys \<Longrightarrow> length (members_carry B f xs ys) = length ys"
  by (induction B f xs ys rule: members_carry.induct) auto

lemma vn_shape_new [simp]: "vn_shape vn_new"
  by (simp add: vn_shape_def vn_new_def guid_new_def)

lemma vn_shape_carry: "vn_shape old \<Longrightarrow> vn_shape n \<Longrightarrow> vn_shape (vn_carry old n)"
  by (simp add: vn_shape_def vn_carry_def Let_def)

text \<open>What the format has no room for: wide node types and times after 2106.\<close>

definition vn_fits :: "vault_node \<Rightarrow> bool" where
  "vn_fits n \<longleftrightarrow> fNodeType n < 256 \<and> fSecs (fAutoTime n) < 2 ^ 32 \<and> fSecs (fModifyTime n) < 2 ^ 32 \<and>
     fSecs (fCreateAgeTime n) < 2 ^ 32"

lemma small_take_bit: "unat w < 2 ^ k \<Longrightarrow> take_bit k w = w"
  by (rule word_unat_eq_iff [THEN iffD2]) (simp add: unsigned_take_bit_eq take_bit_nat_eq_self)

lemma time_value_carry: "fSecs t < 2 ^ 32 \<Longrightarrow> time_value (ut_carry old t) = time_value t"
  using small_take_bit [of "fSecs t" 32] by (simp add: time_value_def ut_carry_def word_less_nat_alt)

lemma small_byte: "w < 256 \<Longrightarrow> ucast (ucast (w :: u32) :: u8) = w"
  using small_take_bit [of w 8]
  by (intro word_unat_eq_iff [THEN iffD2]) (simp add: unsigned_ucast_eq word_less_nat_alt take_bit_nat_eq_self)

lemma vn_map_carry:
  assumes "vn_shape old" "vn_shape n" "vn_fits n"
  shows "vn_map (vn_carry old n) = vn_map n"
proof
  fix f
  have bits: "hasField f (vn_carry old n) \<longleftrightarrow> hasField f n"
    by (simp add: hasField_def vn_carry_def Let_def)
  note sh = assms [unfolded vn_shape_def vn_fits_def, simplified]
  have "vn_member (vn_carry old n) f = vn_member n f" if "hasField f n"
    using that by (cases f rule: field_cases)
      (simp_all add: vn_member_at vn_member_none hasField_def del: One_nat_def, simp_all add: vn_carry_def Let_def sh time_value_carry small_byte members_carry_nth)
  with bits show "vn_map (vn_carry old n) f = vn_map n f" by (simp add: vn_map_def)
qed

section \<open>Properties\<close>

text \<open>C14: A vault node is a finite map from fields to values: every setter assigns one field, every
  getter looks one up and answers its default when it is not there, deleting takes a field out, and
  making one gives it a default.  Numbered fields count from zero.\<close>

theorem vault_node_is_map:
  assumes "vn_shape n" and "i < 4" and "j < 6" and "k < 2"
  shows "vn_map (setNodeID w n) = (vn_map n)(kFieldNodeID \<mapsto> VInt w) \<and>
    vn_map (setNodeType w n) = (vn_map n)(kFieldNodeType \<mapsto> VInt w) \<and>
    vn_map (setPermissions w n) = (vn_map n)(kFieldPermissions \<mapsto> VInt w) \<and>
    vn_map (setOwner w n) = (vn_map n)(kFieldOwner \<mapsto> VInt w) \<and>
    vn_map (setGroup w n) = (vn_map n)(kFieldGroup \<mapsto> VInt w) \<and>
    vn_map (setAutoTime t n) = (vn_map n)(kFieldAutoTime \<mapsto> time_value t) \<and>
    vn_map (setCreator w n) = (vn_map n)(kFieldCreator \<mapsto> VInt w) \<and>
    vn_map (setModifyTime t n) = (vn_map n)(kFieldModifyTime \<mapsto> time_value t) \<and>
    vn_map (setCreateAgeTime t n) = (vn_map n)(kFieldCreateAgeTime \<mapsto> time_value t) \<and>
    vn_map (setCreateAgeName s n) = (vn_map n)(kFieldCreateAgeName \<mapsto> VStr s) \<and>
    vn_map (setCreateAgeGuid g n) = (vn_map n)(kFieldCreateAgeGuid \<mapsto> VGuid g) \<and>
    vn_map (setInt32 i w n) = (vn_map n)(kFieldInt32_1 + i \<mapsto> VInt w) \<and>
    vn_map (setUInt32 i w n) = (vn_map n)(kFieldUInt32_1 + i \<mapsto> VInt w) \<and>
    vn_map (setString64 j s n) = (vn_map n)(kFieldString64_1 + j \<mapsto> VStr s) \<and>
    vn_map (setIString64 k s n) = (vn_map n)(kFieldIString64_1 + k \<mapsto> VStr s) \<and>
    vn_map (setText k s n) = (vn_map n)(kFieldText_1 + k \<mapsto> VStr s) \<and>
    vn_map (setBlob_1 b n) = (vn_map n)(kFieldBlob_1 \<mapsto> VBlob b) \<and>
    vn_map (setBlob_2 b n) = (vn_map n)(kFieldBlob_2 \<mapsto> VBlob b) \<and>
    vn_map (setGuid1 g n) = (vn_map n)(kFieldGuid_1 \<mapsto> VGuid g) \<and>
    vn_map (setGuid2 g n) = (vn_map n)(kFieldGuid_2 \<mapsto> VGuid g) \<and>
    vn_map (delField f n) = (vn_map n)(f := None) \<and>
    vn_map (makeField f n) = (vn_map n)(f := made_value f) \<and>
    getNodeID n = int_of (vn_map n kFieldNodeID) \<and>
    getNodeType n = int_of (vn_map n kFieldNodeType) \<and>
    getInt32 i n = int_of (vn_map n (kFieldInt32_1 + i)) \<and>
    getUInt32 i n = int_of (vn_map n (kFieldUInt32_1 + i)) \<and>
    getString64 j n = str_of (vn_map n (kFieldString64_1 + j)) \<and>
    getIString64 k n = str_of (vn_map n (kFieldIString64_1 + k)) \<and>
    getText k n = str_of (vn_map n (kFieldText_1 + k)) \<and>
    getCreateAgeName n = str_of (vn_map n kFieldCreateAgeName) \<and>
    getCreateAgeGuid n = guid_of (vn_map n kFieldCreateAgeGuid) \<and>
    getBlob_1 n = blob_of (vn_map n kFieldBlob_1) \<and> getBlob_2 n = blob_of (vn_map n kFieldBlob_2) \<and>
    getGuid1 n = guid_of (vn_map n kFieldGuid_1) \<and> getGuid2 n = guid_of (vn_map n kFieldGuid_2)"
  by (intro conjI vn_map_setters vn_map_array_setters vn_map_delField vn_map_makeField vn_getters vn_array_getters assms)

theorem vault_node_is_map_witness:
  "vn_map (setText 1 [65] (setNodeID 7 vn_new)) = Map.empty(0 \<mapsto> VInt 7, 29 \<mapsto> VStr [65])"
proof -
  have new: "vn_map vn_new = Map.empty" by (simp add: vn_map_def fun_eq_iff hasField_def vn_new_def bv_get_def bv_empty_def)
  have "vn_shape (setNodeID 7 vn_new)" by (simp add: vn_shape_def setNodeID_def mark_field_def vn_new_def guid_new_def)
  then have "vn_map (setText 1 [65] (setNodeID 7 vn_new)) = (vn_map (setNodeID 7 vn_new))(28 + 1 \<mapsto> VStr [65])"
    by (rule vault_node_is_map [of _ 0 0 1, THEN conjunct2, THEN conjunct2, THEN conjunct2, THEN conjunct2,
          THEN conjunct2, THEN conjunct2, THEN conjunct2, THEN conjunct2, THEN conjunct2, THEN conjunct2,
          THEN conjunct2, THEN conjunct2, THEN conjunct2, THEN conjunct2, THEN conjunct2, THEN conjunct1]) simp_all
  then show ?thesis using vn_map_setters(1) [of 7 vn_new] by (simp add: new)
qed

text \<open>C15: A node written to a stream and read back, into whatever node, has the same fields with the
  same values, so that every getter answers as before.\<close>

theorem vault_node_roundtrip:
  assumes "vn_ok L v n" "vn_fits n" "vn_shape old" "length (vn_image n) < 2 ^ 32"
  shows "\<exists>s m. vn_write n \<lparr>s_ver = v, s_data = [], s_pos = 0\<rparr> = Inr (n\<lparr>fFields := bv_compact (fFields n)\<rparr>, s) \<and>
    vn_read L old (s\<lparr>s_pos := 0\<rparr>) = Inr (m, s) \<and> s_eof s \<and> vn_map m = vn_map n"
proof -
  have sh: "vn_shape n" using assms(1) by (simp add: vn_ok_def Let_def)
  from emitsD [OF emits_vn [OF assms(1)], of "[]"] parsesD [OF parses_vn [OF assms(1,3)], of "[]" "[]"] assms(4)
  show ?thesis using vn_map_carry [OF assms(3) sh assms(2)] by (auto simp: s_eof_def)
qed

definition sample_node :: vault_node where
  "sample_node = setText 1 [65, 66] (setBlob_1 (Some [1, 2, 3]) (setNodeType 23 (setNodeID 20001 vn_new)))"

lemma sample_node_ok: "vn_ok ascii_lib pvMoul sample_node" "vn_fits sample_node" "length (vn_image sample_node) = 44"
proof -
  have "length (fBits (bv_compact (fFields sample_node))) = 1" by code_simp
  then have bits: "bv_ok pvMoul (fFields sample_node)" by (simp add: bv_ok_def)
  have members: "fString64 sample_node = [[], [], [], [], [], []]" "fIString64 sample_node = [[], []]"
    "fText sample_node = [[], [65, 66]]" "fCreateAgeName sample_node = []" "fInt32 sample_node = [0, 0, 0, 0]"
    "fUInt32 sample_node = [0, 0, 0, 0]" "fBlob1 sample_node = Some [1, 2, 3]"
    "fNodeType sample_node = 23" "fAutoTime sample_node = ut_new" "fModifyTime sample_node = ut_new"
    "fCreateAgeTime sample_node = ut_new" "fCreateAgeGuid sample_node = guid_new"
    "fGuid1 sample_node = guid_new" "fGuid2 sample_node = guid_new"
    by (simp_all add: sample_node_def vn_set_defs mark_field_def vn_new_def)
  have no: "\<not> bv_get (fFields sample_node) kFieldBlob_2" by code_simp
  show "vn_ok ascii_lib pvMoul sample_node"
    by (simp add: vn_ok_def Let_def bits no members vn_shape_def guid_new_def str16_ok_def st_valid_def ascii_lib_def
        blob_ok_def blob_getSize_def)
  show "vn_fits sample_node" by (simp add: vn_fits_def members ut_new_def)
  show "length (vn_image sample_node) = 44" by code_simp
qed

theorem vault_node_roundtrip_witness:
  "\<exists>s m. vn_write sample_node \<lparr>s_ver = pvMoul, s_data = [], s_pos = 0\<rparr> =
       Inr (sample_node\<lparr>fFields := bv_compact (fFields sample_node)\<rparr>, s) \<and>
     vn_read ascii_lib vn_new (s\<lparr>s_pos := 0\<rparr>) = Inr (m, s) \<and> s_eof s \<and> vn_map m = vn_map sample_node"
  by (rule vault_node_roundtrip) (simp_all add: sample_node_ok)

text \<open>A blob field that was made but not given data cannot be written: the code follows the null
  pointer of the blob.\<close>

theorem empty_blob_write:
  "vn_write (makeField kFieldBlob_1 vn_new) \<lparr>s_ver = pvMoul, s_data = [], s_pos = 0\<rparr> = Inl UndefinedBehaviour"
  by code_simp

end
