(* ===== verification/VaultStore.thy ===== *)
theory VaultStore
  imports VaultNode KeyCollector
begin

text \<open>
  The vault store (\<open>src/core/Vault/plVaultStore\<close>, \<open>plVaultNodeRef\<close>): nodes by their id, references
  from parents to children, and the file that holds them.  The \<open>std::map\<close> is its entries in order
  of their keys.  A reader that throws leaves a store filled in part, which the model does not show.
  The typed nodes of \<open>plVaultNodeTypes\<close> are nodes with a type of their own.
\<close>

section \<open>References\<close>

record vault_ref =
  vr_saver :: u32
  vr_parent :: u32
  vr_child :: u32
  vr_time :: unified_time
  vr_seen :: bool

definition vr_new :: vault_ref where
  "vr_new = \<lparr>vr_saver = 0, vr_parent = 0, vr_child = 0, vr_time = ut_new, vr_seen = False\<rparr>"

definition vr_read :: "vault_ref \<Rightarrow> vault_ref io" where
  "vr_read r = io_bind readInt (\<lambda>s. io_bind readInt (\<lambda>p. io_bind readInt (\<lambda>c. io_bind (ut_read (vr_time r)) (\<lambda>t.
     io_bind readBool (\<lambda>b. io_return (r\<lparr>vr_saver := s, vr_parent := p, vr_child := c, vr_time := t, vr_seen := b\<rparr>))))))"

definition vr_write :: "vault_ref \<Rightarrow> unit io" where
  "vr_write r = io_then (writeInt (vr_saver r)) (io_then (writeInt (vr_parent r)) (io_then (writeInt (vr_child r))
     (io_then (ut_write (vr_time r)) (writeBool (vr_seen r)))))"

section \<open>The store\<close>

record vault_store =
  vs_nodes :: "(u32 \<times> vault_node) list"
  vs_refs :: "vault_ref list"
  vs_first :: u32
  vs_last :: u32

definition vs_new :: "u32 \<Rightarrow> vault_store" where
  "vs_new firstNode = \<lparr>vs_nodes = [], vs_refs = [], vs_first = firstNode, vs_last = firstNode - 1\<rparr>"

definition getNode :: "u32 \<Rightarrow> vault_store \<Rightarrow> vault_node" where
  "getNode idx st = (case map_of (vs_nodes st) idx of Some n \<Rightarrow> n | None \<Rightarrow> vn_new)"

definition getChildren :: "u32 \<Rightarrow> vault_store \<Rightarrow> vault_node list" where
  "getChildren parent st =
     map (\<lambda>i. getNode i st) (map vr_child (filter (\<lambda>r. vr_parent r = parent) (vs_refs st)))"

definition findParents :: "u32 \<Rightarrow> vault_store \<Rightarrow> vault_node list" where
  "findParents child st =
     map (\<lambda>i. getNode i st) (map vr_parent (filter (\<lambda>r. vr_child r = child) (vs_refs st)))"

definition addNode :: "vault_node \<Rightarrow> vault_store \<Rightarrow> vault_store" where
  "addNode node st =
     (if getNodeID node = 0 then
        let i = vs_last st + 1 in
        st\<lparr>vs_last := i, vs_nodes := om_put i (setNodeID i node) (vs_nodes st)\<rparr>
      else
        let i = getNodeID node in
        st\<lparr>vs_first := (if i < vs_first st then i else vs_first st),
           vs_last := (if i > vs_last st then i else vs_last st),
           vs_nodes := om_put i node (vs_nodes st)\<rparr>)"

definition delNode :: "u32 \<Rightarrow> vault_store \<Rightarrow> vault_store" where
  "delNode idx st = st\<lparr>vs_nodes := om_erase idx (vs_nodes st)\<rparr>"

definition addRef :: "u32 \<Rightarrow> u32 \<Rightarrow> u32 \<Rightarrow> vault_store \<Rightarrow> vault_store" where
  "addRef parent child saver st =
     st\<lparr>vs_refs := vs_refs st @ [vr_new\<lparr>vr_parent := parent, vr_child := child, vr_saver := saver\<rparr>]\<rparr>"

fun del_first_ref :: "u32 \<Rightarrow> u32 \<Rightarrow> vault_ref list \<Rightarrow> vault_ref list" where
  "del_first_ref parent child [] = []"
| "del_first_ref parent child (r # rs) =
     (if vr_parent r = parent \<and> vr_child r = child then rs else r # del_first_ref parent child rs)"

definition delRef :: "u32 \<Rightarrow> u32 \<Rightarrow> vault_store \<Rightarrow> vault_store" where
  "delRef parent child st = st\<lparr>vs_refs := del_first_ref parent child (vs_refs st)\<rparr>"

section \<open>The file\<close>

fun import_nodes :: "st_lib \<Rightarrow> nat \<Rightarrow> vault_store \<Rightarrow> vault_store io" where
  "import_nodes L 0 st = io_return st"
| "import_nodes L (Suc k) st =
     io_bind (vn_read L vn_new) (\<lambda>node.
     import_nodes L k (st\<lparr>vs_nodes := om_put (getNodeID node) node (vs_nodes st)\<rparr>))"

fun import_refs :: "nat \<Rightarrow> vault_store \<Rightarrow> vault_store io" where
  "import_refs 0 st = io_return st"
| "import_refs (Suc k) st =
     io_bind (vr_read vr_new) (\<lambda>r. import_refs k (st\<lparr>vs_refs := vs_refs st @ [r]\<rparr>))"

definition begin_first :: "nat \<Rightarrow> vault_store \<Rightarrow> vault_store" where
  "begin_first numNodes st = (if numNodes > 0 then st\<lparr>vs_first := fst (hd (vs_nodes st))\<rparr> else st)"

definition vs_Import :: "st_lib \<Rightarrow> vault_store \<Rightarrow> vault_store io" where
  "vs_Import L st =
     io_bind readByte (\<lambda>fileVer.
     if fileVer \<noteq> 1 then io_throw BadParamException
     else io_bind (bv_read bv_empty) (\<lambda>fileFields.
     if bv_get fileFields 0 then
       io_bind readByte (\<lambda>vaultVer.
       if vaultVer \<noteq> 3 then io_throw BadParamException
       else io_bind (bv_read bv_empty) (\<lambda>vaultFields.
       io_bind (io_opt (bv_get vaultFields 0) readInt (vs_last st)) (\<lambda>l.
       io_bind (if bv_get vaultFields 2
         then io_bind readInt (\<lambda>n. io_bind (import_nodes L (unat n) (st\<lparr>vs_last := l\<rparr>)) (\<lambda>st1.
           io_return (begin_first (unat n) st1)))
         else io_return (st\<lparr>vs_last := l\<rparr>)) (\<lambda>st1.
       if bv_get vaultFields 1
         then io_bind readInt (\<lambda>n. import_refs (unat n) st1)
         else io_return st1))))
     else io_return st))"

fun export_nodes :: "(u32 \<times> vault_node) list \<Rightarrow> (u32 \<times> vault_node) list io" where
  "export_nodes [] = io_return []"
| "export_nodes ((i, n) # r) =
     io_bind (vn_write n) (\<lambda>n1. io_bind (export_nodes r) (\<lambda>r1. io_return ((i, n1) # r1)))"

definition vs_Export :: "vault_store \<Rightarrow> vault_store io" where
  "vs_Export st =
     io_then (writeByte 1)
     (io_bind (bv_write (bv_set 0 True bv_empty)) (\<lambda>_.
     io_then (writeByte 3)
     (io_bind (bv_write (bv_set 2 True (bv_set 1 True (bv_set 0 True bv_empty)))) (\<lambda>_.
     io_then (writeInt (vs_last st))
     (io_then (writeInt (word_of_nat (length (vs_nodes st))))
     (io_bind (export_nodes (vs_nodes st)) (\<lambda>ns.
     io_then (writeInt (word_of_nat (length (vs_refs st))))
     (io_then (io_each vr_write (vs_refs st))
     (io_return (st\<lparr>vs_nodes := ns\<rparr>))))))))))"

section \<open>Typed nodes\<close>

datatype node_class = PlayerNode | AgeNode | GameServerNode | AdminNode | ServerNode | FolderNode | PlayerInfoNode
  | SystemNode | ImageNode | TextNoteNode | SDLNode | AgeLinkNode | ChronicleNode | PlayerInfoListNode | MarkerNode
  | AgeInfoNode | AgeInfoListNode | MarkerListNode

primrec class_type :: "node_class \<Rightarrow> u32" where
  "class_type PlayerNode = 2"
| "class_type AgeNode = 3"
| "class_type GameServerNode = 4"
| "class_type AdminNode = 5"
| "class_type ServerNode = 6"
| "class_type FolderNode = 22"
| "class_type PlayerInfoNode = 23"
| "class_type SystemNode = 24"
| "class_type ImageNode = 25"
| "class_type TextNoteNode = 26"
| "class_type SDLNode = 27"
| "class_type AgeLinkNode = 28"
| "class_type ChronicleNode = 29"
| "class_type PlayerInfoListNode = 30"
| "class_type MarkerNode = 32"
| "class_type AgeInfoNode = 33"
| "class_type AgeInfoListNode = 34"
| "class_type MarkerListNode = 35"

text \<open>The type a constructor from a plain node, or a cast of one, accepts: a folder is any list, too.\<close>

definition class_accepts :: "node_class \<Rightarrow> u32 \<Rightarrow> bool" where
  "class_accepts c t \<longleftrightarrow>
     (if c = FolderNode then t = 22 \<or> t = 30 \<or> t = 34 \<or> t = 35 else t = class_type c)"

definition typed_new :: "node_class \<Rightarrow> vault_node" where
  "typed_new c = vn_new\<lparr>fNodeType := class_type c\<rparr>"

definition typed_from :: "node_class \<Rightarrow> vault_node \<Rightarrow> vault_node" where
  "typed_from c ini =
     (if class_accepts c (getNodeType ini) then vn_copy ini (typed_new c) else typed_new c)"

definition upcast :: "node_class \<Rightarrow> vault_node \<Rightarrow> vault_node option" where
  "upcast c n = (if class_accepts c (fNodeType n) then Some n else None)"

definition setAgeInstanceGuid :: "server_guid \<Rightarrow> vault_node \<Rightarrow> vault_node" where
  "setAgeInstanceGuid g n = setString64 0 (guid_toString g) n"

definition getAgeInstanceGuid :: "vault_node \<Rightarrow> server_guid result" where
  "getAgeInstanceGuid n = guid_FromString (getString64 0 n)"

section \<open>On the wire\<close>

definition vr_image :: "vault_ref \<Rightarrow> bytes" where
  "vr_image r = le32 (vr_saver r) @ le32 (vr_parent r) @ le32 (vr_child r) @ ut_image (vr_time r) @
     [if vr_seen r then 1 else 0]"

definition vr_carry :: "vault_ref \<Rightarrow> vault_ref \<Rightarrow> vault_ref" where
  "vr_carry old r = r\<lparr>vr_time := ut_carry (vr_time old) (vr_time r)\<rparr>"

lemma emits_vr: "emits (vr_write r) v (vr_image r) () v"
  unfolding vr_write_def vr_image_def writeBool_def by ((rule emits_then)?, rule wire)+

lemma parses_vr: "parses (vr_read old) v (vr_image r) (vr_carry old r) v"
  unfolding vr_read_def vr_image_def
  by (rule parses_eq, rule parses_bind [OF parses_prims(3)], rule parses_bind [OF parses_prims(3)],
      rule parses_bind [OF parses_prims(3)], rule parses_bind [OF parses_ut_read],
      rule parses_bind_return [OF parses_readBool]) (simp add: vr_carry_def ut_carry_def)

interpretation vault_ref: codec vr_write vr_read "\<lambda>v r. True" "\<lambda>v. vr_image" "\<lambda>v. vr_carry"
  by unfold_locales (auto intro: emits_vr parses_vr)

definition store_fields :: hs_bit_vector where
  "store_fields = bv_set 2 True (bv_set 1 True (bv_set 0 True bv_empty))"

definition file_fields :: hs_bit_vector where "file_fields = bv_set 0 True bv_empty"

definition vs_image :: "vault_store \<Rightarrow> bytes" where
  "vs_image st = [1] @ bv_image file_fields @ [3] @ bv_image store_fields @ le32 (vs_last st) @
     le32 (word_of_nat (length (vs_nodes st))) @ concat (map (\<lambda>e. vn_image (snd e)) (vs_nodes st)) @
     le32 (word_of_nat (length (vs_refs st))) @ concat (map vr_image (vs_refs st))"

text \<open>A store that can be exported: every node is stored under its own id, and fits the format.\<close>

definition vs_ok :: "st_lib \<Rightarrow> plasma_ver \<Rightarrow> vault_store \<Rightarrow> bool" where
  "vs_ok L v st \<longleftrightarrow> sorted_wrt (<) (map fst (vs_nodes st)) \<and>
     list_all (\<lambda>e. fst e = getNodeID (snd e) \<and> vn_ok L v (snd e) \<and> vn_fits (snd e)) (vs_nodes st) \<and>
     length (vs_nodes st) < 2 ^ 32 \<and> length (vs_refs st) < 2 ^ 32"

definition compacted :: "vault_node \<Rightarrow> vault_node" where
  "compacted n = n\<lparr>fFields := bv_compact (fFields n)\<rparr>"

lemma emits_export_nodes:
  "list_all (\<lambda>e. vn_ok L v (snd e)) ns \<Longrightarrow>
     emits (export_nodes ns) v (concat (map (\<lambda>e. vn_image (snd e)) ns)) (map (\<lambda>e. (fst e, compacted (snd e))) ns) v"
proof (induction ns)
  case (Cons e ns)
  obtain i n where e: "e = (i, n)" by (cases e)
  have n: "emits (vn_write n) v (vn_image n) (compacted n) v"
    using Cons.prems emits_vn [of L v n] by (simp add: e compacted_def)
  have "emits (export_nodes (e # ns)) v (vn_image n @ concat (map (\<lambda>e. vn_image (snd e)) ns) @ [])
      ((i, compacted n) # map (\<lambda>e. (fst e, compacted (snd e))) ns) v"
    unfolding e export_nodes.simps
    by (rule emits_bind [OF n], rule emits_bind [OF Cons.IH emits_return]) (use Cons.prems in simp)
  then show ?case by (simp add: e)
qed (simp add: emits_return)

lemma om_put_last: "\<forall>j \<in> fst ` set m. j < k \<Longrightarrow> om_put k x m = m @ [(k, x)]"
  by (induction k x m rule: om_put.induct) auto

lemma vn_ok_shape: "vn_ok L v n \<Longrightarrow> vn_shape n"
  by (simp add: vn_ok_def Let_def)

lemma getNodeID_carry: "vn_ok L v n \<Longrightarrow> vn_fits n \<Longrightarrow> getNodeID (vn_carry vn_new n) = getNodeID n"
  by (simp add: vn_getters vn_map_carry [OF vn_shape_new vn_ok_shape])

definition imported :: "u32 \<times> vault_node \<Rightarrow> u32 \<times> vault_node" where
  "imported e = (fst e, vn_carry vn_new (snd e))"

lemma parses_import_nodes:
  assumes "list_all (\<lambda>e. fst e = getNodeID (snd e) \<and> vn_ok L v (snd e) \<and> vn_fits (snd e)) ns"
    and "sorted_wrt (<) (map fst (vs_nodes st) @ map fst ns)"
  shows "parses (import_nodes L (length ns) st) v (concat (map (\<lambda>e. vn_image (snd e)) ns))
    (st\<lparr>vs_nodes := vs_nodes st @ map imported ns\<rparr>) v"
  using assms
proof (induction ns arbitrary: st)
  case Nil
  then show ?case by (simp add: parses_return)
next
  case (Cons e ns)
  obtain i n where e: "e = (i, n)" by (cases e)
  from Cons.prems(1) have n: "i = getNodeID n" "vn_ok L v n" "vn_fits n" by (simp_all add: e)
  let ?st = "st\<lparr>vs_nodes := vs_nodes st @ [imported e]\<rparr>"
  have put: "om_put (getNodeID (vn_carry vn_new n)) (vn_carry vn_new n) (vs_nodes st) = vs_nodes st @ [imported e]"
  proof -
    have id: "getNodeID (vn_carry vn_new n) = i" using getNodeID_carry [OF n(2,3)] n(1) by simp
    have "\<forall>j \<in> fst ` set (vs_nodes st). j < i" using Cons.prems(2) by (simp add: e sorted_wrt_append)
    then show ?thesis by (simp add: id om_put_last imported_def e)
  qed
  have "parses (import_nodes L (length ns) ?st) v (concat (map (\<lambda>e. vn_image (snd e)) ns))
      (?st\<lparr>vs_nodes := vs_nodes ?st @ map imported ns\<rparr>) v"
    using Cons.prems by (intro Cons.IH) (simp_all add: imported_def e)
  from parses_bind [OF parses_vn [OF n(2) vn_shape_new], of "\<lambda>node. import_nodes L (length ns)
      (st\<lparr>vs_nodes := om_put (getNodeID node) node (vs_nodes st)\<rparr>)", unfolded put, OF this]
  show ?case by (simp add: e)
qed

lemma parses_import_refs:
  "parses (import_refs (length rs) st) v (concat (map vr_image rs))
     (st\<lparr>vs_refs := vs_refs st @ map (vr_carry vr_new) rs\<rparr>) v"
proof (induction rs arbitrary: st)
  case (Cons r rs)
  show ?case
    unfolding list.map concat.simps list.size add_0_right add_Suc_right import_refs.simps
    by (rule parses_eq, rule parses_bind [OF parses_vr], rule Cons.IH) simp
qed (simp add: parses_return)

section \<open>Views\<close>

text \<open>What a store holds: its nodes as maps, its references with their times as counts, its last id.\<close>

definition ref_view :: "vault_ref \<Rightarrow> u32 \<times> u32 \<times> u32 \<times> field_value \<times> bool" where
  "ref_view r = (vr_saver r, vr_parent r, vr_child r, time_value (vr_time r), vr_seen r)"

definition node_view :: "u32 \<times> vault_node \<Rightarrow> u32 \<times> (nat \<Rightarrow> field_value option)" where
  "node_view e = (fst e, vn_map (snd e))"

definition refs_fit :: "vault_store \<Rightarrow> bool" where
  "refs_fit st \<longleftrightarrow> list_all (\<lambda>r. fSecs (vr_time r) < 2 ^ 32) (vs_refs st)"

definition vs_carry :: "vault_store \<Rightarrow> vault_store \<Rightarrow> vault_store" where
  "vs_carry old st = \<lparr>vs_nodes = map imported (vs_nodes st), vs_refs = map (vr_carry vr_new) (vs_refs st),
     vs_first = (if vs_nodes st = [] then vs_first old else fst (hd (vs_nodes st))), vs_last = vs_last st\<rparr>"

lemma field_bits: "bv_get file_fields 0" "bv_get store_fields 0" "bv_get store_fields 1" "bv_get store_fields 2"
  by code_simp+

lemma fields_ok: "bv_ok v file_fields" "bv_ok v store_fields"
proof -
  have "length (fBits (bv_compact file_fields)) = 1" "length (fBits (bv_compact store_fields)) = 1" by code_simp+
  then show "bv_ok v file_fields" "bv_ok v store_fields" by (simp_all add: bv_ok_def)
qed

lemma emits_vs:
  assumes "vs_ok L v st"
  shows "emits (vs_Export st) v (vs_image st)
    (st\<lparr>vs_nodes := map (\<lambda>e. (fst e, compacted (snd e))) (vs_nodes st)\<rparr>) v"
proof -
  have ok: "list_all (\<lambda>e. vn_ok L v (snd e)) (vs_nodes st)"
    using assms by (auto simp: vs_ok_def list_all_iff)
  show ?thesis
    unfolding vs_Export_def vs_image_def store_fields_def [symmetric] unfolding file_fields_def [symmetric]
    by (rule emits_cong, (rule emits_then emits_bind emits_bv_write emits_prims emits_return
        emits_export_nodes [OF ok] emits_each emits_vr)+) simp_all
qed

lemma parses_vs:
  assumes "vs_ok L v st" "vs_nodes old = []" "vs_refs old = []"
  shows "parses (vs_Import L old) v (vs_image st) (vs_carry old st) v"
proof -
  note ok = assms(1) [unfolded vs_ok_def]
  have n: "unat (word_of_nat (length (vs_nodes st)) :: u32) = length (vs_nodes st)"
    and r: "unat (word_of_nat (length (vs_refs st)) :: u32) = length (vs_refs st)"
    using ok by (simp_all add: unat_of_nat)
  let ?old = "old\<lparr>vs_last := vs_last st\<rparr>"
  let ?st1 = "begin_first (length (vs_nodes st)) (?old\<lparr>vs_nodes := map imported (vs_nodes st)\<rparr>)"
  have nodes: "parses (import_nodes L (length (vs_nodes st)) ?old) v
      (concat (map (\<lambda>e. vn_image (snd e)) (vs_nodes st))) (?old\<lparr>vs_nodes := map imported (vs_nodes st)\<rparr>) v"
    using parses_import_nodes [of L v "vs_nodes st" ?old] ok assms(2) by simp
  have nodes': "parses (io_bind readInt (\<lambda>n. io_bind (import_nodes L (unat n) ?old)
        (\<lambda>st1. io_return (begin_first (unat n) st1)))) v
      (le32 (word_of_nat (length (vs_nodes st))) @ concat (map (\<lambda>e. vn_image (snd e)) (vs_nodes st))) ?st1 v"
    by (rule parses_bind [OF parses_prims(3)], unfold n, rule parses_bind_return [OF nodes])
  have carry: "?st1\<lparr>vs_refs := vs_refs ?st1 @ map (vr_carry vr_new) (vs_refs st)\<rparr> = vs_carry old st"
    using assms(3) by (cases "vs_nodes st") (auto simp: vs_carry_def begin_first_def imported_def)
  have refs: "parses (io_bind readInt (\<lambda>n. import_refs (unat n) ?st1)) v
      (le32 (word_of_nat (length (vs_refs st))) @ concat (map vr_image (vs_refs st))) (vs_carry old st) v"
    unfolding carry [symmetric] by (rule parses_bind [OF parses_prims(3)], unfold r, rule parses_import_refs)
  have "parses (vs_Import L old) v ([1] @ bv_image file_fields @ [3] @ bv_image store_fields @ le32 (vs_last st) @
      (le32 (word_of_nat (length (vs_nodes st))) @ concat (map (\<lambda>e. vn_image (snd e)) (vs_nodes st))) @
      (le32 (word_of_nat (length (vs_refs st))) @ concat (map vr_image (vs_refs st)))) (vs_carry old st) v"
    unfolding vs_Import_def
    by (rule parses_bind [OF parses_prims(1)], simp only: simp_thms if_False,
        rule parses_bind [OF parses_bv_read [OF fields_ok(1)]], simp only: bits_carried field_bits if_True,
        rule parses_bind [OF parses_prims(1)], simp only: simp_thms if_False,
        rule parses_bind [OF parses_bv_read [OF fields_ok(2)]], simp only: bits_carried field_bits if_True io_opt_def,
        rule parses_bind [OF parses_prims(3)], rule parses_bind [OF nodes'], rule refs)
  then show ?thesis by (simp add: vs_image_def)
qed

lemma node_view_imported:
  "vn_ok L v (snd e) \<Longrightarrow> vn_fits (snd e) \<Longrightarrow> node_view (imported e) = node_view e"
  by (simp add: node_view_def imported_def vn_map_carry [OF vn_shape_new vn_ok_shape])

lemma ref_view_carry: "fSecs (vr_time r) < 2 ^ 32 \<Longrightarrow> ref_view (vr_carry old r) = ref_view r"
  by (simp add: ref_view_def vr_carry_def time_value_carry)

section \<open>The invariant\<close>

text \<open>Nodes are stored in order, under their own ids, between the first and the last id.\<close>

definition vs_inv :: "vault_store \<Rightarrow> bool" where
  "vs_inv st \<longleftrightarrow> sorted_wrt (<) (map fst (vs_nodes st)) \<and> uint (vs_first st) \<le> uint (vs_last st) + 1 \<and>
     (\<forall>(i, n) \<in> set (vs_nodes st). getNodeID n = i \<and> i \<noteq> 0 \<and> vs_first st \<le> i \<and> i \<le> vs_last st)"

datatype vault_op = AddNode vault_node | DelNode u32 | AddRef u32 u32 u32 | DelRef u32 u32

primrec vs_apply :: "vault_op \<Rightarrow> vault_store \<Rightarrow> vault_store" where
  "vs_apply (AddNode n) st = addNode n st"
| "vs_apply (DelNode i) st = delNode i st"
| "vs_apply (AddRef p c s) st = addRef p c s st"
| "vs_apply (DelRef p c) st = delRef p c st"

text \<open>Operations from a new store, as long as the last id has not reached the greatest number.\<close>

inductive vs_reach :: "vault_store \<Rightarrow> bool" where
  vs_start: "f \<noteq> 0 \<Longrightarrow> vs_reach (vs_new f)"
| vs_step: "vs_reach st \<Longrightarrow> vs_last st \<noteq> -1 \<Longrightarrow> vs_reach (vs_apply op st)"

lemma set_om_put_ids: "sorted_wrt (<) (map fst m) \<Longrightarrow> e \<in> set (om_put k v m) \<Longrightarrow> e = (k, v) \<or> e \<in> set m \<and> fst e \<noteq> k"
proof (induction k v m rule: om_put.induct)
  case (2 k v j w r)
  then show ?case by (auto split: if_splits)
qed simp

lemma getNodeID_set: "getNodeID (setNodeID i n) = i"
  by (simp add: getNodeID_def setNodeID_def hasField_def mark_field_def bv_get_set)

lemma succ_less: "w \<noteq> -1 \<Longrightarrow> uint (w + 1) = uint w + 1" for w :: "'a::len word"
proof -
  assume "w \<noteq> -1"
  moreover have "uint (-1 :: 'a word) = 2 ^ LENGTH('a) - 1"
    by (simp add: unsigned_minus_1_eq_mask mask_eq_exp_minus_1)
  ultimately have "uint w \<noteq> 2 ^ LENGTH('a) - 1" by (metis word_uint_eq_iff)
  then have "uint w + 1 < 2 ^ LENGTH('a)" using uint_lt2p [of w] by linarith
  then show ?thesis by (simp add: uint_word_ariths)
qed

lemma sorted_filter_keys: "sorted_wrt (<) (map fst m) \<Longrightarrow> sorted_wrt (<) (map fst (filter P m))"
  by (induction m) auto

lemma inv_addNode:
  assumes "vs_inv st" "vs_last st \<noteq> -1"
  shows "vs_inv (addNode n st)"
proof -
  note inv = assms(1) [unfolded vs_inv_def]
  have up: "uint (vs_last st + 1) = uint (vs_last st) + 1" by (rule succ_less [OF assms(2)])
  have "uint (vs_last st + 1) > 0" unfolding up using uint_nonnegative [of "vs_last st"] by linarith
  then have pos: "vs_last st + 1 \<noteq> 0" by auto
  show ?thesis
  proof (cases "getNodeID n = 0")
    case True
    then show ?thesis
      using inv up pos set_om_put_ids [of "vs_nodes st" _ "vs_last st + 1" "setNodeID (vs_last st + 1) n"]
      by (fastforce simp: vs_inv_def addNode_def Let_def sorted_om_put getNodeID_set word_le_def)
  next
    case False
    then show ?thesis
      using inv set_om_put_ids [of "vs_nodes st" _ "getNodeID n" n]
      by (fastforce simp: vs_inv_def addNode_def Let_def sorted_om_put word_le_def word_less_def)
  qed
qed

lemma inv_apply: "vs_inv st \<Longrightarrow> vs_last st \<noteq> -1 \<Longrightarrow> vs_inv (vs_apply op st)"
proof (cases op)
  case (DelNode i)
  then show "vs_inv st \<Longrightarrow> ?thesis" by (auto simp: vs_inv_def delNode_def om_erase_def sorted_filter_keys)
qed (auto simp: inv_addNode, auto simp: vs_inv_def addRef_def delRef_def)

lemma inv_reach: "vs_reach st \<Longrightarrow> vs_inv st"
proof (induction rule: vs_reach.induct)
  case (vs_start f)
  have "uint (f - 1) + 1 = uint f" using succ_less [of "f - 1"] vs_start by simp
  then show ?case by (simp add: vs_inv_def vs_new_def)
qed (rule inv_apply)

lemma fresh_id:
  assumes "vs_inv st" "vs_last st \<noteq> -1"
  shows "map_of (vs_nodes st) (vs_last st + 1) = None"
proof -
  have "vs_last st < vs_last st + 1" using succ_less [OF assms(2)] by (simp add: word_less_def)
  then have "\<forall>(i, n) \<in> set (vs_nodes st). i \<noteq> vs_last st + 1" using assms(1) by (auto simp: vs_inv_def)
  then show ?thesis by (force simp: map_of_eq_None_iff)
qed

text \<open>The identifier of an age goes through its text.\<close>

lemma age_guid_set: "length g = 8 \<Longrightarrow> vn_shape n \<Longrightarrow> getAgeInstanceGuid (setAgeInstanceGuid g n) = Inr g"
  by (simp add: getAgeInstanceGuid_def setAgeInstanceGuid_def vn_array_getters vn_map_array_setters str_of_def guid_text)

section \<open>Properties\<close>

text \<open>C5: A vault store that is exported and imported into a new one has the same nodes with the same
  fields, the same references and the same last id; its first id is that of its first node.\<close>

theorem vault_store_roundtrip:
  assumes "vs_ok L v st" "refs_fit st" "length (vs_image st) < 2 ^ 32"
  shows "\<exists>s st1 st2. vs_Export st \<lparr>s_ver = v, s_data = [], s_pos = 0\<rparr> = Inr (st1, s) \<and>
    vs_Import L (vs_new f) (s\<lparr>s_pos := 0\<rparr>) = Inr (st2, s) \<and> s_eof s \<and>
    map node_view (vs_nodes st2) = map node_view (vs_nodes st) \<and>
    map ref_view (vs_refs st2) = map ref_view (vs_refs st) \<and> vs_last st2 = vs_last st \<and>
    vs_first st2 = (if vs_nodes st = [] then f else fst (hd (vs_nodes st)))"
proof -
  have nodes: "map node_view (map imported (vs_nodes st)) = map node_view (vs_nodes st)"
    using assms(1) node_view_imported by (force simp: vs_ok_def list_all_iff)
  have refs: "map ref_view (map (vr_carry vr_new) (vs_refs st)) = map ref_view (vs_refs st)"
    using assms(2) ref_view_carry by (auto simp: refs_fit_def list_all_iff)
  have old: "vs_nodes (vs_new f) = []" "vs_refs (vs_new f) = []" "vs_first (vs_new f) = f" by (simp_all add: vs_new_def)
  from emitsD [OF emits_vs [OF assms(1)], of "[]"] parsesD [OF parses_vs [OF assms(1) old(1,2)], of "[]" "[]"] assms(3)
    nodes refs
  show ?thesis by (auto simp: s_eof_def vs_carry_def old(3))
qed

text \<open>C9: In every store made by the operations the nodes are stored in order under their own ids,
  between the first and the last id, and a node without an id gets one that no node has.\<close>

theorem vault_store_invariant:
  assumes "vs_reach st"
  shows "vs_inv st \<and> (vs_last st \<noteq> -1 \<and> getNodeID n = 0 \<longrightarrow>
    map_of (vs_nodes st) (vs_last st + 1) = None \<and>
    map_of (vs_nodes (addNode n st)) = (map_of (vs_nodes st))(vs_last st + 1 \<mapsto> setNodeID (vs_last st + 1) n))"
  using inv_reach [OF assms] fresh_id [of st] by (simp add: addNode_def Let_def)

text \<open>C40: A node made by the constructor of a typed node has its type but not the bit of the type
  field: a cast recognises it, but the constructor that copies it as that type drops its data.\<close>

theorem typed_node_dropped:
  "upcast c (setString64 0 s (typed_new c)) = Some (setString64 0 s (typed_new c)) \<and>
   typed_from c (setString64 0 s (typed_new c)) = typed_new c"
proof -
  have "getNodeType (setString64 0 s (typed_new c)) = 0"
    by (simp add: getNodeType_def hasField_def setString64_def mark_field_def typed_new_def vn_new_def bv_get_set)
      (simp add: bv_get_def bv_empty_def)
  moreover have "\<not> class_accepts c 0" by (cases c) (simp_all add: class_accepts_def)
  moreover have "class_accepts c (fNodeType (setString64 0 s (typed_new c)))"
    by (cases c) (simp_all add: class_accepts_def setString64_def mark_field_def typed_new_def)
  ultimately show ?thesis by (simp add: upcast_def typed_from_def)
qed

section \<open>Witnesses\<close>

theorem vault_store_invariant_witness:
  "map_of (vs_nodes (addNode vn_new (vs_apply (AddNode vn_new) (vs_new 20001)))) 20002 = Some (setNodeID 20002 vn_new)"
proof -
  let ?st = "vs_apply (AddNode vn_new) (vs_new 20001)"
  have "vs_reach ?st" by (rule vs_step, rule vs_start) (simp_all add: vs_new_def)
  moreover have "vs_last ?st = 20001" "getNodeID vn_new = 0" by code_simp+
  ultimately show ?thesis using vault_store_invariant [of ?st vn_new] by simp
qed

definition sample_store :: vault_store where
  "sample_store = addRef 20001 20001 0 (addNode sample_node (vs_new 20001))"

theorem vault_store_roundtrip_witness:
  "\<exists>s st1 st2. vs_Export sample_store \<lparr>s_ver = pvMoul, s_data = [], s_pos = 0\<rparr> = Inr (st1, s) \<and>
    vs_Import ascii_lib (vs_new 1) (s\<lparr>s_pos := 0\<rparr>) = Inr (st2, s) \<and> s_eof s \<and>
    map node_view (vs_nodes st2) = map node_view (vs_nodes sample_store) \<and>
    map ref_view (vs_refs st2) = map ref_view (vs_refs sample_store) \<and> vs_last st2 = vs_last sample_store \<and>
    vs_first st2 = (if vs_nodes sample_store = [] then 1 else fst (hd (vs_nodes sample_store)))"
proof (rule vault_store_roundtrip)
  have id: "getNodeID sample_node = 20001" by code_simp
  have st: "vs_nodes sample_store = [(20001, sample_node)]"
    "vs_refs sample_store = [vr_new\<lparr>vr_parent := 20001, vr_child := 20001, vr_saver := 0\<rparr>]"
    by (simp_all add: sample_store_def addRef_def addNode_def id vs_new_def)
  show "vs_ok ascii_lib pvMoul sample_store"
    by (simp add: vs_ok_def st id sample_node_ok)
  show "refs_fit sample_store" by (simp add: refs_fit_def st vr_new_def ut_new_def)
  have "length (vs_image sample_store) = 95" by code_simp
  then show "length (vs_image sample_store) < 2 ^ 32" by simp
qed

end
