(* ===== verification/Spec2Isabelle.thy ===== *)
theory Spec2Isabelle
  imports Prelude PlasmaVersions HsStream HsStrings RAMStream SizedStream Ciphers EncryptedStream
    TypeTables TypeMap BitVector Location Uoid PageInfo Keys KeyCollector Keyring PageFile RadixSort
    ClassIds ClassNames ClassFactory CoreTypes MathTypes ObjectIO SceneObjects MD5 SumFile
    ServerGuid VaultNode VaultStore
begin

text \<open>
  A verification of the core of libhsplasma, a C++ library that reads and writes the data files of
  the Plasma engine (Uru, Uru Live and its successor, Myst V, Hex Isle).

  \<^bold>\<open>The program.\<close>  All data goes through \<^verbatim>\<open>hsStream\<close>, a stream of bytes that carries a Plasma version;
  everything above it chooses its format by that version.  A page file (\<^verbatim>\<open>.prp\<close>) is a header, the
  objects of the page, and a key index.  A key names an object by location (which page), class and
  name; the resource manager (\<^verbatim>\<open>plResManager\<close>) owns the collector of all keys and the list of pages,
  and reads and writes page files.  Class numbers differ between engines and are translated by
  \<^verbatim>\<open>pdUnifiedTypeMap\<close>.

  \<^bold>\<open>Theories and sources\<close> (under \<^verbatim>\<open>src/core\<close>):
  \<^item> \<^verbatim>\<open>Prelude\<close>: machine integers and their little-endian bytes, the exceptions
    (\<^verbatim>\<open>Debug/hsExceptions.hpp\<close>) as a datatype, results as a sum, lemmas on lists and words.
  \<^item> \<^verbatim>\<open>PlasmaVersions\<close>: \<^verbatim>\<open>Util/PlasmaVersions\<close>; a version is the \<^verbatim>\<open>int\<close> the code keeps.
  \<^item> \<^verbatim>\<open>HsStream\<close>, \<^verbatim>\<open>HsStrings\<close>: \<^verbatim>\<open>Stream/hsStream\<close>.  The virtual operations are a contract, a record of
    version, bytes and position with a state-passing type whose failures are the C++ exceptions; the
    non-virtual ones are definitions over it.  The calculus \<^verbatim>\<open>emits\<close>/\<^verbatim>\<open>parses\<close> and the locale
    \<^verbatim>\<open>codec\<close> say what a writer and a reader of the same data owe each other, and the locale
    \<^verbatim>\<open>stream_impl\<close> what a concrete stream owes the contract.
  \<^item> \<^verbatim>\<open>RAMStream\<close>, \<^verbatim>\<open>SizedStream\<close>: \<^verbatim>\<open>Stream/hsRAMStream\<close> and \<^verbatim>\<open>Stream/pfSizedStream\<close>, the memory
    stream with its growing buffer and the window on another stream; both interpret
    \<^verbatim>\<open>stream_impl\<close>.
  \<^item> \<^verbatim>\<open>Ciphers\<close>, \<^verbatim>\<open>EncryptedStream\<close>: \<^verbatim>\<open>Stream/plEncryptedStream\<close> and the line cipher of
    \<^verbatim>\<open>Stream/hsElfStream\<close>.  AES comes from third-party code and is a parameter, a pair of block
    functions of which the theorems assume that one undoes the other.
  \<^item> \<^verbatim>\<open>TypeTables\<close>, \<^verbatim>\<open>TypeMap\<close>: \<^verbatim>\<open>ResManager/pdUnifiedTypeMap\<close>, its tables and the functions over
    them; the writable table of current class versions is passed as state.
  \<^item> \<^verbatim>\<open>ClassIds\<close>, \<^verbatim>\<open>ClassNames\<close>, \<^verbatim>\<open>ClassFactory\<close>: the names of the classes in the same file, and the factory
    \<^verbatim>\<open>ResManager/plFactory\<close>, whose objects are named by their class.
  \<^item> \<^verbatim>\<open>BitVector\<close>: \<^verbatim>\<open>Util/hsBitVector\<close>.
  \<^item> \<^verbatim>\<open>CoreTypes\<close>: \<^verbatim>\<open>Sys/plUuid\<close>, \<^verbatim>\<open>Sys/plUnifiedTime\<close>, \<^verbatim>\<open>Sys/hsColor\<close>; the conversions of the C library and
    of hexadecimal numbers are parameters.
  \<^item> \<^verbatim>\<open>MathTypes\<close>: \<^verbatim>\<open>Math\<close>, the stream forms of vectors, planes, quaternions, matrices and affine
    parts, with a float as its bits.
  \<^item> \<^verbatim>\<open>ObjectIO\<close>: objects that hold keys.  Readers and writers pass the manager's key store along; the
    calculus \<^verbatim>\<open>kemits\<close>/\<^verbatim>\<open>kparses\<close> extends \<^verbatim>\<open>emits\<close>/\<^verbatim>\<open>parses\<close> to them, and the locale \<^verbatim>\<open>key_codec\<close> is the
    contract of a class with keys.  The base classes \<^verbatim>\<open>hsKeyedObject\<close> and \<^verbatim>\<open>plSynchedObject\<close>.
  \<^item> \<^verbatim>\<open>SceneObjects\<close>: \<^verbatim>\<open>PRP/plSceneNode\<close> and \<^verbatim>\<open>PRP/Object\<close>, scene objects and their interfaces.
  \<^item> \<^verbatim>\<open>MD5\<close>: \<^verbatim>\<open>Util/plMD5\<close>, with the algorithm of RFC 1321 as the
    reference; \<^verbatim>\<open>SumFile\<close>: \<^verbatim>\<open>Util/hsSumFile\<close>.
  \<^item> \<^verbatim>\<open>ServerGuid\<close>, \<^verbatim>\<open>VaultNode\<close>: \<^verbatim>\<open>Vault/plServerGuid\<close> and \<^verbatim>\<open>Vault/plVaultNode\<close>, the nodes of the vault,
    records of optional fields; the abstraction is a finite map from fields to values.
  \<^item> \<^verbatim>\<open>VaultStore\<close>: \<^verbatim>\<open>Vault/plVaultStore\<close>, \<^verbatim>\<open>Vault/plVaultNodeRef\<close> and \<^verbatim>\<open>Vault/plVaultNodeTypes\<close>: the nodes
    by id, the references between them, the vault file, and the typed nodes.
  \<^item> \<^verbatim>\<open>RadixSort\<close>: \<^verbatim>\<open>Util/hsRadixSort\<close>, on linked lists in an explicit memory; its loops follow
    pointers and are partial functions.
  \<^item> \<^verbatim>\<open>Location\<close>, \<^verbatim>\<open>Uoid\<close>, \<^verbatim>\<open>Keys\<close>: \<^verbatim>\<open>PRP/KeyedObject\<close>: locations and load masks, object
    identifiers and index entries, reference-counted handles and the load order of keys.
  \<^item> \<^verbatim>\<open>PageInfo\<close>: \<^verbatim>\<open>PRP/plPageInfo\<close>, the header of a page.
  \<^item> \<^verbatim>\<open>KeyCollector\<close>: \<^verbatim>\<open>ResManager/plKeyCollector\<close>.  Key data lives in cells named by addresses; the
    store keeps, in the order of the C++ maps, a vector of addresses per location and class.
  \<^item> \<^verbatim>\<open>Keyring\<close>, \<^verbatim>\<open>PageFile\<close>: \<^verbatim>\<open>ResManager/plResManager\<close>: keys read and written through the manager, the key
    index of a page, the objects of a page as stubs (\<^verbatim>\<open>PRP/plCreatable\<close>,
    \<^verbatim>\<open>PRP/KeyedObject/hsKeyedObject\<close>), reading, writing, unloading and moving pages.

  \<^bold>\<open>What is shown.\<close>  For every format: what is written is read back, by the version of the stream and
  to the byte, under stated conditions on the data, and where the format or the code loses something a
  theorem says what.  These round trips build on each other: integers and strings, locations,
  identifiers, index entries, the key index of a page, the page header and the page file with all
  its objects.  For the stateful parts: invariants of everything their operations reach (reference
  counts, the key store, the vault store), refinement of an abstract contract (bytes at a position for the streams, a
  set of naturals for the bit vector, a map from fields to values for a vault node), functional specifications (sorting, moving, interning), the
  inverse laws of the ciphers, termination where the code loops until a condition holds, and one
  loop that never ends.

  \<^bold>\<open>Bounds and fuel.\<close>  Stream positions are \<^verbatim>\<open>uint32_t\<close>; theorems on whole streams assume lengths
  below \<open>2 ^ 32\<close>, and below \<open>2 ^ 31\<close> where the code keeps a size in an \<^verbatim>\<open>int\<close>.  No definition takes fuel that could
  run out unseen: counted loops are recursive on their counter, the cipher loops carry a termination
  proof, and the doubling loop of the memory stream and the search loop of \<^verbatim>\<open>hsOrderKeys\<close> are
  partial functions whose divergence is the value \<open>None\<close>.

  \<^bold>\<open>Not modelled.\<close>  Files and the operating system (\<^verbatim>\<open>hsFileStream\<close>, \<^verbatim>\<open>hsStdioStream\<close>,
  \<^verbatim>\<open>hsWindowsStream\<close>, threads), the PRC text form of all classes and its parser, messages of the log,
  callbacks of clients, the PRP classes other than those of the scene, image codecs and other third-party code,
  the network and SDL libraries, the reference counts of vault blobs, the Python bindings and the tools.  The library of strings
  used by the code (\<^verbatim>\<open>string_theory\<close>) is not in the repository: it is a parameter of the readers, the
  record \<^verbatim>\<open>st_lib\<close>.
\<close>

end
